(* ===== verification/Prelude.thy ===== *)
theory Prelude
  imports Main
begin

text \<open>
  Shared vocabulary of the development: the exceptions a Python function can raise and the
  result type that carries them, tables as lists of rows with the SQL statements the code issues
  against them, and the collections of rewrite rules the component theories add to.

  A table is the list of its rows in storage order. \<open>find_row\<close> is a primary key lookup,
  \<open>update_where\<close> an \<open>UPDATE ... WHERE\<close> and \<open>count_where\<close> a
  \<open>SELECT count\<close>. \<open>unique_where\<close> is a (partial) unique index: among the rows that
  satisfy the predicate, no two share the key.
\<close>

named_theorems status_simps \<open>distinctness of the status words\<close>
named_theorems row_simps \<open>reading rows after a statement\<close>
named_theorems result_simps \<open>results and exceptions\<close>

section \<open>Exceptions and results\<close>

datatype exn =
    ValueError
  | TypeError
  | IndexError
  | AttributeError
  | KeyError
  | OverflowError
  | ZoneInfoNotFoundError
  | IntegrityError
  | DataError
  | PaymentCreationError
  | PendingIntentCapError
  | HTTPException nat
  | SendFailed string
  | JWTError
  | OperationalError
  | MultipleResultsFound
  | HtmxRefusal string
  | ImageTooLarge
  | ImageUnreadable
  | DecompressionBombError
  | UnidentifiedImageError
  | OSError
  | SyntaxError
  | ClientError string
  | RedisError
  | ResponseValidationError

definition bind_res :: "exn + 'a \<Rightarrow> ('a \<Rightarrow> exn + 'b) \<Rightarrow> exn + 'b" where
  "bind_res m f = (case m of Inl e \<Rightarrow> Inl e | Inr x \<Rightarrow> f x)"

lemma bind_res_simps [simp, result_simps]:
  "bind_res (Inl e) f = Inl e"
  "bind_res (Inr x) f = f x"
  by (simp_all add: bind_res_def)

lemma bind_res_eq_Inr [result_simps]:
  "bind_res m f = Inr y \<longleftrightarrow> (\<exists>x. m = Inr x \<and> f x = Inr y)"
  by (cases m) simp_all

lemma bind_res_eq_Inl [result_simps]:
  "bind_res m f = Inl e \<longleftrightarrow> m = Inl e \<or> (\<exists>x. m = Inr x \<and> f x = Inl e)"
  by (cases m) simp_all

fun map_res :: "('a \<Rightarrow> exn + 'b) \<Rightarrow> 'a list \<Rightarrow> exn + 'b list" where
  "map_res f [] = Inr []"
| "map_res f (x # xs) = bind_res (f x) (\<lambda>y. bind_res (map_res f xs) (\<lambda>ys. Inr (y # ys)))"

lemma map_res_Inr_map:
  "(\<And>x. x \<in> set xs \<Longrightarrow> f x = Inr (g x)) \<Longrightarrow> map_res f xs = Inr (map g xs)"
  by (induction xs) auto

lemma map_res_eq_Inr:
  "map_res f xs = Inr ys \<longleftrightarrow> list_all2 (\<lambda>x y. f x = Inr y) xs ys"
  by (induction xs arbitrary: ys) (auto simp: result_simps list_all2_Cons1)

fun fold_res :: "('a \<Rightarrow> 's \<Rightarrow> exn + 's) \<Rightarrow> 'a list \<Rightarrow> 's \<Rightarrow> exn + 's" where
  "fold_res f [] s = Inr s"
| "fold_res f (x # xs) s = bind_res (f x s) (fold_res f xs)"

lemma fold_res_append: "fold_res f (xs @ ys) s = bind_res (fold_res f xs s) (fold_res f ys)"
  by (induction xs arbitrary: s) (auto simp: bind_res_def split: sum.splits)

text \<open>An invariant of a loop that may raise.\<close>

lemma fold_res_invariant:
  assumes "fold_res f xs s = Inr s'" "I s" "\<And>x s s'. x \<in> set xs \<Longrightarrow> I s \<Longrightarrow> f x s = Inr s' \<Longrightarrow> I s'"
  shows "I s'"
  using assms by (induction xs arbitrary: s) (auto simp: result_simps)

definition of_option :: "exn \<Rightarrow> 'a option \<Rightarrow> exn + 'a" where
  "of_option e v = (case v of None \<Rightarrow> Inl e | Some x \<Rightarrow> Inr x)"

lemma of_option_simps [simp, result_simps]:
  "of_option e None = Inl e"
  "of_option e (Some x) = Inr x"
  by (simp_all add: of_option_def)

section \<open>Tables\<close>

definition find_row :: "('r \<Rightarrow> int) \<Rightarrow> int \<Rightarrow> 'r list \<Rightarrow> 'r option" where
  "find_row key k rows = List.find (\<lambda>r. key r = k) rows"

definition update_where :: "('r \<Rightarrow> bool) \<Rightarrow> ('r \<Rightarrow> 'r) \<Rightarrow> 'r list \<Rightarrow> 'r list" where
  "update_where P f rows = map (\<lambda>r. if P r then f r else r) rows"

definition count_where :: "('r \<Rightarrow> bool) \<Rightarrow> 'r list \<Rightarrow> nat" where
  "count_where P rows = length (filter P rows)"

definition unique_where :: "('r \<Rightarrow> bool) \<Rightarrow> ('r \<Rightarrow> 'k) \<Rightarrow> 'r list \<Rightarrow> bool" where
  "unique_where P key rows \<longleftrightarrow> distinct (map key (filter P rows))"

definition next_id :: "('r \<Rightarrow> int) \<Rightarrow> 'r list \<Rightarrow> int" where
  "next_id key rows = 1 + fold (\<lambda>r m. max (key r) m) rows 0"

lemma find_row_Nil [simp]: "find_row key k [] = None"
  by (simp add: find_row_def)

lemma find_row_Cons [simp]:
  "find_row key k (r # rows) = (if key r = k then Some r else find_row key k rows)"
  by (simp add: find_row_def)

lemma find_row_append:
  "find_row key k (xs @ ys) = (case find_row key k xs of None \<Rightarrow> find_row key k ys | Some r \<Rightarrow> Some r)"
  by (induction xs) auto

lemma find_row_Some:
  "find_row key k rows = Some r \<Longrightarrow> r \<in> set rows \<and> key r = k"
  by (induction rows) (auto split: if_splits)

lemma find_row_None: "find_row key k rows = None \<longleftrightarrow> (\<forall>r \<in> set rows. key r \<noteq> k)"
  by (induction rows) auto

lemma find_row_unique:
  "distinct (map key rows) \<Longrightarrow> r \<in> set rows \<Longrightarrow> find_row key (key r) rows = Some r"
  by (induction rows) force+

lemma find_row_eq_iff:
  "distinct (map key rows) \<Longrightarrow> find_row key k rows = Some r \<longleftrightarrow> r \<in> set rows \<and> key r = k"
  using find_row_Some find_row_unique by fastforce

lemma update_where_simps [simp]:
  "update_where P f [] = []"
  "update_where P f (r # rows) = (if P r then f r else r) # update_where P f rows"
  by (simp_all add: update_where_def)

lemma length_update_where [simp]: "length (update_where P f rows) = length rows"
  by (simp add: update_where_def)

lemma set_update_where:
  "set (update_where P f rows) = f ` {r \<in> set rows. P r} \<union> {r \<in> set rows. \<not> P r}"
  by (induction rows) auto

lemma update_where_idle: "(\<And>r. r \<in> set rows \<Longrightarrow> \<not> P r) \<Longrightarrow> update_where P f rows = rows"
  by (induction rows) auto

lemma map_update_where [row_simps]:
  "(\<And>r. g (f r) = g r) \<Longrightarrow> map g (update_where P f rows) = map g rows"
  by (induction rows) auto

lemma find_row_update_where [row_simps]:
  assumes "\<And>r. key (f r) = key r"
  shows "find_row key k (update_where P f rows) =
    map_option (\<lambda>r. if P r then f r else r) (find_row key k rows)"
  by (induction rows) (auto simp: assms)

lemma count_where_simps [simp]:
  "count_where P [] = 0"
  "count_where P (r # rows) = (if P r then Suc (count_where P rows) else count_where P rows)"
  by (simp_all add: count_where_def)

lemma count_where_append [simp]:
  "count_where P (xs @ ys) = count_where P xs + count_where P ys"
  by (simp add: count_where_def)

lemma count_where_0: "count_where P rows = 0 \<longleftrightarrow> (\<forall>r \<in> set rows. \<not> P r)"
  by (induction rows) auto

lemma unique_where_Nil [simp]: "unique_where P key []"
  by (simp add: unique_where_def)

lemma unique_where_Cons:
  "unique_where P key (r # rows) \<longleftrightarrow>
     unique_where P key rows \<and> (P r \<longrightarrow> (\<forall>q \<in> set rows. P q \<longrightarrow> key q \<noteq> key r))"
  by (auto simp: unique_where_def image_iff)

lemma unique_where_append:
  "unique_where P key (xs @ [r]) \<longleftrightarrow>
     unique_where P key xs \<and> (P r \<longrightarrow> (\<forall>q \<in> set xs. P q \<longrightarrow> key q \<noteq> key r))"
  by (auto simp: unique_where_def image_iff)

lemma unique_whereD:
  "unique_where P key rows \<Longrightarrow> r \<in> set rows \<Longrightarrow> q \<in> set rows \<Longrightarrow> P r \<Longrightarrow> P q \<Longrightarrow> key r = key q \<Longrightarrow> r = q"
  by (induction rows) (auto simp: unique_where_Cons)

text \<open>
  A statement that moves no row into the index keeps the index: this is how every
  \<open>UPDATE\<close> of the code is seen not to break a partial unique index.
\<close>

lemma unique_where_update:
  assumes "unique_where P key rows"
    and "\<And>r. r \<in> set rows \<Longrightarrow> Q r \<Longrightarrow> P (f r) \<Longrightarrow> P r"
    and "\<And>r. key (f r) = key r"
  shows "unique_where P key (update_where Q f rows)"
  using assms(1,2)
proof (induction rows)
  case Nil
  then show ?case by simp
next
  case (Cons r rows)
  have IH: "unique_where P key (update_where Q f rows)"
    using Cons.prems by (intro Cons.IH) (auto simp: unique_where_Cons)
  show ?case
    using Cons.prems IH by (auto simp: unique_where_Cons set_update_where assms(3))
qed

text \<open>A statement that writes a single row keeps the index when the written key is not taken.\<close>

lemma unique_where_write:
  assumes "unique_where P key rows" "distinct (map pk rows)"
    and "\<And>q. q \<in> set rows \<Longrightarrow> pk q \<noteq> i \<Longrightarrow> P q \<Longrightarrow> key q \<noteq> new"
    and "\<And>r. P (f r) \<Longrightarrow> key (f r) = new"
  shows "unique_where P key (update_where (\<lambda>r. pk r = i) f rows)"
  using assms(1,2,3)
proof (induction rows)
  case Nil
  then show ?case by simp
next
  case (Cons r rows)
  show ?case
  proof (cases "pk r = i")
    case True
    have "pk q \<noteq> i" if "q \<in> set rows" for q
      using Cons.prems(2) that True by (auto simp: rev_image_eqI)
    note others = this
    then have idle: "update_where (\<lambda>r. pk r = i) f rows = rows"
      by (rule update_where_idle)
    have "key q \<noteq> key (f r)" if "q \<in> set rows" "P q" "P (f r)" for q
      using Cons.prems(3) [of q] others [of q] that assms(4) [of r] by simp
    with True idle Cons.prems(1) show ?thesis by (auto simp: unique_where_Cons)
  next
    case False
    have IH: "unique_where P key (update_where (\<lambda>r. pk r = i) f rows)"
      using Cons.prems by (intro Cons.IH) (auto simp: unique_where_Cons)
    have "key q \<noteq> key r" if "q \<in> set (update_where (\<lambda>r. pk r = i) f rows)" "P q" "P r" for q
      using that Cons.prems(1) Cons.prems(3) [of r] False assms(4)
      by (fastforce simp: set_update_where unique_where_Cons)
    with IH False show ?thesis by (simp add: unique_where_Cons)
  qed
qed

lemma fold_max_ge: "m \<le> fold (\<lambda>r m. max (key r) m) rows (m::int)"
proof (induction rows arbitrary: m)
  case (Cons r rows)
  have "m \<le> max (key r) m" by simp
  also have "\<dots> \<le> fold (\<lambda>r m. max (key r) m) rows (max (key r) m)" by (rule Cons)
  finally show ?case by simp
qed simp

lemma fold_max_mem:
  "r \<in> set rows \<Longrightarrow> key r \<le> fold (\<lambda>r m. max (key r) m) rows (m::int)"
proof (induction rows arbitrary: m)
  case (Cons q rows)
  show ?case
  proof (cases "r = q")
    case True
    have "key q \<le> max (key q) m" by simp
    also have "\<dots> \<le> fold (\<lambda>r m. max (key r) m) rows (max (key q) m)" by (rule fold_max_ge)
    finally show ?thesis using True by simp
  next
    case False
    with Cons show ?thesis by simp
  qed
qed simp

lemma next_id_fresh: "r \<in> set rows \<Longrightarrow> key r < next_id key rows"
  using fold_max_mem [of r rows key 0] by (simp add: next_id_def)

lemma next_id_pos: "0 < next_id key rows"
  using fold_max_ge [of 0 key rows] by (simp add: next_id_def)

lemma next_id_notin: "next_id key rows \<notin> key ` set rows"
  by (auto dest: next_id_fresh [where key = key])

lemma find_row_next_id [row_simps]: "find_row key (next_id key rows) rows = None"
  by (auto simp: find_row_None dest: next_id_fresh [where key = key])

lemma list_ex_key: "list_ex (\<lambda>r. key r = k) rows \<longleftrightarrow> k \<in> set (map key rows)"
  by (induction rows) auto

text \<open>\<open>ORDER BY key DESC LIMIT 1\<close>: a row with the greatest key, the first of those in storage.\<close>

fun latest_row :: "('r \<Rightarrow> int) \<Rightarrow> 'r list \<Rightarrow> 'r option" where
  "latest_row key [] = None"
| "latest_row key (r # rows) =
     (case latest_row key rows of
        None \<Rightarrow> Some r
      | Some q \<Rightarrow> if key q > key r then Some q else Some r)"

lemma latest_row_None [simp]: "latest_row key rows = None \<longleftrightarrow> rows = []"
  by (cases rows) (auto split: option.splits)

lemma latest_row_Some: "latest_row key rows = Some r \<Longrightarrow> r \<in> set rows"
  by (induction rows arbitrary: r) (auto split: option.splits if_splits)

lemma latest_row_max: "latest_row key rows = Some r \<Longrightarrow> q \<in> set rows \<Longrightarrow> key q \<le> key r"
  by (induction rows arbitrary: r) (force split: option.splits if_splits)+

lemma latest_row_unique:
  assumes "r \<in> set rows" "\<And>q. q \<in> set rows \<Longrightarrow> q = r"
  shows "latest_row key rows = Some r"
  using assms latest_row_None [of key rows] latest_row_Some [of key rows]
  by (cases "latest_row key rows") auto

section \<open>Contracts between components\<close>

text \<open>
  A conditional claim on a shared resource: \<open>claim k s\<close> says whether this caller won and
  gives the new state; \<open>res k\<close> is the resource the attempt is about. The provider promises
  that winning settles the resource, that a settled resource is lost to everyone and that nothing
  unsettles it. The client concludes that among any sequence of attempts each resource is won at
  most once.
\<close>

locale claim_once =
  fixes claim :: "'k \<Rightarrow> 's \<Rightarrow> bool \<times> 's"
    and res :: "'k \<Rightarrow> 'r"
    and settled :: "'r \<Rightarrow> 's \<Rightarrow> bool"
  assumes claim_settles: "fst (claim k s) \<Longrightarrow> settled (res k) (snd (claim k s))"
    and settled_loses: "settled (res k) s \<Longrightarrow> \<not> fst (claim k s)"
    and settled_stays: "settled r s \<Longrightarrow> settled r (snd (claim k s))"
begin

text \<open>The attempts won in a sequence, in order.\<close>

fun won :: "'k list \<Rightarrow> 's \<Rightarrow> 'k list" where
  "won [] s = []"
| "won (k # ks) s = (let (b, s') = claim k s in if b then k # won ks s' else won ks s')"

lemma settled_not_won: "settled r s \<Longrightarrow> k \<in> set (won ks s) \<Longrightarrow> res k \<noteq> r"
proof (induction ks arbitrary: s)
  case (Cons j ks)
  then show ?case
    using settled_loses [of j s] settled_stays [of r s j]
    by (cases "claim j s") (auto split: if_splits)
qed simp

lemma won_at_most_once: "distinct (map res (won ks s))"
proof (induction ks arbitrary: s)
  case (Cons k ks)
  obtain b s' where c: "claim k s = (b, s')" by force
  have "settled (res k) s'" if b using claim_settles [of k s] c that by simp
  with Cons [of s'] c show ?case using settled_not_won [of "res k" s' _ ks] by fastforce
qed simp

end

end
