(* ===== verification/Python_Values.thy ===== *)
theory Python_Values
  imports Prelude
begin

text \<open>
  The Python values that reach the program from JSON documents and JSON columns, and the string
  operations of the language it applies to them. Strings are lists of characters with code points
  0 to 255; floats are not represented, and neither is the interpreter's limit of 4300 digits.
  What counts as white space is \<open>str.isspace\<close> on that range.
\<close>

section \<open>Values of a JSON document\<close>

datatype pyval =
    PNone
  | PBool bool
  | PInt int
  | PStr string
  | PList "pyval list"
  | PDict "(string \<times> pyval) list"

text \<open>\<open>bool(v)\<close>, and the members that iterating over the value yields.\<close>

fun truthy :: "pyval \<Rightarrow> bool" where
  "truthy PNone = False"
| "truthy (PBool b) = b"
| "truthy (PInt n) = (n \<noteq> 0)"
| "truthy (PStr s) = (s \<noteq> [])"
| "truthy (PList vs) = (vs \<noteq> [])"
| "truthy (PDict kvs) = (kvs \<noteq> [])"

fun py_iter :: "pyval \<Rightarrow> exn + pyval list" where
  "py_iter (PList vs) = Inr vs"
| "py_iter (PStr s) = Inr (map (\<lambda>c. PStr [c]) s)"
| "py_iter (PDict kvs) = Inr (map (\<lambda>kv. PStr (fst kv)) kvs)"
| "py_iter _ = Inl TypeError"

text \<open>\<open>n == v\<close> for an integer \<open>n\<close>: a Boolean is an integer in Python.\<close>

fun int_eq :: "int \<Rightarrow> pyval \<Rightarrow> bool" where
  "int_eq n (PInt m) = (n = m)"
| "int_eq n (PBool b) = (n = (if b then 1 else 0))"
| "int_eq n _ = False"

text \<open>\<open>n in v\<close> for an integer \<open>n\<close>: a string refuses it, a dictionary compares its keys.\<close>

fun int_in :: "int \<Rightarrow> pyval \<Rightarrow> exn + bool" where
  "int_in n (PList vs) = Inr (list_ex (int_eq n) vs)"
| "int_in n (PDict kvs) = Inr False"
| "int_in n _ = Inl TypeError"

text \<open>\<open>d.get(k, default)\<close>; what is not a dictionary has no such method.\<close>

fun py_get :: "pyval \<Rightarrow> string \<Rightarrow> pyval \<Rightarrow> exn + pyval" where
  "py_get (PDict kvs) k d = Inr (case map_of kvs k of None \<Rightarrow> d | Some v \<Rightarrow> v)"
| "py_get _ k d = Inl AttributeError"

section \<open>Strings\<close>

definition is_space :: "char \<Rightarrow> bool" where
  "is_space c = (let n = (of_char c :: nat) in n \<in> {9, 10, 11, 12, 13, 28, 29, 30, 31, 32, 133, 160})"

definition strip :: "string \<Rightarrow> string" where
  "strip s = rev (dropWhile is_space (rev (dropWhile is_space s)))"

fun split_on :: "char \<Rightarrow> string \<Rightarrow> string list" where
  "split_on c [] = [[]]"
| "split_on c (x # xs) =
     (if x = c then [] # split_on c xs
      else (case split_on c xs of [] \<Rightarrow> [[x]] | w # ws \<Rightarrow> (x # w) # ws))"

lemma split_on_not_Nil [simp]: "split_on c s \<noteq> []"
  by (induction s) (auto split: list.splits)

lemma split_on_no_sep: "c \<notin> set s \<Longrightarrow> split_on c s = [s]"
  by (induction s) auto

lemma split_on_append:
  "split_on c (xs @ c # ys) = split_on c xs @ split_on c ys"
  by (induction xs) (auto split: list.splits)

lemma last_split_on_append: "last (split_on c (xs @ c # ys)) = last (split_on c ys)"
  by (simp add: split_on_append)

text \<open>\<open>c.join(parts)\<close> undoes \<open>split\<close>.\<close>

fun join_on :: "char \<Rightarrow> string list \<Rightarrow> string" where
  "join_on c [] = []"
| "join_on c [w] = w"
| "join_on c (w # v # ws) = w @ c # join_on c (v # ws)"

lemma join_on_Cons: "ws \<noteq> [] \<Longrightarrow> join_on c (w # ws) = w @ c # join_on c ws"
  by (cases ws) auto

lemma join_split: "join_on c (split_on c s) = s"
proof (induction s)
  case (Cons x xs)
  obtain w ws where w: "split_on c xs = w # ws"
    by (cases "split_on c xs") auto
  show ?case
  proof (cases "x = c")
    case True
    with Cons show ?thesis by (simp add: join_on_Cons)
  next
    case False
    with Cons w show ?thesis by (cases ws) auto
  qed
qed simp

definition starts_with :: "string \<Rightarrow> string \<Rightarrow> bool" where
  "starts_with s p = (take (length p) s = p)"

lemma starts_with_append [simp]: "starts_with (p @ s) p"
  by (simp add: starts_with_def)

lemma starts_with_iff: "starts_with s p \<longleftrightarrow> (\<exists>t. s = p @ t)"
  by (metis append_take_drop_id starts_with_append starts_with_def)

definition ends_with :: "string \<Rightarrow> string \<Rightarrow> bool" where
  "ends_with s p = starts_with (rev s) (rev p)"

section \<open>Integers in strings\<close>

definition digit_val :: "char \<Rightarrow> int option" where
  "digit_val c = (let n = (of_char c :: nat) in if 48 \<le> n \<and> n \<le> 57 then Some (int (n - 48)) else None)"

text \<open>
  \<open>int(s)\<close>: white space around, one sign, decimal digits with single underscores between them.
  The accumulator says whether the last character was a digit.
\<close>

fun int_digits :: "int \<Rightarrow> bool \<Rightarrow> string \<Rightarrow> int option" where
  "int_digits acc d [] = (if d then Some acc else None)"
| "int_digits acc d (c # cs) =
     (case digit_val c of
        Some n \<Rightarrow> int_digits (10 * acc + n) True cs
      | None \<Rightarrow> if c = CHR ''_'' \<and> d then int_digits acc False cs else None)"

definition py_int :: "string \<Rightarrow> int option" where
  "py_int s =
     (case strip s of
        [] \<Rightarrow> None
      | c # cs \<Rightarrow>
          if c = CHR ''-'' then map_option uminus (int_digits 0 False cs)
          else if c = CHR ''+'' then int_digits 0 False cs
          else int_digits 0 False (c # cs))"

text \<open>\<open>str(n)\<close>.\<close>

definition digit_char :: "nat \<Rightarrow> char" where
  "digit_char d = char_of (48 + d)"

function nat_str :: "nat \<Rightarrow> string" where
  "nat_str n = (if n < 10 then [digit_char n] else nat_str (n div 10) @ [digit_char (n mod 10)])"
  by pat_completeness auto
termination
  by (relation "measure id") auto

declare nat_str.simps [simp del]

definition int_str :: "int \<Rightarrow> string" where
  "int_str n = (if n < 0 then CHR ''-'' # nat_str (nat (- n)) else nat_str (nat n))"

lemma digit_val_digit_char: "d < 10 \<Longrightarrow> digit_val (digit_char d) = Some (int d)"
  by (simp add: digit_val_def digit_char_def of_char_of)

lemma int_digits_append:
  "int_digits acc d xs = Some m \<Longrightarrow> digit_val c = Some n \<Longrightarrow>
     int_digits acc d (xs @ [c]) = Some (10 * m + n)"
  by (induction acc d xs rule: int_digits.induct) (auto split: option.splits if_splits)

lemma int_digits_single: "digit_val c = Some n \<Longrightarrow> int_digits 0 False [c] = Some n"
  by simp

lemma nat_str_not_Nil [simp]: "nat_str n \<noteq> []"
  by (subst nat_str.simps) simp

lemma int_digits_nat_str: "int_digits 0 False (nat_str n) = Some (int n)"
proof (induction n rule: nat_str.induct)
  case (1 n)
  show ?case
  proof (cases "n < 10")
    case True
    then show ?thesis by (subst nat_str.simps) (simp add: digit_val_digit_char)
  next
    case False
    with 1 have IH: "int_digits 0 False (nat_str (n div 10)) = Some (int (n div 10))" by simp
    have "int_digits 0 False (nat_str (n div 10) @ [digit_char (n mod 10)]) =
        Some (10 * int (n div 10) + int (n mod 10))"
      by (rule int_digits_append [OF IH]) (simp add: digit_val_digit_char)
    moreover have "10 * int (n div 10) + int (n mod 10) = int n" by presburger
    ultimately show ?thesis using False by (subst nat_str.simps) simp
  qed
qed

definition is_digit :: "char \<Rightarrow> bool" where
  "is_digit c = (digit_val c \<noteq> None)"

lemma nat_str_digits: "c \<in> set (nat_str n) \<Longrightarrow> is_digit c"
proof (induction n rule: nat_str.induct)
  case (1 n)
  then show ?case
    by (subst (asm) nat_str.simps)
       (auto simp: is_digit_def digit_val_digit_char split: if_splits)
qed

lemma digit_not_space: "is_digit c \<Longrightarrow> \<not> is_space c"
  by (auto simp: is_digit_def digit_val_def is_space_def Let_def split: if_splits)

lemma dropWhile_none: "(\<And>x. x \<in> set xs \<Longrightarrow> \<not> P x) \<Longrightarrow> dropWhile P xs = xs"
  by (cases xs) auto

lemma strip_no_space:
  assumes "\<And>c. c \<in> set s \<Longrightarrow> \<not> is_space c"
  shows "strip s = s"
proof -
  have "dropWhile is_space s = s" "dropWhile is_space (rev s) = rev s"
    by (rule dropWhile_none; simp add: assms)+
  then show ?thesis by (simp add: strip_def)
qed

lemma py_int_nat_str: "py_int (nat_str n) = Some (int n)"
proof -
  have s: "strip (nat_str n) = nat_str n"
    by (rule strip_no_space) (auto dest: nat_str_digits digit_not_space)
  obtain c cs where c: "nat_str n = c # cs"
    by (cases "nat_str n") auto
  then have "is_digit c" using nat_str_digits [of c n] by simp
  then have "c \<noteq> CHR ''-''" "c \<noteq> CHR ''+''"
    by (auto simp: is_digit_def digit_val_def)
  then show ?thesis
    using int_digits_nat_str [of n] s c by (simp add: py_int_def)
qed

lemma nat_str_inj: "nat_str m = nat_str n \<Longrightarrow> m = n"
  by (metis int_digits_nat_str of_nat_eq_iff option.inject)

lemma nat_str_no_minus: "nat_str n \<noteq> CHR ''-'' # s"
proof
  assume "nat_str n = CHR ''-'' # s"
  then have "is_digit (CHR ''-'')" using nat_str_digits [of "CHR ''-''" n] by simp
  then show False by (simp add: is_digit_def digit_val_def)
qed

lemma int_str_inj:
  assumes "int_str a = int_str b"
  shows "a = b"
proof (cases "a < 0"; cases "b < 0")
  assume "a < 0" "b < 0"
  with assms have "nat (- a) = nat (- b)" by (simp add: int_str_def nat_str_inj)
  with \<open>a < 0\<close> \<open>b < 0\<close> show ?thesis by simp
next
  assume "a < 0" "\<not> b < 0"
  with assms nat_str_no_minus [of "nat b"] show ?thesis by (metis int_str_def)
next
  assume "\<not> a < 0" "b < 0"
  with assms nat_str_no_minus [of "nat a"] show ?thesis by (metis int_str_def)
next
  assume "\<not> a < 0" "\<not> b < 0"
  with assms have "nat a = nat b" by (simp add: int_str_def nat_str_inj)
  with \<open>\<not> a < 0\<close> \<open>\<not> b < 0\<close> show ?thesis by simp
qed

section \<open>Values as text\<close>

text \<open>
  \<open>repr(s)\<close>: single quotes unless the string has one and no double quote; control characters,
  the no-break space and the soft hyphen are escaped.
\<close>

definition hex_digit :: "nat \<Rightarrow> char" where
  "hex_digit d = (if d < 10 then char_of (48 + d) else char_of (87 + d))"

definition repr_char :: "char \<Rightarrow> char \<Rightarrow> string" where
  "repr_char q c =
     (let n = (of_char c :: nat) in
      if c = q \<or> n = 92 then [CHR 0x5C, c]
      else if n = 9 then [CHR 0x5C, CHR ''t'']
      else if n = 10 then [CHR 0x5C, CHR ''n'']
      else if n = 13 then [CHR 0x5C, CHR ''r'']
      else if n < 32 \<or> 127 \<le> n \<and> n \<le> 160 \<or> n = 173
           then [CHR 0x5C, CHR ''x'', hex_digit (n div 16), hex_digit (n mod 16)]
      else [c])"

definition repr_str :: "string \<Rightarrow> string" where
  "repr_str s =
     (let q = (if CHR 0x27 \<in> set s \<and> CHR 0x22 \<notin> set s then CHR 0x22 else CHR 0x27)
      in q # concat (map (repr_char q) s) @ [q])"

fun join_comma :: "string list \<Rightarrow> string" where
  "join_comma [] = []"
| "join_comma [w] = w"
| "join_comma (w # v # ws) = w @ '', '' @ join_comma (v # ws)"

fun py_repr :: "pyval \<Rightarrow> string" where
  "py_repr PNone = ''None''"
| "py_repr (PBool b) = (if b then ''True'' else ''False'')"
| "py_repr (PInt n) = int_str n"
| "py_repr (PStr s) = repr_str s"
| "py_repr (PList vs) = ''['' @ join_comma (map py_repr vs) @ '']''"
| "py_repr (PDict kvs) = ''{'' @ join_comma (map (\<lambda>(k, v). repr_str k @ '': '' @ py_repr v) kvs) @ ''}''"

definition py_str :: "pyval \<Rightarrow> string" where
  "py_str v = (case v of PStr s \<Rightarrow> s | _ \<Rightarrow> py_repr v)"

end
