(* ===== verification/Calendar.thy ===== *)
theory Calendar
  imports Prelude
begin

text \<open>
  The part of Python's \<open>datetime\<close> and \<open>calendar\<close> modules the program computes
  with. A moment is the number of microseconds since the start of 1 January of year 1; a
  \<open>datetime\<close> is a wall clock reading on that scale with the UTC offset of its zone, or
  with none when it is naive. The proleptic Gregorian calendar is not cut off after year 9999.
\<close>

section \<open>Days of the Gregorian calendar\<close>

definition day_us :: int where "day_us = 86400000000"
definition hour_us :: int where "hour_us = 3600000000"
definition minute_us :: int where "minute_us = 60000000"
definition second_us :: int where "second_us = 1000000"

lemmas time_units = day_us_def hour_us_def minute_us_def second_us_def

definition is_leap :: "int \<Rightarrow> bool" where
  "is_leap y \<longleftrightarrow> y mod 4 = 0 \<and> (y mod 100 \<noteq> 0 \<or> y mod 400 = 0)"

definition month_days :: "int \<Rightarrow> int \<Rightarrow> int" where
  "month_days y m =
     (if m = 2 then (if is_leap y then 29 else 28)
      else if m \<in> {4, 6, 9, 11} then 30 else 31)"

definition year_days :: "int \<Rightarrow> int" where
  "year_days y = (if is_leap y then 366 else 365)"

definition days_before_year :: "int \<Rightarrow> int" where
  "days_before_year y = (y - 1) * 365 + (y - 1) div 4 - (y - 1) div 100 + (y - 1) div 400"

definition days_before_month :: "int \<Rightarrow> int \<Rightarrow> int" where
  "days_before_month y m = sum_list (map (\<lambda>k. month_days y (int k)) [1..<nat m])"

text \<open>The day number, 0 for 1 January of year 1 (Python's ordinal minus one), and back.\<close>

definition day_of :: "int \<Rightarrow> int \<Rightarrow> int \<Rightarrow> int" where
  "day_of y m d = days_before_year y + days_before_month y m + (d - 1)"

fun find_month :: "int \<Rightarrow> nat \<Rightarrow> nat \<Rightarrow> int \<Rightarrow> int \<times> int" where
  "find_month y 0 m n = (int m, n + 1)"
| "find_month y (Suc k) m n =
     (if n < month_days y (int m) then (int m, n + 1)
      else find_month y k (Suc m) (n - month_days y (int m)))"

definition year_of_day :: "int \<Rightarrow> int \<times> int" where
  "year_of_day n =
     (let n400 = n div 146097; r400 = n mod 146097;
          n100 = r400 div 36524; r100 = r400 mod 36524;
          n4 = r100 div 1461; r4 = r100 mod 1461;
          n1 = r4 div 365; r1 = r4 mod 365;
          y = 400 * n400 + 100 * n100 + 4 * n4 + n1 + 1
      in if n1 = 4 \<or> n100 = 4 then (y - 1, 365) else (y, r1))"

definition civil :: "int \<Rightarrow> int \<times> int \<times> int" where
  "civil n = (let (y, k) = year_of_day n; (m, d) = find_month y 11 1 k in (y, m, d))"

definition weekday :: "int \<Rightarrow> int" where
  "weekday n = n mod 7"

definition valid_civil :: "int \<Rightarrow> int \<Rightarrow> int \<Rightarrow> bool" where
  "valid_civil y m d \<longleftrightarrow> 1 \<le> m \<and> m \<le> 12 \<and> 1 \<le> d \<and> d \<le> month_days y m"

lemma month_days_bounds: "28 \<le> month_days y m" "month_days y m \<le> 31"
  by (auto simp: month_days_def)

lemma month_days_leap_cong: "is_leap y = is_leap z \<Longrightarrow> month_days y m = month_days z m"
  by (simp add: month_days_def)

lemma days_before_month_unfold:
  "days_before_month y 1 = 0"
  "days_before_month y 2 = 31"
  "days_before_month y 3 = 31 + month_days y 2"
  "days_before_month y 4 = 62 + month_days y 2"
  "days_before_month y 5 = 92 + month_days y 2"
  "days_before_month y 6 = 123 + month_days y 2"
  "days_before_month y 7 = 153 + month_days y 2"
  "days_before_month y 8 = 184 + month_days y 2"
  "days_before_month y 9 = 215 + month_days y 2"
  "days_before_month y 10 = 245 + month_days y 2"
  "days_before_month y 11 = 276 + month_days y 2"
  "days_before_month y 12 = 306 + month_days y 2"
  "days_before_month y 13 = 337 + month_days y 2"
  by (simp_all add: days_before_month_def upt_rec month_days_def)

lemma month_range: "1 \<le> m \<Longrightarrow> m \<le> 12 \<Longrightarrow>
  m = 1 \<or> m = 2 \<or> m = 3 \<or> m = 4 \<or> m = 5 \<or> m = 6 \<or> m = 7 \<or> m = 8 \<or> m = 9 \<or> m = 10 \<or> m = 11 \<or> m = (12::int)"
  by presburger

lemma days_before_month_Suc:
  assumes "1 \<le> m" "m \<le> 12"
  shows "days_before_month y (m + 1) = days_before_month y m + month_days y m"
  using month_range [OF assms]
  by (elim disjE) (simp_all add: days_before_month_unfold month_days_def)

lemma days_before_month_13: "days_before_month y 13 = year_days y"
  by (simp add: days_before_month_unfold month_days_def year_days_def)

lemma days_before_month_nonneg:
  assumes "1 \<le> m" "m \<le> 12"
  shows "0 \<le> days_before_month y m"
  using month_range [OF assms]
  by (elim disjE) (simp_all add: days_before_month_unfold month_days_def)

lemma days_before_month_year:
  assumes "1 \<le> m" "m \<le> 12"
  shows "days_before_month y m + month_days y m \<le> year_days y"
  using month_range [OF assms]
  by (elim disjE) (simp_all add: days_before_month_unfold month_days_def year_days_def)

lemma div_pred:
  fixes y n :: int
  assumes "0 < n"
  shows "y div n = (y - 1) div n + (if y mod n = 0 then 1 else 0)"
proof (cases "y mod n = 0")
  case True
  have "(y - 1) div n = y div n - 1"
    by (rule int_div_pos_eq [where r = "n - 1"])
       (use assms True mult_div_mod_eq [of n y] in \<open>simp_all add: algebra_simps\<close>)
  with True show ?thesis by simp
next
  case False
  have "0 \<le> y mod n" "y mod n < n" using assms by simp_all
  with False have "(y - 1) div n = y div n"
    by (intro int_div_pos_eq [where r = "y mod n - 1"])
       (use mult_div_mod_eq [of n y] in \<open>simp_all\<close>)
  with False show ?thesis by simp
qed

lemma leap_rule_arith:
  fixes p4 p100 p400 q4 q100 q400 y :: int
  assumes "q4 = p4 + (if a then 1 else 0)" "q100 = p100 + (if b then 1 else 0)"
    "q400 = p400 + (if c then 1 else 0)" "c \<Longrightarrow> b" "b \<Longrightarrow> a"
  shows "y * 365 + q4 - q100 + q400 =
    (y - 1) * 365 + p4 - p100 + p400 + (if a \<and> (\<not> b \<or> c) then 366 else 365)"
  using assms by (cases a; cases b; cases c) simp_all

lemma mod_0_trans: "(m::int) dvd n \<Longrightarrow> y mod n = 0 \<Longrightarrow> y mod m = 0"
  by (metis dvd_trans mod_eq_0_iff_dvd)

lemma days_before_year_Suc: "days_before_year (y + 1) = days_before_year y + year_days y"
proof -
  have "(y + 1 - 1) * 365 + (y + 1 - 1) div 4 - (y + 1 - 1) div 100 + (y + 1 - 1) div 400 =
      (y - 1) * 365 + (y - 1) div 4 - (y - 1) div 100 + (y - 1) div 400 +
      (if y mod 4 = 0 \<and> (\<not> y mod 100 = 0 \<or> y mod 400 = 0) then 366 else 365)"
    unfolding add_diff_cancel_right'
    by (rule leap_rule_arith)
       (rule div_pred, simp, rule div_pred, simp, rule div_pred, simp,
        erule mod_0_trans [rotated], simp, erule mod_0_trans [rotated], simp)
  then show ?thesis
    unfolding days_before_year_def year_days_def is_leap_def .
qed

lemma year_days_pos: "365 \<le> year_days y" "year_days y \<le> 366"
  by (simp_all add: year_days_def)

lemma days_before_year_mono: "y \<le> z \<Longrightarrow> days_before_year y \<le> days_before_year z"
proof (induction z rule: int_ge_induct)
  case (step z)
  then show ?case using year_days_pos(1) [of z] by (simp add: days_before_year_Suc)
qed simp

lemma year_unique:
  assumes "days_before_year y + k = days_before_year z + l"
    and "0 \<le> k" "k < year_days y" "0 \<le> l" "l < year_days z"
  shows "y = z \<and> k = l"
proof -
  have "y = z"
  proof (rule ccontr)
    assume "y \<noteq> z"
    then consider "y + 1 \<le> z" | "z + 1 \<le> y" by linarith
    then show False
      using assms days_before_year_Suc
      by cases (smt (verit) days_before_year_mono)+
  qed
  with assms(1) show ?thesis by simp
qed

lemma days_before_year_split:
  assumes "y - 1 = 400 * a + 100 * b + 4 * c + d"
    and "0 \<le> b" "b \<le> 3" "0 \<le> c" "c \<le> 24" "0 \<le> d" "d \<le> 3"
  shows "days_before_year y = 146097 * a + 36524 * b + 1461 * c + 365 * d"
proof -
  have "(y - 1) div 4 = 100 * a + 25 * b + c"
    by (rule int_div_pos_eq [where r = d]) (use assms in simp_all)
  moreover have "(y - 1) div 100 = 4 * a + b"
    by (rule int_div_pos_eq [where r = "4 * c + d"]) (use assms in simp_all)
  moreover have "(y - 1) div 400 = a"
    by (rule int_div_pos_eq [where r = "100 * b + 4 * c + d"]) (use assms in simp_all)
  ultimately show ?thesis by (simp add: days_before_year_def assms(1))
qed

lemma year_of_day_correct:
  assumes "year_of_day n = (y, k)"
  shows "days_before_year y + k = n" "0 \<le> k" "k < year_days y"
proof -
  define a r where "a = n div 146097" and "r = n mod 146097"
  define b s where "b = r div 36524" and "s = r mod 36524"
  define c t where "c = s div 1461" and "t = s mod 1461"
  define d u where "d = t div 365" and "u = t mod 365"
  have n: "n = 146097 * a + 36524 * b + 1461 * c + 365 * d + u"
    by (simp add: a_def r_def b_def s_def c_def t_def d_def u_def)
  have r: "0 \<le> r" "r < 146097" by (simp_all add: r_def)
  have s: "0 \<le> s" "s < 36524" by (simp_all add: s_def)
  have t: "0 \<le> t" "t < 1461" by (simp_all add: t_def)
  have u: "0 \<le> u" "u < 365" by (simp_all add: u_def)
  have b: "0 \<le> b" "b \<le> 4" using r by (simp_all add: b_def)
  have c: "0 \<le> c" "c \<le> 24" using s by (simp_all add: c_def)
  have d: "0 \<le> d" "d \<le> 4" using t by (simp_all add: d_def)
  have b4: "b = 4 \<Longrightarrow> c = 0 \<and> d = 0 \<and> u = 0"
  proof -
    assume "b = 4"
    then have "s = r - 36524 * 4" by (simp add: s_def b_def minus_mult_div_eq_mod [symmetric])
    with r s have "s = 0" by simp
    then show ?thesis by (simp add: c_def d_def u_def t_def)
  qed
  have d4: "d = 4 \<Longrightarrow> u = 0"
  proof -
    assume "d = 4"
    then have "u = t - 365 * 4" by (simp add: u_def d_def minus_mult_div_eq_mod [symmetric])
    with t u show ?thesis by simp
  qed
  have yk: "(y, k) = (if d = 4 \<or> b = 4 then (400 * a + 100 * b + 4 * c + d, 365)
      else (400 * a + 100 * b + 4 * c + d + 1, u))"
    unfolding assms [symmetric] year_of_day_def Let_def
      r_def [symmetric] a_def [symmetric] b_def [symmetric] s_def [symmetric]
      c_def [symmetric] t_def [symmetric] d_def [symmetric] u_def [symmetric]
    by (simp add: algebra_simps)
  have all: "days_before_year y + k = n \<and> 0 \<le> k \<and> k < year_days y"
  proof (cases "d = 4 \<or> b = 4")
    case True
    show ?thesis
    proof (cases "b = 4")
      case True
      with b4 yk have y: "y = 400 * a + 400" and k: "k = 365" by simp_all
      have "is_leap y" by (simp add: is_leap_def y)
      moreover have "days_before_year y = 146097 * a + 145731"
        by (simp add: days_before_year_split [where a = a and b = 3 and c = 24 and d = 3] y)
      ultimately show ?thesis using True b4 n k by (simp add: year_days_def)
    next
      case False
      with True have d: "d = 4" by simp
      with d4 yk False have y: "y = 400 * a + 100 * b + 4 * c + 4" and k: "k = 365" by simp_all
      have "s = 1461 * c + t" by (simp add: c_def t_def)
      moreover have "t = 365 * d + u" by (simp add: d_def u_def)
      ultimately have "c \<noteq> 24" using s d d4 by auto
      with c have c: "0 \<le> c" "c \<le> 23" by simp_all
      have "y mod 4 = 0" by (simp add: y)
      moreover have "y mod 100 = 4 * c + 4"
        by (rule int_mod_pos_eq [where q = "4 * a + b"]) (use c in \<open>simp_all add: y\<close>)
      ultimately have "is_leap y" using c by (simp add: is_leap_def)
      moreover have "days_before_year y = 146097 * a + 36524 * b + 1461 * c + 1095"
        using False b c
        by (simp add: days_before_year_split [where a = a and b = b and c = c and d = 3] y)
      ultimately show ?thesis using n d d4 k by (simp add: year_days_def)
    qed
  next
    case False
    with b d have bd: "b \<le> 3" "d \<le> 3" by simp_all
    from False yk have y: "y = 400 * a + 100 * b + 4 * c + d + 1" and k: "k = u" by simp_all
    have "days_before_year y = 146097 * a + 36524 * b + 1461 * c + 365 * d"
      using b c d bd by (simp add: days_before_year_split [where a = a and b = b and c = c and d = d] y)
    with n k u year_days_pos(1) [of y] show ?thesis by simp
  qed
  then show "days_before_year y + k = n" "0 \<le> k" "k < year_days y" by simp_all
qed

lemma find_month_correct:
  assumes "find_month y k m n = (mo, d)" "int m + int k = 12" "1 \<le> m" "0 \<le> n"
    and "days_before_month y (int m) + n < year_days y"
  shows "valid_civil y mo d \<and> days_before_month y mo + (d - 1) = days_before_month y (int m) + n"
  using assms
proof (induction y k m n rule: find_month.induct)
  case (1 y m n)
  then have "int m = 12" by simp
  with 1 days_before_month_13 [of y] days_before_month_Suc [of 12 y] show ?case
    by (auto simp: valid_civil_def)
next
  case (2 y k m n)
  show ?case
  proof (cases "n < month_days y (int m)")
    case True
    with 2 show ?thesis by (auto simp: valid_civil_def)
  next
    case False
    have Suc: "days_before_month y (int (Suc m)) = days_before_month y (int m) + month_days y (int m)"
      using days_before_month_Suc [of "int m" y] 2 by (simp add: add.commute)
    show ?thesis
      using "2.IH" [OF False] "2.prems" False Suc by simp
  qed
qed

text \<open>Every day has a valid civil date, and the date gives the day back.\<close>

lemma civil_correct:
  assumes "civil n = (y, m, d)"
  shows "valid_civil y m d" "day_of y m d = n"
proof -
  obtain y' k where yk: "year_of_day n = (y', k)" by force
  obtain mo d' where md: "find_month y' 11 1 k = (mo, d')" by force
  from assms yk md have eq: "y' = y" "mo = m" "d' = d" by (auto simp: civil_def)
  note k = year_of_day_correct [OF yk]
  have "valid_civil y' mo d' \<and> days_before_month y' mo + (d' - 1) = days_before_month y' (int 1) + k"
    using k by (intro find_month_correct [OF md]) (simp_all add: days_before_month_unfold)
  with k(1) eq show "valid_civil y m d" "day_of y m d = n"
    by (simp_all add: day_of_def days_before_month_unfold)
qed

lemma days_before_month_strict:
  assumes "1 \<le> m" "m < l" "l \<le> 12"
  shows "days_before_month y m + month_days y m \<le> days_before_month y l"
  using assms(2,3)
proof (induction l rule: int_gr_induct)
  case base
  then show ?case using assms(1) days_before_month_Suc [of m y] by simp
next
  case (step l)
  with assms(1) days_before_month_Suc [of l y] month_days_bounds(1) [of y l] show ?case by simp
qed

lemma month_unique:
  assumes "days_before_month y m + d = days_before_month y l + e"
    and "1 \<le> m" "m \<le> 12" "1 \<le> l" "l \<le> 12" "0 \<le> d" "d < month_days y m" "0 \<le> e" "e < month_days y l"
  shows "m = l \<and> d = e"
proof -
  have "m = l"
    using assms days_before_month_strict [of m l y] days_before_month_strict [of l m y]
    by (cases m l rule: linorder_cases) linarith+
  with assms(1) show ?thesis by simp
qed

lemma civil_day_of:
  assumes "valid_civil y m d"
  shows "civil (day_of y m d) = (y, m, d)"
proof -
  obtain y' m' d' where c: "civil (day_of y m d) = (y', m', d')" by (cases "civil (day_of y m d)")
  note c' = civil_correct [OF c]
  have range: "0 \<le> days_before_month z k + (e - 1) \<and> days_before_month z k + (e - 1) < year_days z"
    if "valid_civil z k e" for z k e
    using that days_before_month_nonneg [of k z] days_before_month_year [of k z]
    by (auto simp: valid_civil_def)
  have "days_before_year y' + (days_before_month y' m' + (d' - 1)) =
      days_before_year y + (days_before_month y m + (d - 1))"
    using c'(2) by (simp add: day_of_def)
  from year_unique [OF this] range [OF c'(1)] range [OF assms]
  have y: "y' = y" and yk: "days_before_month y' m' + (d' - 1) = days_before_month y m + (d - 1)"
    by auto
  from y yk have k: "days_before_month y m' + (d' - 1) = days_before_month y m + (d - 1)" by simp
  have "m' = m \<and> d' - 1 = d - 1"
    using c'(1) assms y by (intro month_unique [OF k]) (simp_all add: valid_civil_def)
  with y c show ?thesis by simp
qed

lemma day_of_unique:
  "valid_civil y m d \<Longrightarrow> valid_civil y' m' d' \<Longrightarrow> day_of y m d = day_of y' m' d' \<Longrightarrow>
     y = y' \<and> m = m' \<and> d = d'"
  by (metis civil_day_of prod.inject)

lemma whole_days: "t div day_us * day_us \<le> t \<and> t < (t div day_us + 1) * day_us"
proof -
  have "0 < day_us" by (simp add: day_us_def)
  then show ?thesis
    using div_mult_mod_eq [of t day_us] pos_mod_bound [of day_us t] pos_mod_sign [of day_us t]
    unfolding distrib_right by linarith
qed

section \<open>Datetimes\<close>

record datetime =
  dt_wall :: int
  dt_off :: "int option"

text \<open>
  The instant a datetime denotes on the UTC scale. A naive one denotes the instant of the same
  reading in UTC: that is what \<open>normalize_utc\<close> makes of it, and how the database driver
  that drops the zone stored it.
\<close>

definition instant :: "datetime \<Rightarrow> int" where
  "instant d = dt_wall d - (case dt_off d of None \<Rightarrow> 0 | Some off \<Rightarrow> off)"

definition utc_datetime :: "int \<Rightarrow> datetime" where
  "utc_datetime t = \<lparr>dt_wall = t, dt_off = Some 0\<rparr>"

definition dt_day :: "datetime \<Rightarrow> int" where
  "dt_day d = dt_wall d div day_us"

definition dt_time :: "datetime \<Rightarrow> int" where
  "dt_time d = dt_wall d mod day_us"

definition dt_civil :: "datetime \<Rightarrow> int \<times> int \<times> int" where
  "dt_civil d = civil (dt_day d)"

text \<open>\<open>d.replace(year, month, day)\<close>: the time of day and the zone stay.\<close>

definition dt_replace :: "int \<Rightarrow> int \<Rightarrow> int \<Rightarrow> datetime \<Rightarrow> datetime" where
  "dt_replace y m d v = v\<lparr>dt_wall := day_of y m d * day_us + dt_time v\<rparr>"

text \<open>\<open>d + timedelta\<close>: on the wall clock, the zone stays.\<close>

definition dt_add :: "int \<Rightarrow> datetime \<Rightarrow> datetime" where
  "dt_add us v = v\<lparr>dt_wall := dt_wall v + us\<rparr>"

text \<open>\<open>normalize_utc\<close>: a naive value is taken as UTC, an aware one is returned as it is.\<close>

definition norm_dt :: "datetime \<Rightarrow> datetime" where
  "norm_dt v = (case dt_off v of None \<Rightarrow> v\<lparr>dt_off := Some 0\<rparr> | Some _ \<Rightarrow> v)"

fun normalize_utc :: "datetime option \<Rightarrow> datetime option" where
  "normalize_utc None = None"
| "normalize_utc (Some v) = Some (norm_dt v)"

definition aware :: "datetime \<Rightarrow> bool" where
  "aware v \<longleftrightarrow> dt_off v \<noteq> None"

lemma aware_norm [simp]: "aware (norm_dt v)"
  by (simp add: aware_def norm_dt_def split: option.splits)

lemma instant_norm [simp]: "instant (norm_dt v) = instant v"
  by (simp add: instant_def norm_dt_def split: option.splits)

lemma norm_norm [simp]: "norm_dt (norm_dt v) = norm_dt v"
  by (simp add: norm_dt_def split: option.splits)

lemma wall_norm [simp]: "dt_wall (norm_dt v) = dt_wall v"
  by (simp add: norm_dt_def split: option.splits)

lemma norm_aware: "aware v \<Longrightarrow> norm_dt v = v"
  by (auto simp: aware_def norm_dt_def)

lemma normalize_utc_eq_None [simp]: "normalize_utc v = None \<longleftrightarrow> v = None"
  by (cases v) simp_all

lemma instant_utc [simp]: "instant (utc_datetime t) = t"
  by (simp add: instant_def utc_datetime_def)

lemma instant_dt_add [simp]: "instant (dt_add us v) = instant v + us"
  by (simp add: instant_def dt_add_def)

lemma wall_split: "dt_wall v = dt_day v * day_us + dt_time v"
  by (simp add: dt_day_def dt_time_def)

lemma dt_time_range: "0 \<le> dt_time v" "dt_time v < day_us"
  by (simp_all add: dt_time_def day_us_def)

lemma dt_replace_day [simp]: "dt_day (dt_replace y m d v) = day_of y m d"
  using dt_time_range [of v] by (simp add: dt_day_def dt_replace_def day_us_def)

lemma dt_replace_time [simp]: "dt_time (dt_replace y m d v) = dt_time v"
  using dt_time_range [of v] by (simp add: dt_time_def dt_replace_def day_us_def)

lemma dt_replace_off [simp]: "dt_off (dt_replace y m d v) = dt_off v"
  by (simp add: dt_replace_def)

lemma dt_replace_civil [simp]:
  "valid_civil y m d \<Longrightarrow> dt_civil (dt_replace y m d v) = (y, m, d)"
  by (simp add: dt_civil_def civil_day_of)

lemma dt_civil_valid:
  assumes "dt_civil v = (y, m, d)"
  shows "valid_civil y m d" "day_of y m d = dt_day v"
  using civil_correct [of "dt_day v" y m d] assms by (simp_all add: dt_civil_def)

end
