(* ===== verification/Schema.thy ===== *)
theory Schema
  imports Python_Values Calendar
begin

text \<open>
  The tables of the application (\<open>app/models\<close>): one record per row class, the database as
  the record of its tables, and the constraints the schema enforces on every statement. Columns
  typed JSON hold Python values. Moments that the code only compares as instants are microseconds
  on the UTC scale; moments whose calendar fields are computed with are datetimes.
\<close>

section \<open>Rows\<close>

record user =
  user_id :: int
  user_email :: string
  user_password_hash :: string
  user_name :: string
  user_timezone :: string
  user_is_blocked :: bool
  user_created_at :: int

record ad =
  ad_id :: int
  ad_user_id :: int
  ad_title :: string
  ad_text :: string
  ad_images :: "string list option"
  ad_status :: string
  ad_created_at :: int

record account =
  acc_id :: int
  acc_user_id :: int
  acc_type :: string
  acc_credentials :: string
  acc_session_data :: "string option"
  acc_status :: string
  acc_last_synced_at :: "int option"
  acc_last_sync_result :: "string option"
  acc_created_at :: int

record group =
  grp_id :: int
  grp_user_id :: int
  grp_account_id :: int
  grp_messenger_type :: string
  grp_external_id :: string
  grp_name :: string
  grp_is_active :: bool
  grp_last_error :: "string option"
  grp_error_at :: "int option"
  grp_missing_since :: "int option"
  grp_created_at :: int

record schedule =
  sch_id :: int
  sch_ad_id :: int
  sch_account_id :: "int option"
  sch_group_ids :: pyval
  sch_days_of_week :: pyval
  sch_times_of_day :: pyval
  sch_timezone :: string
  sch_is_active :: bool
  sch_next_run_at :: "int option"
  sch_created_at :: int

record send_log =
  log_id :: int
  log_user_id :: int
  log_schedule_id :: "int option"
  log_ad_id :: "int option"
  log_group_id :: "int option"
  log_ad_title :: "string option"
  log_ad_text :: "string option"
  log_ad_images :: "string list option"
  log_group_name :: "string option"
  log_messenger_type :: "string option"
  log_task_id :: "string option"
  log_status :: string
  log_error_message :: "string option"
  log_sent_at :: int

record subscription =
  sub_id :: int
  sub_user_id :: int
  sub_expires_at :: datetime
  sub_is_active :: bool
  sub_has_free_access :: bool
  sub_created_at :: int

record payment =
  pay_id :: int
  pay_user_id :: int
  pay_yookassa_id :: "string option"
  pay_status :: string
  pay_amount_value :: string
  pay_amount_currency :: string
  pay_kind :: string
  pay_plan :: "string option"
  pay_switch_authorized :: "bool option"
  pay_messages_count :: "int option"
  pay_package_name :: "string option"
  pay_created_at :: "datetime option"
  pay_confirmed_at :: "datetime option"

record db =
  db_users :: "user list"
  db_ads :: "ad list"
  db_accounts :: "account list"
  db_groups :: "group list"
  db_schedules :: "schedule list"
  db_send_logs :: "send_log list"
  db_subscriptions :: "subscription list"
  db_payments :: "payment list"

definition empty_db :: db where
  "empty_db = \<lparr>db_users = [], db_ads = [], db_accounts = [], db_groups = [], db_schedules = [],
     db_send_logs = [], db_subscriptions = [], db_payments = []\<rparr>"

section \<open>Status words\<close>

definition AD_STATUS_DRAFT :: string where "AD_STATUS_DRAFT = ''draft''"
definition AD_STATUS_PUBLISHED :: string where "AD_STATUS_PUBLISHED = ''published''"

definition STATUS_PENDING :: string where "STATUS_PENDING = ''pending''"
definition STATUS_SUCCEEDED :: string where "STATUS_SUCCEEDED = ''succeeded''"
definition STATUS_CANCELED :: string where "STATUS_CANCELED = ''canceled''"
definition STATUS_EXPIRED :: string where "STATUS_EXPIRED = ''expired''"
definition TERMINAL_STATUSES :: "string set" where
  "TERMINAL_STATUSES = {STATUS_SUCCEEDED, STATUS_CANCELED}"
definition AWAITING_STATUSES :: "string set" where
  "AWAITING_STATUSES = {STATUS_PENDING}"

definition KIND_PACKAGE :: string where "KIND_PACKAGE = ''package''"
definition KIND_SUBSCRIPTION :: string where "KIND_SUBSCRIPTION = ''subscription''"

lemmas payment_words =
  STATUS_PENDING_def STATUS_SUCCEEDED_def STATUS_CANCELED_def STATUS_EXPIRED_def
  KIND_PACKAGE_def KIND_SUBSCRIPTION_def

lemma payment_status_distinct [status_simps]:
  "STATUS_PENDING \<noteq> STATUS_SUCCEEDED" "STATUS_SUCCEEDED \<noteq> STATUS_PENDING"
  "STATUS_PENDING \<noteq> STATUS_CANCELED" "STATUS_CANCELED \<noteq> STATUS_PENDING"
  "STATUS_PENDING \<noteq> STATUS_EXPIRED" "STATUS_EXPIRED \<noteq> STATUS_PENDING"
  "STATUS_SUCCEEDED \<noteq> STATUS_CANCELED" "STATUS_CANCELED \<noteq> STATUS_SUCCEEDED"
  "STATUS_SUCCEEDED \<noteq> STATUS_EXPIRED" "STATUS_EXPIRED \<noteq> STATUS_SUCCEEDED"
  "STATUS_CANCELED \<noteq> STATUS_EXPIRED" "STATUS_EXPIRED \<noteq> STATUS_CANCELED"
  "KIND_PACKAGE \<noteq> KIND_SUBSCRIPTION" "KIND_SUBSCRIPTION \<noteq> KIND_PACKAGE"
  by (simp_all add: payment_words)

lemma terminal_iff [status_simps]:
  "STATUS_SUCCEEDED \<in> TERMINAL_STATUSES" "STATUS_CANCELED \<in> TERMINAL_STATUSES"
  "STATUS_PENDING \<notin> TERMINAL_STATUSES" "STATUS_EXPIRED \<notin> TERMINAL_STATUSES"
  by (simp_all add: TERMINAL_STATUSES_def payment_words)

lemma ad_status_distinct [status_simps]:
  "AD_STATUS_DRAFT \<noteq> AD_STATUS_PUBLISHED" "AD_STATUS_PUBLISHED \<noteq> AD_STATUS_DRAFT"
  by (simp_all add: AD_STATUS_DRAFT_def AD_STATUS_PUBLISHED_def)

section \<open>Constraints of the schema\<close>

text \<open>The partial unique index \<open>uq_payments_open_subscription_intent\<close> and the predicate it carries.\<close>

definition open_intent :: "payment \<Rightarrow> bool" where
  "open_intent p \<longleftrightarrow> pay_kind p = KIND_SUBSCRIPTION \<and> pay_status p = STATUS_PENDING"

definition uq_payments_open_intent :: "payment list \<Rightarrow> bool" where
  "uq_payments_open_intent ps \<longleftrightarrow> unique_where open_intent pay_user_id ps"

text \<open>\<open>unique=True\<close> on the provider's id; a missing id does not count.\<close>

definition uq_payments_yookassa :: "payment list \<Rightarrow> bool" where
  "uq_payments_yookassa ps \<longleftrightarrow> unique_where (\<lambda>p. pay_yookassa_id p \<noteq> None) pay_yookassa_id ps"

text \<open>The partial unique index \<open>uq_subscriptions_active_user\<close>.\<close>

definition uq_subscriptions_active :: "subscription list \<Rightarrow> bool" where
  "uq_subscriptions_active ss \<longleftrightarrow> unique_where sub_is_active sub_user_id ss"

text \<open>The check \<open>ck_schedules_active_requires_next_run\<close>: \<open>NOT (is_active AND next_run_at IS NULL)\<close>.\<close>

definition ck_active_requires_next_run :: "schedule \<Rightarrow> bool" where
  "ck_active_requires_next_run s \<longleftrightarrow> \<not> (sch_is_active s \<and> sch_next_run_at s = None)"

text \<open>\<open>UniqueConstraint("account_id", "group_external_id")\<close>.\<close>

definition uq_groups_account_external :: "group list \<Rightarrow> bool" where
  "uq_groups_account_external gs \<longleftrightarrow>
     unique_where (\<lambda>_. True) (\<lambda>g. (grp_account_id g, grp_external_id g)) gs"

definition user_exists :: "db \<Rightarrow> int \<Rightarrow> bool" where
  "user_exists d u \<longleftrightarrow> u \<in> user_id ` set (db_users d)"

text \<open>What every commit leaves in force.\<close>

definition payments_ok :: "payment list \<Rightarrow> bool" where
  "payments_ok ps \<longleftrightarrow>
     distinct (map pay_id ps) \<and> uq_payments_open_intent ps \<and> uq_payments_yookassa ps"

definition subscriptions_ok :: "subscription list \<Rightarrow> bool" where
  "subscriptions_ok ss \<longleftrightarrow> distinct (map sub_id ss) \<and> uq_subscriptions_active ss"

definition schedules_ok :: "schedule list \<Rightarrow> bool" where
  "schedules_ok ss \<longleftrightarrow> distinct (map sch_id ss) \<and> (\<forall>s \<in> set ss. ck_active_requires_next_run s)"

definition groups_ok :: "group list \<Rightarrow> bool" where
  "groups_ok gs \<longleftrightarrow> distinct (map grp_id gs) \<and> uq_groups_account_external gs"

definition money_ok :: "db \<Rightarrow> bool" where
  "money_ok d \<longleftrightarrow> payments_ok (db_payments d) \<and> subscriptions_ok (db_subscriptions d)"

section \<open>Inserting a row\<close>

text \<open>
  \<open>add\<close> and \<open>flush\<close>: the statement is refused (an \<open>IntegrityError\<close>, here
  \<open>None\<close>) when the owner does not exist or a unique index would be broken.
\<close>

definition insert_subscription :: "subscription \<Rightarrow> db \<Rightarrow> db option" where
  "insert_subscription s d =
     (if user_exists d (sub_user_id s) \<and>
         \<not> (sub_is_active s \<and>
            list_ex (\<lambda>r. sub_is_active r \<and> sub_user_id r = sub_user_id s) (db_subscriptions d))
      then Some (d\<lparr>db_subscriptions := db_subscriptions d @
             [s\<lparr>sub_id := next_id sub_id (db_subscriptions d)\<rparr>]\<rparr>)
      else None)"

definition insert_payment :: "payment \<Rightarrow> db \<Rightarrow> (int \<times> db) option" where
  "insert_payment p d =
     (if user_exists d (pay_user_id p) \<and>
         \<not> (open_intent p \<and>
            list_ex (\<lambda>r. open_intent r \<and> pay_user_id r = pay_user_id p) (db_payments d)) \<and>
         \<not> (pay_yookassa_id p \<noteq> None \<and>
            list_ex (\<lambda>r. pay_yookassa_id r = pay_yookassa_id p) (db_payments d))
      then let i = next_id pay_id (db_payments d)
           in Some (i, d\<lparr>db_payments := db_payments d @ [p\<lparr>pay_id := i\<rparr>]\<rparr>)
      else None)"

lemma next_id_distinct:
  "distinct (map key rows) \<Longrightarrow> key r = next_id key rows \<Longrightarrow> distinct (map key (rows @ [r]))"
  using next_id_notin [of key rows] by simp

lemma insert_subscription_ok:
  assumes "insert_subscription s d = Some d'" "subscriptions_ok (db_subscriptions d)"
  shows "subscriptions_ok (db_subscriptions d')"
  using assms
  by (auto simp: insert_subscription_def subscriptions_ok_def uq_subscriptions_active_def
      unique_where_append list_ex_iff next_id_notin split: if_splits)

lemma insert_payment_ok:
  assumes "insert_payment p d = Some (i, d')" "payments_ok (db_payments d)"
  shows "payments_ok (db_payments d')"
  using assms next_id_notin [of pay_id "db_payments d"]
  by (auto simp: insert_payment_def payments_ok_def uq_payments_open_intent_def
      uq_payments_yookassa_def unique_where_append list_ex_iff open_intent_def Let_def
      split: if_splits)

lemma insert_payment_frame:
  "insert_payment p d = Some (i, d') \<Longrightarrow>
     db_subscriptions d' = db_subscriptions d \<and> db_users d' = db_users d \<and>
     i = next_id pay_id (db_payments d) \<and> db_payments d' = db_payments d @ [p\<lparr>pay_id := i\<rparr>]"
  by (auto simp: insert_payment_def Let_def split: if_splits)

lemma insert_subscription_frame:
  "insert_subscription s d = Some d' \<Longrightarrow>
     db_payments d' = db_payments d \<and> db_users d' = db_users d \<and>
     db_subscriptions d' = db_subscriptions d @ [s\<lparr>sub_id := next_id sub_id (db_subscriptions d)\<rparr>]"
  by (auto simp: insert_subscription_def split: if_splits)

lemma money_ok_empty [simp]: "money_ok empty_db"
  by (simp add: money_ok_def empty_db_def payments_ok_def subscriptions_ok_def
      uq_payments_open_intent_def uq_payments_yookassa_def uq_subscriptions_active_def)

section \<open>Sample rows\<close>

text \<open>Concrete rows at which the properties are applied.\<close>

definition sample_user :: user where
  "sample_user = \<lparr>user_id = 1, user_email = ''a@b'', user_password_hash = '''', user_name = ''a'',
     user_timezone = ''UTC'', user_is_blocked = False, user_created_at = 0\<rparr>"

definition sample_subscription :: subscription where
  "sample_subscription = \<lparr>sub_id = 1, sub_user_id = 1, sub_expires_at = utc_datetime 50,
     sub_is_active = True, sub_has_free_access = False, sub_created_at = 0\<rparr>"

definition sample_db :: db where
  "sample_db = empty_db\<lparr>db_users := [sample_user], db_subscriptions := [sample_subscription]\<rparr>"

definition sample_ad :: ad where
  "sample_ad = \<lparr>ad_id = 1, ad_user_id = 1, ad_title = ''sale'', ad_text = ''text'', ad_images = None,
     ad_status = AD_STATUS_PUBLISHED, ad_created_at = 0\<rparr>"

definition sample_account :: account where
  "sample_account = \<lparr>acc_id = 1, acc_user_id = 1, acc_type = ''tg_user'', acc_credentials = '''',
     acc_session_data = None, acc_status = ''active'', acc_last_synced_at = None,
     acc_last_sync_result = None, acc_created_at = 0\<rparr>"

definition sample_group :: group where
  "sample_group = \<lparr>grp_id = 1, grp_user_id = 1, grp_account_id = 1, grp_messenger_type = ''tg_user'',
     grp_external_id = ''-100'', grp_name = ''market'', grp_is_active = True, grp_last_error = None,
     grp_error_at = None, grp_missing_since = None, grp_created_at = 0\<rparr>"

end
