(* ===== verification/Subscription_Period.thy ===== *)
theory Subscription_Period
  imports Schema
begin

text \<open>
  \<open>app/application/billing/subscription_period.py\<close>: the date arithmetic of a subscription,
  functions from values to values. A paid month runs from the later of the current expiry and
  today and ends on the same day of the next month, clamped to its last day; the verdict whether
  a subscription row opens the product is read off the row and the present moment.
\<close>

section \<open>The functions\<close>

definition next_month :: "int \<Rightarrow> int \<Rightarrow> int \<times> int" where
  "next_month y m = (y + (if m = 12 then 1 else 0), m mod 12 + 1)"

definition add_one_month :: "datetime \<Rightarrow> datetime" where
  "add_one_month v =
     (let (y, m, d) = dt_civil v;
          (year, month) = next_month y m;
          day = min d (month_days year month)
      in dt_replace year month day v)"

definition subscription_is_live :: "datetime option \<Rightarrow> datetime \<Rightarrow> bool" where
  "subscription_is_live expires_at now =
     (case normalize_utc expires_at of
        None \<Rightarrow> False
      | Some e \<Rightarrow> instant e > instant (norm_dt now))"

definition access_is_open :: "subscription option \<Rightarrow> datetime \<Rightarrow> bool" where
  "access_is_open s now =
     (case s of
        None \<Rightarrow> False
      | Some r \<Rightarrow>
          if \<not> sub_is_active r then False
          else if sub_has_free_access r then True
          else subscription_is_live (Some (sub_expires_at r)) now)"

text \<open>The attribute \<open>days\<close> of a difference is the floor of its number of days.\<close>

definition days_left :: "datetime option \<Rightarrow> datetime \<Rightarrow> int option" where
  "days_left expires_at now =
     (case normalize_utc expires_at of
        None \<Rightarrow> None
      | Some e \<Rightarrow> Some ((instant e - instant (norm_dt now)) div day_us))"

definition countdown_base :: "datetime option \<Rightarrow> datetime \<Rightarrow> datetime" where
  "countdown_base current now =
     (let now_utc = norm_dt now
      in case normalize_utc current of
           None \<Rightarrow> now_utc
         | Some base \<Rightarrow> if instant base \<le> instant now_utc then now_utc else base)"

definition next_expiry :: "datetime option \<Rightarrow> datetime \<Rightarrow> datetime" where
  "next_expiry current now = add_one_month (countdown_base current now)"

section \<open>The month\<close>

lemma next_month_valid:
  assumes "1 \<le> m" "m \<le> 12"
  shows "1 \<le> snd (next_month y m)" "snd (next_month y m) \<le> 12"
  using assms by (auto simp: next_month_def)

text \<open>The first day of the next month comes exactly after the last day of this one.\<close>

lemma next_month_first:
  assumes "1 \<le> m" "m \<le> 12"
  shows "day_of (fst (next_month y m)) (snd (next_month y m)) 1 = day_of y m 1 + month_days y m"
proof (cases "m = 12")
  case True
  then show ?thesis
    using days_before_month_Suc [of 12 y] days_before_month_13 [of y] days_before_month_unfold(1) [of "y + 1"]
    by (simp add: next_month_def day_of_def days_before_year_Suc)
next
  case False
  with assms have "m mod 12 = m" by simp
  with False assms days_before_month_Suc [of m y] show ?thesis
    by (simp add: next_month_def day_of_def)
qed

lemma day_of_shift: "day_of y m d = day_of y m 1 + (d - 1)"
  by (simp add: day_of_def)

definition month_later :: "int \<Rightarrow> int \<Rightarrow> int \<Rightarrow> int \<times> int \<times> int" where
  "month_later y m d =
     (let (y', m') = next_month y m in (y', m', min d (month_days y' m')))"

lemma month_later_valid:
  assumes "valid_civil y m d" "month_later y m d = (y', m', d')"
  shows "valid_civil y' m' d'"
  using assms next_month_valid [of m y] month_days_bounds(1) [of y' m']
  by (auto simp: month_later_def valid_civil_def min_def split: prod.splits)

lemma month_later_distance:
  assumes "valid_civil y m d" "month_later y m d = (y', m', d')"
  shows "28 \<le> day_of y' m' d' - day_of y m d" "day_of y' m' d' - day_of y m d \<le> 31"
proof -
  have eq: "y' = fst (next_month y m)" "m' = snd (next_month y m)" "d' = min d (month_days y' m')"
    using assms(2) by (auto simp: month_later_def split: prod.splits)
  have m: "1 \<le> m" "m \<le> 12" "1 \<le> d" "d \<le> month_days y m"
    using assms(1) by (simp_all add: valid_civil_def)
  have diff: "day_of y' m' d' - day_of y m d = month_days y m + d' - d"
    using next_month_first [OF m(1,2), of y] eq(1,2) day_of_shift [of y' m' d'] day_of_shift [of y m d]
    by simp
  show "28 \<le> day_of y' m' d' - day_of y m d" "day_of y' m' d' - day_of y m d \<le> 31"
    using diff eq(3) m month_days_bounds [of y m] month_days_bounds [of y' m'] by linarith+
qed

lemma add_one_month_unfold:
  "dt_civil v = (y, m, d) \<Longrightarrow> month_later y m d = (y', m', d') \<Longrightarrow>
     add_one_month v = dt_replace y' m' d' v"
  by (auto simp: add_one_month_def month_later_def split: prod.splits)

lemma dt_distance:
  assumes "dt_off v = dt_off w" "dt_time v = dt_time w"
  shows "instant w - instant v = (dt_day w - dt_day v) * day_us"
  using assms wall_split [of v] wall_split [of w]
  by (simp add: instant_def algebra_simps)

lemma add_one_month_range:
  "28 * day_us \<le> instant (add_one_month v) - instant v"
  "instant (add_one_month v) - instant v \<le> 31 * day_us"
proof -
  obtain y m d where c: "dt_civil v = (y, m, d)" by (cases "dt_civil v")
  obtain y' m' d' where l: "month_later y m d = (y', m', d')" by (cases "month_later y m d")
  note v = dt_civil_valid [OF c]
  note dist = month_later_distance [OF v(1) l]
  have "instant (add_one_month v) - instant v = (day_of y' m' d' - day_of y m d) * day_us"
    using dt_distance [of v "add_one_month v"] v(2) by (simp add: add_one_month_unfold [OF c l])
  with dist show "28 * day_us \<le> instant (add_one_month v) - instant v"
    "instant (add_one_month v) - instant v \<le> 31 * day_us"
    by (simp_all add: day_us_def)
qed

lemma add_one_month_later: "instant v < instant (add_one_month v)"
  using add_one_month_range(1) [of v] by (simp add: day_us_def)

section \<open>The expiry\<close>

lemma countdown_base_instant:
  "instant (countdown_base current now) =
     (case current of None \<Rightarrow> instant now | Some c \<Rightarrow> max (instant c) (instant now))"
  by (cases current) (auto simp: countdown_base_def Let_def max_def)

lemma countdown_base_aware: "aware (countdown_base current now)"
  by (cases current) (simp_all add: countdown_base_def Let_def)

lemma dt_off_add_one_month [simp]: "dt_off (add_one_month v) = dt_off v"
  by (simp add: add_one_month_def Let_def split: prod.splits)

lemma next_expiry_aware: "aware (next_expiry current now)"
  using countdown_base_aware [of current now] by (simp add: next_expiry_def aware_def)

lemma next_expiry_range:
  "instant (countdown_base current now) + 28 * day_us \<le> instant (next_expiry current now)"
  "instant (next_expiry current now) \<le> instant (countdown_base current now) + 31 * day_us"
  using add_one_month_range [of "countdown_base current now"] by (simp_all add: next_expiry_def)

lemma next_expiry_after_now: "instant now + 28 * day_us \<le> instant (next_expiry current now)"
  using next_expiry_range(1) [of current now]
  by (cases current) (simp_all add: countdown_base_instant)

lemma next_expiry_after_current: "instant c + 28 * day_us \<le> instant (next_expiry (Some c) now)"
  using next_expiry_range(1) [of "Some c" now] by (simp add: countdown_base_instant)

lemma next_expiry_live: "subscription_is_live (Some (next_expiry current now)) now"
  using next_expiry_after_now [of now current]
  by (simp add: subscription_is_live_def day_us_def)

lemma subscription_is_live_Some [simp]:
  "subscription_is_live (Some e) now \<longleftrightarrow> instant now < instant e"
  by (simp add: subscription_is_live_def)

lemma access_is_open_iff:
  "access_is_open (Some r) now \<longleftrightarrow>
     sub_is_active r \<and> (sub_has_free_access r \<or> instant now < instant (sub_expires_at r))"
  by (simp add: access_is_open_def)

section \<open>Properties\<close>

text \<open>
  a month later is the same wall clock time and zone on the same day of the next month (of the
  next year after December), or on that month's last day when it is shorter; the result is a valid
  date, 28 to 31 days after the start.
\<close>

theorem add_one_month_clamps:
  assumes "dt_civil v = (y, m, d)"
  shows "dt_civil (add_one_month v) =
      (let y' = (if m = 12 then y + 1 else y); m' = (if m = 12 then 1 else m + 1)
       in (y', m', min d (month_days y' m')))
    \<and> dt_time (add_one_month v) = dt_time v \<and> dt_off (add_one_month v) = dt_off v
    \<and> 28 * day_us \<le> instant (add_one_month v) - instant v
    \<and> instant (add_one_month v) - instant v \<le> 31 * day_us"
proof -
  obtain y' m' d' where l: "month_later y m d = (y', m', d')" by (cases "month_later y m d")
  note v = dt_civil_valid [OF assms]
  have "m = 12 \<or> m mod 12 = m" using v(1) by (cases "m = 12") (simp_all add: valid_civil_def)
  then have "month_later y m d =
      (let y' = (if m = 12 then y + 1 else y); m' = (if m = 12 then 1 else m + 1)
       in (y', m', min d (month_days y' m')))"
    by (auto simp: month_later_def next_month_def Let_def)
  with month_later_valid [OF v(1) l] l add_one_month_range [of v] show ?thesis
    by (simp add: add_one_month_unfold [OF assms l])
qed

theorem add_one_month_clamps_witness:
  "dt_civil (add_one_month (utc_datetime (day_of 2024 1 31 * day_us + 5))) = (2024, 2, 29) \<and>
   dt_civil (add_one_month (utc_datetime (day_of 2025 12 31 * day_us))) = (2026, 1, 31)"
proof -
  have c: "dt_civil (utc_datetime (day_of 2024 1 31 * day_us + 5)) = (2024, 1, 31)"
    "dt_civil (utc_datetime (day_of 2025 12 31 * day_us)) = (2025, 12, 31)"
    by code_simp+
  show ?thesis
    using add_one_month_clamps [OF c(1)] add_one_month_clamps [OF c(2)]
    by (simp add: Let_def month_days_def is_leap_def)
qed

text \<open>
  a confirmed payment loses nothing that was paid for and never buys a month in the past: the
  new expiry is 28 to 31 days after the later of the present moment and the current expiry, naive
  and aware values alike, and the subscription is live under it.
\<close>

theorem next_expiry_keeps_remainder:
  "instant now + 28 * day_us \<le> instant (next_expiry current now) \<and>
   (case current of
      None \<Rightarrow> instant (next_expiry current now) \<le> instant now + 31 * day_us
    | Some c \<Rightarrow> instant c + 28 * day_us \<le> instant (next_expiry current now) \<and>
        instant (next_expiry current now) \<le> max (instant c) (instant now) + 31 * day_us) \<and>
   subscription_is_live (Some (next_expiry current now)) now \<and>
   aware (next_expiry current now)"
  using next_expiry_after_now [of now current] next_expiry_range(2) [of current now]
    next_expiry_live [of current now] next_expiry_aware [of current now]
    next_expiry_after_current [of _ now]
  by (cases current) (simp_all add: countdown_base_instant)

text \<open>
  the access verdict: no row and an inactive row close the product whatever the date, free
  access on an active row opens it whatever the date, and otherwise the expiry must lie strictly
  in the future. The number of days left is the number of whole days between the two moments,
  absent exactly when there is no expiry.
\<close>

theorem access_verdict:
  "access_is_open s now =
     (\<exists>r. s = Some r \<and> sub_is_active r \<and>
        (sub_has_free_access r \<or> instant now < instant (sub_expires_at r))) \<and>
   (case e of
      None \<Rightarrow> days_left e now = None \<and> \<not> subscription_is_live e now
    | Some v \<Rightarrow> \<exists>n. days_left e now = Some n \<and> n * day_us \<le> instant v - instant now \<and>
        instant v - instant now < (n + 1) * day_us)"
proof -
  have "access_is_open s now =
     (\<exists>r. s = Some r \<and> sub_is_active r \<and>
        (sub_has_free_access r \<or> instant now < instant (sub_expires_at r)))"
    by (cases s) (simp_all add: access_is_open_def)
  moreover have "t div day_us * day_us \<le> t \<and> t < (t div day_us + 1) * day_us" for t
    by (rule whole_days)
  ultimately show ?thesis
    by (cases e) (simp_all add: days_left_def subscription_is_live_def)
qed

end
