(* ===== verification/Subscriptions.thy ===== *)
theory Subscriptions
  imports Subscription_Period
begin

text \<open>
  The access service \<open>app/services/subscription_service.py\<close> (the trial at registration and
  the access verdict) and the conditions of \<open>app/repositories/user.py\<close> that say the same rule
  in SQL: the access axis of the admin list, the paying users and the ones who did not renew.
\<close>

section \<open>The service\<close>

definition TRIAL_DAYS :: int where "TRIAL_DAYS = 5"

definition ACCESS_CLOSED_REASON :: string where "ACCESS_CLOSED_REASON = ''access_closed''"

definition active_rows :: "int \<Rightarrow> db \<Rightarrow> subscription list" where
  "active_rows u d = filter (\<lambda>s. sub_user_id s = u \<and> sub_is_active s) (db_subscriptions d)"

definition trial_row :: "int \<Rightarrow> int \<Rightarrow> subscription" where
  "trial_row now u =
     \<lparr>sub_id = 0, sub_user_id = u,
      sub_expires_at = dt_add (TRIAL_DAYS * day_us) (utc_datetime now),
      sub_is_active = True, sub_has_free_access = False, sub_created_at = now\<rparr>"

text \<open>
  \<open>start_trial\<close>: the insert runs in a savepoint, so a refused insert leaves the outer
  transaction alive; the refusal is raised again only when no active row explains it.
\<close>

definition start_trial :: "int \<Rightarrow> int \<Rightarrow> db \<Rightarrow> exn + db" where
  "start_trial now u d =
     (case insert_subscription (trial_row now u) d of
        Some d' \<Rightarrow> Inr d'
      | None \<Rightarrow> if active_rows u d = [] then Inl IntegrityError else Inr d)"

definition check_access :: "int \<Rightarrow> int \<Rightarrow> db \<Rightarrow> bool \<times> string" where
  "check_access now u d =
     (if access_is_open (latest_row (\<lambda>s. instant (sub_expires_at s)) (active_rows u d)) (utc_datetime now)
      then (True, '''') else (False, ACCESS_CLOSED_REASON))"

section \<open>The rule as a query\<close>

definition has_active_subscription :: "(subscription \<Rightarrow> bool) \<Rightarrow> db \<Rightarrow> user \<Rightarrow> bool" where
  "has_active_subscription P d u =
     list_ex (\<lambda>s. sub_user_id s = user_id u \<and> sub_is_active s \<and> P s) (db_subscriptions d)"

definition comped :: "db \<Rightarrow> user \<Rightarrow> bool" where
  "comped = has_active_subscription sub_has_free_access"

definition live_by_term :: "int \<Rightarrow> db \<Rightarrow> user \<Rightarrow> bool" where
  "live_by_term now = has_active_subscription (\<lambda>s. instant (sub_expires_at s) > now)"

definition access_open :: "int \<Rightarrow> db \<Rightarrow> user \<Rightarrow> bool" where
  "access_open now =
     has_active_subscription (\<lambda>s. sub_has_free_access s \<or> instant (sub_expires_at s) > now)"

definition ACCESS_AXIS_CLAUSES :: "string \<Rightarrow> (int \<Rightarrow> db \<Rightarrow> user \<Rightarrow> bool) option" where
  "ACCESS_AXIS_CLAUSES =
     [''comped'' \<mapsto> (\<lambda>now. comped),
      ''open'' \<mapsto> (\<lambda>now d u. live_by_term now d u \<and> \<not> comped d u),
      ''expired'' \<mapsto> (\<lambda>now d u. \<not> access_open now d u)]"

text \<open>\<open>value or ""\<close>: a missing key and the empty string both look up nothing.\<close>

definition access_axis_clause :: "string option \<Rightarrow> int \<Rightarrow> (db \<Rightarrow> user \<Rightarrow> bool) option" where
  "access_axis_clause v now =
     (case ACCESS_AXIS_CLAUSES (case v of None \<Rightarrow> '''' | Some s \<Rightarrow> s) of
        None \<Rightarrow> None
      | Some builder \<Rightarrow> Some (builder now))"

definition paying_subscription_clauses :: "int \<Rightarrow> subscription \<Rightarrow> bool" where
  "paying_subscription_clauses now s \<longleftrightarrow>
     sub_is_active s \<and> \<not> sub_has_free_access s \<and> instant (sub_expires_at s) > now"

definition expired_not_renewed_clauses :: "int \<Rightarrow> int \<Rightarrow> subscription \<Rightarrow> bool" where
  "expired_not_renewed_clauses now since s \<longleftrightarrow>
     sub_is_active s \<and> \<not> sub_has_free_access s \<and>
     instant (sub_expires_at s) \<le> now \<and> instant (sub_expires_at s) > since"

section \<open>Facts about the active row\<close>

lemma active_rows_iff:
  "s \<in> set (active_rows u d) \<longleftrightarrow> s \<in> set (db_subscriptions d) \<and> sub_user_id s = u \<and> sub_is_active s"
  by (auto simp: active_rows_def)

lemma active_row_unique:
  assumes "subscriptions_ok (db_subscriptions d)" "s \<in> set (active_rows u d)" "r \<in> set (active_rows u d)"
  shows "s = r"
  using assms unique_whereD [of sub_is_active sub_user_id "db_subscriptions d" s r]
  by (auto simp: active_rows_iff subscriptions_ok_def uq_subscriptions_active_def)

text \<open>The index leaves a user no active row or a single one.\<close>

lemma active_rows_cases:
  assumes "subscriptions_ok (db_subscriptions d)"
  obtains "active_rows u d = []" | s where "active_rows u d = [s]"
proof (cases "active_rows u d")
  case Nil
  then show ?thesis by (rule that(1))
next
  case (Cons s rest)
  have "distinct (active_rows u d)"
    using assms by (auto simp: active_rows_def subscriptions_ok_def simp: distinct_map)
  moreover have "r = s" if "r \<in> set rest" for r
    using active_row_unique [OF assms, of r u s] Cons that by simp
  ultimately have "rest = []" using Cons by (cases rest) auto
  with Cons show ?thesis by (intro that(2)) simp
qed

lemma check_access_iff:
  assumes "subscriptions_ok (db_subscriptions d)"
  shows "fst (check_access now u d) \<longleftrightarrow>
    (\<exists>s \<in> set (active_rows u d). sub_has_free_access s \<or> now < instant (sub_expires_at s))"
proof (rule active_rows_cases [OF assms, of u])
  fix s assume "active_rows u d = [s]"
  with active_rows_iff [of s u d] show ?thesis by (simp add: check_access_def access_is_open_def)
qed (simp add: check_access_def access_is_open_def)

lemma check_access_reason:
  "snd (check_access now u d) = (if fst (check_access now u d) then '''' else ACCESS_CLOSED_REASON)"
  by (simp add: check_access_def)

lemma has_active_subscription_iff:
  "has_active_subscription P d u \<longleftrightarrow> (\<exists>s \<in> set (active_rows (user_id u) d). P s)"
  by (auto simp: has_active_subscription_def active_rows_iff list_ex_iff)

lemmas access_axes = comped_def live_by_term_def access_open_def has_active_subscription_iff

lemma active_rows_append:
  "active_rows u (d\<lparr>db_subscriptions := db_subscriptions d @ [s]\<rparr>) =
     active_rows u d @ (if sub_user_id s = u \<and> sub_is_active s then [s] else [])"
  by (simp add: active_rows_def)

lemma access_axis_clause_simps:
  "access_axis_clause (Some ''comped'') now = Some comped"
  "access_axis_clause (Some ''open'') now = Some (\<lambda>d u. live_by_term now d u \<and> \<not> comped d u)"
  "access_axis_clause (Some ''expired'') now = Some (\<lambda>d u. \<not> access_open now d u)"
  "access_axis_clause None now = None"
  "v \<notin> {''comped'', ''open'', ''expired''} \<Longrightarrow> access_axis_clause (Some v) now = None"
  by (auto simp: access_axis_clause_def ACCESS_AXIS_CLAUSES_def)

lemma insert_trial_refused:
  "insert_subscription (trial_row now u) d = None \<longleftrightarrow> \<not> user_exists d u \<or> active_rows u d \<noteq> []"
  by (auto simp: insert_subscription_def trial_row_def active_rows_def list_ex_iff filter_empty_conv)

section \<open>Properties\<close>

text \<open>
  registration gives exactly one trial: for a user without an active row it adds a row that
  opens the product now and closes it five days later; for one who has an active row nothing
  changes; it fails only for a user who does not exist and has no active row.
\<close>

theorem start_trial_once:
  "(case start_trial now u d of
      Inl e \<Rightarrow> e = IntegrityError \<and> \<not> user_exists d u \<and> active_rows u d = []
    | Inr d' \<Rightarrow>
        if active_rows u d \<noteq> [] then d' = d
        else user_exists d u \<and> db_payments d' = db_payments d \<and>
             check_access now u d' = (True, '''') \<and>
             check_access (now + 5 * day_us) u d' = (False, ACCESS_CLOSED_REASON) \<and>
             (\<exists>s. db_subscriptions d' = db_subscriptions d @ [s] \<and> \<not> sub_has_free_access s) \<and>
             length (active_rows u d') = 1 \<and>
             start_trial later u d' = Inr d')"
proof (cases "insert_subscription (trial_row now u) d")
  case None
  then show ?thesis using insert_trial_refused [of now u d] by (auto simp: start_trial_def)
next
  case (Some d')
  then have no: "user_exists d u" "active_rows u d = []"
    using insert_trial_refused [of now u d] by auto
  note frame = insert_subscription_frame [OF Some]
  have active: "active_rows u d' = [trial_row now u\<lparr>sub_id := next_id sub_id (db_subscriptions d)\<rparr>]"
    using frame no(2) by (simp add: active_rows_def trial_row_def)
  have "start_trial later u d' = Inr d'"
    using insert_trial_refused [of later u d'] active by (auto simp: start_trial_def)
  then show ?thesis
    using Some no frame
    by (auto simp: start_trial_def check_access_def active access_is_open_def trial_row_def
        TRIAL_DAYS_def day_us_def)
qed

text \<open>
  the three values of the admin access axis partition the users, and they agree with the
  single verdict: a user is found under \<open>comped\<close> or \<open>open\<close> exactly when
  \<open>check_access\<close> lets him in, and under \<open>expired\<close> exactly when it does not; any other
  value of the query parameter means no condition.
\<close>

theorem access_axis_partition:
  assumes "subscriptions_ok (db_subscriptions d)"
  shows "\<exists>c p e.
    access_axis_clause (Some ''comped'') now = Some c \<and>
    access_axis_clause (Some ''open'') now = Some p \<and>
    access_axis_clause (Some ''expired'') now = Some e \<and>
    (c d u \<or> p d u) = fst (check_access now (user_id u) d) \<and>
    e d u = (\<not> fst (check_access now (user_id u) d)) \<and>
    \<not> (c d u \<and> p d u) \<and>
    p d u = list_ex (paying_subscription_clauses now) (active_rows (user_id u) d)"
proof -
  have "list_ex (paying_subscription_clauses now) (active_rows (user_id u) d) =
      (live_by_term now d u \<and> \<not> comped d u)"
  proof (rule active_rows_cases [OF assms, of "user_id u"])
    fix s assume s: "active_rows (user_id u) d = [s]"
    with active_rows_iff [of s "user_id u" d] show ?thesis
      by (auto simp: paying_subscription_clauses_def access_axes)
  qed (simp add: access_axes)
  then show ?thesis
    by (auto simp: access_axis_clause_simps check_access_iff [OF assms] access_axes)
qed

lemma sample_subscriptions_ok: "subscriptions_ok (db_subscriptions sample_db)"
  by (simp add: sample_db_def empty_db_def subscriptions_ok_def uq_subscriptions_active_def
      unique_where_Cons)

theorem access_axis_partition_witness:
  "\<exists>p. access_axis_clause (Some ''open'') 40 = Some p \<and> p sample_db sample_user"
proof -
  have "fst (check_access 40 (user_id sample_user) sample_db)"
    "\<not> comped sample_db sample_user" by code_simp+
  then show ?thesis
    using access_axis_partition [OF sample_subscriptions_ok, of 40 sample_user]
    by (auto simp: access_axis_clause_simps)
qed

end
