(* ===== verification/Payment_Intents.thy ===== *)
theory Payment_Intents
  imports Subscriptions
begin

text \<open>
  The opening half of \<open>app/services/payment_service.py\<close>: the lazy sweep of stale
  subscription intents, the reservation under the partial unique index, and
  \<open>create_payment\<close> around the call of the payment provider. The provider's SDK is a
  parameter: a function from the request and the idempotency key to the created payment's id and
  confirmation address, or to an exception. Statements that run at different moments take the
  database of their own moment; \<open>race\<close> is what other transactions commit during the call
  of the provider.
\<close>

section \<open>The sweep\<close>

definition PENDING_INTENT_TTL_HOURS :: int where "PENDING_INTENT_TTL_HOURS = 24"

definition stale_subscription_intents :: "int \<Rightarrow> int \<Rightarrow> db \<Rightarrow> payment list" where
  "stale_subscription_intents u now d =
     (let rows = filter (\<lambda>p. pay_user_id p = u \<and> pay_kind p = KIND_SUBSCRIPTION \<and> pay_status p = STATUS_PENDING)
           (db_payments d);
          cutoff = now - PENDING_INTENT_TTL_HOURS * hour_us
      in filter (\<lambda>p. case normalize_utc (pay_created_at p) of
           None \<Rightarrow> False | Some born \<Rightarrow> instant born < cutoff) rows)"

text \<open>The rows are selected in \<open>s\<close> and updated by their ids in \<open>d\<close>.\<close>

definition expire_stale_intents :: "int \<Rightarrow> int \<Rightarrow> db \<Rightarrow> db \<Rightarrow> nat \<times> db" where
  "expire_stale_intents u now s d =
     (let ids = map pay_id (stale_subscription_intents u now s)
      in if ids = [] then (0, d)
         else (count_where (\<lambda>p. pay_id p \<in> set ids) (db_payments d),
               d\<lparr>db_payments := update_where (\<lambda>p. pay_id p \<in> set ids)
                   (\<lambda>p. p\<lparr>pay_status := STATUS_EXPIRED\<rparr>) (db_payments d)\<rparr>))"

section \<open>The reservation\<close>

definition is_open_intent_conflict :: "int \<Rightarrow> db \<Rightarrow> bool" where
  "is_open_intent_conflict u d =
     (count_where (\<lambda>p. pay_user_id p = u \<and> pay_kind p = KIND_SUBSCRIPTION \<and> pay_status p = STATUS_PENDING)
        (db_payments d) > 0)"

definition intent_row :: "int \<Rightarrow> int \<Rightarrow> string \<Rightarrow> string option \<Rightarrow> bool option \<Rightarrow> payment" where
  "intent_row now u price plan switch_authorized =
     \<lparr>pay_id = 0, pay_user_id = u, pay_yookassa_id = None, pay_status = STATUS_PENDING,
      pay_amount_value = price, pay_amount_currency = ''RUB'', pay_kind = KIND_SUBSCRIPTION,
      pay_plan = plan, pay_switch_authorized = switch_authorized, pay_messages_count = None,
      pay_package_name = None, pay_created_at = Some (utc_datetime now), pay_confirmed_at = None\<rparr>"

definition reserve_subscription_intent ::
  "int \<Rightarrow> int \<Rightarrow> string \<Rightarrow> string option \<Rightarrow> bool option \<Rightarrow> db \<Rightarrow> exn + int \<times> db" where
  "reserve_subscription_intent now u price plan switch_authorized d =
     (case insert_payment (intent_row now u price plan switch_authorized) d of
        Some (i, d') \<Rightarrow> Inr (i, d')
      | None \<Rightarrow>
          if \<not> is_open_intent_conflict u d then Inl IntegrityError else Inl PendingIntentCapError)"

section \<open>Creating a payment\<close>

record yk_request =
  req_amount :: string
  req_currency :: string
  req_return_url :: string
  req_capture :: bool
  req_description :: string
  req_metadata :: "(string \<times> string) list"

text \<open>The settings and the texts the request is built from.\<close>

record payment_cfg =
  cfg_return_url :: string
  cfg_app_name :: string
  cfg_subscription_description :: string
  cfg_topup_prefix :: string

type_synonym sdk_create = "yk_request \<Rightarrow> string \<Rightarrow> exn + string \<times> string"

definition or_empty :: "string option \<Rightarrow> string" where
  "or_empty v = (case v of None \<Rightarrow> '''' | Some s \<Rightarrow> s)"

definition str_of_int :: "int option \<Rightarrow> string" where
  "str_of_int v = (case v of None \<Rightarrow> ''None'' | Some n \<Rightarrow> int_str n)"

definition payment_request ::
  "payment_cfg \<Rightarrow> int \<Rightarrow> string \<Rightarrow> string \<Rightarrow> string option \<Rightarrow> int option \<Rightarrow> string option \<Rightarrow> yk_request" where
  "payment_request cfg u price kind package_name messages_count plan =
     (let (description, metadata) =
        (if kind = KIND_SUBSCRIPTION
         then (cfg_subscription_description cfg,
               [(''user_id'', int_str u), (''kind'', kind), (''plan'', or_empty plan)])
         else (cfg_topup_prefix cfg @ (case package_name of None \<Rightarrow> ''None'' | Some n \<Rightarrow> n),
               [(''user_id'', int_str u), (''kind'', kind),
                (''messages_count'', str_of_int messages_count),
                (''package_name'', or_empty package_name)]))
      in \<lparr>req_amount = price, req_currency = ''RUB'',
          req_return_url = (if cfg_return_url cfg \<noteq> [] then cfg_return_url cfg else cfg_app_name cfg @ ''/billing''),
          req_capture = True, req_description = description, req_metadata = metadata\<rparr>)"

definition payment_row ::
  "int \<Rightarrow> int \<Rightarrow> string \<Rightarrow> string \<Rightarrow> string option \<Rightarrow> int option \<Rightarrow> string option \<Rightarrow> bool option \<Rightarrow> string \<Rightarrow> payment" where
  "payment_row now u price kind package_name messages_count plan switch_authorized pid =
     \<lparr>pay_id = 0, pay_user_id = u, pay_yookassa_id = Some pid, pay_status = STATUS_PENDING,
      pay_amount_value = price, pay_amount_currency = ''RUB'', pay_kind = kind, pay_plan = plan,
      pay_switch_authorized = switch_authorized, pay_messages_count = messages_count,
      pay_package_name = package_name, pay_created_at = Some (utc_datetime now),
      pay_confirmed_at = None\<rparr>"

text \<open>The update of the reserved row by its primary key; the provider's id is unique.\<close>

definition write_yookassa_id :: "int \<Rightarrow> string \<Rightarrow> db \<Rightarrow> db option" where
  "write_yookassa_id i pid d =
     (if list_ex (\<lambda>p. pay_id p \<noteq> i \<and> pay_yookassa_id p = Some pid) (db_payments d) then None
      else Some (d\<lparr>db_payments := update_where (\<lambda>p. pay_id p = i)
             (\<lambda>p. p\<lparr>pay_yookassa_id := Some pid\<rparr>) (db_payments d)\<rparr>))"

definition expire_reserved :: "int \<Rightarrow> db \<Rightarrow> db" where
  "expire_reserved i d =
     d\<lparr>db_payments := update_where (\<lambda>p. pay_id p = i) (\<lambda>p. p\<lparr>pay_status := STATUS_EXPIRED\<rparr>) (db_payments d)\<rparr>"

text \<open>
  The answer is the confirmation address and the payment's id; what was committed before an
  exception stays, so the database is returned on every branch. The subscription path is
  sweep, reserve, network, write back; every other kind is network, write.
\<close>

definition create_payment ::
  "payment_cfg \<Rightarrow> sdk_create \<Rightarrow> string \<Rightarrow> int \<Rightarrow> int \<Rightarrow> string \<Rightarrow> string \<Rightarrow> string option \<Rightarrow> int option \<Rightarrow>
     string option \<Rightarrow> bool option \<Rightarrow> (db \<Rightarrow> db) \<Rightarrow> db \<Rightarrow> (exn + string \<times> string) \<times> db" where
  "create_payment cfg sdk idempotency_key now u price kind package_name messages_count plan
     switch_authorized race d =
     (let request = payment_request cfg u price kind package_name messages_count plan in
      if kind = KIND_SUBSCRIPTION then
        let (n, d1) = expire_stale_intents u now d d in
        case reserve_subscription_intent now u price plan switch_authorized d1 of
          Inl e \<Rightarrow> (Inl e, d1)
        | Inr (i, d2) \<Rightarrow>
            let d3 = race d2 in
            (case sdk request idempotency_key of
               Inl e \<Rightarrow> (Inl PaymentCreationError, expire_reserved i d3)
             | Inr (pid, url) \<Rightarrow>
                 (case write_yookassa_id i pid d3 of
                    None \<Rightarrow> (Inl IntegrityError, d3)
                  | Some d4 \<Rightarrow> (Inr (url, pid), d4)))
      else
        let d3 = race d in
        case sdk request idempotency_key of
          Inl e \<Rightarrow> (Inl PaymentCreationError, d3)
        | Inr (pid, url) \<Rightarrow>
            (case insert_payment (payment_row now u price kind package_name messages_count plan
                    switch_authorized pid) d3 of
               None \<Rightarrow> (Inl IntegrityError, d3)
             | Some (i, d4) \<Rightarrow> (Inr (url, pid), d4)))"

section \<open>The indexes under these statements\<close>

lemma payments_ok_status:
  assumes "payments_ok ps" "s \<noteq> STATUS_PENDING"
  shows "payments_ok (update_where P (\<lambda>p. p\<lparr>pay_status := s\<rparr>) ps)"
  using assms unfolding payments_ok_def uq_payments_open_intent_def uq_payments_yookassa_def
  by (auto simp: row_simps open_intent_def intro!: unique_where_update)

lemma payments_ok_write_id:
  assumes "payments_ok ps" "\<And>p. p \<in> set ps \<Longrightarrow> pay_yookassa_id p = Some pid \<Longrightarrow> pay_id p = i"
  shows "payments_ok (update_where (\<lambda>p. pay_id p = i) (\<lambda>p. p\<lparr>pay_yookassa_id := Some pid\<rparr>) ps)"
proof -
  have "unique_where (\<lambda>p. pay_yookassa_id p \<noteq> None) pay_yookassa_id
     (update_where (\<lambda>p. pay_id p = i) (\<lambda>p. p\<lparr>pay_yookassa_id := Some pid\<rparr>) ps)"
    by (rule unique_where_write [where new = "Some pid"])
      (use assms in \<open>auto simp: payments_ok_def uq_payments_yookassa_def\<close>)
  with assms(1) show ?thesis
    unfolding payments_ok_def uq_payments_open_intent_def uq_payments_yookassa_def
    by (auto simp: row_simps open_intent_def intro!: unique_where_update)
qed

lemma payments_ok_expire:
  "payments_ok (db_payments d) \<Longrightarrow> payments_ok (db_payments (snd (expire_stale_intents u now s d)))"
  by (simp add: expire_stale_intents_def Let_def payments_ok_status status_simps)

lemma payments_ok_expire_reserved:
  "payments_ok (db_payments d) \<Longrightarrow> payments_ok (db_payments (expire_reserved i d))"
  by (simp add: expire_reserved_def payments_ok_status status_simps)

lemma payments_ok_reserve:
  "reserve_subscription_intent now u price plan sw d = Inr (i, d') \<Longrightarrow> payments_ok (db_payments d) \<Longrightarrow>
     payments_ok (db_payments d')"
  by (auto simp: reserve_subscription_intent_def dest: insert_payment_ok split: option.splits if_splits)

lemma payments_ok_write:
  "write_yookassa_id i pid d = Some d' \<Longrightarrow> payments_ok (db_payments d) \<Longrightarrow> payments_ok (db_payments d')"
  by (auto simp: write_yookassa_id_def list_ex_iff intro!: payments_ok_write_id split: if_splits)

lemma sweep_keeps_ids:
  "map pay_yookassa_id (db_payments (snd (expire_stale_intents u now s d))) =
     map pay_yookassa_id (db_payments d)"
  by (simp add: expire_stale_intents_def Let_def row_simps)

lemma expire_stale_frame [row_simps]:
  "db_subscriptions (snd (expire_stale_intents u now s d)) = db_subscriptions d"
  "db_users (snd (expire_stale_intents u now s d)) = db_users d"
  by (simp_all add: expire_stale_intents_def Let_def)

lemma create_payment_payments_ok:
  assumes "payments_ok (db_payments d)" "\<And>x. payments_ok (db_payments x) \<Longrightarrow> payments_ok (db_payments (race x))"
  shows "payments_ok (db_payments (snd (create_payment cfg sdk key now u price kind pkg msgs plan sw race d)))"
proof (cases "kind = KIND_SUBSCRIPTION")
  case True
  obtain n d1 where e: "expire_stale_intents u now d d = (n, d1)" by force
  with assms(1) payments_ok_expire [of d u now d] have d1: "payments_ok (db_payments d1)" by simp
  show ?thesis
  proof (cases "reserve_subscription_intent now u price plan sw d1")
    case (Inl x)
    with True e d1 show ?thesis by (simp add: create_payment_def)
  next
    case (Inr r)
    obtain i d2 where r: "r = (i, d2)" by force
    with Inr d1 payments_ok_reserve have "payments_ok (db_payments d2)" by blast
    then have d3: "payments_ok (db_payments (race d2))" by (rule assms(2))
    with True e Inr r show ?thesis
      by (auto simp: create_payment_def Let_def payments_ok_expire_reserved
          intro: payments_ok_write split: sum.split option.split)
  qed
next
  case False
  have "payments_ok (db_payments (race d))" using assms by blast
  with False show ?thesis
    by (auto simp: create_payment_def Let_def intro: insert_payment_ok split: sum.split option.split)
qed

section \<open>Open intents of a user\<close>

definition open_of :: "int \<Rightarrow> db \<Rightarrow> payment list" where
  "open_of u d = filter (\<lambda>p. open_intent p \<and> pay_user_id p = u) (db_payments d)"

lemma conflict_iff: "is_open_intent_conflict u d \<longleftrightarrow> open_of u d \<noteq> []"
  by (auto simp: is_open_intent_conflict_def open_of_def open_intent_def count_where_def filter_empty_conv)

lemma open_of_cases:
  assumes "payments_ok (db_payments d)"
  obtains "open_of u d = []" | p where "open_of u d = [p]"
proof (cases "open_of u d")
  case (Cons p rest)
  have "distinct (open_of u d)"
    using assms by (auto simp: open_of_def payments_ok_def distinct_map)
  moreover have "q = p" if "q \<in> set rest" for q
  proof -
    have "q \<in> set (open_of u d)" "p \<in> set (open_of u d)" using Cons that by auto
    then show ?thesis
      using assms unique_whereD [of open_intent pay_user_id "db_payments d" q p]
      by (auto simp: open_of_def payments_ok_def uq_payments_open_intent_def)
  qed
  ultimately have "rest = []" using Cons by (cases rest) auto
  with Cons show ?thesis by (intro that(2)) simp
qed (rule that(1))

definition fresh :: "int \<Rightarrow> payment \<Rightarrow> bool" where
  "fresh now p \<longleftrightarrow>
     (case pay_created_at p of None \<Rightarrow> True | Some b \<Rightarrow> now - 24 * hour_us \<le> instant b)"

lemma stale_iff: "stale_subscription_intents u now d = filter (\<lambda>p. \<not> fresh now p) (open_of u d)"
  by (auto simp: stale_subscription_intents_def open_of_def fresh_def open_intent_def Let_def
      PENDING_INTENT_TTL_HOURS_def intro!: filter_cong split: option.splits)


text \<open>What each statement does to the open intents of the user and to everyone else's payments.\<close>

definition others :: "int \<Rightarrow> db \<Rightarrow> payment list" where
  "others u d = filter (\<lambda>p. pay_user_id p \<noteq> u) (db_payments d)"

lemma filter_update_where_idle:
  "(\<And>r. r \<in> set rows \<Longrightarrow> Q r \<Longrightarrow> \<not> P r \<and> \<not> P (f r)) \<Longrightarrow>
     filter P (update_where Q f rows) = filter P rows"
  by (induction rows) auto

lemma filter_update_where_drop:
  "(\<And>r. r \<in> set rows \<Longrightarrow> Q r \<Longrightarrow> \<not> P (f r)) \<Longrightarrow>
     filter P (update_where Q f rows) = filter (\<lambda>r. P r \<and> \<not> Q r) rows"
  by (induction rows) auto

lemma stale_ids:
  assumes "payments_ok (db_payments d)" "p \<in> set (db_payments d)"
  shows "pay_id p \<in> set (map pay_id (stale_subscription_intents u now d)) \<longleftrightarrow>
    open_intent p \<and> pay_user_id p = u \<and> \<not> fresh now p"
proof
  assume "pay_id p \<in> set (map pay_id (stale_subscription_intents u now d))"
  then obtain q where q: "q \<in> set (db_payments d)" "pay_id q = pay_id p"
    "open_intent q" "pay_user_id q = u" "\<not> fresh now q"
    by (auto simp: stale_iff open_of_def)
  have "inj_on pay_id (set (db_payments d))"
    using assms(1) by (simp add: payments_ok_def distinct_map)
  with q(1,2) assms(2) have "q = p" by (simp add: inj_on_eq_iff)
  with q show "open_intent p \<and> pay_user_id p = u \<and> \<not> fresh now p" by simp
next
  assume "open_intent p \<and> pay_user_id p = u \<and> \<not> fresh now p"
  with assms(2) show "pay_id p \<in> set (map pay_id (stale_subscription_intents u now d))"
    by (auto simp: stale_iff open_of_def)
qed

lemma expired_not_open: "\<not> open_intent (p\<lparr>pay_status := STATUS_EXPIRED\<rparr>)"
  by (simp add: open_intent_def status_simps)

lemma sweep_effect:
  assumes "payments_ok (db_payments d)"
  shows "open_of u (snd (expire_stale_intents u now d d)) = filter (fresh now) (open_of u d)"
    and "others u (snd (expire_stale_intents u now d d)) = others u d"
proof -
  let ?ids = "map pay_id (stale_subscription_intents u now d)"
  let ?d = "d\<lparr>db_payments := update_where (\<lambda>p. pay_id p \<in> set ?ids)
      (\<lambda>p. p\<lparr>pay_status := STATUS_EXPIRED\<rparr>) (db_payments d)\<rparr>"
  have idle: "update_where (\<lambda>p. pay_id p \<in> set []) (\<lambda>p. p\<lparr>pay_status := STATUS_EXPIRED\<rparr>) (db_payments d) = db_payments d"
    by (rule update_where_idle) simp
  have upd: "snd (expire_stale_intents u now d d) = ?d"
  proof (cases "?ids = []")
    case True
    with idle show ?thesis by (simp add: expire_stale_intents_def)
  qed (simp add: expire_stale_intents_def Let_def)
  have "filter (\<lambda>p. open_intent p \<and> pay_user_id p = u) (db_payments ?d) =
      filter (\<lambda>p. (open_intent p \<and> pay_user_id p = u) \<and> pay_id p \<notin> set ?ids) (db_payments d)"
    using expired_not_open by (simp add: filter_update_where_drop del: set_map)
  also have "\<dots> = filter (\<lambda>p. fresh now p \<and> open_intent p \<and> pay_user_id p = u) (db_payments d)"
    by (rule filter_cong) (use stale_ids [OF assms] in \<open>auto simp del: set_map\<close>)
  finally show "open_of u (snd (expire_stale_intents u now d d)) = filter (fresh now) (open_of u d)"
    unfolding upd by (simp add: open_of_def conj_commute)
  show "others u (snd (expire_stale_intents u now d d)) = others u d"
    unfolding upd others_def
    using stale_ids [OF assms] by (auto intro!: filter_update_where_idle simp del: set_map)
qed

lemma reserve_cases:
  assumes "user_exists d u"
  shows "open_of u d \<noteq> [] \<Longrightarrow> reserve_subscription_intent now u price plan sw d = Inl PendingIntentCapError"
    and "open_of u d = [] \<Longrightarrow> reserve_subscription_intent now u price plan sw d =
      Inr (next_id pay_id (db_payments d), d\<lparr>db_payments := db_payments d @
        [intent_row now u price plan sw\<lparr>pay_id := next_id pay_id (db_payments d)\<rparr>]\<rparr>)"
proof -
  have "open_of u d = [] \<longleftrightarrow> \<not> list_ex (\<lambda>r. open_intent r \<and> pay_user_id r = u) (db_payments d)"
    by (auto simp: open_of_def list_ex_iff filter_empty_conv)
  moreover have "open_intent (intent_row now u price plan sw)"
    "pay_user_id (intent_row now u price plan sw) = u"
    "pay_yookassa_id (intent_row now u price plan sw) = None"
    by (simp_all add: intent_row_def open_intent_def)
  ultimately show "open_of u d \<noteq> [] \<Longrightarrow> reserve_subscription_intent now u price plan sw d = Inl PendingIntentCapError"
    and "open_of u d = [] \<Longrightarrow> reserve_subscription_intent now u price plan sw d =
      Inr (next_id pay_id (db_payments d), d\<lparr>db_payments := db_payments d @
        [intent_row now u price plan sw\<lparr>pay_id := next_id pay_id (db_payments d)\<rparr>]\<rparr>)"
    using assms by (simp_all add: reserve_subscription_intent_def insert_payment_def Let_def conflict_iff)
qed

text \<open>Writing to the row just appended touches no other row.\<close>

lemma update_new_row:
  assumes "pay_id r = next_id pay_id ps"
  shows "update_where (\<lambda>p. pay_id p = next_id pay_id ps) f (ps @ [r]) = ps @ [f r]"
proof -
  have "pay_id p \<noteq> next_id pay_id ps" if "p \<in> set ps" for p
    using next_id_fresh [OF that, of pay_id] by simp
  then have "update_where (\<lambda>p. pay_id p = next_id pay_id ps) f ps = ps"
    by (rule update_where_idle)
  with assms show ?thesis by (simp add: update_where_def)
qed

section \<open>Properties\<close>

text \<open>
  C3: creating a subscription payment: an intent younger than a day refuses the attempt before the
  provider is called and changes nothing; older ones are swept and do not block; when the provider
  refuses, no open intent is left behind and the user may try again at once; otherwise the user
  has exactly one open intent, carrying the provider's id and the price that was asked. Payments of
  other users and subscriptions stay as they are.
\<close>

theorem create_subscription_payment_outcomes:
  assumes "payments_ok (db_payments d)" "user_exists d u"
    and "create_payment cfg sdk key now u price KIND_SUBSCRIPTION pkg msgs plan sw (\<lambda>x. x) d = (r, d')"
  shows "others u d' = others u d \<and> db_subscriptions d' = db_subscriptions d \<and>
    (if \<exists>p. p \<in> set (open_of u d) \<and> fresh now p then r = Inl PendingIntentCapError \<and> d' = d
     else case sdk (payment_request cfg u price KIND_SUBSCRIPTION pkg msgs plan) key of
        Inl e \<Rightarrow> r = Inl PaymentCreationError \<and> open_of u d' = []
      | Inr (pid, url) \<Rightarrow>
          if list_ex (\<lambda>p. pay_yookassa_id p = Some pid) (db_payments d) then r = Inl IntegrityError
          else r = Inr (url, pid) \<and> (\<exists>p. open_of u d' = [p] \<and> pay_yookassa_id p = Some pid \<and>
                 pay_amount_value p = price \<and> fresh now p))"
proof (cases "\<exists>p. p \<in> set (open_of u d) \<and> fresh now p")
  case True
  then obtain p where p: "open_of u d = [p]" "fresh now p"
    using open_of_cases [OF assms(1), of u thesis] by (metis empty_iff empty_set set_ConsD)
  then have "expire_stale_intents u now d d = (0, d)"
    by (simp add: expire_stale_intents_def stale_iff)
  with True p assms(3) reserve_cases(1) [OF assms(2)] show ?thesis
    by (auto simp: create_payment_def)
next
  case False
  define d1 where "d1 = snd (expire_stale_intents u now d d)"
  let ?i = "next_id pay_id (db_payments d1)"
  let ?row = "intent_row now u price plan sw\<lparr>pay_id := ?i\<rparr>"
  have d1: "open_of u d1 = []" "others u d1 = others u d" "user_exists d1 u"
    "db_subscriptions d1 = db_subscriptions d"
    using sweep_effect [OF assms(1), of u now] False assms(2)
    by (auto simp: d1_def row_simps user_exists_def filter_empty_conv)
  have taken: "list_ex (\<lambda>p. pay_id p \<noteq> ?i \<and> pay_yookassa_id p = Some pid) (db_payments d1 @ [?row]) =
      list_ex (\<lambda>p. pay_yookassa_id p = Some pid) (db_payments d)"
    for pid
  proof -
    have "list_ex (\<lambda>p. pay_id p \<noteq> ?i \<and> pay_yookassa_id p = Some pid) (db_payments d1 @ [?row]) =
        list_ex (\<lambda>p. pay_yookassa_id p = Some pid) (db_payments d1)"
    proof -
      have "pay_id p \<noteq> ?i" if "p \<in> set (db_payments d1)" for p
        using next_id_fresh [OF that, of pay_id] by simp
      then show ?thesis by (auto simp: list_ex_iff intent_row_def)
    qed
    also have "\<dots> = (Some pid \<in> set (map pay_yookassa_id (db_payments d1)))"
      by (rule list_ex_key)
    also have "\<dots> = (Some pid \<in> set (map pay_yookassa_id (db_payments d)))"
      by (simp only: d1_def sweep_keeps_ids)
    finally show ?thesis by (simp only: list_ex_key)
  qed
  have row: "pay_id ?row = ?i" by simp
  have open_row: "open_intent ?row" "pay_user_id ?row = u" "fresh now ?row" "pay_amount_value ?row = price"
    by (simp_all add: intent_row_def open_intent_def fresh_def hour_us_def)
  let ?d2 = "d1\<lparr>db_payments := db_payments d1 @ [?row]\<rparr>"
  have run: "create_payment cfg sdk key now u price KIND_SUBSCRIPTION pkg msgs plan sw (\<lambda>x. x) d =
    (case sdk (payment_request cfg u price KIND_SUBSCRIPTION pkg msgs plan) key of
       Inl e \<Rightarrow> (Inl PaymentCreationError, expire_reserved ?i ?d2)
     | Inr (pid, url) \<Rightarrow> (case write_yookassa_id ?i pid ?d2 of None \<Rightarrow> (Inl IntegrityError, ?d2)
         | Some d4 \<Rightarrow> (Inr (url, pid), d4)))"
  proof -
    obtain n where e: "expire_stale_intents u now d d = (n, d1)"
      unfolding d1_def by (metis prod.collapse)
    show ?thesis
      by (simp add: create_payment_def Let_def e reserve_cases(2) [OF d1(3,1)])
  qed
  have written: "write_yookassa_id ?i pid ?d2 =
      (if list_ex (\<lambda>p. pay_yookassa_id p = Some pid) (db_payments d) then None
       else Some (d1\<lparr>db_payments := db_payments d1 @ [?row\<lparr>pay_yookassa_id := Some pid\<rparr>]\<rparr>))"
    for pid
    using taken [of pid] update_new_row [OF row]
    by (simp add: write_yookassa_id_def del: list_ex_append)
  have expire: "expire_reserved ?i ?d2 =
      d1\<lparr>db_payments := db_payments d1 @ [?row\<lparr>pay_status := STATUS_EXPIRED\<rparr>]\<rparr>"
    using update_new_row [OF row] by (simp add: expire_reserved_def)
  have parts: "open_of u (d1\<lparr>db_payments := db_payments d1 @ [q]\<rparr>) =
      (if open_intent q then [q] else [])"
    "others u (d1\<lparr>db_payments := db_payments d1 @ [q]\<rparr>) = others u d"
    if "pay_user_id q = u" for q
    using d1 that by (simp_all add: open_of_def others_def)
  show ?thesis
  proof (cases "sdk (payment_request cfg u price KIND_SUBSCRIPTION pkg msgs plan) key")
    case (Inl e)
    with assms(3) run expire have "r = Inl PaymentCreationError"
      "d' = d1\<lparr>db_payments := db_payments d1 @ [?row\<lparr>pay_status := STATUS_EXPIRED\<rparr>]\<rparr>" by simp_all
    with Inl False d1(4) open_row(2) expired_not_open [of ?row] show ?thesis
      by (simp add: parts)
  next
    case (Inr c)
    obtain pid url where c: "c = (pid, url)" by force
    show ?thesis
    proof (cases "list_ex (\<lambda>p. pay_yookassa_id p = Some pid) (db_payments d)")
      case True
      with assms(3) run written Inr c have "r = Inl IntegrityError" "d' = ?d2" by simp_all
      with Inr c True False d1(4) open_row(2) show ?thesis by (simp add: parts)
    next
      case unused: False
      with assms(3) run written Inr c have "r = Inr (url, pid)"
        "d' = d1\<lparr>db_payments := db_payments d1 @ [?row\<lparr>pay_yookassa_id := Some pid\<rparr>]\<rparr>" by simp_all
      with Inr c unused False d1(4) open_row show ?thesis
        by (simp add: parts open_intent_def fresh_def)
    qed
  qed
qed

definition sample_cfg :: payment_cfg where
  "sample_cfg = \<lparr>cfg_return_url = '''', cfg_app_name = ''app'', cfg_subscription_description = ''month'',
     cfg_topup_prefix = ''topup ''\<rparr>"

definition sample_sdk :: sdk_create where
  "sample_sdk request key = Inr (''yk-'' @ key, ''https://pay/'' @ key)"

lemma sample_payments_ok: "payments_ok (db_payments sample_db)" "user_exists sample_db 1"
  by (simp_all add: sample_db_def empty_db_def payments_ok_def uq_payments_open_intent_def
      uq_payments_yookassa_def user_exists_def sample_user_def)

theorem create_subscription_payment_outcomes_witness:
  "\<exists>d' p. create_payment sample_cfg sample_sdk ''k'' 7 1 ''990.00'' KIND_SUBSCRIPTION None None None None (\<lambda>x. x) sample_db =
      (Inr (''https://pay/k'', ''yk-k''), d') \<and>
    open_of 1 d' = [p] \<and> pay_yookassa_id p = Some ''yk-k'' \<and> pay_amount_value p = ''990.00''"
proof -
  obtain r d' where c: "create_payment sample_cfg sample_sdk ''k'' 7 1 ''990.00'' KIND_SUBSCRIPTION
      None None None None (\<lambda>x. x) sample_db = (r, d')" by (rule prod.exhaust)
  have "open_of 1 sample_db = []" "db_payments sample_db = []"
    by (simp_all add: open_of_def sample_db_def empty_db_def)
  with create_subscription_payment_outcomes [OF sample_payments_ok c] c show ?thesis
    by (auto simp: sample_sdk_def)
qed

end
