(* ===== verification/Payment_Webhook.thy ===== *)
theory Payment_Webhook
  imports Payment_Intents
begin

text \<open>
  The closing half of \<open>app/services/payment_service.py\<close>: the conditional claim of a payment,
  the extension of the subscription it pays for and \<open>handle_webhook\<close>, which composes them in
  one transaction. The names of the provider's two events are parameters. A delivery reads the
  payment row in \<open>s\<close>, the active subscription in \<open>s2\<close> and writes in \<open>d\<close>: with the
  three equal it is a delivery that runs alone, with older ones it is a delivery that overlaps
  others. An exception rolls the transaction back, so no database comes with it.
\<close>

section \<open>The claim\<close>

definition claim_hit :: "string \<Rightarrow> payment \<Rightarrow> bool" where
  "claim_hit y p \<longleftrightarrow> pay_yookassa_id p = Some y \<and> pay_status p \<notin> TERMINAL_STATUSES"

definition claim_payment :: "string \<Rightarrow> string \<Rightarrow> int \<Rightarrow> db \<Rightarrow> bool \<times> db" where
  "claim_payment y new_status now d =
     (count_where (claim_hit y) (db_payments d) = 1,
      d\<lparr>db_payments := update_where (claim_hit y)
          (\<lambda>p. p\<lparr>pay_status := new_status, pay_confirmed_at := Some (utc_datetime now)\<rparr>) (db_payments d)\<rparr>)"

section \<open>The extension\<close>

definition active_subscription :: "db \<Rightarrow> int \<Rightarrow> subscription option" where
  "active_subscription d u = latest_row (\<lambda>s. instant (sub_expires_at s)) (active_rows u d)"

text \<open>The row object keeps what was read; the update writes its primary key.\<close>

definition apply_extension :: "subscription \<Rightarrow> int \<Rightarrow> db \<Rightarrow> db" where
  "apply_extension sub now d =
     d\<lparr>db_subscriptions := update_where (\<lambda>s. sub_id s = sub_id sub)
        (\<lambda>s. s\<lparr>sub_expires_at := next_expiry (Some (sub_expires_at sub)) (utc_datetime now)\<rparr>)
        (db_subscriptions d)\<rparr>"

definition first_subscription :: "int \<Rightarrow> int \<Rightarrow> subscription" where
  "first_subscription now u =
     \<lparr>sub_id = 0, sub_user_id = u, sub_expires_at = next_expiry None (utc_datetime now),
      sub_is_active = True, sub_has_free_access = False, sub_created_at = now\<rparr>"

definition extend_subscription :: "int \<Rightarrow> int \<Rightarrow> db \<Rightarrow> db \<Rightarrow> exn + db" where
  "extend_subscription u now s2 d =
     (case active_subscription s2 u of
        Some sub \<Rightarrow> Inr (apply_extension sub now d)
      | None \<Rightarrow>
          (case insert_subscription (first_subscription now u) d of
             Some d' \<Rightarrow> Inr d'
           | None \<Rightarrow>
               (case active_subscription d u of
                  None \<Rightarrow> Inl IntegrityError
                | Some sub \<Rightarrow> Inr (apply_extension sub now d))))"

section \<open>The delivery\<close>

record sdk_events =
  ev_succeeded :: string
  ev_canceled :: string

definition find_payment :: "string \<Rightarrow> db \<Rightarrow> payment option" where
  "find_payment y d = List.find (\<lambda>p. pay_yookassa_id p = Some y) (db_payments d)"

text \<open>
  The result: was the notification handled, the database committed, and the user whose cached
  access verdict is dropped after the commit. A lost claim rolls the transaction back.
\<close>

definition deliver ::
  "sdk_events \<Rightarrow> int \<Rightarrow> string \<Rightarrow> string \<Rightarrow> db \<Rightarrow> db \<Rightarrow> db \<Rightarrow> exn + bool \<times> db \<times> int option" where
  "deliver sdk now event y s s2 d =
     (case find_payment y s of
        None \<Rightarrow> Inr (False, d, None)
      | Some p \<Rightarrow>
          if pay_status p \<in> TERMINAL_STATUSES then Inr (True, d, None)
          else if event = ev_canceled sdk then
            (let (won, d1) = claim_payment y STATUS_CANCELED now d
             in if \<not> won then Inr (True, d, None) else Inr (True, d1, None))
          else if pay_kind p \<noteq> KIND_SUBSCRIPTION \<and>
                  (pay_messages_count p = None \<or> pay_messages_count p = Some 0) then
            Inr (False, d, None)
          else
            (let (won, d1) = claim_payment y STATUS_SUCCEEDED now d
             in if \<not> won then Inr (True, d, None)
                else if pay_kind p = KIND_SUBSCRIPTION then
                  bind_res (extend_subscription (pay_user_id p) now s2 d1)
                    (\<lambda>d2. Inr (True, d2, Some (pay_user_id p)))
                else Inr (True, d1, None)))"

text \<open>
  The notification is a JSON document. Membership in the frozen set of known events hashes the
  event, which a list or a dictionary refuses; an id that is not text is refused by the driver.
\<close>

fun known_event :: "sdk_events \<Rightarrow> pyval \<Rightarrow> exn + bool" where
  "known_event sdk (PStr e) = Inr (e \<in> {ev_succeeded sdk, ev_canceled sdk})"
| "known_event sdk (PList _) = Inl TypeError"
| "known_event sdk (PDict _) = Inl TypeError"
| "known_event sdk _ = Inr False"

definition handle_webhook ::
  "sdk_events \<Rightarrow> int \<Rightarrow> pyval \<Rightarrow> pyval \<Rightarrow> db \<Rightarrow> db \<Rightarrow> db \<Rightarrow> exn + bool \<times> db \<times> int option" where
  "handle_webhook sdk now event payment_data s s2 d =
     bind_res (known_event sdk event) (\<lambda>known.
       if \<not> known then Inr (False, d, None)
       else bind_res (py_get payment_data ''object'' (PDict [])) (\<lambda>obj.
         bind_res (py_get obj ''id'' PNone) (\<lambda>yookassa_id.
           if \<not> truthy yookassa_id then Inr (False, d, None)
           else case (event, yookassa_id) of
                  (PStr e, PStr y) \<Rightarrow> deliver sdk now e y s s2 d
                | _ \<Rightarrow> Inl DataError)))"

section \<open>What a claim does\<close>

lemma claim_payment_frame [row_simps]:
  "db_subscriptions (snd (claim_payment y new now d)) = db_subscriptions d"
  "db_users (snd (claim_payment y new now d)) = db_users d"
  "map pay_id (db_payments (snd (claim_payment y new now d))) = map pay_id (db_payments d)"
  "map pay_yookassa_id (db_payments (snd (claim_payment y new now d))) = map pay_yookassa_id (db_payments d)"
  "map pay_user_id (db_payments (snd (claim_payment y new now d))) = map pay_user_id (db_payments d)"
  by (simp_all add: claim_payment_def row_simps)

definition settled :: "string \<Rightarrow> db \<Rightarrow> bool" where
  "settled y d \<longleftrightarrow> (\<forall>p \<in> set (db_payments d). pay_yookassa_id p = Some y \<longrightarrow> pay_status p \<in> TERMINAL_STATUSES)"

lemma settled_no_hit: "settled y d \<Longrightarrow> count_where (claim_hit y) (db_payments d) = 0"
  by (auto simp: settled_def claim_hit_def count_where_0)

definition outcome :: "bool \<Rightarrow> string" where
  "outcome paid = (if paid then STATUS_SUCCEEDED else STATUS_CANCELED)"

lemma outcome_terminal [simp]: "outcome paid \<in> TERMINAL_STATUSES"
  by (simp add: outcome_def status_simps)

text \<open>The contract of a conditional claim, for both outcomes and any moments.\<close>

definition claim_attempt :: "string \<times> bool \<times> int \<Rightarrow> db \<Rightarrow> bool \<times> db" where
  "claim_attempt k d = (case k of (y, paid, now) \<Rightarrow> claim_payment y (outcome paid) now d)"

interpretation payment_claims: claim_once claim_attempt fst settled
proof
  fix k :: "string \<times> bool \<times> int" and d
  assume "fst (claim_attempt k d)"
  then show "settled (fst k) (snd (claim_attempt k d))"
    by (cases k) (auto simp: claim_attempt_def claim_payment_def settled_def set_update_where claim_hit_def)
next
  fix k :: "string \<times> bool \<times> int" and d
  assume "settled (fst k) d"
  then show "\<not> fst (claim_attempt k d)"
    by (cases k) (simp add: claim_attempt_def claim_payment_def settled_no_hit)
next
  fix r and k :: "string \<times> bool \<times> int" and d
  assume "settled r d"
  then show "settled r (snd (claim_attempt k d))"
    by (cases k) (auto simp: claim_attempt_def claim_payment_def settled_def set_update_where claim_hit_def)
qed

lemma payments_ok_claim:
  assumes "payments_ok (db_payments d)" "new \<in> TERMINAL_STATUSES"
  shows "payments_ok (db_payments (snd (claim_payment y new now d)))"
proof -
  have "new \<noteq> STATUS_PENDING" using assms(2) status_simps by auto
  with assms(1) show ?thesis
    unfolding payments_ok_def uq_payments_open_intent_def uq_payments_yookassa_def claim_payment_def
    by (auto simp: row_simps open_intent_def intro!: unique_where_update)
qed

lemma find_payment_Some:
  "find_payment y d = Some p \<Longrightarrow> p \<in> set (db_payments d) \<and> pay_yookassa_id p = Some y"
  by (auto simp: find_payment_def find_Some_iff)

lemma find_payment_iff:
  assumes "payments_ok (db_payments d)"
  shows "find_payment y d = Some p \<longleftrightarrow> p \<in> set (db_payments d) \<and> pay_yookassa_id p = Some y"
proof
  assume p: "p \<in> set (db_payments d) \<and> pay_yookassa_id p = Some y"
  then obtain q where "find_payment y d = Some q"
    by (cases "find_payment y d") (auto simp: find_payment_def find_None_iff)
  with p assms find_payment_Some [of y d q] show "find_payment y d = Some p"
    using unique_whereD [of "\<lambda>p. pay_yookassa_id p \<noteq> None" pay_yookassa_id "db_payments d" p q]
    by (simp add: payments_ok_def uq_payments_yookassa_def)
qed (rule find_payment_Some)

lemma claim_payment_won:
  assumes "payments_ok (db_payments d)" "p \<in> set (db_payments d)" "claim_hit y p"
  shows "fst (claim_payment y new now d)"
proof -
  have only: "q = p" if "q \<in> set (db_payments d)" "claim_hit y q" for q
    using assms that unique_whereD [of "\<lambda>p. pay_yookassa_id p \<noteq> None" pay_yookassa_id "db_payments d" q p]
    by (simp add: payments_ok_def uq_payments_yookassa_def claim_hit_def)
  have dist: "distinct (filter (claim_hit y) (db_payments d))"
    using assms(1) by (simp add: payments_ok_def distinct_map)
  have hits: "set (filter (claim_hit y) (db_payments d)) = {p}"
    unfolding set_filter using assms(2,3) only by blast
  have "length (filter (claim_hit y) (db_payments d)) = 1"
    using distinct_card [OF dist] by (simp only: hits) simp
  then show ?thesis by (simp add: claim_payment_def count_where_def)
qed

lemma find_after_claim:
  assumes "payments_ok (db_payments d)" "find_payment y d = Some p" "pay_status p \<notin> TERMINAL_STATUSES"
    "new \<in> TERMINAL_STATUSES"
  shows "find_payment y (snd (claim_payment y new now d)) =
    Some (p\<lparr>pay_status := new, pay_confirmed_at := Some (utc_datetime now)\<rparr>)"
proof -
  note p = find_payment_Some [OF assms(2)]
  then have "claim_hit y p" using assms(3) by (simp add: claim_hit_def)
  then have "p\<lparr>pay_status := new, pay_confirmed_at := Some (utc_datetime now)\<rparr> \<in>
      set (db_payments (snd (claim_payment y new now d)))"
    using p by (auto simp: claim_payment_def set_update_where)
  with p show ?thesis
    using find_payment_iff [OF payments_ok_claim [OF assms(1,4)]] by simp
qed

section \<open>What an extension does\<close>

lemma apply_extension_frame [row_simps]:
  "db_payments (apply_extension sub now d) = db_payments d"
  "db_users (apply_extension sub now d) = db_users d"
  by (simp_all add: apply_extension_def)

lemma subscriptions_ok_extend:
  "subscriptions_ok (db_subscriptions d) \<Longrightarrow> subscriptions_ok (db_subscriptions (apply_extension sub now d))"
  unfolding subscriptions_ok_def uq_subscriptions_active_def apply_extension_def
  by (auto simp: row_simps intro!: unique_where_update)

lemma extend_subscription_ok:
  assumes "extend_subscription u now s2 d = Inr d'" "subscriptions_ok (db_subscriptions d)"
  shows "subscriptions_ok (db_subscriptions d') \<and> db_payments d' = db_payments d \<and> db_users d' = db_users d"
  using assms insert_subscription_ok [of _ d] insert_subscription_frame [of _ d]
  by (auto simp: extend_subscription_def row_simps subscriptions_ok_extend split: option.splits)

lemma find_payment_cong: "db_payments d = db_payments d' \<Longrightarrow> find_payment y d = find_payment y d'"
  by (simp add: find_payment_def)

lemma active_rows_cong: "db_subscriptions d = db_subscriptions d' \<Longrightarrow> active_rows u d = active_rows u d'"
  by (simp add: active_rows_def)

lemma active_rows_extend:
  assumes "subscriptions_ok (db_subscriptions d)" "active_rows u d = [sub]"
  shows "active_rows u (apply_extension r now d) =
    [if sub_id sub = sub_id r then sub\<lparr>sub_expires_at := next_expiry (Some (sub_expires_at r)) (utc_datetime now)\<rparr> else sub]"
proof -
  have "filter P (update_where Q f rows) = map (\<lambda>r. if Q r then f r else r) (filter P rows)"
    if "\<And>r. P (f r) = P r" for P Q f and rows :: "subscription list"
    using that by (induction rows) auto
  with assms show ?thesis by (simp add: active_rows_def apply_extension_def)
qed

lemma active_subscription_single [simp]:
  "active_rows u d = [sub] \<Longrightarrow> active_subscription d u = Some sub"
  "active_rows u d = [] \<Longrightarrow> active_subscription d u = None"
  by (simp_all add: active_subscription_def)

lemma active_subscription_iff:
  assumes "subscriptions_ok (db_subscriptions d)"
  shows "active_subscription d u = Some sub \<longleftrightarrow> active_rows u d = [sub]"
  by (rule active_rows_cases [OF assms, of u]) auto

text \<open>What a lone extension leaves: the row as it was, a month later, or a first row from today.\<close>

lemma extend_alone:
  assumes "subscriptions_ok (db_subscriptions d)" "user_exists d u"
  shows "\<exists>d' sub. extend_subscription u now d d = Inr d' \<and> active_rows u d' = [sub] \<and>
    sub_expires_at sub = next_expiry (map_option sub_expires_at (active_subscription d u)) (utc_datetime now)"
proof (rule active_rows_cases [OF assms(1), of u])
  fix sub assume sub: "active_rows u d = [sub]"
  with active_rows_extend [OF assms(1) sub, of sub now] show ?thesis
    by (auto simp: extend_subscription_def)
next
  assume none: "active_rows u d = []"
  then have "\<not> list_ex (\<lambda>r. sub_is_active r \<and> sub_user_id r = u) (db_subscriptions d)"
    by (auto simp: active_rows_def list_ex_iff filter_empty_conv)
  with none assms(2) show ?thesis
    by (auto simp: extend_subscription_def insert_subscription_def first_subscription_def active_rows_def)
qed

section \<open>Deliveries\<close>

lemma deliver_terminal:
  assumes "find_payment y s = Some p" "pay_status p \<in> TERMINAL_STATUSES"
  shows "deliver sdk now e y s s2 d = Inr (True, d, None)"
  using assms by (simp add: deliver_def)

text \<open>Whatever a delivery read, nothing is done once the payment is settled.\<close>

lemma deliver_settled:
  assumes "settled y d" "deliver sdk now e y s s2 d = Inr (b, d', dropped)"
  shows "d' = d \<and> dropped = None"
  using assms settled_no_hit [OF assms(1)]
  by (auto simp: deliver_def claim_payment_def split: option.splits if_splits)

lemma find_settled:
  "payments_ok (db_payments d) \<Longrightarrow> find_payment y d = Some p \<Longrightarrow>
     settled y d \<longleftrightarrow> pay_status p \<in> TERMINAL_STATUSES"
  unfolding settled_def by (metis find_payment_iff option.inject)

lemma handle_webhook_deliver:
  assumes "py_get data ''object'' (PDict []) = Inr obj" "py_get obj ''id'' PNone = Inr (PStr y)" "y \<noteq> []"
    "e \<in> {ev_succeeded sdk, ev_canceled sdk}"
  shows "handle_webhook sdk now (PStr e) data s s2 d = deliver sdk now e y s s2 d"
  using assms by (auto simp: handle_webhook_def)

lemma deliver_money_ok:
  assumes "deliver sdk now e y s s2 d = Inr (b, d', dropped)" "money_ok d"
  shows "money_ok d'"
proof -
  have claim: "money_ok (snd (claim_payment y new now d))" if "new \<in> TERMINAL_STATUSES" for new
    using assms(2) payments_ok_claim [OF _ that, of d y now] by (simp add: money_ok_def row_simps)
  show ?thesis
    using assms claim [of STATUS_SUCCEEDED] claim [of STATUS_CANCELED]
    by (auto simp: deliver_def result_simps status_simps money_ok_def dest: extend_subscription_ok
        split: option.splits if_splits prod.splits)
qed

text \<open>A success that wins: the claim, the extension, the invalidation.\<close>

lemma deliver_success:
  assumes "payments_ok (db_payments d)" "find_payment y d = Some p" "pay_status p \<notin> TERMINAL_STATUSES"
    "pay_kind p = KIND_SUBSCRIPTION" "e \<noteq> ev_canceled sdk"
  shows "deliver sdk now e y d s2 d =
    bind_res (extend_subscription (pay_user_id p) now s2 (snd (claim_payment y STATUS_SUCCEEDED now d)))
      (\<lambda>d2. Inr (True, d2, Some (pay_user_id p)))"
proof -
  have "claim_hit y p" "p \<in> set (db_payments d)"
    using find_payment_Some [OF assms(2)] assms(3) by (simp_all add: claim_hit_def)
  then have "fst (claim_payment y STATUS_SUCCEEDED now d)"
    using claim_payment_won [OF assms(1)] by blast
  with assms(2-5) show ?thesis by (simp add: deliver_def case_prod_unfold)
qed

section \<open>Properties\<close>

text \<open>
  C2: a confirmed subscription payment is carried out exactly once. Delivered to a database where
  the payment is not terminal (pending, or expired by the sweep), it marks the payment succeeded,
  leaves its owner one active subscription whose expiry is the next expiry of the old one, opens
  his access and drops his cached verdict; any later delivery about the same payment, success or
  cancellation, even one that read the payment and the subscription before, changes nothing and
  drops nothing.
\<close>

theorem webhook_success_exactly_once:
  assumes "money_ok d" "user_exists d (pay_user_id p)"
    and "find_payment y d = Some p" "pay_status p \<notin> TERMINAL_STATUSES" "pay_kind p = KIND_SUBSCRIPTION"
    and "py_get data ''object'' (PDict []) = Inr obj" "py_get obj ''id'' PNone = Inr (PStr y)" "y \<noteq> []"
    and "ev_succeeded sdk \<noteq> ev_canceled sdk"
  shows "\<exists>d' sub.
    handle_webhook sdk now (PStr (ev_succeeded sdk)) data d d d = Inr (True, d', Some (pay_user_id p)) \<and>
    find_payment y d' = Some (p\<lparr>pay_status := STATUS_SUCCEEDED, pay_confirmed_at := Some (utc_datetime now)\<rparr>) \<and>
    active_rows (pay_user_id p) d' = [sub] \<and>
    sub_expires_at sub =
      next_expiry (map_option sub_expires_at (active_subscription d (pay_user_id p))) (utc_datetime now) \<and>
    check_access now (pay_user_id p) d' = (True, '''') \<and>
    money_ok d' \<and>
    (e \<in> {ev_succeeded sdk, ev_canceled sdk} \<and> s \<in> {d, d'} \<longrightarrow>
       handle_webhook sdk later (PStr e) data s s2 d' = Inr (True, d', None))"
proof -
  let ?u = "pay_user_id p"
  let ?c = "snd (claim_payment y STATUS_SUCCEEDED now d)"
  have ok: "payments_ok (db_payments d)" "subscriptions_ok (db_subscriptions d)"
    using assms(1) by (simp_all add: money_ok_def)
  have c: "subscriptions_ok (db_subscriptions ?c)" "user_exists ?c ?u"
    "active_subscription d ?u = active_subscription ?c ?u"
    using ok(2) assms(2) active_rows_cong [of d ?c ?u]
    by (simp_all add: row_simps user_exists_def active_subscription_def)
  obtain d' sub where d': "extend_subscription ?u now ?c ?c = Inr d'" "active_rows ?u d' = [sub]"
    "sub_expires_at sub = next_expiry (map_option sub_expires_at (active_subscription ?c ?u)) (utc_datetime now)"
    using extend_alone [OF c(1,2), of now] by blast
  have ext: "extend_subscription ?u now d ?c = Inr d'"
    using d'(1) c(3) by (simp add: extend_subscription_def)
  have run: "deliver sdk now (ev_succeeded sdk) y d d d = Inr (True, d', Some ?u)"
    using deliver_success [OF ok(1) assms(3-5,9), of now d] ext by simp
  then have money: "money_ok d'" using deliver_money_ok assms(1) by blast
  have frame: "db_payments d' = db_payments ?c"
    using extend_subscription_ok [OF d'(1) c(1)] by simp
  have found: "find_payment y d' = Some (p\<lparr>pay_status := STATUS_SUCCEEDED, pay_confirmed_at := Some (utc_datetime now)\<rparr>)"
    using find_after_claim [OF ok(1) assms(3,4), of STATUS_SUCCEEDED now] find_payment_cong [OF frame]
    by (simp add: status_simps)
  have "settled y d'"
    using find_settled [OF _ found] money by (simp add: money_ok_def status_simps)
  then have none: "count_where (claim_hit y) (db_payments d') = 0" by (rule settled_no_hit)
  have again: "deliver sdk later e y s s2 d' = Inr (True, d', None)" if "s \<in> {d, d'}"
  proof (cases "s = d'")
    case True
    with found show ?thesis by (simp add: deliver_def status_simps)
  next
    case False
    with that none assms(3-5) show ?thesis by (simp add: deliver_def claim_payment_def)
  qed
  have "sub_is_active sub" using d'(2) active_rows_iff [of sub ?u d'] by simp
  then have "check_access now ?u d' = (True, '''')"
    using next_expiry_live [of "map_option sub_expires_at (active_subscription ?c ?u)" "utc_datetime now"]
    by (simp add: check_access_def d'(2) access_is_open_def d'(3))
  then show ?thesis
    using run again found d'(2,3) money c(3) handle_webhook_deliver [OF assms(6-8)]
    by (intro exI [of _ d'] exI [of _ sub]) simp
qed

definition sample_payment :: payment where
  "sample_payment = payment_row 5 1 ''990.00'' KIND_SUBSCRIPTION None None None None ''yk-1''\<lparr>pay_id := 1\<rparr>"

definition paid_db :: db where
  "paid_db = sample_db\<lparr>db_payments := [sample_payment]\<rparr>"

definition sample_events :: sdk_events where
  "sample_events = \<lparr>ev_succeeded = ''payment.succeeded'', ev_canceled = ''payment.canceled''\<rparr>"

definition notification :: "string \<Rightarrow> pyval" where
  "notification y = PDict [(''object'', PDict [(''id'', PStr y)])]"

lemma paid_db_ok: "money_ok paid_db" "user_exists paid_db 1"
  using sample_subscriptions_ok
  by (simp_all add: paid_db_def sample_db_def empty_db_def money_ok_def payments_ok_def
      uq_payments_open_intent_def uq_payments_yookassa_def unique_where_Cons user_exists_def sample_user_def)

lemma paid_db_payment:
  "find_payment ''yk-1'' paid_db = Some sample_payment" "pay_user_id sample_payment = 1"
  "pay_status sample_payment = STATUS_PENDING" "pay_kind sample_payment = KIND_SUBSCRIPTION"
  by (simp_all add: find_payment_def paid_db_def sample_payment_def payment_row_def)

lemma webhook_success_run:
  "\<exists>d'. deliver sample_events 60 ''payment.succeeded'' ''yk-1'' paid_db paid_db paid_db = Inr (True, d', Some 1)"
proof -
  let ?c = "snd (claim_payment ''yk-1'' STATUS_SUCCEEDED 60 paid_db)"
  have "payments_ok (db_payments paid_db)" using paid_db_ok(1) by (simp add: money_ok_def)
  note run = deliver_success [OF this paid_db_payment(1) _ paid_db_payment(4), of "''payment.succeeded''"
      sample_events 60 paid_db]
  have "active_subscription paid_db 1 = Some sample_subscription" by code_simp
  then have "extend_subscription 1 60 paid_db ?c = Inr (apply_extension sample_subscription 60 ?c)"
    by (simp add: extend_subscription_def)
  with run paid_db_payment show ?thesis
    by (simp add: sample_events_def status_simps)
qed

lemma notification_parts:
  "py_get (notification y) ''object'' (PDict []) = Inr (PDict [(''id'', PStr y)])"
  "py_get (PDict [(''id'', PStr y)]) ''id'' PNone = Inr (PStr y)"
  by (simp_all add: notification_def)

theorem webhook_success_exactly_once_witness:
  "\<exists>d'. handle_webhook sample_events 60 (PStr ''payment.succeeded'') (notification ''yk-1'') paid_db paid_db paid_db =
      Inr (True, d', Some 1) \<and> check_access 60 1 d' = (True, '''') \<and> \<not> fst (check_access 60 1 paid_db) \<and>
    handle_webhook sample_events 61 (PStr ''payment.canceled'') (notification ''yk-1'') paid_db paid_db d' =
      Inr (True, d', None)"
proof -
  have ne: "ev_succeeded sample_events \<noteq> ev_canceled sample_events" by (simp add: sample_events_def)
  have "\<not> fst (check_access 60 1 paid_db)" by code_simp
  then show ?thesis
    using webhook_success_exactly_once [OF paid_db_ok(1) _ paid_db_payment(1) _ paid_db_payment(4)
        notification_parts [of "''yk-1''"] _ ne,
        where e = "''payment.canceled''" and s = paid_db and ?s2.0 = paid_db and now = 60 and later = 61]
      paid_db_ok(2) paid_db_payment(2,3)
    by (auto simp: sample_events_def status_simps)
qed

text \<open>
  a cancellation gives a payment that is not terminal the terminal status \<open>canceled\<close> and
  nothing else: no subscription row moves, no cached verdict is dropped, and a success that comes
  after it is answered without any effect.
\<close>

theorem webhook_cancel_moves_nothing:
  assumes "money_ok d" "find_payment y d = Some p" "pay_status p \<notin> TERMINAL_STATUSES"
    and "py_get data ''object'' (PDict []) = Inr obj" "py_get obj ''id'' PNone = Inr (PStr y)" "y \<noteq> []"
  shows "\<exists>d'. handle_webhook sdk now (PStr (ev_canceled sdk)) data d d d = Inr (True, d', None) \<and>
    find_payment y d' = Some (p\<lparr>pay_status := STATUS_CANCELED, pay_confirmed_at := Some (utc_datetime now)\<rparr>) \<and>
    db_subscriptions d' = db_subscriptions d \<and> db_users d' = db_users d \<and> money_ok d' \<and>
    handle_webhook sdk later (PStr (ev_succeeded sdk)) data d' d' d' = Inr (True, d', None)"
proof -
  let ?c = "snd (claim_payment y STATUS_CANCELED now d)"
  have ok: "payments_ok (db_payments d)" using assms(1) by (simp add: money_ok_def)
  have "claim_hit y p" "p \<in> set (db_payments d)"
    using find_payment_Some [OF assms(2)] assms(3) by (simp_all add: claim_hit_def)
  then have "fst (claim_payment y STATUS_CANCELED now d)"
    using claim_payment_won [OF ok] by blast
  with assms(2,3) have run: "deliver sdk now (ev_canceled sdk) y d d d = Inr (True, ?c, None)"
    by (simp add: deliver_def case_prod_unfold)
  have found: "find_payment y ?c = Some (p\<lparr>pay_status := STATUS_CANCELED, pay_confirmed_at := Some (utc_datetime now)\<rparr>)"
    by (rule find_after_claim [OF ok assms(2,3)]) (simp add: status_simps)
  have "deliver sdk later (ev_succeeded sdk) y ?c ?c ?c = Inr (True, ?c, None)"
    using found by (simp add: deliver_def status_simps)
  moreover have "money_ok ?c" using deliver_money_ok [OF run assms(1)] .
  ultimately show ?thesis
    using run found handle_webhook_deliver [OF assms(4-6), where sdk = sdk]
    by (intro exI [of _ ?c]) (simp add: row_simps)
qed

theorem webhook_cancel_moves_nothing_witness:
  "\<exists>d'. handle_webhook sample_events 60 (PStr ''payment.canceled'') (notification ''yk-1'') paid_db paid_db paid_db =
      Inr (True, d', None) \<and> db_subscriptions d' = db_subscriptions paid_db"
  using webhook_cancel_moves_nothing [OF paid_db_ok(1) paid_db_payment(1) _ notification_parts [of "''yk-1''"],
      of sample_events 60] paid_db_payment(3)
  by (auto simp: sample_events_def status_simps)

end
