(* ===== verification/Payment_Runs.thy ===== *)
theory Payment_Runs
  imports Payment_Webhook
begin

text \<open>
  Runs of the payment service: any number of users open payments, the provider answers or refuses
  while other requests go on, and deliveries overlap. \<open>create_payment\<close> contributes the steps
  between its commits (sweep, reserve, write back, expire the reserve, or record a package), a
  delivery contributes its transaction, decided on any database that was committed before. Two
  theorems at the end describe the two overlaps the code does not exclude.
\<close>

section \<open>Steps\<close>

record pay_world =
  w_db :: db
  w_seen :: "db list"
  w_credits :: "string list"

definition commit :: "db \<Rightarrow> pay_world \<Rightarrow> pay_world" where
  "commit d w = w\<lparr>w_db := d, w_seen := w_seen w @ [d]\<rparr>"

definition credit :: "string \<Rightarrow> int option \<Rightarrow> pay_world \<Rightarrow> pay_world" where
  "credit y dropped w = (case dropped of None \<Rightarrow> w | Some _ \<Rightarrow> w\<lparr>w_credits := y # w_credits w\<rparr>)"

text \<open>A row the provider's answer is still awaited for: reserved, and no id written yet.\<close>

definition awaits_id :: "int \<Rightarrow> db \<Rightarrow> bool" where
  "awaits_id i d \<longleftrightarrow> (\<exists>p \<in> set (db_payments d). pay_id p = i \<and> pay_yookassa_id p = None)"

inductive pay_step :: "sdk_events \<Rightarrow> pay_world \<Rightarrow> pay_world \<Rightarrow> bool" for sdk where
  sweep: "expire_stale_intents u now (w_db w) (w_db w) = (n, d') \<Longrightarrow> pay_step sdk w (commit d' w)"
| reserve: "reserve_subscription_intent now u price plan sw (w_db w) = Inr (i, d') \<Longrightarrow>
    pay_step sdk w (commit d' w)"
| answered: "awaits_id i (w_db w) \<Longrightarrow> write_yookassa_id i pid (w_db w) = Some d' \<Longrightarrow>
    pay_step sdk w (commit d' w)"
| refused: "awaits_id i (w_db w) \<Longrightarrow> pay_step sdk w (commit (expire_reserved i (w_db w)) w)"
| package: "insert_payment (payment_row now u price kind pkg msgs plan sw pid) (w_db w) = Some (i, d') \<Longrightarrow>
    pay_step sdk w (commit d' w)"
| delivery: "s \<in> set (w_seen w) \<Longrightarrow> s2 \<in> set (w_seen w) \<Longrightarrow>
    deliver sdk now e y s s2 (w_db w) = Inr (b, d', dropped) \<Longrightarrow>
    pay_step sdk w (credit y dropped (commit d' w))"

inductive pay_reach :: "sdk_events \<Rightarrow> pay_world \<Rightarrow> bool" for sdk where
  init: "money_ok d \<Longrightarrow> \<forall>p \<in> set (db_payments d). pay_yookassa_id p = None \<longrightarrow> pay_status p \<notin> TERMINAL_STATUSES \<Longrightarrow>
    pay_reach sdk \<lparr>w_db = d, w_seen = [d], w_credits = []\<rparr>"
| step: "pay_reach sdk w \<Longrightarrow> pay_step sdk w w' \<Longrightarrow> pay_reach sdk w'"

inductive_cases pay_stepE: "pay_step sdk w w'"

lemma commit_simps [simp]:
  "w_db (commit d w) = d" "w_credits (commit d w) = w_credits w"
  by (simp_all add: commit_def)

lemma credit_simps [simp]:
  "w_db (credit y dropped w) = w_db w"
  "w_credits (credit y dropped w) = (if dropped = None then w_credits w else y # w_credits w)"
  by (simp_all add: credit_def split: option.splits)

section \<open>Terminal rows\<close>

text \<open>What a step must respect: rows that are terminal stay exactly as they are.\<close>

definition keeps_terminal :: "db \<Rightarrow> db \<Rightarrow> bool" where
  "keeps_terminal d d' \<longleftrightarrow>
     (\<forall>p \<in> set (db_payments d). pay_status p \<in> TERMINAL_STATUSES \<longrightarrow> p \<in> set (db_payments d'))"

definition unsent_open :: "db \<Rightarrow> bool" where
  "unsent_open d \<longleftrightarrow>
     (\<forall>p \<in> set (db_payments d). pay_yookassa_id p = None \<longrightarrow> pay_status p \<notin> TERMINAL_STATUSES)"

lemma keeps_terminal_update:
  "(\<And>p. p \<in> set (db_payments d) \<Longrightarrow> P p \<Longrightarrow> pay_status p \<notin> TERMINAL_STATUSES) \<Longrightarrow>
     keeps_terminal d (d\<lparr>db_payments := update_where P f (db_payments d)\<rparr>)"
  by (auto simp: keeps_terminal_def set_update_where)

lemma keeps_terminal_append: "db_payments d' = db_payments d @ ps \<Longrightarrow> keeps_terminal d d'"
  by (simp add: keeps_terminal_def)

lemma keeps_terminal_cong: "keeps_terminal d d' \<Longrightarrow> db_payments d'' = db_payments d' \<Longrightarrow> keeps_terminal d d''"
  by (simp add: keeps_terminal_def)

lemma keeps_terminal_refl [simp]: "keeps_terminal d d"
  by (simp add: keeps_terminal_def)

lemma row_by_id:
  "payments_ok ps \<Longrightarrow> p \<in> set ps \<Longrightarrow> q \<in> set ps \<Longrightarrow> pay_id p = pay_id q \<Longrightarrow> p = q"
  by (auto simp: payments_ok_def distinct_map dest: inj_onD)

lemma claim_keeps_terminal: "keeps_terminal d (snd (claim_payment y new now d))"
  unfolding claim_payment_def snd_conv by (rule keeps_terminal_update) (simp add: claim_hit_def)

lemma sweep_keeps_terminal:
  assumes "payments_ok (db_payments d)"
  shows "keeps_terminal d (snd (expire_stale_intents u now d d))"
proof (cases "stale_subscription_intents u now d = []")
  case True
  then show ?thesis by (simp add: expire_stale_intents_def)
next
  case False
  have "pay_status p \<notin> TERMINAL_STATUSES"
    if "p \<in> set (db_payments d)" "pay_id p \<in> set (map pay_id (stale_subscription_intents u now d))" for p
    using that stale_ids [OF assms that(1), of u now] by (auto simp: open_intent_def status_simps)
  with False show ?thesis
    by (simp add: expire_stale_intents_def Let_def keeps_terminal_update del: set_map)
qed

lemma expire_reserved_keeps_terminal:
  assumes "payments_ok (db_payments d)" "unsent_open d" "awaits_id i d"
  shows "keeps_terminal d (expire_reserved i d)"
  unfolding expire_reserved_def
proof (rule keeps_terminal_update)
  fix p assume "p \<in> set (db_payments d)" "pay_id p = i"
  with assms show "pay_status p \<notin> TERMINAL_STATUSES"
    using row_by_id [OF assms(1)] unfolding awaits_id_def unsent_open_def by metis
qed

lemma write_id_keeps_terminal:
  assumes "payments_ok (db_payments d)" "unsent_open d" "awaits_id i d" "write_yookassa_id i pid d = Some d'"
  shows "keeps_terminal d d'"
proof -
  have "pay_status p \<notin> TERMINAL_STATUSES" if "p \<in> set (db_payments d)" "pay_id p = i" for p
    using assms(2,3) row_by_id [OF assms(1) that(1)] that unfolding awaits_id_def unsent_open_def by metis
  with assms(4) show ?thesis
    by (auto simp: write_yookassa_id_def intro!: keeps_terminal_update split: if_splits)
qed

lemma deliver_payments:
  assumes "deliver sdk now e y s s2 d = Inr (b, d', dropped)" "subscriptions_ok (db_subscriptions d)"
  obtains "db_payments d' = db_payments d" "dropped = None"
  | new where "db_payments d' = db_payments (snd (claim_payment y new now d))" "new \<in> TERMINAL_STATUSES"
      "fst (claim_payment y new now d)" "dropped \<noteq> None \<longrightarrow> new = STATUS_SUCCEEDED"
proof -
  have sub: "db_payments d2 = db_payments (snd (claim_payment y STATUS_SUCCEEDED now d))"
    if "extend_subscription u now s2 (snd (claim_payment y STATUS_SUCCEEDED now d)) = Inr d2" for u d2
    using extend_subscription_ok [OF that] assms(2) by (simp add: row_simps)
  note c = that(2) [of STATUS_CANCELED] that(2) [of STATUS_SUCCEEDED]
  show ?thesis
    using assms(1) sub c that(1)
    by (auto simp: deliver_def result_simps status_simps split: option.splits if_splits prod.splits)
qed

text \<open>
  A further reading of the claim: it settles its own payment and, being won, finds it open.
\<close>

lemma claim_won_open:
  "fst (claim_payment y new now d) \<Longrightarrow> \<exists>p \<in> set (db_payments d). claim_hit y p"
  using count_where_0 [of "claim_hit y" "db_payments d"] by (auto simp: claim_payment_def)

section \<open>The invariant\<close>

definition credited :: "pay_world \<Rightarrow> bool" where
  "credited w \<longleftrightarrow> distinct (w_credits w) \<and>
     (\<forall>y \<in> set (w_credits w). \<exists>p \<in> set (db_payments (w_db w)).
        pay_yookassa_id p = Some y \<and> pay_status p = STATUS_SUCCEEDED)"

definition pay_inv :: "pay_world \<Rightarrow> bool" where
  "pay_inv w \<longleftrightarrow> money_ok (w_db w) \<and> unsent_open (w_db w) \<and> credited w"

lemma credited_commit:
  assumes "credited w" "keeps_terminal (w_db w) d'"
  shows "credited (commit d' w)"
proof -
  have "\<exists>p \<in> set (db_payments d'). pay_yookassa_id p = Some y \<and> pay_status p = STATUS_SUCCEEDED"
    if y: "y \<in> set (w_credits w)" for y
  proof -
    obtain p where p: "p \<in> set (db_payments (w_db w))" "pay_yookassa_id p = Some y" "pay_status p = STATUS_SUCCEEDED"
      using assms(1) y unfolding credited_def by blast
    then have "p \<in> set (db_payments d')"
      using assms(2) by (simp add: keeps_terminal_def status_simps)
    with p show ?thesis by blast
  qed
  with assms(1) show ?thesis by (simp add: credited_def)
qed

lemma unsent_update:
  assumes "unsent_open d" "\<And>p. p \<in> set (db_payments d) \<Longrightarrow> P p \<Longrightarrow> pay_yookassa_id (f p) = None \<Longrightarrow>
      pay_status (f p) \<notin> TERMINAL_STATUSES"
  shows "unsent_open (d\<lparr>db_payments := update_where P f (db_payments d)\<rparr>)"
  using assms by (auto simp: unsent_open_def set_update_where)

lemma unsent_sweep: "unsent_open d \<Longrightarrow> unsent_open (snd (expire_stale_intents u now s d))"
  by (auto simp: expire_stale_intents_def Let_def status_simps intro!: unsent_update)

lemma unsent_claim: "unsent_open d \<Longrightarrow> unsent_open (snd (claim_payment y new now d))"
  unfolding claim_payment_def snd_conv by (rule unsent_update) (simp_all add: claim_hit_def)

lemma unsent_cong: "unsent_open d \<Longrightarrow> db_payments d' = db_payments d \<Longrightarrow> unsent_open d'"
  by (simp add: unsent_open_def)

lemma unsent_insert:
  "unsent_open d \<Longrightarrow> insert_payment p d = Some (i, d') \<Longrightarrow> pay_status p \<notin> TERMINAL_STATUSES \<Longrightarrow> unsent_open d'"
  by (auto simp: unsent_open_def dest!: insert_payment_frame)

lemma reserve_insert:
  "reserve_subscription_intent now u price plan sw d = Inr (i, d') \<Longrightarrow>
     insert_payment (intent_row now u price plan sw) d = Some (i, d')"
  by (auto simp: reserve_subscription_intent_def split: option.splits if_splits)

lemma intent_row_pending [simp]:
  "pay_status (intent_row now u price plan sw) = STATUS_PENDING"
  "pay_status (payment_row now u price kind pkg msgs plan sw pid) = STATUS_PENDING"
  by (simp_all add: intent_row_def payment_row_def)

text \<open>One step keeps the database part of the invariant and every terminal row.\<close>

definition good_move :: "db \<Rightarrow> db \<Rightarrow> bool" where
  "good_move d d' \<longleftrightarrow> money_ok d' \<and> unsent_open d' \<and> keeps_terminal d d'"

lemma insert_good_move:
  assumes "money_ok d" "unsent_open d" "insert_payment p d = Some (i, d')" "pay_status p = STATUS_PENDING"
  shows "good_move d d'"
proof -
  note frame = insert_payment_frame [OF assms(3)]
  then have "keeps_terminal d d'" by (blast intro: keeps_terminal_append)
  moreover have "money_ok d'"
    using insert_payment_ok [OF assms(3)] assms(1) frame by (simp add: money_ok_def)
  ultimately show ?thesis
    using unsent_insert [OF assms(2,3)] assms(4) by (simp add: good_move_def status_simps)
qed

lemma sweep_good_move:
  assumes "money_ok d" "unsent_open d"
  shows "good_move d (snd (expire_stale_intents u now d d))"
  using assms payments_ok_expire [of d u now d] sweep_keeps_terminal [of d] unsent_sweep [of d]
  by (simp add: good_move_def money_ok_def row_simps)

lemma refused_good_move:
  assumes "money_ok d" "unsent_open d" "awaits_id i d"
  shows "good_move d (expire_reserved i d)"
proof -
  have "unsent_open (expire_reserved i d)"
    unfolding expire_reserved_def using assms(2) by (rule unsent_update) (simp add: status_simps)
  then show ?thesis
    using assms payments_ok_expire_reserved [of d i] expire_reserved_keeps_terminal [of d i]
    by (simp add: good_move_def money_ok_def) (simp add: expire_reserved_def)
qed

lemma answered_good_move:
  assumes "money_ok d" "unsent_open d" "awaits_id i d" "write_yookassa_id i pid d = Some d'"
  shows "good_move d d'"
proof -
  have d': "d' = d\<lparr>db_payments := update_where (\<lambda>p. pay_id p = i) (\<lambda>p. p\<lparr>pay_yookassa_id := Some pid\<rparr>) (db_payments d)\<rparr>"
    using assms(4) by (simp add: write_yookassa_id_def split: if_splits)
  have "unsent_open d'" unfolding d' using assms(2) by (rule unsent_update) simp
  moreover have "money_ok d'"
    using payments_ok_write [OF assms(4)] assms(1) d' by (simp add: money_ok_def)
  ultimately show ?thesis
    using assms write_id_keeps_terminal [of d i pid d'] by (simp add: good_move_def money_ok_def)
qed

lemma delivery_good_move:
  assumes "money_ok d" "unsent_open d" "deliver sdk now e y s s2 d = Inr (b, d', dropped)"
  shows "good_move d d'"
proof -
  have "subscriptions_ok (db_subscriptions d)" using assms(1) by (simp add: money_ok_def)
  from assms(3) this have "unsent_open d' \<and> keeps_terminal d d'"
  proof (cases rule: deliver_payments)
    case 1
    with assms(2) show ?thesis by (simp add: unsent_open_def keeps_terminal_def)
  next
    case (2 new)
    with assms(2) show ?thesis
      by (blast intro: unsent_cong unsent_claim keeps_terminal_cong claim_keeps_terminal)
  qed
  with deliver_money_ok [OF assms(3,1)] show ?thesis by (simp add: good_move_def)
qed

lemma pay_step_good_move:
  assumes "pay_step sdk w w'" "money_ok (w_db w)" "unsent_open (w_db w)"
  shows "good_move (w_db w) (w_db w')"
  using assms
proof cases
  case (sweep u now n d')
  then show ?thesis using sweep_good_move [OF assms(2,3), of u now] by simp
next
  case (reserve now u price plan sw i d')
  then show ?thesis using insert_good_move [OF assms(2,3) reserve_insert] by simp
next
  case (package now u price kind pkg msgs plan sw pid i d')
  then show ?thesis using insert_good_move [OF assms(2,3)] by simp
qed (use assms(2,3) in \<open>auto intro: answered_good_move refused_good_move delivery_good_move\<close>)

text \<open>A credit is given for a payment that had none.\<close>

lemma delivery_credited:
  assumes "pay_inv w" "deliver sdk now e y s s2 (w_db w) = Inr (b, d', dropped)"
  shows "credited (credit y dropped (commit d' w))"
proof -
  have inv: "money_ok (w_db w)" "unsent_open (w_db w)" "credited w" using assms(1) by (simp_all add: pay_inv_def)
  have keeps: "keeps_terminal (w_db w) d'"
    using delivery_good_move [OF inv(1,2) assms(2)] by (simp add: good_move_def)
  note credited = credited_commit [OF inv(3) keeps]
  have subs: "subscriptions_ok (db_subscriptions (w_db w))" using inv(1) by (simp add: money_ok_def)
  from assms(2) subs show ?thesis
  proof (cases rule: deliver_payments)
    case 1
    with credited show ?thesis by (simp add: credited_def)
  next
    case (2 new)
    show ?thesis
    proof (cases "dropped = None")
      case True
      with credited show ?thesis by (simp add: credited_def)
    next
      case False
      obtain p where p: "p \<in> set (db_payments (w_db w))" "claim_hit y p"
        using claim_won_open [OF 2(3)] by blast
      have fresh: "y \<notin> set (w_credits w)"
      proof
        assume "y \<in> set (w_credits w)"
        then obtain q where q: "q \<in> set (db_payments (w_db w))" "pay_yookassa_id q = Some y"
          "pay_status q = STATUS_SUCCEEDED" using inv(3) unfolding credited_def by blast
        have "payments_ok (db_payments (w_db w))" using inv(1) by (simp add: money_ok_def)
        then have "p = q"
          using find_payment_iff [of "w_db w" y p] find_payment_iff [of "w_db w" y q] p q
          by (simp add: claim_hit_def)
        with p q show False by (simp add: claim_hit_def status_simps)
      qed
      have "p\<lparr>pay_status := new, pay_confirmed_at := Some (utc_datetime now)\<rparr> \<in> set (db_payments d')"
        using p 2(1) by (auto simp: claim_payment_def set_update_where)
      moreover have "new = STATUS_SUCCEEDED" using 2(4) False by simp
      moreover have "pay_yookassa_id p = Some y" using p(2) by (simp add: claim_hit_def)
      ultimately have "\<exists>p \<in> set (db_payments d'). pay_yookassa_id p = Some y \<and> pay_status p = STATUS_SUCCEEDED"
        by (intro bexI [of _ "p\<lparr>pay_status := new, pay_confirmed_at := Some (utc_datetime now)\<rparr>"]) simp_all
      with credited fresh False show ?thesis by (simp add: credited_def)
    qed
  qed
qed

lemma pay_step_inv:
  assumes "pay_step sdk w w'" "pay_inv w"
  shows "pay_inv w'"
proof -
  have inv: "money_ok (w_db w)" "unsent_open (w_db w)" "credited w" using assms(2) by (simp_all add: pay_inv_def)
  have move: "good_move (w_db w) (w_db w')" by (rule pay_step_good_move [OF assms(1) inv(1,2)])
  have "credited w'"
    using assms(1)
  proof cases
    case (delivery s s2 now e y b d' dropped)
    then show ?thesis using delivery_credited [OF assms(2)] by blast
  qed (use move inv(3) in \<open>auto simp: good_move_def intro: credited_commit\<close>)
  with move show ?thesis by (simp add: pay_inv_def good_move_def)
qed

lemma pay_reach_inv: "pay_reach sdk w \<Longrightarrow> pay_inv w"
proof (induction rule: pay_reach.induct)
  case (init d)
  then show ?case by (simp add: pay_inv_def credited_def unsent_open_def)
next
  case (step w w')
  then show ?case by (blast intro: pay_step_inv)
qed

lemma lone_delivery:
  assumes "money_ok d" "user_exists d (pay_user_id p)" "find_payment y d = Some p"
    "pay_status p \<notin> TERMINAL_STATUSES" "pay_kind p = KIND_SUBSCRIPTION" "e \<noteq> ev_canceled sdk"
  shows "\<exists>d'. deliver sdk now e y d d d = Inr (True, d', Some (pay_user_id p)) \<and>
    db_payments d' = db_payments (snd (claim_payment y STATUS_SUCCEEDED now d)) \<and>
    user_exists d' (pay_user_id p)"
proof -
  let ?c = "snd (claim_payment y STATUS_SUCCEEDED now d)"
  let ?u = "pay_user_id p"
  have ok: "payments_ok (db_payments d)" "subscriptions_ok (db_subscriptions ?c)" "user_exists ?c ?u"
    using assms(1,2) by (simp_all add: money_ok_def row_simps user_exists_def)
  obtain d' where d': "extend_subscription ?u now ?c ?c = Inr d'"
    using extend_alone [OF ok(2,3)] by blast
  moreover have "extend_subscription ?u now d ?c = extend_subscription ?u now ?c ?c"
    using active_rows_cong [of d ?c ?u] by (simp add: extend_subscription_def active_subscription_def row_simps)
  moreover have "user_exists d' ?u"
    using extend_subscription_ok [OF d' ok(2)] ok(3) by (simp add: user_exists_def)
  ultimately show ?thesis
    using deliver_success [OF ok(1) assms(3-6), of now d] extend_subscription_ok [OF d' ok(2)] by simp
qed

lemma stale_single:
  assumes "payments_ok (db_payments d)" "p \<in> set (db_payments d)" "open_intent p" "\<not> fresh now p"
  shows "stale_subscription_intents (pay_user_id p) now d = [p]"
  using open_of_cases [OF assms(1), of "pay_user_id p"]
proof cases
  case 1
  with assms show ?thesis by (auto simp: open_of_def filter_empty_conv)
next
  case (2 q)
  moreover have "p \<in> set (open_of (pay_user_id p) d)" using assms by (simp add: open_of_def)
  ultimately show ?thesis using assms(4) by (simp add: stale_iff)
qed

lemma count_by_id:
  "payments_ok ps \<Longrightarrow> p \<in> set ps \<Longrightarrow> count_where (\<lambda>q. pay_id q = pay_id p) ps = 1"
proof -
  have "distinct (map pay_id ps) \<Longrightarrow> p \<in> set ps \<Longrightarrow> count_where (\<lambda>q. pay_id q = pay_id p) ps = 1" for ps
  proof (induction ps)
    case (Cons q ps)
    have "count_where (\<lambda>r. pay_id r = pay_id p) ps = 0" if "pay_id p \<notin> pay_id ` set ps"
      unfolding count_where_0 using that by (metis imageI)
    with Cons show ?case by auto
  qed simp
  then show "payments_ok ps \<Longrightarrow> p \<in> set ps \<Longrightarrow> count_where (\<lambda>q. pay_id q = pay_id p) ps = 1"
    by (simp add: payments_ok_def)
qed

text \<open>A run in which one payment is credited.\<close>

lemma pay_reach_credited:
  assumes "pay_reach sdk w" "y \<in> set (w_credits w)"
  shows "\<exists>p. find_payment y (w_db w) = Some p \<and> pay_status p = STATUS_SUCCEEDED"
proof -
  have inv: "payments_ok (db_payments (w_db w))" "credited w"
    using pay_reach_inv [OF assms(1)] by (simp_all add: pay_inv_def money_ok_def)
  with assms(2) find_payment_iff [OF inv(1), of y] show ?thesis unfolding credited_def by blast
qed

lemma payment_run_sample: "\<exists>w. pay_reach sample_events w \<and> w_credits w = [''yk-1'']"
proof -
  let ?w = "\<lparr>w_db = paid_db, w_seen = [paid_db], w_credits = []\<rparr>"
  obtain d' where d: "deliver sample_events 60 ''payment.succeeded'' ''yk-1'' paid_db paid_db paid_db =
      Inr (True, d', Some 1)"
    using webhook_success_run by blast
  have "pay_reach sample_events ?w"
    by (rule pay_reach.init [OF paid_db_ok(1)]) (simp add: paid_db_def sample_payment_def payment_row_def)
  then have "pay_reach sample_events (credit ''yk-1'' (Some 1) (commit d' ?w))"
    by (rule pay_reach.step) (rule pay_step.delivery [OF _ _, where b = True], use d in simp_all)
  then show ?thesis by (intro exI [of _ "credit ''yk-1'' (Some 1) (commit d' ?w)"]) simp
qed

section \<open>Properties\<close>



text \<open>
  a terminal status is final: in every run, no step of the service (creating, sweeping,
  answering, delivering) touches the row of a payment that has succeeded or was cancelled.
\<close>

theorem payment_runs_terminal_final:
  assumes "pay_reach sdk w" "pay_step sdk w w'"
    and "find_payment y (w_db w) = Some p" "pay_status p \<in> TERMINAL_STATUSES"
  shows "find_payment y (w_db w') = Some p"
proof -
  have inv: "pay_inv w" "pay_inv w'"
    using pay_reach_inv assms(1,2) pay_reach.step by blast+
  then have "keeps_terminal (w_db w) (w_db w')" "payments_ok (db_payments (w_db w'))"
    using pay_step_good_move [OF assms(2)] by (simp_all add: pay_inv_def good_move_def money_ok_def)
  with assms(3,4) find_payment_Some [OF assms(3)] show ?thesis
    by (simp add: keeps_terminal_def find_payment_iff)
qed

theorem payment_runs_terminal_final_witness:
  "\<exists>w w' p. pay_reach sample_events w \<and> pay_step sample_events w w' \<and>
     pay_status p = STATUS_SUCCEEDED \<and> find_payment ''yk-1'' (w_db w') = Some p"
proof -
  obtain w where w: "pay_reach sample_events w" "w_credits w = [''yk-1'']"
    using payment_run_sample by blast
  then obtain p where p: "find_payment ''yk-1'' (w_db w) = Some p" "pay_status p = STATUS_SUCCEEDED"
    using pay_reach_credited [OF w(1), of "''yk-1''"] by auto
  have step: "pay_step sample_events w (commit (snd (expire_stale_intents 1 70 (w_db w) (w_db w))) w)"
    by (rule pay_step.sweep) (rule prod.collapse [symmetric])
  show ?thesis
    using payment_runs_terminal_final [OF w(1) step p(1)] p(2) w(1) step status_simps by metis
qed

section \<open>Overlaps the code does not exclude\<close>

lemma other_payment_unclaimed:
  assumes "payments_ok (db_payments d)" "find_payment z d = Some q" "y \<noteq> z"
    "db_payments d' = db_payments (snd (claim_payment y new now d))" "new \<in> TERMINAL_STATUSES"
  shows "find_payment z d' = Some q"
proof -
  have "q \<in> set (db_payments d')"
    using find_payment_Some [OF assms(2)] assms(3,4) by (auto simp: claim_payment_def set_update_where claim_hit_def)
  moreover have "payments_ok (db_payments d')"
    using payments_ok_claim [OF assms(1,5)] assms(4) by simp
  ultimately show ?thesis
    using find_payment_Some [OF assms(2)] by (simp add: find_payment_iff)
qed

text \<open>
  two different paid payments of one user. Delivered one after the other they extend his
  subscription by two months; but when the second one reads the active subscription before the
  first commits, it writes the same new expiry over it, and one paid month is lost, although both
  payments are claimed and recorded as succeeded.
\<close>

theorem overlapping_payments_lose_a_month:
  assumes "money_ok d" "active_rows u d = [sub]" "y \<noteq> z"
    and "find_payment y d = Some p" "pay_user_id p = u" "pay_kind p = KIND_SUBSCRIPTION" "pay_status p \<notin> TERMINAL_STATUSES"
    and "find_payment z d = Some q" "pay_user_id q = u" "pay_kind q = KIND_SUBSCRIPTION" "pay_status q \<notin> TERMINAL_STATUSES"
    and "e \<noteq> ev_canceled sdk"
  shows "\<exists>d1 d2 d3. deliver sdk now e y d d d = Inr (True, d1, Some u) \<and>
    deliver sdk now e z d1 d1 d1 = Inr (True, d2, Some u) \<and>
    map sub_expires_at (active_rows u d2) =
      [next_expiry (Some (next_expiry (Some (sub_expires_at sub)) (utc_datetime now))) (utc_datetime now)] \<and>
    deliver sdk now e z d d d1 = Inr (True, d3, Some u) \<and>
    map sub_expires_at (active_rows u d3) = [next_expiry (Some (sub_expires_at sub)) (utc_datetime now)]"
proof -
  let ?c = "snd (claim_payment y STATUS_SUCCEEDED now d)"
  let ?d1 = "apply_extension sub now ?c"
  have ok: "payments_ok (db_payments d)" "subscriptions_ok (db_subscriptions d)"
    using assms(1) by (simp_all add: money_ok_def)
  have run1: "deliver sdk now e y d d d = Inr (True, ?d1, Some u)"
    using deliver_success [OF ok(1) assms(4,7,6,12), of now d] assms(2,5) by (simp add: extend_subscription_def)
  have ok1: "payments_ok (db_payments ?d1)" "subscriptions_ok (db_subscriptions ?d1)"
    using deliver_money_ok [OF run1 assms(1)] by (simp_all add: money_ok_def)
  have act_c: "active_rows u ?c = [sub]" "subscriptions_ok (db_subscriptions ?c)"
    using assms(2) ok(2) active_rows_cong [of ?c d u] by (simp_all add: row_simps)
  define sub1 where "sub1 = sub\<lparr>sub_expires_at := next_expiry (Some (sub_expires_at sub)) (utc_datetime now)\<rparr>"
  have act1: "active_rows u ?d1 = [sub1]"
    using active_rows_extend [OF act_c(2,1), of sub now] by (simp add: sub1_def)
  have z1: "find_payment z ?d1 = Some q"
    by (rule other_payment_unclaimed [OF ok(1) assms(8,3), where new = STATUS_SUCCEEDED and now = now])
       (simp_all add: row_simps status_simps)
  let ?c2 = "snd (claim_payment z STATUS_SUCCEEDED now ?d1)"
  have act_c2: "active_rows u ?c2 = [sub1]" "subscriptions_ok (db_subscriptions ?c2)"
    using act1 ok1(2) active_rows_cong [of ?c2 ?d1 u] by (simp_all add: row_simps)
  have run2: "deliver sdk now e z ?d1 s2 ?d1 =
      bind_res (extend_subscription u now s2 ?c2) (\<lambda>d2. Inr (True, d2, Some u))" for s2
    using deliver_success [OF ok1(1) z1 assms(11,10,12), of now s2] assms(9) by simp
  have run3: "deliver sdk now e z d d ?d1 = deliver sdk now e z ?d1 d ?d1"
    using assms(8) z1 by (simp add: deliver_def)
  have "sub_id sub1 = sub_id sub" by (simp add: sub1_def)
  then show ?thesis
    using run1 run2 [of ?d1] run2 [of d] run3 act1 assms(2)
      active_rows_extend [OF act_c2(2,1), of sub1 now] active_rows_extend [OF act_c2(2,1), of sub now]
    by (intro exI [of _ ?d1] exI [of _ "apply_extension sub1 now ?c2"] exI [of _ "apply_extension sub now ?c2"])
       (simp add: extend_subscription_def sub1_def)
qed

definition two_payments_db :: db where
  "two_payments_db = sample_db\<lparr>db_payments := [sample_payment\<lparr>pay_status := STATUS_EXPIRED\<rparr>,
     sample_payment\<lparr>pay_id := 2, pay_yookassa_id := Some ''yk-2''\<rparr>]\<rparr>"

theorem overlapping_payments_lose_a_month_witness:
  "\<exists>d1 d3. deliver sample_events 60 ''payment.succeeded'' ''yk-1'' two_payments_db two_payments_db two_payments_db =
      Inr (True, d1, Some 1) \<and>
    deliver sample_events 60 ''payment.succeeded'' ''yk-2'' two_payments_db two_payments_db d1 = Inr (True, d3, Some 1) \<and>
    map sub_expires_at (active_rows 1 d3) = [next_expiry (Some (utc_datetime 50)) (utc_datetime 60)]"
proof -
  have ok: "money_ok two_payments_db"
    using sample_subscriptions_ok
    by (simp add: two_payments_db_def money_ok_def payments_ok_def uq_payments_open_intent_def
        uq_payments_yookassa_def unique_where_Cons open_intent_def sample_db_def status_simps
        sample_payment_def payment_row_def)
  have act: "active_rows 1 two_payments_db = [sample_subscription]" by code_simp
  have p: "find_payment ''yk-1'' two_payments_db = Some (sample_payment\<lparr>pay_status := STATUS_EXPIRED\<rparr>)"
    "find_payment ''yk-2'' two_payments_db = Some (sample_payment\<lparr>pay_id := 2, pay_yookassa_id := Some ''yk-2''\<rparr>)"
    by (simp_all add: find_payment_def two_payments_db_def sample_payment_def payment_row_def)
  show ?thesis
    using overlapping_payments_lose_a_month [OF ok act _ p(1) _ _ _ p(2),
        where e = "''payment.succeeded''" and sdk = sample_events and now = 60]
      paid_db_payment(2-4)
    by (simp add: status_simps sample_events_def) (force simp: sample_subscription_def)
qed

text \<open>
  the sweep updates by id without looking at the status again. When a success is committed
  between its selection and its update, the succeeded payment becomes \<open>expired\<close>: it is no longer
  terminal, and a repeated delivery credits it a second time.
\<close>

theorem sweep_overlap_unsettles:
  assumes "money_ok d" "user_exists d (pay_user_id p)" "find_payment y d = Some p" "open_intent p" "\<not> fresh now p"
    and "e \<noteq> ev_canceled sdk"
  shows "\<exists>d1 d2 d3. deliver sdk now e y d d d = Inr (True, d1, Some (pay_user_id p)) \<and>
    expire_stale_intents (pay_user_id p) now d d1 = (1, d2) \<and>
    map_option pay_status (find_payment y d2) = Some STATUS_EXPIRED \<and>
    deliver sdk now e y d2 d2 d2 = Inr (True, d3, Some (pay_user_id p))"
proof -
  let ?u = "pay_user_id p"
  have ok: "payments_ok (db_payments d)" "subscriptions_ok (db_subscriptions d)"
    using assms(1) by (simp_all add: money_ok_def)
  have p: "p \<in> set (db_payments d)" "pay_yookassa_id p = Some y" "pay_status p \<notin> TERMINAL_STATUSES"
    "pay_kind p = KIND_SUBSCRIPTION"
    using find_payment_Some [OF assms(3)] assms(4) by (simp_all add: open_intent_def status_simps)
  obtain d1 where run1: "deliver sdk now e y d d d = Inr (True, d1, Some ?u)"
    and d1: "db_payments d1 = db_payments (snd (claim_payment y STATUS_SUCCEEDED now d))" "user_exists d1 ?u"
    using lone_delivery [OF assms(1,2,3) p(3,4) assms(6)] by blast
  have ok1: "money_ok d1" by (rule deliver_money_ok [OF run1 assms(1)])
  have ids: "map pay_id (stale_subscription_intents ?u now d) = [pay_id p]"
    using stale_single [OF ok(1) p(1) assms(4,5)] by simp
  let ?d2 = "d1\<lparr>db_payments := update_where (\<lambda>q. pay_id q = pay_id p) (\<lambda>q. q\<lparr>pay_status := STATUS_EXPIRED\<rparr>) (db_payments d1)\<rparr>"
  have found1: "find_payment y d1 = Some (p\<lparr>pay_status := STATUS_SUCCEEDED, pay_confirmed_at := Some (utc_datetime now)\<rparr>)"
    using find_after_claim [OF ok(1) assms(3) p(3), of STATUS_SUCCEEDED now] find_payment_cong [OF d1(1)]
    by (simp add: status_simps)
  have one: "count_where (\<lambda>q. pay_id q = pay_id p) (db_payments d1) = 1"
    using count_by_id [of "db_payments d1"] ok1 find_payment_Some [OF found1]
    by (fastforce simp: money_ok_def)
  have sweep: "expire_stale_intents ?u now d d1 = (1, ?d2)"
    using one by (simp add: expire_stale_intents_def Let_def ids)
  have ok2: "money_ok ?d2" using ok1 by (simp add: money_ok_def payments_ok_status status_simps)
  let ?p2 = "p\<lparr>pay_status := STATUS_EXPIRED, pay_confirmed_at := Some (utc_datetime now)\<rparr>"
  have found2: "find_payment y ?d2 = Some ?p2"
    using find_payment_Some [OF found1] ok2 p(2)
    by (force simp: find_payment_iff money_ok_def set_update_where image_iff)
  have "user_exists ?d2 (pay_user_id ?p2)" using d1(2) by (simp add: user_exists_def)
  then obtain d3 where "deliver sdk now e y ?d2 ?d2 ?d2 = Inr (True, d3, Some ?u)"
    using lone_delivery [OF ok2 _ found2, where now = now and e = e and sdk = sdk] p(4) assms(6) by (auto simp: status_simps)
  with run1 sweep found2 show ?thesis by auto
qed

theorem sweep_overlap_unsettles_witness:
  "\<exists>d1 d2 d3. deliver sample_events (25 * hour_us) ''payment.succeeded'' ''yk-1'' paid_db paid_db paid_db = Inr (True, d1, Some 1) \<and>
    expire_stale_intents 1 (25 * hour_us) paid_db d1 = (1, d2) \<and>
    deliver sample_events (25 * hour_us) ''payment.succeeded'' ''yk-1'' d2 d2 d2 = Inr (True, d3, Some 1)"
proof -
  have "open_intent sample_payment" "\<not> fresh (25 * hour_us) sample_payment"
    by (simp_all add: sample_payment_def payment_row_def open_intent_def fresh_def hour_us_def)
  then show ?thesis
    using sweep_overlap_unsettles [OF paid_db_ok(1) _ paid_db_payment(1),
        where e = "''payment.succeeded''" and sdk = sample_events and now = "25 * hour_us"]
      paid_db_ok(2) paid_db_payment(2)
    by (simp add: sample_events_def) blast
qed

end
