(* ===== verification/Group_Resync.thy ===== *)
theory Group_Resync
  imports Schema
begin

text \<open>
  The composition of an account's groups, \<open>app/application/accounts\<close>: applying the answer of a
  messenger to the stored groups, recording a failed synchronisation, the polling task of
  \<open>app/worker/tasks.py\<close>, and detaching and deleting an account. The answer is an untrusted
  JSON value. The session is the database; \<open>uq_groups_account_external\<close> makes the dictionary of
  existing groups and the rows of the account the same thing. The fixed messages in Russian are
  written here in English.
\<close>

section \<open>The result of a synchronisation\<close>

record group_resync_result =
  rr_found :: nat
  rr_created :: nat
  rr_renamed :: nat
  rr_missing :: nat
  rr_error :: "string option"

definition failed_result :: "string \<Rightarrow> group_resync_result" where
  "failed_result e = \<lparr>rr_found = 0, rr_created = 0, rr_renamed = 0, rr_missing = 0, rr_error = Some e\<rparr>"

text \<open>\<open>json.dumps\<close> with \<open>ensure_ascii=False\<close> on the shape the code writes.\<close>

definition json_char :: "char \<Rightarrow> string" where
  "json_char c =
     (let n = (of_char c :: nat) in
      if n = 34 \<or> n = 92 then [CHR 0x5C, c]
      else if n = 8 then [CHR 0x5C, CHR ''b'']
      else if n = 9 then [CHR 0x5C, CHR ''t'']
      else if n = 10 then [CHR 0x5C, CHR ''n'']
      else if n = 12 then [CHR 0x5C, CHR ''f'']
      else if n = 13 then [CHR 0x5C, CHR ''r'']
      else if n < 32 then CHR 0x5C # ''u00'' @ [hex_digit (n div 16), hex_digit (n mod 16)]
      else [c])"

definition json_string :: "string \<Rightarrow> string" where
  "json_string s = CHR 0x22 # concat (map json_char s) @ [CHR 0x22]"

definition json_member :: "string \<Rightarrow> string \<Rightarrow> string" where
  "json_member k v = json_string k @ '': '' @ v"

definition encode_result :: "group_resync_result \<Rightarrow> string" where
  "encode_result r =
     ''{'' @ join_comma
       [json_member ''found'' (nat_str (rr_found r)), json_member ''new'' (nat_str (rr_created r)),
        json_member ''renamed'' (nat_str (rr_renamed r)), json_member ''missing'' (nat_str (rr_missing r)),
        json_member ''error'' (case rr_error r of None \<Rightarrow> ''null'' | Some e \<Rightarrow> json_string e)] @ ''}''"

definition EMPTY_RESPONSE_MESSAGE :: string where
  "EMPTY_RESPONSE_MESSAGE = ''the messenger returned no groups: no marks were set''"

definition MALFORMED_RESPONSE_MESSAGE :: string where
  "MALFORMED_RESPONSE_MESSAGE = ''the messenger returned the groups not as a list''"

definition UNEXPECTED_FAILURE_MESSAGE :: string where
  "UNEXPECTED_FAILURE_MESSAGE = ''the synchronisation failed because of an internal error''"

definition EXTERNAL_ID_MAX :: nat where "EXTERNAL_ID_MAX = 255"
definition NAME_MAX :: nat where "NAME_MAX = 255"

section \<open>One element of the answer\<close>

definition fetched_item :: "pyval \<Rightarrow> (string \<times> string) option" where
  "fetched_item item =
     (case item of
        PDict kvs \<Rightarrow>
          (case map_of kvs ''id'' of
             None \<Rightarrow> None
           | Some PNone \<Rightarrow> None
           | Some v \<Rightarrow>
               let external_id = py_str v;
                   raw_name = (case map_of kvs ''name'' of None \<Rightarrow> PNone | Some n \<Rightarrow> n)
               in if length external_id > EXTERNAL_ID_MAX then None
                  else Some (external_id, take NAME_MAX (if truthy raw_name then py_str raw_name else external_id)))
      | _ \<Rightarrow> None)"

section \<open>The loop\<close>

record resync =
  rz_groups :: "group list"
  rz_seen :: "string list"
  rz_created :: nat
  rz_renamed :: nat

text \<open>A new row with the defaults of its columns.\<close>

definition new_group :: "int \<Rightarrow> account \<Rightarrow> string \<Rightarrow> int \<Rightarrow> string \<Rightarrow> string \<Rightarrow> group" where
  "new_group now acc messenger_type i external_id nm =
     \<lparr>grp_id = i, grp_user_id = acc_user_id acc, grp_account_id = acc_id acc,
      grp_messenger_type = messenger_type, grp_external_id = external_id, grp_name = nm, grp_is_active = True,
      grp_last_error = None, grp_error_at = None, grp_missing_since = None, grp_created_at = now\<rparr>"

definition existing_group :: "group list \<Rightarrow> string \<Rightarrow> group option" where
  "existing_group existing e = List.find (\<lambda>g. grp_external_id g = e) existing"

definition returned :: "string \<Rightarrow> group \<Rightarrow> group" where
  "returned nm g = g\<lparr>grp_name := nm, grp_missing_since := None\<rparr>"

definition resync_pair ::
  "int \<Rightarrow> account \<Rightarrow> string \<Rightarrow> group list \<Rightarrow> string \<times> string \<Rightarrow> resync \<Rightarrow> resync" where
  "resync_pair now acc messenger_type existing p st =
     (let (external_id, nm) = p in
      if external_id \<in> set (rz_seen st) then st
      else
        let st1 = st\<lparr>rz_seen := rz_seen st @ [external_id]\<rparr> in
        (case existing_group existing external_id of
           None \<Rightarrow>
             st1\<lparr>rz_groups := rz_groups st @
                   [new_group now acc messenger_type (next_id grp_id (rz_groups st)) external_id nm],
                 rz_created := Suc (rz_created st)\<rparr>
         | Some g \<Rightarrow>
             st1\<lparr>rz_groups := update_where (\<lambda>r. grp_id r = grp_id g) (returned nm) (rz_groups st),
                 rz_renamed := (if grp_name g \<noteq> nm then Suc (rz_renamed st) else rz_renamed st)\<rparr>))"

definition resync_item ::
  "int \<Rightarrow> account \<Rightarrow> string \<Rightarrow> group list \<Rightarrow> pyval \<Rightarrow> resync \<Rightarrow> resync" where
  "resync_item now acc messenger_type existing item st =
     (case fetched_item item of
        None \<Rightarrow> st
      | Some p \<Rightarrow> resync_pair now acc messenger_type existing p st)"

definition mark_missing :: "int \<Rightarrow> group \<Rightarrow> group" where
  "mark_missing now g =
     (case grp_missing_since g of None \<Rightarrow> g\<lparr>grp_missing_since := Some now\<rparr> | Some t \<Rightarrow> g)"

definition set_account :: "int \<Rightarrow> (account \<Rightarrow> account) \<Rightarrow> db \<Rightarrow> db" where
  "set_account i f d = d\<lparr>db_accounts := update_where (\<lambda>a. acc_id a = i) f (db_accounts d)\<rparr>"

definition groups_of :: "account \<Rightarrow> group list \<Rightarrow> group list" where
  "groups_of acc gs = filter (\<lambda>g. grp_account_id g = acc_id acc) gs"

definition record_sync_failure :: "account \<Rightarrow> string \<Rightarrow> db \<Rightarrow> db" where
  "record_sync_failure acc msg d =
     set_account (acc_id acc) (\<lambda>a. a\<lparr>acc_last_sync_result := Some (encode_result (failed_result msg))\<rparr>) d"

definition apply_group_resync ::
  "int \<Rightarrow> bool \<Rightarrow> string \<Rightarrow> account \<Rightarrow> pyval \<Rightarrow> db \<Rightarrow> group_resync_result \<times> db" where
  "apply_group_resync now allow_full_wipe messenger_type acc fetched d =
     (case fetched of
        PList items \<Rightarrow>
          let existing = groups_of acc (db_groups d);
              st = fold (resync_item now acc messenger_type existing) items
                     \<lparr>rz_groups = db_groups d, rz_seen = [], rz_created = 0, rz_renamed = 0\<rparr>
          in if existing \<noteq> [] \<and> rz_seen st = [] \<and> \<not> allow_full_wipe
             then (failed_result EMPTY_RESPONSE_MESSAGE, record_sync_failure acc EMPTY_RESPONSE_MESSAGE d)
             else
               let absent = filter (\<lambda>g. grp_external_id g \<notin> set (rz_seen st)) existing;
                   groups = update_where (\<lambda>r. list_ex (\<lambda>g. grp_id g = grp_id r) absent) (mark_missing now) (rz_groups st);
                   result = \<lparr>rr_found = length (rz_seen st), rr_created = rz_created st,
                              rr_renamed = rz_renamed st, rr_missing = length absent, rr_error = None\<rparr>
               in (result,
                   set_account (acc_id acc)
                     (\<lambda>a. a\<lparr>acc_last_synced_at := Some now, acc_last_sync_result := Some (encode_result result)\<rparr>)
                     (d\<lparr>db_groups := groups\<rparr>))
      | _ \<Rightarrow> (failed_result MALFORMED_RESPONSE_MESSAGE, record_sync_failure acc MALFORMED_RESPONSE_MESSAGE d))"

section \<open>Polling the bridge\<close>

definition POLL_INTERVAL :: nat where "POLL_INTERVAL = 15"
definition MAX_POLLS :: nat where "MAX_POLLS = 40"

datatype poll_end = PollReady pyval | PollFailed string | PollTimeout | PollRaised exn

text \<open>The answers of the bridge, one per poll; \<open>None\<close> as state is a missing or null member.\<close>

record sync_data =
  sd_state :: "string option"
  sd_groups :: pyval

fun poll :: "(nat \<Rightarrow> exn + sync_data) \<Rightarrow> nat \<Rightarrow> nat \<Rightarrow> poll_end" where
  "poll get_sync_status attempt 0 = PollTimeout"
| "poll get_sync_status attempt (Suc left) =
     (case get_sync_status attempt of
        Inl e \<Rightarrow> PollRaised e
      | Inr data \<Rightarrow>
          if sd_state data = Some ''ready''
          then PollReady (if truthy (sd_groups data) then sd_groups data else PList [])
          else if sd_state data \<in> {Some ''failed'', Some ''not_found'', Some ''unknown''}
          then PollFailed (case sd_state data of Some s \<Rightarrow> s | None \<Rightarrow> '''')
          else poll get_sync_status (Suc attempt) left)"

definition bridge_failure_message :: "string \<Rightarrow> string" where
  "bridge_failure_message state = ''Synchronisation failed: the messenger returned the state '' @ state"

definition sync_timeout_message :: "nat \<Rightarrow> nat \<Rightarrow> string" where
  "sync_timeout_message poll_interval max_polls =
     ''Synchronisation did not end within '' @ nat_str (poll_interval * max_polls div 60) @ '' min''"

definition fail_sync :: "int \<Rightarrow> string \<Rightarrow> db \<Rightarrow> db" where
  "fail_sync i msg d =
     (case find_row acc_id i (db_accounts d) of
        Some acc \<Rightarrow>
          if acc_status acc = ''syncing''
          then set_account i (\<lambda>a. a\<lparr>acc_status := ''sync_failed''\<rparr>) (record_sync_failure acc msg d)
          else d
      | None \<Rightarrow> d)"

text \<open>
  The task, on the database as it is when the polling ends; the value beside it is the exception
  the task reports.
\<close>

definition sync_groups :: "(nat \<Rightarrow> exn + sync_data) \<Rightarrow> int \<Rightarrow> string \<Rightarrow> int \<Rightarrow> db \<Rightarrow> exn option \<times> db" where
  "sync_groups get_sync_status now messenger_type i d =
     (case poll get_sync_status 0 MAX_POLLS of
        PollReady groups \<Rightarrow>
          (case find_row acc_id i (db_accounts d) of
             None \<Rightarrow> (None, d)
           | Some acc \<Rightarrow>
               if acc_status acc \<noteq> ''syncing'' then (None, d)
               else let (result, d1) = apply_group_resync now False messenger_type acc groups d
                    in (None, set_account i (\<lambda>a. a\<lparr>acc_status := ''active''\<rparr>) d1))
      | PollFailed state \<Rightarrow> (None, fail_sync i (bridge_failure_message state) d)
      | PollTimeout \<Rightarrow> (None, fail_sync i (sync_timeout_message POLL_INTERVAL MAX_POLLS) d)
      | PollRaised e \<Rightarrow> (Some e, fail_sync i UNEXPECTED_FAILURE_MESSAGE d))"

section \<open>Detaching and deleting an account\<close>

definition detached :: "schedule \<Rightarrow> schedule" where
  "detached s = s\<lparr>sch_is_active := False, sch_next_run_at := None, sch_account_id := None\<rparr>"

definition detach_schedules_from_account :: "int \<Rightarrow> db \<Rightarrow> nat \<times> db" where
  "detach_schedules_from_account i d =
     (count_where (\<lambda>s. sch_account_id s = Some i) (db_schedules d),
      d\<lparr>db_schedules := update_where (\<lambda>s. sch_account_id s = Some i) detached (db_schedules d)\<rparr>)"

definition owned_account :: "int \<Rightarrow> int \<Rightarrow> db \<Rightarrow> account option" where
  "owned_account uid i d = List.find (\<lambda>a. acc_id a = i \<and> acc_user_id a = uid) (db_accounts d)"

text \<open>The row goes, and with it the groups (\<open>ON DELETE CASCADE\<close>).\<close>

definition delete_account :: "int \<Rightarrow> int \<Rightarrow> db \<Rightarrow> bool \<times> db" where
  "delete_account uid i d =
     (case owned_account uid i d of
        None \<Rightarrow> (False, d)
      | Some acc \<Rightarrow>
          let d1 = snd (detach_schedules_from_account (acc_id acc) d)
          in (True, d1\<lparr>db_accounts := filter (\<lambda>a. acc_id a \<noteq> acc_id acc) (db_accounts d1),
                       db_groups := filter (\<lambda>g. grp_account_id g \<noteq> acc_id acc) (db_groups d1)\<rparr>))"

definition get_sync_status_view :: "int \<Rightarrow> int \<Rightarrow> db \<Rightarrow> (string \<times> string) option" where
  "get_sync_status_view uid i d =
     (case owned_account uid i d of
        None \<Rightarrow> None
      | Some acc \<Rightarrow>
          if acc_status acc = ''active'' then Some (''active'', acc_type acc)
          else if acc_status acc = ''sync_failed'' then Some (''sync_failed'', acc_type acc)
          else if acc_status acc = ''syncing'' then Some (''syncing'', acc_type acc)
          else Some (''other'', acc_type acc))"

section \<open>The loop against its specification\<close>

text \<open>What the answer says: the usable pairs in order; the first pair of an id counts.\<close>

definition usable :: "pyval list \<Rightarrow> (string \<times> string) list" where
  "usable items = List.map_filter fetched_item items"

lemma fold_resync_item:
  "fold (resync_item now acc mt existing) items st = fold (resync_pair now acc mt existing) (usable items) st"
  by (induction items arbitrary: st) (auto simp: usable_def resync_item_def List.map_filter_simps split: option.split)

text \<open>An existing row after the pairs \<open>ps\<close>, and after the marks.\<close>

definition touch :: "int \<Rightarrow> (string \<times> string) list \<Rightarrow> group \<Rightarrow> group" where
  "touch A ps g =
     (if grp_account_id g = A
      then case map_of ps (grp_external_id g) of Some nm \<Rightarrow> returned nm g | None \<Rightarrow> g
      else g)"

definition settle :: "int \<Rightarrow> int \<Rightarrow> (string \<times> string) list \<Rightarrow> group \<Rightarrow> group" where
  "settle now A ps g =
     (if grp_account_id g = A
      then case map_of ps (grp_external_id g) of Some nm \<Rightarrow> returned nm g | None \<Rightarrow> mark_missing now g
      else g)"

definition to_rename :: "(string \<times> string) list \<Rightarrow> group \<Rightarrow> bool" where
  "to_rename ps g = (case map_of ps (grp_external_id g) of Some nm \<Rightarrow> nm \<noteq> grp_name g | None \<Rightarrow> False)"

lemma returned_simps [simp]:
  "grp_id (returned nm g) = grp_id g" "grp_account_id (returned nm g) = grp_account_id g"
  "grp_external_id (returned nm g) = grp_external_id g" "grp_is_active (returned nm g) = grp_is_active g"
  "grp_name (returned nm g) = nm" "grp_missing_since (returned nm g) = None" "returned nm (returned nm' g) = returned nm g"
  by (simp_all add: returned_def)

lemma mark_missing_simps [simp]:
  "grp_id (mark_missing now g) = grp_id g" "grp_account_id (mark_missing now g) = grp_account_id g"
  "grp_external_id (mark_missing now g) = grp_external_id g" "grp_is_active (mark_missing now g) = grp_is_active g"
  "grp_name (mark_missing now g) = grp_name g" "mark_missing now' (mark_missing now g) = mark_missing now g"
  "grp_missing_since (mark_missing now g) \<noteq> None"
  by (auto simp: mark_missing_def split: option.splits)

lemma touch_simps [simp]:
  "grp_id (touch A ps g) = grp_id g" "grp_account_id (touch A ps g) = grp_account_id g"
  "grp_external_id (touch A ps g) = grp_external_id g" "touch A [] g = g"
  by (auto simp: touch_def split: option.splits)

lemma settle_simps [simp]:
  "grp_id (settle now A ps g) = grp_id g" "grp_account_id (settle now A ps g) = grp_account_id g"
  "grp_external_id (settle now A ps g) = grp_external_id g" "grp_is_active (settle now A ps g) = grp_is_active g"
  "settle now' A ps (settle now A ps g) = settle now A ps g"
  by (auto simp: settle_def split: option.splits)

lemma map_of_snoc: "map_of (ps @ [(e, nm)]) x = (case map_of ps x of None \<Rightarrow> if x = e then Some nm else None | Some v \<Rightarrow> Some v)"
  by (simp add: map_add_def split: option.split)

lemma map_of_snoc_known: "e \<in> fst ` set ps \<Longrightarrow> map_of (ps @ [(e, nm)]) = map_of ps"
proof
  fix x
  assume "e \<in> fst ` set ps"
  then have "map_of ps e \<noteq> None" by (simp add: map_of_eq_None_iff)
  then show "map_of (ps @ [(e, nm)]) x = map_of ps x"
    unfolding map_of_snoc by (auto split: option.split)
qed

lemma count_where_one:
  assumes "distinct xs" "g \<in> set xs" "\<not> P g" "\<And>x. x \<in> set xs \<Longrightarrow> P' x = (P x \<or> x = g \<and> Q)"
  shows "count_where P' xs = count_where P xs + (if Q then 1 else 0)"
  using assms
proof (induction xs)
  case (Cons x xs)
  show ?case
  proof (cases "x = g")
    case True
    with Cons.prems have "count_where P' xs = count_where P xs"
      by (auto simp: count_where_def intro!: arg_cong [where f = length] filter_cong)
    with True Cons.prems show ?thesis by auto
  next
    case False
    with Cons.prems have "count_where P' xs = count_where P xs + (if Q then 1 else 0)"
      by (intro Cons.IH) auto
    with False Cons.prems(4) [of x] show ?thesis by simp
  qed
qed simp

definition fresh_rows :: "account \<Rightarrow> group list \<Rightarrow> (string \<times> string) list \<Rightarrow> group list \<Rightarrow> bool" where
  "fresh_rows acc existing ps ns \<longleftrightarrow>
     distinct (map grp_external_id ns) \<and>
     grp_external_id ` set ns = fst ` set ps - grp_external_id ` set existing \<and>
     (\<forall>n \<in> set ns. grp_account_id n = acc_id acc \<and> grp_user_id n = acc_user_id acc \<and> grp_is_active n \<and>
        grp_missing_since n = None \<and> map_of ps (grp_external_id n) = Some (grp_name n))"

definition loop_inv :: "account \<Rightarrow> group list \<Rightarrow> (string \<times> string) list \<Rightarrow> resync \<Rightarrow> bool" where
  "loop_inv acc G ps st \<longleftrightarrow>
     distinct (rz_seen st) \<and> set (rz_seen st) = fst ` set ps \<and> distinct (map grp_id (rz_groups st)) \<and>
     rz_renamed st = count_where (to_rename ps) (groups_of acc G) \<and>
     (\<exists>ns. rz_groups st = map (touch (acc_id acc) ps) G @ ns \<and> rz_created st = length ns \<and>
        fresh_rows acc (groups_of acc G) ps ns)"

lemma existing_group_Some: "existing_group gs e = Some g \<Longrightarrow> g \<in> set gs \<and> grp_external_id g = e"
  by (induction gs) (auto simp: existing_group_def split: if_splits)

lemma existing_group_None: "existing_group gs e = None \<longleftrightarrow> e \<notin> grp_external_id ` set gs"
  by (induction gs) (auto simp: existing_group_def)

lemma groups_of_unique:
  assumes "uq_groups_account_external G" "g \<in> set (groups_of acc G)" "h \<in> set (groups_of acc G)"
    "grp_external_id g = grp_external_id h"
  shows "g = h"
  using assms unique_whereD [of "\<lambda>_. True" "\<lambda>g. (grp_account_id g, grp_external_id g)" G g h]
  by (auto simp: uq_groups_account_external_def groups_of_def)

lemma touch_snoc:
  assumes "e \<notin> fst ` set ps"
  shows "touch A (ps @ [(e, nm)]) g =
    (if grp_account_id g = A \<and> grp_external_id g = e then returned nm (touch A ps g) else touch A ps g)"
proof -
  have "map_of ps e = None" using assms by (simp add: map_of_eq_None_iff)
  then show ?thesis unfolding touch_def map_of_snoc by (auto split: option.split)
qed

lemma touch_known: "e \<in> fst ` set ps \<Longrightarrow> touch A (ps @ [(e, nm)]) = touch A ps"
  unfolding touch_def by (simp only: map_of_snoc_known)

lemma to_rename_snoc:
  assumes "e \<notin> fst ` set ps"
  shows "to_rename (ps @ [(e, nm)]) g = (to_rename ps g \<or> grp_external_id g = e \<and> nm \<noteq> grp_name g)"
    and "grp_external_id g = e \<Longrightarrow> \<not> to_rename ps g"
proof -
  have "map_of ps e = None" using assms by (simp add: map_of_eq_None_iff)
  then show "to_rename (ps @ [(e, nm)]) g = (to_rename ps g \<or> grp_external_id g = e \<and> nm \<noteq> grp_name g)"
    and "grp_external_id g = e \<Longrightarrow> \<not> to_rename ps g"
    unfolding to_rename_def map_of_snoc by (auto split: option.split)
qed

lemma loop_inv_step:
  assumes inv: "loop_inv acc G ps st" and ok: "groups_ok G"
  shows "loop_inv acc G (ps @ [p]) (resync_pair now acc mt (groups_of acc G) p st)"
proof -
  obtain e nm where p: "p = (e, nm)" by (cases p)
  obtain ns where ns: "rz_groups st = map (touch (acc_id acc) ps) G @ ns" "rz_created st = length ns"
    "fresh_rows acc (groups_of acc G) ps ns" using inv by (auto simp: loop_inv_def)
  have seen: "distinct (rz_seen st)" "set (rz_seen st) = fst ` set ps" "distinct (map grp_id (rz_groups st))"
    "rz_renamed st = count_where (to_rename ps) (groups_of acc G)" using inv by (simp_all add: loop_inv_def)
  show ?thesis
  proof (cases "e \<in> set (rz_seen st)")
    case True
    then have known: "e \<in> fst ` set ps" by (simp add: seen)
    have "to_rename (ps @ [p]) = to_rename ps" "fresh_rows acc (groups_of acc G) (ps @ [p]) = fresh_rows acc (groups_of acc G) ps"
      using known by (auto simp: to_rename_def fresh_rows_def p map_of_snoc_known fun_eq_iff simp del: map_of_append)
    with True known ns seen show ?thesis
      by (auto simp: loop_inv_def resync_pair_def p touch_known insert_absorb)
  next
    case False
    then have fresh: "e \<notin> fst ` set ps" by (simp add: seen)
    then have none: "map_of ps e = None" by (simp add: map_of_eq_None_iff)
    have keep: "map_of (ps @ [p]) x = Some v" if "map_of ps x = Some v" for x v
      unfolding p map_of_snoc using that by simp
    show ?thesis
    proof (cases "existing_group (groups_of acc G) e")
      case None
      then have notin: "e \<notin> grp_external_id ` set (groups_of acc G)" by (simp add: existing_group_None)
      let ?n = "new_group now acc mt (next_id grp_id (rz_groups st)) e nm"
      have same: "map (touch (acc_id acc) (ps @ [p])) G = map (touch (acc_id acc) ps) G"
        using notin by (auto simp: p touch_snoc [OF fresh] groups_of_def)
      have ren: "count_where (to_rename (ps @ [p])) (groups_of acc G) = count_where (to_rename ps) (groups_of acc G)"
        unfolding count_where_def
        by (intro arg_cong [where f = length] filter_cong refl)
          (use notin in \<open>auto simp: p to_rename_snoc(1) [OF fresh]\<close>)
      have "fresh_rows acc (groups_of acc G) (ps @ [p]) (ns @ [?n])"
      proof -
        have "e \<notin> grp_external_id ` set ns" using ns(3) fresh by (simp add: fresh_rows_def)
        moreover have "map_of (ps @ [p]) e = Some nm" unfolding p map_of_snoc by (simp add: none)
        ultimately show ?thesis
          using ns(3) notin keep by (auto simp: fresh_rows_def new_group_def p simp del: map_of_append)
      qed
      moreover have "distinct (map grp_id (rz_groups st @ [?n]))"
        by (rule next_id_distinct [OF seen(3)]) (simp add: new_group_def)
      ultimately show ?thesis
        using False None ns seen ren same fresh
        by (auto simp: loop_inv_def resync_pair_def p Let_def intro!: exI [of _ "ns @ [?n]"])
    next
      case (Some g)
      then have g: "g \<in> set (groups_of acc G)" "grp_external_id g = e" by (auto dest: existing_group_Some)
      have row: "(grp_id r = grp_id g) = (grp_account_id r = acc_id acc \<and> grp_external_id r = e)" if "r \<in> set G" for r
        using ok g that groups_of_unique [of G r acc g]
        by (auto simp: groups_ok_def groups_of_def distinct_map dest: inj_onD)
      have ids: "grp_id n \<noteq> grp_id g" if "n \<in> set ns" for n
        using seen(3) ns(1) g(1) that by (auto simp: groups_of_def image_iff)
      have upd: "update_where (\<lambda>r. grp_id r = grp_id g) (returned nm) (rz_groups st) =
          map (touch (acc_id acc) (ps @ [p])) G @ ns"
        unfolding ns(1) using row ids by (auto simp: update_where_def p touch_snoc [OF fresh] intro: map_idI)
      have only: "(grp_external_id x = e) = (x = g)" if "x \<in> set (groups_of acc G)" for x
        using ok g that groups_of_unique [of G x acc g] by (auto simp: groups_ok_def)
      have "distinct (groups_of acc G)" using ok by (simp add: groups_ok_def distinct_map groups_of_def)
      then have "count_where (to_rename (ps @ [p])) (groups_of acc G) =
          count_where (to_rename ps) (groups_of acc G) + (if nm \<noteq> grp_name g then 1 else 0)"
        using g(1) to_rename_snoc(2) [OF fresh g(2)]
      proof (rule count_where_one)
        show "to_rename (ps @ [p]) x = (to_rename ps x \<or> x = g \<and> nm \<noteq> grp_name g)" if "x \<in> set (groups_of acc G)" for x
          unfolding p to_rename_snoc(1) [OF fresh] using only [OF that] by auto
      qed
      moreover have "fresh_rows acc (groups_of acc G) (ps @ [p]) ns"
        using ns(3) g keep by (auto simp: fresh_rows_def p simp del: map_of_append)
      moreover have "distinct (map grp_id (map (touch (acc_id acc) (ps @ [p])) G @ ns))"
        using seen(3) ns(1) by (simp add: comp_def)
      ultimately show ?thesis
        using False Some ns(2) seen upd fresh
        by (auto simp: loop_inv_def resync_pair_def p Let_def intro!: exI [of _ ns])
    qed
  qed
qed

lemma loop_inv_fold:
  assumes "groups_ok G"
  shows "loop_inv acc G ps (fold (resync_pair now acc mt (groups_of acc G)) ps
     \<lparr>rz_groups = G, rz_seen = [], rz_created = 0, rz_renamed = 0\<rparr>)"
proof (induction ps rule: rev_induct)
  case Nil
  have "touch A [] = id" for A by (rule ext) simp
  then show ?case
    using assms by (auto simp: loop_inv_def groups_ok_def count_where_def to_rename_def fresh_rows_def)
next
  case (snoc p ps)
  then show ?case using loop_inv_step [OF snoc assms] by simp
qed

lemma set_account_simps [simp]:
  "db_groups (set_account i f d) = db_groups d" "db_schedules (set_account i f d) = db_schedules d"
  "db_accounts (set_account i f d) = update_where (\<lambda>a. acc_id a = i) f (db_accounts d)"
  by (simp_all add: set_account_def)

lemma mark_absent:
  assumes "distinct (map grp_id (map (touch A ps) G @ ns))" "A = acc_id acc" "seen = fst ` set ps"
  shows "update_where (\<lambda>r. list_ex (\<lambda>g. grp_id g = grp_id r)
        (filter (\<lambda>g. grp_external_id g \<notin> seen) (groups_of acc G))) (mark_missing now) (map (touch A ps) G @ ns)
    = map (settle now A ps) G @ ns"
proof -
  let ?absent = "filter (\<lambda>g. grp_external_id g \<notin> seen) (groups_of acc G)"
  have ids: "distinct (map grp_id G)" "\<And>n g. n \<in> set ns \<Longrightarrow> g \<in> set G \<Longrightarrow> grp_id g \<noteq> grp_id n"
    using assms(1) by (auto simp: comp_def image_iff)
  have row: "list_ex (\<lambda>g. grp_id g = grp_id r) ?absent = (grp_account_id r = A \<and> grp_external_id r \<notin> seen)" if "r \<in> set G" for r
    using ids(1) that assms(2) by (auto simp: list_ex_iff groups_of_def distinct_map dest: inj_onD)
  have none: "map_of ps e = None" if "e \<notin> seen" for e using that assms(3) by (simp add: map_of_eq_None_iff)
  have some: "map_of ps e \<noteq> None" if "e \<in> seen" for e using that assms(3) by (simp add: map_of_eq_None_iff)
  have "(if list_ex (\<lambda>g. grp_id g = grp_id (touch A ps r)) ?absent then mark_missing now (touch A ps r) else touch A ps r)
      = settle now A ps r" if "r \<in> set G" for r
    using row [OF that] none [of "grp_external_id r"] some [of "grp_external_id r"]
    by (auto simp: touch_def settle_def split: option.splits)
  moreover have "\<not> list_ex (\<lambda>g. grp_id g = grp_id n) ?absent" if "n \<in> set ns" for n
    using ids(2) [OF that] by (auto simp: list_ex_iff groups_of_def)
  ultimately show ?thesis
    by (auto simp: update_where_def intro: map_idI)
qed

lemma settle_groups_ok:
  assumes "groups_ok G" "fresh_rows acc (groups_of acc G) ps ns" "distinct (map grp_id (map (settle now A ps) G @ ns))"
  shows "groups_ok (map (settle now A ps) G @ ns)"
proof -
  let ?key = "\<lambda>g. (grp_account_id g, grp_external_id g)"
  have "distinct (map ?key G)" using assms(1) by (simp add: groups_ok_def uq_groups_account_external_def unique_where_def)
  then have "distinct (map ?key (map (settle now A ps) G))" by (simp add: comp_def)
  moreover have "distinct (map ?key ns)"
    using assms(2) by (auto simp: fresh_rows_def distinct_map inj_on_def)
  moreover have "?key n \<noteq> ?key g" if "n \<in> set ns" "g \<in> set G" for n g
  proof
    assume eq: "?key n = ?key g"
    with that assms(2) have "grp_account_id g = acc_id acc" by (auto simp: fresh_rows_def)
    with that(2) have "g \<in> set (groups_of acc G)" by (simp add: groups_of_def)
    moreover have "grp_external_id n \<notin> grp_external_id ` set (groups_of acc G)"
      using assms(2) that(1) by (auto simp: fresh_rows_def)
    ultimately show False using eq by auto
  qed
  then have "set (map ?key (map (settle now A ps) G)) \<inter> set (map ?key ns) = {}" by fastforce
  ultimately have "distinct (map ?key (map (settle now A ps) G @ ns))"
    by (simp only: map_append distinct_append)
  with assms(3) show ?thesis
    by (simp only: groups_ok_def uq_groups_account_external_def unique_where_def filter_True) simp
qed

definition absent_from :: "(string \<times> string) list \<Rightarrow> group \<Rightarrow> bool" where
  "absent_from ps g \<longleftrightarrow> grp_external_id g \<notin> fst ` set ps"

text \<open>The whole operation on a list, against its specification.\<close>

lemma resync_spec:
  assumes "groups_ok (db_groups d)" "apply_group_resync now wipe mt acc (PList items) d = (r, d')" "rr_error r = None"
  shows "\<exists>ns. db_groups d' = map (settle now (acc_id acc) (usable items)) (db_groups d) @ ns \<and>
    fresh_rows acc (groups_of acc (db_groups d)) (usable items) ns \<and> groups_ok (db_groups d') \<and>
    rr_created r = length ns \<and> rr_found r = card (fst ` set (usable items)) \<and>
    rr_renamed r = count_where (to_rename (usable items)) (groups_of acc (db_groups d)) \<and>
    rr_missing r = count_where (absent_from (usable items)) (groups_of acc (db_groups d)) \<and>
    d' = set_account (acc_id acc) (\<lambda>a. a\<lparr>acc_last_synced_at := Some now, acc_last_sync_result := Some (encode_result r)\<rparr>)
      (d\<lparr>db_groups := db_groups d'\<rparr>)"
proof -
  let ?G = "db_groups d" and ?ps = "usable items"
  let ?st = "fold (resync_pair now acc mt (groups_of acc ?G)) ?ps \<lparr>rz_groups = ?G, rz_seen = [], rz_created = 0, rz_renamed = 0\<rparr>"
  have inv: "loop_inv acc ?G ?ps ?st" by (rule loop_inv_fold [OF assms(1)])
  then obtain ns where ns: "rz_groups ?st = map (touch (acc_id acc) ?ps) ?G @ ns" "rz_created ?st = length ns"
    "fresh_rows acc (groups_of acc ?G) ?ps ns" by (auto simp: loop_inv_def)
  have seen: "distinct (rz_seen ?st)" "set (rz_seen ?st) = fst ` set ?ps" "distinct (map grp_id (rz_groups ?st))"
    "rz_renamed ?st = count_where (to_rename ?ps) (groups_of acc ?G)" using inv by (simp_all add: loop_inv_def)
  have settled: "update_where (\<lambda>r. list_ex (\<lambda>g. grp_id g = grp_id r)
        (filter (\<lambda>g. grp_external_id g \<notin> set (rz_seen ?st)) (groups_of acc ?G))) (mark_missing now) (rz_groups ?st)
      = map (settle now (acc_id acc) ?ps) ?G @ ns"
    unfolding ns(1) seen(2) using seen(3) ns(1) by (intro mark_absent) simp_all
  have go: "\<not> (groups_of acc ?G \<noteq> [] \<and> rz_seen ?st = [] \<and> \<not> wipe)"
  proof
    assume "groups_of acc ?G \<noteq> [] \<and> rz_seen ?st = [] \<and> \<not> wipe"
    with assms(2) have "r = failed_result EMPTY_RESPONSE_MESSAGE"
      by (simp add: apply_group_resync_def fold_resync_item Let_def)
    with assms(3) show False by (simp add: failed_result_def)
  qed
  let ?r = "\<lparr>rr_found = length (rz_seen ?st), rr_created = rz_created ?st, rr_renamed = rz_renamed ?st,
        rr_missing = length (filter (\<lambda>g. grp_external_id g \<notin> set (rz_seen ?st)) (groups_of acc ?G)), rr_error = None\<rparr>"
  have "apply_group_resync now wipe mt acc (PList items) d = (?r, set_account (acc_id acc) (\<lambda>a. a\<lparr>acc_last_synced_at := Some now, acc_last_sync_result := Some (encode_result ?r)\<rparr>)
      (d\<lparr>db_groups := map (settle now (acc_id acc) ?ps) ?G @ ns\<rparr>))"
    by (simp add: apply_group_resync_def fold_resync_item Let_def if_not_P [OF go] settled)
  note parts = prod.inject [THEN iffD1, OF trans [OF assms(2) [symmetric] this]]
  have r: "r = ?r" by (rule parts [THEN conjunct1])
  have d': "d' = set_account (acc_id acc) (\<lambda>a. a\<lparr>acc_last_synced_at := Some now, acc_last_sync_result := Some (encode_result r)\<rparr>)
      (d\<lparr>db_groups := map (settle now (acc_id acc) ?ps) ?G @ ns\<rparr>)"
    unfolding r by (rule parts [THEN conjunct2])
  have groups: "db_groups d' = map (settle now (acc_id acc) ?ps) ?G @ ns" unfolding d' by simp
  have "distinct (map grp_id (map (settle now (acc_id acc) ?ps) ?G @ ns))"
    using seen(3) ns(1) by (simp add: comp_def)
  then have "groups_ok (db_groups d')" unfolding groups by (rule settle_groups_ok [OF assms(1) ns(3)])
  moreover have "rr_found r = card (fst ` set ?ps)" using seen(1,2) r by (metis distinct_card group_resync_result.select_convs(1))
  moreover have "rr_missing r = count_where (absent_from ?ps) (groups_of acc ?G)"
    unfolding r count_where_def absent_from_def [abs_def] by (simp add: seen(2))
  ultimately show ?thesis using groups ns seen(4) d' by (intro exI [of _ ns]) (simp add: r)
qed

section \<open>Properties\<close>

text \<open>The ids of the account's groups that are present, that is, not marked as missing.\<close>

definition present_ids :: "account \<Rightarrow> group list \<Rightarrow> string set" where
  "present_ids acc gs = grp_external_id ` {g \<in> set gs. grp_account_id g = acc_id acc \<and> grp_missing_since g = None}"

lemma settle_present:
  "grp_missing_since (settle now A ps g) = None \<longleftrightarrow>
     (if grp_account_id g = A then grp_external_id g \<in> fst ` set ps else grp_missing_since g = None)"
  using map_of_eq_None_iff [of ps "grp_external_id g"] by (auto simp: settle_def split: option.splits)

lemma present_known: "present_ids acc gs \<subseteq> grp_external_id ` set (groups_of acc gs)"
  by (auto simp: present_ids_def groups_of_def)

lemma present_after:
  assumes "fresh_rows acc (groups_of acc G) ps ns"
  shows "present_ids acc (map (settle now (acc_id acc) ps) G @ ns) = fst ` set ps"
proof
  show "present_ids acc (map (settle now (acc_id acc) ps) G @ ns) \<subseteq> fst ` set ps"
    using assms by (auto simp: present_ids_def fresh_rows_def settle_present split: if_splits)
  show "fst ` set ps \<subseteq> present_ids acc (map (settle now (acc_id acc) ps) G @ ns)"
  proof
    fix e assume e: "e \<in> fst ` set ps"
    show "e \<in> present_ids acc (map (settle now (acc_id acc) ps) G @ ns)"
    proof (cases "e \<in> grp_external_id ` set (groups_of acc G)")
      case True
      then obtain g where "g \<in> set G" "grp_account_id g = acc_id acc" "grp_external_id g = e"
        by (auto simp: groups_of_def)
      with e have "settle now (acc_id acc) ps g \<in> {g \<in> set (map (settle now (acc_id acc) ps) G @ ns).
          grp_account_id g = acc_id acc \<and> grp_missing_since g = None}" by (simp add: settle_present)
      from imageI [OF this, of grp_external_id] \<open>grp_external_id g = e\<close> show ?thesis by (simp add: present_ids_def)
    next
      case False
      with e have "e \<in> grp_external_id ` set ns" using assms by (simp add: fresh_rows_def)
      then obtain n where n: "n \<in> set ns" "e = grp_external_id n" by blast
      then have "n \<in> {g \<in> set (map (settle now (acc_id acc) ps) G @ ns).
          grp_account_id g = acc_id acc \<and> grp_missing_since g = None}" using assms by (simp add: fresh_rows_def)
      from imageI [OF this, of grp_external_id] n(2) show ?thesis by (simp add: present_ids_def)
    qed
  qed
qed

text \<open>
  C12: a synchronisation that is accepted makes the present groups of the account exactly the ids of
  the answer, each once and whatever junk and duplicates it holds; it deletes no row, keeps the
  switch the user set, keeps the moment of the first loss, leaves the groups of other accounts
  alone, keeps the unique index, and its counters say what it did.
\<close>

theorem resync_mirrors_response:
  assumes "groups_ok (db_groups d)" "apply_group_resync now wipe mt acc (PList items) d = (r, d')" "rr_error r = None"
  shows "present_ids acc (db_groups d') = fst ` set (usable items) \<and> groups_ok (db_groups d') \<and>
    (\<exists>ns. db_groups d' = map (settle now (acc_id acc) (usable items)) (db_groups d) @ ns \<and> length ns = rr_created r \<and>
      (\<forall>n \<in> set ns. grp_account_id n = acc_id acc \<and> grp_user_id n = acc_user_id acc \<and> grp_is_active n)) \<and>
    rr_found r = card (fst ` set (usable items)) \<and>
    rr_missing r = count_where (absent_from (usable items)) (groups_of acc (db_groups d)) \<and>
    rr_renamed r = count_where (to_rename (usable items)) (groups_of acc (db_groups d))"
proof -
  obtain ns where ns: "db_groups d' = map (settle now (acc_id acc) (usable items)) (db_groups d) @ ns"
    "fresh_rows acc (groups_of acc (db_groups d)) (usable items) ns" "groups_ok (db_groups d')" "rr_created r = length ns"
    "rr_found r = card (fst ` set (usable items))"
    "rr_renamed r = count_where (to_rename (usable items)) (groups_of acc (db_groups d))"
    "rr_missing r = count_where (absent_from (usable items)) (groups_of acc (db_groups d))"
    using resync_spec [OF assms] by blast
  with present_after [OF ns(2)] show ?thesis
    by (auto simp: fresh_rows_def intro!: exI [of _ ns])
qed

definition sample_answer :: "pyval list" where
  "sample_answer = [PDict [(''id'', PInt 7), (''name'', PStr ''bazaar'')], PInt 3, PDict [(''id'', PNone)],
     PDict [(''id'', PStr ''7''), (''name'', PStr ''again'')], PDict [(''id'', PStr ''-100''), (''name'', PStr '''')]]"

definition groups_db :: db where
  "groups_db = sample_db\<lparr>db_accounts := [sample_account\<lparr>acc_status := ''syncing''\<rparr>],
     db_groups := [sample_group, sample_group\<lparr>grp_id := 2, grp_external_id := ''-200''\<rparr>]\<rparr>"

lemma groups_db_facts:
  "groups_ok (db_groups groups_db)" "usable sample_answer = [(''7'', ''bazaar''), (''7'', ''again''), (''-100'', ''-100'')]"
  "rr_error (fst (apply_group_resync 9 False ''tg_user'' sample_account (PList sample_answer) groups_db)) = None"
  by code_simp+

theorem resync_mirrors_response_witness:
  "present_ids sample_account (db_groups (snd (apply_group_resync 9 False ''tg_user'' sample_account (PList sample_answer) groups_db)))
     = {''7'', ''-100''} \<and>
   rr_created (fst (apply_group_resync 9 False ''tg_user'' sample_account (PList sample_answer) groups_db)) = 1"
proof
  show "present_ids sample_account (db_groups (snd (apply_group_resync 9 False ''tg_user'' sample_account (PList sample_answer) groups_db)))
     = {''7'', ''-100''}"
    using resync_mirrors_response [OF groups_db_facts(1) prod.collapse [symmetric] groups_db_facts(3), THEN conjunct1]
    by (simp add: groups_db_facts(2))
  show "rr_created (fst (apply_group_resync 9 False ''tg_user'' sample_account (PList sample_answer) groups_db)) = 1"
    by code_simp
qed

lemma settled_not_renamed: "grp_account_id g = A \<Longrightarrow> \<not> to_rename ps (settle now A ps g)"
  by (simp add: to_rename_def settle_def split: option.splits)

lemma fresh_row_idle:
  assumes "n \<in> set ns" "fresh_rows acc existing ps ns"
  shows "settle now (acc_id acc) ps n = n" "\<not> to_rename ps n"
proof -
  have n: "grp_account_id n = acc_id acc" "grp_missing_since n = None" "map_of ps (grp_external_id n) = Some (grp_name n)"
    using assms by (simp_all add: fresh_rows_def)
  then have "returned (grp_name n) n = n" by (cases n) (simp add: returned_def)
  with n show "settle now (acc_id acc) ps n = n" "\<not> to_rename ps n"
    by (simp_all add: settle_def to_rename_def)
qed

lemma settled_rows_idle:
  assumes "g \<in> set (map (settle now (acc_id acc) ps) G @ ns)" "fresh_rows acc existing ps ns"
  shows "settle now' (acc_id acc) ps g = g" "grp_account_id g = acc_id acc \<Longrightarrow> \<not> to_rename ps g"
proof -
  consider g0 where "g = settle now (acc_id acc) ps g0" | "g \<in> set ns" using assms(1) by auto
  then have "settle now' (acc_id acc) ps g = g \<and> (grp_account_id g = acc_id acc \<longrightarrow> \<not> to_rename ps g)"
  proof cases
    case 1
    then show ?thesis using settled_not_renamed [of g0 "acc_id acc" ps now] by simp
  next
    case 2
    then show ?thesis using fresh_row_idle [OF _ assms(2)] by simp
  qed
  then show "settle now' (acc_id acc) ps g = g" "grp_account_id g = acc_id acc \<Longrightarrow> \<not> to_rename ps g" by simp_all
qed

text \<open>
  applying the same answer a second time, at any later moment, creates nothing, renames nothing
  and leaves every row of the groups as it is.
\<close>

theorem resync_idempotent:
  assumes "groups_ok (db_groups d)" "apply_group_resync now wipe mt acc (PList items) d = (r, d1)" "rr_error r = None"
    and "apply_group_resync now' wipe mt acc (PList items) d1 = (r', d2)" "rr_error r' = None"
  shows "db_groups d2 = db_groups d1 \<and> rr_created r' = 0 \<and> rr_renamed r' = 0 \<and> rr_found r' = rr_found r"
proof -
  let ?ps = "usable items"
  obtain ns where ns: "db_groups d1 = map (settle now (acc_id acc) ?ps) (db_groups d) @ ns"
    "fresh_rows acc (groups_of acc (db_groups d)) ?ps ns" "groups_ok (db_groups d1)" "rr_found r = card (fst ` set ?ps)"
    using resync_spec [OF assms(1-3)] by blast
  obtain ns' where ns': "db_groups d2 = map (settle now' (acc_id acc) ?ps) (db_groups d1) @ ns'"
    "fresh_rows acc (groups_of acc (db_groups d1)) ?ps ns'" "rr_created r' = length ns'" "rr_found r' = card (fst ` set ?ps)"
    "rr_renamed r' = count_where (to_rename ?ps) (groups_of acc (db_groups d1))"
    using resync_spec [OF ns(3) assms(4,5)] by blast
  have "fst ` set ?ps \<subseteq> grp_external_id ` set (groups_of acc (db_groups d1))"
    using present_known [of acc "db_groups d1"] present_after [OF ns(2), of now] by (simp add: ns(1))
  with ns'(2) have "grp_external_id ` set ns' = {}" by (simp add: fresh_rows_def Diff_eq_empty_iff)
  then have "ns' = []" by simp
  moreover have "map (settle now' (acc_id acc) ?ps) (db_groups d1) = db_groups d1"
    by (rule map_idI) (simp only: ns(1) settled_rows_idle(1) [OF _ ns(2)])
  moreover have "count_where (to_rename ?ps) (groups_of acc (db_groups d1)) = 0"
    unfolding count_where_0 groups_of_def using settled_rows_idle(2) [OF _ ns(2)] by (simp only: ns(1) set_filter) blast
  ultimately show ?thesis using ns' ns(4) by simp
qed

theorem resync_idempotent_witness:
  "db_groups (snd (apply_group_resync 12 False ''tg_user'' sample_account (PList sample_answer)
      (snd (apply_group_resync 9 False ''tg_user'' sample_account (PList sample_answer) groups_db)))) =
   db_groups (snd (apply_group_resync 9 False ''tg_user'' sample_account (PList sample_answer) groups_db))"
proof -
  have "rr_error (fst (apply_group_resync 12 False ''tg_user'' sample_account (PList sample_answer)
      (snd (apply_group_resync 9 False ''tg_user'' sample_account (PList sample_answer) groups_db)))) = None"
    by code_simp
  from resync_idempotent [OF groups_db_facts(1) prod.collapse [symmetric] groups_db_facts(3) prod.collapse [symmetric] this]
  show ?thesis by (rule conjunct1)
qed

text \<open>
  an answer that is not a list, and one without a single usable id for an account that has
  groups, change no group and not the moment of the last synchronisation: only the stored result of
  the account is written, and it names the reason.
\<close>

theorem rejected_response_keeps_groups:
  assumes "apply_group_resync now wipe mt acc fetched d = (r, d')"
    and "case fetched of PList items \<Rightarrow> usable items = [] \<and> groups_of acc (db_groups d) \<noteq> [] \<and> \<not> wipe | _ \<Rightarrow> True"
  shows "\<exists>e. rr_error r = Some e \<and> rr_found r = 0 \<and> db_groups d' = db_groups d \<and>
    map acc_last_synced_at (db_accounts d') = map acc_last_synced_at (db_accounts d) \<and>
    map acc_status (db_accounts d') = map acc_status (db_accounts d) \<and>
    d' = set_account (acc_id acc) (\<lambda>a. a\<lparr>acc_last_sync_result := Some (encode_result r)\<rparr>) d"
proof -
  obtain e where "r = failed_result e \<and> d' = record_sync_failure acc e d"
    using assms by (cases fetched) (auto simp: apply_group_resync_def fold_resync_item Let_def split: if_splits)
  then show ?thesis
    by (intro exI [of _ e]) (auto simp: failed_result_def record_sync_failure_def update_where_def)
qed

theorem rejected_response_keeps_groups_witness:
  "db_groups (snd (apply_group_resync 9 False ''wa'' sample_account (PDict [(''error'', PStr ''boom'')]) groups_db))
    = db_groups groups_db"
  using rejected_response_keeps_groups [of 9 False "''wa''" sample_account "PDict [(''error'', PStr ''boom'')]" groups_db,
      OF prod.collapse [symmetric]] by auto

text \<open>
  the guard against a degenerate answer looks at the usable ids only: an answer that holds new
  ids but not a single group known before is accepted, and every known group of the account is then
  marked as missing.
\<close>

theorem unknown_response_marks_all:
  assumes "groups_ok (db_groups d)" "usable items \<noteq> []"
    and "fst ` set (usable items) \<inter> grp_external_id ` set (groups_of acc (db_groups d)) = {}"
    and "apply_group_resync now False mt acc (PList items) d = (r, d')"
  shows "rr_error r = None \<and> rr_missing r = length (groups_of acc (db_groups d)) \<and>
    (\<forall>g \<in> set (groups_of acc (db_groups d)). mark_missing now g \<in> set (db_groups d'))"
proof -
  let ?G = "db_groups d" and ?ps = "usable items"
  have "loop_inv acc ?G ?ps (fold (resync_pair now acc mt (groups_of acc ?G)) ?ps
      \<lparr>rz_groups = ?G, rz_seen = [], rz_created = 0, rz_renamed = 0\<rparr>)" by (rule loop_inv_fold [OF assms(1)])
  then have "rz_seen (fold (resync_pair now acc mt (groups_of acc ?G)) ?ps
      \<lparr>rz_groups = ?G, rz_seen = [], rz_created = 0, rz_renamed = 0\<rparr>) \<noteq> []"
    using assms(2) by (auto simp: loop_inv_def)
  then have err: "rr_error r = None"
    using assms(4) by (auto simp: apply_group_resync_def fold_resync_item Let_def split: if_splits)
  obtain ns where ns: "db_groups d' = map (settle now (acc_id acc) ?ps) ?G @ ns"
    "rr_missing r = count_where (absent_from ?ps) (groups_of acc ?G)"
    using resync_spec [OF assms(1,4) err] by blast
  have absent: "grp_external_id g \<notin> fst ` set ?ps" if "g \<in> set (groups_of acc ?G)" for g using assms(3) that by auto
  then have "count_where (absent_from ?ps) (groups_of acc ?G) = length (groups_of acc ?G)"
    by (simp add: count_where_def absent_from_def [abs_def] filter_True)
  moreover have "mark_missing now g \<in> set (db_groups d')" if "g \<in> set (groups_of acc ?G)" for g
  proof -
    have "settle now (acc_id acc) ?ps g = mark_missing now g"
      using absent [OF that] that by (simp add: settle_def groups_of_def flip: map_of_eq_None_iff)
    with that show ?thesis by (force simp: ns(1) groups_of_def)
  qed
  ultimately show ?thesis using err ns(2) by simp
qed

theorem unknown_response_marks_all_witness:
  "rr_missing (fst (apply_group_resync 9 False ''tg_user'' sample_account (PList [PDict [(''id'', PInt 5)]]) groups_db)) = 2"
proof -
  have "usable [PDict [(''id'', PInt 5)]] \<noteq> []"
    "fst ` set (usable [PDict [(''id'', PInt 5)]]) \<inter> grp_external_id ` set (groups_of sample_account (db_groups groups_db)) = {}"
    "length (groups_of sample_account (db_groups groups_db)) = 2"
    by code_simp+
  with unknown_response_marks_all [OF groups_db_facts(1) _ _ prod.collapse [symmetric]] show ?thesis by metis
qed

section \<open>The task always settles the account\<close>

lemma find_row_set_account:
  "(\<And>a. acc_id (f a) = acc_id a) \<Longrightarrow> find_row acc_id i (update_where (\<lambda>a. acc_id a = i) f as) = map_option f (find_row acc_id i as)"
  by (induction as) auto

lemma fail_sync_settles:
  assumes "find_row acc_id i (db_accounts d) = Some acc" "acc_status acc = ''syncing''"
  shows "find_row acc_id i (db_accounts (fail_sync i msg d)) =
    Some (acc\<lparr>acc_last_sync_result := Some (encode_result (failed_result msg)), acc_status := ''sync_failed''\<rparr>)"
  using assms find_row_Some [OF assms(1)]
  by (simp add: fail_sync_def record_sync_failure_def find_row_set_account)

lemma fail_sync_idle: "acc_status acc \<noteq> ''syncing'' \<Longrightarrow> find_row acc_id i (db_accounts d) = Some acc \<Longrightarrow> fail_sync i msg d = d"
  by (simp add: fail_sync_def)

text \<open>
  C13: however the bridge behaves, the task ends after at most forty polls with the account settled:
  an account in synchronisation becomes active or failed, and is never left in synchronisation, the
  exception of the bridge being reported and its trace recorded; an account in any other state, or
  none, is left alone together with the whole database.
\<close>

theorem sync_always_settles:
  assumes "sync_groups get now mt i d = (err, d')"
  shows "case find_row acc_id i (db_accounts d) of
      None \<Rightarrow> d' = d
    | Some acc \<Rightarrow>
        if acc_status acc \<noteq> ''syncing'' then d' = d
        else \<exists>a. find_row acc_id i (db_accounts d') = Some a \<and> acc_last_sync_result a \<noteq> None \<and>
          acc_status a = (case poll get 0 40 of PollReady _ \<Rightarrow> ''active'' | _ \<Rightarrow> ''sync_failed'') \<and>
          (err = None) = (\<forall>e. poll get 0 40 \<noteq> PollRaised e)"
proof (cases "find_row acc_id i (db_accounts d)")
  case None
  with assms show ?thesis by (auto simp: sync_groups_def fail_sync_def split: poll_end.splits)
next
  case (Some acc)
  note row = Some
  show ?thesis
  proof (cases "acc_status acc = ''syncing''")
    case False
    with assms row show ?thesis by (auto simp: sync_groups_def fail_sync_idle [OF False row] split: poll_end.splits)
  next
    case syncing: True
    have polls: "poll get 0 MAX_POLLS = poll get 0 40" by (simp add: MAX_POLLS_def)
    show ?thesis
    proof (cases "poll get 0 40")
      case (PollReady groups)
      obtain r d1 where run: "apply_group_resync now False mt acc groups d = (r, d1)" by force
      have id: "acc_id acc = i" using find_row_Some [OF row] by simp
      have "\<exists>a. find_row acc_id i (db_accounts d1) = Some a \<and> acc_last_sync_result a \<noteq> None"
        using run row id
        by (cases groups)
          (auto simp: apply_group_resync_def record_sync_failure_def Let_def find_row_set_account split: if_splits)
      with assms row syncing PollReady polls run show ?thesis
        by (auto simp: sync_groups_def find_row_set_account)
    qed (use assms row syncing polls in \<open>auto simp: sync_groups_def fail_sync_settles [OF row syncing]\<close>)
  qed
qed

theorem sync_always_settles_witness:
  "\<exists>err d'. sync_groups (\<lambda>n. if n < 3 then Inr \<lparr>sd_state = Some ''loading'', sd_groups = PNone\<rparr> else Inl KeyError) 9 ''wa'' 1 groups_db = (err, d') \<and>
     err \<noteq> None \<and> (\<exists>a. find_row acc_id 1 (db_accounts d') = Some a \<and> acc_status a = ''sync_failed'')"
proof -
  let ?get = "\<lambda>n. if n < 3 then Inr \<lparr>sd_state = Some ''loading'', sd_groups = PNone\<rparr> else (Inl KeyError :: exn + sync_data)"
  obtain err d' where run: "sync_groups ?get 9 ''wa'' 1 groups_db = (err, d')" by force
  have p: "poll ?get 0 40 = PollRaised KeyError" by (simp add: numeral_eq_Suc)
  have row: "find_row acc_id 1 (db_accounts groups_db) = Some (sample_account\<lparr>acc_status := ''syncing''\<rparr>)" by code_simp
  from sync_always_settles [OF run] run show ?thesis by (simp add: p row) blast
qed

section \<open>Deleting an account\<close>

lemma detached_simps [simp]:
  "sch_id (detached s) = sch_id s" "sch_account_id (detached s) = None" "\<not> sch_is_active (detached s)"
  "sch_next_run_at (detached s) = None" "ck_active_requires_next_run (detached s)"
  by (simp_all add: detached_def ck_active_requires_next_run_def)

lemma owned_account_Some:
  "owned_account uid i d = Some acc \<Longrightarrow> acc \<in> set (db_accounts d) \<and> acc_id acc = i \<and> acc_user_id acc = uid"
  by (auto simp: owned_account_def simp: find_Some_iff)

text \<open>
  C14: deleting an account is refused, and changes nothing, unless it belongs to the user; otherwise
  no row refers to it any more: its groups are gone, its schedules are paused without a next run and
  without an account, all other accounts, groups and schedules stay as they are, and the constraints
  of the schema hold.
\<close>

theorem delete_account_leaves_no_reference:
  assumes "schedules_ok (db_schedules d)" "groups_ok (db_groups d)"
  shows "case delete_account uid i d of (done, d') \<Rightarrow>
    schedules_ok (db_schedules d') \<and> groups_ok (db_groups d') \<and>
    (if done
     then (\<exists>a \<in> set (db_accounts d). acc_id a = i \<and> acc_user_id a = uid) \<and>
       db_accounts d' = filter (\<lambda>a. acc_id a \<noteq> i) (db_accounts d) \<and>
       db_groups d' = filter (\<lambda>g. grp_account_id g \<noteq> i) (db_groups d) \<and>
       Some i \<notin> sch_account_id ` set (db_schedules d') \<and>
       db_schedules d' = map (\<lambda>s. if sch_account_id s = Some i then detached s else s) (db_schedules d)
     else d' = d \<and> (\<nexists>a. a \<in> set (db_accounts d) \<and> acc_id a = i \<and> acc_user_id a = uid))"
proof (cases "owned_account uid i d")
  case None
  then have "\<nexists>a. a \<in> set (db_accounts d) \<and> acc_id a = i \<and> acc_user_id a = uid"
    by (auto simp: owned_account_def find_None_iff)
  with None assms show ?thesis by (simp add: delete_account_def)
next
  case (Some acc)
  note owned = owned_account_Some [OF Some]
  have "schedules_ok (update_where (\<lambda>s. sch_account_id s = Some i) detached (db_schedules d))"
    using assms(1) by (auto simp: schedules_ok_def map_update_where set_update_where)
  moreover have "groups_ok (filter (\<lambda>g. grp_account_id g \<noteq> i) (db_groups d))"
    using assms(2) by (auto simp: groups_ok_def uq_groups_account_external_def unique_where_def distinct_map_filter)
  moreover have "Some i \<notin> sch_account_id ` set (update_where (\<lambda>s. sch_account_id s = Some i) detached (db_schedules d))"
    by (auto simp: set_update_where)
  ultimately show ?thesis
    using Some owned by (auto simp: delete_account_def detach_schedules_from_account_def Let_def update_where_def)
qed

definition account_db :: db where
  "account_db = groups_db\<lparr>db_schedules := [\<lparr>sch_id = 1, sch_ad_id = 1, sch_account_id = Some 1, sch_group_ids = PList [PInt 1],
     sch_days_of_week = PList [PInt 1], sch_times_of_day = PList [PStr ''09:00''], sch_timezone = ''UTC'',
     sch_is_active = True, sch_next_run_at = Some 5, sch_created_at = 0\<rparr>]\<rparr>"

theorem delete_account_leaves_no_reference_witness:
  "case delete_account 1 1 account_db of (done, d') \<Rightarrow> done \<and> schedules_ok (db_schedules d') \<and> Some 1 \<notin> sch_account_id ` set (db_schedules d')"
proof -
  have ok: "schedules_ok (db_schedules account_db)" "groups_ok (db_groups account_db)" by code_simp+
  have "fst (delete_account 1 1 account_db)" by code_simp
  with delete_account_leaves_no_reference [OF ok, of 1 1] show ?thesis by (auto split: prod.splits)
qed

end
