(* ===== verification/Urls.thy ===== *)
theory Urls
  imports Python_Values
begin

text \<open>
  \<open>urllib.parse.urlsplit\<close> of the language's library as far as the code reads it: the scheme, the
  network location, the host name and the port. Two checks of the library that the model does not
  spell out are arguments: is the text between brackets an address (\<open>ip_ok\<close>), and is a
  network location outside ASCII acceptable after normalisation (\<open>netloc_ok\<close>).
\<close>

record url_lib =
  ip_ok :: "string \<Rightarrow> bool"
  netloc_ok :: "string \<Rightarrow> bool"

definition code_point :: "char \<Rightarrow> nat" where
  "code_point c = of_char c"

definition is_ascii :: "string \<Rightarrow> bool" where
  "is_ascii s \<longleftrightarrow> list_all (\<lambda>c. code_point c < 128) s"

definition is_control :: "char \<Rightarrow> bool" where
  "is_control c \<longleftrightarrow> code_point c < 32 \<or> code_point c = 127"

text \<open>\<open>str.lower\<close> on code points up to 255.\<close>

definition lower_char :: "char \<Rightarrow> char" where
  "lower_char c =
     (let n = code_point c in
      if 65 \<le> n \<and> n \<le> 90 \<or> 192 \<le> n \<and> n \<le> 222 \<and> n \<noteq> 215 then char_of (n + 32) else c)"

definition lower :: "string \<Rightarrow> string" where
  "lower s = map lower_char s"

definition before :: "char \<Rightarrow> string \<Rightarrow> string" where
  "before c s = takeWhile (\<lambda>x. x \<noteq> c) s"

definition after :: "char \<Rightarrow> string \<Rightarrow> string" where
  "after c s = tl (dropWhile (\<lambda>x. x \<noteq> c) s)"

definition after_last :: "char \<Rightarrow> string \<Rightarrow> string" where
  "after_last c s = rev (takeWhile (\<lambda>x. x \<noteq> c) (rev s))"

record split_result =
  sr_scheme :: string
  sr_netloc :: string
  sr_rest :: string

definition is_ascii_letter :: "char \<Rightarrow> bool" where
  "is_ascii_letter c \<longleftrightarrow> 65 \<le> code_point c \<and> code_point c \<le> 90 \<or> 97 \<le> code_point c \<and> code_point c \<le> 122"

definition is_scheme_char :: "char \<Rightarrow> bool" where
  "is_scheme_char c \<longleftrightarrow> is_ascii_letter c \<or> is_digit c \<or> c \<in> {CHR ''+'', CHR ''-'', CHR ''.''}"

definition url_clean :: "string \<Rightarrow> string" where
  "url_clean url = filter (\<lambda>c. code_point c \<notin> {9, 10, 13}) (dropWhile (\<lambda>c. code_point c \<le> 32) url)"

definition split_scheme :: "string \<Rightarrow> string \<times> string" where
  "split_scheme url =
     (let sch = before (CHR '':'') url in
      if CHR '':'' \<in> set url \<and> sch \<noteq> [] \<and> is_ascii_letter (hd url) \<and> list_all is_scheme_char sch
      then (lower sch, after (CHR '':'') url) else ('''', url))"

definition is_delim :: "char \<Rightarrow> bool" where
  "is_delim c \<longleftrightarrow> c = CHR ''/'' \<or> c = CHR ''?'' \<or> c = CHR ''#''"

definition split_netloc :: "string \<Rightarrow> string \<times> string" where
  "split_netloc url =
     (if take 2 url = ''//''
      then (takeWhile (\<lambda>c. \<not> is_delim c) (drop 2 url), dropWhile (\<lambda>c. \<not> is_delim c) (drop 2 url))
      else ('''', url))"

definition brackets_ok :: "url_lib \<Rightarrow> string \<Rightarrow> bool" where
  "brackets_ok lib netloc \<longleftrightarrow>
     (CHR ''['' \<in> set netloc \<longleftrightarrow> CHR '']'' \<in> set netloc) \<and>
     (CHR ''['' \<in> set netloc \<longrightarrow> ip_ok lib (before (CHR '']'') (after (CHR ''['') netloc)))"

definition urlsplit :: "url_lib \<Rightarrow> string \<Rightarrow> exn + split_result" where
  "urlsplit lib url =
     (let (sch, rest) = split_scheme (url_clean url);
          (netloc, path) = split_netloc rest
      in if brackets_ok lib netloc \<and> (is_ascii netloc \<or> netloc_ok lib netloc)
         then Inr \<lparr>sr_scheme = sch, sr_netloc = netloc, sr_rest = path\<rparr>
         else Inl ValueError)"

text \<open>\<open>_hostinfo\<close>: the host and the text of the port.\<close>

definition hostinfo :: "string \<Rightarrow> string \<times> string option" where
  "hostinfo netloc =
     (let info = after_last (CHR ''@'') netloc;
          (host, port) =
            (if CHR ''['' \<in> set info
             then (let b = after (CHR ''['') info in (before (CHR '']'') b, after (CHR '':'') (after (CHR '']'') b)))
             else (before (CHR '':'') info, after (CHR '':'') info))
      in (host, if port = [] then None else Some port))"

text \<open>\<open>hostname\<close>: lower case up to a zone, \<open>None\<close> when empty.\<close>

definition hostname :: "split_result \<Rightarrow> string option" where
  "hostname r =
     (let host = fst (hostinfo (sr_netloc r)) in
      if host = [] then None
      else Some (lower (before (CHR ''%'') host) @ dropWhile (\<lambda>c. c \<noteq> CHR ''%'') host))"

definition url_port :: "split_result \<Rightarrow> exn + int option" where
  "url_port r =
     (case snd (hostinfo (sr_netloc r)) of
        None \<Rightarrow> Inr None
      | Some p \<Rightarrow>
          if list_all is_digit p
          then (case py_int p of
                  Some n \<Rightarrow> if n \<le> 65535 then Inr (Some n) else Inl ValueError
                | None \<Rightarrow> Inl ValueError)
          else Inl ValueError)"

section \<open>Pieces of a string\<close>

lemma before_after: "c \<in> set s \<Longrightarrow> s = before c s @ c # after c s"
  by (induction s) (auto simp: before_def after_def)

lemma before_none: "c \<notin> set s \<Longrightarrow> before c s = s"
  by (auto simp: before_def takeWhile_eq_all_conv)

lemma after_none: "c \<notin> set s \<Longrightarrow> after c s = []"
  by (induction s) (auto simp: after_def)

lemma after_Nil_cases: "after c s = [] \<Longrightarrow> s = before c s \<or> s = before c s @ [c]"
  by (metis before_after before_none)

lemma after_last_none: "c \<notin> set s \<Longrightarrow> after_last c s = s"
proof -
  assume "c \<notin> set s"
  then have "before c (rev s) = rev s" by (intro before_none) simp
  then have "takeWhile (\<lambda>x. x \<noteq> c) (rev s) = rev s" by (simp only: before_def)
  then show ?thesis by (simp only: after_last_def rev_rev_ident)
qed

lemma before_subset: "set (before c s) \<subseteq> set s"
  by (auto simp: before_def dest: set_takeWhileD)

lemma lower_char_id: "code_point (lower_char c) = code_point c \<or> code_point (lower_char c) = code_point c + 32"
  by (auto simp: lower_char_def code_point_def Let_def of_char_of)

end
