(* ===== verification/Web_Reply.thy ===== *)
theory Web_Reply
  imports Urls
begin

text \<open>
  How a page handler answers: \<open>app/pages/htmx.py\<close>, the registry of notices
  \<open>app/pages/notices.py\<close> and the origin check of \<open>app/pages/common.py\<close>. A reply is what the
  handler hands to the framework: a redirect, a response with one navigation header, or a response
  with a body. The rendering of the notice block is an argument.
\<close>

section \<open>Notices\<close>

definition NOTICES :: "string list" where
  "NOTICES =
    [''retry_queued'', ''retry_gone'', ''retry_access_closed'', ''retry_busy'', ''payment_failed'',
     ''payment_disabled'', ''payment_pending'', ''worker_no_container'', ''worker_restart_failed'',
     ''queue_drop_removed'', ''queue_drop_missing'', ''queue_drop_unavailable'', ''queue_drop_no_queue'',
     ''schedule_account_gone'', ''schedule_ad_missing'', ''schedule_values_out_of_domain'',
     ''password_reset_done'', ''profile_saved'', ''impersonation_forbidden'']"

definition notice_for :: "string option \<Rightarrow> string option" where
  "notice_for code =
     (case code of None \<Rightarrow> None | Some c \<Rightarrow> if c = [] then None else List.find (\<lambda>n. n = c) NOTICES)"

section \<open>Requests and replies\<close>

record http_request =
  rq_headers :: "string \<rightharpoonup> string"
  rq_host :: "string option"
  rq_endpoint_module :: "string option option"
  rq_bearer :: "string option"
  rq_session_cookie :: "string option"

text \<open>A header that is missing and an empty one are both false.\<close>

definition header :: "http_request \<Rightarrow> string \<Rightarrow> string option" where
  "header rq k = (case rq_headers rq k of None \<Rightarrow> None | Some v \<Rightarrow> if v = [] then None else Some v)"

definition is_htmx :: "http_request \<Rightarrow> bool" where
  "is_htmx rq \<longleftrightarrow> header rq ''hx-request'' \<noteq> None"

record body_response =
  bd_status :: nat
  bd_content_type :: string
  bd_body :: "string option"
  bd_content_length :: "nat option"

datatype reply =
    RedirectResponse string
  | HxLocation string
  | HxRedirect string
  | BodyResponse body_response
  | EmptyStatus nat
  | DefaultValidationReply

section \<open>Local addresses\<close>

definition local_path :: "string \<Rightarrow> exn + string" where
  "local_path value =
     (if \<not> starts_with value ''/'' \<or> starts_with value ''//'' then Inl ValueError
      else if CHR 0x5C \<in> set value then Inl ValueError
      else if list_ex is_control value then Inl ValueError
      else if \<not> is_ascii value then Inl ValueError
      else Inr value)"

definition location_response :: "string \<Rightarrow> exn + reply" where
  "location_response location = bind_res (local_path location) (\<lambda>l. Inr (HxLocation l))"

definition NOTICE_QUERY_KEY :: string where "NOTICE_QUERY_KEY = ''notice''"

definition with_notice :: "string \<Rightarrow> string option \<Rightarrow> exn + string" where
  "with_notice redirect notice =
     (case notice of
        None \<Rightarrow> local_path redirect
      | Some n \<Rightarrow>
          let before_anchor = before (CHR ''#'') redirect;
              anchor = dropWhile (\<lambda>c. c \<noteq> CHR ''#'') redirect;
              separator = (if CHR ''?'' \<in> set before_anchor then ''&'' else ''?'')
          in local_path (before_anchor @ separator @ NOTICE_QUERY_KEY @ ''='' @ n @ anchor))"

definition require_registered_notice :: "string option \<Rightarrow> exn + unit" where
  "require_registered_notice notice =
     (case notice of None \<Rightarrow> Inr () | Some n \<Rightarrow> if notice_for (Some n) = None then Inl ValueError else Inr ())"

section \<open>The exits of a handler\<close>

definition without_body :: "nat \<Rightarrow> bool" where
  "without_body status \<longleftrightarrow> status = 204 \<or> status = 304 \<or> 100 \<le> status \<and> status < 200"

text \<open>\<open>_HTML_MEDIA_TYPE not in content_type.lower()\<close>.\<close>

fun contains :: "string \<Rightarrow> string \<Rightarrow> bool" where
  "contains p [] = (p = [])"
| "contains p (c # s) = (starts_with (c # s) p \<or> contains p s)"

definition glue_notice :: "(string \<Rightarrow> string) \<Rightarrow> body_response \<Rightarrow> string \<Rightarrow> exn + reply" where
  "glue_notice notice_oob r notice =
     (if without_body (bd_status r) then Inl ValueError
      else if \<not> contains ''text/html'' (lower (bd_content_type r)) then Inl ValueError
      else case bd_body r of
             None \<Rightarrow> Inl ValueError
           | Some b \<Rightarrow>
               (case notice_for (Some notice) of
                  None \<Rightarrow> Inl ValueError
                | Some n \<Rightarrow>
                    let body = b @ notice_oob n
                    in Inr (BodyResponse (r\<lparr>bd_body := Some body, bd_content_length := Some (length body)\<rparr>))))"

definition respond ::
  "(string \<Rightarrow> string) \<Rightarrow> http_request \<Rightarrow> string \<Rightarrow> string option \<Rightarrow> (exn + body_response) option \<Rightarrow> exn + reply" where
  "respond notice_oob rq redirect notice fragment =
     bind_res (require_registered_notice notice) (\<lambda>_.
       if \<not> is_htmx rq then bind_res (with_notice redirect notice) (\<lambda>l. Inr (RedirectResponse l))
       else
         case fragment of
           None \<Rightarrow> bind_res (with_notice redirect notice) location_response
         | Some build \<Rightarrow>
             bind_res (with_notice redirect notice) (\<lambda>_.
               bind_res build (\<lambda>r.
                 case notice of None \<Rightarrow> Inr (BodyResponse r) | Some n \<Rightarrow> glue_notice notice_oob r n)))"

definition redirect_internal :: "http_request \<Rightarrow> string \<Rightarrow> string option \<Rightarrow> exn + reply" where
  "redirect_internal rq redirect notice =
     bind_res (require_registered_notice notice) (\<lambda>_.
       bind_res (with_notice redirect notice) (\<lambda>location.
         Inr (if \<not> is_htmx rq then RedirectResponse location else HxRedirect location)))"

definition YOOKASSA_CONFIRMATION_HOSTS :: "string set" where
  "YOOKASSA_CONFIRMATION_HOSTS = {''yoomoney.ru''}"

definition confirmation_url :: "url_lib \<Rightarrow> string \<Rightarrow> exn + string" where
  "confirmation_url lib value =
     (if list_ex is_control value then Inl ValueError
      else if \<not> is_ascii value then Inl ValueError
      else if CHR 0x5C \<in> set value then Inl ValueError
      else
        bind_res (urlsplit lib value) (\<lambda>parts.
          if sr_scheme parts \<noteq> ''https'' then Inl ValueError
          else if CHR ''@'' \<in> set (sr_netloc parts) then Inl ValueError
          else
            bind_res (url_port parts) (\<lambda>port.
              if port \<noteq> None then Inl ValueError
              else case hostname parts of
                     Some h \<Rightarrow> if h \<in> YOOKASSA_CONFIRMATION_HOSTS then Inr value else Inl ValueError
                   | None \<Rightarrow> Inl ValueError)))"

definition redirect_external ::
  "url_lib \<Rightarrow> (string \<Rightarrow> string) \<Rightarrow> http_request \<Rightarrow> string \<Rightarrow> string \<Rightarrow> string \<Rightarrow> exn + reply" where
  "redirect_external lib notice_oob rq url fallback fallback_notice =
     (if \<not> is_htmx rq then Inr (RedirectResponse url)
      else case confirmation_url lib url of
             Inl ValueError \<Rightarrow> respond notice_oob rq fallback (Some fallback_notice) None
           | Inl e \<Rightarrow> Inl e
           | Inr checked \<Rightarrow> Inr (HxRedirect checked))"

definition respond_by_transport :: "http_request \<Rightarrow> exn + body_response \<Rightarrow> exn + body_response \<Rightarrow> nat \<Rightarrow> exn + reply" where
  "respond_by_transport rq page fragment status =
     bind_res (if is_htmx rq then fragment else page) (\<lambda>built.
       case bd_body built of
         None \<Rightarrow> Inl ValueError
       | Some b \<Rightarrow> Inr (BodyResponse \<lparr>bd_status = status, bd_content_type = ''text/html'', bd_body = Some b,
                     bd_content_length = Some (length b)\<rparr>))"

definition respond_field_error :: "http_request \<Rightarrow> exn + body_response \<Rightarrow> exn + body_response \<Rightarrow> exn + reply" where
  "respond_field_error rq page fragment = respond_by_transport rq page fragment 422"

definition respond_screen :: "http_request \<Rightarrow> exn + body_response \<Rightarrow> exn + body_response \<Rightarrow> exn + reply" where
  "respond_screen rq page fragment = respond_by_transport rq page fragment 200"

definition validated_by_the_page_layer :: "http_request \<Rightarrow> bool" where
  "validated_by_the_page_layer rq =
     (case rq_endpoint_module rq of
        None \<Rightarrow> False
      | Some m \<Rightarrow> let name = (case m of None \<Rightarrow> '''' | Some n \<Rightarrow> n) in name = ''app.pages'' \<or> starts_with name ''app.pages.'')"

definition malformed_request_response :: "http_request \<Rightarrow> reply" where
  "malformed_request_response rq =
     (if is_htmx rq \<and> validated_by_the_page_layer rq then EmptyStatus 400 else DefaultValidationReply)"

section \<open>The origin check\<close>

definition is_same_origin :: "url_lib \<Rightarrow> http_request \<Rightarrow> exn + bool" where
  "is_same_origin lib rq =
     (case header rq ''sec-fetch-site'' of
        Some site \<Rightarrow> Inr (site = ''same-origin'')
      | None \<Rightarrow>
          (case header rq ''origin'' of
             Some origin \<Rightarrow>
               bind_res (urlsplit lib origin) (\<lambda>parts.
                 Inr (hostname parts \<noteq> None \<and> hostname parts = rq_host rq))
           | None \<Rightarrow> Inr True))"

section \<open>What may stand in a navigation header\<close>

text \<open>One leading slash, printable ASCII, no backslash: a path of this site, on one line.\<close>

definition safe_location :: "string \<Rightarrow> bool" where
  "safe_location l \<longleftrightarrow>
     (\<exists>rest. l = CHR ''/'' # rest \<and> (rest = [] \<or> hd rest \<noteq> CHR ''/'')) \<and>
     (\<forall>c \<in> set l. 32 \<le> code_point c \<and> code_point c < 127 \<and> c \<noteq> CHR 0x5C)"

lemma printable: "\<not> list_ex is_control v \<Longrightarrow> is_ascii v \<Longrightarrow> c \<in> set v \<Longrightarrow> 32 \<le> code_point c \<and> code_point c < 127"
  by (force simp: list_ex_iff is_control_def is_ascii_def list_all_iff)

lemma local_path_Inr: "local_path v = Inr l \<Longrightarrow> l = v \<and> safe_location l"
proof -
  assume v: "local_path v = Inr l"
  then have l: "l = v" "starts_with v ''/''" "\<not> starts_with v ''//''" "CHR 0x5C \<notin> set v" "\<not> list_ex is_control v" "is_ascii v"
    by (auto simp: local_path_def split: if_splits)
  obtain rest where r: "v = CHR ''/'' # rest" using l(2) by (auto simp: starts_with_iff)
  have "rest = [] \<or> hd rest \<noteq> CHR ''/''" using l(3) r by (cases rest) (auto simp: starts_with_def)
  with l r printable [OF l(5,6)] show ?thesis by (auto simp: safe_location_def)
qed

lemma with_notice_Inr: "with_notice redirect notice = Inr l \<Longrightarrow> safe_location l"
  by (auto simp: with_notice_def Let_def dest: local_path_Inr split: option.splits)

lemma local_path_again: "local_path v = Inr l \<Longrightarrow> local_path l = Inr l"
  using local_path_Inr [of v l] by simp

lemma with_notice_local: "with_notice redirect notice = Inr l \<Longrightarrow> local_path l = Inr l"
  by (auto simp: with_notice_def Let_def dest: local_path_again split: option.splits)

lemma local_path_exn: "local_path v = Inl e \<Longrightarrow> e = ValueError"
  by (auto simp: local_path_def split: if_splits)

lemma with_notice_exn: "with_notice redirect notice = Inl e \<Longrightarrow> e = ValueError"
  by (auto simp: with_notice_def Let_def dest: local_path_exn split: option.splits)

lemma registered_iff:
  "require_registered_notice notice = Inr u \<longleftrightarrow> (case notice of None \<Rightarrow> True | Some n \<Rightarrow> n \<in> set NOTICES)"
proof (cases notice)
  case (Some n)
  have "notice_for (Some n) \<noteq> None \<longleftrightarrow> n \<in> set NOTICES"
    by (auto simp: notice_for_def find_None_iff NOTICES_def)
  with Some show ?thesis by (auto simp: require_registered_notice_def)
qed (simp add: require_registered_notice_def)

section \<open>Properties\<close>

text \<open>
  C15: a handler can only send the browser to a path of this site: whatever address and notice it is
  given, the reply of the two exits carries one navigation header with a safe local path, the same
  one on both transports, with a notice of the registry or none; a fragment is sent only where the
  handler built one.
\<close>

theorem replies_stay_local:
  assumes "respond oob rq redirect notice fragment = Inr rep \<or> redirect_internal rq redirect notice = Inr rep"
  shows "(case notice of None \<Rightarrow> True | Some n \<Rightarrow> n \<in> set NOTICES) \<and>
    (\<exists>l. with_notice redirect notice = Inr l \<and> safe_location l \<and>
      (if is_htmx rq then rep \<in> {HxLocation l, HxRedirect l} \<or> (fragment \<noteq> None \<and> (\<exists>b. rep = BodyResponse b))
       else rep = RedirectResponse l))"
proof -
  have body: "\<exists>b. rep' = BodyResponse b" if "glue_notice oob r n = Inr rep'" for r n rep'
    using that by (auto simp: glue_notice_def Let_def split: if_splits option.splits)
  have reg: "require_registered_notice notice = Inr ()"
    using assms by (cases "require_registered_notice notice") (auto simp: respond_def redirect_internal_def)
  then obtain l where l: "with_notice redirect notice = Inr l"
    using assms by (cases "with_notice redirect notice") (auto simp: respond_def redirect_internal_def split: if_splits option.splits)
  have "if is_htmx rq then rep \<in> {HxLocation l, HxRedirect l} \<or> (fragment \<noteq> None \<and> (\<exists>b. rep = BodyResponse b))
      else rep = RedirectResponse l"
    using assms with_notice_local [OF l] body
    by (auto simp: respond_def redirect_internal_def reg l result_simps location_response_def split: option.splits if_splits)
  with l reg with_notice_Inr [OF l] registered_iff [of notice "()"] show ?thesis by blast
qed

definition plain_request :: http_request where
  "plain_request = \<lparr>rq_headers = (\<lambda>_. None), rq_host = Some ''app.example'', rq_endpoint_module = None,
     rq_bearer = None, rq_session_cookie = None\<rparr>"

definition htmx_request :: http_request where
  "htmx_request = plain_request\<lparr>rq_headers := [''hx-request'' \<mapsto> ''true'']\<rparr>"

theorem replies_stay_local_witness:
  "respond (\<lambda>n. n) htmx_request ''/ads?page=2#top'' (Some ''retry_gone'') None = Inr (HxLocation ''/ads?page=2&notice=retry_gone#top'') \<and>
   safe_location ''/ads?page=2&notice=retry_gone#top''"
proof -
  have run: "respond (\<lambda>n. n) htmx_request ''/ads?page=2#top'' (Some ''retry_gone'') None =
      Inr (HxLocation ''/ads?page=2&notice=retry_gone#top'')" by code_simp
  have wn: "with_notice ''/ads?page=2#top'' (Some ''retry_gone'') = Inr ''/ads?page=2&notice=retry_gone#top''" by code_simp
  from replies_stay_local [OF disjI1, OF run] run wn show ?thesis by auto
qed

lemma hostname_host:
  assumes "hostname r = Some h" "CHR ''%'' \<notin> set h" "CHR ''@'' \<notin> set (sr_netloc r)" "snd (hostinfo (sr_netloc r)) = None"
    "\<And>x. lower x = h \<Longrightarrow> \<not> ip_ok lib x" "brackets_ok lib (sr_netloc r)"
  shows "\<exists>host colon. sr_netloc r = host @ colon \<and> lower host = h \<and> colon \<in> {'''', '':''}"
proof -
  let ?n = "sr_netloc r"
  define host where "host = fst (hostinfo ?n)"
  have "\<not> (CHR ''%'' \<in> set host)"
  proof
    assume "CHR ''%'' \<in> set host"
    then have "CHR ''%'' \<in> set (dropWhile (\<lambda>c. c \<noteq> CHR ''%'') host)" by (induction host) auto
    with assms(1,2) show False by (auto simp: hostname_def host_def Let_def split: if_splits)
  qed
  then have h: "lower host = h"
    using assms(1) by (auto simp: hostname_def host_def [symmetric] Let_def before_none dropWhile_eq_Nil_conv [THEN iffD2] split: if_splits)
  show ?thesis
  proof (cases "CHR ''['' \<in> set ?n")
    case True
    with assms(3) have "host = before (CHR '']'') (after (CHR ''['') ?n)"
      by (simp add: host_def hostinfo_def after_last_none Let_def split: prod.splits)
    with assms(6) True h assms(5) [of host] show ?thesis by (simp add: brackets_ok_def)
  next
    case False
    with assms(3,4) have "host = before (CHR '':'') ?n" "after (CHR '':'') ?n = []"
      by (auto simp: host_def hostinfo_def after_last_none Let_def split: prod.splits if_splits)
    with after_Nil_cases [of "CHR '':''" ?n] h show ?thesis by (metis append_Nil2 insertI1 insertI2 singletonI)
  qed
qed

lemma url_clean_printable:
  assumes "\<not> list_ex is_control v"
  shows "\<exists>sp. v = sp @ url_clean v \<and> set sp \<subseteq> {CHR '' ''}"
proof -
  have ok: "\<not> is_control c" if "c \<in> set v" for c using assms that by (auto simp: list_ex_iff)
  have sp: "c = CHR '' ''" if "c \<in> set v" "code_point c \<le> 32" for c
  proof -
    have "code_point c = 32" using ok [OF that(1)] that(2) by (auto simp: is_control_def)
    then have "(of_char c :: nat) = of_char (CHR '' '')" by (simp add: code_point_def)
    then show ?thesis by (simp only: of_char_eq_iff)
  qed
  have "filter (\<lambda>c. code_point c \<notin> {9, 10, 13}) w = w" if "set w \<subseteq> set v" for w
    using ok that by (force simp: filter_id_conv is_control_def)
  then have "url_clean v = dropWhile (\<lambda>c. code_point c \<le> 32) v"
    by (auto simp: url_clean_def dest: set_dropWhileD)
  moreover have "set (takeWhile (\<lambda>c. code_point c \<le> 32) v) \<subseteq> {CHR '' ''}"
    using sp by (auto dest: set_takeWhileD)
  ultimately show ?thesis by (metis takeWhile_dropWhile_id)
qed

text \<open>
  the full navigation of the write layer leaves the site only for the payment page of the
  provider: an accepted address reads, on any reading of its characters, as the scheme https, the
  host of the provider without user information and without a port, and then a path, a query or
  nothing; everything else falls back to a local address.
\<close>

theorem external_redirect_only_to_provider:
  assumes "redirect_external lib oob rq url fallback notice = Inr (HxRedirect u)" "is_htmx rq"
    and "\<And>h. lower h = ''yoomoney.ru'' \<Longrightarrow> \<not> ip_ok lib h"
  shows "u = url \<and> (\<exists>sp sch host colon rest. url = sp @ sch @ ''://'' @ host @ colon @ rest \<and> set sp \<subseteq> {CHR '' ''} \<and>
      lower sch = ''https'' \<and> lower host = ''yoomoney.ru'' \<and> colon \<in> {'''', '':''} \<and> (rest = [] \<or> is_delim (hd rest))) \<and>
    (\<forall>c \<in> set url. 32 \<le> code_point c \<and> code_point c < 127 \<and> c \<noteq> CHR 0x5C)"
proof -
  have no_hx: "respond oob rq fallback (Some notice) None \<noteq> Inr (HxRedirect u)"
    using assms(2) by (auto simp: respond_def result_simps location_response_def)
  have ok: "confirmation_url lib url = Inr u"
    using assms(1,2) no_hx by (auto simp: redirect_external_def split: sum.splits exn.splits)
  then have basic: "u = url" "\<not> list_ex is_control url" "is_ascii url" "CHR 0x5C \<notin> set url"
    by (auto simp: confirmation_url_def result_simps split: if_splits option.splits)
  obtain parts where parts: "urlsplit lib url = Inr parts" "sr_scheme parts = ''https''" "CHR ''@'' \<notin> set (sr_netloc parts)"
    "url_port parts = Inr None" "hostname parts = Some ''yoomoney.ru''"
    using ok basic by (auto simp: confirmation_url_def result_simps YOOKASSA_CONFIRMATION_HOSTS_def split: if_splits option.splits)
  obtain sp where sp: "url = sp @ url_clean url" "set sp \<subseteq> {CHR '' ''}" using url_clean_printable [OF basic(2)] by blast
  obtain sch rest where ss: "split_scheme (url_clean url) = (sch, rest)" by force
  obtain netloc path where sn: "split_netloc rest = (netloc, path)" by force
  have p: "parts = \<lparr>sr_scheme = sch, sr_netloc = netloc, sr_rest = path\<rparr>" "brackets_ok lib netloc"
    using parts(1) by (auto simp: urlsplit_def ss sn split: if_splits)
  have colon: "url_clean url = before (CHR '':'') (url_clean url) @ CHR '':'' # rest" "lower (before (CHR '':'') (url_clean url)) = ''https''"
    using ss parts(2) p(1) before_after [of "CHR '':''" "url_clean url"] by (auto simp: split_scheme_def Let_def split: if_splits)
  have port: "snd (hostinfo (sr_netloc parts)) = None"
    using parts(4) by (auto simp: url_port_def split: option.splits if_splits)
  have brackets: "brackets_ok lib (sr_netloc parts)" using p by simp
  have "CHR ''%'' \<notin> set ''yoomoney.ru''" by simp
  from hostname_host [OF parts(5) this parts(3) port assms(3) brackets]
  obtain host c where host: "netloc = host @ c" "lower host = ''yoomoney.ru''" "c \<in> {'''', '':''}"
    using p(1) by auto
  then have "netloc \<noteq> []" by (auto simp: lower_def)
  then have slashes: "take 2 rest = ''//''" and cut: "netloc = takeWhile (\<lambda>c. \<not> is_delim c) (drop 2 rest)"
    "path = dropWhile (\<lambda>c. \<not> is_delim c) (drop 2 rest)"
    using sn by (auto simp: split_netloc_def split: if_splits)
  have "rest = take 2 rest @ drop 2 rest" by simp
  also have "\<dots> = ''//'' @ netloc @ path" unfolding slashes cut by (simp only: takeWhile_dropWhile_id)
  finally have "rest = ''//'' @ netloc @ path" .
  moreover have "path = [] \<or> is_delim (hd path)"
    using hd_dropWhile [of "\<lambda>c. \<not> is_delim c" "drop 2 rest"] cut(2) by auto
  ultimately have rest: "rest = ''//'' @ host @ c @ path" "path = [] \<or> is_delim (hd path)" using host(1) by simp_all
  let ?S = "before (CHR '':'') (url_clean url)"
  have "url = sp @ url_clean url" by (rule sp(1))
  also have "url_clean url = ?S @ CHR '':'' # rest" by (rule colon(1))
  also have "CHR '':'' # rest = ''://'' @ host @ c @ path" using rest(1) by simp
  finally have "url = sp @ ?S @ ''://'' @ host @ c @ path" .
  moreover have "\<forall>c \<in> set url. 32 \<le> code_point c \<and> code_point c < 127 \<and> c \<noteq> CHR 0x5C"
    using printable [OF basic(2,3)] basic(4) by blast
  ultimately show ?thesis using basic(1) sp(2) colon(2) host(2,3) rest(2) by blast
qed

text \<open>Any library whose bracket check accepts addresses only.\<close>

definition strict_lib :: url_lib where
  "strict_lib = \<lparr>ip_ok = (\<lambda>s. s = ''::1''), netloc_ok = (\<lambda>_. False)\<rparr>"

theorem external_redirect_only_to_provider_witness:
  "redirect_external strict_lib (\<lambda>n. n) htmx_request ''https://yoomoney.ru/pay?id=1'' ''/billing'' ''payment_failed''
     = Inr (HxRedirect ''https://yoomoney.ru/pay?id=1'') \<and>
   (\<exists>sp sch host colon rest. ''https://yoomoney.ru/pay?id=1'' = sp @ sch @ ''://'' @ host @ colon @ rest \<and> lower host = ''yoomoney.ru'') \<and>
   redirect_external strict_lib (\<lambda>n. n) htmx_request ''https://yoomoney.ru@evil.example/'' ''/billing'' ''payment_failed''
     = Inr (HxLocation ''/billing?notice=payment_failed'')"
proof -
  have run: "redirect_external strict_lib (\<lambda>n. n) htmx_request ''https://yoomoney.ru/pay?id=1'' ''/billing'' ''payment_failed''
     = Inr (HxRedirect ''https://yoomoney.ru/pay?id=1'')" by code_simp
  have hx: "is_htmx htmx_request" by code_simp
  have strict: "\<not> ip_ok strict_lib h" if "lower h = ''yoomoney.ru''" for h
  proof
    assume "ip_ok strict_lib h"
    then have "h = ''::1''" by (simp add: strict_lib_def)
    with that have "length ''::1'' = length ''yoomoney.ru''" by (metis length_map lower_def)
    then show False by simp
  qed
  note ex = external_redirect_only_to_provider [OF run hx, THEN conjunct2, THEN conjunct1]
  obtain sp sch host colon rest where w: "''https://yoomoney.ru/pay?id=1'' = sp @ sch @ ''://'' @ host @ colon @ rest"
    "lower host = ''yoomoney.ru''"
    by (rule exE [OF ex]) (erule strict, elim exE conjE, rule that)
  have "\<exists>sp sch host colon rest. ''https://yoomoney.ru/pay?id=1'' = sp @ sch @ ''://'' @ host @ colon @ rest \<and> lower host = ''yoomoney.ru''"
    by (intro exI [of _ sp] exI [of _ sch] exI [of _ host] exI [of _ colon] exI [of _ rest] conjI w)
  moreover have "redirect_external strict_lib (\<lambda>n. n) htmx_request ''https://yoomoney.ru@evil.example/'' ''/billing'' ''payment_failed''
     = Inr (HxLocation ''/billing?notice=payment_failed'')" by code_simp
  ultimately show ?thesis using run by blast
qed

end
