(* ===== verification/Billing_Web.thy ===== *)
theory Billing_Web
  imports Payment_Webhook Web_Reply
begin

text \<open>
  The routes of money: the provider's notification \<open>app/routes/billing.py\<close>, the counts of
  \<open>app/services/billing_service.py\<close> and the state and purchase of \<open>app/pages/billing.py\<close>. The
  list of the provider's networks is in its SDK: \<open>is_ip_trusted\<close> is an argument that may raise.
\<close>

section \<open>The provider's notification\<close>

record billing_settings =
  bs_enabled :: bool
  bs_verify_ip :: bool
  bs_ip_header :: string
  bs_subscription_price :: string

definition webhook_client_ip :: "http_request \<Rightarrow> billing_settings \<Rightarrow> string option" where
  "webhook_client_ip rq cfg =
     (if bs_ip_header cfg = [] then None
      else case header rq (lower (bs_ip_header cfg)) of
             None \<Rightarrow> None
           | Some raw \<Rightarrow>
               let ip = strip (last (split_on (CHR '','') raw))
               in if ip = [] then None else Some ip)"

definition is_trusted_source :: "(string \<Rightarrow> exn + bool) \<Rightarrow> string \<Rightarrow> bool" where
  "is_trusted_source is_ip_trusted ip = (case is_ip_trusted ip of Inl e \<Rightarrow> False | Inr b \<Rightarrow> b)"

text \<open>
  The answer, the database committed, and the user whose cached verdict is dropped. The body is the
  parsed document or the exception of the parser.
\<close>

definition yookassa_webhook ::
  "billing_settings \<Rightarrow> (string \<Rightarrow> exn + bool) \<Rightarrow> sdk_events \<Rightarrow> int \<Rightarrow> http_request \<Rightarrow> exn + pyval \<Rightarrow> db \<Rightarrow>
     (exn + bool) \<times> db \<times> int option" where
  "yookassa_webhook cfg is_ip_trusted sdk now rq body d =
     (if \<not> bs_enabled cfg then (Inl (HTTPException 403), d, None)
      else if bs_verify_ip cfg \<and>
              (case webhook_client_ip rq cfg of None \<Rightarrow> True | Some ip \<Rightarrow> \<not> is_trusted_source is_ip_trusted ip)
      then (Inl (HTTPException 403), d, None)
      else
        case bind_res body (\<lambda>b. bind_res (py_get b ''event'' (PStr '''')) (\<lambda>event. handle_webhook sdk now event b d d d)) of
          Inl e \<Rightarrow> (Inl (HTTPException 500), d, None)
        | Inr (processed, d', dropped) \<Rightarrow> (Inr processed, d', dropped))"

section \<open>The billing page\<close>

definition count_payments :: "int \<Rightarrow> db \<Rightarrow> nat" where
  "count_payments u d = count_where (\<lambda>p. pay_user_id p = u) (db_payments d)"

definition count_succeeded_subscription_payments :: "int \<Rightarrow> db \<Rightarrow> nat" where
  "count_succeeded_subscription_payments u d =
     count_where (\<lambda>p. pay_user_id p = u \<and> pay_kind p = KIND_SUBSCRIPTION \<and> pay_status p = STATUS_SUCCEEDED) (db_payments d)"

record access_view =
  av_open :: bool
  av_comped :: bool

definition access_state :: "access_view \<Rightarrow> bool \<Rightarrow> string" where
  "access_state access ever_paid =
     (if av_comped access then ''comped''
      else if \<not> av_open access then ''expired''
      else if ever_paid then ''paid'' else ''trial'')"

text \<open>The purchase of a month: who asks, from where, and then the payment service.\<close>

definition subscribe_to_plan ::
  "url_lib \<Rightarrow> (string \<Rightarrow> string) \<Rightarrow> billing_settings \<Rightarrow> payment_cfg \<Rightarrow> sdk_create \<Rightarrow> string \<Rightarrow> int \<Rightarrow>
     user option \<Rightarrow> http_request \<Rightarrow> db \<Rightarrow> (exn + reply) \<times> db" where
  "subscribe_to_plan lib notice_oob cfg pcfg sdk key now usr rq d =
     (case usr of
        None \<Rightarrow> (respond notice_oob rq ''/login'' None None, d)
      | Some u \<Rightarrow>
          (case is_same_origin lib rq of
             Inl e \<Rightarrow> (Inl e, d)
           | Inr False \<Rightarrow> (Inr (EmptyStatus 403), d)
           | Inr True \<Rightarrow>
               if \<not> bs_enabled cfg then (respond notice_oob rq ''/billing'' (Some ''payment_disabled'') None, d)
               else
                 (case create_payment pcfg sdk key now (user_id u) (bs_subscription_price cfg) KIND_SUBSCRIPTION
                         None None None None (\<lambda>x. x) d of
                    (Inl PendingIntentCapError, d') \<Rightarrow> (respond notice_oob rq ''/billing'' (Some ''payment_pending'') None, d')
                  | (Inl PaymentCreationError, d') \<Rightarrow> (respond notice_oob rq ''/billing'' (Some ''payment_failed'') None, d')
                  | (Inl e, d') \<Rightarrow> (Inl e, d')
                  | (Inr (url, pid), d') \<Rightarrow>
                      (redirect_external lib notice_oob rq url ''/billing'' ''payment_failed'', d'))))"

section \<open>Properties\<close>

lemma trailing_element:
  assumes "CHR '','' \<notin> set real"
  shows "last (split_on (CHR '','') (forged @ CHR '','' # real)) = real"
  using assms by (simp add: last_split_on_append split_on_no_sep)


definition sample_billing :: billing_settings where
  "sample_billing = \<lparr>bs_enabled = True, bs_verify_ip = True, bs_ip_header = ''X-Real-IP'', bs_subscription_price = ''990.00''\<rparr>"

definition forged_request :: http_request where
  "forged_request = plain_request\<lparr>rq_headers := [''x-real-ip'' \<mapsto> ''185.71.76.1, 6.6.6.6'']\<rparr>"


text \<open>
  a purchase begins only for a signed-in user, from a page of this site, with payments switched
  on; in every other case no payment row is written. The browser is then sent to a safe path of
  this site, or, after a payment was created, to the address of the provider's answer; a user whose
  payment is still open stays with the one row he has.
\<close>

theorem purchase_is_guarded:
  assumes "subscribe_to_plan lib oob cfg pcfg sdk key now usr rq d = (Inr rep, d')"
  shows "(if usr \<noteq> None \<and> is_same_origin lib rq = Inr True \<and> bs_enabled cfg
          then \<exists>u res. usr = Some u \<and> create_payment pcfg sdk key now (user_id u) (bs_subscription_price cfg) KIND_SUBSCRIPTION
                None None None None (\<lambda>x. x) d = (res, d') \<and>
              (case res of
                 Inl e \<Rightarrow> e \<in> {PendingIntentCapError, PaymentCreationError} \<and> (\<exists>l. safe_location l \<and> rep \<in> {RedirectResponse l, HxLocation l})
               | Inr (url, pid) \<Rightarrow> rep = RedirectResponse url \<or> rep = HxRedirect url \<or> (\<exists>l. safe_location l \<and> rep = HxLocation l))
          else d' = d \<and> (rep = EmptyStatus 403 \<or> (\<exists>l. safe_location l \<and> rep \<in> {RedirectResponse l, HxLocation l})))"
proof -
  have local: "\<exists>l. safe_location l \<and> rep' \<in> {RedirectResponse l, HxLocation l}"
    if "respond oob rq red n None = Inr rep'" for red n rep'
    using that with_notice_Inr [of red n]
    by (auto simp: respond_def result_simps location_response_def dest!: local_path_Inr split: if_splits)
  have conf: "u = url" if "confirmation_url lib url = Inr u" for url u
    using that by (auto simp: confirmation_url_def result_simps split: if_splits option.splits)
  have ext: "rep' = RedirectResponse url \<or> rep' = HxRedirect url \<or> (\<exists>l. safe_location l \<and> rep' = HxLocation l)"
    if "redirect_external lib oob rq url fb n = Inr rep'" for url fb n rep'
  proof (cases "is_htmx rq")
    case True
    then show ?thesis
      using that local [of fb "Some n" rep'] conf [of url]
      by (auto simp: redirect_external_def respond_def result_simps location_response_def split: sum.splits exn.splits)
  qed (use that in \<open>simp add: redirect_external_def\<close>)
  show ?thesis
  proof (cases "usr")
    case None
    with assms local show ?thesis by (auto simp: subscribe_to_plan_def)
  next
    case (Some u)
    show ?thesis
    proof (cases "is_same_origin lib rq = Inr True \<and> bs_enabled cfg")
      case False
      with assms Some local show ?thesis
        by (auto simp: subscribe_to_plan_def split: sum.splits bool.splits if_splits)
    next
      case True
      obtain res d1 where c: "create_payment pcfg sdk key now (user_id u) (bs_subscription_price cfg) KIND_SUBSCRIPTION
                None None None None (\<lambda>x. x) d = (res, d1)" by force
      with assms Some True show ?thesis
        by (cases res) (auto simp: subscribe_to_plan_def dest!: ext local split: exn.splits)
    qed
  qed
qed

theorem purchase_is_guarded_witness:
  "\<exists>d'. subscribe_to_plan strict_lib (\<lambda>n. n) sample_billing sample_cfg sample_sdk ''k'' 7 (Some sample_user) plain_request sample_db
      = (Inr (RedirectResponse ''https://pay/k''), d') \<and>
    create_payment sample_cfg sample_sdk ''k'' 7 1 ''990.00'' KIND_SUBSCRIPTION None None None None (\<lambda>x. x) sample_db
      = (Inr (''https://pay/k'', ''yk-k''), d')"
proof -
  let ?run = "subscribe_to_plan strict_lib (\<lambda>n. n) sample_billing sample_cfg sample_sdk ''k'' 7 (Some sample_user) plain_request sample_db"
  have o: "is_same_origin strict_lib plain_request = Inr True" "bs_enabled sample_billing" "user_id sample_user = 1"
    "bs_subscription_price sample_billing = ''990.00''" by code_simp+
  have "fst ?run = Inr (RedirectResponse ''https://pay/k'')"
    "fst (create_payment sample_cfg sample_sdk ''k'' 7 1 ''990.00'' KIND_SUBSCRIPTION None None None None (\<lambda>x. x) sample_db)
      = Inr (''https://pay/k'', ''yk-k'')" by code_simp+
  then obtain d' where run: "?run = (Inr (RedirectResponse ''https://pay/k''), d')" by (metis prod.collapse)
  from purchase_is_guarded [OF run] o obtain res where
    "create_payment sample_cfg sample_sdk ''k'' 7 1 ''990.00'' KIND_SUBSCRIPTION None None None None (\<lambda>x. x) sample_db = (res, d')"
    by auto
  with run \<open>fst (create_payment _ _ _ _ _ _ _ _ _ _ _ _ _) = _\<close> show ?thesis by auto
qed

end
