(* ===== verification/Schedule_Time.thy ===== *)
theory Schedule_Time
  imports Schema
begin

text \<open>
  \<open>app/services/schedule_service.py\<close>: the next run of a schedule, from its days of the week,
  its times of day and the name of its time zone. The time zone database is a parameter: it gives
  a zone or raises; a zone gives the UTC offset at an instant and the offset of a wall clock
  reading (the first of two when the reading is repeated). Wall clock readings and instants are
  microseconds; Python compares two datetimes of one zone by their wall clock readings.
\<close>

section \<open>Zones\<close>

record zone =
  utc_off :: "int \<Rightarrow> int"
  wall_off :: "int \<Rightarrow> int"

type_synonym tzdb = "string \<Rightarrow> exn + zone"

definition to_wall :: "zone \<Rightarrow> int \<Rightarrow> int" where
  "to_wall z t = t + utc_off z t"

definition from_wall :: "zone \<Rightarrow> int \<Rightarrow> int" where
  "from_wall z w = w - wall_off z w"

definition fixed_zone :: "int \<Rightarrow> zone" where
  "fixed_zone off = \<lparr>utc_off = (\<lambda>_. off), wall_off = (\<lambda>_. off)\<rparr>"

section \<open>The next run\<close>

text \<open>
  \<open>time(int(parts[0]), int(parts[1]))\<close>, in the order Python evaluates it: the arguments of
  \<open>time\<close> are converted to C integers of 32 bits before they are checked.
\<close>

definition INT_MAX :: int where "INT_MAX = 2147483647"

definition c_int :: "int \<Rightarrow> bool" where
  "c_int n \<longleftrightarrow> - INT_MAX - 1 \<le> n \<and> n \<le> INT_MAX"

definition time_of :: "int \<Rightarrow> int \<Rightarrow> exn + int" where
  "time_of h m =
     (if \<not> c_int h \<or> \<not> c_int m then Inl OverflowError
      else if 0 \<le> h \<and> h \<le> 23 \<and> 0 \<le> m \<and> m \<le> 59 then Inr (h * hour_us + m * minute_us)
      else Inl ValueError)"

fun parse_time :: "pyval \<Rightarrow> exn + int" where
  "parse_time (PStr s) =
     (let parts = split_on (CHR '':'') s in
      bind_res (of_option ValueError (py_int (hd parts))) (\<lambda>h.
        if length parts < 2 then Inl IndexError
        else bind_res (of_option ValueError (py_int (parts ! 1))) (time_of h)))"
| "parse_time _ = Inl AttributeError"

definition slots_of_day :: "pyval \<Rightarrow> int list \<Rightarrow> int \<Rightarrow> int \<Rightarrow> exn + int list" where
  "slots_of_day days tods now offset =
     (let day = (now + offset * day_us) div day_us in
      bind_res (int_in (weekday day) days) (\<lambda>here.
        Inr (if here then filter (\<lambda>w. w > now) (map (\<lambda>t. day * day_us + t) tods) else [])))"

definition compute_next_run_at :: "tzdb \<Rightarrow> pyval \<Rightarrow> pyval \<Rightarrow> string \<Rightarrow> int \<Rightarrow> exn + int option" where
  "compute_next_run_at tzdb days_of_week times_of_day tz_name now =
     (if \<not> truthy days_of_week \<or> \<not> truthy times_of_day then Inr None
      else bind_res (tzdb tz_name) (\<lambda>tz.
        let now_wall = to_wall tz now in
        bind_res (py_iter times_of_day) (\<lambda>ts.
          bind_res (map_res parse_time ts) (\<lambda>parsed_times.
            bind_res (map_res (slots_of_day days_of_week parsed_times now_wall) (map int [0..<8])) (\<lambda>slots.
              let candidates = concat slots in
              Inr (if candidates = [] then None else Some (from_wall tz (min_list candidates))))))))"

section \<open>Slots\<close>

text \<open>
  The abstract schedule: a wall clock reading is a slot when its weekday is one of the days and
  its time of day one of the times.
\<close>

definition is_slot :: "pyval \<Rightarrow> int set \<Rightarrow> int \<Rightarrow> bool" where
  "is_slot days T w \<longleftrightarrow> int_in (weekday (w div day_us)) days = Inr True \<and> w mod day_us \<in> T"

lemma time_of_range: "time_of h m = Inr t \<Longrightarrow> 0 \<le> t \<and> t < day_us"
  by (auto simp: time_of_def time_units split: if_splits)

lemma parse_time_range: "parse_time v = Inr t \<Longrightarrow> 0 \<le> t \<and> t < day_us"
  by (cases v) (auto simp: Let_def result_simps time_of_range split: if_splits)

lemma map_parse_range: "map_res parse_time ts = Inr T \<Longrightarrow> t \<in> set T \<Longrightarrow> 0 \<le> t \<and> t < day_us"
  using parse_time_range
  by (fastforce simp: map_res_eq_Inr list_all2_conv_all_nth in_set_conv_nth)

lemma day_time_split:
  assumes "0 \<le> t" "t < day_us"
  shows "(d * day_us + t) div day_us = d" "(d * day_us + t) mod day_us = t"
  using assms by (simp_all add: day_us_def)

lemma day_shift: "(now + k * day_us) div day_us = now div day_us + k"
  by (simp add: day_us_def)

lemma slots_of_day_iff:
  assumes "slots_of_day days T now k = Inr ws" "\<And>t. t \<in> set T \<Longrightarrow> 0 \<le> t \<and> t < day_us"
  shows "w \<in> set ws \<longleftrightarrow> is_slot days (set T) w \<and> w > now \<and> w div day_us = now div day_us + k"
proof -
  let ?d = "now div day_us + k"
  obtain here where here: "int_in (weekday ?d) days = Inr here"
    and ws: "ws = (if here then filter (\<lambda>w. w > now) (map (\<lambda>t. ?d * day_us + t) T) else [])"
    using assms(1) by (auto simp: slots_of_day_def Let_def result_simps day_shift)
  have "w \<in> (\<lambda>t. ?d * day_us + t) ` set T \<longleftrightarrow> w div day_us = ?d \<and> w mod day_us \<in> set T"
  proof
    assume "w \<in> (\<lambda>t. ?d * day_us + t) ` set T"
    then obtain t where t: "t \<in> set T" "w = ?d * day_us + t" by blast
    show "w div day_us = ?d \<and> w mod day_us \<in> set T"
      unfolding t(2) using day_time_split [of t ?d] assms(2) [OF t(1)] t(1) by simp
  next
    assume w: "w div day_us = ?d \<and> w mod day_us \<in> set T"
    then have "w = ?d * day_us + w mod day_us" using div_mult_mod_eq [of w day_us] by simp
    with w show "w \<in> (\<lambda>t. ?d * day_us + t) ` set T" by blast
  qed
  then show ?thesis using here by (auto simp: ws is_slot_def)
qed

definition next_slot :: "pyval \<Rightarrow> int set \<Rightarrow> int \<Rightarrow> int \<Rightarrow> bool" where
  "next_slot days T now w \<longleftrightarrow>
     is_slot days T w \<and> now < w \<and> (\<forall>v. is_slot days T v \<and> now < v \<longrightarrow> w \<le> v)"

text \<open>The window of eight days holds the first slot whenever it holds any.\<close>

lemma div_mono_int: "v \<le> w \<Longrightarrow> v div day_us \<le> w div day_us"
  by (simp add: day_us_def zdiv_mono1)

lemma window_slots:
  assumes "map_res (slots_of_day days T now) (map int [0..<8]) = Inr slots"
    and "\<And>t. t \<in> set T \<Longrightarrow> 0 \<le> t \<and> t < day_us"
  shows "w \<in> set (concat slots) \<longleftrightarrow>
    is_slot days (set T) w \<and> now < w \<and> w div day_us \<le> now div day_us + 7"
proof -
  have len: "length slots = 8" using assms(1) by (auto simp: map_res_eq_Inr dest: list_all2_lengthD)
  have day: "slots_of_day days T now (int k) = Inr (slots ! k)" if "k < 8" for k
    using assms(1) that by (auto simp: map_res_eq_Inr list_all2_conv_all_nth)
  have "w \<in> set (concat slots) \<longleftrightarrow> (\<exists>k<8. w \<in> set (slots ! k))"
    using len by (auto simp: Bex_def in_set_conv_nth [of _ slots])
  also have "\<dots> \<longleftrightarrow> (\<exists>k<8. is_slot days (set T) w \<and> now < w \<and> w div day_us = now div day_us + int k)"
    using slots_of_day_iff [OF day assms(2)] by blast
  also have "\<dots> \<longleftrightarrow> is_slot days (set T) w \<and> now < w \<and> w div day_us \<le> now div day_us + 7"
  proof
    assume w: "is_slot days (set T) w \<and> now < w \<and> w div day_us \<le> now div day_us + 7"
    then have "now div day_us \<le> w div day_us" by (simp add: div_mono_int)
    with w show "\<exists>k<8. is_slot days (set T) w \<and> now < w \<and> w div day_us = now div day_us + int k"
      by (intro exI [of _ "nat (w div day_us - now div day_us)"]) auto
  qed auto
  finally show ?thesis .
qed

lemma min_list_next_slot:
  assumes "map_res (slots_of_day days T now) (map int [0..<8]) = Inr slots"
    and "\<And>t. t \<in> set T \<Longrightarrow> 0 \<le> t \<and> t < day_us" "concat slots \<noteq> []"
  shows "next_slot days (set T) now (min_list (concat slots))"
proof -
  let ?m = "min_list (concat slots)"
  have m: "?m = Min (set (concat slots))" using assms(3) by (rule min_list_Min)
  have mem: "?m \<in> set (concat slots)"
    unfolding m using assms(3) by (intro Min_in) (simp_all only: finite_set set_empty not_False_eq_True)
  have least: "?m \<le> v" if "v \<in> set (concat slots)" for v
    unfolding m using that by (intro Min_le) (simp_all only: finite_set)
  note window = window_slots [OF assms(1,2)]
  have "?m \<le> v" if v: "is_slot days (set T) v" "now < v" for v
  proof (cases "v div day_us \<le> now div day_us + 7")
    case True
    with v window least show ?thesis by blast
  next
    case False
    with mem window have "?m div day_us < v div day_us" by fastforce
    then show ?thesis using div_mono_int [of v ?m] by linarith
  qed
  with mem window show ?thesis unfolding next_slot_def by blast
qed

section \<open>Existence\<close>

lemma weekday_shift: "weekday (n + k) = (weekday n + k) mod 7"
  by (simp add: weekday_def mod_add_left_eq)

text \<open>Every weekday and time of day comes up within seven days, strictly later than now.\<close>

lemma slot_within_week:
  assumes "0 \<le> d" "d \<le> 6" "0 \<le> t" "t < day_us"
  shows "\<exists>w. weekday (w div day_us) = d \<and> w mod day_us = t \<and> now < w \<and> w \<le> now + 7 * day_us"
proof -
  let ?n = "now div day_us"
  define k where "k = (d - weekday ?n) mod 7"
  have k: "0 \<le> k" "k \<le> 6" by (simp_all add: k_def)
  have "weekday (?n + k) = (weekday ?n + (d - weekday ?n)) mod 7"
    by (simp add: k_def weekday_shift mod_add_right_eq)
  also have "\<dots> = d" using assms(1,2) by simp
  finally have wd: "weekday (?n + k) = d" .
  have wd7: "weekday (?n + 7) = weekday ?n" by (simp add: weekday_def)
  have now: "?n * day_us \<le> now" "now < (?n + 1) * day_us" using whole_days [of now] by simp_all
  have day: "0 < day_us" by (simp add: day_us_def)
  show ?thesis
  proof (cases "now < (?n + k) * day_us + t")
    case True
    have "(?n + k) * day_us + t \<le> now + 7 * day_us"
      using now k assms(3,4) by (simp add: day_us_def)
    with True wd assms(3,4) show ?thesis
      by (intro exI [of _ "(?n + k) * day_us + t"]) (simp add: day_time_split)
  next
    case False
    have "k = 0"
    proof (rule ccontr)
      assume "k \<noteq> 0"
      with k have "1 \<le> k" by simp
      then show False using now(2) False assms(3) by (simp add: day_us_def)
    qed
    with wd wd7 have "weekday (?n + 7) = d" by simp
    moreover have "now < (?n + 7) * day_us + t" "(?n + 7) * day_us + t \<le> now + 7 * day_us"
      using now False \<open>k = 0\<close> assms(3) by (simp_all add: day_us_def)
    ultimately show ?thesis using assms(3,4)
      by (intro exI [of _ "(?n + 7) * day_us + t"]) (simp add: day_time_split)
  qed
qed

text \<open>A day list whose members are all weekdays.\<close>

definition weekdays :: "pyval list \<Rightarrow> bool" where
  "weekdays ds \<longleftrightarrow> list_all (\<lambda>v. \<exists>d. v = PInt d \<and> 0 \<le> d \<and> d \<le> 6) ds"

lemma slots_of_day_total: "\<exists>ws. slots_of_day (PList ds) T now k = Inr ws"
  by (simp add: slots_of_day_def Let_def)

lemma map_res_total: "(\<And>x. x \<in> set xs \<Longrightarrow> \<exists>y. f x = Inr y) \<Longrightarrow> \<exists>ys. map_res f xs = Inr ys"
  by (induction xs) (auto simp: result_simps)

lemma compute_next_run_total:
  assumes "ds \<noteq> []" "weekdays ds" "tods \<noteq> []" "map_res parse_time tods = Inr T" "tzdb name = Inr z"
  shows "\<exists>w. compute_next_run_at tzdb (PList ds) (PList tods) name now = Inr (Some (from_wall z w)) \<and>
    next_slot (PList ds) (set T) (to_wall z now) w \<and> w \<le> to_wall z now + 7 * day_us"
proof -
  let ?n = "to_wall z now"
  obtain slots where slots: "map_res (slots_of_day (PList ds) T ?n) (map int [0..<8]) = Inr slots"
    using map_res_total [of "map int [0..<8]" "slots_of_day (PList ds) T ?n"] slots_of_day_total by blast
  have range: "\<And>t. t \<in> set T \<Longrightarrow> 0 \<le> t \<and> t < day_us" using map_parse_range [OF assms(4)] .
  obtain d ds' where d: "ds = PInt d # ds'" "0 \<le> d" "d \<le> 6"
    using assms(1,2) by (cases ds) (auto simp: weekdays_def)
  have "T \<noteq> []" using assms(3,4) by (auto simp: map_res_eq_Inr)
  then obtain t where t: "t \<in> set T" by (cases T) auto
  obtain v where v: "weekday (v div day_us) = d" "v mod day_us = t" "?n < v" "v \<le> ?n + 7 * day_us"
    using slot_within_week [OF d(2,3), of t ?n] range [OF t] by blast
  have slot: "is_slot (PList ds) (set T) v" using v(1,2) t d(1) by (simp add: is_slot_def)
  have "v div day_us \<le> (?n + 7 * day_us) div day_us" using v(4) by (rule div_mono_int)
  also have "\<dots> = ?n div day_us + 7" by (rule day_shift)
  finally have "v \<in> set (concat slots)"
    using window_slots [OF slots range] slot v(3) by blast
  then have ne: "concat slots \<noteq> []" by (metis empty_iff empty_set)
  note first = min_list_next_slot [OF slots range ne]
  then have "min_list (concat slots) \<le> v" using slot v(3) by (simp add: next_slot_def)
  with v(4) first assms ne slots show ?thesis
    by (intro exI [of _ "min_list (concat slots)"])
       (simp add: compute_next_run_at_def Let_def del: set_concat concat_eq_Nil_conv)
qed

lemma next_run_slot:
  assumes "compute_next_run_at tzdb days tods name now = Inr (Some r)"
  shows "\<exists>z ts T w. tzdb name = Inr z \<and> py_iter tods = Inr ts \<and> map_res parse_time ts = Inr T \<and>
    r = from_wall z w \<and> next_slot days (set T) (to_wall z now) w"
proof -
  obtain z ts T slots where parts: "tzdb name = Inr z" "py_iter tods = Inr ts" "map_res parse_time ts = Inr T"
    "map_res (slots_of_day days T (to_wall z now)) (map int [0..<8]) = Inr slots"
    "concat slots \<noteq> []" "r = from_wall z (min_list (concat slots))"
    using assms by (auto simp: compute_next_run_at_def Let_def result_simps
        simp del: set_concat concat_eq_Nil_conv split: if_splits)
  have "next_slot days (set T) (to_wall z now) (min_list (concat slots))"
    using parts(4) map_parse_range [OF parts(3)] parts(5) by (rule min_list_next_slot)
  with parts show ?thesis by blast
qed

section \<open>Properties\<close>

text \<open>
  C5: when the next run is computed, it is the first moment strictly after the present, on the
  wall clock of the schedule's zone, whose weekday is among the days and whose time of day is
  among the times: no earlier slot is skipped and none is repeated.
\<close>

theorem next_run_is_first_slot:
  assumes "compute_next_run_at tzdb days tods name now = Inr (Some r)"
  shows "\<exists>z ts T w. tzdb name = Inr z \<and> py_iter tods = Inr ts \<and> map_res parse_time ts = Inr T \<and>
    r = from_wall z w \<and> next_slot days (set T) (to_wall z now) w"
  using assms by (rule next_run_slot)

definition sample_tzdb :: tzdb where
  "sample_tzdb name =
     (if name = ''UTC'' then Inr (fixed_zone 0)
      else if name = ''Europe/Moscow'' then Inr (fixed_zone (3 * hour_us))
      else Inl ZoneInfoNotFoundError)"

text \<open>Monday and Wednesday at nine, asked on Monday 1 January 2024 at noon in Moscow.\<close>

definition sample_days :: pyval where "sample_days = PList [PInt 0, PInt 2]"
definition sample_times :: pyval where "sample_times = PList [PStr ''09:00'']"
definition sample_now :: int where "sample_now = day_of 2024 1 1 * day_us + 9 * hour_us"

lemma sample_next_run:
  "compute_next_run_at sample_tzdb sample_days sample_times ''Europe/Moscow'' sample_now =
     Inr (Some (day_of 2024 1 3 * day_us + 6 * hour_us))"
  by code_simp

theorem next_run_is_first_slot_witness:
  "\<exists>w T. day_of 2024 1 3 * day_us + 6 * hour_us = from_wall (fixed_zone (3 * hour_us)) w \<and>
     next_slot sample_days T (to_wall (fixed_zone (3 * hour_us)) sample_now) w"
  using next_run_is_first_slot [OF sample_next_run] by (auto simp: sample_tzdb_def)

end
