(* ===== verification/Schedule_Rules.thy ===== *)
theory Schedule_Rules
  imports Schedule_Time
begin

text \<open>
  \<open>app/services/schedule_rules.py\<close>: what a schedule may hold (days, times, groups of its owner's
  account), when it is complete, and the next run of a stored schedule whose values may be
  unusable. A stored column is any JSON value; the expression for a time of day is matched with
  \<open>$\<close>, which also stands before a final line break.
\<close>

section \<open>The rules\<close>

fun is_valid_day_of_week :: "pyval \<Rightarrow> bool" where
  "is_valid_day_of_week (PInt n) = (0 \<le> n \<and> n \<le> 6)"
| "is_valid_day_of_week _ = False"

definition digit_in :: "char \<Rightarrow> int \<Rightarrow> int \<Rightarrow> bool" where
  "digit_in c lo hi = (case digit_val c of None \<Rightarrow> False | Some n \<Rightarrow> lo \<le> n \<and> n \<le> hi)"

definition hour_digits :: "char \<Rightarrow> char \<Rightarrow> bool" where
  "hour_digits a b \<longleftrightarrow> digit_in a 0 1 \<and> digit_in b 0 9 \<or> digit_in a 2 2 \<and> digit_in b 0 3"

definition minute_digits :: "char \<Rightarrow> char \<Rightarrow> bool" where
  "minute_digits a b \<longleftrightarrow> digit_in a 0 5 \<and> digit_in b 0 9"

definition line_break :: char where "line_break = CHR 0x0A"

fun time_of_day_match :: "string \<Rightarrow> bool" where
  "time_of_day_match [a, b, x, c, d] = (hour_digits a b \<and> x = CHR '':'' \<and> minute_digits c d)"
| "time_of_day_match [a, b, x, c, d, e] =
     (hour_digits a b \<and> x = CHR '':'' \<and> minute_digits c d \<and> e = line_break)"
| "time_of_day_match _ = False"

fun is_valid_time_of_day :: "pyval \<Rightarrow> bool" where
  "is_valid_time_of_day (PStr s) = time_of_day_match s"
| "is_valid_time_of_day _ = False"

definition is_schedule_complete :: "int option \<Rightarrow> pyval \<Rightarrow> pyval \<Rightarrow> pyval \<Rightarrow> bool" where
  "is_schedule_complete account_id group_ids days_of_week times_of_day =
     ((case account_id of None \<Rightarrow> False | Some a \<Rightarrow> a \<noteq> 0) \<and>
      truthy group_ids \<and> truthy days_of_week \<and> truthy times_of_day)"

definition owned_group_ids :: "db \<Rightarrow> int \<Rightarrow> int option \<Rightarrow> int list \<Rightarrow> int set" where
  "owned_group_ids d u account_id group_ids =
     (case account_id of
        None \<Rightarrow> {}
      | Some a \<Rightarrow>
          if group_ids = [] then {}
          else set (map grp_id (filter (\<lambda>g. grp_id g \<in> set group_ids \<and> grp_user_id g = u \<and> grp_account_id g = a)
                 (db_groups d))))"

definition UNRUNNABLE_STORED_VALUE_ERRORS :: "exn set" where
  "UNRUNNABLE_STORED_VALUE_ERRORS =
     {ValueError, TypeError, IndexError, AttributeError, ZoneInfoNotFoundError}"

definition or_list :: "pyval \<Rightarrow> pyval" where
  "or_list v = (if truthy v then v else PList [])"

definition next_run_or_none :: "tzdb \<Rightarrow> schedule \<Rightarrow> int \<Rightarrow> exn + int option" where
  "next_run_or_none tzdb s now =
     (case compute_next_run_at tzdb (or_list (sch_days_of_week s)) (or_list (sch_times_of_day s)) (sch_timezone s) now of
        Inr r \<Rightarrow> Inr r
      | Inl e \<Rightarrow> if e \<in> UNRUNNABLE_STORED_VALUE_ERRORS then Inr None else Inl e)"

definition VALID_TIMEZONES :: "string set" where
  "VALID_TIMEZONES =
     {''Europe/Kaliningrad'', ''Europe/Moscow'', ''Europe/Samara'', ''Asia/Yekaterinburg'',
      ''Asia/Novosibirsk'', ''Asia/Krasnoyarsk'', ''Asia/Irkutsk'', ''Asia/Yakutsk'',
      ''Asia/Vladivostok'', ''Asia/Magadan'', ''Asia/Kamchatka'', ''UTC''}"

definition profile_timezone_or_utc :: "string option \<Rightarrow> string" where
  "profile_timezone_or_utc tz =
     (case tz of None \<Rightarrow> ''UTC'' | Some s \<Rightarrow> if s \<in> VALID_TIMEZONES then s else ''UTC'')"

section \<open>A valid time is parsed\<close>

lemma digit_inE:
  assumes "digit_in c lo hi"
  obtains n where "digit_val c = Some n" "lo \<le> n" "n \<le> hi"
  using assms by (auto simp: digit_in_def split: option.splits)

lemma digit_val_plain: "digit_val c = Some n \<Longrightarrow> \<not> is_space c \<and> c \<noteq> CHR ''-'' \<and> c \<noteq> CHR ''+'' \<and> c \<noteq> CHR '':''"
  using digit_not_space [of c] by (auto simp: is_digit_def digit_val_def)

lemma line_break_space: "is_space line_break" "line_break \<noteq> CHR '':''"
  by (simp_all add: line_break_def is_space_def)

lemma py_int_two_digits:
  assumes "digit_val a = Some m" "digit_val b = Some n"
  shows "py_int [a, b] = Some (10 * m + n)" "py_int [a, b, line_break] = Some (10 * m + n)"
proof -
  note plain = digit_val_plain [OF assms(1)] digit_val_plain [OF assms(2)]
  then have "strip [a, b] = [a, b]" "strip [a, b, line_break] = [a, b]"
    by (simp_all add: strip_def line_break_space)
  with plain assms show "py_int [a, b] = Some (10 * m + n)" "py_int [a, b, line_break] = Some (10 * m + n)"
    by (simp_all add: py_int_def)
qed

lemma parse_two_digits:
  assumes "hour_digits a b" "minute_digits c d" "rest \<in> {[], [line_break]}"
  shows "\<exists>t. parse_time (PStr ([a, b, CHR '':'', c, d] @ rest)) = Inr t"
proof -
  obtain h1 h2 where h: "digit_val a = Some h1" "digit_val b = Some h2" "0 \<le> 10 * h1 + h2" "10 * h1 + h2 \<le> 23"
    using assms(1) by (auto simp: hour_digits_def elim!: digit_inE)
  obtain m1 m2 where m: "digit_val c = Some m1" "digit_val d = Some m2" "0 \<le> 10 * m1 + m2" "10 * m1 + m2 \<le> 59"
    using assms(2) by (auto simp: minute_digits_def elim!: digit_inE)
  have plain: "a \<noteq> CHR '':''" "b \<noteq> CHR '':''" "c \<noteq> CHR '':''" "d \<noteq> CHR '':''"
    using h m digit_val_plain by blast+
  have split: "split_on (CHR '':'') ([a, b, CHR '':'', c, d] @ rest) = [[a, b], [c, d] @ rest]"
    using plain assms(3) by (auto simp: line_break_space)
  have "py_int ([c, d] @ rest) = Some (10 * m1 + m2)"
    using assms(3) py_int_two_digits [OF m(1,2)] by auto
  then show ?thesis
    using h m py_int_two_digits [OF h(1,2)] split
    by (simp add: Let_def time_of_def c_int_def INT_MAX_def)
qed

lemma time_of_day_matchE:
  assumes "time_of_day_match s"
  obtains a b c d rest where "s = [a, b, CHR '':'', c, d] @ rest" "hour_digits a b" "minute_digits c d"
    "rest \<in> {[], [line_break]}"
  using assms
  by (cases s rule: time_of_day_match.cases) (auto intro: that [of _ _ _ _ "[]"] that [of _ _ _ _ "[line_break]"])

lemma valid_time_parses: "is_valid_time_of_day v \<Longrightarrow> \<exists>t. parse_time v = Inr t"
proof (cases v)
  case (PStr s)
  assume "is_valid_time_of_day v"
  with PStr have "time_of_day_match s" by simp
  then obtain a b c d rest where "s = [a, b, CHR '':'', c, d] @ rest" "hour_digits a b" "minute_digits c d"
    "rest \<in> {[], [line_break]}" by (rule time_of_day_matchE)
  with PStr parse_two_digits show ?thesis by blast
qed simp_all

lemma valid_days: "list_all is_valid_day_of_week ds \<Longrightarrow> weekdays ds"
  unfolding weekdays_def by (induction ds) (auto elim!: is_valid_day_of_week.elims)

section \<open>The errors of the next run\<close>

lemma py_iter_error: "py_iter v = Inl e \<Longrightarrow> e = TypeError"
  by (cases v) auto

lemma int_in_error: "int_in n v = Inl e \<Longrightarrow> e = TypeError"
  by (cases v) auto

lemma parse_time_error: "parse_time v = Inl e \<Longrightarrow> e \<in> {ValueError, IndexError, AttributeError, OverflowError}"
  by (cases v) (auto simp: Let_def result_simps of_option_def time_of_def split: if_splits option.splits)

lemma map_res_error: "map_res f xs = Inl e \<Longrightarrow> \<exists>x \<in> set xs. f x = Inl e"
  by (induction xs) (auto simp: result_simps)

lemma compute_next_run_error:
  assumes "compute_next_run_at tzdb days tods name now = Inl e"
  shows "e \<in> {ValueError, TypeError, IndexError, AttributeError, OverflowError} \<or> tzdb name = Inl e"
  using assms
  by (auto simp: compute_next_run_at_def Let_def result_simps slots_of_day_def
      dest!: map_res_error py_iter_error int_in_error parse_time_error split: if_splits)

lemma valid_next_run:
  assumes "ds \<noteq> []" "list_all is_valid_day_of_week ds" "tods \<noteq> []" "list_all is_valid_time_of_day tods"
    "tzdb name = Inr z"
  shows "\<exists>w T. compute_next_run_at tzdb (PList ds) (PList tods) name now = Inr (Some (from_wall z w)) \<and>
    map_res parse_time tods = Inr T \<and>
    next_slot (PList ds) (set T) (to_wall z now) w \<and> w \<le> to_wall z now + 7 * day_us"
proof -
  obtain T where "map_res parse_time tods = Inr T"
    using map_res_total [of tods parse_time] valid_time_parses assms(4) by (auto simp: list_all_iff)
  with compute_next_run_total [where tzdb = tzdb and name = name and now = now,
      OF assms(1) valid_days [OF assms(2)] assms(3) _ assms(5)] show ?thesis
    by blast
qed

lemma unrunnable_iff:
  "e \<in> UNRUNNABLE_STORED_VALUE_ERRORS \<longleftrightarrow>
     e = ValueError \<or> e = TypeError \<or> e = IndexError \<or> e = AttributeError \<or> e = ZoneInfoNotFoundError"
  by (simp add: UNRUNNABLE_STORED_VALUE_ERRORS_def)

lemma next_run_or_none_total:
  assumes "\<And>e. tzdb (sch_timezone s) = Inl e \<Longrightarrow> e \<in> UNRUNNABLE_STORED_VALUE_ERRORS"
  shows "(\<exists>r. next_run_or_none tzdb s now = Inr r) \<or> next_run_or_none tzdb s now = Inl OverflowError"
proof (cases "compute_next_run_at tzdb (or_list (sch_days_of_week s)) (or_list (sch_times_of_day s)) (sch_timezone s) now")
  case (Inl e)
  from compute_next_run_error [OF Inl] assms have "e \<in> UNRUNNABLE_STORED_VALUE_ERRORS \<or> e = OverflowError"
    by (auto simp: unrunnable_iff)
  with Inl show ?thesis by (auto simp: next_run_or_none_def)
qed (simp add: next_run_or_none_def)

lemma from_to_fixed:
  assumes "z = fixed_zone off"
  shows "from_wall z (to_wall z t) = t" "from_wall z w = w - off" "to_wall z t = t + off"
  by (simp_all add: assms fixed_zone_def from_wall_def to_wall_def)

section \<open>Properties\<close>


definition sample_schedule :: schedule where
  "sample_schedule = \<lparr>sch_id = 1, sch_ad_id = 1, sch_account_id = Some 1, sch_group_ids = PList [PInt 1],
     sch_days_of_week = sample_days, sch_times_of_day = sample_times, sch_timezone = ''Europe/Moscow'',
     sch_is_active = True, sch_next_run_at = Some 0, sch_created_at = 0\<rparr>"


text \<open>
  a stored time of day whose hour does not fit a C integer is not among the errors the helper
  catches: in any zone and with any days the call raises \<open>OverflowError\<close> instead of answering
  that the schedule cannot be run.
\<close>

theorem stored_hour_overflow_escapes:
  assumes "truthy (sch_days_of_week s)" "sch_times_of_day s = PList [PStr (nat_str h @ '':00'')]"
    and "tzdb (sch_timezone s) = Inr z" "2147483648 \<le> h" "h < 10 ^ 18"
  shows "next_run_or_none tzdb s now = Inl OverflowError"
proof -
  have no_colon: "CHR '':'' \<notin> set (nat_str h)"
    using nat_str_digits [of "CHR '':''" h] by (auto simp: is_digit_def digit_val_def)
  have "split_on (CHR '':'') (nat_str h @ CHR '':'' # ''00'') = split_on (CHR '':'') (nat_str h) @ split_on (CHR '':'') ''00''"
    by (rule split_on_append)
  then have split: "split_on (CHR '':'') (nat_str h @ '':00'') = [nat_str h, ''00'']"
    using split_on_no_sep [OF no_colon] by simp
  have "py_int ''00'' = Some 0" by code_simp
  then have "parse_time (PStr (nat_str h @ '':00'')) = Inl OverflowError"
    using py_int_nat_str [of h] split assms(4)
    by (simp add: Let_def time_of_def c_int_def INT_MAX_def)
  with assms(1-3) show ?thesis
    by (simp add: next_run_or_none_def or_list_def compute_next_run_at_def Let_def unrunnable_iff)
qed

theorem stored_hour_overflow_escapes_witness:
  "next_run_or_none sample_tzdb (sample_schedule\<lparr>sch_times_of_day := PList [PStr (nat_str 2147483648 @ '':00'')]\<rparr>)
     sample_now = Inl OverflowError"
  by (rule stored_hour_overflow_escapes [where z = "fixed_zone (3 * hour_us)" and h = 2147483648])
     (simp_all add: sample_schedule_def sample_days_def sample_tzdb_def)

end
