(* ===== verification/Identifiers.thy ===== *)
theory Identifiers
  imports Prelude
begin

text \<open>The range of an identifier that fits its column, \<open>app/pages/identifiers.py\<close>.\<close>

definition ID_MAX :: int where "ID_MAX = 2147483647"

definition id_in_column :: "int \<Rightarrow> bool" where
  "id_in_column n \<longleftrightarrow> 1 \<le> n \<and> n \<le> ID_MAX"

end
