(* ===== verification/Schedules_Api.thy ===== *)
theory Schedules_Api
  imports Schedule_Rules Identifiers
begin

text \<open>
  The JSON interface of schedules, \<open>app/routes/schedules.py\<close> with the queries of
  \<open>app/repositories/schedule.py\<close> it uses: the validators of the request bodies and the
  handlers create, update, delete and toggle. A handler gives the stored row and the database after
  its commit, or the exception; an exception leaves the database as it was, because the session is
  rolled back. In an update a key may be absent, null or have a value.
\<close>

section \<open>Request bodies\<close>

record create_request =
  cr_ad_id :: int
  cr_account_id :: int
  cr_group_ids :: "int list"
  cr_days_of_week :: "int list"
  cr_times_of_day :: "string list"
  cr_timezone :: string

record update_request =
  up_group_ids :: "int list option option"
  up_days_of_week :: "int list option option"
  up_times_of_day :: "string list option option"
  up_timezone :: "string option option"

definition bounded_id :: "int \<Rightarrow> bool" where
  "bounded_id n \<longleftrightarrow> 1 \<le> n \<and> n \<le> ID_MAX"

definition reject_out_of_range_days :: "int list option \<Rightarrow> exn + int list option" where
  "reject_out_of_range_days values =
     (case values of
        None \<Rightarrow> Inr None
      | Some vs \<Rightarrow>
          if filter (\<lambda>v. \<not> is_valid_day_of_week (PInt v)) vs \<noteq> [] then Inl ValueError else Inr (Some vs))"

definition reject_malformed_times :: "string list option \<Rightarrow> exn + string list option" where
  "reject_malformed_times values =
     (case values of
        None \<Rightarrow> Inr None
      | Some vs \<Rightarrow>
          if filter (\<lambda>v. \<not> is_valid_time_of_day (PStr v)) vs \<noteq> [] then Inl ValueError else Inr (Some vs))"

definition validate_timezone :: "string option \<Rightarrow> exn + string option" where
  "validate_timezone v =
     (case v of None \<Rightarrow> Inr None | Some tz \<Rightarrow> if tz \<notin> VALID_TIMEZONES then Inl ValueError else Inr (Some tz))"

definition bounded_ids :: "int list option \<Rightarrow> exn + int list option" where
  "bounded_ids v = (case v of None \<Rightarrow> Inr None | Some ids \<Rightarrow> if list_all bounded_id ids then Inr (Some ids) else Inl ValueError)"

text \<open>A validator that refuses makes the framework answer 422 before the handler runs.\<close>

definition invalid :: "exn + 'a \<Rightarrow> bool" where
  "invalid r = (case r of Inl e \<Rightarrow> True | Inr x \<Rightarrow> False)"

definition validate_create :: "create_request \<Rightarrow> exn + create_request" where
  "validate_create r =
     (if \<not> bounded_id (cr_ad_id r) \<or> \<not> bounded_id (cr_account_id r) \<or>
         invalid (bounded_ids (Some (cr_group_ids r))) \<or>
         invalid (reject_out_of_range_days (Some (cr_days_of_week r))) \<or>
         invalid (reject_malformed_times (Some (cr_times_of_day r))) \<or>
         invalid (validate_timezone (Some (cr_timezone r)))
      then Inl (HTTPException 422) else Inr r)"

definition reject_explicit_null :: "'a option option \<Rightarrow> exn + 'a option" where
  "reject_explicit_null v =
     (case v of None \<Rightarrow> Inr None | Some None \<Rightarrow> Inl ValueError | Some (Some x) \<Rightarrow> Inr (Some x))"

definition validate_update :: "update_request \<Rightarrow> exn + update_request" where
  "validate_update r =
     (if invalid (bind_res (reject_explicit_null (up_group_ids r)) bounded_ids) \<or>
         invalid (bind_res (reject_explicit_null (up_days_of_week r)) reject_out_of_range_days) \<or>
         invalid (bind_res (reject_explicit_null (up_times_of_day r)) reject_malformed_times) \<or>
         invalid (bind_res (reject_explicit_null (up_timezone r)) validate_timezone)
      then Inl (HTTPException 422) else Inr r)"

section \<open>Rows\<close>

definition ints :: "int list \<Rightarrow> pyval" where "ints ns = PList (map PInt ns)"
definition strs :: "string list \<Rightarrow> pyval" where "strs ss = PList (map PStr ss)"

definition owns_ad :: "db \<Rightarrow> int \<Rightarrow> int \<Rightarrow> bool" where
  "owns_ad d u a = list_ex (\<lambda>r. ad_id r = a \<and> ad_user_id r = u) (db_ads d)"

definition owns_account :: "db \<Rightarrow> int \<Rightarrow> int \<Rightarrow> bool" where
  "owns_account d u a = list_ex (\<lambda>r. acc_id r = a \<and> acc_user_id r = u) (db_accounts d)"

definition get_for_user :: "int \<Rightarrow> int \<Rightarrow> db \<Rightarrow> schedule option" where
  "get_for_user i u d = List.find (\<lambda>s. sch_id s = i \<and> owns_ad d u (sch_ad_id s)) (db_schedules d)"

text \<open>The statements fail on the check constraint of the table.\<close>

definition insert_schedule :: "schedule \<Rightarrow> db \<Rightarrow> exn + schedule \<times> db" where
  "insert_schedule s d =
     (if ck_active_requires_next_run s
      then let row = s\<lparr>sch_id := next_id sch_id (db_schedules d)\<rparr>
           in Inr (row, d\<lparr>db_schedules := db_schedules d @ [row]\<rparr>)
      else Inl IntegrityError)"

definition save_schedule :: "schedule \<Rightarrow> db \<Rightarrow> exn + schedule \<times> db" where
  "save_schedule s d =
     (if ck_active_requires_next_run s
      then Inr (s, d\<lparr>db_schedules := update_where (\<lambda>r. sch_id r = sch_id s) (\<lambda>_. s) (db_schedules d)\<rparr>)
      else Inl IntegrityError)"

section \<open>The handlers\<close>

definition create_schedule :: "tzdb \<Rightarrow> int \<Rightarrow> create_request \<Rightarrow> int \<Rightarrow> db \<Rightarrow> exn + schedule \<times> db" where
  "create_schedule tzdb now request u d =
     bind_res (validate_create request) (\<lambda>data.
       if \<not> owns_ad d u (cr_ad_id data) then Inl (HTTPException 404)
       else if \<not> owns_account d u (cr_account_id data) then Inl (HTTPException 404)
       else if set (cr_group_ids data) - owned_group_ids d u (Some (cr_account_id data)) (cr_group_ids data) \<noteq> {}
       then Inl (HTTPException 404)
       else
         let complete = is_schedule_complete (Some (cr_account_id data)) (ints (cr_group_ids data))
               (ints (cr_days_of_week data)) (strs (cr_times_of_day data)) in
         bind_res (if complete
                   then compute_next_run_at tzdb (ints (cr_days_of_week data)) (strs (cr_times_of_day data))
                          (cr_timezone data) now
                   else Inr None) (\<lambda>next_run.
           insert_schedule \<lparr>sch_id = 0, sch_ad_id = cr_ad_id data, sch_account_id = Some (cr_account_id data),
             sch_group_ids = ints (cr_group_ids data), sch_days_of_week = ints (cr_days_of_week data),
             sch_times_of_day = strs (cr_times_of_day data), sch_timezone = cr_timezone data,
             sch_is_active = complete, sch_next_run_at = next_run, sch_created_at = now\<rparr> d))"

definition complete_row :: "schedule \<Rightarrow> bool" where
  "complete_row s =
     is_schedule_complete (sch_account_id s) (or_list (sch_group_ids s)) (or_list (sch_days_of_week s))
       (or_list (sch_times_of_day s))"

definition set_field :: "('a \<Rightarrow> schedule \<Rightarrow> schedule) \<Rightarrow> 'a option option \<Rightarrow> schedule \<Rightarrow> schedule" where
  "set_field f v s = (case v of Some (Some x) \<Rightarrow> f x s | _ \<Rightarrow> s)"

definition apply_update :: "update_request \<Rightarrow> schedule \<Rightarrow> schedule" where
  "apply_update r s =
     set_field (\<lambda>tz. sch_timezone_update (\<lambda>_. tz)) (up_timezone r)
       (set_field (\<lambda>ts. sch_times_of_day_update (\<lambda>_. strs ts)) (up_times_of_day r)
         (set_field (\<lambda>ds. sch_days_of_week_update (\<lambda>_. ints ds)) (up_days_of_week r)
           (set_field (\<lambda>gs. sch_group_ids_update (\<lambda>_. ints gs)) (up_group_ids r) s)))"

text \<open>
  The end of the update: an incomplete schedule is switched off, a complete active one is given a
  new next run or refused, a complete paused one carries none.
\<close>

definition recompute :: "tzdb \<Rightarrow> int \<Rightarrow> schedule \<Rightarrow> db \<Rightarrow> exn + schedule \<times> db" where
  "recompute tzdb now s d =
     (if \<not> complete_row s then save_schedule (s\<lparr>sch_is_active := False, sch_next_run_at := None\<rparr>) d
      else if sch_is_active s then
        bind_res (next_run_or_none tzdb s now) (\<lambda>next_run.
          case next_run of
            None \<Rightarrow> Inl (HTTPException 400)
          | Some t \<Rightarrow> save_schedule (s\<lparr>sch_next_run_at := Some t\<rparr>) d)
      else save_schedule (s\<lparr>sch_next_run_at := None\<rparr>) d)"

text \<open>Does the update name a group that is not the owner's, or not of the schedule's account?\<close>

definition foreign_groups :: "db \<Rightarrow> int \<Rightarrow> schedule \<Rightarrow> update_request \<Rightarrow> bool" where
  "foreign_groups d u schedule data =
     (case up_group_ids data of
        Some (Some requested) \<Rightarrow> set requested - owned_group_ids d u (sch_account_id schedule) requested \<noteq> {}
      | _ \<Rightarrow> False)"

definition update_schedule :: "tzdb \<Rightarrow> int \<Rightarrow> int \<Rightarrow> update_request \<Rightarrow> int \<Rightarrow> db \<Rightarrow> exn + schedule \<times> db" where
  "update_schedule tzdb now i request u d =
     bind_res (validate_update request) (\<lambda>data.
       case get_for_user i u d of
         None \<Rightarrow> Inl (HTTPException 404)
       | Some schedule \<Rightarrow>
           if foreign_groups d u schedule data then Inl (HTTPException 404)
           else recompute tzdb now (apply_update data schedule) d)"

definition delete_schedule :: "int \<Rightarrow> int \<Rightarrow> db \<Rightarrow> exn + db" where
  "delete_schedule i u d =
     (case get_for_user i u d of
        None \<Rightarrow> Inl (HTTPException 404)
      | Some schedule \<Rightarrow> Inr (d\<lparr>db_schedules := filter (\<lambda>r. sch_id r \<noteq> sch_id schedule) (db_schedules d)\<rparr>))"

definition toggle_schedule :: "tzdb \<Rightarrow> int \<Rightarrow> int \<Rightarrow> int \<Rightarrow> db \<Rightarrow> exn + schedule \<times> db" where
  "toggle_schedule tzdb now i u d =
     (case get_for_user i u d of
        None \<Rightarrow> Inl (HTTPException 404)
      | Some schedule \<Rightarrow>
          if \<not> sch_is_active schedule \<and> \<not> complete_row schedule then Inl (HTTPException 400)
          else if sch_is_active schedule then
            save_schedule (schedule\<lparr>sch_is_active := False, sch_next_run_at := None\<rparr>) d
          else
            bind_res (next_run_or_none tzdb schedule now) (\<lambda>next_run.
              case next_run of
                None \<Rightarrow> Inl (HTTPException 400)
              | Some t \<Rightarrow> save_schedule (schedule\<lparr>sch_is_active := True, sch_next_run_at := Some t\<rparr>) d))"

section \<open>A sequence of requests\<close>

datatype schedule_request =
    Create create_request
  | Update int update_request
  | Delete int
  | Toggle int

definition serve :: "tzdb \<Rightarrow> int \<times> int \<times> schedule_request \<Rightarrow> db \<Rightarrow> exn + db" where
  "serve tzdb q d =
     (case q of (now, u, r) \<Rightarrow>
        case r of
          Create c \<Rightarrow> bind_res (create_schedule tzdb now c u d) (\<lambda>(_, d'). Inr d')
        | Update i c \<Rightarrow> bind_res (update_schedule tzdb now i c u d) (\<lambda>(_, d'). Inr d')
        | Delete i \<Rightarrow> delete_schedule i u d
        | Toggle i \<Rightarrow> bind_res (toggle_schedule tzdb now i u d) (\<lambda>(_, d'). Inr d'))"

fun serve_all :: "tzdb \<Rightarrow> (int \<times> int \<times> schedule_request) list \<Rightarrow> db \<Rightarrow> db" where
  "serve_all tzdb [] d = d"
| "serve_all tzdb (q # qs) d =
     serve_all tzdb qs (case serve tzdb q d of Inl e \<Rightarrow> d | Inr d' \<Rightarrow> d')"

section \<open>What a handler writes\<close>

text \<open>Active rows are complete and have a next run; paused rows have none.\<close>

definition coherent :: "schedule \<Rightarrow> bool" where
  "coherent s \<longleftrightarrow>
     (if sch_is_active s then complete_row s \<and> sch_next_run_at s \<noteq> None else sch_next_run_at s = None)"

definition schedules_coherent :: "db \<Rightarrow> bool" where
  "schedules_coherent d \<longleftrightarrow>
     distinct (map sch_id (db_schedules d)) \<and> (\<forall>s \<in> set (db_schedules d). coherent s)"

text \<open>A handler's answer: the row it returns is coherent, stored, and every other row is untouched.\<close>

definition stored :: "schedule \<Rightarrow> db \<Rightarrow> db \<Rightarrow> bool" where
  "stored s d d' \<longleftrightarrow> coherent s \<and> s \<in> set (db_schedules d') \<and>
     filter (\<lambda>r. sch_id r \<noteq> sch_id s) (db_schedules d') = filter (\<lambda>r. sch_id r \<noteq> sch_id s) (db_schedules d)"

lemma coherent_ck: "coherent s \<Longrightarrow> ck_active_requires_next_run s"
  by (auto simp: coherent_def ck_active_requires_next_run_def split: if_splits)

lemma get_for_user_Some:
  "get_for_user i u d = Some s \<Longrightarrow> s \<in> set (db_schedules d) \<and> sch_id s = i \<and> owns_ad d u (sch_ad_id s)"
  by (auto simp: get_for_user_def find_Some_iff)

lemma save_keeps_ids:
  "save_schedule s d = Inr (s', d') \<Longrightarrow> map sch_id (db_schedules d') = map sch_id (db_schedules d)"
  by (auto simp: save_schedule_def update_where_def split: if_splits)

lemma save_coherent:
  assumes "save_schedule s d = Inr (s', d')" "coherent s" "schedules_coherent d"
  shows "schedules_coherent d'"
  using assms save_keeps_ids [OF assms(1)]
  by (auto simp: schedules_coherent_def save_schedule_def set_update_where split: if_splits)

lemma save_stored:
  assumes "save_schedule s d = Inr (s', d')" "coherent s" "r \<in> set (db_schedules d)" "sch_id r = sch_id s"
  shows "s' = s \<and> stored s d d'"
proof -
  have "filter (\<lambda>r. sch_id r \<noteq> sch_id s) (update_where (\<lambda>r. sch_id r = sch_id s) (\<lambda>_. s) rows) =
      filter (\<lambda>r. sch_id r \<noteq> sch_id s) rows" for rows
    by (induction rows) auto
  with assms show ?thesis
    by (auto simp: save_schedule_def stored_def set_update_where split: if_splits)
qed

lemma insert_coherent:
  assumes "insert_schedule s d = Inr (s', d')" "coherent (s\<lparr>sch_id := sch_id s'\<rparr>)"
  shows "stored s' d d' \<and> (schedules_coherent d \<longrightarrow> schedules_coherent d')"
  using assms next_id_distinct [of sch_id "db_schedules d" s']
  by (auto simp: insert_schedule_def schedules_coherent_def stored_def Let_def split: if_splits)

lemma complete_row_simps [simp]:
  "complete_row (s\<lparr>sch_is_active := b\<rparr>) = complete_row s"
  "complete_row (s\<lparr>sch_next_run_at := t\<rparr>) = complete_row s"
  "complete_row (s\<lparr>sch_id := i\<rparr>) = complete_row s"
  by (simp_all add: complete_row_def)

lemma coherent_id [simp]: "coherent (s\<lparr>sch_id := i\<rparr>) = coherent s"
  by (simp add: coherent_def)

lemma apply_update_id [simp]: "sch_id (apply_update r s) = sch_id s" "sch_ad_id (apply_update r s) = sch_ad_id s"
  by (simp_all add: apply_update_def set_field_def split: option.splits)

lemma validated:
  "validate_create r = Inr c \<Longrightarrow> c = r \<and> list_all (\<lambda>v. is_valid_day_of_week (PInt v)) (cr_days_of_week r) \<and>
     list_all (\<lambda>v. is_valid_time_of_day (PStr v)) (cr_times_of_day r) \<and> cr_timezone r \<in> VALID_TIMEZONES"
  by (auto simp: validate_create_def invalid_def reject_out_of_range_days_def reject_malformed_times_def
      validate_timezone_def filter_empty_conv list_all_iff split: if_splits option.splits sum.splits)

lemma validated_next_run:
  assumes "validate_create r = Inr c"
    and "compute_next_run_at tzdb (ints (cr_days_of_week r)) (strs (cr_times_of_day r)) (cr_timezone r) now = Inr t"
    and "cr_days_of_week r \<noteq> []" "cr_times_of_day r \<noteq> []"
  shows "t \<noteq> None"
proof -
  obtain z where z: "tzdb (cr_timezone r) = Inr z"
    using assms(2-4) by (auto simp: compute_next_run_at_def ints_def strs_def result_simps)
  have days: "list_all is_valid_day_of_week (map PInt (cr_days_of_week r))"
    and tods: "list_all is_valid_time_of_day (map PStr (cr_times_of_day r))"
    using validated [OF assms(1)] by (simp_all add: list.pred_map comp_def)
  show ?thesis
    using valid_next_run [where tzdb = tzdb and name = "cr_timezone r" and now = now, OF _ days _ tods z] assms(2-4)
    by (auto simp: ints_def strs_def)
qed

lemma or_list_ints: "or_list (ints xs) = ints xs" "or_list (strs ys) = strs ys"
  by (simp_all add: or_list_def ints_def strs_def)

lemma create_schedule_row:
  assumes "create_schedule tzdb now r u d = Inr (s, d')"
  shows "stored s d d' \<and> (schedules_coherent d \<longrightarrow> schedules_coherent d') \<and> sch_is_active s = complete_row s \<and>
    owns_ad d u (sch_ad_id s) \<and> sch_ad_id s = cr_ad_id r \<and>
    owns_account d u (cr_account_id r) \<and> sch_account_id s = Some (cr_account_id r) \<and>
    set (cr_group_ids r) \<subseteq> owned_group_ids d u (Some (cr_account_id r)) (cr_group_ids r) \<and>
    sch_group_ids s = ints (cr_group_ids r)"
proof -
  define complete where "complete = is_schedule_complete (Some (cr_account_id r)) (ints (cr_group_ids r))
      (ints (cr_days_of_week r)) (strs (cr_times_of_day r))"
  define row where "row = (\<lambda>t. \<lparr>sch_id = 0, sch_ad_id = cr_ad_id r, sch_account_id = Some (cr_account_id r),
             sch_group_ids = ints (cr_group_ids r), sch_days_of_week = ints (cr_days_of_week r),
             sch_times_of_day = strs (cr_times_of_day r), sch_timezone = cr_timezone r,
             sch_is_active = complete, sch_next_run_at = t, sch_created_at = now\<rparr>)"
  have row_parts: "sch_ad_id (row t) = cr_ad_id r" "sch_account_id (row t) = Some (cr_account_id r)"
    "sch_is_active (row t) = complete" "sch_group_ids (row t) = ints (cr_group_ids r)" for t
    by (simp_all add: row_def)
  have keep_parts: "sch_ad_id (x\<lparr>sch_id := i\<rparr>) = sch_ad_id x" "sch_account_id (x\<lparr>sch_id := i\<rparr>) = sch_account_id x"
    "sch_is_active (x\<lparr>sch_id := i\<rparr>) = sch_is_active x" "sch_group_ids (x\<lparr>sch_id := i\<rparr>) = sch_group_ids x" for x :: schedule and i
    by simp_all
  obtain c t where c: "validate_create r = Inr c"
    and own: "owns_ad d u (cr_ad_id r)" "owns_account d u (cr_account_id r)"
      "set (cr_group_ids r) \<subseteq> owned_group_ids d u (Some (cr_account_id r)) (cr_group_ids r)"
    and t: "(if complete then compute_next_run_at tzdb (ints (cr_days_of_week r)) (strs (cr_times_of_day r))
              (cr_timezone r) now else Inr None) = Inr t"
    and ins: "insert_schedule (row t) d = Inr (s, d')"
    using assms validated [of r]
    by (auto simp: create_schedule_def Let_def result_simps row_def complete_def split: if_splits)
  have crow: "complete_row (row t) = complete"
    by (simp add: complete_row_def row_def complete_def or_list_ints)
  have "complete \<Longrightarrow> t \<noteq> None" and "\<not> complete \<Longrightarrow> t = None"
    using t validated_next_run [OF c, of tzdb now t]
    by (auto simp: complete_def is_schedule_complete_def ints_def strs_def split: if_splits)
  moreover have "sch_next_run_at (row t) = t" by (simp add: row_def)
  ultimately have "coherent (row t)"
    using crow row_parts(3) [of t] by (cases complete) (simp_all add: coherent_def)
  then have "coherent ((row t)\<lparr>sch_id := sch_id s\<rparr>)" by simp
  note good = insert_coherent [OF ins this]
  have "s = (row t)\<lparr>sch_id := sch_id s\<rparr>"
    using ins by (auto simp: insert_schedule_def Let_def split: if_splits)
  then have "sch_ad_id s = cr_ad_id r" "sch_account_id s = Some (cr_account_id r)" "sch_is_active s = complete"
    "sch_group_ids s = ints (cr_group_ids r)" "complete_row s = complete_row (row t)"
    by (metis row_parts keep_parts complete_row_simps(3))+
  with good own crow show ?thesis by simp
qed


text \<open>Saving a coherent version of a stored row.\<close>

lemma save_row:
  assumes "save_schedule x d = Inr (s, d')" "coherent x" "get_for_user i u d = Some r" "sch_id x = sch_id r"
  shows "s = x \<and> stored s d d' \<and> (schedules_coherent d \<longrightarrow> schedules_coherent d')"
  using save_coherent [OF assms(1,2)] save_stored [OF assms(1,2) _ assms(4) [symmetric]]
    get_for_user_Some [OF assms(3)]
  by blast

lemma update_schedule_row:
  assumes "update_schedule tzdb now i q u d = Inr (s, d')"
  shows "stored s d d' \<and> (schedules_coherent d \<longrightarrow> schedules_coherent d') \<and> sch_id s = i \<and>
    (\<exists>r. get_for_user i u d = Some r \<and> sch_ad_id s = sch_ad_id r \<and> (sch_is_active s \<longrightarrow> sch_is_active r))"
proof -
  obtain c r where r: "get_for_user i u d = Some r"
    and run: "recompute tzdb now (apply_update c r) d = Inr (s, d')"
    using assms by (auto simp: update_schedule_def result_simps split: option.splits if_splits)
  let ?s = "apply_update c r"
  have act: "sch_is_active ?s = sch_is_active r"
    by (simp add: apply_update_def set_field_def split: option.splits)
  have id: "sch_id r = i" using get_for_user_Some [OF r] by simp
  obtain x where x: "save_schedule x d = Inr (s, d')" "coherent x" "sch_id x = sch_id r" "sch_ad_id x = sch_ad_id r"
    "sch_is_active x \<longrightarrow> sch_is_active r"
  proof -
    consider "\<not> complete_row ?s" "save_schedule (?s\<lparr>sch_is_active := False, sch_next_run_at := None\<rparr>) d = Inr (s, d')"
      | t where "complete_row ?s" "sch_is_active ?s" "save_schedule (?s\<lparr>sch_next_run_at := Some t\<rparr>) d = Inr (s, d')"
      | "complete_row ?s" "\<not> sch_is_active ?s" "save_schedule (?s\<lparr>sch_next_run_at := None\<rparr>) d = Inr (s, d')"
      using run by (auto simp: recompute_def result_simps split: if_splits option.splits)
    then show thesis
    proof cases
      case 1
      then show ?thesis by (intro that [OF 1(2)]) (simp_all add: coherent_def)
    next
      case (2 t)
      then show ?thesis using act by (intro that [OF 2(3)]) (simp_all add: coherent_def)
    next
      case 3
      then show ?thesis using act by (intro that [OF 3(3)]) (simp_all add: coherent_def)
    qed
  qed
  from save_row [OF x(1,2) r x(3)] r x id show ?thesis by auto
qed

lemma toggle_schedule_row:
  assumes "toggle_schedule tzdb now i u d = Inr (s, d')"
  shows "stored s d d' \<and> (schedules_coherent d \<longrightarrow> schedules_coherent d') \<and> sch_id s = i \<and>
    (\<exists>r. get_for_user i u d = Some r \<and> sch_ad_id s = sch_ad_id r \<and> sch_is_active s = (\<not> sch_is_active r))"
proof -
  obtain r where r: "get_for_user i u d = Some r"
    using assms by (auto simp: toggle_schedule_def split: option.splits)
  have id: "sch_id r = i" using get_for_user_Some [OF r] by simp
  obtain x where x: "save_schedule x d = Inr (s, d')" "coherent x" "sch_id x = sch_id r" "sch_ad_id x = sch_ad_id r"
    "sch_is_active x = (\<not> sch_is_active r)"
  proof -
    consider "sch_is_active r" "save_schedule (r\<lparr>sch_is_active := False, sch_next_run_at := None\<rparr>) d = Inr (s, d')"
      | t where "\<not> sch_is_active r" "complete_row r"
          "save_schedule (r\<lparr>sch_is_active := True, sch_next_run_at := Some t\<rparr>) d = Inr (s, d')"
      using assms r by (auto simp: toggle_schedule_def result_simps split: if_splits option.splits)
    then show thesis
    proof cases
      case 1
      then show ?thesis by (intro that [OF 1(2)]) (simp_all add: coherent_def)
    next
      case (2 t)
      then show ?thesis by (intro that [OF 2(3)]) (simp_all add: coherent_def)
    qed
  qed
  from save_row [OF x(1,2) r x(3)] r x id show ?thesis by auto
qed

lemma delete_coherent:
  "delete_schedule i u d = Inr d' \<Longrightarrow> schedules_coherent d \<Longrightarrow> schedules_coherent d'"
  by (auto simp: delete_schedule_def schedules_coherent_def distinct_map inj_on_def split: option.splits)

lemma serve_coherent:
  assumes "serve tzdb q d = Inr d'" "schedules_coherent d"
  shows "schedules_coherent d'"
  using assms create_schedule_row update_schedule_row toggle_schedule_row delete_coherent
  by (fastforce simp: serve_def result_simps split: prod.splits schedule_request.splits)

text \<open>A coherent row is never refused by the check constraint, so no handler fails on it.\<close>

lemma save_no_error: "coherent s \<Longrightarrow> save_schedule s d = Inl e \<Longrightarrow> False"
  by (simp add: save_schedule_def coherent_ck)

definition expected_error :: "tzdb \<Rightarrow> exn \<Rightarrow> bool" where
  "expected_error tzdb e \<longleftrightarrow>
     e \<in> {HTTPException 400, HTTPException 404, HTTPException 422, OverflowError} \<or> (\<exists>name. tzdb name = Inl e)"

lemma next_run_or_none_error:
  assumes "next_run_or_none tzdb s now = Inl e"
  shows "e = OverflowError \<or> (\<exists>name. tzdb name = Inl e)"
proof -
  have "compute_next_run_at tzdb (or_list (sch_days_of_week s)) (or_list (sch_times_of_day s)) (sch_timezone s) now = Inl e"
    "e \<notin> UNRUNNABLE_STORED_VALUE_ERRORS"
    using assms by (auto simp: next_run_or_none_def split: sum.splits if_splits)
  with compute_next_run_error [OF this(1)] show ?thesis by (auto simp: unrunnable_iff)
qed

lemma recompute_error:
  assumes "recompute tzdb now s d = Inl e"
  shows "expected_error tzdb e"
proof -
  consider "save_schedule (s\<lparr>sch_is_active := False, sch_next_run_at := None\<rparr>) d = Inl e"
    | "save_schedule (s\<lparr>sch_next_run_at := None\<rparr>) d = Inl e" "\<not> sch_is_active s"
    | t where "save_schedule (s\<lparr>sch_next_run_at := Some t\<rparr>) d = Inl e"
    | "next_run_or_none tzdb s now = Inl e" | "e = HTTPException 400"
    using assms by (auto simp: recompute_def result_simps split: if_splits option.splits)
  then show ?thesis
    by cases (auto simp: save_schedule_def ck_active_requires_next_run_def expected_error_def
        dest: next_run_or_none_error split: if_splits)
qed

lemma toggle_error:
  assumes "toggle_schedule tzdb now i u d = Inl e"
  shows "expected_error tzdb e"
proof -
  consider s where "save_schedule (s\<lparr>sch_is_active := False, sch_next_run_at := None\<rparr>) d = Inl e"
    | s t where "save_schedule (s\<lparr>sch_is_active := True, sch_next_run_at := Some t\<rparr>) d = Inl e"
    | s where "next_run_or_none tzdb s now = Inl e" | "e \<in> {HTTPException 400, HTTPException 404}"
    using assms by (auto simp: toggle_schedule_def result_simps split: if_splits option.splits)
  then show ?thesis
    by cases (auto simp: save_schedule_def ck_active_requires_next_run_def expected_error_def
        dest: next_run_or_none_error split: if_splits)
qed

lemma int_in_ints: "int_in n (ints ds) = Inl e \<Longrightarrow> False"
  by (simp add: ints_def)

lemma valid_times_parse:
  "list_all (\<lambda>v. is_valid_time_of_day (PStr v)) ts \<Longrightarrow> \<exists>T. map_res parse_time (map PStr ts) = Inr T"
  by (rule map_res_total) (auto simp: list_all_iff intro!: valid_time_parses)

lemma create_error:
  assumes "create_schedule tzdb now r u d = Inl e"
  shows "expected_error tzdb e"
proof -
  let ?complete = "is_schedule_complete (Some (cr_account_id r)) (ints (cr_group_ids r))
      (ints (cr_days_of_week r)) (strs (cr_times_of_day r))"
  let ?run = "compute_next_run_at tzdb (ints (cr_days_of_week r)) (strs (cr_times_of_day r)) (cr_timezone r) now"
  consider "e \<in> {HTTPException 404, HTTPException 422}"
    | c where "validate_create r = Inr c" "?complete" "?run = Inl e"
    | c where "validate_create r = Inr c" "?complete" "?run = Inr None"
    using assms validated [of r]
    by (auto simp: create_schedule_def Let_def result_simps insert_schedule_def ck_active_requires_next_run_def
        validate_create_def split: if_splits)
  then show ?thesis
  proof cases
    case (2 c)
    obtain T where T: "map_res parse_time (map PStr (cr_times_of_day r)) = Inr T"
      using valid_times_parse validated [OF 2(1)] by blast
    have "tzdb (cr_timezone r) = Inl e"
      using 2(3) T map_res_error [of "slots_of_day (ints (cr_days_of_week r)) T x" "map int [0..<8]" e for x]
      by (auto simp: compute_next_run_at_def Let_def result_simps strs_def ints_def slots_of_day_def
          dest!: map_res_error split: if_splits)
    then show ?thesis by (auto simp: expected_error_def)
  next
    case (3 c)
    with validated_next_run [OF 3(1,3)] show ?thesis
      by (auto simp: is_schedule_complete_def ints_def strs_def)
  qed (auto simp: expected_error_def)
qed

lemma serve_error:
  assumes "serve tzdb q d = Inl e"
  shows "expected_error tzdb e"
proof -
  obtain now u r where q: "q = (now, u, r)" by (cases q)
  show ?thesis
  proof (cases r)
    case (Update i c)
    have "recompute tzdb now s d = Inl e \<Longrightarrow> expected_error tzdb e" for s by (rule recompute_error)
    with assms q Update show ?thesis
      by (auto simp: serve_def result_simps update_schedule_def validate_update_def expected_error_def
          split: option.splits if_splits)
  next
    case (Delete i)
    with assms q show ?thesis by (auto simp: serve_def delete_schedule_def expected_error_def split: option.splits)
  qed (use assms q create_error toggle_error in \<open>auto simp: serve_def result_simps split: prod.splits\<close>)
qed

text \<open>Rows of other users.\<close>

lemma filter_other_id:
  "(\<And>x. x \<in> set xs \<Longrightarrow> sch_id x = k \<Longrightarrow> \<not> P x) \<Longrightarrow> filter P xs = filter P (filter (\<lambda>r. sch_id r \<noteq> k) xs)"
  by (induction xs) auto

lemma stored_isolated:
  assumes "stored s d d'" "schedules_coherent d'" "owns_ad d u (sch_ad_id s)"
    and "\<And>r. r \<in> set (db_schedules d) \<Longrightarrow> sch_id r = sch_id s \<Longrightarrow> owns_ad d u (sch_ad_id r)"
  shows "filter (\<lambda>r. \<not> owns_ad d u (sch_ad_id r)) (db_schedules d') =
    filter (\<lambda>r. \<not> owns_ad d u (sch_ad_id r)) (db_schedules d)"
proof -
  let ?P = "\<lambda>r. \<not> owns_ad d u (sch_ad_id r)"
  have "x = s" if "x \<in> set (db_schedules d')" "sch_id x = sch_id s" for x
    using assms(1,2) that by (auto simp: schedules_coherent_def stored_def distinct_map dest: inj_onD)
  then have "filter ?P (db_schedules d') = filter ?P (filter (\<lambda>r. sch_id r \<noteq> sch_id s) (db_schedules d'))"
    using assms(3) by (intro filter_other_id) auto
  also have "\<dots> = filter ?P (filter (\<lambda>r. sch_id r \<noteq> sch_id s) (db_schedules d))"
    using assms(1) by (simp add: stored_def)
  also have "\<dots> = filter ?P (db_schedules d)"
    using assms(4) by (intro filter_other_id [symmetric]) auto
  finally show ?thesis .
qed

lemma same_id_owned:
  assumes "schedules_coherent d" "get_for_user i u d = Some r" "x \<in> set (db_schedules d)" "sch_id x = i"
  shows "owns_ad d u (sch_ad_id x)"
proof -
  note r = get_for_user_Some [OF assms(2)]
  with assms(1,3,4) have "x = r" by (auto simp: schedules_coherent_def distinct_map dest: inj_onD)
  with r show ?thesis by simp
qed

lemma create_fresh_id:
  assumes "create_schedule tzdb now r u d = Inr (s, d')"
  shows "x \<in> set (db_schedules d) \<Longrightarrow> sch_id x \<noteq> sch_id s"
proof -
  have "sch_id s = next_id sch_id (db_schedules d)"
    using assms by (auto simp: create_schedule_def Let_def result_simps insert_schedule_def split: if_splits)
  then show "x \<in> set (db_schedules d) \<Longrightarrow> sch_id x \<noteq> sch_id s"
    using next_id_fresh [of x "db_schedules d" sch_id] by simp
qed

lemma serve_isolated:
  assumes "serve tzdb (now, u, r) d = Inr d'" "schedules_coherent d"
  shows "filter (\<lambda>r. \<not> owns_ad d u (sch_ad_id r)) (db_schedules d') =
    filter (\<lambda>r. \<not> owns_ad d u (sch_ad_id r)) (db_schedules d)"
proof (cases r)
  case (Create c)
  then obtain s where "create_schedule tzdb now c u d = Inr (s, d')"
    using assms(1) by (auto simp: serve_def result_simps)
  with create_schedule_row [OF this] create_fresh_id [OF this] assms(2) show ?thesis
    by (intro stored_isolated) auto
next
  case (Update i c)
  then obtain s where s: "update_schedule tzdb now i c u d = Inr (s, d')"
    using assms(1) by (auto simp: serve_def result_simps)
  from update_schedule_row [OF s] obtain q where row: "stored s d d'" "schedules_coherent d'" "sch_id s = i"
      "get_for_user i u d = Some q" "sch_ad_id s = sch_ad_id q" using assms(2) by blast
  then have "owns_ad d u (sch_ad_id s)" using get_for_user_Some by metis
  then show ?thesis
    using row(3) same_id_owned [OF assms(2) row(4)] by (intro stored_isolated [OF row(1,2)]) simp_all
next
  case (Toggle i)
  then obtain s where s: "toggle_schedule tzdb now i u d = Inr (s, d')"
    using assms(1) by (auto simp: serve_def result_simps)
  from toggle_schedule_row [OF s] obtain q where row: "stored s d d'" "schedules_coherent d'" "sch_id s = i"
      "get_for_user i u d = Some q" "sch_ad_id s = sch_ad_id q" using assms(2) by blast
  then have "owns_ad d u (sch_ad_id s)" using get_for_user_Some by metis
  then show ?thesis
    using row(3) same_id_owned [OF assms(2) row(4)] by (intro stored_isolated [OF row(1,2)]) simp_all
next
  case (Delete i)
  then obtain s where s: "get_for_user i u d = Some s"
    "d' = d\<lparr>db_schedules := filter (\<lambda>r. sch_id r \<noteq> sch_id s) (db_schedules d)\<rparr>"
    using assms(1) by (auto simp: serve_def delete_schedule_def split: option.splits)
  have "filter (\<lambda>r. \<not> owns_ad d u (sch_ad_id r)) (db_schedules d) =
      filter (\<lambda>r. \<not> owns_ad d u (sch_ad_id r)) (filter (\<lambda>r. sch_id r \<noteq> sch_id s) (db_schedules d))"
    using same_id_owned [OF assms(2) s(1)] get_for_user_Some [OF s(1)] by (intro filter_other_id) auto
  with s(2) show ?thesis by simp
qed

section \<open>Properties\<close>

text \<open>
  C7: whatever requests are served, in any order and whether they fail or not, every schedule that
  is switched on is complete and has a next run, every one that is switched off has none, and the
  ids stay distinct.
\<close>

theorem schedule_requests_coherent:
  assumes "schedules_coherent d"
  shows "schedules_coherent (serve_all tzdb qs d)"
  using assms
proof (induction qs arbitrary: d)
  case (Cons q qs)
  show ?case
  proof (cases "serve tzdb q d")
    case (Inr d')
    with Cons serve_coherent [OF Inr] show ?thesis by simp
  qed (use Cons in simp)
qed simp

text \<open>
  one request: a refusal is one of 400, 404 and 422, an overflow, or an error of the time zone
  database, so the check constraint of the table never fails a handler; a success leaves the
  schedules of every other user exactly as they were.
\<close>

theorem schedule_request_outcomes:
  assumes "schedules_coherent d"
  shows "case serve tzdb (now, u, r) d of
      Inl e \<Rightarrow> expected_error tzdb e
    | Inr d' \<Rightarrow> filter (\<lambda>s. \<not> owns_ad d u (sch_ad_id s)) (db_schedules d') =
        filter (\<lambda>s. \<not> owns_ad d u (sch_ad_id s)) (db_schedules d)"
  using serve_error serve_isolated [OF _ assms] by (auto split: sum.split)

definition sample_schedule_db :: db where
  "sample_schedule_db = sample_db\<lparr>db_ads := [sample_ad], db_accounts := [sample_account],
     db_groups := [sample_group], db_schedules := [sample_schedule]\<rparr>"

lemma sample_schedule_db_coherent: "schedules_coherent sample_schedule_db"
  by code_simp

theorem schedule_requests_coherent_witness:
  "schedules_coherent (serve_all sample_tzdb [(sample_now, 1, Toggle 1), (sample_now, 1, Toggle 1), (sample_now, 2, Delete 1)]
     sample_schedule_db)"
  by (rule schedule_requests_coherent [OF sample_schedule_db_coherent])

theorem schedule_request_outcomes_witness:
  "\<exists>d'. serve sample_tzdb (sample_now, 1, Toggle 1) sample_schedule_db = Inr d' \<and>
     filter (\<lambda>s. \<not> owns_ad sample_schedule_db 1 (sch_ad_id s)) (db_schedules d') =
     filter (\<lambda>s. \<not> owns_ad sample_schedule_db 1 (sch_ad_id s)) (db_schedules sample_schedule_db)"
proof -
  have "\<not> invalid (serve sample_tzdb (sample_now, 1, Toggle 1) sample_schedule_db)" by code_simp
  then obtain d' where "serve sample_tzdb (sample_now, 1, Toggle 1) sample_schedule_db = Inr d'"
    by (auto simp: invalid_def split: sum.splits)
  with schedule_request_outcomes [OF sample_schedule_db_coherent,
      where tzdb = sample_tzdb and now = sample_now and u = 1 and r = "Toggle 1"]
  show ?thesis by simp
qed

text \<open>
  a created schedule belongs to the user: its advertisement and account are his and every group
  is his and of that account. It is switched on exactly when it is complete, and then its next run
  is the first slot after now in its zone.
\<close>

theorem create_schedule_sound:
  assumes "create_schedule tzdb now r u d = Inr (s, d')"
  shows "owns_ad d u (cr_ad_id r) \<and> owns_account d u (cr_account_id r) \<and>
    set (cr_group_ids r) \<subseteq> owned_group_ids d u (Some (cr_account_id r)) (cr_group_ids r) \<and>
    sch_ad_id s = cr_ad_id r \<and> sch_account_id s = Some (cr_account_id r) \<and> sch_group_ids s = ints (cr_group_ids r) \<and>
    s \<in> set (db_schedules d') \<and>
    sch_is_active s = (cr_group_ids r \<noteq> [] \<and> cr_days_of_week r \<noteq> [] \<and> cr_times_of_day r \<noteq> []) \<and>
    (if sch_is_active s
     then \<exists>z w T. sch_next_run_at s = Some (from_wall z w) \<and> tzdb (cr_timezone r) = Inr z \<and>
        map_res parse_time (map PStr (cr_times_of_day r)) = Inr T \<and>
        next_slot (ints (cr_days_of_week r)) (set T) (to_wall z now) w
     else sch_next_run_at s = None)"
proof -
  note row = create_schedule_row [OF assms]
  obtain c where c: "validate_create r = Inr c" "c = r"
    using assms validated [of r] by (auto simp: create_schedule_def result_simps)
  have acc: "cr_account_id r \<noteq> 0"
    using c(1) by (auto simp: validate_create_def bounded_id_def split: if_splits)
  have s: "sch_days_of_week s = ints (cr_days_of_week r)" "sch_times_of_day s = strs (cr_times_of_day r)"
    "sch_is_active s \<Longrightarrow> compute_next_run_at tzdb (ints (cr_days_of_week r)) (strs (cr_times_of_day r))
       (cr_timezone r) now = Inr (sch_next_run_at s)"
    using assms c
    by (auto simp: create_schedule_def Let_def result_simps insert_schedule_def split: if_splits)
  have active: "sch_is_active s = (cr_group_ids r \<noteq> [] \<and> cr_days_of_week r \<noteq> [] \<and> cr_times_of_day r \<noteq> [])"
    using row acc s by (auto simp: complete_row_def or_list_ints is_schedule_complete_def) (simp_all add: ints_def strs_def)
  have next_at: "\<exists>z w T. sch_next_run_at s = Some (from_wall z w) \<and> tzdb (cr_timezone r) = Inr z \<and>
        map_res parse_time (map PStr (cr_times_of_day r)) = Inr T \<and>
        next_slot (ints (cr_days_of_week r)) (set T) (to_wall z now) w" if act: "sch_is_active s"
  proof -
    obtain t where t: "sch_next_run_at s = Some t"
      using row act by (auto simp: stored_def coherent_def)
    with s(3) [OF act] next_run_slot [of tzdb "ints (cr_days_of_week r)" "strs (cr_times_of_day r)" "cr_timezone r" now t]
    show ?thesis by (auto simp: strs_def)
  qed
  have "\<not> sch_is_active s \<Longrightarrow> sch_next_run_at s = None" using row by (auto simp: stored_def coherent_def)
  with row active next_at show ?thesis by (auto simp: stored_def)
qed

definition sample_request :: create_request where
  "sample_request = \<lparr>cr_ad_id = 1, cr_account_id = 1, cr_group_ids = [1], cr_days_of_week = [0, 2],
     cr_times_of_day = [''09:00''], cr_timezone = ''Europe/Moscow''\<rparr>"

theorem create_schedule_sound_witness:
  "\<exists>s d'. create_schedule sample_tzdb sample_now sample_request 1 sample_schedule_db = Inr (s, d') \<and> sch_is_active s"
proof -
  have "\<not> invalid (create_schedule sample_tzdb sample_now sample_request 1 sample_schedule_db)" by code_simp
  then obtain s d' where run: "create_schedule sample_tzdb sample_now sample_request 1 sample_schedule_db = Inr (s, d')"
    by (auto simp: invalid_def split: sum.splits)
  with create_schedule_sound [OF run] show ?thesis by (simp add: sample_request_def)
qed

end
