(* ===== verification/Sessions.thy ===== *)
theory Sessions
  imports Subscriptions Web_Reply "HOL-Library.AList"
begin

text \<open>
  Who is asking: the session tokens of \<open>app/services/auth_service.py\<close>, the request dependencies
  of \<open>app/dependencies.py\<close>, the reader of the session cookie in \<open>app/pages/common.py\<close> and the
  access gate of \<open>app/pages/__init__.py\<close>. An administrator may enter the account of a user: the
  token then names the user as its subject and the administrator as the acting person.

  The signing library is an argument: encoding claims under a key, and decoding a token at a moment,
  which raises \<open>JWTError\<close> for a token it does not accept. A dictionary of claims is an
  association list in insertion order; the moment of expiry stands in it as the whole seconds the
  library writes. The text of a refusal is left out, its status is kept.
\<close>

section \<open>Tokens\<close>

type_synonym claims = "(string \<times> pyval) list"

record jwt_lib =
  jwt_encode :: "claims \<Rightarrow> string \<Rightarrow> string"
  jwt_decode :: "int \<Rightarrow> string \<Rightarrow> string \<Rightarrow> exn + claims"

definition ACCESS_EXPIRE_MINUTES :: int where "ACCESS_EXPIRE_MINUTES = 1440"
definition IMPERSONATION_EXPIRE_MINUTES :: int where "IMPERSONATION_EXPIRE_MINUTES = 60"

definition minutes_us :: int where "minutes_us = 60000000"

definition expiry_claim :: "int \<Rightarrow> int \<Rightarrow> pyval" where
  "expiry_claim now minutes = PInt ((now + minutes * minutes_us) div 1000000)"

definition access_claims :: "int \<Rightarrow> int \<Rightarrow> int \<Rightarrow> int option \<Rightarrow> claims" where
  "access_claims now uid minutes actor =
     [(''sub'', PStr (int_str uid)), (''exp'', expiry_claim now minutes)] @
     (case actor of None \<Rightarrow> [] | Some a \<Rightarrow> [(''act'', PDict [(''sub'', PStr (int_str a))])])"

definition create_access_token :: "jwt_lib \<Rightarrow> int \<Rightarrow> int \<Rightarrow> string \<Rightarrow> int \<Rightarrow> int option \<Rightarrow> string" where
  "create_access_token lib now uid key minutes actor = jwt_encode lib (access_claims now uid minutes actor) key"

text \<open>\<open>int(v)\<close>.\<close>

fun py_int_of :: "pyval \<Rightarrow> exn + int" where
  "py_int_of (PInt n) = Inr n"
| "py_int_of (PBool b) = Inr (if b then 1 else 0)"
| "py_int_of (PStr s) = (case py_int s of None \<Rightarrow> Inl ValueError | Some n \<Rightarrow> Inr n)"
| "py_int_of _ = Inl TypeError"

definition dict_get :: "claims \<Rightarrow> string \<Rightarrow> pyval" where
  "dict_get kvs k = (case map_of kvs k of None \<Rightarrow> PNone | Some v \<Rightarrow> v)"

text \<open>
  The claim of the acting person may be a dictionary or a bare number; what is not a number is
  dropped, and a Boolean is not one.
\<close>

definition actor_raw :: "pyval \<Rightarrow> pyval" where
  "actor_raw claim =
     (let raw = (case claim of PDict kvs \<Rightarrow> dict_get kvs ''sub'' | _ \<Rightarrow> claim)
      in case raw of PBool b \<Rightarrow> PNone | _ \<Rightarrow> raw)"

definition normal_actor :: "claims \<Rightarrow> claims" where
  "normal_actor payload =
     (case map_of payload ''act'' of
        None \<Rightarrow> payload
      | Some claim \<Rightarrow>
          (case py_int_of (actor_raw claim) of
             Inr m \<Rightarrow> AList.update ''act'' (PDict [(''sub'', PInt m)]) payload
           | Inl _ \<Rightarrow> AList.delete ''act'' payload))"

definition decode_access_token :: "jwt_lib \<Rightarrow> int \<Rightarrow> string \<Rightarrow> string \<Rightarrow> exn + claims option" where
  "decode_access_token lib now token key =
     (case bind_res (jwt_decode lib now token key) (\<lambda>payload.
             bind_res (case map_of payload ''sub'' of None \<Rightarrow> Inl KeyError | Some v \<Rightarrow> py_int_of v) (\<lambda>n.
               Inr (AList.update ''sub'' (PInt n) payload))) of
        Inl e \<Rightarrow> if e \<in> {JWTError, KeyError, ValueError} then Inr None else Inl e
      | Inr payload \<Rightarrow> Inr (Some (normal_actor payload)))"

text \<open>After decoding, the subject and the acting person are numbers.\<close>

definition subject :: "claims \<Rightarrow> exn + int" where
  "subject payload = (case map_of payload ''sub'' of None \<Rightarrow> Inl KeyError | Some v \<Rightarrow> py_int_of v)"

definition actor_id :: "claims option \<Rightarrow> int option" where
  "actor_id payload =
     (case payload of
        None \<Rightarrow> None
      | Some kvs \<Rightarrow>
          (case map_of kvs ''act'' of
             Some (PDict claim) \<Rightarrow> (case map_of claim ''sub'' of Some (PInt m) \<Rightarrow> Some m | _ \<Rightarrow> None)
           | _ \<Rightarrow> None))"

definition verification_claims :: "int \<Rightarrow> string \<Rightarrow> bool \<Rightarrow> int \<Rightarrow> string \<Rightarrow> claims" where
  "verification_claims now email verified minutes purpose =
     [(''email'', PStr email), (''verified'', PBool verified), (''exp'', expiry_claim now minutes),
      (''purpose'', PStr purpose)]"

definition create_verification_token :: "jwt_lib \<Rightarrow> int \<Rightarrow> string \<Rightarrow> string \<Rightarrow> bool \<Rightarrow> string \<Rightarrow> string" where
  "create_verification_token lib now email key verified purpose =
     jwt_encode lib (verification_claims now email verified 30 purpose) key"

definition decode_verification_token :: "jwt_lib \<Rightarrow> int \<Rightarrow> string \<Rightarrow> string \<Rightarrow> exn + claims option" where
  "decode_verification_token lib now token key =
     (case jwt_decode lib now token key of
        Inl e \<Rightarrow> if e \<in> {JWTError, KeyError, ValueError} then Inr None else Inl e
      | Inr payload \<Rightarrow>
          Inr (if dict_get payload ''purpose'' \<in> {PStr ''email_verification'', PStr ''password_reset''}
               then Some payload else None))"

section \<open>The dependencies of a request\<close>

record auth_settings =
  as_secret_key :: string
  as_admin_email :: "string option"
  as_cookie_secure :: bool
  as_smtp_host :: "string option"
  as_access_token_minutes :: int

definition bearer_of_header :: "http_request \<Rightarrow> string option" where
  "bearer_of_header rq =
     (case header rq ''authorization'' of
        None \<Rightarrow> None
      | Some h \<Rightarrow> if starts_with h ''Bearer '' then Some (drop 7 h) else None)"

definition get_current_user_id :: "jwt_lib \<Rightarrow> auth_settings \<Rightarrow> int \<Rightarrow> http_request \<Rightarrow> exn + int" where
  "get_current_user_id lib cfg now rq =
     (case (case rq_bearer rq of Some t \<Rightarrow> Some t | None \<Rightarrow> rq_session_cookie rq) of
        None \<Rightarrow> Inl (HTTPException 401)
      | Some token \<Rightarrow>
          bind_res (decode_access_token lib now token (as_secret_key cfg)) (\<lambda>payload.
            case payload of None \<Rightarrow> Inl (HTTPException 401) | Some p \<Rightarrow> subject p))"

definition get_current_user :: "jwt_lib \<Rightarrow> auth_settings \<Rightarrow> int \<Rightarrow> http_request \<Rightarrow> db \<Rightarrow> exn + user" where
  "get_current_user lib cfg now rq d =
     (case (case bearer_of_header rq of Some t \<Rightarrow> Some t | None \<Rightarrow> rq_session_cookie rq) of
        None \<Rightarrow> Inl (HTTPException 401)
      | Some token \<Rightarrow>
          bind_res (decode_access_token lib now token (as_secret_key cfg)) (\<lambda>payload.
            case payload of
              None \<Rightarrow> Inl (HTTPException 401)
            | Some p \<Rightarrow>
                bind_res (subject p) (\<lambda>n.
                  case find_row user_id n (db_users d) of
                    None \<Rightarrow> Inl (HTTPException 401)
                  | Some u \<Rightarrow> if user_is_blocked u then Inl (HTTPException 403) else Inr u)))"

definition email_is_admin :: "string \<Rightarrow> auth_settings \<Rightarrow> bool" where
  "email_is_admin email cfg =
     (case as_admin_email cfg of None \<Rightarrow> False | Some e \<Rightarrow> e \<noteq> [] \<and> email = e)"

text \<open>Every token the request presents, in the order it is asked for.\<close>

definition presented_tokens :: "http_request \<Rightarrow> string list" where
  "presented_tokens rq =
     (let tokens = (case rq_bearer rq of None \<Rightarrow> [] | Some t \<Rightarrow> [t]);
          tokens = (case bearer_of_header rq of
                      None \<Rightarrow> tokens | Some t \<Rightarrow> if t \<in> set tokens then tokens else tokens @ [t])
      in case rq_session_cookie rq of
           None \<Rightarrow> tokens
         | Some t \<Rightarrow> if t \<noteq> [] \<and> t \<notin> set tokens then tokens @ [t] else tokens)"

fun first_actor :: "jwt_lib \<Rightarrow> auth_settings \<Rightarrow> int \<Rightarrow> string list \<Rightarrow> exn + int option" where
  "first_actor lib cfg now [] = Inr None"
| "first_actor lib cfg now (t # ts) =
     bind_res (decode_access_token lib now t (as_secret_key cfg)) (\<lambda>payload.
       case actor_id payload of Some m \<Rightarrow> Inr (Some m) | None \<Rightarrow> first_actor lib cfg now ts)"

definition request_actor :: "jwt_lib \<Rightarrow> auth_settings \<Rightarrow> int \<Rightarrow> http_request \<Rightarrow> exn + int option" where
  "request_actor lib cfg now rq = first_actor lib cfg now (presented_tokens rq)"

definition require_admin :: "jwt_lib \<Rightarrow> auth_settings \<Rightarrow> int \<Rightarrow> http_request \<Rightarrow> db \<Rightarrow> exn + user" where
  "require_admin lib cfg now rq d =
     bind_res (request_actor lib cfg now rq) (\<lambda>acting_id.
       case acting_id of
         Some m \<Rightarrow>
           (case find_row user_id m (db_users d) of
              None \<Rightarrow> Inl (HTTPException 401)
            | Some actor \<Rightarrow>
                if user_is_blocked actor \<or> \<not> email_is_admin (user_email actor) cfg
                then Inl (HTTPException 403) else Inr actor)
       | None \<Rightarrow>
           bind_res (get_current_user lib cfg now rq d) (\<lambda>u.
             if \<not> email_is_admin (user_email u) cfg then Inl (HTTPException 403) else Inr u))"

definition get_current_user_id_with_access ::
  "jwt_lib \<Rightarrow> auth_settings \<Rightarrow> int \<Rightarrow> http_request \<Rightarrow> db \<Rightarrow> exn + int" where
  "get_current_user_id_with_access lib cfg now rq d =
     bind_res (get_current_user_id lib cfg now rq) (\<lambda>uid.
       if \<not> fst (check_access now uid d) then Inl (HTTPException 402) else Inr uid)"

definition get_current_user_id_active ::
  "jwt_lib \<Rightarrow> auth_settings \<Rightarrow> int \<Rightarrow> http_request \<Rightarrow> db \<Rightarrow> exn + int" where
  "get_current_user_id_active lib cfg now rq d =
     bind_res (get_current_user_id lib cfg now rq) (\<lambda>uid.
       bind_res (request_actor lib cfg now rq) (\<lambda>acting_id.
         if acting_id \<noteq> None then Inr uid
         else case find_row user_id uid (db_users d) of
                None \<Rightarrow> Inl (HTTPException 401)
              | Some u \<Rightarrow> if user_is_blocked u then Inl (HTTPException 403) else Inr uid))"

text \<open>The refusal of a dependency: the same verdict over two transports.\<close>

definition refuse :: "http_request \<Rightarrow> string \<Rightarrow> exn \<Rightarrow> exn + 'a" where
  "refuse rq location without_htmx = Inl (if is_htmx rq then HtmxRefusal location else without_htmx)"

definition IMPERSONATION_REFUSED_LOCATION :: string where
  "IMPERSONATION_REFUSED_LOCATION = ''/dashboard?notice=impersonation_forbidden''"

definition forbid_when_impersonating :: "jwt_lib \<Rightarrow> auth_settings \<Rightarrow> int \<Rightarrow> http_request \<Rightarrow> exn + unit" where
  "forbid_when_impersonating lib cfg now rq =
     bind_res (request_actor lib cfg now rq) (\<lambda>acting_id.
       if acting_id = None then Inr ()
       else refuse rq IMPERSONATION_REFUSED_LOCATION (HTTPException 403))"

section \<open>The reader of the session cookie\<close>

text \<open>The user a page is shown to, with the acting person when there is one.\<close>

record page_user =
  pu_user :: user
  pu_actor :: "user option"

definition get_user_from_cookie ::
  "jwt_lib \<Rightarrow> auth_settings \<Rightarrow> int \<Rightarrow> http_request \<Rightarrow> db \<Rightarrow> exn + page_user option" where
  "get_user_from_cookie lib cfg now rq d =
     (case rq_session_cookie rq of
        None \<Rightarrow> Inr None
      | Some token \<Rightarrow>
          if token = [] then Inr None
          else
            bind_res (decode_access_token lib now token (as_secret_key cfg)) (\<lambda>payload.
              case payload of
                None \<Rightarrow> Inr None
              | Some p \<Rightarrow>
                  if p = [] then Inr None
                  else
                    bind_res (subject p) (\<lambda>n.
                      case find_row user_id n (db_users d) of
                        None \<Rightarrow> Inr None
                      | Some u \<Rightarrow>
                          let actor = Option.bind (actor_id payload) (\<lambda>m. find_row user_id m (db_users d))
                          in Inr (if actor = None \<and> user_is_blocked u then None
                                  else Some \<lparr>pu_user = u, pu_actor = actor\<rparr>))))"

definition actor_of :: "page_user option \<Rightarrow> user option" where
  "actor_of pu = (case pu of None \<Rightarrow> None | Some p \<Rightarrow> pu_actor p)"

definition check_is_admin :: "page_user option \<Rightarrow> auth_settings \<Rightarrow> bool" where
  "check_is_admin pu cfg =
     (case (case actor_of pu of Some a \<Rightarrow> Some a | None \<Rightarrow> map_option pu_user pu) of
        None \<Rightarrow> False
      | Some a \<Rightarrow> email_is_admin (user_email a) cfg)"

definition ACCESS_EXPIRED_LOCATION :: string where
  "ACCESS_EXPIRED_LOCATION = ''/billing?expired=1''"

definition require_access :: "jwt_lib \<Rightarrow> auth_settings \<Rightarrow> int \<Rightarrow> http_request \<Rightarrow> db \<Rightarrow> exn + unit" where
  "require_access lib cfg now rq d =
     bind_res (get_user_from_cookie lib cfg now rq d) (\<lambda>pu.
       case pu of
         None \<Rightarrow> Inr ()
       | Some p \<Rightarrow>
           if \<not> access_is_open
                 (latest_row (\<lambda>s. instant (sub_expires_at s)) (active_rows (user_id (pu_user p)) d)) (utc_datetime now)
           then refuse rq ACCESS_EXPIRED_LOCATION (HTTPException 302)
           else Inr ())"

text \<open>The guards of the JSON interface, in the order the application declares them.\<close>

definition api_gate :: "jwt_lib \<Rightarrow> auth_settings \<Rightarrow> int \<Rightarrow> http_request \<Rightarrow> db \<Rightarrow> exn + int" where
  "api_gate lib cfg now rq d =
     bind_res (get_current_user_id_active lib cfg now rq d) (\<lambda>_.
       get_current_user_id_with_access lib cfg now rq d)"

section \<open>What a decoded token holds\<close>

lemma py_int_int_str: "py_int (int_str n) = Some n"
proof (cases "n < 0")
  case True
  have space: "\<not> is_space c" if "c \<in> set (CHR ''-'' # nat_str (nat (- n)))" for c
    using that digit_not_space [OF nat_str_digits] by (cases "c = CHR ''-''") (auto simp: is_space_def)
  have "strip (CHR ''-'' # nat_str (nat (- n))) = CHR ''-'' # nat_str (nat (- n))"
    by (rule strip_no_space) (rule space)
  with True show ?thesis by (simp add: int_str_def py_int_def int_digits_nat_str)
next
  case False
  then show ?thesis by (simp add: int_str_def py_int_nat_str)
qed

lemma dict_get_Cons: "dict_get ((k, v) # kvs) k' = (if k = k' then v else dict_get kvs k')"
  by (simp add: dict_get_def)

lemma map_of_normal_actor:
  "k \<noteq> ''act'' \<Longrightarrow> map_of (normal_actor p) k = map_of p k"
  by (auto simp: normal_actor_def update_conv' delete_conv' split: option.splits sum.splits)

lemma normal_actor_act:
  "map_of (normal_actor p) ''act'' =
     (case map_of p ''act'' of
        None \<Rightarrow> None
      | Some claim \<Rightarrow> (case py_int_of (actor_raw claim) of Inl _ \<Rightarrow> None | Inr m \<Rightarrow> Some (PDict [(''sub'', PInt m)])))"
  by (auto simp: normal_actor_def update_conv' delete_conv' split: option.splits sum.splits)

text \<open>Whatever the library accepts, the subject of the result is a number.\<close>

lemma decoded_subject:
  assumes "decode_access_token lib now token key = Inr (Some p)"
  shows "\<exists>n. map_of p ''sub'' = Some (PInt n) \<and> subject p = Inr n \<and> p \<noteq> []"
proof -
  obtain payload n where "p = normal_actor (AList.update ''sub'' (PInt n) payload)"
    using assms by (auto simp: decode_access_token_def bind_res_eq_Inr split: sum.splits if_splits)
  then have "map_of p ''sub'' = Some (PInt n)" by (simp add: map_of_normal_actor update_conv')
  then show ?thesis by (auto simp: subject_def)
qed

lemma actor_id_simps [simp]:
  "actor_id None = None" "actor_id (Some []) = None"
  by (simp_all add: actor_id_def)

lemma first_actor_None:
  "first_actor lib cfg now ts = Inr None \<longleftrightarrow>
     (\<forall>t \<in> set ts. \<exists>p. decode_access_token lib now t (as_secret_key cfg) = Inr p \<and> actor_id p = None)"
  by (induction ts) (auto simp: bind_res_eq_Inr split: option.splits)

lemma first_actor_Some:
  "first_actor lib cfg now ts = Inr (Some m) \<Longrightarrow>
     \<exists>t \<in> set ts. \<exists>p. decode_access_token lib now t (as_secret_key cfg) = Inr p \<and> actor_id p = Some m"
  by (induction ts) (auto simp: bind_res_eq_Inr split: option.splits)

lemma email_is_admin_iff: "email_is_admin e cfg \<longleftrightarrow> as_admin_email cfg = Some e \<and> e \<noteq> []"
  by (auto simp: email_is_admin_def split: option.splits)

lemma current_user_row:
  "get_current_user lib cfg now rq d = Inr u \<Longrightarrow> u \<in> set (db_users d) \<and> \<not> user_is_blocked u"
  by (auto simp: get_current_user_def bind_res_eq_Inr dest!: find_row_Some split: option.splits if_splits)

lemma require_admin_cases:
  assumes "require_admin lib cfg now rq d = Inr a"
  obtains (actor) m where "request_actor lib cfg now rq = Inr (Some m)" "find_row user_id m (db_users d) = Some a"
      "\<not> user_is_blocked a" "email_is_admin (user_email a) cfg"
    | (own) "request_actor lib cfg now rq = Inr None" "get_current_user lib cfg now rq d = Inr a"
      "email_is_admin (user_email a) cfg"
proof -
  obtain acting where acting: "request_actor lib cfg now rq = Inr acting"
    using assms by (auto simp: require_admin_def bind_res_eq_Inr)
  show ?thesis
  proof (cases acting)
    case None
    with assms acting show ?thesis by (intro own) (auto simp: require_admin_def bind_res_eq_Inr split: if_splits)
  next
    case (Some m)
    with assms acting show ?thesis by (intro actor [of m]) (auto simp: require_admin_def split: option.splits if_splits)
  qed
qed

lemma require_admin_row:
  assumes "require_admin lib cfg now rq d = Inr a"
  shows "a \<in> set (db_users d) \<and> \<not> user_is_blocked a"
  using assms
  by (cases rule: require_admin_cases) (auto dest: find_row_Some current_user_row)

text \<open>Every reader of an identity reads a presented token.\<close>

lemma presented:
  "rq_bearer rq = Some t \<Longrightarrow> t \<in> set (presented_tokens rq)"
  "bearer_of_header rq = Some t \<Longrightarrow> t \<in> set (presented_tokens rq)"
  "rq_session_cookie rq = Some t \<Longrightarrow> t \<noteq> [] \<Longrightarrow> t \<in> set (presented_tokens rq)"
  by (auto simp: presented_tokens_def Let_def split: option.splits if_splits)

text \<open>The library gives back, at a later moment, the claims it was given.\<close>

definition jwt_returns :: "jwt_lib \<Rightarrow> int \<Rightarrow> string \<Rightarrow> claims \<Rightarrow> bool" where
  "jwt_returns lib later key claims \<longleftrightarrow> jwt_decode lib later (jwt_encode lib claims key) key = Inr claims"

lemma session_token_decodes:
  assumes "jwt_returns lib later key (access_claims now uid minutes act)"
  defines "token \<equiv> create_access_token lib now uid key minutes act"
  shows "\<exists>p. decode_access_token lib later token key = Inr (Some p) \<and> subject p = Inr uid \<and> actor_id (Some p) = act"
    and "decode_verification_token lib later token key = Inr None"
proof -
  note [simp] = py_int_int_str assms(1) [unfolded jwt_returns_def]
  have sub: "map_of (access_claims now uid minutes act) ''sub'' = Some (PStr (int_str uid))"
    by (simp add: access_claims_def)
  have act: "map_of (access_claims now uid minutes act) ''act'' = map_option (\<lambda>a. PDict [(''sub'', PStr (int_str a))]) act"
    by (cases act) (auto simp: access_claims_def)
  let ?p = "normal_actor (AList.update ''sub'' (PInt uid) (access_claims now uid minutes act))"
  have "map_of ?p ''act'' = map_option (\<lambda>a. PDict [(''sub'', PInt a)]) act"
    using act by (cases act) (simp_all add: normal_actor_act update_conv' actor_raw_def dict_get_def)
  then have "actor_id (Some ?p) = act" by (cases act) (simp_all add: actor_id_def)
  moreover have "decode_access_token lib later token key = Inr (Some ?p)"
    by (simp add: token_def create_access_token_def decode_access_token_def sub)
  moreover have "subject ?p = Inr uid" by (simp add: subject_def map_of_normal_actor update_conv')
  ultimately show "\<exists>p. decode_access_token lib later token key = Inr (Some p) \<and>
      subject p = Inr uid \<and> actor_id (Some p) = act" by blast
  have "dict_get (access_claims now uid minutes act) ''purpose'' = PNone"
    by (cases act) (simp_all add: access_claims_def dict_get_def)
  then show "decode_verification_token lib later token key = Inr None"
    by (simp add: token_def create_access_token_def decode_verification_token_def)
qed

lemma verification_token_decodes:
  assumes "jwt_returns lib later key (verification_claims now email verified 30 purpose)"
    and "purpose \<in> {''email_verification'', ''password_reset''}"
  defines "token \<equiv> create_verification_token lib now email key verified purpose"
  shows "decode_verification_token lib later token key = Inr (Some (verification_claims now email verified 30 purpose))"
    and "decode_access_token lib later token key = Inr None"
proof -
  note [simp] = assms(1) [unfolded jwt_returns_def]
  have "dict_get (verification_claims now email verified 30 purpose) ''purpose'' = PStr purpose"
    by (simp add: verification_claims_def dict_get_def)
  with assms(2) show "decode_verification_token lib later token key =
      Inr (Some (verification_claims now email verified 30 purpose))"
    by (auto simp: token_def create_verification_token_def decode_verification_token_def)
  have "map_of (verification_claims now email verified 30 purpose) ''sub'' = None"
    by (simp add: verification_claims_def)
  then show "decode_access_token lib later token key = Inr None"
    by (simp add: token_def create_verification_token_def decode_access_token_def)
qed

section \<open>Properties\<close>

text \<open>
  C17: as long as the library returns the claims of the tokens this application signs, a session
  token reads back as the user and the acting person it was made for, a verification token as the
  email, the state and the purpose it was made for, and neither is ever taken for the other kind.
\<close>

theorem token_roundtrip:
  assumes "jwt_returns lib later key (access_claims now uid minutes act)"
    and "jwt_returns lib later key (verification_claims now email verified 30 purpose)"
    and "purpose \<in> {''email_verification'', ''password_reset''}"
  shows "let session = create_access_token lib now uid key minutes act;
             verification = create_verification_token lib now email key verified purpose
         in (\<exists>p. decode_access_token lib later session key = Inr (Some p) \<and>
               subject p = Inr uid \<and> actor_id (Some p) = act) \<and>
            (\<exists>p. decode_verification_token lib later verification key = Inr (Some p) \<and>
               dict_get p ''email'' = PStr email \<and> dict_get p ''verified'' = PBool verified \<and>
               dict_get p ''purpose'' = PStr purpose) \<and>
            decode_verification_token lib later session key = Inr None \<and>
            decode_access_token lib later verification key = Inr None"
  using session_token_decodes [OF assms(1)] verification_token_decodes [OF assms(2,3)]
  by (simp add: Let_def) (simp add: verification_claims_def dict_get_def)

text \<open>
  C18: what is forbidden to an administrator inside the account of a user stays forbidden however
  the tokens are presented: when one of them names an acting person the guard refuses, and when it
  lets the request pass, whoever reads an identity from it, the cookie, the header or the bearer,
  reads one without an acting person.
\<close>

theorem impersonation_cannot_pass:
  assumes guard: "forbid_when_impersonating lib cfg now rq = Inr ()"
  shows "request_actor lib cfg now rq = Inr None \<and>
    (\<forall>t p. t \<in> set (presented_tokens rq) \<and> decode_access_token lib now t (as_secret_key cfg) = Inr p \<longrightarrow> actor_id p = None) \<and>
    (\<forall>pu. get_user_from_cookie lib cfg now rq d = Inr (Some pu) \<longrightarrow> pu_actor pu = None \<and> \<not> user_is_blocked (pu_user pu))"
proof -
  have none: "request_actor lib cfg now rq = Inr None"
    using guard by (auto simp: forbid_when_impersonating_def bind_res_eq_Inr refuse_def split: if_splits)
  then have all: "actor_id p = None"
    if "t \<in> set (presented_tokens rq)" "decode_access_token lib now t (as_secret_key cfg) = Inr p" for t p
    using that by (auto simp: request_actor_def first_actor_None)
  have "pu_actor pu = None \<and> \<not> user_is_blocked (pu_user pu)"
    if "get_user_from_cookie lib cfg now rq d = Inr (Some pu)" for pu
  proof -
    obtain t payload where t: "rq_session_cookie rq = Some t" "t \<noteq> []"
      "decode_access_token lib now t (as_secret_key cfg) = Inr payload"
      using \<open>get_user_from_cookie lib cfg now rq d = Inr (Some pu)\<close>
      by (auto simp: get_user_from_cookie_def bind_res_eq_Inr split: option.splits if_splits)
    with all [OF presented(3)] have "actor_id payload = None" by simp
    with \<open>get_user_from_cookie lib cfg now rq d = Inr (Some pu)\<close> t show ?thesis
      by (auto simp: get_user_from_cookie_def bind_res_eq_Inr Let_def split: option.splits if_splits)
  qed
  with none all show ?thesis by blast
qed

text \<open>
  the administrator's pages open for one person only: a user who is not blocked and whose
  address is the configured one, who is the acting person the request names, or, when it names none,
  the bearer of its token. Without a configured address they open for nobody.
\<close>

theorem admin_is_the_actor:
  assumes "require_admin lib cfg now rq d = Inr a"
  shows "a \<in> set (db_users d) \<and> \<not> user_is_blocked a \<and> as_admin_email cfg = Some (user_email a) \<and> user_email a \<noteq> [] \<and>
    (request_actor lib cfg now rq = Inr (Some (user_id a)) \<or>
     request_actor lib cfg now rq = Inr None \<and> get_current_user lib cfg now rq d = Inr a)"
  using assms
proof (cases rule: require_admin_cases)
  case (actor m)
  with find_row_Some [OF actor(2)] show ?thesis by (simp add: email_is_admin_iff)
next
  case own
  with current_user_row [OF own(2)] show ?thesis by (simp add: email_is_admin_iff)
qed

text \<open>
  C19: a blocked user is shut out with every token of its own: the cookie reads as nobody, and the
  JSON interface and the administrator's pages refuse with 401 or 403.
\<close>

theorem blocked_user_shut_out:
  assumes row: "find_row user_id uid (db_users d) = Some u" "user_is_blocked u"
    and own: "\<And>t. t \<in> set (presented_tokens rq) \<Longrightarrow> \<exists>p. decode_access_token lib now t (as_secret_key cfg) = Inr (Some p) \<and>
        subject p = Inr uid \<and> actor_id (Some p) = None"
    and cookie: "rq_session_cookie rq \<noteq> Some []"
  shows "get_user_from_cookie lib cfg now rq d = Inr None \<and>
    api_gate lib cfg now rq d \<in> {Inl (HTTPException 401), Inl (HTTPException 403)} \<and>
    get_current_user lib cfg now rq d \<in> {Inl (HTTPException 401), Inl (HTTPException 403)} \<and>
    require_admin lib cfg now rq d \<in> {Inl (HTTPException 401), Inl (HTTPException 403)}"
proof -
  have none: "request_actor lib cfg now rq = Inr None"
    unfolding request_actor_def first_actor_None using own by blast
  have page: "get_user_from_cookie lib cfg now rq d = Inr None"
  proof (cases "rq_session_cookie rq")
    case (Some t)
    with cookie own [OF presented(3)] row show ?thesis by (force simp: get_user_from_cookie_def Let_def)
  qed (simp add: get_user_from_cookie_def)
  have user: "get_current_user lib cfg now rq d \<in> {Inl (HTTPException 401), Inl (HTTPException 403)}"
  proof (cases "case bearer_of_header rq of Some t \<Rightarrow> Some t | None \<Rightarrow> rq_session_cookie rq")
    case (Some t)
    then have "t \<in> set (presented_tokens rq)" using cookie by (auto intro: presented split: option.splits)
    with own [OF this] Some row show ?thesis by (auto simp: get_current_user_def)
  qed (auto simp: get_current_user_def split: option.splits)
  have "get_current_user_id lib cfg now rq \<in> {Inr uid, Inl (HTTPException 401)}"
  proof (cases "case rq_bearer rq of Some t \<Rightarrow> Some t | None \<Rightarrow> rq_session_cookie rq")
    case (Some t)
    then have "t \<in> set (presented_tokens rq)" using cookie by (auto intro: presented split: option.splits)
    with own [OF this] Some show ?thesis by (auto simp: get_current_user_id_def)
  qed (auto simp: get_current_user_id_def split: option.splits)
  with none row have "api_gate lib cfg now rq d \<in> {Inl (HTTPException 401), Inl (HTTPException 403)}"
    by (auto simp: api_gate_def get_current_user_id_active_def)
  moreover have "require_admin lib cfg now rq d \<in> {Inl (HTTPException 401), Inl (HTTPException 403)}"
    using none user by (auto simp: require_admin_def)
  ultimately show ?thesis using page user by simp
qed

text \<open>
  the pages and the JSON interface let the same sessions in: for a session cookie whose acting
  person, if it names one, exists, a page opens for a user exactly when the guards of the JSON
  interface pass, and then both serve the same user.
\<close>

theorem page_and_api_gates_agree:
  assumes only_cookie: "rq_bearer rq = None" "bearer_of_header rq = None" "rq_session_cookie rq = Some t" "t \<noteq> []"
    and decodes: "decode_access_token lib now t (as_secret_key cfg) = Inr payload"
    and actor_exists: "\<And>m. actor_id payload = Some m \<Longrightarrow> find_row user_id m (db_users d) \<noteq> None"
    and owned: "\<And>s. s \<in> set (db_subscriptions d) \<Longrightarrow> user_exists d (sub_user_id s)"
  shows "(\<exists>pu. get_user_from_cookie lib cfg now rq d = Inr (Some pu) \<and> user_id (pu_user pu) = n \<and>
            require_access lib cfg now rq d = Inr ()) \<longleftrightarrow> api_gate lib cfg now rq d = Inr n"
proof (cases payload)
  case None
  with assms show ?thesis by (simp add: get_user_from_cookie_def api_gate_def get_current_user_id_active_def get_current_user_id_def)
next
  case (Some p)
  obtain k where k: "subject p = Inr k" "p \<noteq> []" using decoded_subject decodes Some by blast
  have tokens: "presented_tokens rq = [t]"
    using only_cookie by (simp add: presented_tokens_def)
  have uid: "get_current_user_id lib cfg now rq = Inr k"
    using only_cookie decodes Some k by (simp add: get_current_user_id_def)
  have actor: "request_actor lib cfg now rq = Inr (actor_id payload)"
    using decodes by (simp add: request_actor_def tokens split: option.splits)
  show ?thesis
  proof (cases "find_row user_id k (db_users d)")
    case None
    then have "\<not> user_exists d k" by (auto simp: user_exists_def find_row_None list_ex_iff)
    then have "active_rows k d = []" using owned by (auto simp: active_rows_def filter_empty_conv)
    then have "\<not> fst (check_access now k d)" by (simp add: check_access_def access_is_open_def)
    with None k Some only_cookie decodes uid actor show ?thesis
      by (simp add: get_user_from_cookie_def api_gate_def get_current_user_id_active_def get_current_user_id_with_access_def)
  next
    case (Some u)
    define a where "a = Option.bind (actor_id payload) (\<lambda>m. find_row user_id m (db_users d))"
    have a: "a = None \<longleftrightarrow> actor_id payload = None"
      using actor_exists by (cases "actor_id payload") (auto simp: a_def)
    have page: "get_user_from_cookie lib cfg now rq d =
        Inr (if actor_id payload = None \<and> user_is_blocked u then None else Some \<lparr>pu_user = u, pu_actor = a\<rparr>)"
      using Some \<open>payload = Some p\<close> k only_cookie decodes a by (simp add: get_user_from_cookie_def Let_def a_def)
    have "user_id u = k" using find_row_Some [OF Some] by simp
    then show ?thesis
      using page uid actor Some
      by (auto simp: require_access_def refuse_def api_gate_def get_current_user_id_active_def
          get_current_user_id_with_access_def check_access_def)
  qed
qed

section \<open>The properties at concrete inputs\<close>

text \<open>A library that knows two tokens, one for each kind.\<close>

definition sample_jwt :: "claims \<Rightarrow> claims \<Rightarrow> jwt_lib" where
  "sample_jwt s v =
     \<lparr>jwt_encode = (\<lambda>c k. if c = s then ''s'' else ''v''),
      jwt_decode = (\<lambda>now t k. if t = ''s'' then Inr s else if t = ''v'' then Inr v else Inl JWTError)\<rparr>"

definition sample_auth :: auth_settings where
  "sample_auth = \<lparr>as_secret_key = ''secret'', as_admin_email = Some (user_email sample_user), as_cookie_secure = True,
     as_smtp_host = None, as_access_token_minutes = 1440\<rparr>"

definition cookie_request :: http_request where
  "cookie_request = plain_request\<lparr>rq_session_cookie := Some ''s''\<rparr>"

lemma sample_jwt_returns:
  "jwt_returns (sample_jwt s v) later key s"
  "s \<noteq> v \<Longrightarrow> jwt_returns (sample_jwt s v) later key v"
  by (simp_all add: jwt_returns_def sample_jwt_def)

lemma sample_claims_differ: "access_claims 0 1 60 act \<noteq> verification_claims 0 ''a@b'' True 30 ''password_reset''"
  by (simp add: access_claims_def verification_claims_def)

definition two_tokens :: "int option \<Rightarrow> jwt_lib" where
  "two_tokens act = sample_jwt (access_claims 0 1 60 act) (verification_claims 0 ''a@b'' True 30 ''password_reset'')"

text \<open>What the sample cookie decodes to: user 1, with the acting person given.\<close>

lemma two_tokens_cookie:
  "\<exists>p. decode_access_token (two_tokens act) now ''s'' key = Inr (Some p) \<and> subject p = Inr 1 \<and> actor_id (Some p) = act"
  using session_token_decodes(1) [OF sample_jwt_returns(1), of 0 1 60 act "verification_claims 0 ''a@b'' True 30 ''password_reset''" now key]
  by (simp add: two_tokens_def create_access_token_def) (simp add: sample_jwt_def)

lemma cookie_request_simps [simp]:
  "rq_bearer cookie_request = None" "bearer_of_header cookie_request = None"
  "rq_session_cookie cookie_request = Some ''s''" "presented_tokens cookie_request = [''s'']"
  by (simp_all add: cookie_request_def plain_request_def bearer_of_header_def header_def presented_tokens_def)

theorem token_roundtrip_witness:
  "let session = create_access_token (two_tokens (Some 7)) 0 1 ''secret'' 60 (Some 7)
   in (\<exists>p. decode_access_token (two_tokens (Some 7)) 5 session ''secret'' = Inr (Some p) \<and>
        subject p = Inr 1 \<and> actor_id (Some p) = Some 7) \<and>
      decode_verification_token (two_tokens (Some 7)) 5 session ''secret'' = Inr None"
  using token_roundtrip [where later = 5 and key = "''secret''" and act = "Some 7",
      OF sample_jwt_returns(1) sample_jwt_returns(2) [OF sample_claims_differ]]
  by (simp add: Let_def two_tokens_def)

lemma cookie_actor: "request_actor (two_tokens act) cfg now cookie_request = Inr act"
proof -
  obtain p where "decode_access_token (two_tokens act) now ''s'' (as_secret_key cfg) = Inr (Some p)" "actor_id (Some p) = act"
    using two_tokens_cookie by blast
  then show ?thesis by (simp add: request_actor_def split: option.splits)
qed

theorem impersonation_cannot_pass_witness:
  "forbid_when_impersonating (two_tokens None) sample_auth 5 cookie_request = Inr () \<and>
   request_actor (two_tokens None) sample_auth 5 cookie_request = Inr None \<and>
   forbid_when_impersonating (two_tokens (Some 7)) sample_auth 5 cookie_request = Inl (HTTPException 403)"
proof -
  have passes: "forbid_when_impersonating (two_tokens None) sample_auth 5 cookie_request = Inr ()"
    by (simp add: forbid_when_impersonating_def cookie_actor)
  have "\<not> is_htmx cookie_request" by (simp add: is_htmx_def header_def cookie_request_def plain_request_def)
  then have "forbid_when_impersonating (two_tokens (Some 7)) sample_auth 5 cookie_request = Inl (HTTPException 403)"
    by (simp add: forbid_when_impersonating_def cookie_actor refuse_def)
  with passes impersonation_cannot_pass [OF passes] show ?thesis by blast
qed

lemma cookie_user:
  assumes "find_row user_id 1 (db_users d) = Some u"
  shows "get_current_user (two_tokens act) cfg now cookie_request d =
    (if user_is_blocked u then Inl (HTTPException 403) else Inr u)"
proof -
  obtain p where "decode_access_token (two_tokens act) now ''s'' (as_secret_key cfg) = Inr (Some p)" "subject p = Inr 1"
    using two_tokens_cookie by blast
  with assms show ?thesis by (simp add: get_current_user_def)
qed

theorem admin_is_the_actor_witness:
  "require_admin (two_tokens None) sample_auth 5 cookie_request sample_db = Inr sample_user \<and>
   \<not> user_is_blocked sample_user \<and> as_admin_email sample_auth = Some (user_email sample_user)"
proof -
  have "find_row user_id 1 (db_users sample_db) = Some sample_user" by (simp add: sample_db_def sample_user_def)
  from cookie_user [OF this]
  have "require_admin (two_tokens None) sample_auth 5 cookie_request sample_db = Inr sample_user"
    by (simp add: require_admin_def cookie_actor email_is_admin_def sample_auth_def sample_user_def)
  with admin_is_the_actor [OF this] show ?thesis by blast
qed

definition blocked_db :: db where
  "blocked_db = sample_db\<lparr>db_users := [sample_user\<lparr>user_is_blocked := True\<rparr>]\<rparr>"

theorem blocked_user_shut_out_witness:
  "get_user_from_cookie (two_tokens None) sample_auth 5 cookie_request blocked_db = Inr None \<and>
   api_gate (two_tokens None) sample_auth 5 cookie_request blocked_db \<in> {Inl (HTTPException 401), Inl (HTTPException 403)}"
proof -
  have row: "find_row user_id 1 (db_users blocked_db) = Some (sample_user\<lparr>user_is_blocked := True\<rparr>)"
    "user_is_blocked (sample_user\<lparr>user_is_blocked := True\<rparr>)"
    by (simp_all add: blocked_db_def sample_user_def)
  have own: "\<exists>p. decode_access_token (two_tokens None) 5 t (as_secret_key sample_auth) = Inr (Some p) \<and>
      subject p = Inr 1 \<and> actor_id (Some p) = None" if "t \<in> set (presented_tokens cookie_request)" for t
    using that two_tokens_cookie by simp
  have "rq_session_cookie cookie_request \<noteq> Some []" by simp
  from blocked_user_shut_out [OF row own this] show ?thesis by blast
qed

theorem page_and_api_gates_agree_witness:
  "api_gate (two_tokens None) sample_auth 5 cookie_request sample_db = Inr 1 \<and>
   (\<exists>pu. get_user_from_cookie (two_tokens None) sample_auth 5 cookie_request sample_db = Inr (Some pu) \<and>
     user_id (pu_user pu) = 1 \<and> require_access (two_tokens None) sample_auth 5 cookie_request sample_db = Inr ())"
proof -
  obtain p where p: "decode_access_token (two_tokens None) 5 ''s'' (as_secret_key sample_auth) = Inr (Some p)"
    "subject p = Inr 1" "actor_id (Some p) = None"
    using two_tokens_cookie by blast
  have "fst (check_access 5 1 sample_db)"
    by (simp add: check_access_def active_rows_def sample_db_def sample_subscription_def access_is_open_def)
  moreover have "find_row user_id 1 (db_users sample_db) = Some sample_user" by (simp add: sample_db_def sample_user_def)
  ultimately have api: "api_gate (two_tokens None) sample_auth 5 cookie_request sample_db = Inr 1"
    using p by (simp add: api_gate_def get_current_user_id_active_def get_current_user_id_def
        get_current_user_id_with_access_def cookie_actor sample_user_def)
  have owned: "user_exists sample_db (sub_user_id s)" if "s \<in> set (db_subscriptions sample_db)" for s
    using that by (auto simp: sample_db_def sample_subscription_def sample_user_def user_exists_def)
  have actor: "find_row user_id m (db_users sample_db) \<noteq> None" if "actor_id (Some p) = Some m" for m
    using that p by simp
  from api page_and_api_gates_agree [OF cookie_request_simps(1-3) _ p(1) actor owned, of 1] show ?thesis by simp
qed

end
