(* ===== verification/Sign_In.thy ===== *)
theory Sign_In
  imports Sessions
begin

text \<open>
  Signing in and up: the page handlers of \<open>app/pages/auth.py\<close> (login, registration with a code by
  mail, recovery of a password, logout, the way back from the account of a user), the JSON handlers
  of \<open>app/routes/auth.py\<close> and the codes of \<open>app/models/email_verification.py\<close>.

  Arguments: the signing library, the password hash (a new hash may depend on its salt, so the
  function stands for one call), the digits drawn for a code, and the rendering of a screen. A
  letter is recorded where the code hands it to the mail service; its failure is swallowed there.
  The error texts of a screen are replaced by short names.
\<close>

section \<open>State and environment\<close>

record code_row =
  evc_id :: int
  evc_email :: string
  evc_code :: string
  evc_purpose :: string
  evc_attempts :: int
  evc_verified_at :: "int option"
  evc_expires_at :: int
  evc_created_at :: int

record sign_state =
  si_db :: db
  si_codes :: "code_row list"
  si_mails :: "(string \<times> string \<times> string) list"

record password_lib =
  pw_hash :: "string \<Rightarrow> exn + string"
  pw_verify :: "string \<Rightarrow> string \<Rightarrow> exn + bool"

type_synonym screen_ctx = "(string \<times> string) list"

record sign_env =
  en_lib :: jwt_lib
  en_cfg :: auth_settings
  en_pw :: password_lib
  en_page :: "string \<Rightarrow> screen_ctx \<Rightarrow> exn + body_response"
  en_fragment :: "string \<Rightarrow> screen_ctx \<Rightarrow> exn + body_response"

datatype cookie_change = KeepCookie | SetCookie string bool | ClearCookie bool

type_synonym signed = "(exn + reply \<times> cookie_change) \<times> sign_state"

definition CODE_LENGTH :: nat where "CODE_LENGTH = 6"
definition CODE_TTL_MINUTES :: int where "CODE_TTL_MINUTES = 10"
definition CODE_MAX_ATTEMPTS :: int where "CODE_MAX_ATTEMPTS = 5"
definition CODE_RESEND_COOLDOWN_SECONDS :: int where "CODE_RESEND_COOLDOWN_SECONDS = 60"

definition set_session_cookie :: "string \<Rightarrow> auth_settings \<Rightarrow> cookie_change" where
  "set_session_cookie token cfg = SetCookie token (as_cookie_secure cfg)"

definition clear_session_cookie :: "auth_settings \<Rightarrow> cookie_change" where
  "clear_session_cookie cfg = ClearCookie (as_cookie_secure cfg)"

text \<open>A screen in its two shapes; a password never enters its context.\<close>

definition screen_builders ::
  "sign_env \<Rightarrow> string \<Rightarrow> screen_ctx \<Rightarrow> exn + ((exn + body_response) \<times> (exn + body_response))" where
  "screen_builders en screen ctx =
     (if ''password'' \<in> fst ` set ctx then Inl ValueError
      else Inr (en_page en screen ctx, en_fragment en screen ctx))"

definition same_screen :: "sign_env \<Rightarrow> http_request \<Rightarrow> string \<Rightarrow> screen_ctx \<Rightarrow> exn + reply \<times> cookie_change" where
  "same_screen en rq screen ctx =
     bind_res (screen_builders en screen ctx) (\<lambda>(page, fragment).
       bind_res (respond_field_error rq page fragment) (\<lambda>r. Inr (r, KeepCookie)))"

definition next_screen :: "sign_env \<Rightarrow> http_request \<Rightarrow> string \<Rightarrow> screen_ctx \<Rightarrow> exn + reply \<times> cookie_change" where
  "next_screen en rq screen ctx =
     bind_res (screen_builders en screen ctx) (\<lambda>(page, fragment).
       bind_res (respond_screen rq page fragment) (\<lambda>r. Inr (r, KeepCookie)))"

definition user_by_email :: "string \<Rightarrow> db \<Rightarrow> user option" where
  "user_by_email email d = List.find (\<lambda>u. user_email u = email) (db_users d)"

section \<open>Codes by mail\<close>

definition last_code :: "string \<Rightarrow> string \<Rightarrow> code_row list \<Rightarrow> code_row option" where
  "last_code email purpose codes =
     latest_row evc_created_at (filter (\<lambda>r. evc_email r = email \<and> evc_purpose r = purpose) codes)"

definition cooling_down :: "int \<Rightarrow> code_row option \<Rightarrow> bool" where
  "cooling_down now prev =
     (case prev of None \<Rightarrow> False | Some r \<Rightarrow> now - evc_created_at r < CODE_RESEND_COOLDOWN_SECONDS * 1000000)"

definition new_code :: "string \<Rightarrow> string \<Rightarrow> string \<Rightarrow> int \<Rightarrow> code_row list \<Rightarrow> code_row" where
  "new_code email purpose code now codes =
     \<lparr>evc_id = next_id evc_id codes, evc_email = email, evc_code = code, evc_purpose = purpose, evc_attempts = 0,
      evc_verified_at = None, evc_expires_at = now + CODE_TTL_MINUTES * minutes_us, evc_created_at = now\<rparr>"

text \<open>The row is committed, then the letter goes out if a mail server is configured.\<close>

definition send_code :: "sign_env \<Rightarrow> string \<Rightarrow> string \<Rightarrow> string \<Rightarrow> int \<Rightarrow> sign_state \<Rightarrow> sign_state" where
  "send_code en email purpose code now st =
     st\<lparr>si_codes := si_codes st @ [new_code email purpose code now (si_codes st)],
        si_mails := si_mails st @ (if as_smtp_host (en_cfg en) \<in> {None, Some []} then [] else [(email, purpose, code)])\<rparr>"

definition usable_code :: "string \<Rightarrow> string \<Rightarrow> int \<Rightarrow> code_row list \<Rightarrow> code_row option" where
  "usable_code email purpose now codes =
     latest_row evc_created_at
       (filter (\<lambda>r. evc_email r = email \<and> evc_purpose r = purpose \<and> evc_verified_at r = None \<and>
                    evc_expires_at r > now \<and> evc_attempts r < CODE_MAX_ATTEMPTS) codes)"

text \<open>
  The answer to a guess against the row that was read, and the write it commits: the counter is
  written as the value read plus one.
\<close>

definition guess_right :: "code_row \<Rightarrow> string \<Rightarrow> bool" where
  "guess_right row guess \<longleftrightarrow> evc_code row = strip guess"

definition commit_guess :: "code_row \<Rightarrow> string \<Rightarrow> int \<Rightarrow> code_row list \<Rightarrow> code_row list" where
  "commit_guess row guess now codes =
     update_where (\<lambda>r. evc_id r = evc_id row)
       (\<lambda>r. if guess_right row guess then r\<lparr>evc_verified_at := Some now\<rparr> else r\<lparr>evc_attempts := evc_attempts row + 1\<rparr>) codes"

definition payload_email :: "claims \<Rightarrow> exn + string" where
  "payload_email p =
     (case map_of p ''email'' of None \<Rightarrow> Inl KeyError | Some (PStr e) \<Rightarrow> Inr e | Some _ \<Rightarrow> Inl DataError)"

section \<open>Login\<close>

definition login_submit :: "sign_env \<Rightarrow> int \<Rightarrow> http_request \<Rightarrow> string \<Rightarrow> string \<Rightarrow> sign_state \<Rightarrow> signed" where
  "login_submit en now rq email password st =
     (let user = user_by_email email (si_db st);
          known = (case user of None \<Rightarrow> Inr False | Some u \<Rightarrow> pw_verify (en_pw en) password (user_password_hash u))
      in (bind_res known (\<lambda>ok.
            case (if ok then user else None) of
              None \<Rightarrow> same_screen en rq ''login'' [(''error'', ''wrong_credentials''), (''email'', email)]
            | Some u \<Rightarrow>
                if user_is_blocked u then same_screen en rq ''login'' [(''error'', ''blocked''), (''email'', email)]
                else
                  bind_res (redirect_internal rq ''/dashboard'' None) (\<lambda>r.
                    Inr (r, set_session_cookie
                              (create_access_token (en_lib en) now (user_id u) (as_secret_key (en_cfg en)) ACCESS_EXPIRE_MINUTES None)
                              (en_cfg en)))), st))"

definition logout :: "sign_env \<Rightarrow> reply \<times> cookie_change" where
  "logout en = (RedirectResponse ''/login'', clear_session_cookie (en_cfg en))"

definition login :: "sign_env \<Rightarrow> int \<Rightarrow> string \<Rightarrow> string \<Rightarrow> sign_state \<Rightarrow> exn + string" where
  "login en now email password st =
     (case user_by_email email (si_db st) of
        None \<Rightarrow> Inl (HTTPException 401)
      | Some u \<Rightarrow>
          bind_res (pw_verify (en_pw en) password (user_password_hash u)) (\<lambda>ok.
            if \<not> ok then Inl (HTTPException 401)
            else if user_is_blocked u then Inl (HTTPException 403)
            else Inr (create_access_token (en_lib en) now (user_id u) (as_secret_key (en_cfg en))
                        (as_access_token_minutes (en_cfg en)) None)))"

section \<open>Registration\<close>

definition verify_screen :: "sign_env \<Rightarrow> int \<Rightarrow> string \<Rightarrow> string \<Rightarrow> screen_ctx \<Rightarrow> screen_ctx" where
  "verify_screen en now email purpose extra =
     [(''email'', email),
      (''token'', create_verification_token (en_lib en) now email (as_secret_key (en_cfg en)) False purpose)] @ extra"

definition verified_screen :: "sign_env \<Rightarrow> int \<Rightarrow> string \<Rightarrow> string \<Rightarrow> screen_ctx \<Rightarrow> screen_ctx" where
  "verified_screen en now email purpose extra =
     [(''email'', email),
      (''token'', create_verification_token (en_lib en) now email (as_secret_key (en_cfg en)) True purpose)] @ extra"

definition register_send_code :: "sign_env \<Rightarrow> int \<Rightarrow> string \<Rightarrow> http_request \<Rightarrow> string \<Rightarrow> sign_state \<Rightarrow> signed" where
  "register_send_code en now code rq email st =
     (if user_by_email email (si_db st) \<noteq> None
      then (same_screen en rq ''register'' [(''error'', ''already_registered''), (''email'', email)], st)
      else if cooling_down now (last_code email ''registration'' (si_codes st))
      then (next_screen en rq ''register_verify''
              (verify_screen en now email ''email_verification'' [(''error'', ''code_already_sent'')]), st)
      else if length email > 255 then (Inl DataError, st)
      else (next_screen en rq ''register_verify'' (verify_screen en now email ''email_verification'' []),
            send_code en email ''registration'' code now st))"

definition register_verify :: "sign_env \<Rightarrow> int \<Rightarrow> http_request \<Rightarrow> string \<Rightarrow> string \<Rightarrow> sign_state \<Rightarrow> signed" where
  "register_verify en now rq token guess st =
     (case decode_verification_token (en_lib en) now token (as_secret_key (en_cfg en)) of
        Inl e \<Rightarrow> (Inl e, st)
      | Inr None \<Rightarrow> (next_screen en rq ''register'' [(''error'', ''link_expired'')], st)
      | Inr (Some payload) \<Rightarrow>
          (case payload_email payload of
             Inl e \<Rightarrow> (Inl e, st)
           | Inr email \<Rightarrow>
               (case usable_code email ''registration'' now (si_codes st) of
                  None \<Rightarrow>
                    (same_screen en rq ''register_verify''
                       [(''email'', email), (''token'', token), (''code'', guess), (''error'', ''code_expired'')], st)
                | Some row \<Rightarrow>
                    let st' = st\<lparr>si_codes := commit_guess row guess now (si_codes st)\<rparr> in
                    if \<not> guess_right row guess
                    then (same_screen en rq ''register_verify''
                            [(''email'', email), (''token'', token), (''code'', guess),
                             (''error'', ''wrong_code '' @ int_str (CODE_MAX_ATTEMPTS - (evc_attempts row + 1)))], st')
                    else (next_screen en rq ''register_complete''
                            (verified_screen en now email ''email_verification'' []), st'))))"

definition register_resend_code :: "sign_env \<Rightarrow> int \<Rightarrow> string \<Rightarrow> http_request \<Rightarrow> string \<Rightarrow> sign_state \<Rightarrow> signed" where
  "register_resend_code en now code rq token st =
     (case decode_verification_token (en_lib en) now token (as_secret_key (en_cfg en)) of
        Inl e \<Rightarrow> (Inl e, st)
      | Inr None \<Rightarrow> (next_screen en rq ''register'' [(''error'', ''link_expired'')], st)
      | Inr (Some payload) \<Rightarrow>
          (case payload_email payload of
             Inl e \<Rightarrow> (Inl e, st)
           | Inr email \<Rightarrow>
               if cooling_down now (last_code email ''registration'' (si_codes st))
               then (same_screen en rq ''register_verify''
                       [(''email'', email), (''token'', token), (''error'', ''wait_a_minute'')], st)
               else if length email > 255 then (Inl DataError, st)
               else (next_screen en rq ''register_verify''
                       (verify_screen en now email ''email_verification'' [(''success'', ''code_sent'')]),
                     send_code en email ''registration'' code now st)))"

text \<open>The row of a new user; the unique index on the address and the widths of the columns decide.\<close>

definition insert_user :: "string \<Rightarrow> string \<Rightarrow> string \<Rightarrow> int \<Rightarrow> db \<Rightarrow> exn + user \<times> db" where
  "insert_user email hash name now d =
     (if length email > 255 \<or> length hash > 255 \<or> length name > 255 then Inl DataError
      else if user_by_email email d \<noteq> None then Inl IntegrityError
      else let u = \<lparr>user_id = next_id user_id (db_users d), user_email = email, user_password_hash = hash, user_name = name,
                    user_timezone = ''UTC'', user_is_blocked = False, user_created_at = now\<rparr>
           in Inr (u, d\<lparr>db_users := db_users d @ [u]\<rparr>))"

text \<open>The user is committed first, the trial after it in a transaction of its own.\<close>

definition register_user :: "password_lib \<Rightarrow> int \<Rightarrow> string \<Rightarrow> string \<Rightarrow> string \<Rightarrow> db \<Rightarrow> (exn + user) \<times> db" where
  "register_user pw now email password name d =
     (case pw_hash pw password of
        Inl e \<Rightarrow> (Inl e, d)
      | Inr hash \<Rightarrow>
          (case insert_user email hash name now d of
             Inl e \<Rightarrow> (Inl e, d)
           | Inr (u, d') \<Rightarrow> (case start_trial now (user_id u) d' of Inl e \<Rightarrow> (Inl e, d') | Inr d'' \<Rightarrow> (Inr u, d''))))"

definition register_complete ::
  "sign_env \<Rightarrow> int \<Rightarrow> http_request \<Rightarrow> string \<Rightarrow> string \<Rightarrow> string \<Rightarrow> sign_state \<Rightarrow> signed" where
  "register_complete en now rq token name password st =
     (case decode_verification_token (en_lib en) now token (as_secret_key (en_cfg en)) of
        Inl e \<Rightarrow> (Inl e, st)
      | Inr payload \<Rightarrow>
          (case payload of
             None \<Rightarrow> (next_screen en rq ''register'' [(''error'', ''link_expired'')], st)
           | Some p \<Rightarrow>
               if \<not> truthy (dict_get p ''verified'') \<or> dict_get p ''purpose'' \<noteq> PStr ''email_verification''
               then (next_screen en rq ''register'' [(''error'', ''link_expired'')], st)
               else
                 (case payload_email p of
                    Inl e \<Rightarrow> (Inl e, st)
                  | Inr email \<Rightarrow>
                      if user_by_email email (si_db st) \<noteq> None
                      then (next_screen en rq ''register'' [(''error'', ''already_registered'')], st)
                      else if length password < 6
                      then (same_screen en rq ''register_complete''
                              (verified_screen en now email ''email_verification''
                                 [(''name'', name), (''error'', ''short_secret'')]), st)
                      else
                        (case register_user (en_pw en) now email password name (si_db st) of
                           (Inl e, d) \<Rightarrow> (Inl e, st\<lparr>si_db := d\<rparr>)
                         | (Inr u, d) \<Rightarrow>
                             (bind_res (redirect_internal rq ''/dashboard'' None) (\<lambda>r.
                                Inr (r, set_session_cookie
                                  (create_access_token (en_lib en) now (user_id u) (as_secret_key (en_cfg en)) ACCESS_EXPIRE_MINUTES None)
                                  (en_cfg en))), st\<lparr>si_db := d\<rparr>)))))"

text \<open>The JSON registration. A configured mail server makes the token of a confirmed address mandatory.\<close>

definition register ::
  "sign_env \<Rightarrow> int \<Rightarrow> string \<Rightarrow> string \<Rightarrow> string \<Rightarrow> string option \<Rightarrow> sign_state \<Rightarrow> (exn + user) \<times> sign_state" where
  "register en now email password name token st =
     (let given = (token \<noteq> None \<and> token \<noteq> Some []);
          checked =
            (if as_smtp_host (en_cfg en) \<notin> {None, Some []} \<and> \<not> given then Inl (HTTPException 400)
             else if given
             then bind_res (decode_verification_token (en_lib en) now (the token) (as_secret_key (en_cfg en))) (\<lambda>payload.
                    case payload of
                      None \<Rightarrow> Inl (HTTPException 400)
                    | Some p \<Rightarrow>
                        if \<not> truthy (dict_get p ''verified'') \<or> dict_get p ''email'' \<noteq> PStr email
                        then Inl (HTTPException 400) else Inr ())
             else Inr ())
      in case checked of
           Inl e \<Rightarrow> (Inl e, st)
         | Inr _ \<Rightarrow>
             if user_by_email email (si_db st) \<noteq> None then (Inl (HTTPException 400), st)
             else (case register_user (en_pw en) now email password name (si_db st) of
                     (r, d) \<Rightarrow> (r, st\<lparr>si_db := d\<rparr>)))"

section \<open>Recovery of a password\<close>

text \<open>Each handler stands behind the guard against an administrator inside a foreign account.\<close>

definition forgot_password_send_code :: "sign_env \<Rightarrow> int \<Rightarrow> string \<Rightarrow> http_request \<Rightarrow> string \<Rightarrow> sign_state \<Rightarrow> signed" where
  "forgot_password_send_code en now code rq email st =
     (case forbid_when_impersonating (en_lib en) (en_cfg en) now rq of
        Inl e \<Rightarrow> (Inl e, st)
      | Inr _ \<Rightarrow>
          if user_by_email email (si_db st) = None
          then (same_screen en rq ''forgot_password'' [(''error'', ''unknown_email''), (''email'', email)], st)
          else if cooling_down now (last_code email ''password_reset'' (si_codes st))
          then (next_screen en rq ''forgot_password_verify''
                  (verify_screen en now email ''password_reset'' [(''error'', ''code_already_sent'')]), st)
          else if length email > 255 then (Inl DataError, st)
          else (next_screen en rq ''forgot_password_verify'' (verify_screen en now email ''password_reset'' []),
                send_code en email ''password_reset'' code now st))"

text \<open>The token of this flow, or the screen that starts it again.\<close>

definition reset_email :: "sign_env \<Rightarrow> int \<Rightarrow> string \<Rightarrow> bool \<Rightarrow> exn + string option" where
  "reset_email en now token confirmed =
     bind_res (decode_verification_token (en_lib en) now token (as_secret_key (en_cfg en))) (\<lambda>payload.
       case payload of
         None \<Rightarrow> Inr None
       | Some p \<Rightarrow>
           if confirmed \<and> \<not> truthy (dict_get p ''verified'') \<or> dict_get p ''purpose'' \<noteq> PStr ''password_reset'' then Inr None
           else bind_res (payload_email p) (\<lambda>email. Inr (Some email)))"

definition forgot_password_verify :: "sign_env \<Rightarrow> int \<Rightarrow> http_request \<Rightarrow> string \<Rightarrow> string \<Rightarrow> sign_state \<Rightarrow> signed" where
  "forgot_password_verify en now rq token guess st =
     (case bind_res (forbid_when_impersonating (en_lib en) (en_cfg en) now rq) (\<lambda>_. reset_email en now token False) of
        Inl e \<Rightarrow> (Inl e, st)
      | Inr None \<Rightarrow> (next_screen en rq ''forgot_password'' [(''error'', ''link_expired'')], st)
      | Inr (Some email) \<Rightarrow>
          (case usable_code email ''password_reset'' now (si_codes st) of
             None \<Rightarrow>
               (same_screen en rq ''forgot_password_verify''
                  [(''email'', email), (''token'', token), (''code'', guess), (''error'', ''code_expired'')], st)
           | Some row \<Rightarrow>
               let st' = st\<lparr>si_codes := commit_guess row guess now (si_codes st)\<rparr> in
               if \<not> guess_right row guess
               then (same_screen en rq ''forgot_password_verify''
                       [(''email'', email), (''token'', token), (''code'', guess),
                        (''error'', ''wrong_code '' @ int_str (CODE_MAX_ATTEMPTS - (evc_attempts row + 1)))], st')
               else (next_screen en rq ''forgot_password_reset''
                       (verified_screen en now email ''password_reset'' []), st')))"

definition forgot_password_resend_code :: "sign_env \<Rightarrow> int \<Rightarrow> string \<Rightarrow> http_request \<Rightarrow> string \<Rightarrow> sign_state \<Rightarrow> signed" where
  "forgot_password_resend_code en now code rq token st =
     (case bind_res (forbid_when_impersonating (en_lib en) (en_cfg en) now rq) (\<lambda>_. reset_email en now token False) of
        Inl e \<Rightarrow> (Inl e, st)
      | Inr None \<Rightarrow> (next_screen en rq ''forgot_password'' [(''error'', ''link_expired'')], st)
      | Inr (Some email) \<Rightarrow>
          if cooling_down now (last_code email ''password_reset'' (si_codes st))
          then (same_screen en rq ''forgot_password_verify''
                  [(''email'', email), (''token'', token), (''error'', ''wait_a_minute'')], st)
          else if length email > 255 then (Inl DataError, st)
          else (next_screen en rq ''forgot_password_verify''
                  (verify_screen en now email ''password_reset'' [(''success'', ''code_sent'')]),
                send_code en email ''password_reset'' code now st))"

definition forgot_password_reset :: "sign_env \<Rightarrow> int \<Rightarrow> http_request \<Rightarrow> string \<Rightarrow> string \<Rightarrow> sign_state \<Rightarrow> signed" where
  "forgot_password_reset en now rq token password st =
     (case bind_res (forbid_when_impersonating (en_lib en) (en_cfg en) now rq) (\<lambda>_. reset_email en now token True) of
        Inl e \<Rightarrow> (Inl e, st)
      | Inr None \<Rightarrow> (next_screen en rq ''forgot_password'' [(''error'', ''link_expired'')], st)
      | Inr (Some email) \<Rightarrow>
          (case user_by_email email (si_db st) of
             None \<Rightarrow> (next_screen en rq ''forgot_password'' [(''error'', ''unknown_user'')], st)
           | Some u \<Rightarrow>
               if length password < 6
               then (same_screen en rq ''forgot_password_reset''
                       (verified_screen en now email ''password_reset'' [(''error'', ''short_secret'')]), st)
               else
                 (case pw_hash (en_pw en) password of
                    Inl e \<Rightarrow> (Inl e, st)
                  | Inr hash \<Rightarrow>
                      if length hash > 255 then (Inl DataError, st)
                      else
                        (bind_res (redirect_internal rq ''/login'' (Some ''password_reset_done'')) (\<lambda>r. Inr (r, KeepCookie)),
                         st\<lparr>si_db := (si_db st)\<lparr>db_users :=
                              update_where (\<lambda>x. user_id x = user_id u) (\<lambda>x. x\<lparr>user_password_hash := hash\<rparr>)
                                (db_users (si_db st))\<rparr>\<rparr>))))"

section \<open>The way back from the account of a user\<close>

definition stop_impersonation :: "sign_env \<Rightarrow> url_lib \<Rightarrow> int \<Rightarrow> http_request \<Rightarrow> db \<Rightarrow> exn + reply \<times> cookie_change" where
  "stop_impersonation en ul now rq d =
     bind_res (is_same_origin ul rq) (\<lambda>same.
       if \<not> same then Inr (EmptyStatus 403, KeepCookie)
       else
         bind_res (case rq_session_cookie rq of
                     None \<Rightarrow> Inr None
                   | Some t \<Rightarrow> if t = [] then Inr None
                               else decode_access_token (en_lib en) now t (as_secret_key (en_cfg en))) (\<lambda>payload.
           case actor_id payload of
             None \<Rightarrow> bind_res (respond (\<lambda>_. []) rq ''/dashboard'' None None) (\<lambda>r. Inr (r, KeepCookie))
           | Some m \<Rightarrow>
               (case find_row user_id m (db_users d) of
                  None \<Rightarrow> bind_res (redirect_internal rq ''/login'' None) (\<lambda>r. Inr (r, clear_session_cookie (en_cfg en)))
                | Some admin \<Rightarrow>
                    if user_is_blocked admin
                    then bind_res (redirect_internal rq ''/login'' None) (\<lambda>r. Inr (r, clear_session_cookie (en_cfg en)))
                    else bind_res (respond (\<lambda>_. []) rq ''/admin'' None None) (\<lambda>r.
                           Inr (r, set_session_cookie
                             (create_access_token (en_lib en) now (user_id admin) (as_secret_key (en_cfg en)) ACCESS_EXPIRE_MINUTES None)
                             (en_cfg en))))))"

section \<open>The life of a code\<close>

text \<open>
  What the handlers do to the table of codes: a request for a code, and a guess against the latest
  usable code of an address. A guess that is judged leaves an entry with the row and the verdict.
\<close>

datatype code_event = Issue string string string int | Guess string string string int

fun code_step :: "code_event \<Rightarrow> code_row list \<Rightarrow> (int \<times> bool) list \<times> code_row list" where
  "code_step (Issue email purpose code now) codes =
     ([], if cooling_down now (last_code email purpose codes) then codes
          else codes @ [new_code email purpose code now codes])"
| "code_step (Guess email purpose guess now) codes =
     (case usable_code email purpose now codes of
        None \<Rightarrow> ([], codes)
      | Some row \<Rightarrow> ([(evc_id row, guess_right row guess)], commit_guess row guess now codes))"

fun code_run :: "code_event list \<Rightarrow> code_row list \<Rightarrow> (int \<times> bool) list" where
  "code_run [] codes = []"
| "code_run (e # es) codes = (let (j, codes') = code_step e codes in j @ code_run es codes')"

lemma usable_code_Some:
  assumes "usable_code email purpose now codes = Some row"
  shows "row \<in> set codes" "evc_email row = email" "evc_purpose row = purpose" "evc_verified_at row = None"
    "now < evc_expires_at row" "evc_attempts row < CODE_MAX_ATTEMPTS"
  using latest_row_Some [OF assms [unfolded usable_code_def]] by simp_all

text \<open>How often a row can still be missed, and how often it can still be hit.\<close>

definition misses_left :: "code_row list \<Rightarrow> int \<Rightarrow> nat" where
  "misses_left codes i =
     (case find_row evc_id i codes of
        None \<Rightarrow> 5 | Some r \<Rightarrow> if evc_verified_at r = None then nat (CODE_MAX_ATTEMPTS - evc_attempts r) else 0)"

definition hits_left :: "code_row list \<Rightarrow> int \<Rightarrow> nat" where
  "hits_left codes i =
     (case find_row evc_id i codes of None \<Rightarrow> 1 | Some r \<Rightarrow> if evc_verified_at r = None then 1 else 0)"

lemma find_row_mem: "distinct (map key rows) \<Longrightarrow> r \<in> set rows \<Longrightarrow> find_row key (key r) rows = Some r"
  by (induction rows) auto

lemma commit_guess_find:
  "find_row evc_id i (commit_guess row guess now codes) =
    map_option (\<lambda>r. if evc_id r = evc_id row
                      then if guess_right row guess then r\<lparr>evc_verified_at := Some now\<rparr>
                           else r\<lparr>evc_attempts := evc_attempts row + 1\<rparr>
                      else r) (find_row evc_id i codes)"
  unfolding commit_guess_def by (rule find_row_update_where) simp

lemma commit_guess_row:
  assumes "distinct (map evc_id codes)" "row \<in> set codes"
  shows "find_row evc_id i (commit_guess row guess now codes) =
    (if i = evc_id row then Some (if guess_right row guess then row\<lparr>evc_verified_at := Some now\<rparr>
                                  else row\<lparr>evc_attempts := evc_attempts row + 1\<rparr>)
     else find_row evc_id i codes)"
proof (cases "i = evc_id row")
  case True
  then show ?thesis by (simp add: commit_guess_find find_row_mem [OF assms])
next
  case False
  then show ?thesis
    by (cases "find_row evc_id i codes") (auto simp: commit_guess_find dest: find_row_Some)
qed

lemma commit_guess_ids: "map evc_id (commit_guess row guess now codes) = map evc_id codes"
  unfolding commit_guess_def by (rule map_update_where) simp

lemma code_step_distinct:
  "distinct (map evc_id codes) \<Longrightarrow> distinct (map evc_id (snd (code_step e codes)))"
  using next_id_notin [of evc_id codes]
  by (cases e) (auto simp: commit_guess_ids new_code_def split: option.splits)

lemma code_step_cases:
  obtains (idle) "code_step e codes = ([], codes)"
    | (issue) r where "code_step e codes = ([], codes @ [r])" "evc_id r = next_id evc_id codes" "evc_attempts r = 0"
    | (guess) row g t where "code_step e codes = ([(evc_id row, guess_right row g)], commit_guess row g t codes)"
        "row \<in> set codes" "evc_verified_at row = None" "evc_attempts row < CODE_MAX_ATTEMPTS"
proof (cases e)
  case (Issue email purpose code now)
  show ?thesis
  proof (cases "cooling_down now (last_code email purpose codes)")
    case False
    with Issue show ?thesis by (intro issue [of "new_code email purpose code now codes"]) (simp_all add: new_code_def)
  qed (use Issue idle in simp)
next
  case (Guess email purpose g now)
  show ?thesis
  proof (cases "usable_code email purpose now codes")
    case (Some row)
    with Guess usable_code_Some [OF Some] show ?thesis by (intro guess [of row g now]) simp_all
  qed (use Guess idle in simp)
qed

lemma code_step_budget:
  assumes "distinct (map evc_id codes)"
  shows "length (filter (\<lambda>(j, ok). j = i \<and> \<not> ok) (fst (code_step e codes))) + misses_left (snd (code_step e codes)) i
      \<le> misses_left codes i"
    and "length (filter (\<lambda>(j, ok). j = i \<and> ok) (fst (code_step e codes))) + hits_left (snd (code_step e codes)) i
      \<le> hits_left codes i"
proof -
  have "length (filter (\<lambda>(j, ok). j = i \<and> \<not> ok) (fst (code_step e codes))) + misses_left (snd (code_step e codes)) i
        \<le> misses_left codes i \<and>
      length (filter (\<lambda>(j, ok). j = i \<and> ok) (fst (code_step e codes))) + hits_left (snd (code_step e codes)) i
        \<le> hits_left codes i"
  proof (cases rule: code_step_cases [of e codes])
    case issue
    then show ?thesis
      by (auto simp: misses_left_def hits_left_def find_row_append CODE_MAX_ATTEMPTS_def split: option.splits)
  next
    case guess
    then show ?thesis
      by (auto simp: misses_left_def hits_left_def commit_guess_row [OF assms] find_row_mem [OF assms] nat_diff_distrib'
          split: option.splits)
  qed simp
  then show "length (filter (\<lambda>(j, ok). j = i \<and> \<not> ok) (fst (code_step e codes))) + misses_left (snd (code_step e codes)) i
      \<le> misses_left codes i"
    and "length (filter (\<lambda>(j, ok). j = i \<and> ok) (fst (code_step e codes))) + hits_left (snd (code_step e codes)) i
      \<le> hits_left codes i" by blast+
qed

lemma code_run_budget:
  assumes "distinct (map evc_id codes)"
  shows "length (filter (\<lambda>(j, ok). j = i \<and> \<not> ok) (code_run es codes)) \<le> misses_left codes i \<and>
    length (filter (\<lambda>(j, ok). j = i \<and> ok) (code_run es codes)) \<le> hits_left codes i"
  using assms
proof (induction es arbitrary: codes)
  case (Cons e es)
  have "distinct (map evc_id (snd (code_step e codes)))" using Cons.prems by (rule code_step_distinct)
  from Cons.IH [OF this] code_step_budget [OF Cons.prems, of i e] show ?case
    by (cases "code_step e codes") (auto simp: Let_def)
qed simp

text \<open>
  C20: whatever is requested and guessed, one request after another, a code is missed at most five
  times and hit at most once in its life; the sixth guess and every guess after a hit is not judged.
\<close>

theorem code_guesses_bounded:
  assumes "distinct (map evc_id codes)" "\<And>r. r \<in> set codes \<Longrightarrow> 0 \<le> evc_attempts r"
  shows "length (filter (\<lambda>(j, ok). j = i \<and> \<not> ok) (code_run es codes)) \<le> 5 \<and>
    length (filter (\<lambda>(j, ok). j = i \<and> ok) (code_run es codes)) \<le> 1"
proof -
  have "misses_left codes i \<le> 5"
  proof (cases "find_row evc_id i codes")
    case (Some r)
    with assms(2) [of r] find_row_Some [OF Some] show ?thesis by (simp add: misses_left_def CODE_MAX_ATTEMPTS_def nat_le_iff)
  qed (simp add: misses_left_def)
  moreover have "hits_left codes i \<le> 1" by (auto simp: hits_left_def split: option.splits)
  ultimately show ?thesis using code_run_budget [OF assms(1), of i es] by linarith
qed

text \<open>
  requests that overlap are not bounded so: however many wrong guesses read the row of a code
  before the first of them is written, together they count as one, and the code stays usable.
\<close>

theorem overlapping_guesses_count_once:
  assumes "distinct (map evc_id codes)" "usable_code email purpose now codes = Some row"
    and "guesses \<noteq> []" "\<And>g. g \<in> set guesses \<Longrightarrow> \<not> guess_right row g"
  shows "find_row evc_id (evc_id row) (fold (\<lambda>g. commit_guess row g now) guesses codes) =
    Some (row\<lparr>evc_attempts := evc_attempts row + 1\<rparr>)"
proof -
  let ?hit = "Some (row\<lparr>evc_attempts := evc_attempts row + 1\<rparr>)"
  have commit: "find_row evc_id (evc_id row) (commit_guess row g now cs) = ?hit"
    if "find_row evc_id (evc_id row) cs \<in> {Some row, ?hit}" "\<not> guess_right row g" for cs g
    using that by (auto simp: commit_guess_find)
  have "find_row evc_id (evc_id row) (fold (\<lambda>g. commit_guess row g now) gs cs) = ?hit"
    if "find_row evc_id (evc_id row) cs = ?hit" "\<And>g. g \<in> set gs \<Longrightarrow> \<not> guess_right row g" for gs cs
    using that by (induction gs arbitrary: cs) (simp_all add: commit)
  then show ?thesis
    using commit [of codes "hd guesses"] find_row_mem [OF assms(1) usable_code_Some(1) [OF assms(2)]] assms(3,4)
    by (cases guesses) simp_all
qed

text \<open>The handlers move the table of codes by these steps only.\<close>

lemma issue_handlers_step:
  "si_codes (snd (register_send_code en now code rq email st)) \<in>
     {si_codes st, snd (code_step (Issue email ''registration'' code now) (si_codes st))}"
  "si_codes (snd (forgot_password_send_code en now code rq email st)) \<in>
     {si_codes st, snd (code_step (Issue email ''password_reset'' code now) (si_codes st))}"
  by (auto simp: register_send_code_def forgot_password_send_code_def send_code_def split: sum.splits)

lemma register_verify_step:
  "\<exists>email. si_codes (snd (register_verify en now rq token guess st)) \<in>
     {si_codes st, snd (code_step (Guess email ''registration'' guess now) (si_codes st))}"
proof (cases "\<exists>payload email. decode_verification_token (en_lib en) now token (as_secret_key (en_cfg en)) = Inr (Some payload) \<and>
    payload_email payload = Inr email")
  case True
  then obtain payload email where "decode_verification_token (en_lib en) now token (as_secret_key (en_cfg en)) = Inr (Some payload)"
    "payload_email payload = Inr email" by blast
  then show ?thesis by (intro exI [of _ email]) (simp add: register_verify_def Let_def split: option.splits)
next
  case False
  then show ?thesis by (auto simp: register_verify_def split: sum.splits option.splits)
qed

lemma reset_verify_step:
  "\<exists>email. si_codes (snd (forgot_password_verify en now rq token guess st)) \<in>
     {si_codes st, snd (code_step (Guess email ''password_reset'' guess now) (si_codes st))}"
proof (cases "\<exists>email. bind_res (forbid_when_impersonating (en_lib en) (en_cfg en) now rq)
    (\<lambda>_. reset_email en now token False) = Inr (Some email)")
  case True
  then obtain email where "bind_res (forbid_when_impersonating (en_lib en) (en_cfg en) now rq)
    (\<lambda>_. reset_email en now token False) = Inr (Some email)" by blast
  then show ?thesis by (intro exI [of _ email]) (simp add: forgot_password_verify_def Let_def split: option.splits)
next
  case False
  then show ?thesis by (auto simp: forgot_password_verify_def split: sum.splits option.splits)
qed

section \<open>Properties of the sessions\<close>

lemma screen_keeps_cookie:
  "same_screen en rq screen ctx = Inr (r, c) \<Longrightarrow> c = KeepCookie"
  "next_screen en rq screen ctx = Inr (r, c) \<Longrightarrow> c = KeepCookie"
  by (auto simp: same_screen_def next_screen_def bind_res_eq_Inr split: prod.splits)

lemma user_by_email_Some: "user_by_email email d = Some u \<Longrightarrow> u \<in> set (db_users d) \<and> user_email u = email"
  by (auto simp: user_by_email_def find_Some_iff)

text \<open>
  the login form and the JSON login admit the same attempts: those that name a user who is not
  blocked with the password of that user. Neither changes anything, and the form then sets a cookie
  with a session of this user and of nobody else.
\<close>

theorem login_paths_agree:
  "snd (login_submit en now rq email password st) = st \<and>
   ((\<exists>u. user_by_email email (si_db st) = Some u \<and> \<not> user_is_blocked u \<and>
         pw_verify (en_pw en) password (user_password_hash u) = Inr True) \<longleftrightarrow>
    (\<exists>t. login en now email password st = Inr t)) \<and>
   (\<forall>r t secure. fst (login_submit en now rq email password st) = Inr (r, SetCookie t secure) \<longrightarrow>
      (\<exists>u. user_by_email email (si_db st) = Some u \<and> login en now email password st \<noteq> Inl (HTTPException 401) \<and>
        \<not> user_is_blocked u \<and> pw_verify (en_pw en) password (user_password_hash u) = Inr True \<and>
        t = create_access_token (en_lib en) now (user_id u) (as_secret_key (en_cfg en)) ACCESS_EXPIRE_MINUTES None))"
proof -
  have page: "fst (login_submit en now rq email password st) = Inr (r, SetCookie t secure) \<Longrightarrow>
      \<exists>u. user_by_email email (si_db st) = Some u \<and> \<not> user_is_blocked u \<and>
        pw_verify (en_pw en) password (user_password_hash u) = Inr True \<and>
        t = create_access_token (en_lib en) now (user_id u) (as_secret_key (en_cfg en)) ACCESS_EXPIRE_MINUTES None" for r t secure
    by (auto simp: login_submit_def Let_def bind_res_eq_Inr set_session_cookie_def dest!: screen_keeps_cookie
        split: option.splits if_splits)
  have json: "(\<exists>u. user_by_email email (si_db st) = Some u \<and> \<not> user_is_blocked u \<and>
        pw_verify (en_pw en) password (user_password_hash u) = Inr True) \<longleftrightarrow> (\<exists>t. login en now email password st = Inr t)"
    by (auto simp: login_def bind_res_eq_Inr split: option.splits)
  have "snd (login_submit en now rq email password st) = st" by (simp add: login_submit_def Let_def)
  then show ?thesis using page json by fastforce
qed

text \<open>
  a password changes only on a confirmed token of the recovery flow: the request carries no
  acting person, the token names the address of the user, the new password has six characters or
  more, and nothing changes but the stored hash of this one user.
\<close>

theorem reset_needs_confirmation:
  assumes "forgot_password_reset en now rq token password st = (r, st')" "st' \<noteq> st"
  shows "\<exists>p u hash. decode_verification_token (en_lib en) now token (as_secret_key (en_cfg en)) = Inr (Some p) \<and>
    truthy (dict_get p ''verified'') \<and> dict_get p ''purpose'' = PStr ''password_reset'' \<and>
    payload_email p = Inr (user_email u) \<and> u \<in> set (db_users (si_db st)) \<and>
    request_actor (en_lib en) (en_cfg en) now rq = Inr None \<and>
    6 \<le> length password \<and> pw_hash (en_pw en) password = Inr hash \<and>
    st' = st\<lparr>si_db := (si_db st)\<lparr>db_users :=
      update_where (\<lambda>x. user_id x = user_id u) (\<lambda>x. x\<lparr>user_password_hash := hash\<rparr>) (db_users (si_db st))\<rparr>\<rparr>"
proof -
  obtain email where email: "forbid_when_impersonating (en_lib en) (en_cfg en) now rq = Inr ()"
    "reset_email en now token True = Inr (Some email)"
    using assms by (auto simp: forgot_password_reset_def bind_res_def split: sum.splits option.splits)
  obtain u where u: "user_by_email email (si_db st) = Some u"
    using assms email by (auto simp: forgot_password_reset_def split: option.splits)
  obtain hash where hash: "pw_hash (en_pw en) password = Inr hash" "6 \<le> length password"
    "st' = st\<lparr>si_db := (si_db st)\<lparr>db_users :=
      update_where (\<lambda>x. user_id x = user_id u) (\<lambda>x. x\<lparr>user_password_hash := hash\<rparr>) (db_users (si_db st))\<rparr>\<rparr>"
    using assms email u by (auto simp: forgot_password_reset_def split: if_splits sum.splits)
  obtain p where p: "decode_verification_token (en_lib en) now token (as_secret_key (en_cfg en)) = Inr (Some p)"
    "truthy (dict_get p ''verified'')" "dict_get p ''purpose'' = PStr ''password_reset''" "payload_email p = Inr email"
    using email(2) by (auto simp: reset_email_def bind_res_eq_Inr split: option.splits if_splits)
  have "request_actor (en_lib en) (en_cfg en) now rq = Inr None"
    using email(1) by (auto simp: forbid_when_impersonating_def bind_res_eq_Inr refuse_def split: if_splits)
  with p u user_by_email_Some [OF u] hash show ?thesis by blast
qed

lemma start_trial_opens:
  assumes "start_trial now uid d = Inr d'" "active_rows uid d = []"
  shows "db_users d' = db_users d \<and> fst (check_access now uid d')"
proof -
  from assms have ins: "insert_subscription (trial_row now uid) d = Some d'"
    by (auto simp: start_trial_def split: option.splits)
  note frame = insert_subscription_frame [OF ins]
  have "active_rows uid d' = [trial_row now uid\<lparr>sub_id := next_id sub_id (db_subscriptions d)\<rparr>]"
    using frame assms(2) by (simp add: active_rows_def trial_row_def)
  then have "fst (check_access now uid d')"
    by (simp add: check_access_def access_is_open_def trial_row_def TRIAL_DAYS_def day_us_def)
  with frame show ?thesis by blast
qed

lemma user_by_email_None: "user_by_email email d = None \<longleftrightarrow> email \<notin> user_email ` set (db_users d)"
  by (auto simp: user_by_email_def find_None_iff)

lemma register_user_Inr:
  assumes "register_user pw now email password name d = (Inr u, d')"
    and owned: "\<And>s. s \<in> set (db_subscriptions d) \<Longrightarrow> user_exists d (sub_user_id s)"
  shows "pw_hash pw password = Inr (user_password_hash u) \<and> user_email u = email \<and> \<not> user_is_blocked u \<and>
    user_id u \<notin> user_id ` set (db_users d) \<and> user_by_email email d = None \<and>
    db_users d' = db_users d @ [u] \<and> fst (check_access now (user_id u) d')"
proof -
  obtain hash dm where h: "pw_hash pw password = Inr hash" "insert_user email hash name now d = Inr (u, dm)"
    "start_trial now (user_id u) dm = Inr d'"
    using assms(1) by (auto simp: register_user_def split: sum.splits prod.splits)
  from h(2) have u: "u = \<lparr>user_id = next_id user_id (db_users d), user_email = email, user_password_hash = hash, user_name = name,
                    user_timezone = ''UTC'', user_is_blocked = False, user_created_at = now\<rparr>"
    "dm = d\<lparr>db_users := db_users d @ [u]\<rparr>" "user_by_email email d = None"
    by (auto simp: insert_user_def Let_def split: if_splits)
  have fresh: "user_id u \<notin> user_id ` set (db_users d)" using next_id_notin [of user_id] u(1) by simp
  have none: "active_rows (user_id u) dm = []"
  proof -
    have "sub_user_id s \<noteq> user_id u" if "s \<in> set (db_subscriptions d)" for s
      using owned [OF that] fresh by (auto simp: user_exists_def)
    with u(2) show ?thesis by (auto simp: active_rows_def filter_empty_conv)
  qed
  from start_trial_opens [OF h(3) none] u h fresh show ?thesis by simp
qed

text \<open>
  a registration that ends in a session was confirmed by mail and makes exactly one user: the
  token carries a confirmed address no user has yet, the new row has this address and the hash of
  the given password, the product opens for it at once, the cookie is a session of the new user, and
  no two users share an address afterwards.
\<close>

theorem register_complete_opens:
  assumes finished: "register_complete en now rq token name password st = (Inr (r, SetCookie t secure), st')"
    and owned: "\<And>s. s \<in> set (db_subscriptions (si_db st)) \<Longrightarrow> user_exists (si_db st) (sub_user_id s)"
    and unique: "distinct (map user_email (db_users (si_db st)))"
  shows "\<exists>p u. decode_verification_token (en_lib en) now token (as_secret_key (en_cfg en)) = Inr (Some p) \<and>
    truthy (dict_get p ''verified'') \<and> dict_get p ''purpose'' = PStr ''email_verification'' \<and>
    payload_email p = Inr (user_email u) \<and>
    pw_hash (en_pw en) password = Inr (user_password_hash u) \<and> 6 \<le> length password \<and>
    db_users (si_db st') = db_users (si_db st) @ [u] \<and> \<not> user_is_blocked u \<and>
    fst (check_access now (user_id u) (si_db st')) \<and> distinct (map user_email (db_users (si_db st'))) \<and>
    t = create_access_token (en_lib en) now (user_id u) (as_secret_key (en_cfg en)) ACCESS_EXPIRE_MINUTES None"
proof -
  obtain p where p: "decode_verification_token (en_lib en) now token (as_secret_key (en_cfg en)) = Inr (Some p)"
    using finished by (auto simp: register_complete_def dest!: screen_keeps_cookie split: sum.splits option.splits)
  have v: "truthy (dict_get p ''verified'')" "dict_get p ''purpose'' = PStr ''email_verification''"
    using finished p by (auto simp: register_complete_def dest!: screen_keeps_cookie split: if_splits)
  obtain email where email: "payload_email p = Inr email"
    using finished p v by (auto simp: register_complete_def split: sum.splits)
  have long: "user_by_email email (si_db st) = None" "6 \<le> length password"
    using finished p v email by (auto simp: register_complete_def dest!: screen_keeps_cookie split: if_splits)
  obtain res d where res: "register_user (en_pw en) now email password name (si_db st) = (res, d)" by force
  obtain u where u: "res = Inr u" "st' = st\<lparr>si_db := d\<rparr>"
    "t = create_access_token (en_lib en) now (user_id u) (as_secret_key (en_cfg en)) ACCESS_EXPIRE_MINUTES None"
    using finished p v email long res
    by (cases res) (auto simp: register_complete_def set_session_cookie_def bind_res_eq_Inr)
  from register_user_Inr [of "en_pw en" now email password name "si_db st" u d] res u(1) owned
  have facts: "pw_hash (en_pw en) password = Inr (user_password_hash u)" "user_email u = email" "\<not> user_is_blocked u"
    "db_users d = db_users (si_db st) @ [u]" "fst (check_access now (user_id u) d)" by blast+
  have "distinct (map user_email (db_users d))"
    using facts(2,4) unique long(1) by (simp add: user_by_email_None)
  with p v email long u facts show ?thesis by (intro exI [of _ p] exI [of _ u]) simp
qed

lemma user_by_email_update:
  assumes "\<And>x. user_email (f x) = user_email x"
  shows "user_by_email email (d\<lparr>db_users := update_where P f (db_users d)\<rparr>) =
    map_option (\<lambda>x. if P x then f x else x) (user_by_email email d)"
proof -
  have "List.find (\<lambda>u. user_email u = email) (update_where P f us) =
      map_option (\<lambda>x. if P x then f x else x) (List.find (\<lambda>u. user_email u = email) us)" for us
    by (induction us) (auto simp: assms)
  then show ?thesis by (simp add: user_by_email_def)
qed

lemma reset_cases:
  assumes "forbid_when_impersonating (en_lib en) (en_cfg en) now rq = Inr ()" "reset_email en now token True = Inr (Some email)"
    and "user_by_email email (si_db st) = Some u" "6 \<le> length password"
    and "pw_hash (en_pw en) password = Inr hash" "length hash \<le> 255"
  shows "snd (forgot_password_reset en now rq token password st) = st\<lparr>si_db := (si_db st)\<lparr>db_users :=
      update_where (\<lambda>x. user_id x = user_id u) (\<lambda>x. x\<lparr>user_password_hash := hash\<rparr>) (db_users (si_db st))\<rparr>\<rparr>"
  using assms by (simp add: forgot_password_reset_def)

text \<open>
  a confirmed token is not used up by the reset it was made for: as long as the library accepts
  it, whoever holds it sets the password of the same user once more.
\<close>

theorem reset_token_replays:
  assumes first: "forgot_password_reset en now rq token password st = (r, st1)" "st1 \<noteq> st"
    and same: "decode_verification_token (en_lib en) later token (as_secret_key (en_cfg en)) =
      decode_verification_token (en_lib en) now token (as_secret_key (en_cfg en))"
    and free: "forbid_when_impersonating (en_lib en) (en_cfg en) later rq' = Inr ()"
    and new: "pw_hash (en_pw en) password' = Inr hash'" "length hash' \<le> 255" "6 \<le> length password'"
  shows "\<exists>u u'. user_by_email (user_email u) (si_db st) = Some u \<and> user_id u' = user_id u \<and>
    user_by_email (user_email u) (si_db (snd (forgot_password_reset en later rq' token password' st1))) = Some u' \<and>
    user_password_hash u' = hash'"
proof -
  obtain email where email: "reset_email en now token True = Inr (Some email)"
    using first by (auto simp: forgot_password_reset_def bind_res_def split: sum.splits option.splits)
  obtain u where u: "user_by_email email (si_db st) = Some u"
    using first email by (auto simp: forgot_password_reset_def bind_res_def split: sum.splits option.splits)
  obtain hash where st1: "st1 = st\<lparr>si_db := (si_db st)\<lparr>db_users :=
      update_where (\<lambda>x. user_id x = user_id u) (\<lambda>x. x\<lparr>user_password_hash := hash\<rparr>) (db_users (si_db st))\<rparr>\<rparr>"
    using first email u by (auto simp: forgot_password_reset_def bind_res_def split: if_splits sum.splits)
  have again: "reset_email en later token True = Inr (Some email)"
    using email same by (simp add: reset_email_def)
  have u1: "user_by_email email (si_db st1) = Some (u\<lparr>user_password_hash := hash\<rparr>)"
    using u by (simp add: st1 user_by_email_update)
  have "user_by_email email (si_db (snd (forgot_password_reset en later rq' token password' st1))) =
      Some (u\<lparr>user_password_hash := hash'\<rparr>)"
    using reset_cases [OF free again u1 new(3,1,2)] u1 by (simp add: user_by_email_update)
  with u user_by_email_Some [OF u] show ?thesis
    by (intro exI [of _ u] exI [of _ "u\<lparr>user_password_hash := hash'\<rparr>"]) simp
qed

section \<open>The properties at concrete inputs\<close>

definition plain_page :: "string \<Rightarrow> screen_ctx \<Rightarrow> exn + body_response" where
  "plain_page screen ctx = Inr \<lparr>bd_status = 200, bd_content_type = ''text/html'', bd_body = Some screen, bd_content_length = None\<rparr>"

definition open_passwords :: password_lib where
  "open_passwords = \<lparr>pw_hash = Inr, pw_verify = (\<lambda>p h. Inr (p = h))\<rparr>"

definition sample_env :: "jwt_lib \<Rightarrow> sign_env" where
  "sample_env lib = \<lparr>en_lib = lib, en_cfg = sample_auth, en_pw = open_passwords, en_page = plain_page, en_fragment = plain_page\<rparr>"

definition sample_sign :: sign_state where
  "sample_sign = \<lparr>si_db = sample_db, si_codes = [new_code ''a@b'' ''password_reset'' ''123456'' 0 []], si_mails = []\<rparr>"

lemma sample_env_simps [simp]:
  "en_lib (sample_env lib) = lib" "en_cfg (sample_env lib) = sample_auth" "en_pw (sample_env lib) = open_passwords"
  by (simp_all add: sample_env_def)

lemma plain_request_no_token: "forbid_when_impersonating lib cfg now plain_request = Inr ()"
  by (simp add: forbid_when_impersonating_def request_actor_def presented_tokens_def plain_request_def
      bearer_of_header_def header_def)

theorem code_guesses_bounded_witness:
  "length (filter (\<lambda>(j, ok). j = 1 \<and> \<not> ok)
     (code_run (replicate 9 (Guess ''a@b'' ''password_reset'' ''0'' 1)) (si_codes sample_sign))) \<le> 5"
  using code_guesses_bounded [of "si_codes sample_sign" 1 "replicate 9 (Guess ''a@b'' ''password_reset'' ''0'' 1)"]
  by (simp add: sample_sign_def new_code_def)

lemma sample_usable:
  "usable_code ''a@b'' ''password_reset'' 1 (si_codes sample_sign) = Some (new_code ''a@b'' ''password_reset'' ''123456'' 0 [])"
  by (simp add: usable_code_def sample_sign_def new_code_def CODE_TTL_MINUTES_def minutes_us_def CODE_MAX_ATTEMPTS_def)

theorem overlapping_guesses_count_once_witness:
  "find_row evc_id 1 (fold (\<lambda>g. commit_guess (new_code ''a@b'' ''password_reset'' ''123456'' 0 []) g 1)
       [''0'', ''1'', ''2'', ''3'', ''4'', ''5'', ''6''] (si_codes sample_sign)) =
     Some ((new_code ''a@b'' ''password_reset'' ''123456'' 0 [])\<lparr>evc_attempts := 1\<rparr>)"
proof -
  have ids: "distinct (map evc_id (si_codes sample_sign))" by (simp add: sample_sign_def)
  have "\<not> guess_right (new_code ''a@b'' ''password_reset'' ''123456'' 0 []) g"
    if "g \<in> set [''0'', ''1'', ''2'', ''3'', ''4'', ''5'', ''6'']" for g
    using that by (auto simp: guess_right_def new_code_def strip_def is_space_def)
  from overlapping_guesses_count_once [OF ids sample_usable list.discI [OF refl] this]
  have "find_row evc_id (evc_id (new_code ''a@b'' ''password_reset'' ''123456'' 0 []))
      (fold (\<lambda>g. commit_guess (new_code ''a@b'' ''password_reset'' ''123456'' 0 []) g 1)
       [''0'', ''1'', ''2'', ''3'', ''4'', ''5'', ''6''] (si_codes sample_sign)) =
     Some ((new_code ''a@b'' ''password_reset'' ''123456'' 0 [])
       \<lparr>evc_attempts := evc_attempts (new_code ''a@b'' ''password_reset'' ''123456'' 0 []) + 1\<rparr>)" .
  moreover have "evc_id (new_code ''a@b'' ''password_reset'' ''123456'' 0 []) = 1"
    "evc_attempts (new_code ''a@b'' ''password_reset'' ''123456'' 0 []) + 1 = 1"
    by (simp_all add: new_code_def next_id_def)
  ultimately show ?thesis by (simp only:)
qed

theorem login_paths_agree_witness:
  "\<exists>t. login (sample_env (two_tokens None)) 5 ''a@b'' '''' sample_sign = Inr t"
  using login_paths_agree [of "sample_env (two_tokens None)" 5 plain_request "''a@b''" "''''" sample_sign]
  by (simp add: user_by_email_def sample_sign_def sample_db_def sample_user_def open_passwords_def)

lemma sample_reset_email: "reset_email (sample_env (two_tokens None)) now ''v'' True = Inr (Some ''a@b'')"
  by (simp add: reset_email_def decode_verification_token_def two_tokens_def sample_jwt_def verification_claims_def
      dict_get_def payload_email_def)

lemma sample_reset:
  "snd (forgot_password_reset (sample_env (two_tokens None)) now plain_request ''v'' ''secret'' sample_sign) =
     sample_sign\<lparr>si_db := sample_db\<lparr>db_users := [sample_user\<lparr>user_password_hash := ''secret''\<rparr>]\<rparr>\<rparr>"
proof -
  have "user_by_email ''a@b'' (si_db sample_sign) = Some sample_user"
    by (simp add: user_by_email_def sample_sign_def sample_db_def sample_user_def)
  from reset_cases [OF plain_request_no_token sample_reset_email this] show ?thesis
    by (simp add: open_passwords_def sample_sign_def sample_db_def)
qed

lemma sample_reset_changes:
  "snd (forgot_password_reset (sample_env (two_tokens None)) now plain_request ''v'' ''secret'' sample_sign) \<noteq> sample_sign"
  unfolding sample_reset by (simp add: sample_sign_def sample_db_def sample_user_def empty_db_def)

theorem reset_needs_confirmation_witness:
  "snd (forgot_password_reset (sample_env (two_tokens None)) 5 plain_request ''v'' ''secret'' sample_sign) \<noteq> sample_sign \<and>
   request_actor (two_tokens None) sample_auth 5 plain_request = Inr None"
  using reset_needs_confirmation [OF surjective_pairing sample_reset_changes, of 5] sample_reset_changes by auto

theorem reset_token_replays_witness:
  "\<exists>u'. user_by_email ''a@b'' (si_db (snd (forgot_password_reset (sample_env (two_tokens None)) 6 plain_request ''v'' ''stolen''
      (snd (forgot_password_reset (sample_env (two_tokens None)) 5 plain_request ''v'' ''secret'' sample_sign))))) = Some u' \<and>
    user_password_hash u' = ''stolen''"
proof -
  have same: "decode_verification_token (en_lib (sample_env (two_tokens None))) 6 ''v'' key =
      decode_verification_token (en_lib (sample_env (two_tokens None))) 5 ''v'' key" for key
    by (simp add: decode_verification_token_def two_tokens_def sample_jwt_def)
  have "pw_hash (en_pw (sample_env (two_tokens None))) ''stolen'' = Inr ''stolen''" by (simp add: open_passwords_def)
  from reset_token_replays [OF surjective_pairing sample_reset_changes same plain_request_no_token this]
  obtain u u' where "user_by_email (user_email u) (si_db sample_sign) = Some u"
    "user_by_email (user_email u) (si_db (snd (forgot_password_reset (sample_env (two_tokens None)) 6 plain_request ''v'' ''stolen''
      (snd (forgot_password_reset (sample_env (two_tokens None)) 5 plain_request ''v'' ''secret'' sample_sign))))) = Some u'"
    "user_password_hash u' = ''stolen''" by fastforce
  moreover from this(1) have "user_email u = ''a@b''"
    by (auto simp: user_by_email_def sample_sign_def sample_db_def sample_user_def split: if_splits)
  ultimately show ?thesis by auto
qed

definition confirmed_jwt :: jwt_lib where
  "confirmed_jwt = sample_jwt (access_claims 0 1 60 None) (verification_claims 0 ''n@b'' True 30 ''email_verification'')"

lemma sample_registration:
  "\<exists>r t st'. register_complete (sample_env confirmed_jwt) 5 plain_request ''v'' ''n'' ''secret'' sample_sign =
     (Inr (r, SetCookie t True), st')"
proof -
  have token: "decode_verification_token confirmed_jwt 5 ''v'' key =
      Inr (Some (verification_claims 0 ''n@b'' True 30 ''email_verification''))" for key
    by (simp add: decode_verification_token_def confirmed_jwt_def sample_jwt_def) (simp add: verification_claims_def dict_get_def)
  have claims: "truthy (dict_get (verification_claims 0 ''n@b'' True 30 ''email_verification'') ''verified'')"
    "dict_get (verification_claims 0 ''n@b'' True 30 ''email_verification'') ''purpose'' = PStr ''email_verification''"
    "payload_email (verification_claims 0 ''n@b'' True 30 ''email_verification'') = Inr ''n@b''"
    by (simp_all add: verification_claims_def dict_get_def payload_email_def)
  have free: "user_by_email ''n@b'' (si_db sample_sign) = None"
    by (simp add: user_by_email_def sample_sign_def sample_db_def sample_user_def)
  obtain u d where u: "register_user open_passwords 5 ''n@b'' ''secret'' ''n'' (si_db sample_sign) = (Inr u, d)"
    using free by (simp add: register_user_def open_passwords_def insert_user_def Let_def start_trial_def insert_subscription_def
        trial_row_def sample_sign_def sample_db_def sample_user_def sample_subscription_def user_exists_def next_id_def
        uq_subscriptions_active_def active_rows_def split: option.splits)
  have "redirect_internal plain_request ''/dashboard'' None = Inr (RedirectResponse ''/dashboard'')"
    by code_simp
  with token claims free u show ?thesis
    by (simp add: register_complete_def set_session_cookie_def sample_auth_def sample_env_def)
qed

theorem register_complete_opens_witness:
  "\<exists>r t st' u. register_complete (sample_env confirmed_jwt) 5 plain_request ''v'' ''n'' ''secret'' sample_sign =
      (Inr (r, SetCookie t True), st') \<and>
    db_users (si_db st') = db_users (si_db sample_sign) @ [u] \<and> fst (check_access 5 (user_id u) (si_db st'))"
proof -
  obtain r t st' where run: "register_complete (sample_env confirmed_jwt) 5 plain_request ''v'' ''n'' ''secret'' sample_sign =
     (Inr (r, SetCookie t True), st')" using sample_registration by blast
  have owned: "user_exists (si_db sample_sign) (sub_user_id s)" if "s \<in> set (db_subscriptions (si_db sample_sign))" for s
    using that by (auto simp: sample_sign_def sample_db_def sample_subscription_def sample_user_def user_exists_def)
  have "distinct (map user_email (db_users (si_db sample_sign)))" by (simp add: sample_sign_def sample_db_def)
  from register_complete_opens [OF run owned this] run show ?thesis by blast
qed

end
