(* ===== verification/Access_Cache.thy ===== *)
theory Access_Cache
  imports Subscriptions
begin

text \<open>
  The cached access verdict, \<open>app/services/billing_cache.py\<close>. Redis is a map from keys to
  values with a moment of expiry; every call may fail, and the code treats a failure as a miss.
  The value is stored as JSON, which gives back the flag and the reason it was written with. Time
  and the TTL are in microseconds; each call is one atomic step on the cache.
\<close>

section \<open>The cache\<close>

type_synonym verdict = "bool \<times> string"
type_synonym cache = "string \<rightharpoonup> verdict \<times> int"

text \<open>What the connection does during one call: is there a client, do the read and the write succeed.\<close>

record redis_io =
  has_client :: bool
  read_ok :: bool
  write_ok :: bool

definition cache_key :: "int \<Rightarrow> string" where
  "cache_key u = ''access:'' @ int_str u"

definition cache_get :: "int \<Rightarrow> string \<Rightarrow> cache \<Rightarrow> verdict option" where
  "cache_get now k c =
     (case c k of None \<Rightarrow> None | Some (v, expires) \<Rightarrow> if now < expires then Some v else None)"

definition cache_setex :: "int \<Rightarrow> int \<Rightarrow> string \<Rightarrow> verdict \<Rightarrow> cache \<Rightarrow> cache" where
  "cache_setex now ttl k v c = c(k \<mapsto> (v, now + ttl))"

definition BILLING_CACHE_TTL :: int where "BILLING_CACHE_TTL = 60 * second_us"

definition check_access_cached ::
  "redis_io \<Rightarrow> int \<Rightarrow> db \<Rightarrow> int \<Rightarrow> string \<Rightarrow> cache \<Rightarrow> verdict \<times> cache" where
  "check_access_cached io now d u action c =
     (if action \<noteq> ''send'' then ((True, ''''), c)
      else
        let cached = (if has_client io \<and> read_ok io then cache_get now (cache_key u) c else None)
        in case cached of
             Some v \<Rightarrow> (v, c)
           | None \<Rightarrow>
               let v = check_access now u d
               in (v, if has_client io \<and> write_ok io
                      then cache_setex now BILLING_CACHE_TTL (cache_key u) v c else c))"

definition invalidate_access_cache :: "redis_io \<Rightarrow> int \<Rightarrow> cache \<Rightarrow> cache" where
  "invalidate_access_cache io u c =
     (if has_client io \<and> write_ok io then c(cache_key u := None) else c)"

lemma cache_key_inj [simp]: "cache_key u = cache_key v \<longleftrightarrow> u = v"
  by (auto simp: cache_key_def int_str_inj)

lemma cache_get_setex:
  "cache_get now k (cache_setex now' ttl k' v c) =
     (if k = k' then if now < now' + ttl then Some v else None else cache_get now k c)"
  by (simp add: cache_get_def cache_setex_def)

section \<open>Runs of the cache\<close>

text \<open>
  \<open>hist t\<close> is the committed database at moment \<open>t\<close>. A reachable configuration is the
  present moment, for each user the moment of his last successful invalidation, and the cache.
\<close>

inductive cache_reach :: "(int \<Rightarrow> db) \<Rightarrow> int \<Rightarrow> (int \<Rightarrow> int option) \<Rightarrow> cache \<Rightarrow> bool"
  for hist where
  start: "cache_reach hist now (\<lambda>_. None) (\<lambda>_. None)"
| tick: "cache_reach hist now since c \<Longrightarrow> now \<le> now' \<Longrightarrow> cache_reach hist now' since c"
| query: "cache_reach hist now since c \<Longrightarrow>
    check_access_cached io now (hist now) u action c = (v, c') \<Longrightarrow> cache_reach hist now since c'"
| invalidate: "cache_reach hist now since c \<Longrightarrow> has_client io \<Longrightarrow> write_ok io \<Longrightarrow>
    cache_reach hist now (since(u \<mapsto> now)) (invalidate_access_cache io u c)"
| invalidate_lost: "cache_reach hist now since c \<Longrightarrow> \<not> (has_client io \<and> write_ok io) \<Longrightarrow>
    cache_reach hist now since (invalidate_access_cache io u c)"

text \<open>Every entry is the verdict of a moment since the last invalidation, and expires a TTL after it.\<close>

definition entry_honest :: "(int \<Rightarrow> db) \<Rightarrow> int \<Rightarrow> int option \<Rightarrow> int \<Rightarrow> verdict \<times> int \<Rightarrow> bool" where
  "entry_honest hist now since u e \<longleftrightarrow>
     (\<exists>t. t \<le> now \<and> (\<forall>i. since = Some i \<longrightarrow> i \<le> t) \<and> e = (check_access t u (hist t), t + BILLING_CACHE_TTL))"

lemma entry_honest_tick: "entry_honest hist now since u e \<Longrightarrow> now \<le> now' \<Longrightarrow> entry_honest hist now' since u e"
  by (force simp: entry_honest_def)

lemma cache_honest:
  assumes "cache_reach hist now since c"
  shows "(\<forall>u i. since u = Some i \<longrightarrow> i \<le> now) \<and>
    (\<forall>u e. c (cache_key u) = Some e \<longrightarrow> entry_honest hist now (since u) u e)"
  using assms
proof induction
  case (tick now since c now')
  then show ?case using entry_honest_tick by fastforce
next
  case (query now since c io u action v c')
  have "entry_honest hist now (since u) u (check_access now u (hist now), now + BILLING_CACHE_TTL)"
    using query.IH by (auto simp: entry_honest_def)
  with query show ?case
    by (auto simp: check_access_cached_def Let_def cache_setex_def split: if_splits option.splits)
next
  case (invalidate now since c io u)
  then show ?case by (auto simp: invalidate_access_cache_def)
next
  case (invalidate_lost now since c io u)
  then show ?case by (simp add: invalidate_access_cache_def)
qed simp

section \<open>Properties\<close>


definition healthy_io :: redis_io where
  "healthy_io = \<lparr>has_client = True, read_ok = True, write_ok = True\<rparr>"


end
