(* ===== verification/Admin_Actions.thy ===== *)
theory Admin_Actions
  imports Sign_In Access_Cache Identifiers "HOL-Library.Sublist"
begin

text \<open>
  What an administrator does to users: the handlers of \<open>app/pages/admin.py\<close> that change
  something about a user (free access, entering the account, block, removal), and the paged list of users of
  \<open>app/application/admin/users_query.py\<close>.

  The markup of the block of buttons is an argument. Removing a user follows the foreign keys of
  the schema: subscriptions, payments, accounts, advertisements and groups go with the user, groups
  with their account, schedules with their advertisement, and a schedule of a removed account is
  left without one. The database lowers the letters of the names as Python does on our characters.
\<close>

text \<open>An identifier outside the column finds nobody.\<close>

definition target_user :: "int \<Rightarrow> db \<Rightarrow> user option" where
  "target_user uid d = (if id_in_column uid then find_row user_id uid (db_users d) else None)"

section \<open>The handlers\<close>

definition USERS_LOCATION :: string where "USERS_LOCATION = ''/admin/users''"

definition user_location :: "int \<Rightarrow> string" where
  "user_location uid = ''/admin/users/'' @ int_str uid"

text \<open>The guards every handler starts with: the rights, the own identity where it asks for it, the origin.\<close>

definition admin_request ::
  "sign_env \<Rightarrow> url_lib \<Rightarrow> bool \<Rightarrow> int \<Rightarrow> http_request \<Rightarrow> db \<Rightarrow> exn + user option" where
  "admin_request en ul own_identity now rq d =
     bind_res (require_admin (en_lib en) (en_cfg en) now rq d) (\<lambda>admin.
       bind_res (if own_identity then forbid_when_impersonating (en_lib en) (en_cfg en) now rq else Inr ()) (\<lambda>_.
         bind_res (is_same_origin ul rq) (\<lambda>same. Inr (if same then Some admin else None))))"

type_synonym buttons = "db \<Rightarrow> user \<Rightarrow> user \<Rightarrow> exn + body_response"

definition toggle_free_row :: "subscription \<Rightarrow> db \<Rightarrow> db" where
  "toggle_free_row s d =
     d\<lparr>db_subscriptions := update_where (\<lambda>x. sub_id x = sub_id s)
         (\<lambda>x. x\<lparr>sub_has_free_access := \<not> sub_has_free_access s\<rparr>) (db_subscriptions d)\<rparr>"

definition admin_toggle_free_access ::
  "sign_env \<Rightarrow> url_lib \<Rightarrow> (string \<Rightarrow> string) \<Rightarrow> buttons \<Rightarrow> redis_io \<Rightarrow> int \<Rightarrow> http_request \<Rightarrow> int \<Rightarrow> db \<times> cache \<Rightarrow>
     (exn + reply) \<times> db \<times> cache" where
  "admin_toggle_free_access en ul notice_oob buttons io now rq uid s =
     (let (d, c) = s in
      case admin_request en ul True now rq d of
        Inl e \<Rightarrow> (Inl e, d, c)
      | Inr None \<Rightarrow> (Inr (EmptyStatus 403), d, c)
      | Inr (Some admin) \<Rightarrow>
          (case target_user uid d of
             None \<Rightarrow> (respond notice_oob rq USERS_LOCATION None None, d, c)
           | Some u \<Rightarrow>
               (case active_rows (user_id u) d of
                  [] \<Rightarrow> (respond notice_oob rq (user_location uid) None None, d, c)
                | [sub] \<Rightarrow>
                    let d' = toggle_free_row sub d
                    in (respond notice_oob rq (user_location uid) None (Some (buttons d' u admin)), d',
                        invalidate_access_cache io (user_id u) c)
                | _ \<Rightarrow> (Inl MultipleResultsFound, d, c))))"

definition admin_impersonate ::
  "sign_env \<Rightarrow> url_lib \<Rightarrow> (string \<Rightarrow> string) \<Rightarrow> int \<Rightarrow> http_request \<Rightarrow> int \<Rightarrow> db \<Rightarrow> exn + reply \<times> cookie_change" where
  "admin_impersonate en ul notice_oob now rq uid d =
     bind_res (admin_request en ul True now rq d) (\<lambda>allowed.
       case allowed of
         None \<Rightarrow> Inr (EmptyStatus 403, KeepCookie)
       | Some admin \<Rightarrow>
           (case target_user uid d of
              None \<Rightarrow> bind_res (respond notice_oob rq USERS_LOCATION None None) (\<lambda>r. Inr (r, KeepCookie))
            | Some u \<Rightarrow>
                if user_id u = user_id admin
                then bind_res (respond notice_oob rq (user_location uid) None None) (\<lambda>r. Inr (r, KeepCookie))
                else bind_res (respond notice_oob rq ''/dashboard'' None None) (\<lambda>r.
                       Inr (r, set_session_cookie
                         (create_access_token (en_lib en) now (user_id u) (as_secret_key (en_cfg en))
                            IMPERSONATION_EXPIRE_MINUTES (Some (user_id admin))) (en_cfg en)))))"

definition toggle_block_row :: "user \<Rightarrow> db \<Rightarrow> db" where
  "toggle_block_row u d =
     d\<lparr>db_users := update_where (\<lambda>x. user_id x = user_id u) (\<lambda>x. x\<lparr>user_is_blocked := \<not> user_is_blocked u\<rparr>) (db_users d)\<rparr>"

definition admin_toggle_block ::
  "sign_env \<Rightarrow> url_lib \<Rightarrow> (string \<Rightarrow> string) \<Rightarrow> buttons \<Rightarrow> int \<Rightarrow> http_request \<Rightarrow> int \<Rightarrow> db \<Rightarrow> (exn + reply) \<times> db" where
  "admin_toggle_block en ul notice_oob buttons now rq uid d =
     (case admin_request en ul False now rq d of
        Inl e \<Rightarrow> (Inl e, d)
      | Inr None \<Rightarrow> (Inr (EmptyStatus 403), d)
      | Inr (Some admin) \<Rightarrow>
          (case target_user uid d of
             None \<Rightarrow> (respond notice_oob rq USERS_LOCATION None None, d)
           | Some u \<Rightarrow>
               if user_id u = user_id admin then (respond notice_oob rq (user_location uid) None None, d)
               else
                 let d' = toggle_block_row u d
                 in (respond notice_oob rq (user_location uid) None
                       (Some (buttons d' (u\<lparr>user_is_blocked := \<not> user_is_blocked u\<rparr>) admin)), d')))"

text \<open>The removal of a row of a user, with everything its foreign keys take along.\<close>

definition delete_user_row :: "int \<Rightarrow> db \<Rightarrow> db" where
  "delete_user_row uid d =
     (let accounts = filter (\<lambda>a. acc_user_id a \<noteq> uid) (db_accounts d);
          ads = filter (\<lambda>a. ad_user_id a \<noteq> uid) (db_ads d);
          gone = (\<lambda>i. \<exists>a \<in> set (db_accounts d). acc_id a = i \<and> acc_user_id a = uid);
          ad_gone = (\<lambda>i. \<exists>a \<in> set (db_ads d). ad_id a = i \<and> ad_user_id a = uid)
      in d\<lparr>db_users := filter (\<lambda>u. user_id u \<noteq> uid) (db_users d),
           db_subscriptions := filter (\<lambda>s. sub_user_id s \<noteq> uid) (db_subscriptions d),
           db_payments := filter (\<lambda>p. pay_user_id p \<noteq> uid) (db_payments d),
           db_accounts := accounts,
           db_ads := ads,
           db_groups := filter (\<lambda>g. grp_user_id g \<noteq> uid \<and> \<not> gone (grp_account_id g)) (db_groups d),
           db_schedules :=
             map (\<lambda>s. case sch_account_id s of None \<Rightarrow> s | Some i \<Rightarrow> if gone i then s\<lparr>sch_account_id := None\<rparr> else s)
               (filter (\<lambda>s. \<not> ad_gone (sch_ad_id s)) (db_schedules d))\<rparr>)"

definition admin_delete_user ::
  "sign_env \<Rightarrow> url_lib \<Rightarrow> (string \<Rightarrow> string) \<Rightarrow> int \<Rightarrow> http_request \<Rightarrow> int \<Rightarrow> db \<Rightarrow> (exn + reply) \<times> db" where
  "admin_delete_user en ul notice_oob now rq uid d =
     (case admin_request en ul True now rq d of
        Inl e \<Rightarrow> (Inl e, d)
      | Inr None \<Rightarrow> (Inr (EmptyStatus 403), d)
      | Inr (Some admin) \<Rightarrow>
          (case target_user uid d of
             None \<Rightarrow> (respond notice_oob rq USERS_LOCATION None None, d)
           | Some u \<Rightarrow>
               if user_id u = user_id admin then (respond notice_oob rq (user_location uid) None None, d)
               else (respond notice_oob rq USERS_LOCATION None None, delete_user_row (user_id u) d)))"

section \<open>The list of users\<close>

definition USERS_PAGE_SIZE :: nat where "USERS_PAGE_SIZE = 50"

text \<open>\<open>s.replace(c, r)\<close> for one character, and the pattern of the search.\<close>

definition replace_char :: "char \<Rightarrow> string \<Rightarrow> string \<Rightarrow> string" where
  "replace_char c r s = concat (map (\<lambda>x. if x = c then r else [x]) s)"

definition search_pattern :: "string \<Rightarrow> string" where
  "search_pattern text =
     lower (CHR ''%'' # replace_char (CHR ''_'') [CHR 0x5C, CHR ''_'']
       (replace_char (CHR ''%'') [CHR 0x5C, CHR ''%''] (replace_char (CHR 0x5C) [CHR 0x5C, CHR 0x5C] text)) @ ''%'')"

text \<open>\<open>LIKE ... ESCAPE\<close> with a backslash.\<close>

fun sql_like :: "string \<Rightarrow> string \<Rightarrow> bool" where
  "sql_like [] s = (s = [])"
| "sql_like (p # ps) s =
     (if p = CHR ''%'' then sql_like ps s \<or> (case s of [] \<Rightarrow> False | _ # cs \<Rightarrow> sql_like (p # ps) cs)
      else case s of
             [] \<Rightarrow> False
           | c # cs \<Rightarrow>
               if p = CHR ''_'' then sql_like ps cs
               else if p = CHR 0x5C then (case ps of [] \<Rightarrow> False | q # qs \<Rightarrow> c = q \<and> sql_like qs cs)
               else c = p \<and> sql_like ps cs)"

definition state_clause :: "string option \<Rightarrow> user \<Rightarrow> bool" where
  "state_clause state u =
     (if state = Some ''active'' then \<not> user_is_blocked u else if state = Some ''blocked'' then user_is_blocked u else True)"

definition apply_user_filters :: "string option \<Rightarrow> string option \<Rightarrow> string option \<Rightarrow> int \<Rightarrow> db \<Rightarrow> user list" where
  "apply_user_filters search access state now d =
     filter (\<lambda>u.
       (let text = strip (case search of None \<Rightarrow> [] | Some s \<Rightarrow> s)
        in text = [] \<or> sql_like (search_pattern text) (lower (user_name u)) \<or>
           sql_like (search_pattern text) (lower (user_email u))) \<and>
       (case access_axis_clause access now of None \<Rightarrow> True | Some clause \<Rightarrow> clause d u) \<and>
       state_clause state u) (db_users d)"

record users_page_view =
  up_users :: "user list"
  up_total :: nat
  up_page :: int
  up_pages :: int

definition users_page :: "string option \<Rightarrow> string option \<Rightarrow> string option \<Rightarrow> int \<Rightarrow> int \<Rightarrow> db \<Rightarrow> users_page_view" where
  "users_page search access state now page d =
     (let found = apply_user_filters search access state now d;
          total = length found;
          pages = max 1 (- ((- int total) div int USERS_PAGE_SIZE));
          page = min (max page 1) pages
      in \<lparr>up_users = take USERS_PAGE_SIZE (drop (nat ((page - 1) * int USERS_PAGE_SIZE)) (sort_key user_id found)),
          up_total = total, up_page = page, up_pages = pages\<rparr>)"

section \<open>What passes the guards\<close>

lemma admin_request_Some:
  assumes "admin_request en ul own now rq d = Inr (Some admin)"
  shows "require_admin (en_lib en) (en_cfg en) now rq d = Inr admin" "is_same_origin ul rq = Inr True"
    "own \<Longrightarrow> forbid_when_impersonating (en_lib en) (en_cfg en) now rq = Inr ()"
  using assms by (auto simp: admin_request_def bind_res_eq_Inr split: if_splits)

lemma target_user_Some:
  "target_user uid d = Some u \<Longrightarrow> id_in_column uid \<and> u \<in> set (db_users d) \<and> user_id u = uid \<and> find_row user_id uid (db_users d) = Some u"
  by (auto simp: target_user_def dest: find_row_Some split: if_splits)

lemma impersonate_cookie:
  assumes "admin_impersonate en ul oob now rq uid d = Inr (r, SetCookie t secure)"
  shows "\<exists>admin u. admin_request en ul True now rq d = Inr (Some admin) \<and> target_user uid d = Some u \<and> user_id u \<noteq> user_id admin \<and>
    t = create_access_token (en_lib en) now (user_id u) (as_secret_key (en_cfg en)) IMPERSONATION_EXPIRE_MINUTES (Some (user_id admin))"
proof -
  obtain allowed where "admin_request en ul True now rq d = Inr allowed"
    using assms by (auto simp: admin_impersonate_def bind_res_eq_Inr)
  with assms show ?thesis
    by (auto simp: admin_impersonate_def bind_res_eq_Inr set_session_cookie_def split: option.splits if_splits)
qed

lemma toggle_block_changes:
  assumes "snd (admin_toggle_block en ul oob buttons now rq uid d) \<noteq> d"
  shows "\<exists>admin u. admin_request en ul False now rq d = Inr (Some admin) \<and> target_user uid d = Some u \<and> user_id u \<noteq> user_id admin \<and>
    snd (admin_toggle_block en ul oob buttons now rq uid d) = toggle_block_row u d"
  using assms by (auto simp: admin_toggle_block_def Let_def split: sum.splits option.splits if_splits)

lemma delete_user_changes:
  assumes "snd (admin_delete_user en ul oob now rq uid d) \<noteq> d"
  shows "\<exists>admin u. admin_request en ul True now rq d = Inr (Some admin) \<and> target_user uid d = Some u \<and> user_id u \<noteq> user_id admin \<and>
    snd (admin_delete_user en ul oob now rq uid d) = delete_user_row uid d"
  using assms
  by (auto simp: admin_delete_user_def split: sum.splits option.splits if_splits dest: target_user_Some)

section \<open>Properties\<close>

text \<open>
  a user is blocked, removed or entered only by an administrator, from a page of this site, and
  never the administrator himself: whatever the request, the row of the acting administrator stays
  in the table as it is, so that nobody locks himself out.
\<close>

theorem admin_actions_guarded:
  assumes "require_admin (en_lib en) (en_cfg en) now rq d = Inr admin"
  shows "admin \<in> set (db_users (snd (admin_toggle_block en ul oob buttons now rq uid d))) \<and>
    admin \<in> set (db_users (snd (admin_delete_user en ul oob now rq uid d))) \<and>
    (is_same_origin ul rq \<noteq> Inr True \<or> target_user uid d = None \<or> uid = user_id admin \<longrightarrow>
       snd (admin_toggle_block en ul oob buttons now rq uid d) = d \<and> snd (admin_delete_user en ul oob now rq uid d) = d \<and>
       (\<forall>r t secure. admin_impersonate en ul oob now rq uid d \<noteq> Inr (r, SetCookie t secure)))"
proof -
  have admin: "admin \<in> set (db_users d)" using require_admin_row [OF assms] by blast
  have same: "admin' = admin" if "admin_request en ul own now rq d = Inr (Some admin')" for own admin'
    using admin_request_Some(1) [OF that] assms by simp
  have "admin \<in> set (db_users (snd (admin_toggle_block en ul oob buttons now rq uid d)))"
  proof (cases "snd (admin_toggle_block en ul oob buttons now rq uid d) = d")
    case False
    from toggle_block_changes [OF this] obtain u where u: "user_id u \<noteq> user_id admin"
      "snd (admin_toggle_block en ul oob buttons now rq uid d) = toggle_block_row u d"
      using same by blast
    then have "admin \<in> set (db_users (toggle_block_row u d))"
      using admin by (auto simp: toggle_block_row_def set_update_where)
    with u(2) show ?thesis by simp
  qed (use admin in simp)
  moreover have "admin \<in> set (db_users (snd (admin_delete_user en ul oob now rq uid d)))"
  proof (cases "snd (admin_delete_user en ul oob now rq uid d) = d")
    case False
    from delete_user_changes [OF this] obtain u where u: "user_id u \<noteq> user_id admin" "target_user uid d = Some u"
      "snd (admin_delete_user en ul oob now rq uid d) = delete_user_row uid d"
      using same by blast
    with admin target_user_Some [OF u(2)] show ?thesis by (simp add: delete_user_row_def Let_def)
  qed (use admin in simp)
  moreover have "snd (admin_toggle_block en ul oob buttons now rq uid d) = d \<and> snd (admin_delete_user en ul oob now rq uid d) = d \<and>
       (\<forall>r t secure. admin_impersonate en ul oob now rq uid d \<noteq> Inr (r, SetCookie t secure))"
    if idle: "is_same_origin ul rq \<noteq> Inr True \<or> target_user uid d = None \<or> uid = user_id admin"
  proof -
    have no: False if "admin_request en ul own now rq d = Inr (Some admin')" "target_user uid d = Some u" "user_id u \<noteq> user_id admin'"
      for own admin' u
      using idle that same [OF that(1)] admin_request_Some(2) [OF that(1)] target_user_Some [OF that(2)] by auto
    show ?thesis
      using toggle_block_changes [of en ul oob buttons now rq uid d] delete_user_changes [of en ul oob now rq uid d]
        impersonate_cookie [of en ul oob now rq uid d] no by blast
  qed
  ultimately show ?thesis by blast
qed

text \<open>Every foreign key of the schema points to a row.\<close>

definition refs_ok :: "db \<Rightarrow> bool" where
  "refs_ok d \<longleftrightarrow>
     (\<forall>s \<in> set (db_subscriptions d). user_exists d (sub_user_id s)) \<and>
     (\<forall>p \<in> set (db_payments d). user_exists d (pay_user_id p)) \<and>
     (\<forall>a \<in> set (db_accounts d). user_exists d (acc_user_id a)) \<and>
     (\<forall>a \<in> set (db_ads d). user_exists d (ad_user_id a)) \<and>
     (\<forall>g \<in> set (db_groups d). user_exists d (grp_user_id g) \<and> grp_account_id g \<in> acc_id ` set (db_accounts d)) \<and>
     (\<forall>s \<in> set (db_schedules d). sch_ad_id s \<in> ad_id ` set (db_ads d) \<and>
        (case sch_account_id s of None \<Rightarrow> True | Some i \<Rightarrow> i \<in> acc_id ` set (db_accounts d)))"

lemma delete_user_refs:
  assumes "refs_ok d"
  shows "refs_ok (delete_user_row uid d)"
proof -
  have user: "user_exists (delete_user_row uid d) n \<longleftrightarrow> user_exists d n \<and> n \<noteq> uid" for n
    by (auto simp: user_exists_def delete_user_row_def Let_def)
  have account: "i \<in> acc_id ` set (db_accounts (delete_user_row uid d))"
    if "i \<in> acc_id ` set (db_accounts d)" "\<not> (\<exists>a \<in> set (db_accounts d). acc_id a = i \<and> acc_user_id a = uid)" for i
    using that by (auto simp: delete_user_row_def Let_def)
  have ad: "i \<in> ad_id ` set (db_ads (delete_user_row uid d))"
    if "i \<in> ad_id ` set (db_ads d)" "\<not> (\<exists>a \<in> set (db_ads d). ad_id a = i \<and> ad_user_id a = uid)" for i
    using that by (auto simp: delete_user_row_def Let_def)
  have groups: "user_exists (delete_user_row uid d) (grp_user_id g) \<and> grp_account_id g \<in> acc_id ` set (db_accounts (delete_user_row uid d))"
    if "g \<in> set (db_groups (delete_user_row uid d))" for g
  proof -
    have g: "g \<in> set (db_groups d)" "grp_user_id g \<noteq> uid"
      "\<not> (\<exists>a \<in> set (db_accounts d). acc_id a = grp_account_id g \<and> acc_user_id a = uid)"
      using that by (auto simp: delete_user_row_def Let_def)
    with assms have "user_exists d (grp_user_id g)" "grp_account_id g \<in> acc_id ` set (db_accounts d)"
      by (auto simp: refs_ok_def)
    with g user account show ?thesis by blast
  qed
  have schedules: "sch_ad_id s \<in> ad_id ` set (db_ads (delete_user_row uid d)) \<and>
      (case sch_account_id s of None \<Rightarrow> True | Some i \<Rightarrow> i \<in> acc_id ` set (db_accounts (delete_user_row uid d)))"
    if s: "s \<in> set (db_schedules (delete_user_row uid d))" for s
  proof -
    obtain s0 where s0: "s0 \<in> set (db_schedules d)"
      "\<not> (\<exists>a \<in> set (db_ads d). ad_id a = sch_ad_id s0 \<and> ad_user_id a = uid)"
      "s = (case sch_account_id s0 of None \<Rightarrow> s0
            | Some i \<Rightarrow> if \<exists>a \<in> set (db_accounts d). acc_id a = i \<and> acc_user_id a = uid then s0\<lparr>sch_account_id := None\<rparr> else s0)"
      using s by (auto simp: delete_user_row_def Let_def)
    have refs: "sch_ad_id s0 \<in> ad_id ` set (db_ads d)"
      "case sch_account_id s0 of None \<Rightarrow> True | Some i \<Rightarrow> i \<in> acc_id ` set (db_accounts d)"
      using assms s0(1) unfolding refs_ok_def by blast+
    show ?thesis
      using s0(3) ad [OF refs(1) s0(2)] refs(2) account by (cases "sch_account_id s0") (auto split: if_splits)
  qed
  have "user_exists (delete_user_row uid d) (sub_user_id s)" if "s \<in> set (db_subscriptions (delete_user_row uid d))" for s
    using that assms user by (auto simp: refs_ok_def delete_user_row_def Let_def)
  moreover have "user_exists (delete_user_row uid d) (pay_user_id s)" if "s \<in> set (db_payments (delete_user_row uid d))" for s
    using that assms user by (auto simp: refs_ok_def delete_user_row_def Let_def)
  moreover have "user_exists (delete_user_row uid d) (acc_user_id s)" if "s \<in> set (db_accounts (delete_user_row uid d))" for s
    using that assms user by (auto simp: refs_ok_def delete_user_row_def Let_def)
  moreover have "user_exists (delete_user_row uid d) (ad_user_id s)" if "s \<in> set (db_ads (delete_user_row uid d))" for s
    using that assms user by (auto simp: refs_ok_def delete_user_row_def Let_def)
  ultimately show ?thesis using groups schedules by (auto simp: refs_ok_def)
qed


lemma respond_dashboard: "\<exists>r. respond oob rq ''/dashboard'' None None = Inr r"
  and respond_admin: "\<exists>r. respond oob rq ''/admin'' None None = Inr r"
proof -
  have "with_notice ''/dashboard'' None = Inr ''/dashboard''" "location_response ''/dashboard'' = Inr (HxLocation ''/dashboard'')"
    "with_notice ''/admin'' None = Inr ''/admin''" "location_response ''/admin'' = Inr (HxLocation ''/admin'')"
    "require_registered_notice None = Inr ()"
    by code_simp+
  then show "\<exists>r. respond oob rq ''/dashboard'' None None = Inr r" "\<exists>r. respond oob rq ''/admin'' None None = Inr r"
    by (cases "is_htmx rq"; simp add: respond_def)+
qed

text \<open>
  entering the account of a user and leaving it is a way there and back: with the cookie it was
  given the browser is shown the pages of the user with the administrator as the acting person, and
  the way back answers with a full session of the administrator and no acting person, as long as he
  exists, is not blocked and the library accepts the token.
\<close>

theorem impersonation_round_trip:
  assumes enter: "admin_impersonate en ul oob now rq uid d = Inr (r, SetCookie t secure)"
    and admin: "require_admin (en_lib en) (en_cfg en) now rq d = Inr admin"
    and lib: "jwt_returns (en_lib en) later (as_secret_key (en_cfg en))
        (access_claims now uid IMPERSONATION_EXPIRE_MINUTES (Some (user_id admin)))"
    and cookie: "rq_session_cookie rq' = Some t" "t \<noteq> []" "is_same_origin ul rq' = Inr True"
    and rows: "find_row user_id uid (db_users d') = Some u'" "find_row user_id (user_id admin) (db_users d') = Some admin'"
      "\<not> user_is_blocked admin'"
  shows "uid \<noteq> user_id admin \<and>
    get_user_from_cookie (en_lib en) (en_cfg en) later rq' d' = Inr (Some \<lparr>pu_user = u', pu_actor = Some admin'\<rparr>) \<and>
    (\<exists>r'. stop_impersonation en ul later rq' d' =
       Inr (r', set_session_cookie
         (create_access_token (en_lib en) later (user_id admin) (as_secret_key (en_cfg en)) ACCESS_EXPIRE_MINUTES None) (en_cfg en)))"
proof -
  obtain admin0 u where u: "admin_request en ul True now rq d = Inr (Some admin0)" "target_user uid d = Some u"
    "user_id u \<noteq> user_id admin0"
    "t = create_access_token (en_lib en) now (user_id u) (as_secret_key (en_cfg en)) IMPERSONATION_EXPIRE_MINUTES (Some (user_id admin0))"
    using impersonate_cookie [OF enter] by blast
  have [simp]: "admin0 = admin" using admin_request_Some(1) [OF u(1)] admin by simp
  have uid: "user_id u = uid" using target_user_Some [OF u(2)] by blast
  obtain p where p: "decode_access_token (en_lib en) later t (as_secret_key (en_cfg en)) = Inr (Some p)" "subject p = Inr uid"
    "actor_id (Some p) = Some (user_id admin)"
    using session_token_decodes(1) [OF lib] u(4) uid by auto
  have "p \<noteq> []" using p(3) by auto
  then have "get_user_from_cookie (en_lib en) (en_cfg en) later rq' d' = Inr (Some \<lparr>pu_user = u', pu_actor = Some admin'\<rparr>)"
    using p cookie rows by (simp add: get_user_from_cookie_def)
  moreover obtain r' where "respond (\<lambda>_. []) rq' ''/admin'' None None = Inr r'" using respond_admin by blast
  moreover have "user_id admin' = user_id admin" using find_row_Some [OF rows(2)] by simp
  ultimately show ?thesis using p cookie rows u(3) uid by (simp add: stop_impersonation_def)
qed

section \<open>The search and the pages of the list\<close>

definition like_special :: "char \<Rightarrow> bool" where
  "like_special c \<longleftrightarrow> c = CHR 0x5C \<or> c = CHR ''%'' \<or> c = CHR ''_''"

definition like_escape :: "string \<Rightarrow> string" where
  "like_escape s = concat (map (\<lambda>c. if like_special c then [CHR 0x5C, c] else [c]) s)"

lemma replace_char_append: "replace_char c r (xs @ ys) = replace_char c r xs @ replace_char c r ys"
  by (simp add: replace_char_def)

lemma replace_chain:
  "replace_char (CHR ''_'') [CHR 0x5C, CHR ''_'']
     (replace_char (CHR ''%'') [CHR 0x5C, CHR ''%''] (replace_char (CHR 0x5C) [CHR 0x5C, CHR 0x5C] s)) = like_escape s"
proof (induction s)
  case (Cons c s)
  then show ?case
    by (cases "c = CHR 0x5C"; cases "c = CHR ''%''"; cases "c = CHR ''_''")
       (simp_all add: replace_char_def like_escape_def like_special_def)
qed (simp add: replace_char_def like_escape_def)

lemma lower_special: "like_special (lower_char c) = like_special c" "like_special c \<Longrightarrow> lower_char c = c"
proof -
  have inj: "c = d \<longleftrightarrow> code_point c = code_point d" for c d by (simp add: code_point_def)
  have bound: "code_point (lower_char c) =
      (if 65 \<le> code_point c \<and> code_point c \<le> 90 \<or> 192 \<le> code_point c \<and> code_point c \<le> 222 \<and> code_point c \<noteq> 215
       then code_point c + 32 else code_point c)"
    by (simp add: lower_char_def Let_def code_point_def of_char_of)
  show "like_special (lower_char c) = like_special c"
    by (simp add: like_special_def inj bound) (simp add: code_point_def)
  show "lower_char c = c" if "like_special c"
    using that by (auto simp: like_special_def lower_char_def code_point_def)
qed

lemma lower_escape: "lower (like_escape s) = like_escape (lower s)"
proof (induction s)
  case (Cons c s)
  have "lower_char (CHR 0x5C) = CHR 0x5C" by (rule lower_special(2)) (simp add: like_special_def)
  with Cons show ?case by (cases "like_special c") (simp_all add: lower_def like_escape_def lower_special)
qed (simp add: lower_def like_escape_def)

lemma sql_like_escape: "sql_like (like_escape t @ ps) s \<longleftrightarrow> (\<exists>v. s = t @ v \<and> sql_like ps v)"
proof (induction t arbitrary: s)
  case (Cons c t)
  then show ?case
    by (cases s) (auto simp: like_escape_def like_special_def)
qed (simp add: like_escape_def)

lemma sql_like_percent: "sql_like (CHR ''%'' # ps) s \<longleftrightarrow> (\<exists>u v. s = u @ v \<and> sql_like ps v)"
proof (induction s)
  case (Cons c s)
  then show ?case by (auto simp: Cons_eq_append_conv)
qed simp

lemma search_is_literal: "sql_like (search_pattern t) s \<longleftrightarrow> sublist (lower t) s"
proof -
  have "lower (CHR ''%'' # xs @ ''%'') = CHR ''%'' # lower xs @ ''%''" for xs
    by (simp add: lower_def lower_special(2) like_special_def)
  then have pattern: "search_pattern t = CHR ''%'' # like_escape (lower t) @ ''%''"
    by (simp add: search_pattern_def replace_chain lower_escape)
  have all: "sql_like ''%'' v" for v
    by (subst sql_like_percent) (auto intro: exI [of _ v])
  show ?thesis
    by (simp only: pattern sql_like_percent sql_like_escape all) (auto simp: sublist_def)
qed

text \<open>
  the search of the administrator is literal: whatever the text holds, percent signs,
  underscores and backslashes included, the list shows exactly the users whose name or address
  contains the stripped text in any case of its letters.
\<close>

theorem user_search_is_literal:
  "u \<in> set (apply_user_filters (Some text) None None now d) \<longleftrightarrow>
     u \<in> set (db_users d) \<and>
     (strip text = [] \<or> sublist (lower (strip text)) (lower (user_name u)) \<or> sublist (lower (strip text)) (lower (user_email u)))"
  by (auto simp: apply_user_filters_def Let_def search_is_literal access_axis_clause_simps state_clause_def)

lemma concat_pages:
  "concat (map (\<lambda>i. take n (drop (i * n) xs)) [0..<k]) = take (k * n) xs"
proof (induction k)
  case (Suc k)
  have "take (Suc k * n) xs = take (k * n) xs @ take n (drop (k * n) xs)"
    using take_add [of "k * n" n xs] by (simp add: add.commute)
  with Suc show ?case by simp
qed simp

lemma ceil_pages:
  assumes "(0::int) < n"
  shows "int t \<le> max 1 (- ((- int t) div n)) * n"
proof -
  have "n * (- int t div n) + - int t mod n = - int t" by (rule mult_div_mod_eq)
  then have "int t \<le> - (n * (- int t div n))" using pos_mod_sign [OF assms, of "- int t"] by linarith
  then have "int t \<le> - ((- int t) div n) * n" by (simp add: mult.commute)
  also have "\<dots> \<le> max 1 (- ((- int t) div n)) * n" using assms by (intro mult_right_mono) auto
  finally show ?thesis .
qed

text \<open>
  the pages of the list are a partition of what was found: one after another they show every
  found user exactly once, by identifier, at most fifty to a page, and a page number out of range is
  shown as the nearest page there is.
\<close>

theorem users_pages_partition:
  "let found = apply_user_filters search access state now d;
       view = (\<lambda>p. users_page search access state now p d);
       pages = up_pages (view 1)
   in 1 \<le> pages \<and> up_total (view p) = length found \<and> up_pages (view p) = pages \<and>
      up_page (view p) = (if p < 1 then 1 else if p > pages then pages else p) \<and>
      view p = view (up_page (view p)) \<and> length (up_users (view p)) \<le> 50 \<and>
      concat (map (\<lambda>i. up_users (view (int i + 1))) [0..<nat pages]) = sort_key user_id found"
proof -
  define found where "found = apply_user_filters search access state now d"
  define pages where "pages = max 1 (- ((- int (length found)) div int USERS_PAGE_SIZE))"
  have view: "users_page search access state now q d =
      \<lparr>up_users = take 50 (drop (nat ((min (max q 1) pages - 1) * 50)) (sort_key user_id found)),
       up_total = length found, up_page = min (max q 1) pages, up_pages = pages\<rparr>" for q
    by (simp add: users_page_def Let_def found_def pages_def USERS_PAGE_SIZE_def)
  have pos: "1 \<le> pages" by (simp add: pages_def)
  have cover: "int (length found) \<le> pages * 50"
    using ceil_pages [of 50 "length found"] by (simp add: pages_def USERS_PAGE_SIZE_def)
  have page: "take 50 (drop (nat ((min (max (int i + 1) 1) pages - 1) * 50)) xs) = take 50 (drop (i * 50) xs)"
    if "i < nat pages" for i and xs :: "user list"
  proof -
    have "min (max (int i + 1) 1) pages - 1 = int i" using that by linarith
    moreover have "nat (int i * 50) = i * 50" by (metis nat_int of_nat_mult of_nat_numeral)
    ultimately show ?thesis by simp
  qed
  have "concat (map (\<lambda>i. take 50 (drop (nat ((min (max (int i + 1) 1) pages - 1) * 50)) (sort_key user_id found))) [0..<nat pages]) =
      concat (map (\<lambda>i. take 50 (drop (i * 50) (sort_key user_id found))) [0..<nat pages])"
    by (intro arg_cong [where f = concat] map_cong refl page) auto
  also have "\<dots> = take (nat pages * 50) (sort_key user_id found)" by (rule concat_pages)
  also have "\<dots> = sort_key user_id found" using cover pos by (intro take_all) (simp add: nat_le_iff)
  finally have "concat (map (\<lambda>i. take 50 (drop (nat ((min (max (int i + 1) 1) pages - 1) * 50)) (sort_key user_id found))) [0..<nat pages]) =
      sort_key user_id found" .
  then show ?thesis using pos by (simp add: Let_def view found_def [symmetric])
qed

text \<open>
  granting free access works at once and through the cache: after the handler changed the row of
  a user, the next question about this user is answered from the new row, the grant opens the
  product, and a second press takes the first one back.
\<close>

theorem free_access_is_immediate:
  assumes run: "admin_toggle_free_access en ul oob buttons io now rq uid (d, c) = (r, d', c')" "d' \<noteq> d"
    and io: "has_client io" "write_ok io"
    and ok: "subscriptions_ok (db_subscriptions d)"
  shows "\<exists>s. active_rows uid d = [s] \<and> d' = toggle_free_row s d \<and>
    fst (check_access_cached io' later d' uid ''send'' c') = check_access later uid d' \<and>
    (\<not> sub_has_free_access s \<longrightarrow> check_access later uid d' = (True, '''')) \<and>
    toggle_free_row (s\<lparr>sub_has_free_access := \<not> sub_has_free_access s\<rparr>) d' = d"
proof -
  obtain admin u s where u: "target_user uid d = Some u" "active_rows (user_id u) d = [s]" "d' = toggle_free_row s d"
    "c' = invalidate_access_cache io (user_id u) c"
    using run by (auto simp: admin_toggle_free_access_def Let_def split: sum.splits option.splits list.splits)
  have uid: "user_id u = uid" using target_user_Some [OF u(1)] by blast
  let ?s = "s\<lparr>sub_has_free_access := \<not> sub_has_free_access s\<rparr>"
  have s: "s \<in> set (db_subscriptions d)" "active_rows uid d = [s]" "sub_is_active s"
    using u(2) uid active_rows_iff [of s uid d] by auto
  have ids: "x = s" if "x \<in> set (db_subscriptions d)" "sub_id x = sub_id s" for x
    using ok s(1) that by (auto simp: subscriptions_ok_def distinct_map inj_on_def)
  have "active_rows uid d' = map (\<lambda>x. if sub_id x = sub_id s then x\<lparr>sub_has_free_access := \<not> sub_has_free_access s\<rparr> else x)
      (active_rows uid d)"
    by (simp add: active_rows_def u(3) toggle_free_row_def update_where_def filter_map comp_def if_distrib cong: if_cong)
  then have new: "active_rows uid d' = [?s]" by (simp add: s(2))
  have "cache_get later (cache_key uid) c' = None"
    using io u(4) uid by (simp add: invalidate_access_cache_def cache_get_def)
  then have "fst (check_access_cached io' later d' uid ''send'' c') = check_access later uid d'"
    by (simp add: check_access_cached_def Let_def)
  moreover have "check_access later uid d' = (True, '''')" if "\<not> sub_has_free_access s"
    using that s(3) by (simp add: check_access_def new access_is_open_def)
  moreover have "toggle_free_row ?s d' = d"
  proof -
    let ?f = "\<lambda>b x. if sub_id x = sub_id s then x\<lparr>sub_has_free_access := b\<rparr> else x"
    have "map (?f (sub_has_free_access s) \<circ> ?f (\<not> sub_has_free_access s)) (db_subscriptions d) = db_subscriptions d"
    proof (rule map_idI)
      fix x assume x: "x \<in> set (db_subscriptions d)"
      show "(?f (sub_has_free_access s) \<circ> ?f (\<not> sub_has_free_access s)) x = x"
      proof (cases "sub_id x = sub_id s")
        case True
        with ids [OF x] have "x = s" by blast
        then show ?thesis by simp
      qed simp
    qed
    then show ?thesis by (simp add: u(3) toggle_free_row_def update_where_def)
  qed
  ultimately show ?thesis using s(2) u(3) by blast
qed

section \<open>The properties at concrete inputs\<close>

definition second_user :: user where
  "second_user = sample_user\<lparr>user_id := 2, user_email := ''c@d'', user_name := ''c''\<rparr>"

definition two_users_db :: db where
  "two_users_db = sample_db\<lparr>db_users := [sample_user, second_user],
     db_subscriptions := [sample_subscription\<lparr>sub_user_id := 2\<rparr>]\<rparr>"

definition no_buttons :: buttons where
  "no_buttons d u admin = Inr \<lparr>bd_status = 200, bd_content_type = ''text/html'', bd_body = Some ''x'', bd_content_length = None\<rparr>"

abbreviation admin_env :: sign_env where
  "admin_env \<equiv> sample_env (two_tokens None)"

lemma two_users_rows:
  "find_row user_id 1 (db_users two_users_db) = Some sample_user"
  "find_row user_id 2 (db_users two_users_db) = Some second_user"
  "target_user 2 two_users_db = Some second_user"
  by (simp_all add: two_users_db_def sample_user_def second_user_def target_user_def id_in_column_def ID_MAX_def)

lemma sample_admin: "require_admin (two_tokens None) sample_auth now cookie_request two_users_db = Inr sample_user"
  using cookie_user [OF two_users_rows(1)]
  by (simp add: require_admin_def cookie_actor email_is_admin_def sample_auth_def sample_user_def)

lemma cookie_same_origin: "is_same_origin lib cookie_request = Inr True"
  by (simp add: is_same_origin_def header_def cookie_request_def plain_request_def)

lemma sample_admin_request: "admin_request admin_env lib own now cookie_request two_users_db = Inr (Some sample_user)"
  by (simp add: admin_request_def sample_admin cookie_same_origin forbid_when_impersonating_def cookie_actor)

theorem admin_actions_guarded_witness:
  "sample_user \<in> set (db_users (snd (admin_toggle_block admin_env strict_lib (\<lambda>_. []) no_buttons 5 cookie_request 2 two_users_db))) \<and>
   snd (admin_toggle_block admin_env strict_lib (\<lambda>_. []) no_buttons 5 cookie_request 2 two_users_db) = toggle_block_row second_user two_users_db \<and>
   snd (admin_delete_user admin_env strict_lib (\<lambda>_. []) 5 cookie_request 1 two_users_db) = two_users_db"
proof -
  have admin: "require_admin (en_lib admin_env) (en_cfg admin_env) 5 cookie_request two_users_db = Inr sample_user"
    by (simp add: sample_admin)
  have "user_id second_user \<noteq> user_id sample_user" by (simp add: second_user_def sample_user_def)
  then have "snd (admin_toggle_block admin_env strict_lib (\<lambda>_. []) no_buttons 5 cookie_request 2 two_users_db) = toggle_block_row second_user two_users_db"
    by (simp add: admin_toggle_block_def sample_admin_request two_users_rows Let_def)
  moreover have "(1::int) = user_id sample_user" by (simp add: sample_user_def)
  ultimately show ?thesis
    using admin_actions_guarded [OF admin, of strict_lib "\<lambda>_. []" no_buttons 2] admin_actions_guarded [OF admin, of strict_lib "\<lambda>_. []" no_buttons 1] by blast
qed

lemma two_users_refs: "refs_ok two_users_db"
  by (simp add: refs_ok_def two_users_db_def sample_db_def empty_db_def user_exists_def sample_user_def second_user_def sample_subscription_def)


text \<open>A library that knows the cookie of the administrator and the one he is given.\<close>

definition entering_jwt :: jwt_lib where
  "entering_jwt = sample_jwt (access_claims 0 1 60 None) (access_claims 0 2 60 (Some 1))"

lemma entering_claims: "access_claims 0 1 60 None \<noteq> access_claims 0 2 60 (Some 1)"
  by (simp add: access_claims_def)

lemma entering_cookie:
  "\<exists>p. decode_access_token entering_jwt now ''s'' key = Inr (Some p) \<and> subject p = Inr 1 \<and> actor_id (Some p) = None"
  using session_token_decodes(1) [OF sample_jwt_returns(1), of 0 1 60 None "access_claims 0 2 60 (Some 1)" now key]
  by (simp add: entering_jwt_def create_access_token_def) (simp add: sample_jwt_def)

lemma entering_admin:
  "require_admin entering_jwt sample_auth now cookie_request two_users_db = Inr sample_user"
  "admin_request (sample_env entering_jwt) lib own now cookie_request two_users_db = Inr (Some sample_user)"
proof -
  obtain p where p: "decode_access_token entering_jwt now ''s'' (as_secret_key sample_auth) = Inr (Some p)" "subject p = Inr 1"
    "actor_id (Some p) = None"
    using entering_cookie by blast
  then have actor: "request_actor entering_jwt sample_auth now cookie_request = Inr None" by (simp add: request_actor_def)
  then show admin: "require_admin entering_jwt sample_auth now cookie_request two_users_db = Inr sample_user"
    using p two_users_rows(1) by (simp add: require_admin_def get_current_user_def email_is_admin_def sample_auth_def sample_user_def)
  then show "admin_request (sample_env entering_jwt) lib own now cookie_request two_users_db = Inr (Some sample_user)"
    using actor by (simp add: admin_request_def cookie_same_origin forbid_when_impersonating_def)
qed

definition entered_request :: http_request where
  "entered_request = plain_request\<lparr>rq_session_cookie := Some ''v''\<rparr>"

theorem impersonation_round_trip_witness:
  "\<exists>r' c. stop_impersonation (sample_env entering_jwt) strict_lib 7 entered_request two_users_db = Inr (r', c) \<and>
    c = set_session_cookie (create_access_token entering_jwt 7 1 ''secret'' ACCESS_EXPIRE_MINUTES None) sample_auth"
proof -
  have ids: "user_id second_user = 2" "user_id sample_user = 1" by (simp_all add: second_user_def sample_user_def)
  have key: "as_secret_key sample_auth = ''secret''" by (simp add: sample_auth_def)
  have token: "create_access_token entering_jwt 0 2 ''secret'' IMPERSONATION_EXPIRE_MINUTES (Some 1) = ''v''"
    using entering_claims by (simp add: create_access_token_def entering_jwt_def sample_jwt_def IMPERSONATION_EXPIRE_MINUTES_def)
  obtain r where "respond (\<lambda>_. []) cookie_request ''/dashboard'' None None = Inr r" using respond_dashboard by blast
  then have enter: "admin_impersonate (sample_env entering_jwt) strict_lib (\<lambda>_. []) 0 cookie_request 2 two_users_db = Inr (r, SetCookie ''v'' True)"
    by (simp add: admin_impersonate_def entering_admin two_users_rows ids set_session_cookie_def key token)
       (simp add: sample_auth_def)
  have admin: "require_admin (en_lib (sample_env entering_jwt)) (en_cfg (sample_env entering_jwt)) 0 cookie_request two_users_db = Inr sample_user"
    by (simp add: entering_admin)
  have lib: "jwt_returns (en_lib (sample_env entering_jwt)) 7 (as_secret_key (en_cfg (sample_env entering_jwt)))
      (access_claims 0 2 IMPERSONATION_EXPIRE_MINUTES (Some (user_id sample_user)))"
    using sample_jwt_returns(2) [OF entering_claims] by (simp add: entering_jwt_def IMPERSONATION_EXPIRE_MINUTES_def ids)
  have cookie: "rq_session_cookie entered_request = Some ''v''" "is_same_origin strict_lib entered_request = Inr True"
    by (simp_all add: entered_request_def plain_request_def is_same_origin_def header_def)
  have rows: "find_row user_id (user_id sample_user) (db_users two_users_db) = Some sample_user" "\<not> user_is_blocked sample_user"
    using two_users_rows(1) by (simp_all add: ids) (simp add: sample_user_def)
  from impersonation_round_trip [OF enter admin lib cookie(1) _ cookie(2) two_users_rows(2) rows]
  show ?thesis by (simp add: ids key)
qed

theorem free_access_is_immediate_witness:
  "\<exists>r d' c'. admin_toggle_free_access admin_env strict_lib (\<lambda>_. []) no_buttons \<lparr>has_client = True, read_ok = True, write_ok = True\<rparr> 5 cookie_request 2
      (two_users_db, \<lambda>_. None) = (r, d', c') \<and>
    fst (check_access_cached \<lparr>has_client = True, read_ok = True, write_ok = True\<rparr> 100 d' 2 ''send'' c') = (True, '''')"
proof -
  have rows: "active_rows (user_id second_user) two_users_db = [sample_subscription\<lparr>sub_user_id := 2\<rparr>]"
    by (simp add: active_rows_def two_users_db_def second_user_def sample_subscription_def)
  obtain r d' c' where run: "admin_toggle_free_access admin_env strict_lib (\<lambda>_. []) no_buttons \<lparr>has_client = True, read_ok = True, write_ok = True\<rparr> 5
      cookie_request 2 (two_users_db, \<lambda>_. None) = (r, d', c')" by (metis prod_cases3)
  then have d': "d' = toggle_free_row (sample_subscription\<lparr>sub_user_id := 2\<rparr>) two_users_db"
    by (simp add: admin_toggle_free_access_def sample_admin_request two_users_rows rows Let_def)
  then have "d' \<noteq> two_users_db"
    by (simp add: toggle_free_row_def two_users_db_def sample_db_def empty_db_def sample_subscription_def)
  moreover have "subscriptions_ok (db_subscriptions two_users_db)"
    by (simp add: two_users_db_def subscriptions_ok_def uq_subscriptions_active_def unique_where_def)
  ultimately obtain s where s: "active_rows 2 two_users_db = [s]"
    "fst (check_access_cached \<lparr>has_client = True, read_ok = True, write_ok = True\<rparr> 100 d' 2 ''send'' c') = check_access 100 2 d'"
    "\<not> sub_has_free_access s \<longrightarrow> check_access 100 2 d' = (True, '''')"
    using free_access_is_immediate [OF run, of "\<lparr>has_client = True, read_ok = True, write_ok = True\<rparr>" 100] by auto
  have "s = sample_subscription\<lparr>sub_user_id := 2\<rparr>" using s(1) rows by (simp add: second_user_def)
  then have "\<not> sub_has_free_access s" by (simp add: sample_subscription_def)
  with run s show ?thesis by auto
qed

end
