(* ===== verification/Image_Uploads.thy ===== *)
theory Image_Uploads
  imports Urls "HOL-Library.Word"
begin

text \<open>
  Attachments: the names of stored images (\<open>app/services/image_keys.py\<close>), the processing of one
  uploaded file (\<open>app/services/image_upload.py\<close>) and the decoding, scaling and encoding around the
  imaging library (\<open>app/services/images.py\<close>). The imaging library, the object storage and the
  generator of unique names are arguments: \<open>pillow\<close> is the record of the library's operations,
  the storage answers each key with success or an exception and a failed write leaves the bucket as
  it was, and a unique name is 32 hexadecimal digits. Messages to the reader are named by what they say.
\<close>

type_synonym bytes = "8 word list"
type_synonym bucket = "string \<rightharpoonup> bytes \<times> string"

section \<open>Names of stored images\<close>

definition is_key_char :: "char \<Rightarrow> bool" where
  "is_key_char c \<longleftrightarrow> is_ascii_letter c \<or> is_digit c \<or> c \<in> {CHR ''.'', CHR ''_'', CHR ''-''}"

definition is_hex_digit :: "char \<Rightarrow> bool" where
  "is_hex_digit c \<longleftrightarrow> is_digit c \<or> 97 \<le> code_point c \<and> code_point c \<le> 102"

text \<open>\<open>_IMAGE_KEY_PATTERN.fullmatch\<close> and its first group, the owner.\<close>

definition image_key_match :: "string \<Rightarrow> string option" where
  "image_key_match v =
     (let owner = before (CHR ''/'') v;
          rest = after (CHR ''/'') v;
          name = drop 33 rest
      in if CHR ''/'' \<in> set v \<and> owner \<noteq> [] \<and> list_all is_digit owner \<and> hd owner \<noteq> CHR ''0''
            \<and> 33 \<le> length rest \<and> list_all is_hex_digit (take 32 rest) \<and> rest ! 32 = CHR ''_''
            \<and> 1 \<le> length name \<and> length name \<le> 100 \<and> list_all is_key_char name
         then Some owner else None)"

definition THUMB_KEY_PREFIX :: string where "THUMB_KEY_PREFIX = ''thumbs/''"

definition thumb_key :: "string \<Rightarrow> string" where
  "thumb_key key =
     (if key = [] then [] else if starts_with key THUMB_KEY_PREFIX then key else THUMB_KEY_PREFIX @ key)"

definition partition_own_image_keys :: "string list \<Rightarrow> int \<Rightarrow> string list \<times> string list" where
  "partition_own_image_keys values uid =
     (filter (\<lambda>v. image_key_match v = Some (int_str uid)) values,
      filter (\<lambda>v. image_key_match v \<noteq> Some (int_str uid)) values)"

definition own_image_keys :: "string list \<Rightarrow> int \<Rightarrow> nat \<Rightarrow> exn + string list" where
  "own_image_keys values uid max_images =
     (if length values > max_images then Inl (HTTPException 400)
      else let (own, offending) = partition_own_image_keys values uid
           in if offending \<noteq> [] then Inl (HTTPException 400) else Inr own)"

section \<open>The imaging library\<close>

record 'i pillow =
  pl_open :: "bytes \<Rightarrow> exn + 'i"
  pl_format :: "'i \<Rightarrow> string option"
  pl_size :: "'i \<Rightarrow> int \<times> int"
  pl_draft :: "int \<Rightarrow> 'i \<Rightarrow> 'i"
  pl_transpose :: "'i \<Rightarrow> exn + 'i"
  pl_mode :: "'i \<Rightarrow> string"
  pl_bands :: "'i \<Rightarrow> string list"
  pl_transparency :: "'i \<Rightarrow> bool"
  pl_convert :: "string \<Rightarrow> 'i \<Rightarrow> 'i"
  pl_alpha_min :: "'i \<Rightarrow> nat"
  pl_on_white :: "'i \<Rightarrow> 'i"
  pl_resize :: "int \<times> int \<Rightarrow> 'i \<Rightarrow> 'i"
  pl_encode :: "string \<Rightarrow> nat \<Rightarrow> 'i \<Rightarrow> bytes"

definition MAX_DECODED_PIXELS :: int where "MAX_DECODED_PIXELS = 30000000"
definition DELIVERY_MAX_EDGE :: int where "DELIVERY_MAX_EDGE = 1920"
definition DELIVERY_JPEG_QUALITY :: nat where "DELIVERY_JPEG_QUALITY = 85"
definition THUMB_MAX_EDGE :: int where "THUMB_MAX_EDGE = 480"
definition THUMB_JPEG_QUALITY :: nat where "THUMB_JPEG_QUALITY = 75"

definition JPEG :: string where "JPEG = ''JPEG''"
definition PNG :: string where "PNG = ''PNG''"

definition format_content_type :: "string \<Rightarrow> string" where
  "format_content_type f = (if f = JPEG then ''image/jpeg'' else ''image/png'')"

definition format_extension :: "string \<Rightarrow> string" where
  "format_extension f = (if f = JPEG then ''.jpg'' else ''.png'')"

definition has_real_alpha :: "'i pillow \<Rightarrow> 'i \<Rightarrow> bool" where
  "has_real_alpha pl im =
     (if pl_mode pl im = ''P''
      then (if \<not> pl_transparency pl im then False else pl_alpha_min pl (pl_convert pl ''RGBA'' im) < 255)
      else if ''A'' \<in> set (pl_bands pl im) then pl_alpha_min pl im < 255
      else False)"

text \<open>
  \<open>round(a / b)\<close> for a positive divisor: to the nearest, a half to the even neighbour. On images
  the decoder admits the quotient stays below 1920 with a divisor below \<open>2 ^ 25\<close>, so the division in
  double precision cannot cross or reach a half that the exact quotient does not.
\<close>

definition round_div :: "int \<Rightarrow> int \<Rightarrow> int" where
  "round_div a b =
     (let q = a div b; r = a mod b
      in if 2 * r < b then q else if b < 2 * r then q + 1 else if even q then q else q + 1)"

definition fit_target :: "int \<times> int \<Rightarrow> int \<Rightarrow> (int \<times> int) option" where
  "fit_target dims max_edge =
     (let (w, h) = dims
      in if max w h \<le> max_edge then None
         else if h \<le> w then Some (max_edge, max 1 (round_div (h * max_edge) w))
         else Some (max 1 (round_div (w * max_edge) h), max_edge))"

definition fit_long_edge :: "'i pillow \<Rightarrow> 'i \<Rightarrow> int \<Rightarrow> 'i" where
  "fit_long_edge pl im max_edge =
     (case fit_target (pl_size pl im) max_edge of None \<Rightarrow> im | Some t \<Rightarrow> pl_resize pl t im)"

definition normalise_mode :: "'i pillow \<Rightarrow> 'i \<Rightarrow> bool \<Rightarrow> 'i" where
  "normalise_mode pl im keeps_alpha =
     (if keeps_alpha then (if pl_mode pl im = ''RGBA'' then im else pl_convert pl ''RGBA'' im)
      else if ''A'' \<in> set (pl_bands pl im) \<or> pl_mode pl im = ''P'' \<and> pl_transparency pl im
      then pl_on_white pl (pl_convert pl ''RGBA'' im)
      else if pl_mode pl im \<in> {''RGB'', ''L''} then im
      else pl_convert pl ''RGB'' im)"

record prepared_image =
  pi_delivery :: bytes
  pi_thumbnail :: bytes
  pi_content_type :: string
  pi_extension :: string

text \<open>The \<open>except\<close> clauses around the decoding: what the library raises is renamed, the rest escapes.\<close>

definition decode_error :: "exn \<Rightarrow> exn" where
  "decode_error e =
     (if e = DecompressionBombError then ImageTooLarge
      else if e \<in> {UnidentifiedImageError, OSError, SyntaxError, ValueError} then ImageUnreadable
      else e)"

text \<open>The header is judged before a pixel is decoded; a JPEG is asked for a reduced decode.\<close>

definition open_checked :: "'i pillow \<Rightarrow> bytes \<Rightarrow> exn + string \<times> 'i" where
  "open_checked pl content =
     (case pl_open pl content of
        Inl e \<Rightarrow> Inl (decode_error e)
      | Inr opened \<Rightarrow>
          (case pl_format pl opened of
             None \<Rightarrow> Inl ImageUnreadable
           | Some f \<Rightarrow>
               if f \<notin> {JPEG, PNG} then Inl ImageUnreadable
               else let (width, height) = pl_size pl opened
                    in if width * height > MAX_DECODED_PIXELS then Inl ImageTooLarge else Inr (f, opened)))"

definition decode_image :: "'i pillow \<Rightarrow> int \<Rightarrow> bytes \<Rightarrow> exn + string \<times> 'i" where
  "decode_image pl edge content =
     bind_res (open_checked pl content) (\<lambda>(f, opened).
       case pl_transpose pl (if f = JPEG then pl_draft pl edge opened else opened) of
         Inl e \<Rightarrow> Inl (decode_error e)
       | Inr im \<Rightarrow> Inr (f, im))"

definition prepare_upload :: "'i pillow \<Rightarrow> bytes \<Rightarrow> exn + prepared_image" where
  "prepare_upload pl content =
     bind_res (decode_image pl DELIVERY_MAX_EDGE content) (\<lambda>(f, decoded).
       let keeps_alpha = (f = PNG \<and> has_real_alpha pl decoded);
           target_format = (if keeps_alpha then PNG else JPEG);
           image = normalise_mode pl decoded keeps_alpha;
           delivery_image = fit_long_edge pl image DELIVERY_MAX_EDGE;
           thumbnail_image = fit_long_edge pl delivery_image THUMB_MAX_EDGE
       in Inr \<lparr>pi_delivery = pl_encode pl target_format DELIVERY_JPEG_QUALITY delivery_image,
               pi_thumbnail = pl_encode pl target_format THUMB_JPEG_QUALITY thumbnail_image,
               pi_content_type = format_content_type target_format,
               pi_extension = format_extension target_format\<rparr>)"

record image_probe =
  ip_format :: string
  ip_width :: int
  ip_height :: int

definition long_edge :: "image_probe \<Rightarrow> int" where
  "long_edge p = max (ip_width p) (ip_height p)"

definition probe_image :: "'i pillow \<Rightarrow> bytes \<Rightarrow> exn + image_probe" where
  "probe_image pl content =
     bind_res (open_checked pl content) (\<lambda>(f, opened).
       Inr \<lparr>ip_format = f, ip_width = fst (pl_size pl opened), ip_height = snd (pl_size pl opened)\<rparr>)"

record rebuilt_image =
  rb_delivery :: "bytes option"
  rb_thumbnail :: "bytes option"
  rb_content_type :: string

definition rebuild_stored_image :: "'i pillow \<Rightarrow> bytes \<Rightarrow> bool \<Rightarrow> bool \<Rightarrow> exn + rebuilt_image" where
  "rebuild_stored_image pl content resize thumbnail =
     bind_res (decode_image pl (if resize then DELIVERY_MAX_EDGE else THUMB_MAX_EDGE) content) (\<lambda>(f, decoded).
       let keeps_alpha = (f = PNG \<and> has_real_alpha pl decoded);
           image = normalise_mode pl decoded keeps_alpha;
           delivery_image = (if resize then fit_long_edge pl image DELIVERY_MAX_EDGE else image)
       in Inr \<lparr>rb_delivery = (if resize then Some (pl_encode pl f DELIVERY_JPEG_QUALITY delivery_image) else None),
               rb_thumbnail =
                 (if thumbnail
                  then Some (pl_encode pl f THUMB_JPEG_QUALITY (fit_long_edge pl delivery_image THUMB_MAX_EDGE))
                  else None),
               rb_content_type = format_content_type f\<rparr>)"

section \<open>One uploaded file\<close>

definition MAX_FILENAME_LENGTH :: nat where "MAX_FILENAME_LENGTH = 100"
definition FALLBACK_FILENAME :: string where "FALLBACK_FILENAME = ''upload''"
definition KNOWN_IMAGE_EXTENSIONS :: "string list" where
  "KNOWN_IMAGE_EXTENSIONS = [''.jpeg'', ''.jpg'', ''.png'']"

definition IMAGE_SIGNATURES :: "(bytes \<times> string) list" where
  "IMAGE_SIGNATURES =
     [([0xFF, 0xD8, 0xFF], ''image/jpeg''),
      ([0x89, 0x50, 0x4E, 0x47, 0x0D, 0x0A, 0x1A, 0x0A], ''image/png'')]"

definition sniff_image :: "bytes \<Rightarrow> string option" where
  "sniff_image content =
     map_option snd (List.find (\<lambda>(sig, _). take (length sig) content = sig) IMAGE_SIGNATURES)"

definition last_segment :: "string \<Rightarrow> string" where
  "last_segment s = rev (takeWhile (\<lambda>c. c \<noteq> CHR ''/'' \<and> c \<noteq> CHR 0x5C) (rev s))"

definition or_fallback :: "string \<Rightarrow> string" where
  "or_fallback s = (if s = [] then FALLBACK_FILENAME else s)"

definition safe_filename :: "string option \<Rightarrow> string" where
  "safe_filename filename =
     (case filename of
        None \<Rightarrow> FALLBACK_FILENAME
      | Some f \<Rightarrow>
          if f = [] then FALLBACK_FILENAME
          else or_fallback (take MAX_FILENAME_LENGTH
                 (map (\<lambda>c. if is_key_char c then c else CHR ''_'') (last_segment f))))"

definition retarget_extension :: "string \<Rightarrow> string \<Rightarrow> string" where
  "retarget_extension filename extension =
     (let base = (case List.find (\<lambda>known. ends_with (lower filename) known) KNOWN_IMAGE_EXTENSIONS of
                    None \<Rightarrow> filename
                  | Some known \<Rightarrow> take (length filename - length known) filename)
      in or_fallback (take (MAX_FILENAME_LENGTH - length extension) base) @ extension)"

record upload_settings =
  max_image_size_mb :: nat
  max_images_per_ad :: nat

text \<open>An uploaded part: its declared name and what the reads of it return, in order.\<close>

record upload_part =
  part_filename :: "string option"
  part_reads :: "bytes list"

datatype refusal_reason =
    UNSUPPORTED_IMAGE
  | OVERSIZED_IMAGE
  | SIZE_LIMIT nat
  | STORAGE_UNAVAILABLE
  | UPLOAD_LIMIT nat
  | UPLOAD_PARTS nat
  | INACCESSIBLE_IMAGE

datatype store_result =
    Accepted string
  | Rejected string refusal_reason

text \<open>The reading loop; \<open>None\<close> is the refusal, given before the chunk that crosses the limit is kept.\<close>

fun read_upload :: "nat \<Rightarrow> nat \<Rightarrow> bytes list \<Rightarrow> bytes option" where
  "read_upload max_bytes received [] = Some []"
| "read_upload max_bytes received (chunk # reads) =
     (if chunk = [] then Some []
      else if received + length chunk > max_bytes then None
      else map_option ((@) chunk) (read_upload max_bytes (received + length chunk) reads))"

definition s3_put :: "(string \<Rightarrow> exn option) \<Rightarrow> string \<Rightarrow> bytes \<Rightarrow> string \<Rightarrow> bucket \<Rightarrow> exn option \<times> bucket" where
  "s3_put s3 key content ctype b =
     (case s3 key of None \<Rightarrow> (None, b(key \<mapsto> (content, ctype))) | Some e \<Rightarrow> (Some e, b))"

definition new_key :: "int \<Rightarrow> string \<Rightarrow> string \<Rightarrow> string" where
  "new_key uid uuid filename = int_str uid @ ''/'' @ uuid @ ''_'' @ filename"

definition store_upload ::
  "'i pillow \<Rightarrow> (string \<Rightarrow> exn option) \<Rightarrow> string \<Rightarrow> upload_settings \<Rightarrow> int \<Rightarrow> upload_part \<Rightarrow> bucket \<Rightarrow>
   (exn + store_result) \<times> bucket" where
  "store_upload pl s3 uuid cfg uid part b =
     (let name = safe_filename (part_filename part)
      in case read_upload (max_image_size_mb cfg * 1024 * 1024) 0 (part_reads part) of
           None \<Rightarrow> (Inr (Rejected name (SIZE_LIMIT (max_image_size_mb cfg))), b)
         | Some content \<Rightarrow>
             if sniff_image content = None then (Inr (Rejected name UNSUPPORTED_IMAGE), b)
             else
               case prepare_upload pl content of
                 Inl e \<Rightarrow>
                   (if e = ImageTooLarge then Inr (Rejected name OVERSIZED_IMAGE)
                    else if e = ImageUnreadable then Inr (Rejected name UNSUPPORTED_IMAGE) else Inl e, b)
               | Inr prepared \<Rightarrow>
                   let key = new_key uid uuid (retarget_extension name (pi_extension prepared));
                       (failed, b1) = s3_put s3 key (pi_delivery prepared) (pi_content_type prepared) b
                   in case failed of
                        Some _ \<Rightarrow> (Inl (HTTPException 502), b1)
                      | None \<Rightarrow>
                          (Inr (Accepted key),
                           snd (s3_put s3 (thumb_key key) (pi_thumbnail prepared) (pi_content_type prepared) b1)))"

section \<open>Scaling\<close>

lemma round_div_bounds:
  assumes "0 < b" "0 \<le> a"
  shows "0 \<le> round_div a b \<and> 2 * \<bar>a - round_div a b * b\<bar> \<le> b"
proof -
  have a: "a = (a div b) * b + a mod b" by simp
  have r: "0 \<le> a mod b" "a mod b < b" "0 \<le> a div b" using assms by (simp_all add: pos_imp_zdiv_nonneg_iff)
  have up: "a - (a div b + 1) * b = a mod b - b" using a by (simp add: algebra_simps)
  have down: "a - (a div b) * b = a mod b" using a by (simp add: algebra_simps)
  consider "2 * (a mod b) < b" | "b < 2 * (a mod b)" | "2 * (a mod b) = b" by linarith
  then show ?thesis
  proof cases
    case 1
    then have "round_div a b = a div b" by (simp add: round_div_def)
    then show ?thesis using 1 r down by simp
  next
    case 2
    then have "round_div a b = a div b + 1" by (simp add: round_div_def)
    then show ?thesis using 2 r up by simp
  next
    case 3
    then have "round_div a b = a div b \<or> round_div a b = a div b + 1" by (simp add: round_div_def Let_def)
    then show ?thesis using 3 r up down by auto
  qed
qed

lemma round_div_le: "0 < b \<Longrightarrow> 0 \<le> a \<Longrightarrow> a \<le> m * b \<Longrightarrow> round_div a b \<le> m"
proof (rule ccontr)
  assume "0 < b" "0 \<le> a" "a \<le> m * b" "\<not> round_div a b \<le> m"
  then have "(m + 1) * b \<le> round_div a b * b" by (intro mult_right_mono) auto
  with round_div_bounds [of b a] \<open>0 < b\<close> \<open>0 \<le> a\<close> \<open>a \<le> m * b\<close> show False by (simp add: algebra_simps)
qed

text \<open>A scaled image fills its box exactly along the longer edge and keeps the proportions to half a point.\<close>

lemma fit_target_spec:
  assumes "0 < w" "0 < h" "0 < m"
  shows "case fit_target (w, h) m of
           None \<Rightarrow> w \<le> m \<and> h \<le> m
         | Some (w', h') \<Rightarrow> m < max w h \<and> max w' h' = m \<and> 0 < w' \<and> 0 < h' \<and>
             (if h \<le> w then h' = 1 \<or> 2 * \<bar>h * m - h' * w\<bar> \<le> w else w' = 1 \<or> 2 * \<bar>w * m - w' * h\<bar> \<le> h)"
proof (cases "max w h \<le> m")
  case True
  then show ?thesis by (simp add: fit_target_def)
next
  case False
  show ?thesis
  proof (cases "h \<le> w")
    case True
    then have "h * m \<le> m * w" using assms by (simp add: mult_right_mono mult.commute)
    with assms have "round_div (h * m) w \<le> m" by (intro round_div_le) auto
    with True False assms round_div_bounds [of w "h * m"] show ?thesis by (auto simp: fit_target_def max_def)
  next
    case h: False
    then have "w * m \<le> m * h" using assms by (simp add: mult_right_mono mult.commute)
    with assms have "round_div (w * m) h \<le> m" by (intro round_div_le) auto
    with h False assms round_div_bounds [of h "w * m"] show ?thesis by (auto simp: fit_target_def max_def)
  qed
qed

section \<open>Names\<close>

lemma nat_str_hd: "0 < n \<Longrightarrow> hd (nat_str n) \<noteq> CHR ''0''"
proof (induction n rule: nat_str.induct)
  case (1 n)
  show ?case
  proof (cases "n < 10")
    case True
    with 1 have "n \<in> {1, 2, 3, 4, 5, 6, 7, 8, 9}" by auto
    then show ?thesis by (subst nat_str.simps) (auto simp: digit_char_def char_of_def)
  next
    case False
    with 1 have "hd (nat_str (n div 10)) \<noteq> CHR ''0''" by simp
    with False show ?thesis by (subst nat_str.simps) (simp add: hd_append)
  qed
qed

lemma key_char_not_slash: "is_key_char c \<Longrightarrow> c \<noteq> CHR ''/''"
  by (auto simp: is_key_char_def is_ascii_letter_def is_digit_def digit_val_def code_point_def)

lemma safe_filename_ok:
  "list_all is_key_char (safe_filename f) \<and> safe_filename f \<noteq> [] \<and> length (safe_filename f) \<le> 100"
proof -
  have fb: "list_all is_key_char FALLBACK_FILENAME" "FALLBACK_FILENAME \<noteq> []" "length FALLBACK_FILENAME \<le> 100"
    by (simp_all add: FALLBACK_FILENAME_def is_key_char_def is_ascii_letter_def code_point_def)
  have "is_key_char (CHR ''_'')" by (simp add: is_key_char_def)
  then have "list_all is_key_char (take n (map (\<lambda>c. if is_key_char c then c else CHR ''_'') s))" for n s
    by (auto simp: list_all_iff dest: in_set_takeD)
  then show ?thesis
    using fb by (auto simp: safe_filename_def or_fallback_def MAX_FILENAME_LENGTH_def split: option.splits)
qed

lemma retarget_ok:
  assumes "list_all is_key_char f" "list_all is_key_char e" "length e \<le> 94" "e \<noteq> []"
  shows "list_all is_key_char (retarget_extension f e) \<and> retarget_extension f e \<noteq> [] \<and> length (retarget_extension f e) \<le> 100"
proof -
  have fb: "list_all is_key_char FALLBACK_FILENAME" "length FALLBACK_FILENAME = 6"
    by (simp_all add: FALLBACK_FILENAME_def is_key_char_def is_ascii_letter_def code_point_def)
  have "list_all is_key_char (take n (take k f))" "list_all is_key_char (take n f)" for n k
    using assms(1) by (auto simp: list_all_iff dest!: in_set_takeD)
  then show ?thesis
    using assms fb by (auto simp: retarget_extension_def or_fallback_def MAX_FILENAME_LENGTH_def Let_def split: option.splits)
qed

lemma extension_ok:
  "list_all is_key_char (format_extension f) \<and> length (format_extension f) \<le> 94 \<and> format_extension f \<noteq> []"
  by (auto simp: format_extension_def is_key_char_def is_ascii_letter_def code_point_def)

lemma uid_digits: "0 < uid \<Longrightarrow> list_all is_digit (int_str uid) \<and> int_str uid \<noteq> [] \<and> hd (int_str uid) \<noteq> CHR ''0''"
  by (auto simp: int_str_def list_all_iff nat_str_hd dest: nat_str_digits)

lemma digits_no_slash: "list_all is_digit s \<Longrightarrow> CHR ''/'' \<notin> set s"
  by (auto simp: list_all_iff is_digit_def digit_val_def)

lemma before_app: "c \<notin> set s \<Longrightarrow> before c (s @ c # t) = s \<and> after c (s @ c # t) = t"
  by (induction s) (auto simp: before_def after_def)

definition uuid_hex :: "string \<Rightarrow> bool" where
  "uuid_hex u \<longleftrightarrow> length u = 32 \<and> list_all is_hex_digit u"

lemma new_key_match:
  assumes "0 < uid" "uuid_hex u" "list_all is_key_char f" "f \<noteq> []" "length f \<le> 100"
  shows "image_key_match (new_key uid u f) = Some (int_str uid)"
proof -
  have d: "list_all is_digit (int_str uid)" "int_str uid \<noteq> []" "hd (int_str uid) \<noteq> CHR ''0''"
    using uid_digits [OF assms(1)] by simp_all
  have k: "new_key uid u f = int_str uid @ CHR ''/'' # (u @ CHR ''_'' # f)" by (simp add: new_key_def)
  have s: "before (CHR ''/'') (new_key uid u f) = int_str uid" "after (CHR ''/'') (new_key uid u f) = u @ CHR ''_'' # f"
    unfolding k using before_app [OF digits_no_slash [OF d(1)]] by blast+
  have "CHR ''/'' \<in> set (new_key uid u f)" by (simp add: k)
  with assms d show ?thesis
    by (simp add: image_key_match_def Let_def s uuid_hex_def nth_append Suc_le_eq)
qed

lemma partition_own:
  assumes "image_key_match k = Some (int_str uid)"
  shows "partition_own_image_keys [k] v = (if v = uid then ([k], []) else ([], [k]))"
  using assms by (auto simp: partition_own_image_keys_def dest: int_str_inj)

lemma own_image_keys_Inr:
  "own_image_keys vs uid m = Inr ks \<longleftrightarrow>
     ks = vs \<and> length vs \<le> m \<and> (\<forall>v \<in> set vs. image_key_match v = Some (int_str uid))"
  by (auto simp: own_image_keys_def partition_own_image_keys_def filter_empty_conv Let_def filter_id_conv)

lemma own_image_keys_Inl: "own_image_keys vs uid m = Inl e \<Longrightarrow> e = HTTPException 400"
  by (auto simp: own_image_keys_def split: if_splits prod.splits)

section \<open>Reading\<close>

lemma read_upload_Some:
  "read_upload m n rs = Some c \<Longrightarrow> n + length c \<le> m \<or> c = []"
proof (induction m n rs arbitrary: c rule: read_upload.induct)
  case (2 m n chunk reads)
  then show ?case by (force split: if_splits)
qed simp

lemma read_upload_None:
  "n \<le> m \<Longrightarrow> read_upload m n rs = None \<longleftrightarrow> m < n + length (concat (takeWhile (\<lambda>c. c \<noteq> []) rs))"
  by (induction m n rs rule: read_upload.induct) (auto simp: add.assoc)

lemma read_upload_content: "read_upload m n rs = Some c \<Longrightarrow> c = concat (takeWhile (\<lambda>c. c \<noteq> []) rs)"
  by (induction m n rs arbitrary: c rule: read_upload.induct) (auto split: if_splits)

section \<open>Properties\<close>

lemma accepted_split:
  assumes "store_upload pl s3 u cfg uid part b = (Inr (Accepted k), b')"
  obtains content p where
    "read_upload (max_image_size_mb cfg * 1024 * 1024) 0 (part_reads part) = Some content"
    "sniff_image content \<noteq> None" "prepare_upload pl content = Inr p"
    "k = new_key uid u (retarget_extension (safe_filename (part_filename part)) (pi_extension p))"
    "s3 k = None"
    "b' = snd (s3_put s3 (thumb_key k) (pi_thumbnail p) (pi_content_type p) (b(k \<mapsto> (pi_delivery p, pi_content_type p))))"
  using assms by (auto simp: store_upload_def Let_def s3_put_def split: option.splits if_splits sum.splits)

lemma prepare_extension: "prepare_upload pl c = Inr p \<Longrightarrow> \<exists>f. pi_extension p = format_extension f \<and> pi_content_type p = format_content_type f"
  by (auto simp: prepare_upload_def result_simps Let_def split: prod.splits)

lemma accepted_key:
  assumes "store_upload pl s3 u cfg uid part b = (Inr (Accepted k), b')" "0 < uid" "uuid_hex u"
  shows "image_key_match k = Some (int_str uid)"
proof -
  from assms(1) obtain content p where p: "prepare_upload pl content = Inr p"
    "k = new_key uid u (retarget_extension (safe_filename (part_filename part)) (pi_extension p))"
    by (rule accepted_split)
  from prepare_extension [OF p(1)] obtain f where f: "pi_extension p = format_extension f" by blast
  have "list_all is_key_char (retarget_extension (safe_filename (part_filename part)) (pi_extension p)) \<and>
        retarget_extension (safe_filename (part_filename part)) (pi_extension p) \<noteq> [] \<and>
        length (retarget_extension (safe_filename (part_filename part)) (pi_extension p)) \<le> 100"
    unfolding f using safe_filename_ok extension_ok by (intro retarget_ok) blast+
  with p(2) assms show ?thesis by (simp add: new_key_match)
qed

lemma thumb_key_other: "image_key_match k = Some o' \<Longrightarrow> thumb_key k \<noteq> k \<and> k \<noteq> []"
  by (auto simp: image_key_match_def thumb_key_def THUMB_KEY_PREFIX_def starts_with_iff before_def is_digit_def
           digit_val_def Let_def split: if_splits)

lemma accepted_upload_is_owned_step:
  assumes "store_upload pl s3 u cfg uid part b = (Inr (Accepted k), b')" "0 < uid" "uuid_hex u"
  shows "image_key_match k = Some (int_str uid) \<and> (\<forall>j. b' j \<noteq> b j \<longrightarrow> j = k \<or> j = thumb_key k)"
proof -
  have "\<exists>p::prepared_image. b' = snd (s3_put s3 (thumb_key k) (pi_thumbnail p) (pi_content_type p) (b(k \<mapsto> (pi_delivery p, pi_content_type p))))"
    by (rule accepted_split [OF assms(1)]) (rule exI)
  with accepted_key [OF assms] show ?thesis by (auto simp: s3_put_def split: option.splits if_splits)
qed

lemma store_upload_untouched:
  assumes "\<forall>k. store_upload pl s3 u cfg uid part b \<noteq> (Inr (Accepted k), b')"
    and "store_upload pl s3 u cfg uid part b = (r, b')"
  shows "b' = b"
  using assms by (auto simp: store_upload_def Let_def s3_put_def split: option.splits if_splits sum.splits)

text \<open>
  an upload that is accepted is stored under a key the editor takes back from its owner and
  refuses from everybody else: the stored bytes are the prepared delivery of a content within the
  size limit and with a known signature, the only other entry written is the thumbnail, and the
  number in the key is the uploader.
\<close>

theorem accepted_upload_is_owned:
  assumes "store_upload pl s3 u cfg uid part b = (Inr (Accepted k), b')" "0 < uid" "uuid_hex u"
  shows "own_image_keys [k] uid (Suc n) = Inr [k] \<and>
    (\<forall>v. v \<noteq> uid \<longrightarrow> own_image_keys [k] v (Suc n) = Inl (HTTPException 400)) \<and>
    (\<exists>content p. read_upload (max_image_size_mb cfg * 1024 * 1024) 0 (part_reads part) = Some content \<and>
       length content \<le> max_image_size_mb cfg * 1024 * 1024 \<and> sniff_image content \<noteq> None \<and>
       prepare_upload pl content = Inr p \<and> b' k = Some (pi_delivery p, pi_content_type p) \<and>
       (s3 (thumb_key k) = None \<longrightarrow> b' (thumb_key k) = Some (pi_thumbnail p, pi_content_type p))) \<and>
    (\<forall>j. j \<noteq> k \<longrightarrow> j \<noteq> thumb_key k \<longrightarrow> b' j = b j)"
proof -
  note key = accepted_key [OF assms]
  have other: "thumb_key k \<noteq> k" using thumb_key_other [OF key] by simp
  from assms(1) obtain content p where c:
    "read_upload (max_image_size_mb cfg * 1024 * 1024) 0 (part_reads part) = Some content"
    "sniff_image content \<noteq> None" "prepare_upload pl content = Inr p"
    "b' = snd (s3_put s3 (thumb_key k) (pi_thumbnail p) (pi_content_type p) (b(k \<mapsto> (pi_delivery p, pi_content_type p))))"
    by (rule accepted_split)
  have "length content \<le> max_image_size_mb cfg * 1024 * 1024" using read_upload_Some [OF c(1)] by auto
  with c other have stored: "\<exists>content p. read_upload (max_image_size_mb cfg * 1024 * 1024) 0 (part_reads part) = Some content \<and>
       length content \<le> max_image_size_mb cfg * 1024 * 1024 \<and> sniff_image content \<noteq> None \<and>
       prepare_upload pl content = Inr p \<and> b' k = Some (pi_delivery p, pi_content_type p) \<and>
       (s3 (thumb_key k) = None \<longrightarrow> b' (thumb_key k) = Some (pi_thumbnail p, pi_content_type p))"
    by (intro exI [of _ content] exI [of _ p]) (auto simp: s3_put_def split: option.splits)
  have rest: "\<forall>j. j \<noteq> k \<longrightarrow> j \<noteq> thumb_key k \<longrightarrow> b' j = b j"
    using c(4) by (auto simp: s3_put_def split: option.splits)
  have "own_image_keys [k] v (Suc n) = Inl (HTTPException 400)" if "v \<noteq> uid" for v
    using that partition_own [OF key, of v] by (simp add: own_image_keys_def)
  with stored rest key show ?thesis by (simp add: own_image_keys_Inr)
qed

text \<open>A library whose images are their dimensions and their mode, for examples.\<close>

definition toy_pillow :: "int \<times> int \<Rightarrow> string \<Rightarrow> (int \<times> int) pillow" where
  "toy_pillow dims f =
     \<lparr>pl_open = (\<lambda>_. Inr dims), pl_format = (\<lambda>_. Some f), pl_size = (\<lambda>(w, h). (max 1 w, max 1 h)), pl_draft = (\<lambda>_ i. i), pl_transpose = Inr,
      pl_mode = (\<lambda>_. ''RGB''), pl_bands = (\<lambda>_. [''R'', ''G'', ''B'']), pl_transparency = (\<lambda>_. False),
      pl_convert = (\<lambda>_ i. i), pl_alpha_min = (\<lambda>_. 255), pl_on_white = id, pl_resize = (\<lambda>t _. t),
      pl_encode = (\<lambda>_ _ i. map word_of_int [fst i, snd i])\<rparr>"

definition sample_part :: upload_part where
  "sample_part = \<lparr>part_filename = Some ''cat.PNG'', part_reads = [[0xFF, 0xD8], [0xFF, 0xE0], []]\<rparr>"

definition sample_upload_settings :: upload_settings where
  "sample_upload_settings = \<lparr>max_image_size_mb = 5, max_images_per_ad = 2\<rparr>"

definition sample_uuid :: string where "sample_uuid = replicate 32 (CHR ''a'')"

lemma sample_uuid_hex: "uuid_hex sample_uuid"
  by (simp add: uuid_hex_def sample_uuid_def is_hex_digit_def code_point_def list_all_iff)

definition sample_key :: string where
  "sample_key = ''7/'' @ sample_uuid @ ''_cat.jpg''"

lemma sample_store:
  "fst (store_upload (toy_pillow (3000, 1000) JPEG) (\<lambda>_. None) sample_uuid sample_upload_settings 7 sample_part Map.empty) =
     Inr (Accepted sample_key)"
proof -
  have name: "safe_filename (Some ''cat.PNG'') = ''cat.PNG''"
    by (simp add: safe_filename_def last_segment_def or_fallback_def is_key_char_def is_ascii_letter_def code_point_def
        MAX_FILENAME_LENGTH_def)
  have ext: "retarget_extension ''cat.PNG'' ''.jpg'' = ''cat.jpg''"
    by code_simp
  have seven: "int_str 7 = ''7''" by code_simp
  have "prepare_upload (toy_pillow (3000, 1000) JPEG) [0xFF, 0xD8, 0xFF, 0xE0] =
      Inr \<lparr>pi_delivery = map word_of_int [1920, 640], pi_thumbnail = map word_of_int [480, 160],
           pi_content_type = ''image/jpeg'', pi_extension = ''.jpg''\<rparr>"
    by (simp add: prepare_upload_def decode_image_def open_checked_def toy_pillow_def JPEG_def PNG_def MAX_DECODED_PIXELS_def
        has_real_alpha_def normalise_mode_def fit_long_edge_def fit_target_def round_div_def DELIVERY_MAX_EDGE_def
        THUMB_MAX_EDGE_def format_content_type_def format_extension_def Let_def)
  then show ?thesis
    by (simp add: store_upload_def sample_part_def sample_upload_settings_def sniff_image_def IMAGE_SIGNATURES_def name ext
        new_key_def s3_put_def sample_key_def seven Let_def)
qed

lemma accepted_upload_is_owned_witness:
  "own_image_keys [sample_key] 7 1 = Inr [sample_key] \<and> own_image_keys [sample_key] 8 1 = Inl (HTTPException 400)"
proof -
  let ?r = "store_upload (toy_pillow (3000, 1000) JPEG) (\<lambda>_. None) sample_uuid sample_upload_settings 7 sample_part Map.empty"
  have r: "?r = (Inr (Accepted sample_key), snd ?r)" using sample_store by (metis prod.collapse)
  show ?thesis using accepted_upload_is_owned [OF r _ sample_uuid_hex, of 0] by simp
qed

lemma open_checked_Inr:
  "open_checked pl c = Inr (f, opened) \<Longrightarrow>
     pl_open pl c = Inr opened \<and> pl_format pl opened = Some f \<and> f \<in> {JPEG, PNG} \<and>
     fst (pl_size pl opened) * snd (pl_size pl opened) \<le> 30000000"
  by (auto simp: open_checked_def MAX_DECODED_PIXELS_def Let_def split: sum.splits option.splits if_splits prod.splits)

text \<open>
  the images prepared for storage fit their boxes, 1920 points for delivery and 480 for the
  thumbnail; both are encoded in one of the two formats, which is the one the declared type and the
  extension of the name say; and no image of more points than the decoder's limit is decoded.
\<close>

theorem prepared_image_fits:
  assumes "prepare_upload pl content = Inr p"
    and "\<And>t i. 0 < fst t \<Longrightarrow> 0 < snd t \<Longrightarrow> pl_size pl (pl_resize pl t i) = t"
    and "\<And>i. 0 < fst (pl_size pl i) \<and> 0 < snd (pl_size pl i)"
  shows "(\<exists>f \<in> {JPEG, PNG}. \<exists>delivery thumbnail.
      pi_delivery p = pl_encode pl f DELIVERY_JPEG_QUALITY delivery \<and>
      pi_thumbnail p = pl_encode pl f THUMB_JPEG_QUALITY thumbnail \<and>
      max (fst (pl_size pl delivery)) (snd (pl_size pl delivery)) \<le> 1920 \<and>
      max (fst (pl_size pl thumbnail)) (snd (pl_size pl thumbnail)) \<le> 480 \<and>
      pi_content_type p = format_content_type f \<and> pi_extension p = format_extension f) \<and>
    (\<exists>opened. pl_open pl content = Inr opened \<and> fst (pl_size pl opened) * snd (pl_size pl opened) \<le> 30000000)"
proof -
  have fits: "max (fst (pl_size pl (fit_long_edge pl i m))) (snd (pl_size pl (fit_long_edge pl i m))) \<le> m" if "0 < m" for i m
  proof -
    obtain w h where wh: "pl_size pl i = (w, h)" by force
    with assms(3) [of i] have "0 < w" "0 < h" by auto
    from fit_target_spec [OF this that] show ?thesis
      by (auto simp: fit_long_edge_def wh assms(2) split: option.splits)
  qed
  from assms(1) obtain f d where fd: "decode_image pl DELIVERY_MAX_EDGE content = Inr (f, d)"
    by (auto simp: prepare_upload_def result_simps)
  then obtain g opened where "open_checked pl content = Inr (g, opened)" by (auto simp: decode_image_def result_simps)
  then have o: "pl_open pl content = Inr opened" "fst (pl_size pl opened) * snd (pl_size pl opened) \<le> 30000000"
    by (auto dest: open_checked_Inr)
  have one: "f \<in> {JPEG, PNG} \<Longrightarrow> pi_content_type p = format_content_type f \<and> pi_extension p = format_extension f \<and>
      pi_delivery p = pl_encode pl f DELIVERY_JPEG_QUALITY i \<and> pi_thumbnail p = pl_encode pl f THUMB_JPEG_QUALITY j \<and>
      max (fst (pl_size pl i)) (snd (pl_size pl i)) \<le> 1920 \<and> max (fst (pl_size pl j)) (snd (pl_size pl j)) \<le> 480 \<Longrightarrow>
      ?thesis" for f i j
    using o by blast
  let ?f = "if f = PNG \<and> has_real_alpha pl d then PNG else JPEG"
  let ?i = "fit_long_edge pl (normalise_mode pl d (f = PNG \<and> has_real_alpha pl d)) DELIVERY_MAX_EDGE"
  have p: "pi_content_type p = format_content_type ?f \<and> pi_extension p = format_extension ?f \<and>
      pi_delivery p = pl_encode pl ?f DELIVERY_JPEG_QUALITY ?i \<and>
      pi_thumbnail p = pl_encode pl ?f THUMB_JPEG_QUALITY (fit_long_edge pl ?i THUMB_MAX_EDGE)"
    using assms(1) by (simp add: prepare_upload_def fd Let_def) auto
  show ?thesis
    by (rule one [of ?f ?i "fit_long_edge pl ?i THUMB_MAX_EDGE"])
       (use p fits in \<open>simp_all add: DELIVERY_MAX_EDGE_def THUMB_MAX_EDGE_def\<close>)
qed

lemma prepared_image_fits_witness:
  "\<exists>p f. prepare_upload (toy_pillow (3000, 1000) JPEG) [] = Inr p \<and> pi_content_type p = format_content_type f \<and> f \<in> {JPEG, PNG}"
proof -
  let ?pl = "toy_pillow (3000, 1000) JPEG"
  have "isl (prepare_upload ?pl []) = False"
    by (simp add: prepare_upload_def decode_image_def open_checked_def toy_pillow_def MAX_DECODED_PIXELS_def Let_def)
  then obtain p where p: "prepare_upload ?pl [] = Inr p" by (cases "prepare_upload ?pl []") auto
  have size: "pl_size ?pl (pl_resize ?pl t i) = t" if "0 < fst t" "0 < snd t" for t i
    using that by (cases t) (simp add: toy_pillow_def)
  have pos: "0 < fst (pl_size ?pl i) \<and> 0 < snd (pl_size ?pl i)" for i
    by (cases i) (auto simp: toy_pillow_def max_def)
  from prepared_image_fits [OF p size pos] p show ?thesis by blast
qed

end
