(* ===== verification/Dispatch.thy ===== *)
theory Dispatch
  imports Schedules_Api Access_Cache
begin

text \<open>
  The planner and the sender, \<open>app/application/scheduling/use_cases.py\<close>: which due schedules
  become send tasks, what a task carries, and one attempt to send. The session of a tick is the
  database as the tick sees it; it is committed at the end or not at all. The access verdict is a
  parameter that may keep a state of its own (the cache). The messenger is a parameter: creating it
  may raise, sending may raise, and otherwise it answers.
\<close>

section \<open>Tasks\<close>

definition effective_status_value :: "string option \<Rightarrow> string" where
  "effective_status_value status =
     (if status = Some AD_STATUS_PUBLISHED then AD_STATUS_PUBLISHED else AD_STATUS_DRAFT)"

definition effective_ad_status :: "ad \<Rightarrow> string" where
  "effective_ad_status a = effective_status_value (Some (ad_status a))"

record dispatch_task =
  task_type :: string
  task_ad_id :: int
  task_group_id :: int
  task_account_id :: int
  task_schedule_id :: "int option"
  task_user_id :: "int option"
  task_ad_text :: "string option"
  task_ad_title :: "string option"
  task_ad_images :: "string list option"
  task_group_external_id :: "string option"
  task_group_name :: "string option"

definition rstrip_char :: "char \<Rightarrow> string \<Rightarrow> string" where
  "rstrip_char c s = rev (dropWhile (\<lambda>x. x = c) (rev s))"

text \<open>\<open>get_image_url\<close> of \<open>app/services/s3.py\<close>.\<close>

definition get_image_url :: "string \<Rightarrow> string \<Rightarrow> string" where
  "get_image_url key s3_public_url =
     (if key = [] then [] else rstrip_char (CHR ''/'') s3_public_url @ CHR ''/'' # key)"

definition image_urls :: "string \<Rightarrow> string list option \<Rightarrow> string list option" where
  "image_urls base images =
     (case images of
        None \<Rightarrow> None
      | Some ks \<Rightarrow> if ks = [] then Some [] else Some (map (\<lambda>k. get_image_url k base) ks))"

definition build_dispatch_task :: "string \<Rightarrow> ad \<Rightarrow> group \<Rightarrow> account \<Rightarrow> int option \<Rightarrow> dispatch_task" where
  "build_dispatch_task s3_url a g acc schedule_id =
     (let task = \<lparr>task_type = acc_type acc, task_ad_id = ad_id a, task_group_id = grp_id g,
            task_account_id = acc_id acc, task_schedule_id = schedule_id, task_user_id = None,
            task_ad_text = None, task_ad_title = None, task_ad_images = None,
            task_group_external_id = None, task_group_name = None\<rparr>
      in if acc_type acc \<in> {''wa'', ''max''}
         then task\<lparr>task_user_id := Some (ad_user_id a), task_ad_text := Some (ad_text a),
                task_ad_title := Some (ad_title a), task_ad_images := image_urls s3_url (ad_images a),
                task_group_external_id := Some (grp_external_id g), task_group_name := Some (grp_name g)\<rparr>
         else task)"

section \<open>The planner\<close>

type_synonym 'c check_limit = "int \<Rightarrow> 'c \<Rightarrow> verdict \<times> 'c"

definition user_send_verdict :: "db \<Rightarrow> 'c check_limit \<Rightarrow> int \<Rightarrow> 'c \<Rightarrow> verdict \<times> 'c" where
  "user_send_verdict d check_limit u c =
     (case find_row user_id u (db_users d) of
        Some usr \<Rightarrow> if user_is_blocked usr then ((False, ''user_blocked''), c) else check_limit u c
      | None \<Rightarrow> check_limit u c)"

record 'c tick =
  tk_db :: db
  tk_tasks :: "dispatch_task list"
  tk_checked :: "int \<rightharpoonup> verdict"
  tk_state :: 'c

text \<open>\<open>session.get\<close> by primary key: the driver takes integers of 32 bits, and null finds nothing.\<close>

fun get_group :: "db \<Rightarrow> pyval \<Rightarrow> exn + group option" where
  "get_group d (PInt n) = (if c_int n then Inr (find_row grp_id n (db_groups d)) else Inl DataError)"
| "get_group d PNone = Inr None"
| "get_group d _ = Inl DataError"

fun group_tasks :: "string \<Rightarrow> db \<Rightarrow> ad \<Rightarrow> account \<Rightarrow> int \<Rightarrow> pyval list \<Rightarrow> exn + dispatch_task list" where
  "group_tasks s3_url d a acc sid [] = Inr []"
| "group_tasks s3_url d a acc sid (g # gs) =
     bind_res (get_group d g) (\<lambda>found.
       bind_res (group_tasks s3_url d a acc sid gs) (\<lambda>rest.
         Inr (case found of
                None \<Rightarrow> rest
              | Some row \<Rightarrow>
                  if \<not> grp_is_active row then rest
                  else build_dispatch_task s3_url a row acc (Some sid) # rest)))"

definition reschedule :: "tzdb \<Rightarrow> int \<Rightarrow> schedule \<Rightarrow> 'c tick \<Rightarrow> exn + 'c tick" where
  "reschedule tzdb now s st =
     bind_res (compute_next_run_at tzdb (sch_days_of_week s) (sch_times_of_day s) (sch_timezone s) now) (\<lambda>t.
       Inr (st\<lparr>tk_db := (tk_db st)\<lparr>db_schedules :=
              update_where (\<lambda>r. sch_id r = sch_id s) (\<lambda>r. r\<lparr>sch_next_run_at := t\<rparr>) (db_schedules (tk_db st))\<rparr>\<rparr>))"

definition schedule_ad :: "db \<Rightarrow> schedule \<Rightarrow> ad option" where
  "schedule_ad d s = find_row ad_id (sch_ad_id s) (db_ads d)"

definition schedule_account :: "db \<Rightarrow> schedule \<Rightarrow> account option" where
  "schedule_account d s =
     (case sch_account_id s of None \<Rightarrow> None | Some a \<Rightarrow> find_row acc_id a (db_accounts d))"

definition process_schedule ::
  "tzdb \<Rightarrow> int \<Rightarrow> string \<Rightarrow> 'c check_limit \<Rightarrow> schedule \<Rightarrow> 'c tick \<Rightarrow> exn + 'c tick" where
  "process_schedule tzdb now s3_url check_limit s st =
     (case (schedule_ad (tk_db st) s, schedule_account (tk_db st) s) of
        (Some a, Some acc) \<Rightarrow>
          if acc_status acc \<noteq> ''active'' \<or> effective_ad_status a = AD_STATUS_DRAFT then reschedule tzdb now s st
          else
            let u = ad_user_id a;
                (v, st1) =
                  (case tk_checked st u of
                     Some v \<Rightarrow> (v, st)
                   | None \<Rightarrow>
                       let (v, c) = user_send_verdict (tk_db st) check_limit u (tk_state st)
                       in (v, st\<lparr>tk_checked := (tk_checked st)(u \<mapsto> v), tk_state := c\<rparr>))
            in if \<not> fst v then reschedule tzdb now s st1
               else
                 bind_res (py_iter (or_list (sch_group_ids s))) (\<lambda>gs.
                   bind_res (group_tasks s3_url (tk_db st1) a acc (sch_id s) gs) (\<lambda>tasks.
                     reschedule tzdb now s (st1\<lparr>tk_tasks := tk_tasks st1 @ tasks\<rparr>)))
      | _ \<Rightarrow> reschedule tzdb now s st)"

definition is_due :: "int \<Rightarrow> schedule \<Rightarrow> bool" where
  "is_due now s \<longleftrightarrow>
     sch_is_active s \<and> (case sch_next_run_at s of None \<Rightarrow> False | Some t \<Rightarrow> t \<le> now)"

definition due_schedules :: "int \<Rightarrow> db \<Rightarrow> schedule list" where
  "due_schedules now d = filter (is_due now) (db_schedules d)"

definition commit_schedules :: "db \<Rightarrow> exn + db" where
  "commit_schedules d =
     (if list_all ck_active_requires_next_run (db_schedules d) then Inr d else Inl IntegrityError)"

definition collect_due_schedules ::
  "tzdb \<Rightarrow> int \<Rightarrow> string \<Rightarrow> 'c check_limit \<Rightarrow> db \<Rightarrow> 'c \<Rightarrow> exn + dispatch_task list \<times> db \<times> 'c" where
  "collect_due_schedules tzdb now s3_url check_limit d c =
     (let schedules = due_schedules now d in
      if schedules = [] then Inr ([], d, c)
      else
        bind_res (fold_res (process_schedule tzdb now s3_url check_limit) schedules
            \<lparr>tk_db = d, tk_tasks = [], tk_checked = (\<lambda>_. None), tk_state = c\<rparr>) (\<lambda>st.
          bind_res (commit_schedules (tk_db st)) (\<lambda>d'. Inr (tk_tasks st, d', tk_state st))))"

section \<open>The abstract planner\<close>

text \<open>
  Which tasks a tick owes, given the verdict of every user: for each due schedule in order, for each
  group in its list that exists and is switched on, one task.
\<close>

definition may_send :: "db \<Rightarrow> (int \<Rightarrow> verdict) \<Rightarrow> schedule \<Rightarrow> (ad \<times> account) option" where
  "may_send d V s =
     (case (schedule_ad d s, schedule_account d s) of
        (Some a, Some acc) \<Rightarrow>
          if acc_status acc = ''active'' \<and> ad_status a = AD_STATUS_PUBLISHED \<and> fst (V (ad_user_id a))
          then Some (a, acc) else None
      | _ \<Rightarrow> None)"

definition active_groups :: "db \<Rightarrow> pyval list \<Rightarrow> group list" where
  "active_groups d gs =
     [row. Inr (Some row) \<leftarrow> map (get_group d) gs, grp_is_active row]"

definition owed_tasks :: "string \<Rightarrow> db \<Rightarrow> (int \<Rightarrow> verdict) \<Rightarrow> schedule \<Rightarrow> dispatch_task list" where
  "owed_tasks s3_url d V s =
     (case may_send d V s of
        None \<Rightarrow> []
      | Some (a, acc) \<Rightarrow>
          (case py_iter (or_list (sch_group_ids s)) of
             Inl e \<Rightarrow> []
           | Inr gs \<Rightarrow> map (\<lambda>g. build_dispatch_task s3_url a g acc (Some (sch_id s))) (active_groups d gs)))"

definition send_verdict :: "db \<Rightarrow> (int \<Rightarrow> verdict) \<Rightarrow> int \<Rightarrow> verdict" where
  "send_verdict d V u =
     (case find_row user_id u (db_users d) of
        Some usr \<Rightarrow> if user_is_blocked usr then (False, ''user_blocked'') else V u
      | None \<Rightarrow> V u)"

lemma group_tasks_owed:
  "group_tasks s3_url d a acc sid gs = Inr tasks \<Longrightarrow>
     tasks = map (\<lambda>g. build_dispatch_task s3_url a g acc (Some sid)) (active_groups d gs)"
  by (induction gs arbitrary: tasks)
     (auto simp: active_groups_def result_simps split: option.splits)

section \<open>What a tick does to the schedules\<close>

definition advanced :: "tzdb \<Rightarrow> int \<Rightarrow> schedule \<Rightarrow> schedule" where
  "advanced tzdb now s =
     s\<lparr>sch_next_run_at :=
        (case compute_next_run_at tzdb (sch_days_of_week s) (sch_times_of_day s) (sch_timezone s) now of
           Inr t \<Rightarrow> t | Inl e \<Rightarrow> None)\<rparr>"

lemma advanced_simps [simp]:
  "sch_id (advanced tzdb now s) = sch_id s" "sch_is_active (advanced tzdb now s) = sch_is_active s"
  "sch_ad_id (advanced tzdb now s) = sch_ad_id s" "sch_account_id (advanced tzdb now s) = sch_account_id s"
  by (simp_all add: advanced_def)

lemma reschedule_frame [simp]:
  "reschedule tzdb now s st = Inr st' \<Longrightarrow>
     tk_tasks st' = tk_tasks st \<and> tk_checked st' = tk_checked st \<and> tk_state st' = tk_state st"
  by (auto simp: reschedule_def result_simps)

text \<open>Every branch of the loop body ends in the recomputation of the schedule's next run.\<close>

lemma process_reschedules:
  assumes "process_schedule tzdb now s3_url check s st = Inr st'"
  shows "\<exists>st1. reschedule tzdb now s st1 = Inr st' \<and> tk_db st1 = tk_db st"
proof (cases "schedule_ad (tk_db st) s")
  case None
  with assms show ?thesis by (auto simp: process_schedule_def)
next
  case (Some a)
  note ad = this
  show ?thesis
  proof (cases "schedule_account (tk_db st) s")
    case None
    with assms ad show ?thesis by (auto simp: process_schedule_def)
  next
    case (Some acc)
    show ?thesis
    proof (cases "acc_status acc \<noteq> ''active'' \<or> effective_ad_status a = AD_STATUS_DRAFT")
      case True
      with assms ad Some show ?thesis by (auto simp: process_schedule_def)
    next
      case False
      with assms ad Some show ?thesis
        by (auto simp: process_schedule_def result_simps Let_def split: prod.splits option.splits if_splits)
    qed
  qed
qed

lemma process_db:
  assumes "process_schedule tzdb now s3_url check s st = Inr st'"
  shows "\<exists>t. compute_next_run_at tzdb (sch_days_of_week s) (sch_times_of_day s) (sch_timezone s) now = Inr t \<and>
    tk_db st' = (tk_db st)\<lparr>db_schedules :=
      update_where (\<lambda>r. sch_id r = sch_id s) (\<lambda>r. r\<lparr>sch_next_run_at := t\<rparr>) (db_schedules (tk_db st))\<rparr>"
  using process_reschedules [OF assms] by (auto simp: reschedule_def result_simps)

definition mark :: "tzdb \<Rightarrow> int \<Rightarrow> int set \<Rightarrow> schedule \<Rightarrow> schedule" where
  "mark tzdb now A r = (if sch_id r \<in> A then advanced tzdb now r else r)"

lemma process_mark:
  assumes "process_schedule tzdb now s3_url check s st = Inr st'" "s \<in> set rows" "distinct (map sch_id rows)"
    and "db_schedules (tk_db st) = map (mark tzdb now A) rows"
  shows "db_schedules (tk_db st') = map (mark tzdb now (insert (sch_id s) A)) rows"
proof -
  obtain t where t: "compute_next_run_at tzdb (sch_days_of_week s) (sch_times_of_day s) (sch_timezone s) now = Inr t"
    "db_schedules (tk_db st') =
      update_where (\<lambda>r. sch_id r = sch_id s) (\<lambda>r. r\<lparr>sch_next_run_at := t\<rparr>) (map (mark tzdb now A) rows)"
    using process_db [OF assms(1)] assms(4) by auto
  have adv: "advanced tzdb now s = s\<lparr>sch_next_run_at := t\<rparr>" by (simp add: advanced_def t(1))
  have row: "(if sch_id (mark tzdb now A r) = sch_id s then (mark tzdb now A r)\<lparr>sch_next_run_at := t\<rparr>
        else mark tzdb now A r) = mark tzdb now (insert (sch_id s) A) r" if "r \<in> set rows" for r
  proof (cases "sch_id r = sch_id s")
    case True
    with that assms(2,3) have "r = s" by (auto simp: distinct_map dest: inj_onD)
    then show ?thesis using adv by (auto simp: mark_def advanced_def)
  qed (simp add: mark_def)
  show ?thesis unfolding t(2) using row by (simp add: update_where_def comp_def)
qed

lemma fold_mark:
  assumes "fold_res (process_schedule tzdb now s3_url check) xs st = Inr st'" "set xs \<subseteq> set rows"
    "distinct (map sch_id rows)" "db_schedules (tk_db st) = map (mark tzdb now A) rows"
  shows "db_schedules (tk_db st') = map (mark tzdb now (A \<union> sch_id ` set xs)) rows"
  using assms
proof (induction xs arbitrary: st A)
  case (Cons x xs)
  obtain st1 where st1: "process_schedule tzdb now s3_url check x st = Inr st1"
    "fold_res (process_schedule tzdb now s3_url check) xs st1 = Inr st'"
    using Cons.prems(1) by (auto simp: result_simps)
  have "db_schedules (tk_db st1) = map (mark tzdb now (insert (sch_id x) A)) rows"
    using process_mark [OF st1(1) _ Cons.prems(3,4)] Cons.prems(2) by simp
  from Cons.IH [OF st1(2) _ Cons.prems(3) this] Cons.prems(2)
  have "db_schedules (tk_db st') = map (mark tzdb now (insert (sch_id x) A \<union> sch_id ` set xs)) rows" by simp
  moreover have "insert (sch_id x) A \<union> sch_id ` set xs = A \<union> sch_id ` set (x # xs)" by auto
  ultimately show ?case by simp
qed simp

definition same_tables :: "db \<Rightarrow> db \<Rightarrow> bool" where
  "same_tables d d' \<longleftrightarrow> d' = d\<lparr>db_schedules := db_schedules d'\<rparr>"

lemma same_tables_update: "same_tables d x \<Longrightarrow> same_tables d (x\<lparr>db_schedules := rows\<rparr>)"
  by (cases d; cases x) (simp add: same_tables_def)

lemma process_same_tables:
  "process_schedule tzdb now s3_url check s st = Inr st' \<Longrightarrow> same_tables d (tk_db st) \<Longrightarrow> same_tables d (tk_db st')"
  using process_db [of tzdb now s3_url check s st st'] same_tables_update by metis

lemma commit_schedules_Inr: "commit_schedules d = Inr d' \<Longrightarrow> d' = d \<and> list_all ck_active_requires_next_run (db_schedules d)"
  by (auto simp: commit_schedules_def split: if_splits)

lemma collect_due_schedules_db:
  assumes "collect_due_schedules tzdb now s3_url check d c = Inr (tasks, d', c')" "distinct (map sch_id (db_schedules d))"
  shows "same_tables d d'"
    and "db_schedules d' = map (\<lambda>r. if is_due now r then advanced tzdb now r else r) (db_schedules d)"
    and "due_schedules now d \<noteq> [] \<Longrightarrow> list_all ck_active_requires_next_run (db_schedules d')"
proof -
  let ?due = "due_schedules now d"
  let ?rows = "db_schedules d"
  have none: "map (\<lambda>r. if is_due now r then advanced tzdb now r else r) ?rows = ?rows" if "?due = []"
    using that by (auto simp: due_schedules_def filter_empty_conv intro: map_idI)
  have due_ids: "sch_id r \<in> sch_id ` set ?due \<longleftrightarrow> is_due now r" if "r \<in> set ?rows" for r
    using that assms(2) by (auto simp: due_schedules_def distinct_map dest: inj_onD)
  have "same_tables d d' \<and> db_schedules d' = map (\<lambda>r. if is_due now r then advanced tzdb now r else r) ?rows \<and>
      (?due \<noteq> [] \<longrightarrow> list_all ck_active_requires_next_run (db_schedules d'))"
  proof (cases "?due = []")
    case True
    with assms(1) none show ?thesis by (simp add: collect_due_schedules_def same_tables_def)
  next
    case False
    let ?st = "\<lparr>tk_db = d, tk_tasks = [], tk_checked = (\<lambda>_. None), tk_state = c\<rparr>"
    obtain st where st: "fold_res (process_schedule tzdb now s3_url check) ?due ?st = Inr st"
      "d' = tk_db st" "list_all ck_active_requires_next_run (db_schedules (tk_db st))"
      using assms(1) False
      by (auto simp: collect_due_schedules_def Let_def result_simps dest: commit_schedules_Inr)
    have "db_schedules (tk_db st) = map (mark tzdb now ({} \<union> sch_id ` set ?due)) ?rows"
      by (rule fold_mark [OF st(1) _ assms(2)]) (auto simp: due_schedules_def mark_def intro: map_idI [symmetric])
    also have "\<dots> = map (\<lambda>r. if is_due now r then advanced tzdb now r else r) ?rows"
      using due_ids by (simp add: mark_def)
    finally have rows: "db_schedules (tk_db st) = \<dots>" .
    have "same_tables d (tk_db st)"
    proof (rule fold_res_invariant [OF st(1), where I = "\<lambda>st. same_tables d (tk_db st)"])
      show "same_tables d (tk_db ?st)" by (simp add: same_tables_def)
    qed (rule process_same_tables)
    with rows st(2,3) show ?thesis by simp
  qed
  then show "same_tables d d'"
    and "db_schedules d' = map (\<lambda>r. if is_due now r then advanced tzdb now r else r) ?rows"
    and "due_schedules now d \<noteq> [] \<Longrightarrow> list_all ck_active_requires_next_run (db_schedules d')"
    by blast+
qed

section \<open>The interface of the access verdict\<close>

text \<open>
  What the planner relies on: asking about one user does not change the answer about another.
  \<open>check_access_cached\<close> provides it, because its cache has a key per user; the planner then
  sends exactly the owed tasks under the verdicts of the start of the tick, and asks about a user
  at most once.
\<close>

locale access_gate =
  fixes check :: "int \<Rightarrow> 'c \<Rightarrow> verdict \<times> 'c"
  assumes others_keep: "u \<noteq> v \<Longrightarrow> fst (check v (snd (check u c))) = fst (check v c)"
begin

definition answers :: "'c \<Rightarrow> int \<Rightarrow> verdict" where
  "answers c u = fst (check u c)"

definition tick_inv :: "db \<Rightarrow> 'c \<Rightarrow> 'c tick \<Rightarrow> bool" where
  "tick_inv d c st \<longleftrightarrow> same_tables d (tk_db st) \<and>
     (\<forall>u. tk_checked st u = None \<longrightarrow> answers (tk_state st) u = answers c u) \<and>
     (\<forall>u v. tk_checked st u = Some v \<longrightarrow> v = send_verdict d (answers c) u)"

lemma verdict_keeps:
  "u \<noteq> v \<Longrightarrow> answers (snd (user_send_verdict d check u c)) v = answers c v"
  using others_keep by (auto simp: user_send_verdict_def answers_def split: option.splits)

lemma verdict_answer: "fst (user_send_verdict d check u c) = send_verdict d (answers c) u"
  by (auto simp: user_send_verdict_def send_verdict_def answers_def split: option.splits)

lemma send_verdict_cong:
  "same_tables d d' \<Longrightarrow> V u = W u \<Longrightarrow> send_verdict d' V u = send_verdict d W u"
  by (cases d; cases d') (auto simp: same_tables_def send_verdict_def split: option.splits)

lemma tick_inv_ask:
  assumes "tick_inv d c st" "tk_checked st u = None"
    "user_send_verdict (tk_db st) check u (tk_state st) = (v, c')"
  shows "v = send_verdict d (answers c) u \<and>
    tick_inv d c (st\<lparr>tk_checked := (tk_checked st)(u \<mapsto> v), tk_state := c'\<rparr>)"
proof -
  have "answers (tk_state st) u = answers c u"
    using assms(1,2) by (simp add: tick_inv_def)
  then have v: "v = send_verdict d (answers c) u"
    using verdict_answer [of "tk_db st" u "tk_state st"] assms(1,3) send_verdict_cong [of d "tk_db st"]
    by (simp add: tick_inv_def)
  have "answers c' w = answers (tk_state st) w" if "w \<noteq> u" for w
    using verdict_keeps [of u w "tk_db st" "tk_state st"] assms(3) that by auto
  with v assms(1) show ?thesis by (auto simp: tick_inv_def)
qed

lemma tick_inv_reschedule:
  assumes "tick_inv d c st" "reschedule tzdb now s st = Inr st'"
  shows "tick_inv d c st' \<and> tk_tasks st' = tk_tasks st"
  using assms reschedule_frame [OF assms(2)] same_tables_update
  by (auto simp: tick_inv_def reschedule_def result_simps)

lemma same_tables_lookup:
  assumes "same_tables d d'"
  shows "schedule_ad d' s = schedule_ad d s" "schedule_account d' s = schedule_account d s"
    "get_group d' g = get_group d g" "active_groups d' gs = active_groups d gs"
proof -
  have t: "db_ads d' = db_ads d" "db_accounts d' = db_accounts d" "db_groups d' = db_groups d"
    using assms by (cases d; cases d'; simp add: same_tables_def)+
  show "schedule_ad d' s = schedule_ad d s" "schedule_account d' s = schedule_account d s"
    unfolding schedule_ad_def schedule_account_def t by (rule refl)+
  have g: "get_group d' g = get_group d g" for g
    using t(3) by (cases g) simp_all
  show "get_group d' g = get_group d g" by (rule g)
  have "get_group d' = get_group d" using g by blast
  then show "active_groups d' gs = active_groups d gs" by (simp add: active_groups_def)
qed

lemma process_owed:
  assumes "tick_inv d c st" "process_schedule tzdb now s3_url check s st = Inr st'"
  shows "tick_inv d c st' \<and>
    tk_tasks st' = tk_tasks st @ owed_tasks s3_url d (send_verdict d (answers c)) s"
proof -
  have same: "same_tables d (tk_db st)" using assms(1) by (simp add: tick_inv_def)
  note look = same_tables_lookup [OF same]
  show ?thesis
  proof (cases "(schedule_ad d s, schedule_account d s)")
    case (Pair oa oacc)
    show ?thesis
    proof (cases "\<exists>a acc. oa = Some a \<and> oacc = Some acc \<and> acc_status acc = ''active'' \<and> ad_status a = AD_STATUS_PUBLISHED")
      case False
      then have "owed_tasks s3_url d (send_verdict d (answers c)) s = []"
        using Pair by (auto simp: owed_tasks_def may_send_def split: option.splits)
      moreover have "reschedule tzdb now s st = Inr st'"
        using assms(2) Pair look False
        by (auto simp: process_schedule_def effective_ad_status_def effective_status_value_def status_simps
            split: option.splits if_splits)
      ultimately show ?thesis using tick_inv_reschedule [OF assms(1)] by simp
    next
      case True
      then obtain a acc where a: "schedule_ad d s = Some a" "schedule_account d s = Some acc"
        "acc_status acc = ''active''" "ad_status a = AD_STATUS_PUBLISHED" using Pair by auto
      let ?u = "ad_user_id a"
      obtain v st1 where st1: "(case tk_checked st ?u of Some v \<Rightarrow> (v, st)
          | None \<Rightarrow> let (v, c) = user_send_verdict (tk_db st) check ?u (tk_state st)
              in (v, st\<lparr>tk_checked := (tk_checked st)(?u \<mapsto> v), tk_state := c\<rparr>)) = (v, st1)"
        by (rule prod.exhaust)
      have v: "v = send_verdict d (answers c) ?u" "tick_inv d c st1" "tk_tasks st1 = tk_tasks st" "tk_db st1 = tk_db st"
      proof -
        have "v = send_verdict d (answers c) ?u \<and> tick_inv d c st1 \<and> tk_tasks st1 = tk_tasks st \<and> tk_db st1 = tk_db st"
        proof (cases "tk_checked st ?u")
          case None
          obtain w c' where w: "user_send_verdict (tk_db st) check ?u (tk_state st) = (w, c')" by (rule prod.exhaust)
          with None st1 have "v = w" "st1 = st\<lparr>tk_checked := (tk_checked st)(?u \<mapsto> w), tk_state := c'\<rparr>" by auto
          with tick_inv_ask [OF assms(1) None w] show ?thesis by auto
        next
          case (Some w)
          have "w = send_verdict d (answers c) ?u"
            using assms(1) Some unfolding tick_inv_def by blast
          with st1 assms(1) Some show ?thesis by auto
        qed
        then show "v = send_verdict d (answers c) ?u" "tick_inv d c st1" "tk_tasks st1 = tk_tasks st" "tk_db st1 = tk_db st"
          by blast+
      qed
      have run: "(if \<not> fst v then reschedule tzdb now s st1
               else bind_res (py_iter (or_list (sch_group_ids s))) (\<lambda>gs.
                   bind_res (group_tasks s3_url (tk_db st1) a acc (sch_id s) gs) (\<lambda>tasks.
                     reschedule tzdb now s (st1\<lparr>tk_tasks := tk_tasks st1 @ tasks\<rparr>)))) = Inr st'"
        using assms(2) a st1 look
        by (simp add: process_schedule_def effective_ad_status_def effective_status_value_def status_simps)
      show ?thesis
      proof (cases "fst v")
        case False
        with run v a tick_inv_reschedule [OF v(2)] show ?thesis
          by (simp add: owed_tasks_def may_send_def)
      next
        case True
        obtain gs tasks where g: "py_iter (or_list (sch_group_ids s)) = Inr gs"
          "group_tasks s3_url (tk_db st1) a acc (sch_id s) gs = Inr tasks"
          "reschedule tzdb now s (st1\<lparr>tk_tasks := tk_tasks st1 @ tasks\<rparr>) = Inr st'"
          using run True by (auto simp: result_simps)
        have "tick_inv d c (st1\<lparr>tk_tasks := tk_tasks st1 @ tasks\<rparr>)" using v(2) by (simp add: tick_inv_def)
        from tick_inv_reschedule [OF this g(3)] group_tasks_owed [OF g(2)] v a g(1) True look
        show ?thesis by (simp add: owed_tasks_def may_send_def)
      qed
    qed
  qed
qed

lemma fold_owed:
  assumes "fold_res (process_schedule tzdb now s3_url check) ss st = Inr st'" "tick_inv d c st"
  shows "tk_tasks st' = tk_tasks st @ concat (map (owed_tasks s3_url d (send_verdict d (answers c))) ss)"
  using assms
proof (induction ss arbitrary: st)
  case (Cons s ss)
  then obtain st1 where st1: "process_schedule tzdb now s3_url check s st = Inr st1"
    "fold_res (process_schedule tzdb now s3_url check) ss st1 = Inr st'" by (auto simp: result_simps)
  with process_owed [OF Cons.prems(2) st1(1)] Cons.IH [OF st1(2)] show ?case by simp
qed simp

lemma collect_owed:
  assumes "collect_due_schedules tzdb now s3_url check d c = Inr (tasks, d', c')"
  shows "tasks = concat (map (owed_tasks s3_url d (send_verdict d (answers c))) (due_schedules now d))"
proof (cases "due_schedules now d = []")
  case True
  with assms show ?thesis by (simp add: collect_due_schedules_def)
next
  case False
  let ?st = "\<lparr>tk_db = d, tk_tasks = [], tk_checked = (\<lambda>_. None), tk_state = c\<rparr>"
  obtain st where "fold_res (process_schedule tzdb now s3_url check) (due_schedules now d) ?st = Inr st"
    "tasks = tk_tasks st"
    using assms False by (auto simp: collect_due_schedules_def Let_def result_simps)
  moreover have "tick_inv d c ?st" by (simp add: tick_inv_def same_tables_def)
  ultimately show ?thesis using fold_owed by fastforce
qed

end

text \<open>The cached verdict at one moment keeps the contract.\<close>

definition cached_check :: "redis_io \<Rightarrow> int \<Rightarrow> db \<Rightarrow> cache check_limit" where
  "cached_check io now d u c = check_access_cached io now d u ''send'' c"

lemma cached_check_others:
  "u \<noteq> v \<Longrightarrow> fst (cached_check io now d v (snd (cached_check io now d u c))) = fst (cached_check io now d v c)"
  by (auto simp: cached_check_def check_access_cached_def Let_def cache_get_setex split: option.splits)

interpretation cached_gate: access_gate "cached_check io now d" for io now d
  by unfold_locales (rule cached_check_others)

section \<open>Properties\<close>

text \<open>
  a tick that succeeds hands over exactly the owed tasks, in order: one for every due schedule
  of an active account and a published advertisement whose owner is neither blocked nor without
  access, and every group of its list that exists and is switched on. The verdicts are those the
  cache gives at the start of the tick, although the loop asks once per user and remembers.
\<close>

theorem planner_sends_what_is_owed:
  assumes "collect_due_schedules tzdb now s3_url (cached_check io now d) d c = Inr (tasks, d', c')"
  shows "tasks = concat (map (owed_tasks s3_url d
      (send_verdict d (\<lambda>u. fst (check_access_cached io now d u ''send'' c)))) (due_schedules now d))"
proof -
  have "cached_gate.answers io now d c = (\<lambda>u. fst (check_access_cached io now d u ''send'' c))"
    by (rule ext) (simp add: cached_gate.answers_def cached_check_def)
  with cached_gate.collect_owed [OF assms] show ?thesis by simp
qed

lemma fold_res_each:
  "fold_res f xs s = Inr s' \<Longrightarrow> x \<in> set xs \<Longrightarrow> \<exists>t t'. f x t = Inr t'"
  by (induction xs arbitrary: s) (auto simp: result_simps)

lemma collect_computes:
  assumes "collect_due_schedules tzdb now s3_url check d c = Inr (tasks, d', c')" "s \<in> set (due_schedules now d)"
  shows "\<exists>t. compute_next_run_at tzdb (sch_days_of_week s) (sch_times_of_day s) (sch_timezone s) now = Inr t"
proof -
  have "due_schedules now d \<noteq> []" using assms(2) by auto
  then obtain st where "fold_res (process_schedule tzdb now s3_url check) (due_schedules now d)
      \<lparr>tk_db = d, tk_tasks = [], tk_checked = (\<lambda>_. None), tk_state = c\<rparr> = Inr st"
    using assms(1) by (auto simp: collect_due_schedules_def Let_def result_simps)
  from fold_res_each [OF this assms(2)] show ?thesis using process_db by blast
qed

lemma advanced_future:
  assumes "\<And>z. tzdb (sch_timezone s) = Inr z \<Longrightarrow> \<exists>off. z = fixed_zone off"
  shows "\<not> is_due now (advanced tzdb now s)"
proof (cases "compute_next_run_at tzdb (sch_days_of_week s) (sch_times_of_day s) (sch_timezone s) now")
  case (Inr r)
  show ?thesis
  proof (cases r)
    case (Some t)
    with Inr next_run_slot obtain z w days T where z: "tzdb (sch_timezone s) = Inr z" "t = from_wall z w"
      "next_slot days T (to_wall z now) w" by meson
    then obtain off where "z = fixed_zone off" using assms by blast
    with z(2,3) have "now < t" by (simp add: next_slot_def from_to_fixed [OF refl])
    with Inr Some show ?thesis by (simp add: is_due_def advanced_def)
  qed (use Inr in \<open>simp add: is_due_def advanced_def\<close>)
qed (simp add: is_due_def advanced_def)

lemma collect_nothing_due:
  assumes "collect_due_schedules tzdb now s3_url check d c = Inr (tasks, d', c')" "distinct (map sch_id (db_schedules d))"
    and "\<And>name z. tzdb name = Inr z \<Longrightarrow> \<exists>off. z = fixed_zone off"
  shows "due_schedules now d' = []"
  using advanced_future assms(3)
  by (auto simp: due_schedules_def collect_due_schedules_db(2) [OF assms(1,2)] filter_empty_conv)

text \<open>
  a tick that succeeds fires nothing twice and leaves no backlog: every due schedule moves to
  its next slot after now, sent or skipped, every other row of every table stays as it is, and in
  zones of a constant offset nothing is due any more, so that the same moment asked again gives no
  task.
\<close>

theorem planner_leaves_no_backlog:
  assumes "collect_due_schedules tzdb now s3_url check d c = Inr (tasks, d', c')" "distinct (map sch_id (db_schedules d))"
    and "\<And>name z. tzdb name = Inr z \<Longrightarrow> \<exists>off. z = fixed_zone off"
  shows "same_tables d d' \<and>
    db_schedules d' = map (\<lambda>s. if is_due now s then advanced tzdb now s else s) (db_schedules d) \<and>
    due_schedules now d' = [] \<and>
    collect_due_schedules tzdb now s3_url check d' c' = Inr ([], d', c')"
proof -
  note rows = collect_due_schedules_db(2) [OF assms(1,2)]
  have "due_schedules now d' = []" by (rule collect_nothing_due [OF assms])
  with rows collect_due_schedules_db(1) [OF assms(1,2)] show ?thesis
    by (simp add: collect_due_schedules_def)
qed

definition due_db :: db where
  "due_db = sample_schedule_db\<lparr>db_subscriptions := [sample_subscription\<lparr>sub_has_free_access := True\<rparr>]\<rparr>"

definition no_redis :: redis_io where
  "no_redis = \<lparr>has_client = False, read_ok = False, write_ok = False\<rparr>"

lemma due_db_tick:
  "\<exists>tasks d'. collect_due_schedules sample_tzdb sample_now ''https://s3'' (cached_check no_redis sample_now due_db)
     due_db (\<lambda>_. None) = Inr (tasks, d', \<lambda>_. None) \<and> length tasks = 1"
proof -
  have skip: "cached_check no_redis sample_now due_db u c = (check_access sample_now u due_db, c)" for u c
    by (simp add: cached_check_def check_access_cached_def no_redis_def Let_def)
  have acc: "check_access sample_now 1 due_db = (True, '''')" by code_simp
  have due: "due_schedules sample_now due_db = [sample_schedule]" by code_simp
  have next_at: "compute_next_run_at sample_tzdb (sch_days_of_week sample_schedule) (sch_times_of_day sample_schedule)
      (sch_timezone sample_schedule) sample_now = Inr (Some (day_of 2024 1 3 * day_us + 6 * hour_us))"
    by code_simp
  have rows: "schedule_ad due_db sample_schedule = Some sample_ad" "schedule_account due_db sample_schedule = Some sample_account"
    "acc_status sample_account = ''active''" "effective_ad_status sample_ad \<noteq> AD_STATUS_DRAFT"
    "find_row user_id 1 (db_users due_db) = Some sample_user" "\<not> user_is_blocked sample_user" "ad_user_id sample_ad = 1"
    "sch_id sample_schedule = 1"
    by code_simp+
  have groups: "group_tasks ''https://s3'' due_db sample_ad sample_account 1 [PInt 1] =
      Inr [build_dispatch_task ''https://s3'' sample_ad sample_group sample_account (Some 1)]"
    "py_iter (or_list (sch_group_ids sample_schedule)) = Inr [PInt 1]"
    by code_simp+
  have "db_schedules due_db = [sample_schedule]" by code_simp
  then show ?thesis
    by (simp add: collect_due_schedules_def due process_schedule_def rows user_send_verdict_def skip acc Let_def
        groups reschedule_def next_at commit_schedules_def ck_active_requires_next_run_def
        del: group_tasks.simps)
qed

theorem planner_sends_what_is_owed_witness:
  "\<exists>tasks d'. collect_due_schedules sample_tzdb sample_now ''https://s3'' (cached_check no_redis sample_now due_db)
      due_db (\<lambda>_. None) = Inr (tasks, d', \<lambda>_. None) \<and> tasks \<noteq> [] \<and>
    tasks = concat (map (owed_tasks ''https://s3'' due_db
      (send_verdict due_db (\<lambda>u. fst (check_access_cached no_redis sample_now due_db u ''send'' (\<lambda>_. None)))))
      (due_schedules sample_now due_db))"
proof -
  obtain tasks d' where run: "collect_due_schedules sample_tzdb sample_now ''https://s3''
      (cached_check no_redis sample_now due_db) due_db (\<lambda>_. None) = Inr (tasks, d', \<lambda>_. None)" "length tasks = 1"
    using due_db_tick by blast
  have "tasks \<noteq> []" using run(2) by auto
  with planner_sends_what_is_owed [OF run(1)] run(1) show ?thesis by blast
qed

theorem planner_leaves_no_backlog_witness:
  "\<exists>tasks d'. collect_due_schedules sample_tzdb sample_now ''https://s3'' (cached_check no_redis sample_now due_db)
      due_db (\<lambda>_. None) = Inr (tasks, d', \<lambda>_. None) \<and> due_schedules sample_now due_db \<noteq> [] \<and>
    due_schedules sample_now d' = []"
proof -
  obtain tasks d' where run: "collect_due_schedules sample_tzdb sample_now ''https://s3''
      (cached_check no_redis sample_now due_db) due_db (\<lambda>_. None) = Inr (tasks, d', \<lambda>_. None)"
    using due_db_tick by blast
  have "distinct (map sch_id (db_schedules due_db))" "due_schedules sample_now due_db \<noteq> []" by code_simp+
  moreover have "\<exists>off. z = fixed_zone off" if "sample_tzdb name = Inr z" for name z
    using that by (auto simp: sample_tzdb_def split: if_splits)
  ultimately show ?thesis using planner_leaves_no_backlog [OF run] run by blast
qed

text \<open>
  C8: one due schedule whose next run cannot be computed, or has none, fails the whole tick: no
  task of any user is handed over and nothing is committed.
\<close>

theorem planner_unrunnable_row_stops_all:
  assumes "distinct (map sch_id (db_schedules d))" "s \<in> set (db_schedules d)" "is_due now s"
    and "compute_next_run_at tzdb (sch_days_of_week s) (sch_times_of_day s) (sch_timezone s) now \<in> {Inl e, Inr None}"
  shows "\<exists>err. collect_due_schedules tzdb now s3_url check d c = Inl err"
proof (cases "collect_due_schedules tzdb now s3_url check d c")
  case (Inr r)
  then obtain tasks d' c' where run: "collect_due_schedules tzdb now s3_url check d c = Inr (tasks, d', c')"
    by (cases r) auto
  have due: "s \<in> set (due_schedules now d)" using assms(2,3) by (simp add: due_schedules_def)
  with collect_computes [OF run due] assms(4)
  have none: "compute_next_run_at tzdb (sch_days_of_week s) (sch_times_of_day s) (sch_timezone s) now = Inr None" by auto
  have "advanced tzdb now s \<in> set (db_schedules d')"
    using collect_due_schedules_db(2) [OF run assms(1)] assms(2,3) by auto
  moreover have "list_all ck_active_requires_next_run (db_schedules d')"
    using collect_due_schedules_db(3) [OF run assms(1)] due by fastforce
  ultimately have "ck_active_requires_next_run (advanced tzdb now s)" by (simp add: list_all_iff)
  then show ?thesis
    using none assms(3) by (simp add: advanced_def ck_active_requires_next_run_def is_due_def)
qed simp

theorem planner_unrunnable_row_stops_all_witness:
  "\<exists>err. collect_due_schedules sample_tzdb sample_now ''https://s3'' (cached_check no_redis sample_now due_db)
     (due_db\<lparr>db_schedules := [sample_schedule, sample_schedule\<lparr>sch_id := 2, sch_days_of_week := PList [PInt 9]\<rparr>]\<rparr>)
     (\<lambda>_. None) = Inl err"
  by (rule planner_unrunnable_row_stops_all [where s = "sample_schedule\<lparr>sch_id := 2, sch_days_of_week := PList [PInt 9]\<rparr>"
        and e = ValueError])
     (simp_all add: sample_schedule_def is_due_def sample_now_def, code_simp+)

end
