(* ===== verification/Ad_Editor.thy ===== *)
theory Ad_Editor
  imports Admin_Actions Image_Uploads Dispatch
begin

text \<open>
  The editor of an advertisement (\<open>app/pages/ads.py\<close>) and its JSON interface
  (\<open>app/routes/ads.py\<close> over \<open>app/repositories/base.py\<close>): saving with its attachments, the
  upload of attachments, removal. A parsed form is the list of its fields in order, a text or an
  uploaded part each; of a field named twice \<open>get\<close> reads the last. Rendering is an argument that
  receives what the templates are given; the words of an error line are not represented. A value the
  column cannot hold, a title of more than 255 characters, a text with a zero character or an
  identifier outside the integer column, makes the statement fail with \<open>DataError\<close>.
\<close>

section \<open>Forms\<close>

datatype form_value = FText string | FFile upload_part

type_synonym form = "(string \<times> form_value) list"

definition getlist :: "string \<Rightarrow> form \<Rightarrow> form_value list" where
  "getlist k form = map snd (filter (\<lambda>kv. fst kv = k) form)"

definition form_get :: "string \<Rightarrow> form \<Rightarrow> form_value option" where
  "form_get k form = (let vs = getlist k form in if vs = [] then None else Some (last vs))"

fun texts :: "form_value list \<Rightarrow> string list" where
  "texts [] = []"
| "texts (FText s # vs) = s # texts vs"
| "texts (FFile p # vs) = texts vs"

fun files :: "form_value list \<Rightarrow> upload_part list" where
  "files [] = []"
| "files (FText s # vs) = files vs"
| "files (FFile p # vs) = p # files vs"

section \<open>Saving from the editor\<close>

definition AD_STATUSES :: "string set" where
  "AD_STATUSES = {AD_STATUS_DRAFT, AD_STATUS_PUBLISHED}"

definition title_fits :: "string \<Rightarrow> bool" where
  "title_fits s \<longleftrightarrow> length s \<le> 255 \<and> CHR 0x00 \<notin> set s"

definition text_fits :: "string \<Rightarrow> bool" where
  "text_fits s \<longleftrightarrow> CHR 0x00 \<notin> set s"

text \<open>What the autosave fragment is given.\<close>

record autosave_view =
  av_ad :: "ad option"
  av_error :: bool
  av_media_gone :: "string list"
  av_tombstone :: "string option"
  av_push_url :: "string option"

definition error_view :: "ad option \<Rightarrow> autosave_view" where
  "error_view a = \<lparr>av_ad = a, av_error = True, av_media_gone = [], av_tombstone = None, av_push_url = None\<rparr>"

definition edit_location :: "int \<Rightarrow> string" where
  "edit_location i = ''/ads/'' @ int_str i @ ''/edit''"

definition attachment_refusal :: "http_request \<Rightarrow> ad option \<Rightarrow> exn \<Rightarrow> exn + string \<times> autosave_view" where
  "attachment_refusal rq a e =
     (if \<not> is_htmx rq then Inl e
      else Inr (case a of None \<Rightarrow> ''/ads/new'' | Some x \<Rightarrow> edit_location (ad_id x), error_view a))"

text \<open>\<open>dict.fromkeys\<close>: the first occurrences, in order.\<close>

fun first_seen :: "string list \<Rightarrow> string list" where
  "first_seen [] = []"
| "first_seen (v # vs) = v # filter (\<lambda>w. w \<noteq> v) (first_seen vs)"

definition editor_images :: "upload_settings \<Rightarrow> int \<Rightarrow> form \<Rightarrow> exn + string list \<times> string list" where
  "editor_images cfg uid form =
     (let raw = getlist ''images'' form;
          marks = filter (\<lambda>v. strip v \<noteq> []) (texts (getlist ''removed_images'' form));
          snapshot = filter (\<lambda>v. strip v \<noteq> []) (texts raw)
      in if length (texts raw) \<noteq> length raw then Inl (HTTPException 400)
         else bind_res (own_image_keys (filter (\<lambda>v. v \<notin> set marks) snapshot) uid (max_images_per_ad cfg))
                (\<lambda>images. Inr (images, filter (\<lambda>v. v \<in> set marks) (first_seen snapshot))))"

definition save_from_editor ::
  "upload_settings \<Rightarrow> int \<Rightarrow> http_request \<Rightarrow> int \<Rightarrow> ad option \<Rightarrow> string \<Rightarrow> string \<Rightarrow> string option \<Rightarrow> form \<Rightarrow> db \<Rightarrow>
   (exn + string \<times> autosave_view) \<times> db" where
  "save_from_editor cfg now rq uid a title text status form d =
     (case editor_images cfg uid form of
        Inl e \<Rightarrow> (attachment_refusal rq a e, d)
      | Inr (images, resurrected) \<Rightarrow>
          let removed = (case form_get ''remove_image'' form of
                           Some (FText r) \<Rightarrow> if r \<noteq> [] \<and> r \<in> set images then Some r else None
                         | _ \<Rightarrow> None);
              kept = (case removed of None \<Rightarrow> images | Some r \<Rightarrow> remove1 r images);
              explicit = (form_get ''save'' form \<noteq> None);
              state = (\<lambda>old. if explicit then AD_STATUS_PUBLISHED
                             else case status of
                                    Some s \<Rightarrow> if s \<in> AD_STATUSES then s else old
                                  | None \<Rightarrow> old);
              saved = (case a of
                         None \<Rightarrow> \<lparr>ad_id = next_id ad_id (db_ads d), ad_user_id = uid, ad_title = title, ad_text = text,
                                 ad_images = Some kept, ad_status = state AD_STATUS_DRAFT, ad_created_at = now\<rparr>
                       | Some x \<Rightarrow> x\<lparr>ad_title := title, ad_text := text, ad_images := Some kept,
                                    ad_status := state (ad_status x)\<rparr>);
              d' = (case a of
                      None \<Rightarrow> d\<lparr>db_ads := db_ads d @ [saved]\<rparr>
                    | Some x \<Rightarrow> d\<lparr>db_ads := update_where (\<lambda>y. ad_id y = ad_id x) (\<lambda>_. saved) (db_ads d)\<rparr>)
          in if \<not> title_fits title \<or> \<not> text_fits text then (Inl DataError, d)
             else (Inr (if explicit then ''/ads'' else edit_location (ad_id saved),
                        \<lparr>av_ad = Some saved, av_error = False,
                         av_media_gone = resurrected @ (case removed of None \<Rightarrow> [] | Some r \<Rightarrow> [r]),
                         av_tombstone = removed,
                         av_push_url = (if a = None then Some (edit_location (ad_id saved)) else None)\<rparr>), d'))"

section \<open>The page handlers\<close>

text \<open>What the guards of the router and the cookie give a handler.\<close>

definition page_request :: "sign_env \<Rightarrow> int \<Rightarrow> http_request \<Rightarrow> db \<Rightarrow> exn + user option" where
  "page_request en now rq d =
     bind_res (require_access (en_lib en) (en_cfg en) now rq d) (\<lambda>_.
       bind_res (get_user_from_cookie (en_lib en) (en_cfg en) now rq d) (\<lambda>pu. Inr (map_option pu_user pu)))"

type_synonym editor_render = "db \<Rightarrow> autosave_view \<Rightarrow> exn + body_response"

definition answer_save ::
  "(string \<Rightarrow> string) \<Rightarrow> editor_render \<Rightarrow> http_request \<Rightarrow> (exn + string \<times> autosave_view) \<times> db \<Rightarrow> (exn + reply) \<times> db" where
  "answer_save oob render rq r =
     (case r of
        (Inl e, d) \<Rightarrow> (Inl e, d)
      | (Inr (degraded, view), d) \<Rightarrow> (respond oob rq degraded None (Some (render d view)), d))"

text \<open>An identifier the driver cannot encode fails the query.\<close>

definition select_own_ad :: "int \<Rightarrow> int \<Rightarrow> db \<Rightarrow> exn + ad option" where
  "select_own_ad i uid d =
     (if \<not> c_int i then Inl DataError
      else Inr (case find_row ad_id i (db_ads d) of
                  None \<Rightarrow> None | Some a \<Rightarrow> if ad_user_id a = uid then Some a else None))"

definition ads_create ::
  "sign_env \<Rightarrow> (string \<Rightarrow> string) \<Rightarrow> editor_render \<Rightarrow> upload_settings \<Rightarrow> int \<Rightarrow> http_request \<Rightarrow> string \<Rightarrow> string \<Rightarrow>
   string option \<Rightarrow> form \<Rightarrow> db \<Rightarrow> (exn + reply) \<times> db" where
  "ads_create en oob render cfg now rq title text ad_field form d =
     (case page_request en now rq d of
        Inl e \<Rightarrow> (Inl e, d)
      | Inr None \<Rightarrow> (respond oob rq ''/login'' None None, d)
      | Inr (Some u) \<Rightarrow>
          let create = answer_save oob render rq (save_from_editor cfg now rq (user_id u) None title text None form d);
              gone = (respond oob rq ''/ads'' None (Some (render d (error_view None))), d)
          in case ad_field of
               None \<Rightarrow> create
             | Some f \<Rightarrow>
                 if strip f = [] then create
                 else case py_int f of
                        None \<Rightarrow> gone
                      | Some i \<Rightarrow>
                          (case select_own_ad i (user_id u) d of
                             Inl e \<Rightarrow> (Inl e, d)
                           | Inr None \<Rightarrow> gone
                           | Inr (Some a) \<Rightarrow>
                               answer_save oob render rq
                                 (save_from_editor cfg now rq (user_id u) (Some a) title text None form d)))"

definition ads_update ::
  "sign_env \<Rightarrow> (string \<Rightarrow> string) \<Rightarrow> editor_render \<Rightarrow> upload_settings \<Rightarrow> int \<Rightarrow> http_request \<Rightarrow> int \<Rightarrow> string \<Rightarrow> string \<Rightarrow>
   string option \<Rightarrow> form \<Rightarrow> db \<Rightarrow> (exn + reply) \<times> db" where
  "ads_update en oob render cfg now rq i title text status form d =
     (case page_request en now rq d of
        Inl e \<Rightarrow> (Inl e, d)
      | Inr None \<Rightarrow> (respond oob rq ''/login'' None None, d)
      | Inr (Some u) \<Rightarrow>
          if \<not> id_in_column i then (respond oob rq ''/ads'' None None, d)
          else case select_own_ad i (user_id u) d of
                 Inl e \<Rightarrow> (Inl e, d)
               | Inr None \<Rightarrow> (respond oob rq ''/ads'' None None, d)
               | Inr (Some a) \<Rightarrow>
                   answer_save oob render rq
                     (save_from_editor cfg now rq (user_id u) (Some a) title text status form d))"

text \<open>The row of an advertisement goes with its schedules; the journal keeps its entries.\<close>

definition delete_ad_row :: "int \<Rightarrow> db \<Rightarrow> db" where
  "delete_ad_row i d =
     d\<lparr>db_ads := filter (\<lambda>a. ad_id a \<noteq> i) (db_ads d),
       db_schedules := filter (\<lambda>s. sch_ad_id s \<noteq> i) (db_schedules d)\<rparr>"

definition ads_delete ::
  "sign_env \<Rightarrow> url_lib \<Rightarrow> (string \<Rightarrow> string) \<Rightarrow> int \<Rightarrow> http_request \<Rightarrow> int \<Rightarrow> db \<Rightarrow> (exn + reply) \<times> db" where
  "ads_delete en ul oob now rq i d =
     (case page_request en now rq d of
        Inl e \<Rightarrow> (Inl e, d)
      | Inr None \<Rightarrow> (respond oob rq ''/login'' None None, d)
      | Inr (Some u) \<Rightarrow>
          (case is_same_origin ul rq of
             Inl e \<Rightarrow> (Inl e, d)
           | Inr False \<Rightarrow> (Inr (EmptyStatus 403), d)
           | Inr True \<Rightarrow>
               if \<not> id_in_column i then (respond oob rq ''/ads'' None None, d)
               else case select_own_ad i (user_id u) d of
                      Inl e \<Rightarrow> (Inl e, d)
                    | Inr a \<Rightarrow>
                        (respond oob rq ''/ads'' None None,
                         (case a of None \<Rightarrow> d | Some x \<Rightarrow> delete_ad_row (ad_id x) d))))"

section \<open>Uploading attachments\<close>

record upload_strip =
  us_free :: nat
  us_keys :: "string list"
  us_refusals :: "(string \<times> refusal_reason) list"
  us_attached :: bool

definition MAX_UPLOAD_PARTS :: nat where "MAX_UPLOAD_PARTS = 64"

definition refuse_part :: "upload_part \<Rightarrow> refusal_reason \<Rightarrow> upload_strip \<Rightarrow> upload_strip" where
  "refuse_part part why st = st\<lparr>us_refusals := us_refusals st @ [(safe_filename (part_filename part), why)]\<rparr>"

text \<open>The loop over the uploaded parts; \<open>uuids n\<close> is the unique name drawn for the \<open>n\<close>th part.\<close>

fun attach_parts ::
  "'i pillow \<Rightarrow> (string \<Rightarrow> exn option) \<Rightarrow> (nat \<Rightarrow> string) \<Rightarrow> upload_settings \<Rightarrow> int \<Rightarrow> nat \<Rightarrow> upload_part list \<Rightarrow>
   upload_strip \<Rightarrow> bucket \<Rightarrow> (exn + upload_strip) \<times> bucket" where
  "attach_parts pl s3 uuids cfg uid n [] st b = (Inr st, b)"
| "attach_parts pl s3 uuids cfg uid n (part # parts) st b =
     (if us_free st = 0
      then attach_parts pl s3 uuids cfg uid (Suc n) parts (refuse_part part (UPLOAD_LIMIT (max_images_per_ad cfg)) st) b
      else case store_upload pl s3 (uuids n) cfg uid part b of
             (Inl (HTTPException c), b1) \<Rightarrow>
               attach_parts pl s3 uuids cfg uid (Suc n) parts (refuse_part part STORAGE_UNAVAILABLE st) b1
           | (Inl e, b1) \<Rightarrow> (Inl e, b1)
           | (Inr (Accepted k), b1) \<Rightarrow>
               attach_parts pl s3 uuids cfg uid (Suc n) parts
                 (st\<lparr>us_keys := us_keys st @ [k], us_free := us_free st - 1, us_attached := True\<rparr>) b1
           | (Inr (Rejected name why), b1) \<Rightarrow>
               attach_parts pl s3 uuids cfg uid (Suc n) parts
                 (st\<lparr>us_refusals := us_refusals st @ [(name, why)]\<rparr>) b1)"

definition upload_outcome ::
  "'i pillow \<Rightarrow> (string \<Rightarrow> exn option) \<Rightarrow> (nat \<Rightarrow> string) \<Rightarrow> upload_settings \<Rightarrow> int \<Rightarrow> form \<Rightarrow> bucket \<Rightarrow>
   (exn + upload_strip) \<times> bucket" where
  "upload_outcome pl s3 uuids cfg uid form b =
     (let raw = getlist ''images'' form;
          parts = files (getlist ''files'' form);
          (keys, offending) = partition_own_image_keys (filter (\<lambda>v. strip v \<noteq> []) (texts raw)) uid;
          free = max_images_per_ad cfg - length keys
      in if offending \<noteq> [] \<or> length (texts raw) \<noteq> length raw
         then (Inr (fold (\<lambda>p. refuse_part p INACCESSIBLE_IMAGE) parts
                 \<lparr>us_free = free, us_keys = keys, us_refusals = [('''', INACCESSIBLE_IMAGE)], us_attached = False\<rparr>), b)
         else attach_parts pl s3 uuids cfg uid 0 parts
                \<lparr>us_free = free, us_keys = keys, us_refusals = [], us_attached = False\<rparr> b)"

text \<open>The request is parsed after the origin is judged; a request the parser refuses is \<open>None\<close>.\<close>

definition ads_images_upload ::
  "sign_env \<Rightarrow> url_lib \<Rightarrow> (string \<Rightarrow> string) \<Rightarrow> (upload_strip \<Rightarrow> nat \<Rightarrow> exn + body_response) \<Rightarrow>
   ((string \<times> refusal_reason) list \<Rightarrow> exn + body_response) \<Rightarrow> 'i pillow \<Rightarrow> (string \<Rightarrow> exn option) \<Rightarrow> (nat \<Rightarrow> string) \<Rightarrow>
   upload_settings \<Rightarrow> int \<Rightarrow> http_request \<Rightarrow> form option \<Rightarrow> db \<times> bucket \<Rightarrow> (exn + reply) \<times> bucket" where
  "ads_images_upload en ul oob strip_page refusal_page pl s3 uuids cfg now rq parsed s =
     (let (d, b) = s in
      case page_request en now rq d of
        Inl e \<Rightarrow> (Inl e, b)
      | Inr None \<Rightarrow> (respond oob rq ''/login'' None None, b)
      | Inr (Some u) \<Rightarrow>
          (case is_same_origin ul rq of
             Inl e \<Rightarrow> (Inl e, b)
           | Inr False \<Rightarrow> (Inr (EmptyStatus 403), b)
           | Inr True \<Rightarrow>
               (case parsed of
                  None \<Rightarrow>
                    (respond oob rq ''/ads/new'' None (Some (refusal_page [('''', UPLOAD_PARTS MAX_UPLOAD_PARTS)])), b)
                | Some form \<Rightarrow>
                    (case upload_outcome pl s3 uuids cfg (user_id u) form b of
                       (Inl e, b1) \<Rightarrow> (Inl e, b1)
                     | (Inr st, b1) \<Rightarrow>
                         (respond oob rq ''/ads/new'' None (Some (strip_page st (max_images_per_ad cfg))), b1)))))"

section \<open>The JSON interface\<close>

record create_ad_request =
  ca_title :: string
  ca_text :: string
  ca_images :: "string list"

text \<open>Of a key that may be left out, \<open>None\<close> is left out and \<open>Some None\<close> is null.\<close>

record update_ad_request =
  ua_title :: "string option option"
  ua_text :: "string option option"
  ua_images :: "string list option option"
  ua_status :: "string option option"

text \<open>The response model declares the attachments a list: the framework refuses to send anything else.\<close>

definition ad_response :: "ad \<Rightarrow> exn + ad" where
  "ad_response a = (if ad_images a = None then Inl ResponseValidationError else Inr a)"

definition create_ad ::
  "upload_settings \<Rightarrow> int \<Rightarrow> int \<Rightarrow> create_ad_request \<Rightarrow> db \<Rightarrow> (exn + ad) \<times> db" where
  "create_ad cfg now uid r d =
     (case own_image_keys (ca_images r) uid (max_images_per_ad cfg) of
        Inl e \<Rightarrow> (Inl e, d)
      | Inr images \<Rightarrow>
          if \<not> user_exists d uid then (Inl IntegrityError, d)
          else if \<not> title_fits (ca_title r) \<or> \<not> text_fits (ca_text r) then (Inl DataError, d)
          else let a = \<lparr>ad_id = next_id ad_id (db_ads d), ad_user_id = uid, ad_title = ca_title r, ad_text = ca_text r,
                        ad_images = Some images, ad_status = AD_STATUS_PUBLISHED, ad_created_at = now\<rparr>
               in (ad_response a, d\<lparr>db_ads := db_ads d @ [a]\<rparr>))"

definition list_ads :: "int \<Rightarrow> db \<Rightarrow> exn + ad list" where
  "list_ads uid d = map_res ad_response (sort_key ad_id (filter (\<lambda>a. ad_user_id a = uid) (db_ads d)))"

definition own_ad_or_404 :: "int \<Rightarrow> int \<Rightarrow> db \<Rightarrow> exn + ad" where
  "own_ad_or_404 i uid d =
     bind_res (select_own_ad i uid d) (\<lambda>a. case a of None \<Rightarrow> Inl (HTTPException 404) | Some x \<Rightarrow> Inr x)"

definition get_ad_json :: "int \<Rightarrow> int \<Rightarrow> db \<Rightarrow> exn + ad" where
  "get_ad_json i uid d = bind_res (own_ad_or_404 i uid d) ad_response"

definition set_ad_field :: "'v option option \<Rightarrow> 'v \<Rightarrow> 'v" where
  "set_ad_field f old = (case f of Some (Some v) \<Rightarrow> v | _ \<Rightarrow> old)"

definition updated_ad :: "update_ad_request \<Rightarrow> ad \<Rightarrow> ad" where
  "updated_ad r a =
     a\<lparr>ad_title := set_ad_field (ua_title r) (ad_title a), ad_text := set_ad_field (ua_text r) (ad_text a),
       ad_images := (case ua_images r of None \<Rightarrow> ad_images a | Some v \<Rightarrow> v),
       ad_status := set_ad_field (ua_status r) (ad_status a)\<rparr>"

definition update_ad ::
  "upload_settings \<Rightarrow> int \<Rightarrow> int \<Rightarrow> update_ad_request \<Rightarrow> db \<Rightarrow> (exn + ad) \<times> db" where
  "update_ad cfg uid i r d =
     (if (case ua_status r of Some (Some s) \<Rightarrow> s \<notin> AD_STATUSES | _ \<Rightarrow> False) then (Inl (HTTPException 422), d)
      else case own_ad_or_404 i uid d of
             Inl e \<Rightarrow> (Inl e, d)
           | Inr a \<Rightarrow>
               (case (case ua_images r of
                        Some (Some vs) \<Rightarrow> own_image_keys vs uid (max_images_per_ad cfg)
                      | _ \<Rightarrow> Inr []) of
                  Inl e \<Rightarrow> (Inl e, d)
                | Inr _ \<Rightarrow>
                    if ua_title r = Some None \<or> ua_text r = Some None \<or> ua_status r = Some None
                    then (Inl IntegrityError, d)
                    else let a' = updated_ad r a
                         in if \<not> title_fits (ad_title a') \<or> \<not> text_fits (ad_text a') then (Inl DataError, d)
                            else (ad_response a',
                                  d\<lparr>db_ads := update_where (\<lambda>y. ad_id y = ad_id a) (\<lambda>_. a') (db_ads d)\<rparr>)))"

definition delete_ad :: "int \<Rightarrow> int \<Rightarrow> db \<Rightarrow> (exn + unit) \<times> db" where
  "delete_ad uid i d =
     (case own_ad_or_404 i uid d of
        Inl e \<Rightarrow> (Inl e, d)
      | Inr a \<Rightarrow> (Inr (), delete_ad_row (ad_id a) d))"

section \<open>The upload loop\<close>

definition owned_key :: "int \<Rightarrow> string \<Rightarrow> bool" where
  "owned_key uid k \<longleftrightarrow> image_key_match k = Some (int_str uid)"

text \<open>What a run over the parts adds to the strip and to the bucket.\<close>

definition strip_step :: "int \<Rightarrow> nat \<Rightarrow> upload_strip \<Rightarrow> bucket \<Rightarrow> upload_strip \<Rightarrow> bucket \<Rightarrow> bool" where
  "strip_step uid n st b st' b' \<longleftrightarrow>
     (\<exists>new refs. us_keys st' = us_keys st @ new \<and> us_refusals st' = us_refusals st @ refs \<and>
        length new + length refs = n \<and> length new + us_free st' = us_free st \<and>
        (us_attached st' \<longleftrightarrow> us_attached st \<or> new \<noteq> []) \<and> (\<forall>k \<in> set new. owned_key uid k) \<and>
        (\<forall>j. b' j \<noteq> b j \<longrightarrow> (\<exists>k \<in> set new. j = k \<or> j = thumb_key k)))"

lemma strip_step_refl: "strip_step uid 0 st b st b"
  by (auto simp: strip_step_def)

lemma strip_step_refusal:
  assumes "strip_step uid n (st\<lparr>us_refusals := us_refusals st @ [r]\<rparr>) b st' b'"
  shows "strip_step uid (Suc n) st b st' b'"
proof -
  from assms obtain new refs where n: "us_keys st' = us_keys st @ new" "us_refusals st' = us_refusals st @ r # refs"
    "length new + length refs = n" "length new + us_free st' = us_free st"
    "us_attached st' \<longleftrightarrow> us_attached st \<or> new \<noteq> []" "\<forall>k \<in> set new. owned_key uid k"
    "\<forall>j. b' j \<noteq> b j \<longrightarrow> (\<exists>k \<in> set new. j = k \<or> j = thumb_key k)"
    by (auto simp: strip_step_def)
  then show ?thesis unfolding strip_step_def by (intro exI [of _ new] exI [of _ "r # refs"]) simp
qed

lemma strip_step_accept:
  assumes "strip_step uid n (st\<lparr>us_keys := us_keys st @ [k], us_free := us_free st - 1, us_attached := True\<rparr>) b1 st' b'"
    and "us_free st \<noteq> 0" "owned_key uid k" "\<forall>j. b1 j \<noteq> b j \<longrightarrow> j = k \<or> j = thumb_key k"
  shows "strip_step uid (Suc n) st b st' b'"
proof -
  from assms(1) obtain new refs where n: "us_keys st' = us_keys st @ k # new" "us_refusals st' = us_refusals st @ refs"
    "length new + length refs = n" "length new + us_free st' = us_free st - 1" "us_attached st'" "\<forall>k \<in> set new. owned_key uid k"
    "\<forall>j. b' j \<noteq> b1 j \<longrightarrow> (\<exists>k \<in> set new. j = k \<or> j = thumb_key k)"
    by (auto simp: strip_step_def)
  have "\<forall>j. b' j \<noteq> b j \<longrightarrow> (\<exists>i \<in> set (k # new). j = i \<or> j = thumb_key i)"
    using n(7) assms(4) by (metis list.set_intros)
  with n assms show ?thesis unfolding strip_step_def by (intro exI [of _ "k # new"] exI [of _ refs]) auto
qed

lemma store_refused_bucket:
  assumes "store_upload pl s3 u cfg uid part b = (r, b1)" "\<And>k. r \<noteq> Inr (Accepted k)"
  shows "b1 = b"
  using store_upload_untouched [of pl s3 u cfg uid part b b1 r] assms by auto

lemma attach_parts_step:
  assumes "0 < uid" "\<forall>n. uuid_hex (uuids n)"
  shows "attach_parts pl s3 uuids cfg uid n parts st b = (Inr st', b') \<Longrightarrow> strip_step uid (length parts) st b st' b'"
proof (induction parts arbitrary: n st b)
  case Nil
  then show ?case by (simp add: strip_step_refl)
next
  case (Cons part parts)
  note IH = Cons.IH and run = Cons.prems
  show ?case
  proof (cases "us_free st = 0")
    case True
    with run show ?thesis
      using IH by (auto simp: refuse_part_def intro: strip_step_refusal)
  next
    case False
    obtain r b1 where r: "store_upload pl s3 (uuids n) cfg uid part b = (r, b1)" by force
    show ?thesis
    proof (cases "\<exists>k. r = Inr (Accepted k)")
      case True
      then obtain k where k: "r = Inr (Accepted k)" by blast
      from accepted_upload_is_owned_step [OF r [unfolded k] assms(1)] assms(2)
      have own: "owned_key uid k" "\<forall>j. b1 j \<noteq> b j \<longrightarrow> j = k \<or> j = thumb_key k" by (auto simp: owned_key_def)
      from run r k False have
        "attach_parts pl s3 uuids cfg uid (Suc n) parts
           (st\<lparr>us_keys := us_keys st @ [k], us_free := us_free st - 1, us_attached := True\<rparr>) b1 = (Inr st', b')" by simp
      from strip_step_accept [OF IH [OF this] False own] show ?thesis by simp
    next
      case other: False
      then have b1: "b1 = b" using store_refused_bucket [OF r] by blast
      from run r False other have "\<exists>x. attach_parts pl s3 uuids cfg uid (Suc n) parts
          (st\<lparr>us_refusals := us_refusals st @ [x]\<rparr>) b1 = (Inr st', b')"
        by (cases r rule: sum.exhaust)
           (auto simp: refuse_part_def split: exn.splits store_result.splits)
      then obtain x where "attach_parts pl s3 uuids cfg uid (Suc n) parts
          (st\<lparr>us_refusals := us_refusals st @ [x]\<rparr>) b1 = (Inr st', b')" by blast
      from strip_step_refusal [OF IH [OF this]] b1 show ?thesis by simp
    qed
  qed
qed

section \<open>Attachments that come back\<close>

lemma strip_Nil: "strip s = [] \<longleftrightarrow> list_all is_space s"
proof
  assume "strip s = []"
  then have "\<forall>c \<in> set (dropWhile is_space s). is_space c" by (simp add: strip_def dropWhile_eq_Nil_conv)
  then have "dropWhile is_space s = []" using hd_dropWhile [of is_space s] by force
  then show "list_all is_space s" by (simp add: dropWhile_eq_Nil_conv list_all_iff)
qed (auto simp: strip_def dropWhile_eq_Nil_conv list_all_iff dest: set_dropWhileD)

lemma owned_not_blank: "owned_key uid k \<Longrightarrow> strip k \<noteq> []"
proof
  assume k: "owned_key uid k" and "strip k = []"
  then have spaces: "\<forall>c \<in> set k. is_space c" by (simp add: strip_Nil list_all_iff)
  from k have d: "before (CHR ''/'') k \<noteq> []" "list_all is_digit (before (CHR ''/'') k)"
    by (auto simp: owned_key_def image_key_match_def Let_def split: if_splits)
  then obtain c where "c \<in> set (before (CHR ''/'') k)" "is_digit c" by (cases "before (CHR ''/'') k") auto
  moreover have "set (before (CHR ''/'') k) \<subseteq> set k" by (auto simp: before_def dest: set_takeWhileD)
  ultimately show False using spaces digit_not_space by blast
qed

lemma own_image_keys_owned:
  "own_image_keys vs uid m = Inr ks \<longleftrightarrow> ks = vs \<and> length vs \<le> m \<and> (\<forall>v \<in> set vs. owned_key uid v)"
  by (simp add: own_image_keys_Inr owned_key_def)

text \<open>The hidden fields that carry the keys of a strip.\<close>

definition image_fields :: "string list \<Rightarrow> form" where
  "image_fields ks = map (\<lambda>k. (''images'', FText k)) ks"

lemma getlist_image_fields:
  "getlist f (image_fields ks) = (if f = ''images'' then map FText ks else [])"
  by (auto simp: getlist_def image_fields_def filter_map comp_def)

lemma texts_map [simp]: "texts (map FText ks) = ks"
  by (induction ks) auto

lemma editor_images_fields:
  assumes "\<forall>k \<in> set ks. owned_key uid k" "length ks \<le> max_images_per_ad cfg"
  shows "editor_images cfg uid (image_fields ks) = Inr (ks, [])"
proof -
  have "filter (\<lambda>v. strip v \<noteq> []) ks = ks" using assms(1) by (auto simp: filter_id_conv dest: owned_not_blank)
  with assms own_image_keys_owned [of ks uid "max_images_per_ad cfg" ks] show ?thesis
    by (simp add: editor_images_def getlist_image_fields)
qed

lemma partition_owned: "\<forall>k \<in> set (fst (partition_own_image_keys vs uid)). owned_key uid k"
  by (simp add: partition_own_image_keys_def owned_key_def)

lemma fold_refuse:
  "us_keys (fold (\<lambda>p. refuse_part p why) parts st) = us_keys st \<and>
   length (us_refusals (fold (\<lambda>p. refuse_part p why) parts st)) = length (us_refusals st) + length parts \<and>
   us_attached (fold (\<lambda>p. refuse_part p why) parts st) = us_attached st"
  by (induction parts arbitrary: st) (auto simp: refuse_part_def)

text \<open>The keys of the user that a request carries, and its uploaded parts.\<close>

definition sent_keys :: "int \<Rightarrow> form \<Rightarrow> string list" where
  "sent_keys uid form =
     fst (partition_own_image_keys (filter (\<lambda>v. strip v \<noteq> []) (texts (getlist ''images'' form))) uid)"

definition sent_parts :: "form \<Rightarrow> upload_part list" where
  "sent_parts form = files (getlist ''files'' form)"

text \<open>
  what the upload screen shows after an upload can be saved. Every key on the strip is the
  user's own, a file is either attached or refused with a reason, the strip never grows past the
  limit of an advertisement, nothing but the attached files is written, and the next save of the
  editor stores exactly the keys of the strip, in its order.
\<close>

theorem uploaded_attachments_are_saved:
  assumes "upload_outcome pl s3 uuids cfg uid form b = (Inr st, b')" "0 < uid" "\<forall>n. uuid_hex (uuids n)"
  shows "(\<exists>new. us_keys st = sent_keys uid form @ new \<and> (us_attached st \<longleftrightarrow> new \<noteq> []) \<and>
      length (sent_parts form) \<le> length new + length (us_refusals st) \<and>
      (\<forall>j. b' j \<noteq> b j \<longrightarrow> (\<exists>k \<in> set new. j = k \<or> j = thumb_key k))) \<and>
    (\<forall>k \<in> set (us_keys st). owned_key uid k) \<and>
    length (us_keys st) \<le> max (max_images_per_ad cfg) (length (sent_keys uid form)) \<and>
    (length (sent_keys uid form) \<le> max_images_per_ad cfg \<longrightarrow>
       editor_images cfg uid (image_fields (us_keys st)) = Inr (us_keys st, []))"
proof -
  let ?raw = "getlist ''images'' form"
  let ?p = "partition_own_image_keys (filter (\<lambda>v. strip v \<noteq> []) (texts ?raw)) uid"
  have own: "\<forall>k \<in> set (sent_keys uid form). owned_key uid k" unfolding sent_keys_def by (rule partition_owned)
  have run: "\<exists>new. us_keys st = sent_keys uid form @ new \<and> (us_attached st \<longleftrightarrow> new \<noteq> []) \<and>
      length (sent_parts form) \<le> length new + length (us_refusals st) \<and> (\<forall>k \<in> set new. owned_key uid k) \<and>
      length new \<le> max_images_per_ad cfg - length (sent_keys uid form) \<and>
      (\<forall>j. b' j \<noteq> b j \<longrightarrow> (\<exists>k \<in> set new. j = k \<or> j = thumb_key k))"
  proof (cases "snd ?p \<noteq> [] \<or> length (texts ?raw) \<noteq> length ?raw")
    case True
    with assms(1) have st: "st = fold (\<lambda>p. refuse_part p INACCESSIBLE_IMAGE) (sent_parts form)
        \<lparr>us_free = max_images_per_ad cfg - length (sent_keys uid form), us_keys = sent_keys uid form, us_refusals = [('''', INACCESSIBLE_IMAGE)],
         us_attached = False\<rparr>" "b' = b"
      by (auto simp: upload_outcome_def Let_def sent_keys_def sent_parts_def split: prod.splits)
    show ?thesis unfolding st by (intro exI [of _ "[]"]) (simp add: fold_refuse)
  next
    case False
    with assms(1) have "attach_parts pl s3 uuids cfg uid 0 (sent_parts form)
        \<lparr>us_free = max_images_per_ad cfg - length (sent_keys uid form), us_keys = sent_keys uid form, us_refusals = [], us_attached = False\<rparr> b = (Inr st, b')"
      by (auto simp: upload_outcome_def Let_def sent_keys_def sent_parts_def split: prod.splits)
    from attach_parts_step [OF assms(2,3) this] show ?thesis by (force simp: strip_step_def)
  qed
  then obtain new where new: "us_keys st = sent_keys uid form @ new" "us_attached st \<longleftrightarrow> new \<noteq> []"
    "length (sent_parts form) \<le> length new + length (us_refusals st)" "\<forall>k \<in> set new. owned_key uid k"
    "length new \<le> max_images_per_ad cfg - length (sent_keys uid form)" "\<forall>j. b' j \<noteq> b j \<longrightarrow> (\<exists>k \<in> set new. j = k \<or> j = thumb_key k)"
    by blast
  have all: "\<forall>k \<in> set (us_keys st). owned_key uid k" using new own by auto
  have save: "editor_images cfg uid (image_fields (us_keys st)) = Inr (us_keys st, [])" if "length (sent_keys uid form) \<le> max_images_per_ad cfg"
    using editor_images_fields [OF all, of cfg] new(1,5) that by simp
  have len: "length (us_keys st) \<le> max (max_images_per_ad cfg) (length (sent_keys uid form))" using new(1,5) by auto
  show ?thesis using new all save len by blast
qed

definition upload_form :: form where
  "upload_form = [(''files'', FFile sample_part), (''images'', FText sample_key), (''files'', FFile sample_part)]"

lemma uploaded_attachments_are_saved_witness:
  "\<exists>st. fst (upload_outcome (toy_pillow (3000, 1000) JPEG) (\<lambda>_. None) (\<lambda>_. sample_uuid) sample_upload_settings 7
          upload_form Map.empty) = Inr st \<and> length (us_keys st) \<le> 2 \<and>
       editor_images sample_upload_settings 7 (image_fields (us_keys st)) = Inr (us_keys st, [])"
proof -
  let ?store = "store_upload (toy_pillow (3000, 1000) JPEG) (\<lambda>_. None) sample_uuid sample_upload_settings 7 sample_part Map.empty"
  let ?run = "upload_outcome (toy_pillow (3000, 1000) JPEG) (\<lambda>_. None) (\<lambda>_. sample_uuid) sample_upload_settings 7
          upload_form Map.empty"
  obtain b where store: "?store = (Inr (Accepted sample_key), b)" using sample_store by (metis prod.collapse)
  from accepted_upload_is_owned_step [OF store _ sample_uuid_hex] have own: "image_key_match sample_key = Some (int_str 7)"
    by simp
  have blank: "strip sample_key \<noteq> []" using owned_not_blank [of 7 sample_key] own by (simp add: owned_key_def)
  have keys: "sent_keys 7 upload_form = [sample_key]"
    using own blank by (simp add: sent_keys_def upload_form_def getlist_def partition_own_image_keys_def)
  have "\<exists>st b'. ?run = (Inr st, b')"
    using own blank store
    by (simp add: upload_outcome_def upload_form_def getlist_def partition_own_image_keys_def sample_upload_settings_def
        refuse_part_def)
  then obtain st b' where run: "?run = (Inr st, b')" by blast
  have max: "max_images_per_ad sample_upload_settings = 2" by (simp add: sample_upload_settings_def)
  from uploaded_attachments_are_saved [OF run] sample_uuid_hex keys max run show ?thesis by auto
qed

section \<open>What a save does\<close>

lemma editor_images_Inr:
  assumes "editor_images cfg uid form = Inr (images, resurrected)"
  shows "length images \<le> max_images_per_ad cfg \<and>
    (\<forall>k \<in> set images. owned_key uid k \<and> k \<in> set (texts (getlist ''images'' form)) \<and>
                     k \<notin> set (texts (getlist ''removed_images'' form)))"
proof -
  from assms have "length images \<le> max_images_per_ad cfg" "\<forall>k \<in> set images. owned_key uid k"
    "images = filter (\<lambda>v. v \<notin> set (filter (\<lambda>v. strip v \<noteq> []) (texts (getlist ''removed_images'' form))))
       (filter (\<lambda>v. strip v \<noteq> []) (texts (getlist ''images'' form)))"
    by (auto simp: editor_images_def Let_def result_simps own_image_keys_owned split: if_splits)
  then show ?thesis by auto
qed

lemma editor_images_Inl: "editor_images cfg uid form = Inl e \<Longrightarrow> e = HTTPException 400"
  by (auto simp: editor_images_def Let_def result_simps dest: own_image_keys_Inl split: if_splits)

text \<open>The status a save leaves: published by the button, the sent word when it is one, else as it was.\<close>

definition saved_status :: "form \<Rightarrow> string option \<Rightarrow> string \<Rightarrow> string" where
  "saved_status form status old =
     (if form_get ''save'' form \<noteq> None then AD_STATUS_PUBLISHED
      else case status of Some s \<Rightarrow> if s \<in> AD_STATUSES then s else old | None \<Rightarrow> old)"

lemma save_split:
  "save_from_editor cfg now rq uid a title text status form d =
     (case editor_images cfg uid form of
        Inl e \<Rightarrow> (attachment_refusal rq a e, d)
      | Inr (images, resurrected) \<Rightarrow>
          if \<not> title_fits title \<or> \<not> text_fits text then (Inl DataError, d)
          else
            (let removed = (case form_get ''remove_image'' form of
                              Some (FText r) \<Rightarrow> if r \<noteq> [] \<and> r \<in> set images then Some r else None
                            | _ \<Rightarrow> None);
                 kept = (case removed of None \<Rightarrow> images | Some r \<Rightarrow> remove1 r images);
                 saved = (case a of
                            None \<Rightarrow> \<lparr>ad_id = next_id ad_id (db_ads d), ad_user_id = uid, ad_title = title, ad_text = text,
                                    ad_images = Some kept, ad_status = saved_status form status AD_STATUS_DRAFT,
                                    ad_created_at = now\<rparr>
                          | Some x \<Rightarrow> x\<lparr>ad_title := title, ad_text := text, ad_images := Some kept,
                                       ad_status := saved_status form status (ad_status x)\<rparr>)
             in (Inr (if form_get ''save'' form \<noteq> None then ''/ads'' else edit_location (ad_id saved),
                      \<lparr>av_ad = Some saved, av_error = False,
                       av_media_gone = resurrected @ (case removed of None \<Rightarrow> [] | Some r \<Rightarrow> [r]),
                       av_tombstone = removed,
                       av_push_url = (if a = None then Some (edit_location (ad_id saved)) else None)\<rparr>),
                 case a of
                   None \<Rightarrow> d\<lparr>db_ads := db_ads d @ [saved]\<rparr>
                 | Some x \<Rightarrow> d\<lparr>db_ads := update_where (\<lambda>y. ad_id y = ad_id x) (\<lambda>_. saved) (db_ads d)\<rparr>)))"
  unfolding save_from_editor_def saved_status_def Let_def
  by (cases "editor_images cfg uid form") (auto split: prod.splits)

text \<open>The state of the other tables, and of the other advertisements, is not the editor's to change.\<close>

definition only_this_ad :: "int \<Rightarrow> db \<Rightarrow> db \<Rightarrow> bool" where
  "only_this_ad i d d' \<longleftrightarrow>
     d' = d\<lparr>db_ads := db_ads d'\<rparr> \<and> filter (\<lambda>y. ad_id y \<noteq> i) (db_ads d') = filter (\<lambda>y. ad_id y \<noteq> i) (db_ads d)"

lemma only_update: "(\<And>y. P y \<Longrightarrow> ad_id (f y) = ad_id y) \<Longrightarrow> (\<And>y. P y \<longleftrightarrow> ad_id y = i) \<Longrightarrow>
    only_this_ad i d (d\<lparr>db_ads := update_where P f (db_ads d)\<rparr>)"
proof -
  assume f: "\<And>y. P y \<Longrightarrow> ad_id (f y) = ad_id y" and P: "\<And>y. P y \<longleftrightarrow> ad_id y = i"
  have "filter (\<lambda>y. ad_id y \<noteq> i) (update_where P f rows) = filter (\<lambda>y. ad_id y \<noteq> i) rows" for rows
    by (induction rows) (use f P in auto)
  then show ?thesis by (simp add: only_this_ad_def)
qed

lemma only_append: "ad_id x = i \<Longrightarrow> only_this_ad i d (d\<lparr>db_ads := db_ads d @ [x]\<rparr>)"
  by (simp add: only_this_ad_def)

lemma remove1_owned: "\<forall>k \<in> set ks. P k \<Longrightarrow> \<forall>k \<in> set (remove1 r ks). P k"
  by (meson notin_set_remove1)

text \<open>
  C22: a save of the editor stores all or nothing. When it refuses or fails, the database is as it
  was. Otherwise it wrote one advertisement, the opened one or a new one of this user, with the sent
  title and text and with attachments that are all the user's own, all from the request, none of
  them marked as removed and no more than the limit; an advertisement is published by the button or
  by a sent status only, and a new one without them is a draft.
\<close>

theorem editor_save_sound:
  assumes "save_from_editor cfg now rq uid a title text status form d = (r, d')"
    and "a \<noteq> None \<Longrightarrow> the a \<in> set (db_ads d)"
  shows "case r of
      Inl e \<Rightarrow> d' = d \<and> e \<in> {HTTPException 400, DataError}
    | Inr (loc, v) \<Rightarrow>
        if av_error v then d' = d \<and> is_htmx rq
        else (\<exists>x images. av_ad v = Some x \<and> x \<in> set (db_ads d') \<and>
          ad_title x = title \<and> ad_text x = text \<and> ad_images x = Some images \<and>
          length images \<le> max_images_per_ad cfg \<and>
          (\<forall>k \<in> set images. owned_key uid k \<and> k \<in> set (texts (getlist ''images'' form)) \<and>
                           k \<notin> set (texts (getlist ''removed_images'' form))) \<and>
          (case a of None \<Rightarrow> ad_user_id x = uid \<and> ad_id x \<notin> ad_id ` set (db_ads d) \<and>
                            ad_status x = saved_status form status AD_STATUS_DRAFT
                   | Some y \<Rightarrow> ad_user_id x = ad_user_id y \<and> ad_id x = ad_id y \<and>
                              ad_status x = saved_status form status (ad_status y)) \<and>
          only_this_ad (ad_id x) d d')"
proof (cases "editor_images cfg uid form")
  case (Inl e)
  with assms show ?thesis
    using editor_images_Inl [OF Inl]
    by (auto simp: save_split attachment_refusal_def error_view_def split: if_splits)
next
  case (Inr ir)
  obtain images resurrected where ir: "ir = (images, resurrected)" by force
  note ok = editor_images_Inr [OF Inr [unfolded ir]]
  show ?thesis
  proof (cases "\<not> title_fits title \<or> \<not> text_fits text")
    case True
    with assms Inr ir show ?thesis by (auto simp: save_split)
  next
    case False
    define removed where "removed = (case form_get ''remove_image'' form of
                              Some (FText r) \<Rightarrow> if r \<noteq> [] \<and> r \<in> set images then Some r else None
                            | _ \<Rightarrow> None)"
    define kept where "kept = (case removed of None \<Rightarrow> images | Some r \<Rightarrow> remove1 r images)"
    have kept: "length kept \<le> max_images_per_ad cfg"
      "\<forall>k \<in> set kept. owned_key uid k \<and> k \<in> set (texts (getlist ''images'' form)) \<and>
         k \<notin> set (texts (getlist ''removed_images'' form))"
      using ok remove1_owned [of images] by (auto simp: kept_def length_remove1 split: option.splits dest: notin_set_remove1)
    show ?thesis
    proof (cases a)
      case None
      with assms Inr ir False kept show ?thesis
        by (auto simp: save_split Let_def next_id_notin simp flip: removed_def kept_def intro!: only_append)
    next
      case (Some y)
      with assms Inr ir False kept show ?thesis
        by (auto simp: save_split Let_def simp flip: removed_def kept_def intro!: only_update
            simp: set_update_where)
    qed
  qed
qed

definition editor_request :: http_request where
  "editor_request = cookie_request\<lparr>rq_headers := [''hx-request'' \<mapsto> ''true'']\<rparr>"

lemma editor_save_sound_witness:
  "\<exists>v x. save_from_editor sample_upload_settings 5 editor_request 1 None ''sale'' ''text'' None [] sample_db =
       (Inr (edit_location 1, v), sample_db\<lparr>db_ads := [x]\<rparr>) \<and> av_ad v = Some x \<and> ad_status x = AD_STATUS_DRAFT"
proof -
  have images: "editor_images sample_upload_settings 1 [] = Inr ([], [])"
    by (simp add: editor_images_def getlist_def own_image_keys_def partition_own_image_keys_def)
  have fits: "title_fits ''sale''" "text_fits ''text''" by (simp_all add: title_fits_def text_fits_def)
  obtain v x where run: "save_from_editor sample_upload_settings 5 editor_request 1 None ''sale'' ''text'' None [] sample_db =
       (Inr (edit_location 1, v), sample_db\<lparr>db_ads := [x]\<rparr>)" "av_ad v = Some x" "\<not> av_error v"
    by (simp add: save_split images fits form_get_def getlist_def sample_db_def empty_db_def next_id_def Let_def)
  from editor_save_sound [OF run(1)] run show ?thesis by (auto simp: saved_status_def form_get_def getlist_def)
qed

section \<open>One draft\<close>

lemma page_request_frame:
  assumes "db_users d' = db_users d" "db_subscriptions d' = db_subscriptions d"
  shows "page_request en now rq d' = page_request en now rq d"
proof -
  have "get_user_from_cookie lib cfg now rq d' = get_user_from_cookie lib cfg now rq d" for lib cfg
    by (simp only: get_user_from_cookie_def assms)
  moreover have "active_rows i d' = active_rows i d" for i by (simp add: active_rows_def assms(2))
  ultimately show ?thesis by (simp add: page_request_def require_access_def cong: option.case_cong)
qed

lemma only_this_ad_tables:
  "only_this_ad i d d' \<Longrightarrow> db_users d' = db_users d \<and> db_subscriptions d' = db_subscriptions d \<and> db_schedules d' = db_schedules d"
proof -
  assume "only_this_ad i d d'"
  then have "d' = d\<lparr>db_ads := db_ads d'\<rparr>" by (simp add: only_this_ad_def)
  then have "db_users d' = db_users (d\<lparr>db_ads := db_ads d'\<rparr>)" "db_subscriptions d' = db_subscriptions (d\<lparr>db_ads := db_ads d'\<rparr>)"
    "db_schedules d' = db_schedules (d\<lparr>db_ads := db_ads d'\<rparr>)" by (rule arg_cong)+
  then show ?thesis by simp
qed

lemma answer_save_db: "snd (answer_save oob render rq r) = snd r"
  by (cases r) (auto simp: answer_save_def split: sum.splits prod.splits)

definition blank_field :: "string option \<Rightarrow> bool" where
  "blank_field f \<longleftrightarrow> (case f of None \<Rightarrow> True | Some s \<Rightarrow> strip s = [])"

lemma ads_create_blank:
  "page_request en now rq d = Inr (Some u) \<Longrightarrow> blank_field f \<Longrightarrow>
     snd (ads_create en oob render cfg now rq title text f form d) =
     snd (save_from_editor cfg now rq (user_id u) None title text None form d)"
  by (auto simp: ads_create_def blank_field_def answer_save_db Let_def split: option.splits)

lemma save_new_row:
  assumes "snd (save_from_editor cfg now rq uid None title text None form d) \<noteq> d"
  obtains x where "snd (save_from_editor cfg now rq uid None title text None form d) = d\<lparr>db_ads := db_ads d @ [x]\<rparr>"
    "ad_id x = next_id ad_id (db_ads d)" "ad_user_id x = uid" "ad_status x = saved_status form None AD_STATUS_DRAFT"
  using assms by (force simp: save_split Let_def split: sum.splits prod.splits if_splits)

lemma save_old_row:
  obtains g where
    "snd (save_from_editor cfg now rq uid (Some x) title text None form d) =
       d\<lparr>db_ads := update_where (\<lambda>y. ad_id y = ad_id x) g (db_ads d)\<rparr>"
    "ad_id (g x) = ad_id x" "ad_user_id (g x) = ad_user_id x"
    "ad_status (g x) = ad_status x \<or> form_get ''save'' form \<noteq> None"
proof (cases "\<exists>images r. editor_images cfg uid form = Inr (images, r) \<and> title_fits title \<and> text_fits text")
  case False
  then have "snd (save_from_editor cfg now rq uid (Some x) title text None form d) = d"
    by (auto simp: save_split split: sum.splits)
  moreover have "update_where (\<lambda>y. ad_id y = ad_id x) (\<lambda>y. y) (db_ads d) = db_ads d"
    by (auto simp: update_where_def intro: map_idI)
  ultimately show ?thesis by (intro that [of "\<lambda>y. y"]) simp_all
next
  case True
  then obtain images res where im: "editor_images cfg uid form = Inr (images, res)" "title_fits title" "text_fits text" by blast
  then have "\<exists>kept. snd (save_from_editor cfg now rq uid (Some x) title text None form d) =
      d\<lparr>db_ads := update_where (\<lambda>y. ad_id y = ad_id x)
         (\<lambda>_. x\<lparr>ad_title := title, ad_text := text, ad_images := Some kept,
              ad_status := saved_status form None (ad_status x)\<rparr>) (db_ads d)\<rparr>"
    by (simp add: save_split Let_def) blast
  then obtain kept where kept: "snd (save_from_editor cfg now rq uid (Some x) title text None form d) =
      d\<lparr>db_ads := update_where (\<lambda>y. ad_id y = ad_id x)
         (\<lambda>_. x\<lparr>ad_title := title, ad_text := text, ad_images := Some kept,
              ad_status := saved_status form None (ad_status x)\<rparr>) (db_ads d)\<rparr>" by blast
  from that [OF kept] show ?thesis by (simp add: saved_status_def)
qed

lemma strip_nat_str: "strip (nat_str n) = nat_str n"
  by (rule strip_no_space) (auto dest: nat_str_digits digit_not_space)

lemma update_appended_ad:
  "ad_id x = next_id ad_id rows \<Longrightarrow>
     update_where (\<lambda>y. ad_id y = ad_id x) f (rows @ [x]) = rows @ [f x]"
proof -
  assume x: "ad_id x = next_id ad_id rows"
  have "ad_id r \<noteq> ad_id x" if "r \<in> set rows" for r using next_id_fresh [OF that, of ad_id] x by simp
  then have "update_where (\<lambda>y. ad_id y = ad_id x) f rows = rows" by (rule update_where_idle)
  then show ?thesis by (simp add: update_where_def)
qed

text \<open>
  a sequence of autosaves keeps one draft. The first save of a new advertisement makes one row;
  the next save from the same page, which carries the identifier the first one gave it, makes no
  second one but writes that row, which stays the user's and stays a draft until the button is used.
\<close>

theorem autosave_keeps_one_draft:
  assumes "page_request en now rq d = Inr (Some u)" "page_request en later rq' d = Inr (Some u)" "blank_field f"
    and "snd (ads_create en oob render cfg now rq t1 x1 f form1 d) = d1" "d1 \<noteq> d"
    and "next_id ad_id (db_ads d) \<le> ID_MAX"
  shows "let i = next_id ad_id (db_ads d);
           d2 = snd (ads_create en oob render cfg later rq' t2 x2 (Some (int_str i)) form2 d1)
       in map ad_id (db_ads d1) = map ad_id (db_ads d) @ [i] \<and> map ad_id (db_ads d2) = map ad_id (db_ads d1) \<and>
          (\<exists>x. find_row ad_id i (db_ads d2) = Some x \<and> ad_user_id x = user_id u \<and>
             (form_get ''save'' form1 = None \<longrightarrow> form_get ''save'' form2 = None \<longrightarrow> ad_status x = AD_STATUS_DRAFT))"
proof -
  let ?i = "next_id ad_id (db_ads d)"
  let ?d2 = "snd (ads_create en oob render cfg later rq' t2 x2 (Some (int_str ?i)) form2 d1)"
  have first: "d1 = snd (save_from_editor cfg now rq (user_id u) None t1 x1 None form1 d)"
    using assms(4) ads_create_blank [OF assms(1,3)] by simp
  with assms(5) obtain x where x: "d1 = d\<lparr>db_ads := db_ads d @ [x]\<rparr>" "ad_id x = ?i" "ad_user_id x = user_id u"
    "ad_status x = saved_status form1 None AD_STATUS_DRAFT"
    using save_new_row [of cfg now rq "user_id u" t1 x1 form1 d] by metis
  have i: "int_str ?i = nat_str (nat ?i)" "0 < ?i" using next_id_pos [of ad_id "db_ads d"] by (simp_all add: int_str_def)
  then have id: "py_int (int_str ?i) = Some ?i" "strip (int_str ?i) \<noteq> []" by (simp_all add: py_int_nat_str strip_nat_str)
  have user: "page_request en later rq' d1 = Inr (Some u)" using assms(2) page_request_frame [of d1 d] x(1) by simp
  have found: "select_own_ad ?i (user_id u) d1 = Inr (Some x)"
    using i(2) assms(6) x by (simp add: select_own_ad_def c_int_def INT_MAX_def ID_MAX_def find_row_append find_row_next_id)
  obtain g where g: "snd (save_from_editor cfg later rq' (user_id u) (Some x) t2 x2 None form2 d1) =
        d1\<lparr>db_ads := update_where (\<lambda>y. ad_id y = ad_id x) g (db_ads d1)\<rparr>"
    "ad_id (g x) = ad_id x" "ad_user_id (g x) = ad_user_id x"
    "ad_status (g x) = ad_status x \<or> form_get ''save'' form2 \<noteq> None"
    by (rule save_old_row [of cfg later rq' "user_id u" x t2 x2 form2 d1])
  have "?d2 = snd (save_from_editor cfg later rq' (user_id u) (Some x) t2 x2 None form2 d1)"
    by (simp add: ads_create_def user id found answer_save_db Let_def)
  with g(1) x(1) update_appended_ad [OF x(2)] have d2: "db_ads ?d2 = db_ads d @ [g x]" by simp
  have draft: "form_get ''save'' form1 = None \<longrightarrow> form_get ''save'' form2 = None \<longrightarrow> ad_status (g x) = AD_STATUS_DRAFT"
    using g(4) x(4) by (auto simp: saved_status_def)
  show ?thesis
    using d2 g x draft by (simp add: Let_def find_row_append find_row_next_id)
qed

lemma sample_page_request:
  assumes "db_users d = [sample_user]" "db_subscriptions d = [sample_subscription]" "rq_session_cookie rq = Some ''s''"
  shows "page_request (sample_env (two_tokens None)) 5 rq d = Inr (Some sample_user)"
proof -
  obtain p where p: "decode_access_token (two_tokens None) 5 ''s'' (as_secret_key sample_auth) = Inr (Some p)"
    "subject p = Inr 1" "actor_id (Some p) = None"
    using two_tokens_cookie by blast
  then have "p \<noteq> []" by (auto simp: subject_def dict_get_def)
  with p assms have user: "get_user_from_cookie (two_tokens None) sample_auth 5 rq d =
      Inr (Some \<lparr>pu_user = sample_user, pu_actor = None\<rparr>)"
    by (simp add: get_user_from_cookie_def sample_user_def)
  show ?thesis
    by (simp add: page_request_def require_access_def user assms(2) active_rows_def sample_subscription_def sample_user_def
        access_is_open_def)
qed

lemma autosave_keeps_one_draft_witness:
  "\<exists>d1. snd (ads_create (sample_env (two_tokens None)) (\<lambda>_. []) (\<lambda>_ _. Inl ValueError) sample_upload_settings 5 cookie_request
           ''sale'' ''text'' None [] sample_db) = d1 \<and> d1 \<noteq> sample_db \<and>
     map ad_id (db_ads (snd (ads_create (sample_env (two_tokens None)) (\<lambda>_. []) (\<lambda>_ _. Inl ValueError)
       sample_upload_settings 5 cookie_request ''sale!'' ''text'' (Some (int_str 1)) [] d1))) = [1]"
proof -
  let ?en = "sample_env (two_tokens None)"
  let ?oob = "(\<lambda>_. []) :: string \<Rightarrow> string"
  let ?render = "(\<lambda>_ _. Inl ValueError) :: editor_render"
  let ?d1 = "snd (ads_create ?en ?oob ?render sample_upload_settings 5 cookie_request ''sale'' ''text'' None [] sample_db)"
  have user: "page_request ?en 5 cookie_request sample_db = Inr (Some sample_user)"
    by (rule sample_page_request) (simp_all add: sample_db_def)
  have images: "editor_images sample_upload_settings uid [] = Inr ([], [])" for uid
    by (simp add: editor_images_def getlist_def own_image_keys_def partition_own_image_keys_def)
  have blank: "blank_field None" by (simp add: blank_field_def)
  have ids: "next_id ad_id (db_ads sample_db) = 1" "db_ads sample_db = []" by (simp_all add: sample_db_def empty_db_def next_id_def)
  have "\<exists>x. ?d1 = sample_db\<lparr>db_ads := [x]\<rparr>"
    using ads_create_blank [OF user blank, of ?oob ?render sample_upload_settings "''sale''" "''text''" "[]"] ids
    by (simp add: save_split images title_fits_def text_fits_def Let_def form_get_def getlist_def) blast
  then obtain x where "?d1 = sample_db\<lparr>db_ads := [x]\<rparr>" ..
  then have new: "?d1 \<noteq> sample_db" using ids(2) by (metis ad.select_convs(1) db.select_convs(2) db.surjective db.update_convs(2) list.distinct(1))
  from autosave_keeps_one_draft [OF user user blank refl new] new ids show ?thesis
    by (simp add: Let_def ID_MAX_def)
qed

section \<open>Identifiers and nulls the handlers let through\<close>

text \<open>
  the identifier field of the creating handler is not held against the column: where the
  updating handler answers a number outside the column like a missing row, the same number in the
  form field of the creating handler fails the query, and nothing is saved.
\<close>

theorem ad_field_outside_column_escapes:
  assumes "page_request en now rq d = Inr (Some u)" "py_int f = Some i" "\<not> c_int i"
  shows "ads_create en oob render cfg now rq title text (Some f) form d = (Inl DataError, d) \<and>
    ads_update en oob render cfg now rq i title text status form d = (respond oob rq ''/ads'' None None, d)"
proof -
  have "strip f \<noteq> []" using assms(2) by (auto simp: py_int_def)
  moreover have "\<not> id_in_column i" using assms(3) by (simp add: id_in_column_def c_int_def INT_MAX_def ID_MAX_def)
  ultimately show ?thesis
    using assms by (simp add: ads_create_def ads_update_def select_own_ad_def)
qed

lemma ad_field_outside_column_escapes_witness:
  "ads_create (sample_env (two_tokens None)) (\<lambda>_. []) (\<lambda>_ _. Inl ValueError) sample_upload_settings 5 cookie_request
     '''' '''' (Some ''9999999999'') [] sample_db = (Inl DataError, sample_db)"
proof -
  have user: "page_request (sample_env (two_tokens None)) 5 cookie_request sample_db = Inr (Some sample_user)"
    by (rule sample_page_request) (simp_all add: sample_db_def)
  have i: "py_int ''9999999999'' = Some 9999999999" "\<not> c_int 9999999999"
    by (simp_all add: py_int_def strip_def is_space_def digit_val_def c_int_def INT_MAX_def)
  from ad_field_outside_column_escapes [OF user i] show ?thesis by simp
qed

lemma find_row_overwrite:
  "find_row key k rows = Some a \<Longrightarrow> key b = k \<Longrightarrow> find_row key k (update_where (\<lambda>y. key y = k) (\<lambda>_. b) rows) = Some b"
  by (induction rows) (auto split: if_splits)

lemma map_res_fails:
  "x \<in> set xs \<Longrightarrow> f x = Inl e \<Longrightarrow> (\<And>y e'. y \<in> set xs \<Longrightarrow> f y = Inl e' \<Longrightarrow> e' = e) \<Longrightarrow> map_res f xs = Inl e"
proof (induction xs)
  case (Cons y ys)
  show ?case
  proof (cases "f y")
    case (Inl e')
    with Cons.prems(3) [of y e'] show ?thesis by simp
  next
    case (Inr z)
    with Cons.prems(1,2) have "x \<in> set ys" by auto
    then have "map_res f ys = Inl e" using Cons.prems(2) by (rule Cons.IH) (use Cons.prems(3) in auto)
    with Inr show ?thesis by simp
  qed
qed simp

text \<open>
  the JSON interface accepts null for the attachments of an advertisement and stores it, though
  it answers with an error; from then on its owner can read neither that advertisement nor the list
  of advertisements there.
\<close>

theorem null_images_break_the_list:
  assumes "select_own_ad i uid d = Inr (Some a)" "title_fits (ad_title a)" "text_fits (ad_text a)"
  shows "case update_ad cfg uid i \<lparr>ua_title = None, ua_text = None, ua_images = Some None, ua_status = None\<rparr> d of
      (r, d') \<Rightarrow> r = Inl ResponseValidationError \<and> select_own_ad i uid d' = Inr (Some (a\<lparr>ad_images := None\<rparr>)) \<and>
        get_ad_json i uid d' = Inl ResponseValidationError \<and> list_ads uid d' = Inl ResponseValidationError"
proof -
  let ?a = "a\<lparr>ad_images := None\<rparr>"
  let ?d = "d\<lparr>db_ads := update_where (\<lambda>y. ad_id y = i) (\<lambda>_. ?a) (db_ads d)\<rparr>"
  have a: "c_int i" "find_row ad_id i (db_ads d) = Some a" "ad_user_id a = uid" "ad_id a = i"
    using assms(1) find_row_Some [of ad_id i "db_ads d" a] by (auto simp: select_own_ad_def split: if_splits option.splits)
  have upd: "updated_ad \<lparr>ua_title = None, ua_text = None, ua_images = Some None, ua_status = None\<rparr> a = ?a"
    by (simp add: updated_ad_def set_ad_field_def)
  have run: "update_ad cfg uid i \<lparr>ua_title = None, ua_text = None, ua_images = Some None, ua_status = None\<rparr> d =
      (Inl ResponseValidationError, ?d)"
    using assms a by (simp add: update_ad_def own_ad_or_404_def upd ad_response_def)
  have row: "find_row ad_id i (db_ads ?d) = Some ?a"
    using find_row_overwrite [OF a(2), of ?a] a(4) by simp
  then have sel: "select_own_ad i uid ?d = Inr (Some ?a)" using a by (simp add: select_own_ad_def)
  have "?a \<in> set (sort_key ad_id (filter (\<lambda>x. ad_user_id x = uid) (db_ads ?d)))"
    using find_row_Some [OF row] a(3) by simp
  then have "list_ads uid ?d = Inl ResponseValidationError"
    unfolding list_ads_def by (rule map_res_fails) (auto simp: ad_response_def split: if_splits)
  with run sel show ?thesis by (simp add: get_ad_json_def own_ad_or_404_def ad_response_def)
qed

lemma null_images_break_the_list_witness:
  "list_ads 1 (snd (update_ad sample_upload_settings 1 1
      \<lparr>ua_title = None, ua_text = None, ua_images = Some None, ua_status = None\<rparr>
      (sample_db\<lparr>db_ads := [sample_ad\<lparr>ad_images := Some []\<rparr>]\<rparr>))) = Inl ResponseValidationError"
proof -
  let ?d = "sample_db\<lparr>db_ads := [sample_ad\<lparr>ad_images := Some []\<rparr>]\<rparr>"
  have row: "select_own_ad 1 1 ?d = Inr (Some (sample_ad\<lparr>ad_images := Some []\<rparr>))"
    by (simp add: select_own_ad_def sample_ad_def c_int_def INT_MAX_def)
  have "title_fits (ad_title (sample_ad\<lparr>ad_images := Some []\<rparr>))" "text_fits (ad_text (sample_ad\<lparr>ad_images := Some []\<rparr>))"
    by (simp_all add: title_fits_def text_fits_def sample_ad_def)
  from null_images_break_the_list [OF row this, of sample_upload_settings] show ?thesis by (auto split: prod.splits)
qed

section \<open>Removal\<close>

lemma delete_ad_split:
  "delete_ad uid i d = (r, d') \<Longrightarrow> d' \<noteq> d \<Longrightarrow> \<exists>a. select_own_ad i uid d = Inr (Some a) \<and> d' = delete_ad_row (ad_id a) d"
  by (cases "select_own_ad i uid d") (auto simp: delete_ad_def own_ad_or_404_def split: option.splits)

lemma ads_delete_split:
  assumes "ads_delete en ul oob now rq i d = (r, d')" "d' \<noteq> d" "page_request en now rq d = Inr (Some u)"
  shows "\<exists>a. select_own_ad i (user_id u) d = Inr (Some a) \<and> d' = delete_ad_row (ad_id a) d"
proof (cases "is_same_origin ul rq")
  case (Inr same)
  with assms show ?thesis
    by (cases same; cases "select_own_ad i (user_id u) d") (auto simp: ads_delete_def split: if_splits option.splits)
qed (use assms in \<open>simp add: ads_delete_def\<close>)

text \<open>
  removing an advertisement, from the page or over the JSON interface, takes it and its
  schedules and nothing else: no schedule is left that could send it, every foreign key still
  points to a row, and an advertisement of somebody else is not removed.
\<close>

theorem removed_ad_is_not_sent:
  assumes "(\<exists>r. ads_delete en ul oob now rq i d = (r, d') \<and> page_request en now rq d = Inr (Some u)) \<or>
      (\<exists>r. delete_ad (user_id u) i d = (r, d'))"
    and "d' \<noteq> d"
  shows "(\<exists>a \<in> set (db_ads d). ad_id a = i \<and> ad_user_id a = user_id u) \<and>
    (\<forall>a. a \<in> set (db_ads d') \<longleftrightarrow> a \<in> set (db_ads d) \<and> ad_id a \<noteq> i) \<and>
    (\<forall>s. s \<in> set (db_schedules d') \<longleftrightarrow> s \<in> set (db_schedules d) \<and> sch_ad_id s \<noteq> i) \<and>
    db_send_logs d' = db_send_logs d \<and> (refs_ok d \<longrightarrow> refs_ok d')"
proof -
  have "\<exists>a. select_own_ad i (user_id u) d = Inr (Some a) \<and> d' = delete_ad_row (ad_id a) d"
    using assms delete_ad_split ads_delete_split by metis
  then obtain a where a: "select_own_ad i (user_id u) d = Inr (Some a)" "d' = delete_ad_row (ad_id a) d" by blast
  then have "a \<in> set (db_ads d)" "ad_id a = i" "ad_user_id a = user_id u"
    using find_row_Some [of ad_id i "db_ads d" a] by (auto simp: select_own_ad_def split: if_splits option.splits)
  moreover from this a have "refs_ok d \<Longrightarrow> refs_ok d'"
    by (force simp: refs_ok_def delete_ad_row_def user_exists_def split: option.splits)
  ultimately show ?thesis using a by (auto simp: delete_ad_row_def)
qed

lemma removed_ad_is_not_sent_witness:
  "let d = sample_db\<lparr>db_ads := [sample_ad]\<rparr> in \<exists>r d'. delete_ad 1 1 d = (r, d') \<and> db_ads d' = [] \<and> refs_ok d'"
proof -
  let ?d = "sample_db\<lparr>db_ads := [sample_ad]\<rparr>"
  have run: "delete_ad (user_id sample_user) 1 ?d = (Inr (), sample_db)"
    by (simp add: delete_ad_def own_ad_or_404_def select_own_ad_def c_int_def INT_MAX_def sample_ad_def sample_user_def
        delete_ad_row_def sample_db_def empty_db_def)
  have "refs_ok ?d"
    by (auto simp: refs_ok_def sample_db_def empty_db_def sample_subscription_def sample_user_def user_exists_def sample_ad_def)
  moreover have "sample_db \<noteq> ?d" by (simp add: sample_db_def empty_db_def)
  ultimately show ?thesis
    using removed_ad_is_not_sent [of "undefined :: sign_env" "undefined :: url_lib" "undefined :: string \<Rightarrow> string" 0 cookie_request 1 ?d sample_db sample_user] run
    by (auto simp: sample_user_def Let_def sample_db_def empty_db_def)
qed

end
