(* ===== verification/Schedule_Editor.thy ===== *)
theory Schedule_Editor
  imports Schedules_Api Ad_Editor
begin

text \<open>
  The schedule handlers of the pages, \<open>app/pages/schedules.py\<close>: creation, the card of the editor,
  the switch and removal. The values of a form are cleaned, not refused, so a handler saves what is
  left of them. A handler answers with an address and, where the transport wants one, a fragment;
  what a fragment is built from is \<open>schedule_fragment\<close>, its rendering is an argument.
\<close>

section \<open>Cleaning the values of a form\<close>

definition RETURN_TO_EDITOR :: string where "RETURN_TO_EDITOR = ''editor''"
definition DEFAULT_TIME :: string where "DEFAULT_TIME = ''09:00''"

definition clean_times :: "form_value list \<Rightarrow> string list" where
  "clean_times values = filter (\<lambda>t. is_valid_time_of_day (PStr t)) (map strip (texts values))"

fun int_of_field :: "form_value option \<Rightarrow> int option" where
  "int_of_field (Some (FText s)) = py_int s"
| "int_of_field _ = None"

definition clean_ints :: "form_value list \<Rightarrow> int option \<Rightarrow> int option \<Rightarrow> int list" where
  "clean_ints values low high =
     filter (\<lambda>n. (case low of None \<Rightarrow> True | Some l \<Rightarrow> l \<le> n) \<and> (case high of None \<Rightarrow> True | Some h \<Rightarrow> n \<le> h))
       (List.map_filter (\<lambda>v. int_of_field (Some v)) values)"

definition expanded_from_form :: "form \<Rightarrow> int option" where
  "expanded_from_form form = int_of_field (form_get ''keep_sched'' form)"

definition ad_id_from_form :: "form \<Rightarrow> int option" where
  "ad_id_from_form form =
     (case int_of_field (form_get ''ad_id'' form) of
        None \<Rightarrow> None | Some n \<Rightarrow> if \<not> id_in_column n then None else Some n)"

definition editor_url :: "bool \<Rightarrow> int option \<Rightarrow> int option \<Rightarrow> string" where
  "editor_url returns_to_editor ad schedule =
     (case ad of
        Some a \<Rightarrow>
          if returns_to_editor
          then edit_location a @ (case schedule of
                                    None \<Rightarrow> []
                                  | Some s \<Rightarrow> ''?sched='' @ int_str s @ ''#sched-'' @ int_str s)
          else ''/schedules''
      | None \<Rightarrow> ''/schedules'')"

definition text_is :: "form_value option \<Rightarrow> string \<Rightarrow> bool" where
  "text_is v s \<longleftrightarrow> v = Some (FText s)"

definition returns_to_editor :: "form \<Rightarrow> bool" where
  "returns_to_editor form = text_is (form_get ''return_to'' form) RETURN_TO_EDITOR"

definition apply_named_actions ::
  "form \<Rightarrow> int list \<Rightarrow> int list \<Rightarrow> string list \<Rightarrow> int list \<Rightarrow> int list \<times> int list \<times> string list" where
  "apply_named_actions form groups days tods available =
     (let days_preset = form_get ''days_preset'' form;
          days' = (if text_is days_preset ''workdays'' then [0, 1, 2, 3, 4]
                   else if text_is days_preset ''everyday'' then [0, 1, 2, 3, 4, 5, 6] else days);
          groups_preset = form_get ''groups_preset'' form;
          groups' = (if text_is groups_preset ''all'' then available
                     else if text_is groups_preset ''none'' then [] else groups);
          kept = (case form_get ''remove_time'' form of
                    Some (FText r) \<Rightarrow> if r \<noteq> [] \<and> r \<in> set tods then remove1 r tods else tods
                  | _ \<Rightarrow> tods)
      in (groups', days', if form_get ''add_time'' form \<noteq> None then kept @ [DEFAULT_TIME] else kept))"

section \<open>Ownership\<close>

datatype verdict = OWNERSHIP_OK | OWNERSHIP_AD_DENIED | OWNERSHIP_ACCOUNT_DENIED

definition ownership_verdict :: "db \<Rightarrow> int \<Rightarrow> int \<Rightarrow> int option \<Rightarrow> bool \<Rightarrow> bool \<Rightarrow> verdict" where
  "ownership_verdict d uid ad account ad_usable account_usable =
     (if \<not> ad_usable then OWNERSHIP_AD_DENIED
      else if \<not> owns_ad d uid ad then OWNERSHIP_AD_DENIED
      else if \<not> account_usable then OWNERSHIP_ACCOUNT_DENIED
      else case account of
             None \<Rightarrow> OWNERSHIP_OK
           | Some a \<Rightarrow> if owns_account d uid a then OWNERSHIP_OK else OWNERSHIP_ACCOUNT_DENIED)"

definition groups_of_account :: "db \<Rightarrow> int \<Rightarrow> int option \<Rightarrow> int list" where
  "groups_of_account d uid account =
     (case account of
        None \<Rightarrow> []
      | Some a \<Rightarrow> map grp_id (filter (\<lambda>g. grp_account_id g = a \<and> grp_user_id g = uid) (db_groups d)))"

text \<open>\<open>id_in_column(account_id, optional=True)\<close>.\<close>

definition optional_id_in_column :: "int option \<Rightarrow> bool" where
  "optional_id_in_column v = (case v of None \<Rightarrow> True | Some n \<Rightarrow> id_in_column n)"

section \<open>What the editor asks of an advertisement's schedules\<close>

definition ad_schedules :: "db \<Rightarrow> int \<Rightarrow> int \<Rightarrow> schedule list" where
  "ad_schedules d uid ad = filter (\<lambda>s. sch_ad_id s = ad \<and> owns_ad d uid ad) (db_schedules d)"

definition ad_has_a_schedule :: "db \<Rightarrow> int \<Rightarrow> int option \<Rightarrow> bool" where
  "ad_has_a_schedule d uid ad = (case ad of None \<Rightarrow> False | Some a \<Rightarrow> ad_schedules d uid a \<noteq> [])"

definition ad_schedule_count :: "db \<Rightarrow> int \<Rightarrow> int option \<Rightarrow> nat" where
  "ad_schedule_count d uid ad = (case ad of None \<Rightarrow> 0 | Some a \<Rightarrow> length (ad_schedules d uid a))"

definition ad_next_run_at :: "db \<Rightarrow> int \<Rightarrow> int option \<Rightarrow> int option" where
  "ad_next_run_at d uid ad =
     (case ad of
        None \<Rightarrow> None
      | Some a \<Rightarrow>
          let moments = List.map_filter sch_next_run_at (ad_schedules d uid a)
          in if moments = [] then None else Some (Min (set moments)))"

datatype schedule_fragment =
    CreatedCard int int
  | EditorCard int int "int option"
  | SummaryRow int
  | DeletedCard int int nat "int option"

type_synonym schedule_render = "db \<Rightarrow> schedule_fragment \<Rightarrow> exn + body_response"

section \<open>The handlers\<close>

text \<open>What is left of the sent groups, days and times, with the named actions applied.\<close>

definition sent_values :: "db \<Rightarrow> int \<Rightarrow> int option \<Rightarrow> form \<Rightarrow> int list \<times> int list \<times> string list" where
  "sent_values d uid account form =
     (let available = groups_of_account d uid account;
          (groups, days, tods) =
            apply_named_actions form (clean_ints (getlist ''group_ids'' form) None None)
              (clean_ints (getlist ''days_of_week'' form) (Some 0) (Some 6))
              (clean_times (getlist ''times_of_day'' form)) available
      in (filter (\<lambda>g. g \<in> set available) groups, days, tods))"

definition sent_timezone :: "form \<Rightarrow> string \<Rightarrow> string" where
  "sent_timezone form fallback =
     (case form_get ''timezone'' form of
        Some (FText tz) \<Rightarrow> if tz \<in> VALID_TIMEZONES then tz else fallback
      | _ \<Rightarrow> fallback)"

text \<open>The row a form makes: none when its values have no next run.\<close>

definition created_row ::
  "tzdb \<Rightarrow> int \<Rightarrow> user \<Rightarrow> int \<Rightarrow> int option \<Rightarrow> form \<Rightarrow> db \<Rightarrow> exn + schedule option" where
  "created_row tzdb now u ad account form d =
     (let (groups, days, tods) = sent_values d (user_id u) account form;
          profile_tz = profile_timezone_or_utc (Some (user_timezone u));
          schedule = \<lparr>sch_id = 0, sch_ad_id = ad, sch_account_id = account, sch_group_ids = ints groups,
            sch_days_of_week = ints days, sch_times_of_day = strs tods,
            sch_timezone = sent_timezone form profile_tz, sch_is_active = False, sch_next_run_at = None,
            sch_created_at = now\<rparr>
      in if is_schedule_complete account (ints groups) (ints days) (strs tods)
         then bind_res (next_run_or_none tzdb schedule now) (\<lambda>next_run.
                Inr (map_option (\<lambda>t. schedule\<lparr>sch_is_active := True, sch_next_run_at := Some t\<rparr>) next_run))
         else Inr (Some schedule))"

definition schedules_create ::
  "sign_env \<Rightarrow> (string \<Rightarrow> string) \<Rightarrow> schedule_render \<Rightarrow> tzdb \<Rightarrow> int \<Rightarrow> http_request \<Rightarrow> int \<Rightarrow> int option \<Rightarrow> form \<Rightarrow>
   db \<Rightarrow> (exn + reply) \<times> db" where
  "schedules_create en oob render tzdb now rq ad account form d =
     (case page_request en now rq d of
        Inl e \<Rightarrow> (Inl e, d)
      | Inr None \<Rightarrow> (respond oob rq ''/login'' None None, d)
      | Inr (Some u) \<Rightarrow>
          (case ownership_verdict d (user_id u) ad account (id_in_column ad) (optional_id_in_column account) of
             OWNERSHIP_AD_DENIED \<Rightarrow> (respond oob rq ''/schedules'' None None, d)
           | OWNERSHIP_ACCOUNT_DENIED \<Rightarrow> (respond oob rq (edit_location ad) (Some ''schedule_account_gone'') None, d)
           | OWNERSHIP_OK \<Rightarrow>
               (case created_row tzdb now u ad account form d of
                  Inl e \<Rightarrow> (Inl e, d)
                | Inr None \<Rightarrow>
                    (respond oob rq (edit_location ad) (Some ''schedule_values_out_of_domain'') None, d)
                | Inr (Some row) \<Rightarrow>
                    (case insert_schedule row d of
                       Inl e \<Rightarrow> (Inl e, d)
                     | Inr (s, d') \<Rightarrow>
                         (if \<not> returns_to_editor form then respond oob rq ''/schedules'' None None
                          else let url = editor_url True (Some ad) (Some (sch_id s))
                               in if ad_schedule_count d' (user_id u) (Some ad) = 1 then respond oob rq url None None
                                  else respond oob rq url None (Some (render d' (CreatedCard (sch_id s) ad))),
                          d')))))"

definition changed_row ::
  "tzdb \<Rightarrow> int \<Rightarrow> user \<Rightarrow> schedule \<Rightarrow> int \<Rightarrow> int option \<Rightarrow> form \<Rightarrow> db \<Rightarrow> exn + schedule option" where
  "changed_row tzdb now u schedule ad account form d =
     (let (groups, days, tods) = sent_values d (user_id u) account form;
          profile_tz = profile_timezone_or_utc (Some (user_timezone u));
          stored_tz = (if sch_timezone schedule \<in> VALID_TIMEZONES then sch_timezone schedule else profile_tz);
          changed = schedule\<lparr>sch_ad_id := ad, sch_account_id := account, sch_group_ids := ints groups,
            sch_days_of_week := ints days, sch_times_of_day := strs tods,
            sch_timezone := sent_timezone form stored_tz\<rparr>
      in if \<not> is_schedule_complete account (ints groups) (ints days) (strs tods)
         then Inr (Some (changed\<lparr>sch_is_active := False, sch_next_run_at := None\<rparr>))
         else if \<not> sch_is_active changed then Inr (Some (changed\<lparr>sch_next_run_at := None\<rparr>))
         else bind_res (next_run_or_none tzdb changed now) (\<lambda>next_run.
                Inr (map_option (\<lambda>t. changed\<lparr>sch_next_run_at := Some t\<rparr>) next_run)))"

definition schedules_update ::
  "sign_env \<Rightarrow> (string \<Rightarrow> string) \<Rightarrow> schedule_render \<Rightarrow> tzdb \<Rightarrow> int \<Rightarrow> http_request \<Rightarrow> int \<Rightarrow> int \<Rightarrow> int option \<Rightarrow> form \<Rightarrow>
   db \<Rightarrow> (exn + reply) \<times> db" where
  "schedules_update en oob render tzdb now rq i ad account form d =
     (case page_request en now rq d of
        Inl e \<Rightarrow> (Inl e, d)
      | Inr None \<Rightarrow> (respond oob rq ''/login'' None None, d)
      | Inr (Some u) \<Rightarrow>
          (case (if id_in_column i then get_for_user i (user_id u) d else None) of
             None \<Rightarrow>
               (if id_in_column ad \<and> owns_ad d (user_id u) ad
                then respond oob rq (edit_location ad) (Some ''schedule_ad_missing'') None
                else respond oob rq ''/schedules'' None None, d)
           | Some schedule \<Rightarrow>
               (case ownership_verdict d (user_id u) ad account (id_in_column ad) (optional_id_in_column account) of
                  OWNERSHIP_AD_DENIED \<Rightarrow> (respond oob rq ''/schedules'' None None, d)
                | OWNERSHIP_ACCOUNT_DENIED \<Rightarrow>
                    (respond oob rq (edit_location ad) (Some ''schedule_account_gone'') None, d)
                | OWNERSHIP_OK \<Rightarrow>
                    (case changed_row tzdb now u schedule ad account form d of
                       Inl e \<Rightarrow> (Inl e, d)
                     | Inr None \<Rightarrow>
                         (respond oob rq (edit_location ad) (Some ''schedule_values_out_of_domain'') None, d)
                     | Inr (Some row) \<Rightarrow>
                         (case save_schedule row d of
                            Inl e \<Rightarrow> (Inl e, d)
                          | Inr (s, d') \<Rightarrow>
                              let url = editor_url (returns_to_editor form) (Some ad) (Some i)
                              in (if \<not> returns_to_editor form then respond oob rq url None None
                                  else respond oob rq url None (Some (render d' (EditorCard i ad (Some i)))), d'))))))"

definition schedules_toggle ::
  "sign_env \<Rightarrow> (string \<Rightarrow> string) \<Rightarrow> schedule_render \<Rightarrow> tzdb \<Rightarrow> int \<Rightarrow> http_request \<Rightarrow> int \<Rightarrow> form \<Rightarrow> db \<Rightarrow>
   (exn + reply) \<times> db" where
  "schedules_toggle en oob render tzdb now rq i form d =
     (case page_request en now rq d of
        Inl e \<Rightarrow> (Inl e, d)
      | Inr None \<Rightarrow> (respond oob rq ''/login'' None None, d)
      | Inr (Some u) \<Rightarrow>
          let back = returns_to_editor form;
              expanded = expanded_from_form form;
              answer = (\<lambda>s d'.
                let url = editor_url back (Some (sch_ad_id s)) expanded
                in respond oob rq url None
                     (Some (render d' (if back then EditorCard i (sch_ad_id s) expanded else SummaryRow i))))
          in case (if id_in_column i then get_for_user i (user_id u) d else None) of
               None \<Rightarrow> (respond oob rq (editor_url back None None) None None, d)
             | Some schedule \<Rightarrow>
                 if \<not> sch_is_active schedule \<and> \<not> complete_row schedule then (answer schedule d, d)
                 else if sch_is_active schedule
                 then case save_schedule (schedule\<lparr>sch_is_active := False, sch_next_run_at := None\<rparr>) d of
                        Inl e \<Rightarrow> (Inl e, d) | Inr (s, d') \<Rightarrow> (answer s d', d')
                 else case next_run_or_none tzdb schedule now of
                        Inl e \<Rightarrow> (Inl e, d)
                      | Inr None \<Rightarrow>
                          (respond oob rq (edit_location (sch_ad_id schedule)) (Some ''schedule_values_out_of_domain'') None, d)
                      | Inr (Some t) \<Rightarrow>
                          (case save_schedule (schedule\<lparr>sch_is_active := True, sch_next_run_at := Some t\<rparr>) d of
                             Inl e \<Rightarrow> (Inl e, d) | Inr (s, d') \<Rightarrow> (answer s d', d')))"

definition schedules_delete ::
  "sign_env \<Rightarrow> url_lib \<Rightarrow> (string \<Rightarrow> string) \<Rightarrow> schedule_render \<Rightarrow> int \<Rightarrow> http_request \<Rightarrow> int \<Rightarrow> form \<Rightarrow> db \<Rightarrow>
   (exn + reply) \<times> db" where
  "schedules_delete en ul oob render now rq i form d =
     (case page_request en now rq d of
        Inl e \<Rightarrow> (Inl e, d)
      | Inr None \<Rightarrow> (respond oob rq ''/login'' None None, d)
      | Inr (Some u) \<Rightarrow>
          (case is_same_origin ul rq of
             Inl e \<Rightarrow> (Inl e, d)
           | Inr False \<Rightarrow> (Inr (EmptyStatus 403), d)
           | Inr True \<Rightarrow>
               let schedule = (if id_in_column i then get_for_user i (user_id u) d else None);
                   d' = (case schedule of
                           None \<Rightarrow> d
                         | Some s \<Rightarrow> d\<lparr>db_schedules := filter (\<lambda>r. sch_id r \<noteq> sch_id s) (db_schedules d)\<rparr>);
                   ad = (case schedule of None \<Rightarrow> ad_id_from_form form | Some s \<Rightarrow> Some (sch_ad_id s));
                   back = returns_to_editor form;
                   url = editor_url back ad None
               in (if \<not> back \<or> \<not> ad_has_a_schedule d' (user_id u) ad then respond oob rq url None None
                   else respond oob rq url None
                          (Some (render d' (DeletedCard i (the ad) (ad_schedule_count d' (user_id u) ad)
                             (ad_next_run_at d' (user_id u) ad)))), d')))"

section \<open>What a form leaves\<close>

text \<open>The row a handler may write for a user: everything in it is the user's and usable.\<close>

definition grounded :: "db \<Rightarrow> int \<Rightarrow> schedule \<Rightarrow> bool" where
  "grounded d uid s \<longleftrightarrow>
     owns_ad d uid (sch_ad_id s) \<and>
     (case sch_account_id s of None \<Rightarrow> True | Some a \<Rightarrow> owns_account d uid a) \<and>
     (\<exists>gs. sch_group_ids s = ints gs \<and> set gs \<subseteq> set (groups_of_account d uid (sch_account_id s))) \<and>
     (\<exists>ds. sch_days_of_week s = ints ds \<and> list_all (\<lambda>n. is_valid_day_of_week (PInt n)) ds) \<and>
     (\<exists>ts. sch_times_of_day s = strs ts \<and> list_all (\<lambda>t. is_valid_time_of_day (PStr t)) ts) \<and>
     sch_timezone s \<in> VALID_TIMEZONES"

lemma grounded_simps [simp]:
  "grounded d uid (s\<lparr>sch_is_active := b\<rparr>) = grounded d uid s"
  "grounded d uid (s\<lparr>sch_next_run_at := t\<rparr>) = grounded d uid s"
  "grounded d uid (s\<lparr>sch_id := i\<rparr>) = grounded d uid s"
  by (simp_all add: grounded_def)

lemma clean_times_valid: "list_all (\<lambda>t. is_valid_time_of_day (PStr t)) (clean_times vs)"
  by (simp add: clean_times_def list_all_iff)

lemma clean_days_valid: "list_all (\<lambda>n. is_valid_day_of_week (PInt n)) (clean_ints vs (Some 0) (Some 6))"
  by (simp add: clean_ints_def list_all_iff)

lemma default_time_valid: "is_valid_time_of_day (PStr DEFAULT_TIME)"
  by code_simp

lemma named_days_valid:
  "list_all (\<lambda>n. is_valid_day_of_week (PInt n)) days \<Longrightarrow>
     list_all (\<lambda>n. is_valid_day_of_week (PInt n)) (fst (snd (apply_named_actions form groups days tods available)))"
  by (simp add: apply_named_actions_def Let_def)

lemma named_times_valid:
  assumes "list_all P tods" "P DEFAULT_TIME"
  shows "list_all P (snd (snd (apply_named_actions form groups days tods available)))"
proof -
  have "list_all P (remove1 r tods)" for r
    using assms(1) by (auto simp: list_all_iff dest: notin_set_remove1)
  with assms show ?thesis
    by (simp add: apply_named_actions_def Let_def split: option.split form_value.split)
qed

lemma sent_values_ok:
  assumes "sent_values d uid account form = (groups, days, tods)"
  shows "set groups \<subseteq> set (groups_of_account d uid account) \<and>
    list_all (\<lambda>n. is_valid_day_of_week (PInt n)) days \<and> list_all (\<lambda>t. is_valid_time_of_day (PStr t)) tods"
proof -
  let ?r = "apply_named_actions form (clean_ints (getlist ''group_ids'' form) None None)
      (clean_ints (getlist ''days_of_week'' form) (Some 0) (Some 6)) (clean_times (getlist ''times_of_day'' form))
      (groups_of_account d uid account)"
  have "groups = filter (\<lambda>g. g \<in> set (groups_of_account d uid account)) (fst ?r)" "days = fst (snd ?r)" "tods = snd (snd ?r)"
    using assms unfolding sent_values_def Let_def by (simp_all add: split_beta)
  then show ?thesis
    using named_days_valid [OF clean_days_valid] named_times_valid [OF clean_times_valid default_time_valid] by auto
qed

lemma profile_timezone_valid: "profile_timezone_or_utc tz \<in> VALID_TIMEZONES"
  by (auto simp: profile_timezone_or_utc_def VALID_TIMEZONES_def split: option.splits)

lemma sent_timezone_valid: "fallback \<in> VALID_TIMEZONES \<Longrightarrow> sent_timezone form fallback \<in> VALID_TIMEZONES"
  by (auto simp: sent_timezone_def split: option.splits form_value.splits)

lemma verdict_ok:
  "ownership_verdict d uid ad account b c = OWNERSHIP_OK \<Longrightarrow>
     owns_ad d uid ad \<and> (case account of None \<Rightarrow> True | Some a \<Rightarrow> owns_account d uid a)"
  by (auto simp: ownership_verdict_def split: if_splits option.splits)

section \<open>What the handlers write\<close>

text \<open>The database a schedule is written to: nothing but its own row differs.\<close>

lemma save_frame: "save_schedule s d = Inr (s', d') \<Longrightarrow> d' = d\<lparr>db_schedules := db_schedules d'\<rparr>"
  by (auto simp: save_schedule_def split: if_splits)

lemma insert_frame: "insert_schedule s d = Inr (s', d') \<Longrightarrow> d' = d\<lparr>db_schedules := db_schedules d'\<rparr> \<and> (\<exists>i. s' = s\<lparr>sch_id := i\<rparr>)"
  by (auto simp: insert_schedule_def Let_def split: if_splits)

lemma created_row_ok:
  assumes "created_row tzdb now u ad account form d = Inr (Some row)"
    "ownership_verdict d (user_id u) ad account b c = OWNERSHIP_OK"
  shows "coherent row \<and> grounded d (user_id u) row \<and> sch_ad_id row = ad"
proof -
  obtain groups days tods where v: "sent_values d (user_id u) account form = (groups, days, tods)" by (metis prod_cases3)
  show ?thesis
    using assms(1) sent_values_ok [OF v] verdict_ok [OF assms(2)] sent_timezone_valid [OF profile_timezone_valid]
    by (auto simp: created_row_def v Let_def result_simps coherent_def complete_row_def or_list_ints grounded_def split: if_splits)
qed

lemma changed_row_ok:
  assumes "changed_row tzdb now u schedule ad account form d = Inr (Some row)"
    "ownership_verdict d (user_id u) ad account b c = OWNERSHIP_OK"
  shows "coherent row \<and> grounded d (user_id u) row \<and> sch_id row = sch_id schedule \<and> (sch_is_active row \<longrightarrow> sch_is_active schedule)"
proof -
  obtain groups days tods where v: "sent_values d (user_id u) account form = (groups, days, tods)" by (metis prod_cases3)
  have tz: "(if sch_timezone schedule \<in> VALID_TIMEZONES then sch_timezone schedule
             else profile_timezone_or_utc (Some (user_timezone u))) \<in> VALID_TIMEZONES"
    by (simp add: profile_timezone_valid)
  define changed where "changed = schedule\<lparr>sch_ad_id := ad, sch_account_id := account, sch_group_ids := ints groups,
      sch_days_of_week := ints days, sch_times_of_day := strs tods,
      sch_timezone := sent_timezone form (if sch_timezone schedule \<in> VALID_TIMEZONES then sch_timezone schedule
        else profile_timezone_or_utc (Some (user_timezone u)))\<rparr>"
  have grounded: "grounded d (user_id u) changed"
    using sent_values_ok [OF v] verdict_ok [OF assms(2)] sent_timezone_valid [OF tz]
    by (auto simp: grounded_def changed_def)
  have complete: "complete_row changed = is_schedule_complete account (ints groups) (ints days) (strs tods)"
    by (simp add: complete_row_def changed_def or_list_ints)
  have same: "sch_id changed = sch_id schedule" "sch_is_active changed = sch_is_active schedule" by (simp_all add: changed_def)
  from assms(1) have "if \<not> complete_row changed then row = changed\<lparr>sch_is_active := False, sch_next_run_at := None\<rparr>
      else if \<not> sch_is_active changed then row = changed\<lparr>sch_next_run_at := None\<rparr>
      else \<exists>t. row = changed\<lparr>sch_next_run_at := Some t\<rparr>"
    unfolding changed_row_def v Let_def prod.case complete changed_def [symmetric]
    by (auto simp: result_simps split: if_split_asm)
  with grounded same show ?thesis by (auto simp: coherent_def split: if_split_asm)
qed

lemma schedules_create_write:
  assumes "page_request en now rq d = Inr (Some u)" "snd (schedules_create en oob render tzdb now rq ad account form d) = d'" "d' \<noteq> d"
  shows "\<exists>row s. insert_schedule row d = Inr (s, d') \<and> coherent row \<and> grounded d (user_id u) row \<and>
    created_row tzdb now u ad account form d = Inr (Some row)"
proof -
  have ok: "ownership_verdict d (user_id u) ad account (id_in_column ad) (optional_id_in_column account) = OWNERSHIP_OK"
    using assms by (auto simp: schedules_create_def split: verdict.splits)
  obtain row where row: "created_row tzdb now u ad account form d = Inr (Some row)"
    using assms ok by (auto simp: schedules_create_def split: sum.splits option.splits)
  have "\<exists>s. insert_schedule row d = Inr (s, d')"
    using assms ok row by (cases "insert_schedule row d") (auto simp: schedules_create_def)
  with row created_row_ok [OF row ok] show ?thesis by blast
qed

lemma schedules_update_write:
  assumes "page_request en now rq d = Inr (Some u)" "snd (schedules_update en oob render tzdb now rq i ad account form d) = d'" "d' \<noteq> d"
  shows "\<exists>r row s. get_for_user i (user_id u) d = Some r \<and> save_schedule row d = Inr (s, d') \<and> coherent row \<and>
    grounded d (user_id u) row \<and> sch_id row = sch_id r \<and> (sch_is_active row \<longrightarrow> sch_is_active r)"
proof -
  obtain r where r: "id_in_column i" "get_for_user i (user_id u) d = Some r"
    using assms by (auto simp: schedules_update_def split: option.splits if_splits)
  have ok: "ownership_verdict d (user_id u) ad account (id_in_column ad) (optional_id_in_column account) = OWNERSHIP_OK"
    using assms r by (auto simp: schedules_update_def split: verdict.splits)
  obtain row where row: "changed_row tzdb now u r ad account form d = Inr (Some row)"
    using assms ok r by (auto simp: schedules_update_def split: sum.splits option.splits)
  have "\<exists>s. save_schedule row d = Inr (s, d')"
    using assms ok r row by (cases "save_schedule row d") (auto simp: schedules_update_def Let_def)
  with r row changed_row_ok [OF row ok] show ?thesis by blast
qed

text \<open>The switch and the removal are those of the JSON interface, where the identifier fits its column.\<close>

lemma schedules_toggle_db:
  assumes "page_request en now rq d = Inr (Some u)" "id_in_column i"
  shows "snd (schedules_toggle en oob render tzdb now rq i form d) =
    (case toggle_schedule tzdb now i (user_id u) d of Inl e \<Rightarrow> d | Inr (s, d') \<Rightarrow> d')"
proof (cases "get_for_user i (user_id u) d")
  case None
  with assms show ?thesis by (simp add: schedules_toggle_def toggle_schedule_def)
next
  case (Some r)
  show ?thesis
  proof (cases "sch_is_active r")
    case True
    with assms Some show ?thesis
      by (cases "save_schedule (r\<lparr>sch_is_active := False, sch_next_run_at := None\<rparr>) d")
         (auto simp: schedules_toggle_def toggle_schedule_def Let_def)
  next
    case False
    note off = this
    show ?thesis
    proof (cases "complete_row r")
      case True
      show ?thesis
      proof (cases "next_run_or_none tzdb r now")
        case (Inr t)
        with assms Some off True show ?thesis
          by (cases t; cases "save_schedule (r\<lparr>sch_is_active := True, sch_next_run_at := t\<rparr>) d")
             (auto simp: schedules_toggle_def toggle_schedule_def Let_def)
      qed (use assms Some off True in \<open>simp add: schedules_toggle_def toggle_schedule_def Let_def\<close>)
    qed (use assms Some off in \<open>simp add: schedules_toggle_def toggle_schedule_def Let_def\<close>)
  qed
qed

lemma schedules_delete_db:
  assumes "page_request en now rq d = Inr (Some u)" "id_in_column i" "is_same_origin ul rq = Inr True"
  shows "snd (schedules_delete en ul oob render now rq i form d) =
    (case delete_schedule i (user_id u) d of Inl e \<Rightarrow> d | Inr d' \<Rightarrow> d')"
  using assms by (auto simp: schedules_delete_def delete_schedule_def Let_def split: option.splits)

section \<open>Properties\<close>

datatype page_schedule_op =
    PageCreate int "int option" form
  | PageUpdate int int "int option" form
  | PageToggle int form
  | PageDelete int form

definition serve_page ::
  "sign_env \<Rightarrow> url_lib \<Rightarrow> (string \<Rightarrow> string) \<Rightarrow> schedule_render \<Rightarrow> tzdb \<Rightarrow> int \<Rightarrow> http_request \<Rightarrow> page_schedule_op \<Rightarrow> db \<Rightarrow>
   (exn + reply) \<times> db" where
  "serve_page en ul oob render tzdb now rq q d =
     (case q of
        PageCreate ad account form \<Rightarrow> schedules_create en oob render tzdb now rq ad account form d
      | PageUpdate i ad account form \<Rightarrow> schedules_update en oob render tzdb now rq i ad account form d
      | PageToggle i form \<Rightarrow> schedules_toggle en oob render tzdb now rq i form d
      | PageDelete i form \<Rightarrow> schedules_delete en ul oob render now rq i form d)"

text \<open>How a handler of the pages may change the schedules.\<close>

definition page_write_ok :: "user \<Rightarrow> page_schedule_op \<Rightarrow> db \<Rightarrow> db \<Rightarrow> bool" where
  "page_write_ok u q d d' \<longleftrightarrow>
     (case q of
        PageCreate ad account form \<Rightarrow>
          (\<exists>s. stored s d d' \<and> grounded d (user_id u) s \<and> (\<forall>x \<in> set (db_schedules d). sch_id x \<noteq> sch_id s))
      | PageUpdate i ad account form \<Rightarrow>
          (\<exists>r s. get_for_user i (user_id u) d = Some r \<and> stored s d d' \<and> sch_id s = i \<and> grounded d (user_id u) s \<and>
             (sch_is_active s \<longrightarrow> sch_is_active r))
      | PageToggle i form \<Rightarrow>
          (\<exists>r s. get_for_user i (user_id u) d = Some r \<and> stored s d d' \<and> sch_id s = i \<and>
             sch_ad_id s = sch_ad_id r \<and> sch_is_active s = (\<not> sch_is_active r))
      | PageDelete i form \<Rightarrow>
          get_for_user i (user_id u) d \<noteq> None \<and>
          db_schedules d' = filter (\<lambda>r. sch_id r \<noteq> i) (db_schedules d))"

lemma toggle_frame: "toggle_schedule tzdb now i u d = Inr (s, d') \<Longrightarrow> d' = d\<lparr>db_schedules := db_schedules d'\<rparr>"
  by (auto simp: toggle_schedule_def result_simps split: option.splits if_splits dest: save_frame)

lemma delete_frame: "delete_schedule i u d = Inr d' \<Longrightarrow> d' = d\<lparr>db_schedules := db_schedules d'\<rparr>"
  by (auto simp: delete_schedule_def split: option.splits)

lemma page_write:
  assumes "page_request en now rq d = Inr (Some u)" "snd (serve_page en ul oob render tzdb now rq q d) = d'" "d' \<noteq> d"
  shows "page_write_ok u q d d' \<and> d' = d\<lparr>db_schedules := db_schedules d'\<rparr> \<and> (schedules_coherent d \<longrightarrow> schedules_coherent d')"
proof (cases q)
  case (PageCreate ad account form)
  with assms obtain row s where w: "insert_schedule row d = Inr (s, d')" "coherent row" "grounded d (user_id u) row"
    using schedules_create_write [of en now rq d u oob render tzdb ad account form d'] by (auto simp: serve_page_def)
  obtain k where k: "s = row\<lparr>sch_id := k\<rparr>" "d' = d\<lparr>db_schedules := db_schedules d'\<rparr>" using insert_frame [OF w(1)] by blast
  have "sch_id s = next_id sch_id (db_schedules d)" using w(1) by (auto simp: insert_schedule_def Let_def split: if_splits)
  then have fresh: "sch_id x \<noteq> sch_id s" if "x \<in> set (db_schedules d)" for x
    using next_id_fresh [OF that, of sch_id] by simp
  have "stored s d d' \<and> (schedules_coherent d \<longrightarrow> schedules_coherent d')"
    using insert_coherent [OF w(1)] w(2) by simp
  with k w fresh PageCreate show ?thesis by (auto simp: page_write_ok_def)
next
  case (PageUpdate i ad account form)
  with assms obtain r row s where w: "get_for_user i (user_id u) d = Some r" "save_schedule row d = Inr (s, d')" "coherent row"
    "grounded d (user_id u) row" "sch_id row = sch_id r" "sch_is_active row \<longrightarrow> sch_is_active r"
    using schedules_update_write [of en now rq d u oob render tzdb i ad account form d'] by (auto simp: serve_page_def)
  from save_row [OF w(2,3,1,5)] get_for_user_Some [OF w(1)] w PageUpdate save_frame [OF w(2)] show ?thesis
    by (auto simp: page_write_ok_def)
next
  case (PageToggle i form)
  have col: "id_in_column i"
  proof (rule ccontr)
    assume "\<not> id_in_column i"
    with assms PageToggle show False by (simp add: serve_page_def schedules_toggle_def Let_def)
  qed
  obtain s where t: "toggle_schedule tzdb now i (user_id u) d = Inr (s, d')"
    using assms PageToggle schedules_toggle_db [OF assms(1) col] by (auto simp: serve_page_def split: sum.splits prod.splits)
  from toggle_schedule_row [OF t] toggle_frame [OF t] PageToggle show ?thesis by (auto simp: page_write_ok_def)
next
  case (PageDelete i form)
  obtain "id_in_column i" "is_same_origin ul rq = Inr True"
    using assms PageDelete by (auto simp: serve_page_def schedules_delete_def Let_def split: sum.splits bool.splits if_splits)
  from schedules_delete_db [OF assms(1) this] have t: "delete_schedule i (user_id u) d = Inr d'"
    using assms PageDelete by (auto simp: serve_page_def split: sum.splits)
  with delete_frame [OF t] delete_coherent [OF t] get_for_user_Some [of i "user_id u" d] PageDelete show ?thesis
    by (auto simp: page_write_ok_def delete_schedule_def split: option.splits)
qed

text \<open>
  C23: whatever a handler of the pages does to the schedules, it does to one row of this user. A
  saved row is grounded: advertisement, account and groups are the user's, the groups are of that
  account, days, times and zone are usable; it is active only with everything filled in and with a
  next run, and saving never switches a paused schedule on. The switch turns over one row, removal
  takes one row, and the schedules of everybody else, and every other table, stay as they are.
\<close>

theorem page_schedules_sound:
  assumes "page_request en now rq d = Inr (Some u)" "serve_page en ul oob render tzdb now rq q d = (r, d')" "d' \<noteq> d"
    and "schedules_coherent d"
  shows "page_write_ok u q d d' \<and> schedules_coherent d' \<and> d' = d\<lparr>db_schedules := db_schedules d'\<rparr> \<and>
    filter (\<lambda>s. \<not> owns_ad d (user_id u) (sch_ad_id s)) (db_schedules d') =
    filter (\<lambda>s. \<not> owns_ad d (user_id u) (sch_ad_id s)) (db_schedules d)"
proof -
  have "snd (serve_page en ul oob render tzdb now rq q d) = d'" using assms(2) by simp
  from page_write [OF assms(1) this assms(3)] assms(4)
  have w: "page_write_ok u q d d'" "d' = d\<lparr>db_schedules := db_schedules d'\<rparr>" "schedules_coherent d'" by simp_all
  note iso = stored_isolated [where u = "user_id u", OF _ w(3)]
  have "filter (\<lambda>s. \<not> owns_ad d (user_id u) (sch_ad_id s)) (db_schedules d') =
    filter (\<lambda>s. \<not> owns_ad d (user_id u) (sch_ad_id s)) (db_schedules d)"
  proof (cases q)
    case (PageCreate ad account form)
    with w(1) obtain s where "stored s d d'" "grounded d (user_id u) s" "\<forall>x \<in> set (db_schedules d). sch_id x \<noteq> sch_id s"
      by (auto simp: page_write_ok_def)
    then show ?thesis by (intro iso) (auto simp: grounded_def)
  next
    case (PageUpdate i ad account form)
    with w(1) obtain r s where "get_for_user i (user_id u) d = Some r" "stored s d d'" "sch_id s = i" "grounded d (user_id u) s"
      by (auto simp: page_write_ok_def)
    then show ?thesis using same_id_owned [OF assms(4)] by (intro iso) (auto simp: grounded_def)
  next
    case (PageToggle i form)
    with w(1) obtain r s where "get_for_user i (user_id u) d = Some r" "stored s d d'" "sch_id s = i" "sch_ad_id s = sch_ad_id r"
      by (auto simp: page_write_ok_def)
    then show ?thesis using same_id_owned [OF assms(4)] get_for_user_Some [of i "user_id u" d r] by (intro iso) auto
  next
    case (PageDelete i form)
    with w(1) obtain r where r: "get_for_user i (user_id u) d = Some r" "db_schedules d' = filter (\<lambda>r. sch_id r \<noteq> i) (db_schedules d)"
      by (auto simp: page_write_ok_def)
    show ?thesis unfolding r(2)
      by (rule filter_other_id [symmetric]) (use same_id_owned [OF assms(4) r(1)] in auto)
  qed
  with w show ?thesis by blast
qed

section \<open>The form and the JSON interface\<close>

text \<open>The form that sends what a request of the JSON interface holds.\<close>

definition form_of :: "create_request \<Rightarrow> form" where
  "form_of r =
     map (\<lambda>g. (''group_ids'', FText (int_str g))) (cr_group_ids r) @
     map (\<lambda>n. (''days_of_week'', FText (int_str n))) (cr_days_of_week r) @
     map (\<lambda>t. (''times_of_day'', FText t)) (cr_times_of_day r) @ [(''timezone'', FText (cr_timezone r))]"

lemma getlist_form_of:
  "getlist ''group_ids'' (form_of r) = map (\<lambda>g. FText (int_str g)) (cr_group_ids r)"
  "getlist ''days_of_week'' (form_of r) = map (\<lambda>n. FText (int_str n)) (cr_days_of_week r)"
  "getlist ''times_of_day'' (form_of r) = map FText (cr_times_of_day r)"
  "form_get ''timezone'' (form_of r) = Some (FText (cr_timezone r))"
  "k \<notin> {''group_ids'', ''days_of_week'', ''times_of_day'', ''timezone''} \<Longrightarrow> form_get k (form_of r) = None"
  by (auto simp: getlist_def form_get_def form_of_def filter_map comp_def filter_empty_conv)

lemma map_filter_ints: "List.map_filter (\<lambda>v. int_of_field (Some v)) (map (\<lambda>n. FText (int_str n)) ns) = ns"
  by (induction ns) (simp_all add: map_filter_simps py_int_int_str)

lemma clean_ints_of:
  assumes "\<And>n. n \<in> set ns \<Longrightarrow> (case low of None \<Rightarrow> True | Some l \<Rightarrow> l \<le> n) \<and> (case high of None \<Rightarrow> True | Some h \<Rightarrow> n \<le> h)"
  shows "clean_ints (map (\<lambda>n. FText (int_str n)) ns) low high = ns"
  using assms by (simp add: clean_ints_def map_filter_ints filter_id_conv)

lemma digit_in_digit: "digit_in c lo hi \<Longrightarrow> is_digit c"
  by (auto simp: digit_in_def is_digit_def split: option.splits)

lemma short_time_no_space:
  assumes "time_of_day_match t" "length t = 5"
  shows "strip t = t"
proof (rule strip_no_space)
  fix c
  assume c: "c \<in> set t"
  obtain a b x y z where t: "t = [a, b, x, y, z]"
    using assms by (cases t rule: time_of_day_match.cases) auto
  with assms(1) have "is_digit a" "is_digit b" "x = CHR '':''" "is_digit y" "is_digit z"
    by (auto simp: hour_digits_def minute_digits_def dest: digit_in_digit)
  with c t show "\<not> is_space c" using digit_not_space by (auto simp: is_space_def Let_def)
qed

lemma clean_times_of:
  assumes "list_all (\<lambda>t. is_valid_time_of_day (PStr t)) ts" "list_all (\<lambda>t. length t = 5) ts"
  shows "clean_times (map FText ts) = ts"
proof -
  have "map strip ts = ts" using assms short_time_no_space by (intro map_idI) (auto simp: list_all_iff)
  with assms show ?thesis by (simp add: clean_times_def filter_id_conv list_all_iff)
qed

lemma owned_group_in_account:
  "g \<in> owned_group_ids d u (Some a) gs \<Longrightarrow> g \<in> set (groups_of_account d u (Some a))"
  by (auto simp: owned_group_ids_def groups_of_account_def split: if_splits)

lemma sent_values_of:
  assumes "validate_create r = Inr c"
    and "set (cr_group_ids r) \<subseteq> owned_group_ids d uid (Some (cr_account_id r)) (cr_group_ids r)"
    and "list_all (\<lambda>t. length t = 5) (cr_times_of_day r)"
  shows "sent_values d uid (Some (cr_account_id r)) (form_of r) = (cr_group_ids r, cr_days_of_week r, cr_times_of_day r)"
proof -
  note v = validated [OF assms(1)]
  have days: "clean_ints (map (\<lambda>n. FText (int_str n)) (cr_days_of_week r)) (Some 0) (Some 6) = cr_days_of_week r"
    using v by (intro clean_ints_of) (auto simp: list_all_iff)
  have groups: "clean_ints (map (\<lambda>n. FText (int_str n)) (cr_group_ids r)) None None = cr_group_ids r"
    by (intro clean_ints_of) simp
  have tods: "clean_times (map FText (cr_times_of_day r)) = cr_times_of_day r"
    using v assms(3) by (intro clean_times_of) auto
  have "\<forall>g \<in> set (cr_group_ids r). g \<in> set (groups_of_account d uid (Some (cr_account_id r)))"
    using assms(2) owned_group_in_account by blast
  then have "filter (\<lambda>g. g \<in> set (groups_of_account d uid (Some (cr_account_id r)))) (cr_group_ids r) = cr_group_ids r"
    by (simp add: filter_id_conv)
  then show ?thesis
    by (simp add: sent_values_def apply_named_actions_def getlist_form_of days groups tods text_is_def Let_def)
qed


section \<open>Examples\<close>

definition no_fragment :: schedule_render where
  "no_fragment d f = Inl ValueError"

lemma sample_page_user:
  "page_request (sample_env (two_tokens None)) 5 cookie_request sample_schedule_db = Inr (Some sample_user)"
  by (rule sample_page_request) (simp_all add: sample_schedule_db_def sample_db_def)

lemma sample_user_id [simp]: "user_id sample_user = 1"
  by (simp add: sample_user_def)

lemma page_schedules_sound_witness:
  "\<exists>r d' s. serve_page (sample_env (two_tokens None)) strict_lib (\<lambda>_. []) no_fragment sample_tzdb 5 cookie_request
       (PageToggle 1 []) sample_schedule_db = (r, d') \<and> d' \<noteq> sample_schedule_db \<and>
     stored s sample_schedule_db d' \<and> \<not> sch_is_active s"
proof -
  let ?run = "serve_page (sample_env (two_tokens None)) strict_lib (\<lambda>_. []) no_fragment sample_tzdb 5 cookie_request
       (PageToggle 1 []) sample_schedule_db"
  obtain r d' where run: "?run = (r, d')" by force
  have found: "get_for_user 1 1 sample_schedule_db = Some sample_schedule"
    by (simp add: get_for_user_def sample_schedule_db_def sample_schedule_def owns_ad_def sample_ad_def)
  have "id_in_column 1" by (simp add: id_in_column_def ID_MAX_def)
  from schedules_toggle_db [OF sample_page_user this, of "\<lambda>_. []" no_fragment sample_tzdb "[]"] found run
  have "db_schedules d' = [sample_schedule\<lparr>sch_is_active := False, sch_next_run_at := None\<rparr>]"
    by (simp add: serve_page_def toggle_schedule_def sample_schedule_def save_schedule_def ck_active_requires_next_run_def
        sample_schedule_db_def)
  then have "d' \<noteq> sample_schedule_db" by (auto simp: sample_schedule_db_def sample_schedule_def)
  from page_schedules_sound [OF sample_page_user run this sample_schedule_db_coherent] this run found show ?thesis
    by (auto simp: page_write_ok_def sample_schedule_def)
qed


end
