(* ===== verification/Sending.thy ===== *)
theory Sending
  imports Dispatch
begin

text \<open>
  One attempt to send (\<open>send_message_once\<close> of \<open>app/application/scheduling/use_cases.py\<close>),
  the factory of the messengers and their three adapters (\<open>app/services/messenger_factory.py\<close>,
  \<open>app/messengers\<close>). Telethon and the HTTP bridges are not in the repository: what a call to
  them does in one attempt is an argument (\<open>tg_io\<close>, \<open>bridge_reply\<close>). A call that raised is
  taken to have posted nothing. The session commits are taken to succeed.
\<close>

section \<open>Messengers\<close>

record send_result =
  res_ok :: bool
  res_error :: "string option"
  res_no_retry :: bool

definition sent_ok :: send_result where
  "sent_ok = \<lparr>res_ok = True, res_error = None, res_no_retry = False\<rparr>"

definition refused :: "string \<Rightarrow> send_result" where
  "refused e = \<lparr>res_ok = False, res_error = Some e, res_no_retry = True\<rparr>"

datatype messenger =
    TelegramUserMessenger string
  | WhatsAppMessenger string
  | MaxMessenger string

text \<open>
  An exception with its text. Opening a Telegram client may raise, on the session string that
  Telethon has to parse; that is the argument \<open>open_client\<close>.
\<close>

type_synonym failure = "exn \<times> string"

definition create_messenger :: "(string \<Rightarrow> failure option) \<Rightarrow> account \<Rightarrow> failure + messenger" where
  "create_messenger open_client a =
     (if acc_type a = ''tg_user'' then
        (case open_client (acc_credentials a) of
           Some e \<Rightarrow> Inl e
         | None \<Rightarrow> Inr (TelegramUserMessenger (acc_credentials a)))
      else if acc_type a = ''wa'' then Inr (WhatsAppMessenger (int_str (acc_id a)))
      else if acc_type a = ''max'' then Inr (MaxMessenger (int_str (acc_id a)))
      else Inl (ValueError, ''Unknown account type: '' @ acc_type a))"

section \<open>The Telegram adapter\<close>

text \<open>
  The errors of Telethon the adapter tells apart; \<open>TgForbidden\<close> stands for
  \<open>ForbiddenError\<close> and its subclasses, among them the refusal to write in a chat.
\<close>

datatype tg_error =
    TgSlowMode string
  | TgForbidden string
  | TgBanned string
  | TgPeerInvalid string
  | TgValueError string
  | TgOther string

fun tg_text :: "tg_error \<Rightarrow> string" where
  "tg_text (TgSlowMode s) = s"
| "tg_text (TgForbidden s) = s"
| "tg_text (TgBanned s) = s"
| "tg_text (TgPeerInvalid s) = s"
| "tg_text (TgValueError s) = s"
| "tg_text (TgOther s) = s"

record tg_io =
  tg_connect :: "tg_error option"
  tg_entity :: "int \<Rightarrow> tg_error option"
  tg_dialogs :: "tg_error option"
  tg_entity_again :: "int \<Rightarrow> tg_error option"
  tg_download :: "string \<Rightarrow> tg_error option"
  tg_send_file :: "tg_error option"
  tg_send_text :: "tg_error option"

datatype post = MediaPost int "string list" string | TextPost int string

definition PEER_UNREACHABLE_MESSAGE :: string where
  "PEER_UNREACHABLE_MESSAGE = ''The account has no access to this group any more''"

definition raising :: "'e option \<Rightarrow> 'e + unit" where
  "raising e = (case e of None \<Rightarrow> Inr () | Some x \<Rightarrow> Inl x)"

definition and_then :: "'e + 'a \<Rightarrow> ('a \<Rightarrow> 'e + 'b) \<Rightarrow> 'e + 'b" where
  "and_then m f = (case m of Inl e \<Rightarrow> Inl e | Inr x \<Rightarrow> f x)"

lemma and_then_simps [simp]: "and_then (Inl e) f = Inl e" "and_then (Inr x) f = f x"
  by (simp_all add: and_then_def)

text \<open>
  \<open>_resolve_peer\<close>: the entity, the dialogs once when it is unknown, and the entity again.
  \<open>PeerUnreachableError\<close> is handled with \<open>PeerIdInvalidError\<close> everywhere.
\<close>

definition resolve_peer :: "tg_io \<Rightarrow> string \<Rightarrow> tg_error + int" where
  "resolve_peer io group_id =
     (case py_int group_id of
        None \<Rightarrow> Inl (TgValueError ''invalid literal for int()'')
      | Some peer \<Rightarrow>
          (case tg_entity io peer of
             None \<Rightarrow> Inr peer
           | Some (TgValueError _) \<Rightarrow>
               and_then (raising (tg_dialogs io)) (\<lambda>_.
                 case tg_entity_again io peer of
                   None \<Rightarrow> Inr peer
                 | Some (TgValueError _) \<Rightarrow> Inl (TgPeerInvalid PEER_UNREACHABLE_MESSAGE)
                 | Some e \<Rightarrow> Inl e)
           | Some e \<Rightarrow> Inl e))"

fun download_all :: "tg_io \<Rightarrow> string list \<Rightarrow> tg_error + unit" where
  "download_all io [] = Inr ()"
| "download_all io (u # us) = and_then (raising (tg_download io u)) (\<lambda>_. download_all io us)"

definition post_text :: "tg_io \<Rightarrow> int \<Rightarrow> string \<Rightarrow> tg_error + post" where
  "post_text io peer body = and_then (raising (tg_send_text io)) (\<lambda>_. Inr (TextPost peer body))"

text \<open>Media that the chat forbids is replaced by the text alone.\<close>

definition post_media :: "tg_io \<Rightarrow> int \<Rightarrow> string list \<Rightarrow> string \<Rightarrow> tg_error + post" where
  "post_media io peer urls body =
     and_then (download_all io urls) (\<lambda>_.
       case tg_send_file io of
         None \<Rightarrow> Inr (MediaPost peer urls body)
       | Some (TgForbidden _) \<Rightarrow> post_text io peer body
       | Some e \<Rightarrow> Inl e)"

definition post_message :: "tg_io \<Rightarrow> string \<Rightarrow> string \<Rightarrow> string list option \<Rightarrow> tg_error + post" where
  "post_message io group_id body images =
     and_then (raising (tg_connect io)) (\<lambda>_.
       and_then (resolve_peer io group_id) (\<lambda>peer.
         case images of
           None \<Rightarrow> post_text io peer body
         | Some urls \<Rightarrow> if urls = [] then post_text io peer body else post_media io peer urls body))"

fun tg_refusal :: "tg_error \<Rightarrow> send_result" where
  "tg_refusal (TgPeerInvalid _) = refused PEER_UNREACHABLE_MESSAGE"
| "tg_refusal e = refused (tg_text e)"

definition telegram_send ::
  "tg_io \<Rightarrow> string \<Rightarrow> string \<Rightarrow> string list option \<Rightarrow> send_result \<times> post list" where
  "telegram_send io group_id body images =
     (case post_message io group_id body images of
        Inr p \<Rightarrow> (sent_ok, [p])
      | Inl e \<Rightarrow> (tg_refusal e, []))"

section \<open>The bridges of WhatsApp and MAX\<close>

text \<open>
  What posting to the bridge gives: an exception of some type with its text, or a response: its
  code, the member \<open>error\<close> of its body when the body is a JSON object that has one, and the text.
\<close>

datatype bridge_reply =
    BridgeRaised string string
  | BridgeResponse nat "string option option" string

definition http_error_text :: "nat \<Rightarrow> string option option \<Rightarrow> string \<Rightarrow> string" where
  "http_error_text code body txt =
     (let error_msg = (case body of None \<Rightarrow> txt | Some None \<Rightarrow> '''' | Some (Some e) \<Rightarrow> e)
      in ''[HTTP '' @ int_str (int code) @ ''] '' @ (if error_msg = [] then ''empty response'' else error_msg))"

definition whatsapp_send :: "bridge_reply \<Rightarrow> send_result" where
  "whatsapp_send r =
     (case r of
        BridgeRaised name txt \<Rightarrow>
          \<lparr>res_ok = False, res_error = Some (''[Connection] '' @ name @ '': '' @ txt), res_no_retry = False\<rparr>
      | BridgeResponse code body txt \<Rightarrow>
          if code = 200 then sent_ok
          else \<lparr>res_ok = False, res_error = Some (http_error_text code body txt), res_no_retry = (code = 403)\<rparr>)"

text \<open>\<open>MaxMessenger.send_message\<close>, a body of its own.\<close>

definition max_send :: "bridge_reply \<Rightarrow> send_result" where
  "max_send r =
     (case r of
        BridgeRaised name txt \<Rightarrow>
          \<lparr>res_ok = False, res_error = Some (''[Connection] '' @ name @ '': '' @ txt), res_no_retry = False\<rparr>
      | BridgeResponse code body txt \<Rightarrow>
          if code = 200 then sent_ok
          else \<lparr>res_ok = False, res_error = Some (http_error_text code body txt), res_no_retry = (code = 403)\<rparr>)"

section \<open>One attempt\<close>

record send_request =
  req_messenger :: messenger
  req_group_external_id :: string
  req_text :: string
  req_images :: "string list option"

text \<open>An attempt: what it asked of a messenger, the exception it ended with, and the database it left.\<close>

record attempt =
  att_request :: "send_request option"
  att_raised :: "exn option"
  att_db :: db

type_synonym sender = "send_request \<Rightarrow> exn + send_result"

record send_job =
  job_ad_id :: int
  job_group_id :: int
  job_account_id :: int
  job_schedule_id :: "int option"
  job_task_id :: "string option"

definition add_log :: "send_log \<Rightarrow> db \<Rightarrow> db" where
  "add_log l d = d\<lparr>db_send_logs := db_send_logs d @ [l\<lparr>log_id := next_id log_id (db_send_logs d)\<rparr>]\<rparr>"

definition update_group :: "int \<Rightarrow> (group \<Rightarrow> group) \<Rightarrow> db \<Rightarrow> db" where
  "update_group i f d = d\<lparr>db_groups := update_where (\<lambda>g. grp_id g = i) f (db_groups d)\<rparr>"

definition log_entry ::
  "int \<Rightarrow> send_job \<Rightarrow> ad option \<Rightarrow> group option \<Rightarrow> account option \<Rightarrow> string \<Rightarrow> string option \<Rightarrow> send_log" where
  "log_entry now job oa og oacc status err =
     \<lparr>log_id = 0, log_user_id = (case oa of None \<Rightarrow> 0 | Some a \<Rightarrow> ad_user_id a),
      log_schedule_id = job_schedule_id job, log_ad_id = Some (job_ad_id job),
      log_group_id = Some (job_group_id job), log_ad_title = map_option ad_title oa,
      log_ad_text = map_option ad_text oa, log_ad_images = Option.bind oa ad_images,
      log_group_name = map_option grp_name og, log_messenger_type = map_option acc_type oacc,
      log_task_id = job_task_id job, log_status = status, log_error_message = err, log_sent_at = now\<rparr>"

definition stopped :: "db \<Rightarrow> send_log \<Rightarrow> attempt" where
  "stopped d l = \<lparr>att_request = None, att_raised = None, att_db = add_log l d\<rparr>"

definition show_error :: "string option \<Rightarrow> string" where
  "show_error e = (case e of None \<Rightarrow> ''None'' | Some s \<Rightarrow> s)"

definition mark_group_error :: "int \<Rightarrow> string option \<Rightarrow> group \<Rightarrow> group" where
  "mark_group_error now e g = g\<lparr>grp_last_error := e, grp_error_at := Some now\<rparr>"

definition clear_group_error :: "group \<Rightarrow> group" where
  "clear_group_error g = g\<lparr>grp_last_error := None, grp_error_at := None\<rparr>"

definition has_error :: "group \<Rightarrow> bool" where
  "has_error g \<longleftrightarrow> grp_last_error g \<noteq> None \<and> grp_last_error g \<noteq> Some ''''"

text \<open>What follows the answer of the messenger.\<close>

definition record_result ::
  "int \<Rightarrow> send_job \<Rightarrow> ad \<Rightarrow> group \<Rightarrow> account \<Rightarrow> send_request \<Rightarrow> send_result \<Rightarrow> db \<Rightarrow> attempt" where
  "record_result now job a g acc req r d =
     (let d1 = add_log (log_entry now job (Some a) (Some g) (Some acc)
                 (if res_ok r then ''ok'' else ''fail'') (res_error r)) d
      in if \<not> res_ok r then
           if res_no_retry r
           then \<lparr>att_request = Some req, att_raised = None,
                  att_db = update_group (grp_id g) (mark_group_error now (res_error r)) d1\<rparr>
           else \<lparr>att_request = Some req,
                  att_raised = Some (SendFailed (''Send failed: '' @ show_error (res_error r))), att_db = d1\<rparr>
         else
           if has_error g
           then \<lparr>att_request = Some req, att_raised = None, att_db = update_group (grp_id g) clear_group_error d1\<rparr>
           else \<lparr>att_request = Some req, att_raised = None, att_db = d1\<rparr>)"

definition send_message_once ::
  "int \<Rightarrow> string \<Rightarrow> (account \<Rightarrow> failure + messenger) \<Rightarrow> sender \<Rightarrow> send_job \<Rightarrow> db \<Rightarrow> attempt" where
  "send_message_once now s3_url messenger_factory send job d =
     (let oa = find_row ad_id (job_ad_id job) (db_ads d);
          og = find_row grp_id (job_group_id job) (db_groups d);
          oacc = find_row acc_id (job_account_id job) (db_accounts d);
          entry = log_entry now job oa og oacc
      in case (oa, og, oacc) of
           (Some a, Some g, Some acc) \<Rightarrow>
             if effective_ad_status a = AD_STATUS_DRAFT then
               stopped d (entry ''fail'' (Some (''Ad '' @ int_str (job_ad_id job) @ '' is a draft'')))
             else if acc_status acc \<noteq> ''active'' then
               stopped d (entry ''account_disconnected''
                 (Some (''Account '' @ int_str (acc_id acc) @ '' is '' @ acc_status acc)))
             else
               (case messenger_factory acc of
                  Inl (ValueError, txt) \<Rightarrow> stopped d (entry ''fail'' (Some txt))
                | Inl (e, txt) \<Rightarrow> \<lparr>att_request = None, att_raised = Some e, att_db = d\<rparr>
                | Inr m \<Rightarrow>
                    let req = \<lparr>req_messenger = m, req_group_external_id = grp_external_id g, req_text = ad_text a,
                               req_images = (case ad_images a of
                                               None \<Rightarrow> None
                                             | Some ks \<Rightarrow> if ks = [] then None
                                                 else Some (map (\<lambda>k. get_image_url k s3_url) ks))\<rparr>
                    in case send req of
                         Inl e \<Rightarrow> \<lparr>att_request = Some req, att_raised = Some e, att_db = d\<rparr>
                       | Inr r \<Rightarrow> record_result now job a g acc req r d)
         | _ \<Rightarrow> stopped d (entry ''fail'' (Some ''Missing ad, group, or account'')))"

text \<open>The sender that the three adapters make up.\<close>

definition adapter_send :: "tg_io \<Rightarrow> bridge_reply \<Rightarrow> sender" where
  "adapter_send io reply req =
     (case req_messenger req of
        TelegramUserMessenger _ \<Rightarrow>
          Inr (fst (telegram_send io (req_group_external_id req) (req_text req) (req_images req)))
      | WhatsAppMessenger _ \<Rightarrow> Inr (whatsapp_send reply)
      | MaxMessenger _ \<Rightarrow> Inr (max_send reply))"

section \<open>The branches of an attempt\<close>

lemma add_log_simps [simp]:
  "db_groups (add_log l d) = db_groups d" "db_accounts (add_log l d) = db_accounts d"
  "db_ads (add_log l d) = db_ads d" "db_users (add_log l d) = db_users d"
  "db_send_logs (add_log l d) = db_send_logs d @ [l\<lparr>log_id := next_id log_id (db_send_logs d)\<rparr>]"
  by (simp_all add: add_log_def)

lemma update_group_simps [simp]:
  "db_send_logs (update_group i f d) = db_send_logs d" "db_accounts (update_group i f d) = db_accounts d"
  "db_ads (update_group i f d) = db_ads d" "db_users (update_group i f d) = db_users d"
  "db_groups (update_group i f d) = update_where (\<lambda>g. grp_id g = i) f (db_groups d)"
  by (simp_all add: update_group_def)

definition sendable :: "send_job \<Rightarrow> db \<Rightarrow> (ad \<times> group \<times> account) option" where
  "sendable job d =
     (case (find_row ad_id (job_ad_id job) (db_ads d), find_row grp_id (job_group_id job) (db_groups d),
            find_row acc_id (job_account_id job) (db_accounts d)) of
        (Some a, Some g, Some acc) \<Rightarrow>
          if ad_status a = AD_STATUS_PUBLISHED \<and> acc_status acc = ''active'' then Some (a, g, acc) else None
      | _ \<Rightarrow> None)"

text \<open>The request an attempt owes the messenger \<open>m\<close>.\<close>

definition owed_request :: "string \<Rightarrow> ad \<Rightarrow> group \<Rightarrow> messenger \<Rightarrow> send_request" where
  "owed_request s3_url a g m =
     \<lparr>req_messenger = m, req_group_external_id = grp_external_id g, req_text = ad_text a,
      req_images = (case image_urls s3_url (ad_images a) of Some [] \<Rightarrow> None | us \<Rightarrow> us)\<rparr>"

lemma effective_ad_status_draft [simp]:
  "effective_ad_status a = AD_STATUS_DRAFT \<longleftrightarrow> ad_status a \<noteq> AD_STATUS_PUBLISHED"
  by (simp add: effective_ad_status_def effective_status_value_def status_simps)

text \<open>What the journal says when nothing was sent, the first reason that applies.\<close>

definition stop_verdict :: "send_job \<Rightarrow> ad option \<Rightarrow> group option \<Rightarrow> account option \<Rightarrow> string \<times> string" where
  "stop_verdict job oa og oacc =
     (case (oa, og, oacc) of
        (Some a, Some g, Some acc) \<Rightarrow>
          if ad_status a \<noteq> AD_STATUS_PUBLISHED
          then (''fail'', ''Ad '' @ int_str (job_ad_id job) @ '' is a draft'')
          else (''account_disconnected'', ''Account '' @ int_str (acc_id acc) @ '' is '' @ acc_status acc)
      | _ \<Rightarrow> (''fail'', ''Missing ad, group, or account''))"

lemma send_not_sendable:
  assumes "sendable job d = None"
  shows "send_message_once now s3_url f send job d =
    (let oa = find_row ad_id (job_ad_id job) (db_ads d);
         og = find_row grp_id (job_group_id job) (db_groups d);
         oacc = find_row acc_id (job_account_id job) (db_accounts d);
         (status, err) = stop_verdict job oa og oacc
     in stopped d (log_entry now job oa og oacc status (Some err)))"
  using assms
  by (cases "find_row ad_id (job_ad_id job) (db_ads d)"; cases "find_row grp_id (job_group_id job) (db_groups d)";
      cases "find_row acc_id (job_account_id job) (db_accounts d)")
     (auto simp: send_message_once_def sendable_def Let_def stop_verdict_def split: if_splits)

lemma send_sendable:
  assumes "sendable job d = Some (a, g, acc)"
  shows "send_message_once now s3_url f send job d =
    (case f acc of
       Inl (e, txt) \<Rightarrow>
         if e = ValueError then stopped d (log_entry now job (Some a) (Some g) (Some acc) ''fail'' (Some txt))
         else \<lparr>att_request = None, att_raised = Some e, att_db = d\<rparr>
     | Inr m \<Rightarrow>
         (case send (owed_request s3_url a g m) of
            Inl e \<Rightarrow> \<lparr>att_request = Some (owed_request s3_url a g m), att_raised = Some e, att_db = d\<rparr>
          | Inr r \<Rightarrow> record_result now job a g acc (owed_request s3_url a g m) r d))"
proof -
  have imgs: "(case ad_images a of None \<Rightarrow> None
      | Some ks \<Rightarrow> if ks = [] then None else Some (map (\<lambda>k. get_image_url k s3_url) ks)) =
    (case image_urls s3_url (ad_images a) of Some [] \<Rightarrow> None | us \<Rightarrow> us)"
    by (auto simp: image_urls_def split: option.splits list.splits)
  have "find_row ad_id (job_ad_id job) (db_ads d) = Some a" "find_row grp_id (job_group_id job) (db_groups d) = Some g"
    "find_row acc_id (job_account_id job) (db_accounts d) = Some acc" "ad_status a = AD_STATUS_PUBLISHED"
    "acc_status acc = ''active''"
    using assms by (auto simp: sendable_def split: option.splits if_splits)
  then show ?thesis
    by (auto simp: send_message_once_def Let_def imgs owed_request_def status_simps
        split: sum.splits prod.splits exn.splits)
qed

lemma record_result_simps:
  "att_request (record_result now job a g acc req r d) = Some req"
  "db_send_logs (att_db (record_result now job a g acc req r d)) =
     db_send_logs d @ [(log_entry now job (Some a) (Some g) (Some acc) (if res_ok r then ''ok'' else ''fail'')
       (res_error r))\<lparr>log_id := next_id log_id (db_send_logs d)\<rparr>]"
  by (simp_all add: record_result_def Let_def)

section \<open>Properties\<close>

definition answered :: "sender \<Rightarrow> attempt \<Rightarrow> send_result option" where
  "answered send r =
     (case att_request r of
        None \<Rightarrow> None
      | Some req \<Rightarrow> (case send req of Inl e \<Rightarrow> None | Inr a \<Rightarrow> Some a))"

lemmas attempt_simps = stopped_def log_entry_def answered_def record_result_simps


text \<open>
  C11: only a published advertisement, through an active account, reaches a messenger: an attempt
  that asked a messenger found all three rows in this state, and it asked for the current text of
  the advertisement, to the external id of the group, with the public addresses of its images.
\<close>

theorem only_publishable_reaches_messenger:
  assumes "att_request (send_message_once now s3_url f send job d) = Some req"
  shows "\<exists>a \<in> set (db_ads d). \<exists>g \<in> set (db_groups d). \<exists>acc \<in> set (db_accounts d).
    ad_id a = job_ad_id job \<and> grp_id g = job_group_id job \<and> acc_id acc = job_account_id job \<and>
    ad_status a = AD_STATUS_PUBLISHED \<and> acc_status acc = ''active'' \<and> f acc = Inr (req_messenger req) \<and>
    req_text req = ad_text a \<and> req_group_external_id req = grp_external_id g \<and>
    req_images req = (case ad_images a of None \<Rightarrow> None | Some [] \<Rightarrow> None
                      | Some ks \<Rightarrow> Some (map (\<lambda>k. get_image_url k s3_url) ks))"
proof (cases "sendable job d")
  case None
  with assms show ?thesis
    by (simp add: send_not_sendable [OF None] Let_def stopped_def split: prod.splits)
next
  case (Some x)
  obtain a g acc where x: "x = (a, g, acc)" by (cases x)
  note run = send_sendable [OF Some [unfolded x], where f = f and send = send and now = now and s3_url = s3_url]
  have rows: "a \<in> set (db_ads d)" "ad_id a = job_ad_id job" "g \<in> set (db_groups d)" "grp_id g = job_group_id job"
    "acc \<in> set (db_accounts d)" "acc_id acc = job_account_id job" "ad_status a = AD_STATUS_PUBLISHED" "acc_status acc = ''active''"
    using Some x by (auto simp: sendable_def split: option.splits if_splits dest: find_row_Some)
  obtain m where m: "f acc = Inr m" "req = owed_request s3_url a g m"
    using assms by (auto simp: run stopped_def record_result_simps split: sum.splits if_splits)
  show ?thesis
    using rows m
    by (intro bexI [of _ a] bexI [of _ g] bexI [of _ acc])
       (auto simp: owed_request_def image_urls_def split: option.splits list.splits)
qed

definition sending_db :: db where
  "sending_db = sample_db\<lparr>db_ads := [sample_ad], db_accounts := [sample_account],
     db_groups := [sample_group\<lparr>grp_last_error := Some ''slow mode'', grp_error_at := Some 7\<rparr>,
                   sample_group\<lparr>grp_id := 2, grp_external_id := ''-200''\<rparr>]\<rparr>"

definition sample_job :: send_job where
  "sample_job = \<lparr>job_ad_id = 1, job_group_id = 1, job_account_id = 1, job_schedule_id = Some 1, job_task_id = Some ''t''\<rparr>"

definition healthy_tg :: tg_io where
  "healthy_tg = \<lparr>tg_connect = None, tg_entity = (\<lambda>_. None), tg_dialogs = None, tg_entity_again = (\<lambda>_. None),
     tg_download = (\<lambda>_. None), tg_send_file = None, tg_send_text = None\<rparr>"

theorem only_publishable_reaches_messenger_witness:
  "\<exists>req. att_request (send_message_once 9 ''https://s3'' (create_messenger (\<lambda>_. None))
      (adapter_send healthy_tg (BridgeRaised ''E'' '''')) sample_job sending_db) = Some req \<and>
    (\<exists>a \<in> set (db_ads sending_db). req_text req = ad_text a \<and> ad_status a = AD_STATUS_PUBLISHED)"
proof -
  have "att_request (send_message_once 9 ''https://s3'' (create_messenger (\<lambda>_. None))
      (adapter_send healthy_tg (BridgeRaised ''E'' '''')) sample_job sending_db) \<noteq> None"
    by code_simp
  then obtain req where req: "att_request (send_message_once 9 ''https://s3'' (create_messenger (\<lambda>_. None))
      (adapter_send healthy_tg (BridgeRaised ''E'' '''')) sample_job sending_db) = Some req" by blast
  from only_publishable_reaches_messenger [OF req] req show ?thesis by blast
qed

text \<open>What an answer does to the row of the group it is about.\<close>

definition group_after :: "int \<Rightarrow> send_result \<Rightarrow> group \<Rightarrow> group" where
  "group_after now r g =
     (if res_ok r then (if has_error g then clear_group_error g else g)
      else if res_no_retry r then mark_group_error now (res_error r) g
      else g)"

lemma map_group_after:
  assumes "distinct (map grp_id gs)" "g \<in> set gs" "grp_id g = i"
  shows "map (\<lambda>q. if grp_id q = i then h q else q) gs = update_where (\<lambda>q. grp_id q = i) (\<lambda>_. h g) gs"
proof -
  have "q = g" if "q \<in> set gs" "grp_id q = i" for q
    using assms that by (auto simp: distinct_map dest: inj_onD)
  then show ?thesis by (auto simp: update_where_def)
qed

text \<open>
  what an answer does to the groups: the group of the job is marked with the error when the
  messenger says that retrying is useless, cleared of an older error when the message went out, and
  left alone otherwise; no other group changes; and the attempt ends in an exception exactly for an
  error that may be retried.
\<close>

theorem send_answer_marks_its_group:
  assumes "distinct (map grp_id (db_groups d))"
    and "answered send (send_message_once now s3_url f send job d) = Some r"
  shows "db_groups (att_db (send_message_once now s3_url f send job d)) =
      map (\<lambda>g. if grp_id g = job_group_id job then group_after now r g else g) (db_groups d) \<and>
    (att_raised (send_message_once now s3_url f send job d) = None) = (res_ok r \<or> res_no_retry r)"
proof (cases "sendable job d")
  case None
  with assms(2) show ?thesis
    by (simp add: send_not_sendable [OF None] Let_def stopped_def answered_def split: prod.splits)
next
  case (Some x)
  obtain a g acc where x: "x = (a, g, acc)" by (cases x)
  note run = send_sendable [OF Some [unfolded x], where f = f and send = send and now = now and s3_url = s3_url]
  have g: "g \<in> set (db_groups d)" "grp_id g = job_group_id job"
    using Some x by (auto simp: sendable_def split: option.splits if_splits dest: find_row_Some)
  obtain m where m: "f acc = Inr m" "send (owed_request s3_url a g m) = Inr r"
    using assms(2)
    by (auto simp: run answered_def stopped_def record_result_simps split: sum.splits if_splits)
  have same: "update_where (\<lambda>q. grp_id q = job_group_id job) h (db_groups d) =
      update_where (\<lambda>q. grp_id q = job_group_id job) (\<lambda>_. h g) (db_groups d)" for h
    using map_group_after [OF assms(1) g] by (simp add: update_where_def)
  have idle: "update_where (\<lambda>q. grp_id q = job_group_id job) (\<lambda>_. g) (db_groups d) = db_groups d"
    using same [of "\<lambda>q. q"] by (simp add: update_where_def)
  show ?thesis
    unfolding map_group_after [OF assms(1) g] run m sum.case
    by (auto simp: record_result_def Let_def group_after_def same [of clear_group_error]
        same [of "mark_group_error now (res_error r)"] idle g)
qed

theorem send_answer_marks_its_group_witness:
  "\<exists>r. answered (adapter_send healthy_tg (BridgeRaised ''E'' '''')) (send_message_once 9 ''https://s3''
      (create_messenger (\<lambda>_. None)) (adapter_send healthy_tg (BridgeRaised ''E'' '''')) sample_job sending_db) = Some r \<and>
    db_groups (att_db (send_message_once 9 ''https://s3'' (create_messenger (\<lambda>_. None))
      (adapter_send healthy_tg (BridgeRaised ''E'' '''')) sample_job sending_db)) =
      map (\<lambda>g. if grp_id g = 1 then group_after 9 r g else g) (db_groups sending_db)"
proof -
  have ids: "distinct (map grp_id (db_groups sending_db))" by code_simp
  have "answered (adapter_send healthy_tg (BridgeRaised ''E'' '''')) (send_message_once 9 ''https://s3''
      (create_messenger (\<lambda>_. None)) (adapter_send healthy_tg (BridgeRaised ''E'' '''')) sample_job sending_db) \<noteq> None"
    by code_simp
  then obtain r where r: "answered (adapter_send healthy_tg (BridgeRaised ''E'' '''')) (send_message_once 9 ''https://s3''
      (create_messenger (\<lambda>_. None)) (adapter_send healthy_tg (BridgeRaised ''E'' '''')) sample_job sending_db) = Some r" by blast
  have "job_group_id sample_job = 1" by (simp add: sample_job_def)
  with send_answer_marks_its_group [OF ids r, THEN conjunct1] r show ?thesis by auto
qed

section \<open>The Telegram adapter never raises\<close>

lemma tg_refusal_simps [simp]: "res_ok (tg_refusal e) = False" "res_no_retry (tg_refusal e) = True"
  by (cases e; simp add: refused_def)+

lemma raising_Inr: "raising e = Inr u \<longleftrightarrow> e = None"
  by (cases e) (simp_all add: raising_def)

lemma and_then_Inr: "and_then m f = Inr y \<longleftrightarrow> (\<exists>x. m = Inr x \<and> f x = Inr y)"
  by (cases m) simp_all

lemma post_text_Inr: "post_text io peer body = Inr p \<longleftrightarrow> tg_send_text io = None \<and> p = TextPost peer body"
  by (auto simp: post_text_def and_then_Inr raising_Inr)

lemma resolve_peer_Inr: "resolve_peer io gid = Inr p \<Longrightarrow> py_int gid = Some p"
  by (auto simp: resolve_peer_def and_then_Inr split: option.splits tg_error.splits)

lemma post_message_Inr:
  assumes "post_message io gid body images = Inr p"
  shows "\<exists>peer. py_int gid = Some peer \<and>
    (p = TextPost peer body \<or> (\<exists>urls. images = Some urls \<and> urls \<noteq> [] \<and> p = MediaPost peer urls body))"
proof -
  obtain peer where peer: "resolve_peer io gid = Inr peer"
    "(case images of None \<Rightarrow> post_text io peer body
      | Some urls \<Rightarrow> if urls = [] then post_text io peer body else post_media io peer urls body) = Inr p"
    using assms by (auto simp: post_message_def and_then_Inr)
  then show ?thesis
    by (auto simp: post_text_Inr post_media_def and_then_Inr dest!: resolve_peer_Inr
        split: option.splits if_splits tg_error.splits)
qed

text \<open>
  the Telegram adapter posts at most once: it reports success exactly when one message went out,
  to the numeric id of the group and with the text it was given, with the images or, where the chat
  forbids media, without them; every other outcome, whatever Telethon raised, is a refusal that must
  not be retried.
\<close>

theorem telegram_posts_at_most_once:
  "case telegram_send io gid body images of (r, posts) \<Rightarrow>
     if res_ok r
     then \<exists>peer. py_int gid = Some peer \<and>
       (posts = [TextPost peer body] \<or> (\<exists>urls. images = Some urls \<and> urls \<noteq> [] \<and> posts = [MediaPost peer urls body]))
     else posts = [] \<and> res_no_retry r"
  using post_message_Inr [of io gid body images]
  by (auto simp: telegram_send_def sent_ok_def split: sum.splits prod.splits)

text \<open>
  a Telegram job never ends in an exception: whatever Telethon does while sending, the attempt
  is answered and recorded, so the broker has nothing to retry.
\<close>

theorem telegram_job_never_raises:
  assumes "\<And>acc. acc \<in> set (db_accounts d) \<Longrightarrow> acc_id acc = job_account_id job \<Longrightarrow> acc_type acc = ''tg_user''"
    and "\<And>s e. open_client s = Some e \<Longrightarrow> fst e = ValueError"
  shows "att_raised (send_message_once now s3_url (create_messenger open_client) (adapter_send io reply) job d) = None \<and>
    length (db_send_logs (att_db (send_message_once now s3_url (create_messenger open_client) (adapter_send io reply) job d)))
      = Suc (length (db_send_logs d))"
proof (cases "sendable job d")
  case None
  then show ?thesis by (simp add: send_not_sendable [OF None] Let_def stopped_def split: prod.splits)
next
  case (Some x)
  obtain a g acc where x: "x = (a, g, acc)" by (cases x)
  have "acc_type acc = ''tg_user''"
    using Some x assms(1) [of acc] by (auto simp: sendable_def split: option.splits if_splits dest: find_row_Some)
  then have mk: "create_messenger open_client acc = (case open_client (acc_credentials acc) of
      Some e \<Rightarrow> Inl e | None \<Rightarrow> Inr (TelegramUserMessenger (acc_credentials acc)))"
    by (simp add: create_messenger_def)
  have ans: "\<exists>r. adapter_send io reply (owed_request s3_url a g (TelegramUserMessenger t)) = Inr r \<and> (res_ok r \<or> res_no_retry r)" for t
    by (auto simp: adapter_send_def owed_request_def telegram_send_def sent_ok_def split: sum.splits)
  show ?thesis
  proof (cases "open_client (acc_credentials acc)")
    case None
    obtain r where "adapter_send io reply (owed_request s3_url a g (TelegramUserMessenger (acc_credentials acc))) = Inr r"
      "res_ok r \<or> res_no_retry r" using ans by blast
    then show ?thesis
      by (auto simp: send_sendable [OF Some [unfolded x]] mk None record_result_def Let_def)
  next
    case Some': (Some e)
    with assms(2) [OF Some'] show ?thesis
      by (cases e) (simp add: send_sendable [OF Some [unfolded x]] mk stopped_def)
  qed
qed

theorem telegram_job_never_raises_witness:
  "att_raised (send_message_once 9 ''https://s3'' (create_messenger (\<lambda>s. if s = [] then None else Some (ValueError, ''Not a valid string'')))
     (adapter_send (healthy_tg\<lparr>tg_send_text := Some (TgOther ''flood'')\<rparr>) (BridgeRaised ''E'' '''')) sample_job sending_db) = None \<and>
   adapter_send (healthy_tg\<lparr>tg_send_text := Some (TgOther ''flood'')\<rparr>) (BridgeRaised ''E'' '''')
     (owed_request ''https://s3'' sample_ad sample_group (TelegramUserMessenger '''')) = Inr (refused ''flood'')"
proof
  show "att_raised (send_message_once 9 ''https://s3'' (create_messenger (\<lambda>s. if s = [] then None else Some (ValueError, ''Not a valid string'')))
     (adapter_send (healthy_tg\<lparr>tg_send_text := Some (TgOther ''flood'')\<rparr>) (BridgeRaised ''E'' '''')) sample_job sending_db) = None"
    by (rule telegram_job_never_raises [THEN conjunct1])
       (auto simp: sending_db_def sample_account_def split: if_splits)
  show "adapter_send (healthy_tg\<lparr>tg_send_text := Some (TgOther ''flood'')\<rparr>) (BridgeRaised ''E'' '''')
     (owed_request ''https://s3'' sample_ad sample_group (TelegramUserMessenger '''')) = Inr (refused ''flood'')"
    by code_simp
qed

end
