(* ===== verification/Delivery.thy ===== *)
theory Delivery
  imports Sending
begin

text \<open>
  The tasks around the sender, \<open>app/worker/tasks.py\<close>: handing the tasks of a tick to the
  channels, the repeat of one send, and writing the results of the bridges to the journal. The
  broker's queue and the Redis queues are the outbox; a pipeline is applied whole or not at all, and
  each call to the broker or to Redis may raise. The ids of the payloads come from a supply
  (\<open>uuid4\<close>).
\<close>

section \<open>The outbox\<close>

record queue_payload =
  pl_task_id :: string
  pl_task :: dispatch_task
  pl_created_at :: int

record channel =
  ch_queue :: "int \<Rightarrow> queue_payload list"
  ch_active :: "int set"

record outbox =
  ob_telegram :: "(int \<times> int \<times> int \<times> int option) list"
  ob_wa :: channel
  ob_max :: channel

datatype redis_cmd = RPush int queue_payload | SAdd int

fun apply_cmd :: "redis_cmd \<Rightarrow> channel \<Rightarrow> channel" where
  "apply_cmd (RPush a p) ch = ch\<lparr>ch_queue := (ch_queue ch)(a := ch_queue ch a @ [p])\<rparr>"
| "apply_cmd (SAdd a) ch = ch\<lparr>ch_active := insert a (ch_active ch)\<rparr>"

text \<open>What the transports do in one call of the dispatcher.\<close>

record transport =
  tr_celery :: "nat \<Rightarrow> exn option"
  tr_wa :: "exn option"
  tr_max :: "exn option"
  tr_uuid :: "nat \<Rightarrow> string"

section \<open>Dispatch\<close>

text \<open>\<open>setdefault(account_id, []).append(task)\<close>: accounts in the order of their first task.\<close>

fun add_to_account :: "dispatch_task \<Rightarrow> (int \<times> dispatch_task list) list \<Rightarrow> (int \<times> dispatch_task list) list" where
  "add_to_account t [] = [(task_account_id t, [t])]"
| "add_to_account t ((a, ts) # rest) =
     (if a = task_account_id t then (a, ts @ [t]) # rest else (a, ts) # add_to_account t rest)"

definition by_account :: "dispatch_task list \<Rightarrow> (int \<times> dispatch_task list) list" where
  "by_account ts = fold add_to_account ts []"

record buckets =
  bk_tg :: "dispatch_task list"
  bk_wa :: "(int \<times> dispatch_task list) list"
  bk_max :: "(int \<times> dispatch_task list) list"
  bk_unrouted :: "dispatch_task list"

definition route :: "dispatch_task \<Rightarrow> buckets \<Rightarrow> buckets" where
  "route t b =
     (if task_type t = ''tg_user'' then b\<lparr>bk_tg := bk_tg b @ [t]\<rparr>
      else if task_type t = ''wa'' then b\<lparr>bk_wa := add_to_account t (bk_wa b)\<rparr>
      else if task_type t = ''max'' then b\<lparr>bk_max := add_to_account t (bk_max b)\<rparr>
      else b\<lparr>bk_unrouted := bk_unrouted b @ [t]\<rparr>)"

fun celery_send ::
  "(nat \<Rightarrow> exn option) \<Rightarrow> nat \<Rightarrow> dispatch_task list \<Rightarrow> outbox \<Rightarrow> exn option \<times> outbox" where
  "celery_send c n [] ob = (None, ob)"
| "celery_send c n (t # ts) ob =
     (case c n of
        Some e \<Rightarrow> (Some e, ob)
      | None \<Rightarrow> celery_send c (Suc n) ts
          (ob\<lparr>ob_telegram := ob_telegram ob @
            [(task_ad_id t, task_group_id t, task_account_id t, task_schedule_id t)]\<rparr>))"

fun account_cmds :: "(nat \<Rightarrow> string) \<Rightarrow> int \<Rightarrow> nat \<Rightarrow> int \<Rightarrow> dispatch_task list \<Rightarrow> redis_cmd list" where
  "account_cmds uuid now n a [] = []"
| "account_cmds uuid now n a (t # ts) =
     RPush a \<lparr>pl_task_id = uuid n, pl_task = t, pl_created_at = now\<rparr> # account_cmds uuid now (Suc n) a ts"

fun pipeline :: "(nat \<Rightarrow> string) \<Rightarrow> int \<Rightarrow> nat \<Rightarrow> (int \<times> dispatch_task list) list \<Rightarrow> redis_cmd list" where
  "pipeline uuid now n [] = []"
| "pipeline uuid now n ((a, ts) # rest) =
     account_cmds uuid now n a ts @ SAdd a # pipeline uuid now (n + length ts) rest"

definition push_all ::
  "exn option \<Rightarrow> (nat \<Rightarrow> string) \<Rightarrow> int \<Rightarrow> nat \<Rightarrow> (int \<times> dispatch_task list) list \<Rightarrow> channel \<Rightarrow> exn + channel" where
  "push_all failure uuid now n accounts ch =
     (if accounts = [] then Inr ch
      else case failure of
             Some e \<Rightarrow> Inl e
           | None \<Rightarrow> Inr (fold apply_cmd (pipeline uuid now n accounts) ch))"

definition task_count :: "(int \<times> dispatch_task list) list \<Rightarrow> nat" where
  "task_count accounts = sum_list (map (\<lambda>(a, ts). length ts) accounts)"

definition no_buckets :: buckets where
  "no_buckets = \<lparr>bk_tg = [], bk_wa = [], bk_max = [], bk_unrouted = []\<rparr>"

definition dispatch_send_tasks ::
  "transport \<Rightarrow> int \<Rightarrow> dispatch_task list \<Rightarrow> outbox \<Rightarrow> (exn + nat) \<times> outbox" where
  "dispatch_send_tasks tr now tasks ob =
     (let b = fold route tasks no_buckets in
      case celery_send (tr_celery tr) 0 (bk_tg b) ob of
        (Some e, ob1) \<Rightarrow> (Inl e, ob1)
      | (None, ob1) \<Rightarrow>
          (case push_all (tr_wa tr) (tr_uuid tr) now 0 (bk_wa b) (ob_wa ob1) of
             Inl e \<Rightarrow> (Inl e, ob1)
           | Inr wa \<Rightarrow>
               let ob2 = ob1\<lparr>ob_wa := wa\<rparr> in
               (case push_all (tr_max tr) (tr_uuid tr) now (task_count (bk_wa b)) (bk_max b) (ob_max ob2) of
                  Inl e \<Rightarrow> (Inl e, ob2)
                | Inr mx \<Rightarrow>
                    (Inr (length (bk_tg b) + task_count (bk_wa b) + task_count (bk_max b)), ob2\<lparr>ob_max := mx\<rparr>))))"

text \<open>The whole tick. The database is committed before the first task is handed over.\<close>

definition check_schedules_async ::
  "tzdb \<Rightarrow> transport \<Rightarrow> int \<Rightarrow> string \<Rightarrow> 'c check_limit \<Rightarrow> db \<Rightarrow> 'c \<Rightarrow> outbox \<Rightarrow> exn option \<times> db \<times> 'c \<times> outbox" where
  "check_schedules_async tzdb tr now s3_url check_limit d c ob =
     (case collect_due_schedules tzdb now s3_url check_limit d c of
        Inl e \<Rightarrow> (Some e, d, c, ob)
      | Inr (tasks, d', c') \<Rightarrow>
          if tasks = [] then (None, d', c', ob)
          else (case dispatch_send_tasks tr now tasks ob of
                  (Inl e, ob') \<Rightarrow> (Some e, d', c', ob')
                | (Inr n, ob') \<Rightarrow> (None, d', c', ob')))"

section \<open>The repeat of one send\<close>

datatype retry_outcome =
    RetryRejected
  | RetryStopped string
  | RetryNotDispatched
  | RetryDispatched

definition nonzero_id :: "int option \<Rightarrow> int option" where
  "nonzero_id i = (case i of Some n \<Rightarrow> if n = 0 then None else Some n | None \<Rightarrow> None)"

text \<open>The three rows of the journal entry; the account is the one of the group.\<close>

definition retry_rows :: "send_log \<Rightarrow> db \<Rightarrow> (ad \<times> group \<times> account) option" where
  "retry_rows l d =
     (case Option.bind (nonzero_id (log_group_id l)) (\<lambda>i. find_row grp_id i (db_groups d)) of
        None \<Rightarrow> None
      | Some g \<Rightarrow>
          (case Option.bind (nonzero_id (log_ad_id l)) (\<lambda>i. find_row ad_id i (db_ads d)) of
             None \<Rightarrow> None
           | Some a \<Rightarrow>
               (case find_row acc_id (grp_account_id g) (db_accounts d) of
                  None \<Rightarrow> None
                | Some acc \<Rightarrow> Some (a, g, acc))))"

definition retry_send ::
  "transport \<Rightarrow> int \<Rightarrow> string \<Rightarrow> 'c check_limit \<Rightarrow> int \<Rightarrow> int \<Rightarrow> db \<Rightarrow> 'c \<Rightarrow> outbox \<Rightarrow>
     (exn + retry_outcome) \<times> 'c \<times> outbox" where
  "retry_send tr now s3_url check_limit lid uid d c ob =
     (case find_row log_id lid (db_send_logs d) of
        None \<Rightarrow> (Inr RetryRejected, c, ob)
      | Some l \<Rightarrow>
          if log_user_id l \<noteq> uid then (Inr RetryRejected, c, ob)
          else
            (case retry_rows l d of
               None \<Rightarrow> (Inr (RetryStopped ''missing_entity''), c, ob)
             | Some (a, g, acc) \<Rightarrow>
                 if acc_status acc \<noteq> ''active'' then (Inr (RetryStopped ''account_not_active''), c, ob)
                 else if effective_ad_status a = AD_STATUS_DRAFT then (Inr (RetryStopped ''ad_is_draft''), c, ob)
                 else if \<not> grp_is_active g then (Inr (RetryStopped ''group_inactive''), c, ob)
                 else
                   let (v, c') = check_limit uid c in
                   if \<not> fst v then (Inr (RetryStopped ''access_closed''), c', ob)
                   else
                     let task = build_dispatch_task s3_url a g acc (log_schedule_id l) in
                     (case dispatch_send_tasks tr now [task] ob of
                        (Inl e, ob') \<Rightarrow> (Inl e, c', ob')
                      | (Inr n, ob') \<Rightarrow> (Inr (if n = 0 then RetryNotDispatched else RetryDispatched), c', ob'))))"

section \<open>The results of the bridges\<close>

text \<open>
  A member of a result that may be missing is an option; \<open>user_id\<close> may be missing or null.
\<close>

record bridge_result =
  br_user_id :: "int option option"
  br_status :: "string option"
  br_schedule_id :: "int option"
  br_ad_id :: "int option"
  br_group_id :: "int option"
  br_task_id :: "string option"
  br_error_message :: "string option"
  br_ad_title :: "string option"
  br_ad_text :: "string option"
  br_ad_images :: "string list option"
  br_group_name :: "string option"
  br_no_retry :: bool

text \<open>A row waiting for the commit; the column \<open>user_id\<close> refuses null at the flush.\<close>

record results_session =
  rs_db :: db
  rs_null_user :: bool

definition result_images :: "db \<Rightarrow> bridge_result \<Rightarrow> string list option" where
  "result_images d r =
     (case Option.bind (nonzero_id (br_ad_id r)) (\<lambda>i. find_row ad_id i (db_ads d)) of
        None \<Rightarrow> br_ad_images r
      | Some a \<Rightarrow> (case ad_images a of None \<Rightarrow> br_ad_images r | Some [] \<Rightarrow> br_ad_images r | Some ks \<Rightarrow> Some ks))"

definition result_group :: "int \<Rightarrow> bridge_result \<Rightarrow> string \<Rightarrow> db \<Rightarrow> db" where
  "result_group now r status d =
     (case nonzero_id (br_group_id r) of
        None \<Rightarrow> d
      | Some i \<Rightarrow>
          if br_no_retry r then update_group i (mark_group_error now (br_error_message r)) d
          else if status = ''ok'' then update_group i clear_group_error d
          else d)"

definition process_result :: "int \<Rightarrow> string \<Rightarrow> bridge_result \<Rightarrow> results_session \<Rightarrow> results_session" where
  "process_result now messenger r s =
     (case (br_user_id r, br_status r) of
        (Some uid, Some status) \<Rightarrow>
          let d = rs_db s;
              entry = \<lparr>log_id = 0, log_user_id = (case uid of None \<Rightarrow> 0 | Some u \<Rightarrow> u),
                log_schedule_id = br_schedule_id r, log_ad_id = br_ad_id r, log_group_id = br_group_id r,
                log_ad_title = br_ad_title r, log_ad_text = br_ad_text r, log_ad_images = result_images d r,
                log_group_name = br_group_name r, log_messenger_type = Some messenger, log_task_id = br_task_id r,
                log_status = status, log_error_message = br_error_message r, log_sent_at = now\<rparr>
          in \<lparr>rs_db = result_group now r status (add_log entry d), rs_null_user = (rs_null_user s \<or> uid = None)\<rparr>
      | _ \<Rightarrow> s)"

definition process_results :: "int \<Rightarrow> string \<Rightarrow> bridge_result list \<Rightarrow> db \<Rightarrow> exn + db" where
  "process_results now messenger results d =
     (let s = fold (process_result now messenger) results \<lparr>rs_db = d, rs_null_user = False\<rparr>
      in if rs_null_user s then Inl IntegrityError else Inr (rs_db s))"

text \<open>
  \<open>process_wa_results\<close> and \<open>process_max_results\<close>: at most a hundred entries are taken
  off the queue, an entry that is not JSON (\<open>None\<close>) is dropped, an empty one ends the batch,
  and every exception is logged and swallowed.
\<close>

datatype raw_result = RawEmpty | RawGarbage | RawResult bridge_result

fun take_batch :: "nat \<Rightarrow> raw_result list \<Rightarrow> bridge_result list \<times> raw_result list" where
  "take_batch 0 q = ([], q)"
| "take_batch (Suc n) [] = ([], [])"
| "take_batch (Suc n) (RawEmpty # q) = ([], q)"
| "take_batch (Suc n) (RawGarbage # q) = take_batch n q"
| "take_batch (Suc n) (RawResult r # q) = (let (rs, q') = take_batch n q in (r # rs, q'))"

definition process_queue :: "int \<Rightarrow> string \<Rightarrow> raw_result list \<Rightarrow> db \<Rightarrow> raw_result list \<times> db" where
  "process_queue now messenger q d =
     (let (rs, q') = take_batch 100 q in
      if rs = [] then (q', d)
      else (q', case process_results now messenger rs d of Inl e \<Rightarrow> d | Inr d' \<Rightarrow> d'))"

section \<open>What the buckets hold\<close>

definition tasks_of :: "int \<Rightarrow> (int \<times> dispatch_task list) list \<Rightarrow> dispatch_task list" where
  "tasks_of a accounts = concat (map snd (filter (\<lambda>e. fst e = a) accounts))"

lemma tasks_of_simps [simp]:
  "tasks_of a [] = []"
  "tasks_of a ((b, ts) # rest) = (if b = a then ts @ tasks_of a rest else tasks_of a rest)"
  by (simp_all add: tasks_of_def)

lemma tasks_of_notin: "a \<notin> fst ` set accounts \<Longrightarrow> tasks_of a accounts = []"
  by (induction accounts) auto

lemma add_to_account_keys:
  "fst ` set (add_to_account t accounts) = insert (task_account_id t) (fst ` set accounts)"
  "distinct (map fst accounts) \<Longrightarrow> distinct (map fst (add_to_account t accounts))"
proof -
  show keys: "fst ` set (add_to_account t accounts) = insert (task_account_id t) (fst ` set accounts)" for accounts
  proof (induction accounts)
    case (Cons e rest)
    then show ?case by (cases e) (simp add: insert_commute)
  qed simp
  show "distinct (map fst accounts) \<Longrightarrow> distinct (map fst (add_to_account t accounts))"
  proof (induction accounts)
    case (Cons e rest)
    obtain a ts where e: "e = (a, ts)" by (cases e)
    with Cons keys [of rest] show ?case by (auto simp flip: set_map)
  qed simp
qed

lemma tasks_of_add:
  "distinct (map fst accounts) \<Longrightarrow>
     tasks_of a (add_to_account t accounts) = tasks_of a accounts @ (if task_account_id t = a then [t] else [])"
  by (induction accounts) (auto simp: tasks_of_notin)

lemma task_count_add: "task_count (add_to_account t accounts) = Suc (task_count accounts)"
  by (induction accounts) (auto simp: task_count_def)

lemma fold_add_to_account:
  assumes "distinct (map fst accounts)"
  shows "distinct (map fst (fold add_to_account ts accounts)) \<and>
    tasks_of a (fold add_to_account ts accounts) = tasks_of a accounts @ filter (\<lambda>t. task_account_id t = a) ts \<and>
    fst ` set (fold add_to_account ts accounts) = fst ` set accounts \<union> task_account_id ` set ts \<and>
    task_count (fold add_to_account ts accounts) = task_count accounts + length ts"
  using assms
proof (induction ts arbitrary: accounts)
  case (Cons t ts)
  from Cons.IH [OF add_to_account_keys(2) [OF Cons.prems]] Cons.prems show ?case
    by (auto simp: tasks_of_add add_to_account_keys(1) task_count_add)
qed simp

lemma by_account_spec:
  "tasks_of a (by_account ts) = filter (\<lambda>t. task_account_id t = a) ts"
  "fst ` set (by_account ts) = task_account_id ` set ts"
  "task_count (by_account ts) = length ts"
  using fold_add_to_account [of "[]" ts] by (simp_all add: by_account_def task_count_def)

lemma fold_route:
  "fold route ts b =
     \<lparr>bk_tg = bk_tg b @ filter (\<lambda>t. task_type t = ''tg_user'') ts,
      bk_wa = fold add_to_account (filter (\<lambda>t. task_type t = ''wa'') ts) (bk_wa b),
      bk_max = fold add_to_account (filter (\<lambda>t. task_type t = ''max'') ts) (bk_max b),
      bk_unrouted = bk_unrouted b @ filter (\<lambda>t. task_type t \<notin> {''tg_user'', ''wa'', ''max''}) ts\<rparr>"
  by (induction ts arbitrary: b) (simp_all add: route_def)

section \<open>What a pipeline leaves in the queues\<close>

lemma fold_account_cmds:
  "map pl_task (ch_queue (fold apply_cmd (account_cmds uuid now n b ts) ch) a) =
     map pl_task (ch_queue ch a) @ (if a = b then ts else []) \<and>
   ch_active (fold apply_cmd (account_cmds uuid now n b ts) ch) = ch_active ch"
  by (induction ts arbitrary: n ch) auto

lemma fold_pipeline:
  "map pl_task (ch_queue (fold apply_cmd (pipeline uuid now n accounts) ch) a) =
     map pl_task (ch_queue ch a) @ tasks_of a accounts \<and>
   ch_active (fold apply_cmd (pipeline uuid now n accounts) ch) = ch_active ch \<union> fst ` set accounts"
proof (induction accounts arbitrary: n ch)
  case (Cons e rest)
  obtain b ts where e: "e = (b, ts)" by (cases e)
  show ?case
    using Cons fold_account_cmds [of uuid now n b ts ch a] by (simp add: e)
qed simp

definition channel_gains :: "channel \<Rightarrow> dispatch_task list \<Rightarrow> channel \<Rightarrow> bool" where
  "channel_gains ch ts ch' \<longleftrightarrow>
     (\<forall>a. map pl_task (ch_queue ch' a) = map pl_task (ch_queue ch a) @ filter (\<lambda>t. task_account_id t = a) ts) \<and>
     ch_active ch' = ch_active ch \<union> task_account_id ` set ts"

lemma channel_gains_refl [simp]: "channel_gains ch [] ch"
  by (simp add: channel_gains_def)

lemma push_all_gains:
  "push_all failure uuid now n (by_account ts) ch = Inr ch' \<Longrightarrow> channel_gains ch ts ch'"
proof (cases "by_account ts = []")
  case True
  then have "ts = []" using by_account_spec(2) [of ts] by (cases ts) auto
  moreover assume "push_all failure uuid now n (by_account ts) ch = Inr ch'"
  ultimately show ?thesis using True by (simp add: push_all_def)
next
  case False
  assume "push_all failure uuid now n (by_account ts) ch = Inr ch'"
  then have "ch' = fold apply_cmd (pipeline uuid now n (by_account ts)) ch"
    using False by (simp add: push_all_def split: option.splits)
  then show ?thesis
    using fold_pipeline [of uuid now n "by_account ts" ch] by (simp add: channel_gains_def by_account_spec)
qed

definition celery_args :: "dispatch_task \<Rightarrow> int \<times> int \<times> int \<times> int option" where
  "celery_args t = (task_ad_id t, task_group_id t, task_account_id t, task_schedule_id t)"

lemma celery_send_spec:
  "celery_send c n ts ob = (err, ob') \<Longrightarrow>
     \<exists>sent. ob' = ob\<lparr>ob_telegram := ob_telegram ob @ map celery_args sent\<rparr> \<and>
       (case err of None \<Rightarrow> sent = ts | Some e \<Rightarrow> \<exists>rest. ts = sent @ rest \<and> rest \<noteq> [])"
proof (induction c n ts ob rule: celery_send.induct)
  case (1 c n ob)
  then show ?case by simp
next
  case (2 c n t ts ob)
  show ?case
  proof (cases "c n")
    case (Some e)
    then have "err = Some e \<and> ob' = ob" using "2.prems" by simp
    then show ?thesis by (intro exI [of _ "[]"]) simp
  next
    case None
    have run: "celery_send c (Suc n) ts (ob\<lparr>ob_telegram := ob_telegram ob @ [celery_args t]\<rparr>) = (err, ob')"
      using "2.prems" None by (simp add: celery_args_def)
    obtain sent where s: "ob' = ob\<lparr>ob_telegram := (ob_telegram ob @ [celery_args t]) @ map celery_args sent\<rparr>"
      "case err of None \<Rightarrow> sent = ts | Some e \<Rightarrow> \<exists>rest. ts = sent @ rest \<and> rest \<noteq> []"
      using "2.IH" [OF None run [unfolded celery_args_def]] by (force simp: celery_args_def)
    then show ?thesis by (intro exI [of _ "t # sent"]) (auto split: option.splits)
  qed
qed

definition of_type :: "string \<Rightarrow> dispatch_task list \<Rightarrow> dispatch_task list" where
  "of_type ty ts = filter (\<lambda>t. task_type t = ty) ts"

text \<open>The outbox after a dispatch that met no failure, and how many tasks it took.\<close>

definition outbox_gains :: "outbox \<Rightarrow> dispatch_task list \<Rightarrow> outbox \<Rightarrow> bool" where
  "outbox_gains ob ts ob' \<longleftrightarrow>
     ob_telegram ob' = ob_telegram ob @ map celery_args (of_type ''tg_user'' ts) \<and>
     channel_gains (ob_wa ob) (of_type ''wa'' ts) (ob_wa ob') \<and>
     channel_gains (ob_max ob) (of_type ''max'' ts) (ob_max ob')"

lemma fold_route_buckets:
  "fold route ts no_buckets =
     \<lparr>bk_tg = of_type ''tg_user'' ts, bk_wa = by_account (of_type ''wa'' ts), bk_max = by_account (of_type ''max'' ts),
      bk_unrouted = filter (\<lambda>t. task_type t \<notin> {''tg_user'', ''wa'', ''max''}) ts\<rparr>"
  by (simp add: fold_route no_buckets_def of_type_def by_account_def)

lemma dispatch_gains:
  assumes "dispatch_send_tasks tr now ts ob = (Inr n, ob')"
  shows "outbox_gains ob ts ob' \<and>
    n = length (of_type ''tg_user'' ts) + length (of_type ''wa'' ts) + length (of_type ''max'' ts)"
proof -
  obtain ob1 where ob1: "celery_send (tr_celery tr) 0 (of_type ''tg_user'' ts) ob = (None, ob1)"
    using assms
    by (cases "celery_send (tr_celery tr) 0 (of_type ''tg_user'' ts) ob")
       (auto simp: dispatch_send_tasks_def fold_route_buckets Let_def split: option.splits)
  then have tg: "ob1 = ob\<lparr>ob_telegram := ob_telegram ob @ map celery_args (of_type ''tg_user'' ts)\<rparr>"
    using celery_send_spec [OF ob1] by auto
  from assms ob1 obtain wa mx where
    "push_all (tr_wa tr) (tr_uuid tr) now 0 (by_account (of_type ''wa'' ts)) (ob_wa ob1) = Inr wa"
    "push_all (tr_max tr) (tr_uuid tr) now (task_count (by_account (of_type ''wa'' ts))) (by_account (of_type ''max'' ts))
       (ob_max ob1) = Inr mx"
    "ob' = ob1\<lparr>ob_wa := wa, ob_max := mx\<rparr>"
    "n = length (of_type ''tg_user'' ts) + task_count (by_account (of_type ''wa'' ts)) + task_count (by_account (of_type ''max'' ts))"
    by (auto simp: dispatch_send_tasks_def fold_route_buckets Let_def split: sum.splits)
  with tg push_all_gains show ?thesis
    unfolding outbox_gains_def by (force simp: by_account_spec)
qed

lemma of_type_partition:
  "length (of_type ''tg_user'' ts) + length (of_type ''wa'' ts) + length (of_type ''max'' ts) =
     length (filter (\<lambda>t. task_type t \<in> {''tg_user'', ''wa'', ''max''}) ts)"
  by (induction ts) (auto simp: of_type_def)

section \<open>Properties\<close>

text \<open>
  a dispatch that meets no failure hands over every task of a known channel exactly once, in
  order: Telegram tasks to the broker, tasks of the two bridges to the queue of their account, which
  becomes active; the number it returns is the number of those tasks, so a task of an unknown
  channel, which goes nowhere, is seen by the caller.
\<close>

theorem dispatch_routes_every_task:
  assumes "dispatch_send_tasks tr now ts ob = (Inr n, ob')"
  shows "ob_telegram ob' = ob_telegram ob @ map celery_args (filter (\<lambda>t. task_type t = ''tg_user'') ts) \<and>
    (\<forall>a. map pl_task (ch_queue (ob_wa ob') a) = map pl_task (ch_queue (ob_wa ob) a) @
       filter (\<lambda>t. task_type t = ''wa'' \<and> task_account_id t = a) ts) \<and>
    (\<forall>a. map pl_task (ch_queue (ob_max ob') a) = map pl_task (ch_queue (ob_max ob) a) @
       filter (\<lambda>t. task_type t = ''max'' \<and> task_account_id t = a) ts) \<and>
    ch_active (ob_wa ob') = ch_active (ob_wa ob) \<union> {task_account_id t |t. t \<in> set ts \<and> task_type t = ''wa''} \<and>
    ch_active (ob_max ob') = ch_active (ob_max ob) \<union> {task_account_id t |t. t \<in> set ts \<and> task_type t = ''max''} \<and>
    n = length (filter (\<lambda>t. task_type t \<in> {''tg_user'', ''wa'', ''max''}) ts)"
  using dispatch_gains [OF assms] of_type_partition [of ts]
  by (auto simp: outbox_gains_def channel_gains_def of_type_def conj_commute)

definition healthy_transport :: transport where
  "healthy_transport = \<lparr>tr_celery = (\<lambda>_. None), tr_wa = None, tr_max = None, tr_uuid = (\<lambda>n. int_str (int n))\<rparr>"

definition empty_outbox :: outbox where
  "empty_outbox = \<lparr>ob_telegram = [], ob_wa = \<lparr>ch_queue = (\<lambda>_. []), ch_active = {}\<rparr>,
     ob_max = \<lparr>ch_queue = (\<lambda>_. []), ch_active = {}\<rparr>\<rparr>"

definition sample_task :: "string \<Rightarrow> int \<Rightarrow> dispatch_task" where
  "sample_task ty a = build_dispatch_task ''https://s3'' sample_ad sample_group (sample_account\<lparr>acc_type := ty, acc_id := a\<rparr>) None"

definition sample_tasks :: "dispatch_task list" where
  "sample_tasks = [sample_task ''wa'' 5, sample_task ''tg_user'' 1, sample_task ''wa'' 6, sample_task ''vk'' 2, sample_task ''wa'' 5]"

theorem dispatch_routes_every_task_witness:
  "\<exists>ob'. dispatch_send_tasks healthy_transport 9 sample_tasks empty_outbox = (Inr 4, ob') \<and>
    map pl_task (ch_queue (ob_wa ob') 5) = [sample_task ''wa'' 5, sample_task ''wa'' 5] \<and>
    ob_telegram ob' = [(1, 1, 1, None)]"
proof -
  have "fst (dispatch_send_tasks healthy_transport 9 sample_tasks empty_outbox) = Inr 4" by code_simp
  then obtain ob' where run: "dispatch_send_tasks healthy_transport 9 sample_tasks empty_outbox = (Inr 4, ob')"
    by (cases "dispatch_send_tasks healthy_transport 9 sample_tasks empty_outbox") simp
  have "filter (\<lambda>t. task_type t = ''wa'' \<and> task_account_id t = 5) sample_tasks = [sample_task ''wa'' 5, sample_task ''wa'' 5]"
    "map celery_args (filter (\<lambda>t. task_type t = ''tg_user'') sample_tasks) = [(1, 1, 1, None)]"
    by code_simp+
  with dispatch_routes_every_task [OF run] run show ?thesis by (simp add: empty_outbox_def)
qed

text \<open>
  C9: a whole tick that ends without an exception puts into the queues exactly what the due
  schedules owe under the verdicts at its start: no owed task of a known channel is lost, none is
  doubled and none is added.
\<close>

theorem tick_delivers_what_is_owed:
  assumes "check_schedules_async tzdb tr now s3_url (cached_check io now d) d c ob = (None, d', c', ob')"
  shows "outbox_gains ob (concat (map (owed_tasks s3_url d
      (send_verdict d (\<lambda>u. fst (check_access_cached io now d u ''send'' c)))) (due_schedules now d))) ob'"
proof -
  obtain tasks where run: "collect_due_schedules tzdb now s3_url (cached_check io now d) d c = Inr (tasks, d', c')"
    and ob: "if tasks = [] then ob' = ob else \<exists>n. dispatch_send_tasks tr now tasks ob = (Inr n, ob')"
    using assms by (auto simp: check_schedules_async_def split: sum.splits prod.splits if_splits)
  have "cached_gate.answers io now d c = (\<lambda>u. fst (check_access_cached io now d u ''send'' c))"
    by (rule ext) (simp add: cached_gate.answers_def cached_check_def)
  with cached_gate.collect_owed [OF run] have "tasks = concat (map (owed_tasks s3_url d
      (send_verdict d (\<lambda>u. fst (check_access_cached io now d u ''send'' c)))) (due_schedules now d))" by simp
  moreover have "outbox_gains ob tasks ob'"
    using ob dispatch_gains [of tr now tasks ob] by (auto simp: outbox_gains_def of_type_def split: if_splits)
  ultimately show ?thesis by simp
qed

text \<open>
  whatever fails in a tick, no schedule fires twice for it: either nothing at all happened,
  neither in the database nor in a queue, or the due schedules have moved to their next slots
  before the first task was handed over, so that asking again at the same moment finds nothing. A
  failure of the broker or of Redis after the commit loses tasks, it never repeats them.
\<close>

theorem tick_never_repeats:
  assumes "check_schedules_async tzdb tr now s3_url check d c ob = (err, d', c', ob')"
    and "distinct (map sch_id (db_schedules d))" "\<And>name z. tzdb name = Inr z \<Longrightarrow> \<exists>off. z = fixed_zone off"
  shows "err \<noteq> None \<and> d' = d \<and> c' = c \<and> ob' = ob \<or>
    due_schedules now d' = [] \<and> check_schedules_async tzdb tr' now s3_url check d' c' ob' = (None, d', c', ob')"
proof (cases "collect_due_schedules tzdb now s3_url check d c")
  case (Inl e)
  with assms(1) show ?thesis by (auto simp: check_schedules_async_def)
next
  case (Inr r)
  with assms(1) obtain tasks where "collect_due_schedules tzdb now s3_url check d c = Inr (tasks, d', c')"
    by (cases r) (auto simp: check_schedules_async_def split: sum.splits prod.splits if_splits)
  from collect_nothing_due [OF this assms(2,3)] show ?thesis
    by (simp add: check_schedules_async_def collect_due_schedules_def)
qed

lemma due_db_facts:
  "distinct (map sch_id (db_schedules due_db))" "due_schedules sample_now due_db \<noteq> []"
  "sample_tzdb name = Inr z \<Longrightarrow> \<exists>off. z = fixed_zone off"
  by code_simp (code_simp, auto simp: sample_tzdb_def split: if_splits)

text \<open>The tick at the sample rows, with whatever transports.\<close>

lemma due_db_check:
  "\<exists>tasks d'. length tasks = 1 \<and>
     check_schedules_async sample_tzdb tr sample_now ''https://s3'' (cached_check no_redis sample_now due_db) due_db (\<lambda>_. None) ob =
       (case dispatch_send_tasks tr sample_now tasks ob of
          (Inl e, ob') \<Rightarrow> (Some e, d', \<lambda>_. None, ob') | (Inr n, ob') \<Rightarrow> (None, d', \<lambda>_. None, ob'))"
proof -
  obtain tasks d' where run: "collect_due_schedules sample_tzdb sample_now ''https://s3''
      (cached_check no_redis sample_now due_db) due_db (\<lambda>_. None) = Inr (tasks, d', \<lambda>_. None)" "length tasks = 1"
    using due_db_tick by blast
  then have "tasks \<noteq> []" by auto
  with run show ?thesis by (intro exI [of _ tasks] exI [of _ d']) (simp add: check_schedules_async_def)
qed

lemma healthy_dispatch: "\<exists>n ob'. dispatch_send_tasks healthy_transport now ts ob = (Inr n, ob')"
proof -
  have "\<exists>ob'. celery_send (\<lambda>_. None) n ts ob = (None, ob')" for n ts ob
    by (induction ts arbitrary: n ob) auto
  then obtain ob1 where "celery_send (\<lambda>_. None) 0 (of_type ''tg_user'' ts) ob = (None, ob1)" by blast
  then show ?thesis
    by (simp add: dispatch_send_tasks_def healthy_transport_def push_all_def fold_route_buckets Let_def)
qed

lemma due_db_healthy_tick:
  "\<exists>d' ob'. check_schedules_async sample_tzdb healthy_transport sample_now ''https://s3''
      (cached_check no_redis sample_now due_db) due_db (\<lambda>_. None) empty_outbox = (None, d', \<lambda>_. None, ob')"
proof -
  obtain tasks d' where run: "check_schedules_async sample_tzdb healthy_transport sample_now ''https://s3''
      (cached_check no_redis sample_now due_db) due_db (\<lambda>_. None) empty_outbox =
    (case dispatch_send_tasks healthy_transport sample_now tasks empty_outbox of
       (Inl e, ob') \<Rightarrow> (Some e, d', \<lambda>_. None, ob') | (Inr n, ob') \<Rightarrow> (None, d', \<lambda>_. None, ob'))"
    using due_db_check by blast
  obtain n ob' where "dispatch_send_tasks healthy_transport sample_now tasks empty_outbox = (Inr n, ob')"
    using healthy_dispatch by blast
  with run show ?thesis by simp
qed

theorem tick_delivers_what_is_owed_witness:
  "\<exists>d' ob'. check_schedules_async sample_tzdb healthy_transport sample_now ''https://s3''
      (cached_check no_redis sample_now due_db) due_db (\<lambda>_. None) empty_outbox = (None, d', \<lambda>_. None, ob') \<and>
    outbox_gains empty_outbox (concat (map (owed_tasks ''https://s3'' due_db
      (send_verdict due_db (\<lambda>u. fst (check_access_cached no_redis sample_now due_db u ''send'' (\<lambda>_. None)))))
      (due_schedules sample_now due_db))) ob'"
  using due_db_healthy_tick tick_delivers_what_is_owed by blast

theorem tick_never_repeats_witness:
  "\<exists>d' ob'. check_schedules_async sample_tzdb healthy_transport sample_now ''https://s3''
      (cached_check no_redis sample_now due_db) due_db (\<lambda>_. None) empty_outbox = (None, d', \<lambda>_. None, ob') \<and>
    due_schedules sample_now d' = []"
proof -
  obtain d' ob' where run: "check_schedules_async sample_tzdb healthy_transport sample_now ''https://s3''
      (cached_check no_redis sample_now due_db) due_db (\<lambda>_. None) empty_outbox = (None, d', \<lambda>_. None, ob')"
    using due_db_healthy_tick by blast
  have "due_schedules sample_now d' = []"
    using tick_never_repeats [where tr' = healthy_transport, OF run due_db_facts(1)] due_db_facts(3) by blast
  with run show ?thesis by blast
qed

section \<open>Properties of the repeat\<close>

lemma retry_cases:
  "retry_send tr now s3_url check lid uid d c ob =
     (case find_row log_id lid (db_send_logs d) of
        None \<Rightarrow> (Inr RetryRejected, c, ob)
      | Some l \<Rightarrow>
          if log_user_id l \<noteq> uid then (Inr RetryRejected, c, ob)
          else case retry_rows l d of
                 None \<Rightarrow> (Inr (RetryStopped ''missing_entity''), c, ob)
               | Some (a, g, acc) \<Rightarrow>
                   if acc_status acc \<noteq> ''active'' then (Inr (RetryStopped ''account_not_active''), c, ob)
                   else if ad_status a \<noteq> AD_STATUS_PUBLISHED then (Inr (RetryStopped ''ad_is_draft''), c, ob)
                   else if \<not> grp_is_active g then (Inr (RetryStopped ''group_inactive''), c, ob)
                   else if \<not> fst (fst (check uid c)) then (Inr (RetryStopped ''access_closed''), snd (check uid c), ob)
                   else case dispatch_send_tasks tr now [build_dispatch_task s3_url a g acc (log_schedule_id l)] ob of
                          (Inl e, ob') \<Rightarrow> (Inl e, snd (check uid c), ob')
                        | (Inr n, ob') \<Rightarrow>
                            (Inr (if n = 0 then RetryNotDispatched else RetryDispatched), snd (check uid c), ob'))"
proof (cases "find_row log_id lid (db_send_logs d)")
  case (Some l)
  then show ?thesis
    by (cases "retry_rows l d"; cases "check uid c") (auto simp: retry_send_def Let_def cong: sum.case_cong)
qed (simp add: retry_send_def)

lemma retry_rows_Some:
  "retry_rows l d = Some (a, g, acc) \<Longrightarrow>
     a \<in> set (db_ads d) \<and> log_ad_id l = Some (ad_id a) \<and> g \<in> set (db_groups d) \<and> log_group_id l = Some (grp_id g) \<and>
     acc \<in> set (db_accounts d) \<and> grp_account_id g = acc_id acc"
  by (auto simp: retry_rows_def nonzero_id_def bind_eq_Some_conv split: option.splits if_splits dest!: find_row_Some)

lemma single_task_outcome:
  assumes "dispatch_send_tasks tr now [t] ob = (Inr n, ob')"
  shows "(n = 0) = (task_type t \<notin> {''tg_user'', ''wa'', ''max''})" "outbox_gains ob [t] ob'"
  using dispatch_gains [OF assms] by (auto simp: of_type_def)

text \<open>
  a repeat is dispatched only for a row of the journal of the user who asked, whose
  advertisement is published, whose group is switched on, whose account is active and whose access
  is open at this moment; it puts exactly one task in the queues, built from the advertisement as it
  is now and not from the snapshot in the journal. Every other answer leaves the queues alone.
\<close>

theorem retry_gates:
  assumes "retry_send tr now s3_url check lid uid d c ob = (Inr out, c', ob')"
  shows "if out = RetryDispatched
    then \<exists>l \<in> set (db_send_logs d). \<exists>a \<in> set (db_ads d). \<exists>g \<in> set (db_groups d). \<exists>acc \<in> set (db_accounts d).
      log_id l = lid \<and> log_user_id l = uid \<and> log_ad_id l = Some (ad_id a) \<and> log_group_id l = Some (grp_id g) \<and>
      grp_account_id g = acc_id acc \<and> acc_type acc \<in> {''tg_user'', ''wa'', ''max''} \<and> acc_status acc = ''active'' \<and>
      ad_status a = AD_STATUS_PUBLISHED \<and> grp_is_active g \<and> fst (fst (check uid c)) \<and>
      outbox_gains ob [build_dispatch_task s3_url a g acc (log_schedule_id l)] ob'
    else outbox_gains ob [] ob'"
proof -
  have none: "outbox_gains ob [] ob" by (simp add: outbox_gains_def of_type_def)
  show ?thesis
  proof (cases "find_row log_id lid (db_send_logs d)")
    case None
    with assms none show ?thesis by (auto simp: retry_cases)
  next
    case (Some l)
    note row = Some find_row_Some [OF Some]
    show ?thesis
    proof (cases "log_user_id l = uid \<and> retry_rows l d \<noteq> None")
      case False
      with assms row have "out \<noteq> RetryDispatched \<and> ob' = ob"
        by (cases "retry_rows l d") (auto simp: retry_cases split: if_splits)
      with none show ?thesis by simp
    next
      case True
      then obtain a g acc where rows: "retry_rows l d = Some (a, g, acc)" by auto
      let ?t = "build_dispatch_task s3_url a g acc (log_schedule_id l)"
      show ?thesis
      proof (cases "acc_status acc = ''active'' \<and> ad_status a = AD_STATUS_PUBLISHED \<and> grp_is_active g \<and> fst (fst (check uid c))")
        case False
        with assms row True rows have "out \<noteq> RetryDispatched \<and> ob' = ob"
          by (auto simp: retry_cases split: if_splits)
        with none show ?thesis by simp
      next
        case gates: True
        obtain n where n: "dispatch_send_tasks tr now [?t] ob = (Inr n, ob')"
          "out = (if n = 0 then RetryNotDispatched else RetryDispatched)"
          using assms row True rows gates by (auto simp: retry_cases split: prod.splits sum.splits)
        have ty: "task_type ?t = acc_type acc" by (simp add: build_dispatch_task_def Let_def)
        show ?thesis
        proof (cases "n = 0")
          case True
          with n single_task_outcome [OF n(1)] show ?thesis by (auto simp: outbox_gains_def of_type_def)
        next
          case False
          with single_task_outcome [OF n(1)] ty have "acc_type acc \<in> {''tg_user'', ''wa'', ''max''}"
            "outbox_gains ob [?t] ob'" by auto
          with False n(2) retry_rows_Some [OF rows] row True gates show ?thesis by auto
        qed
      qed
    qed
  qed
qed

definition sample_log :: send_log where
  "sample_log = (log_entry 5 sample_job (Some sample_ad) (Some sample_group) (Some sample_account) ''fail'' None)\<lparr>log_id := 3\<rparr>"

definition retry_db :: db where
  "retry_db = sending_db\<lparr>db_send_logs := [sample_log],
     db_subscriptions := [sample_subscription\<lparr>sub_has_free_access := True\<rparr>]\<rparr>"

theorem retry_gates_witness:
  "\<exists>c' ob'. retry_send healthy_transport 9 ''https://s3'' (cached_check no_redis 9 retry_db) 3 1 retry_db (\<lambda>_. None) empty_outbox
      = (Inr RetryDispatched, c', ob') \<and>
    (\<exists>a \<in> set (db_ads retry_db). ad_status a = AD_STATUS_PUBLISHED)"
proof -
  have "fst (retry_send healthy_transport 9 ''https://s3'' (cached_check no_redis 9 retry_db) 3 1 retry_db (\<lambda>_. None) empty_outbox)
      = Inr RetryDispatched" by code_simp
  then obtain c' ob' where run: "retry_send healthy_transport 9 ''https://s3'' (cached_check no_redis 9 retry_db) 3 1 retry_db
      (\<lambda>_. None) empty_outbox = (Inr RetryDispatched, c', ob')" by (metis prod.exhaust fst_conv)
  from retry_gates [OF run] run show ?thesis by auto
qed

text \<open>
  the repeat does not ask whether the user is blocked: whatever the rows of the users say, its
  outcome and what it puts in the queues are the same, while the planner refuses a blocked user.
\<close>

theorem retry_ignores_block:
  "retry_send tr now s3_url check lid uid (d\<lparr>db_users := us\<rparr>) c ob = retry_send tr now s3_url check lid uid d c ob \<and>
   (user_send_verdict (d\<lparr>db_users := [sample_user\<lparr>user_id := uid, user_is_blocked := True\<rparr>]\<rparr>) check uid c
      = ((False, ''user_blocked''), c))"
proof
  have "retry_rows l (d\<lparr>db_users := us\<rparr>) = retry_rows l d" for l
    by (simp add: retry_rows_def cong: option.case_cong)
  then show "retry_send tr now s3_url check lid uid (d\<lparr>db_users := us\<rparr>) c ob = retry_send tr now s3_url check lid uid d c ob"
    by (cases "find_row log_id lid (db_send_logs d)") (simp_all add: retry_cases)
qed (simp add: user_send_verdict_def sample_user_def)

section \<open>Properties of the results\<close>

definition complete_result :: "bridge_result \<Rightarrow> bool" where
  "complete_result r \<longleftrightarrow> br_user_id r \<noteq> None \<and> br_status r \<noteq> None"

definition null_user :: "bridge_result \<Rightarrow> bool" where
  "null_user r \<longleftrightarrow> br_user_id r = Some None \<and> br_status r \<noteq> None"

definition log_of_result :: "string \<Rightarrow> bridge_result \<Rightarrow> send_log \<Rightarrow> bool" where
  "log_of_result messenger r l \<longleftrightarrow>
     br_user_id r = Some (Some (log_user_id l)) \<and> br_status r = Some (log_status l) \<and> log_messenger_type l = Some messenger \<and>
     log_ad_id l = br_ad_id r \<and> log_group_id l = br_group_id r \<and> log_schedule_id l = br_schedule_id r \<and>
     log_task_id l = br_task_id r \<and> log_error_message l = br_error_message r"

lemma result_group_logs [simp]: "db_send_logs (result_group now r status d) = db_send_logs d"
  by (simp add: result_group_def split: option.splits)

lemma process_result_null:
  "rs_null_user (process_result now m r s) = (rs_null_user s \<or> null_user r)"
  by (auto simp: process_result_def null_user_def Let_def split: option.splits)

lemma fold_process_null:
  "rs_null_user (fold (process_result now m) rs s) = (rs_null_user s \<or> (\<exists>r \<in> set rs. null_user r))"
  by (induction rs arbitrary: s) (auto simp: process_result_null)

lemma process_result_logs:
  assumes "\<not> null_user r"
  shows "if complete_result r
    then \<exists>l. db_send_logs (rs_db (process_result now m r s)) = db_send_logs (rs_db s) @ [l] \<and> log_of_result m r l
    else process_result now m r s = s"
  using assms
  by (auto simp: process_result_def complete_result_def null_user_def log_of_result_def Let_def split: option.splits)

lemma fold_process_logs:
  assumes "\<And>r. r \<in> set rs \<Longrightarrow> \<not> null_user r"
  shows "\<exists>ls. db_send_logs (rs_db (fold (process_result now m) rs s)) = db_send_logs (rs_db s) @ ls \<and>
    list_all2 (log_of_result m) (filter complete_result rs) ls"
  using assms
proof (induction rs arbitrary: s)
  case (Cons r rs)
  obtain ls where ls: "db_send_logs (rs_db (fold (process_result now m) rs (process_result now m r s))) =
      db_send_logs (rs_db (process_result now m r s)) @ ls" "list_all2 (log_of_result m) (filter complete_result rs) ls"
    using Cons.IH [of "process_result now m r s"] Cons.prems by (metis list.set_intros(2))
  show ?case
  proof (cases "complete_result r")
    case True
    then obtain l where "db_send_logs (rs_db (process_result now m r s)) = db_send_logs (rs_db s) @ [l]" "log_of_result m r l"
      using process_result_logs [of r now m s] Cons.prems by auto
    with ls True show ?thesis by (intro exI [of _ "l # ls"]) simp
  next
    case False
    with ls process_result_logs [of r now m s] Cons.prems show ?thesis by auto
  qed
qed simp

text \<open>
  a batch of results is written whole or not at all: every complete result gets its row in the
  journal, in the order of the queue, an incomplete one is skipped; but one result with a null user
  makes the commit fail, and then nothing of the batch is written although it has left the queue.
\<close>

theorem result_batch_recorded:
  assumes "take_batch 100 q = (rs, q')"
  shows "fst (process_queue now m q d) = q' \<and>
    (if (\<exists>r \<in> set rs. null_user r) then snd (process_queue now m q d) = d
     else \<exists>ls. db_send_logs (snd (process_queue now m q d)) = db_send_logs d @ ls \<and>
       list_all2 (log_of_result m) (filter complete_result rs) ls)"
proof (cases "rs = []")
  case True
  with assms show ?thesis by (simp add: process_queue_def)
next
  case False
  show ?thesis
  proof (cases "\<exists>r \<in> set rs. null_user r")
    case True
    with assms False show ?thesis by (simp add: process_queue_def process_results_def fold_process_null Let_def)
  next
    case clean: False
    then have "\<And>r. r \<in> set rs \<Longrightarrow> \<not> null_user r" by blast
    from fold_process_logs [where now = now and m = m and s = "\<lparr>rs_db = d, rs_null_user = False\<rparr>", OF this] clean assms False
    show ?thesis by (simp add: process_queue_def process_results_def fold_process_null Let_def)
  qed
qed

definition sample_result :: bridge_result where
  "sample_result = \<lparr>br_user_id = Some (Some 1), br_status = Some ''ok'', br_schedule_id = None, br_ad_id = Some 1,
     br_group_id = Some 1, br_task_id = Some ''t'', br_error_message = None, br_ad_title = None, br_ad_text = None,
     br_ad_images = None, br_group_name = None, br_no_retry = False\<rparr>"

theorem result_batch_recorded_witness:
  "fst (process_queue 9 ''wa'' [RawResult sample_result, RawGarbage, RawResult (sample_result\<lparr>br_user_id := Some None\<rparr>)] sending_db) = [] \<and>
   snd (process_queue 9 ''wa'' [RawResult sample_result, RawGarbage, RawResult (sample_result\<lparr>br_user_id := Some None\<rparr>)] sending_db) = sending_db"
proof -
  have "take_batch 100 [RawResult sample_result, RawGarbage, RawResult (sample_result\<lparr>br_user_id := Some None\<rparr>)] =
      ([sample_result, sample_result\<lparr>br_user_id := Some None\<rparr>], [])"
    by (simp add: numeral_eq_Suc)
  moreover have "null_user (sample_result\<lparr>br_user_id := Some None\<rparr>)"
    by (simp add: null_user_def sample_result_def)
  ultimately show ?thesis using result_batch_recorded by fastforce
qed

end
