(* ===== verification/History_Retry.thy ===== *)
theory History_Retry
  imports Admin_Actions Delivery
begin

text \<open>
  The journal page, \<open>app/pages/history.py\<close>: the filters it cleans, the cell of an export, the
  availability of a repeat next to a failed entry, and the handler that queues a repeat behind a
  slot of sixty seconds. The slots live in the memory of the process, a map from journal entries to
  the moment a slot ends, in microseconds of its clock. What the broker answers to a task is an
  argument; one request runs from the slot to its release before the next one.
\<close>

section \<open>Filters and cells\<close>

definition clean_choice :: "string option \<Rightarrow> string set \<Rightarrow> string option" where
  "clean_choice v allowed =
     (case v of
        None \<Rightarrow> None
      | Some s \<Rightarrow> if s = [] then None else let t = strip s in if t \<in> allowed then Some t else None)"

definition parse_account_id :: "string option \<Rightarrow> int option" where
  "parse_account_id v =
     (case v of None \<Rightarrow> None | Some s \<Rightarrow> if s = [] \<or> strip s = [] then None else py_int s)"

definition EXPORT_DANGEROUS_PREFIXES :: "char set" where
  "EXPORT_DANGEROUS_PREFIXES = {CHR ''='', CHR ''+'', CHR ''-'', CHR ''@'', CHR 0x09, CHR 0x0D}"

definition export_cell :: "pyval \<Rightarrow> string" where
  "export_cell value =
     (if value = PNone then []
      else let text = py_str value in
        if text = [] then [] else if hd text \<in> EXPORT_DANGEROUS_PREFIXES then CHR 0x27 # text else text)"

section \<open>The availability of a repeat\<close>

definition RETRY_REASON_AD_GONE :: string where "RETRY_REASON_AD_GONE = ''ad_gone''"
definition RETRY_REASON_AD_DRAFT :: string where "RETRY_REASON_AD_DRAFT = ''ad_draft''"
definition RETRY_REASON_GROUP_GONE :: string where "RETRY_REASON_GROUP_GONE = ''group_gone''"
definition RETRY_REASON_GROUP_OFF :: string where "RETRY_REASON_GROUP_OFF = ''group_off''"
definition RETRY_REASON_ACCOUNT_GONE :: string where "RETRY_REASON_ACCOUNT_GONE = ''account_gone''"
definition RETRY_REASON_ACCOUNT_OFF :: string where "RETRY_REASON_ACCOUNT_OFF = ''account_off''"

text \<open>The rows of a user among those with the given ids, as maps to their states.\<close>

definition live_ads :: "db \<Rightarrow> int \<Rightarrow> int \<rightharpoonup> string" where
  "live_ads d uid i =
     (case find_row ad_id i (db_ads d) of None \<Rightarrow> None | Some a \<Rightarrow> if ad_user_id a = uid then Some (ad_status a) else None)"

definition account_states :: "db \<Rightarrow> int \<Rightarrow> int \<rightharpoonup> string" where
  "account_states d uid i =
     (case find_row acc_id i (db_accounts d) of
        None \<Rightarrow> None | Some a \<Rightarrow> if acc_user_id a = uid then Some (acc_status a) else None)"

definition retry_reason :: "db \<Rightarrow> int \<Rightarrow> send_log \<Rightarrow> group option \<Rightarrow> string option" where
  "retry_reason d uid l g =
     (case Option.bind (nonzero_id (log_ad_id l)) (live_ads d uid) of
        None \<Rightarrow> Some RETRY_REASON_AD_GONE
      | Some status \<Rightarrow>
          if effective_status_value (Some status) = AD_STATUS_DRAFT then Some RETRY_REASON_AD_DRAFT
          else case g of
                 None \<Rightarrow> Some RETRY_REASON_GROUP_GONE
               | Some grp \<Rightarrow>
                   if \<not> grp_is_active grp then Some RETRY_REASON_GROUP_OFF
                   else case Option.bind (nonzero_id (Some (grp_account_id grp))) (account_states d uid) of
                          None \<Rightarrow> Some RETRY_REASON_ACCOUNT_GONE
                        | Some state \<Rightarrow> if state \<noteq> ''active'' then Some RETRY_REASON_ACCOUNT_OFF else None)"

definition retry_availability :: "db \<Rightarrow> (send_log \<times> group option) list \<Rightarrow> int \<Rightarrow> (int \<times> string option) list" where
  "retry_availability d rows uid =
     map (\<lambda>(l, g). (log_id l, retry_reason d uid l g)) (filter (\<lambda>(l, g). log_status l \<noteq> ''ok'') rows)"

section \<open>The slot\<close>

type_synonym slots = "int \<rightharpoonup> int"

definition RETRY_COOLDOWN :: int where "RETRY_COOLDOWN = 60000000"

definition purge_slots :: "int \<Rightarrow> slots \<Rightarrow> slots" where
  "purge_slots clock s k = (case s k of None \<Rightarrow> None | Some until \<Rightarrow> if until \<le> clock then None else Some until)"

definition claim_retry_slot :: "int \<Rightarrow> int \<Rightarrow> slots \<Rightarrow> bool \<times> slots" where
  "claim_retry_slot clock lid s =
     (let live = purge_slots clock s
      in case live lid of
           Some deadline \<Rightarrow>
             if clock < deadline then (False, live) else (True, live(lid \<mapsto> clock + RETRY_COOLDOWN))
         | None \<Rightarrow> (True, live(lid \<mapsto> clock + RETRY_COOLDOWN)))"

definition release_retry_slot :: "int \<Rightarrow> slots \<Rightarrow> slots" where
  "release_retry_slot lid s = s(lid := None)"

section \<open>The handler\<close>

text \<open>The rows of the entry, as far as they belong to the user.\<close>

definition owned_group :: "db \<Rightarrow> int \<Rightarrow> send_log \<Rightarrow> group option" where
  "owned_group d uid l =
     (case Option.bind (nonzero_id (log_group_id l)) (\<lambda>i. find_row grp_id i (db_groups d)) of
        None \<Rightarrow> None | Some g \<Rightarrow> if grp_user_id g \<noteq> uid then None else Some g)"

definition owned_ad :: "db \<Rightarrow> int \<Rightarrow> send_log \<Rightarrow> ad option" where
  "owned_ad d uid l =
     (case Option.bind (nonzero_id (log_ad_id l)) (\<lambda>i. find_row ad_id i (db_ads d)) of
        None \<Rightarrow> None | Some a \<Rightarrow> if ad_user_id a \<noteq> uid then None else Some a)"

definition account_of_group :: "db \<Rightarrow> int \<Rightarrow> group option \<Rightarrow> account option" where
  "account_of_group d uid g =
     (case Option.bind g (\<lambda>g. Option.bind (nonzero_id (Some (grp_account_id g))) (\<lambda>i. find_row acc_id i (db_accounts d))) of
        None \<Rightarrow> None | Some a \<Rightarrow> if acc_user_id a \<noteq> uid then None else Some a)"

definition rows_ready :: "db \<Rightarrow> int \<Rightarrow> send_log \<Rightarrow> bool" where
  "rows_ready d uid l =
     (case (owned_ad d uid l, owned_group d uid l, account_of_group d uid (owned_group d uid l)) of
        (Some a, Some g, Some acc) \<Rightarrow>
          effective_ad_status a \<noteq> AD_STATUS_DRAFT \<and> grp_is_active g \<and> acc_status acc = ''active''
      | _ \<Rightarrow> False)"

type_synonym retry_queue = "(int \<times> int) list"

text \<open>From the slot on, for an entry of the user that failed.\<close>

definition retry_entry ::
  "(string option \<Rightarrow> exn + reply) \<Rightarrow> 'c check_limit \<Rightarrow> exn option \<Rightarrow> int \<Rightarrow> int \<Rightarrow> db \<Rightarrow> send_log \<Rightarrow>
     slots \<times> 'c \<times> retry_queue \<Rightarrow> (exn + reply) \<times> slots \<times> 'c \<times> retry_queue" where
  "retry_entry back check send_task clock uid d l st =
     (let (s, c, q) = st;
          (won, s1) = claim_retry_slot clock (log_id l) s
      in if \<not> won then (back (Some ''retry_busy''), s1, c, q)
         else if \<not> rows_ready d uid l
         then (back (Some ''retry_gone''), release_retry_slot (log_id l) s1, c, q)
         else
           let (v, c1) = check uid c in
           if \<not> fst v then (back (Some ''retry_access_closed''), release_retry_slot (log_id l) s1, c1, q)
           else
             case send_task of
               None \<Rightarrow> (back (Some ''retry_queued''), s1, c1, q @ [(log_id l, uid)])
             | Some OperationalError \<Rightarrow> (Inl OperationalError, release_retry_slot (log_id l) s1, c1, q)
             | Some e \<Rightarrow> (Inl e, s1, c1, q))"

definition history_retry ::
  "sign_env \<Rightarrow> url_lib \<Rightarrow> (string \<Rightarrow> string) \<Rightarrow> 'c check_limit \<Rightarrow> exn option \<Rightarrow> int \<Rightarrow> int \<Rightarrow> http_request \<Rightarrow> int \<Rightarrow> db \<Rightarrow>
     slots \<times> 'c \<times> retry_queue \<Rightarrow> (exn + reply) \<times> slots \<times> 'c \<times> retry_queue" where
  "history_retry en ul notice_oob check send_task now clock rq lid d st =
     (let (s, c, q) = st;
          back = (\<lambda>notice. respond notice_oob rq ''/history'' notice None)
      in case bind_res (require_access (en_lib en) (en_cfg en) now rq d) (\<lambda>_.
              bind_res (forbid_when_impersonating (en_lib en) (en_cfg en) now rq) (\<lambda>_.
                get_user_from_cookie (en_lib en) (en_cfg en) now rq d)) of
           Inl e \<Rightarrow> (Inl e, s, c, q)
         | Inr None \<Rightarrow> (respond notice_oob rq ''/login'' None None, s, c, q)
         | Inr (Some pu) \<Rightarrow>
             (case is_same_origin ul rq of
                Inl e \<Rightarrow> (Inl e, s, c, q)
              | Inr False \<Rightarrow> (Inr (EmptyStatus 403), s, c, q)
              | Inr True \<Rightarrow>
                  let uid = user_id (pu_user pu) in
                  (case (if id_in_column lid then find_row log_id lid (db_send_logs d) else None) of
                     None \<Rightarrow> (back None, s, c, q)
                   | Some l \<Rightarrow>
                       if log_user_id l \<noteq> uid then (back None, s, c, q)
                       else if log_status l = ''ok'' then (back None, s, c, q)
                       else retry_entry back check send_task clock uid d l st)))"

section \<open>What a request does\<close>

lemma claim_cases:
  "claim_retry_slot clock lid s =
     (if \<exists>until. s lid = Some until \<and> clock < until then (False, purge_slots clock s)
      else (True, (purge_slots clock s)(lid \<mapsto> clock + RETRY_COOLDOWN)))"
  by (auto simp: claim_retry_slot_def purge_slots_def Let_def split: option.splits)

definition retry_user :: "sign_env \<Rightarrow> url_lib \<Rightarrow> int \<Rightarrow> http_request \<Rightarrow> db \<Rightarrow> int option" where
  "retry_user en ul now rq d =
     (case bind_res (require_access (en_lib en) (en_cfg en) now rq d) (\<lambda>_.
              bind_res (forbid_when_impersonating (en_lib en) (en_cfg en) now rq) (\<lambda>_.
                get_user_from_cookie (en_lib en) (en_cfg en) now rq d)) of
        Inr (Some pu) \<Rightarrow> if is_same_origin ul rq = Inr True then Some (user_id (pu_user pu)) else None
      | _ \<Rightarrow> None)"

lemma history_retry_split:
  "history_retry en ul oob check send_task now clock rq lid d st =
     (case (retry_user en ul now rq d, if id_in_column lid then find_row log_id lid (db_send_logs d) else None) of
        (Some uid, Some l) \<Rightarrow>
          if log_user_id l = uid \<and> log_status l \<noteq> ''ok''
          then retry_entry (\<lambda>n. respond oob rq ''/history'' n None) check send_task clock uid d l st
          else (respond oob rq ''/history'' None None, st)
      | _ \<Rightarrow> (fst (history_retry en ul oob check send_task now clock rq lid d st), st))"
proof (cases "retry_user en ul now rq d")
  case None
  then show ?thesis
    by (cases st)
       (auto simp: history_retry_def retry_user_def Let_def split: sum.splits option.splits bool.splits if_splits)
next
  case (Some uid)
  then obtain pu where pu: "bind_res (require_access (en_lib en) (en_cfg en) now rq d) (\<lambda>_.
              bind_res (forbid_when_impersonating (en_lib en) (en_cfg en) now rq) (\<lambda>_.
                get_user_from_cookie (en_lib en) (en_cfg en) now rq d)) = Inr (Some pu)"
    "is_same_origin ul rq = Inr True" "uid = user_id (pu_user pu)"
    by (auto simp: retry_user_def split: sum.splits option.splits if_splits)
  then show ?thesis
    using Some by (cases st) (simp add: history_retry_def retry_entry_def Let_def split: option.splits)
qed

text \<open>An entry is queued behind a fresh slot, or the queue stays as it is.\<close>

lemma retry_entry_cases:
  assumes "retry_entry back check send_task clock uid d l (s, c, q) = (r, s', c', q')"
  obtains (queued) "q' = q @ [(log_id l, uid)]" "s' = (purge_slots clock s)(log_id l \<mapsto> clock + RETRY_COOLDOWN)"
      "\<nexists>until. s (log_id l) = Some until \<and> clock < until" "rows_ready d uid l" "fst (fst (check uid c))" "send_task = None"
    | (held) e where "q' = q" "send_task = Some e" "e \<noteq> OperationalError" "r = Inl e"
        "s' = (purge_slots clock s)(log_id l \<mapsto> clock + RETRY_COOLDOWN)" "\<nexists>until. s (log_id l) = Some until \<and> clock < until"
    | (refused) "q' = q" "s' = purge_slots clock s \<or>
        s' = (purge_slots clock s)(log_id l := None) \<and> (\<nexists>until. s (log_id l) = Some until \<and> clock < until)"
proof (cases "\<exists>until. s (log_id l) = Some until \<and> clock < until")
  case True
  with assms show ?thesis by (intro refused) (simp_all add: retry_entry_def claim_cases)
next
  case free: False
  let ?s1 = "(purge_slots clock s)(log_id l \<mapsto> clock + RETRY_COOLDOWN)"
  have claim: "claim_retry_slot clock (log_id l) s = (True, ?s1)" using free by (simp add: claim_cases)
  have gone: "release_retry_slot (log_id l) ?s1 = (purge_slots clock s)(log_id l := None)"
    by (simp add: release_retry_slot_def)
  obtain v c1 where v: "check uid c = (v, c1)" by (cases "check uid c")
  show ?thesis
  proof (cases "rows_ready d uid l \<and> fst v")
    case False
    with assms claim gone v free show ?thesis by (intro refused) (auto simp: retry_entry_def split: if_splits)
  next
    case True
    show ?thesis
    proof (cases send_task)
      case None
      with assms True claim v free show ?thesis by (intro queued) (auto simp: retry_entry_def)
    next
      case (Some e)
      show ?thesis
      proof (cases "e = OperationalError")
        case True
        with assms Some \<open>rows_ready d uid l \<and> fst v\<close> claim gone v free show ?thesis
          by (intro refused) (auto simp: retry_entry_def)
      next
        case False
        with assms Some True claim v free show ?thesis
          by (intro held [of e]) (auto simp: retry_entry_def split: exn.splits)
      qed
    qed
  qed
qed

lemma rows_ready_iff:
  "rows_ready d uid l \<longleftrightarrow> (\<exists>a grp acc. owned_ad d uid l = Some a \<and> effective_ad_status a \<noteq> AD_STATUS_DRAFT \<and>
     owned_group d uid l = Some grp \<and> grp_is_active grp \<and> account_of_group d uid (Some grp) = Some acc \<and> acc_status acc = ''active'')"
proof (cases "owned_ad d uid l"; cases "owned_group d uid l")
  fix a grp assume "owned_ad d uid l = Some a" "owned_group d uid l = Some grp"
  then show ?thesis by (cases "account_of_group d uid (Some grp)") (auto simp: rows_ready_def)
qed (simp_all add: rows_ready_def)

text \<open>The effect of one request on the slots and the queue.\<close>

lemma history_retry_entry:
  "snd (history_retry en ul oob check send_task now clock rq lid d st) = st \<or>
   (\<exists>l. find_row log_id lid (db_send_logs d) = Some l \<and> log_id l = lid \<and> log_status l \<noteq> ''ok'' \<and>
      retry_user en ul now rq d = Some (log_user_id l) \<and>
      history_retry en ul oob check send_task now clock rq lid d st =
        retry_entry (\<lambda>n. respond oob rq ''/history'' n None) check send_task clock (log_user_id l) d l st)"
proof (cases "retry_user en ul now rq d")
  case None
  then show ?thesis by (subst history_retry_split) simp
next
  case (Some uid)
  show ?thesis
  proof (cases "if id_in_column lid then find_row log_id lid (db_send_logs d) else None")
    case None
    then show ?thesis by (subst history_retry_split) (simp add: Some)
  next
    case row: (Some l)
    then have l: "find_row log_id lid (db_send_logs d) = Some l" by (simp split: if_splits)
    show ?thesis
    proof (cases "log_user_id l = uid \<and> log_status l \<noteq> ''ok''")
      case True
      with Some row l find_row_Some [OF l] show ?thesis
        by (intro disjI2 exI [of _ l]) (subst history_retry_split, simp)
    next
      case False
      then show ?thesis by (subst history_retry_split) (auto simp: Some row)
    qed
  qed
qed

lemma history_retry_cases:
  assumes run: "history_retry en ul oob check send_task now clock rq lid d (s, c, q) = (r, s', c', q')"
  obtains (queued) l where "q' = q @ [(lid, log_user_id l)]" "s' = (purge_slots clock s)(lid \<mapsto> clock + RETRY_COOLDOWN)"
      "\<nexists>until. s lid = Some until \<and> clock < until" "find_row log_id lid (db_send_logs d) = Some l"
      "retry_user en ul now rq d = Some (log_user_id l)" "log_status l \<noteq> ''ok''" "rows_ready d (log_user_id l) l"
      "fst (fst (check (log_user_id l) c))"
    | (kept) "q' = q" "\<And>k until. s k = Some until \<Longrightarrow> clock < until \<Longrightarrow> s' k = Some until"
proof (cases "(s', c', q') = (s, c, q)")
  case True
  then show ?thesis by (intro kept) simp_all
next
  case False
  with history_retry_entry [of en ul oob check send_task now clock rq lid d "(s, c, q)"] run
  obtain l where l: "find_row log_id lid (db_send_logs d) = Some l" "log_id l = lid" "log_status l \<noteq> ''ok''"
    "retry_user en ul now rq d = Some (log_user_id l)"
    "retry_entry (\<lambda>n. respond oob rq ''/history'' n None) check send_task clock (log_user_id l) d l (s, c, q) = (r, s', c', q')"
    by auto
  have purge: "(purge_slots clock s) k = Some until" if "s k = Some until" "clock < until" for k until
    using that by (simp add: purge_slots_def)
  show ?thesis
  proof (cases rule: retry_entry_cases [OF l(5)])
    case 1
    with l show ?thesis by (intro queued [of l]) simp_all
  next
    case (2 e)
    with l(2) purge show ?thesis by (intro kept) auto
  next
    case 3
    with l(2) purge show ?thesis by (intro kept) auto
  qed
qed

section \<open>Properties\<close>

text \<open>A request with what it meets: the moment, the clock of the process, the database and the broker.\<close>

record retry_request =
  rr_now :: int
  rr_clock :: int
  rr_request :: http_request
  rr_log :: int
  rr_db :: db
  rr_broker :: "exn option"

fun retry_run ::
  "sign_env \<Rightarrow> url_lib \<Rightarrow> (string \<Rightarrow> string) \<Rightarrow> 'c check_limit \<Rightarrow> retry_request list \<Rightarrow> slots \<times> 'c \<times> retry_queue \<Rightarrow>
     (int \<times> int) list" where
  "retry_run en ul oob check [] st = []"
| "retry_run en ul oob check (x # xs) st =
     (let st' = snd (history_retry en ul oob check (rr_broker x) (rr_now x) (rr_clock x) (rr_request x) (rr_log x) (rr_db x) st)
      in (if snd (snd st') \<noteq> snd (snd st) then [(rr_clock x, rr_log x)] else []) @ retry_run en ul oob check xs st')"

lemma retry_run_clocks: "(t, l) \<in> set (retry_run en ul oob check xs st) \<Longrightarrow> t \<in> rr_clock ` set xs"
proof (induction xs arbitrary: st)
  case (Cons x xs)
  then show ?case by (simp add: Let_def split: if_splits) blast+
qed simp

lemma slot_holds:
  assumes "sorted (map rr_clock xs)" "s l = Some until" "(t, l) \<in> set (retry_run en ul oob check xs (s, c, q))"
  shows "until \<le> t"
  using assms
proof (induction xs arbitrary: s c q)
  case (Cons x xs)
  obtain r s' c' q' where run: "history_retry en ul oob check (rr_broker x) (rr_now x) (rr_clock x) (rr_request x) (rr_log x) (rr_db x)
      (s, c, q) = (r, s', c', q')" by (rule prod_cases4)
  have later: "rr_clock x \<le> t" using Cons.prems(1,3) retry_run_clocks [OF Cons.prems(3)] by auto
  show ?case
  proof (cases "until \<le> rr_clock x")
    case True
    with later show ?thesis by simp
  next
    case False
    have "q' = q \<or> rr_log x \<noteq> l" "s' l = Some until"
    proof -
      have "(q' = q \<or> rr_log x \<noteq> l) \<and> s' l = Some until"
        using False Cons.prems(2) by (cases rule: history_retry_cases [OF run]) (auto simp: purge_slots_def)
      then show "q' = q \<or> rr_log x \<noteq> l" "s' l = Some until" by blast+
    qed
    with Cons.prems run Cons.IH [of s' c' q'] show ?thesis by (auto split: if_splits)
  qed
qed simp

text \<open>
  whatever requests arrive, one after another, on a clock that does not run backwards, an entry of
  the journal is queued again no sooner than sixty seconds after it was queued before.
\<close>

theorem retries_spaced:
  assumes "sorted (map rr_clock xs)"
  shows "sorted_wrt (\<lambda>(t, l) (t', l'). l = l' \<longrightarrow> t + RETRY_COOLDOWN \<le> t') (retry_run en ul oob check xs st)"
  using assms
proof (induction xs arbitrary: st)
  case (Cons x xs)
  obtain s c q where st: "st = (s, c, q)" by (rule prod_cases3)
  obtain r s' c' q' where run: "history_retry en ul oob check (rr_broker x) (rr_now x) (rr_clock x) (rr_request x) (rr_log x) (rr_db x)
      (s, c, q) = (r, s', c', q')" by (rule prod_cases4)
  have sorted: "sorted (map rr_clock xs)" using Cons.prems by simp
  have "rr_clock x + RETRY_COOLDOWN \<le> t" if "q' \<noteq> q" "(t, rr_log x) \<in> set (retry_run en ul oob check xs (s', c', q'))" for t
  proof -
    have "s' (rr_log x) = Some (rr_clock x + RETRY_COOLDOWN)"
      using that(1) by (cases rule: history_retry_cases [OF run]) auto
    from slot_holds [OF sorted this that(2)] show ?thesis .
  qed
  with Cons.IH [OF sorted] run st show ?case by auto
qed simp

text \<open>
  the button and the handler agree: next to a failed entry of the user the page offers a repeat
  exactly when the rows of the entry would let the handler queue it, provided every group of the
  journal entry belongs to the owner of its account, as the schema of the application keeps it.
\<close>

theorem button_matches_handler:
  assumes failed: "log_status l \<noteq> ''ok''"
    and joined: "g = Option.bind (nonzero_id (log_group_id l)) (\<lambda>i. find_row grp_id i (db_groups d))"
    and owners: "\<And>grp acc. grp \<in> set (db_groups d) \<Longrightarrow> acc \<in> set (db_accounts d) \<Longrightarrow> acc_id acc = grp_account_id grp \<Longrightarrow>
        grp_user_id grp = acc_user_id acc"
  shows "retry_availability d [(l, g)] uid = [(log_id l, None)] \<longleftrightarrow> rows_ready d uid l"
proof -
  have ad: "Option.bind (nonzero_id (log_ad_id l)) (live_ads d uid) = map_option ad_status (owned_ad d uid l)"
    by (auto simp: live_ads_def owned_ad_def split: option.splits Option.bind_splits)
  have account: "Option.bind (nonzero_id (Some (grp_account_id grp))) (account_states d uid) =
      map_option acc_status (account_of_group d uid (Some grp))" for grp
    by (auto simp: account_states_def account_of_group_def split: option.splits Option.bind_splits)
  have owned: "owned_group d uid l = Some grp" if g: "g = Some grp" and acc: "account_of_group d uid (Some grp) \<noteq> None" for grp
  proof -
    have "grp \<in> set (db_groups d)" using g unfolding joined
      by (auto simp: bind_eq_Some_conv dest!: find_row_Some)
    moreover obtain acc where "acc \<in> set (db_accounts d)" "acc_id acc = grp_account_id grp" "acc_user_id acc = uid"
      using acc by (auto simp: account_of_group_def bind_eq_Some_conv nonzero_id_def dest!: find_row_Some split: option.splits if_splits)
    ultimately have "grp_user_id grp = uid" using owners by blast
    with g joined show ?thesis by (simp add: owned_group_def)
  qed
  have sub: "owned_group d uid l = Some grp \<Longrightarrow> g = Some grp" for grp
    by (auto simp: owned_group_def joined split: option.splits if_splits)
  have button: "retry_reason d uid l g = None \<longleftrightarrow> (\<exists>a grp acc. owned_ad d uid l = Some a \<and> effective_ad_status a \<noteq> AD_STATUS_DRAFT \<and>
      g = Some grp \<and> grp_is_active grp \<and> account_of_group d uid (Some grp) = Some acc \<and> acc_status acc = ''active'')"
  proof (cases "owned_ad d uid l")
    case (Some a)
    then show ?thesis
    proof (cases g)
      case (Some grp)
      then show ?thesis using \<open>owned_ad d uid l = Some a\<close>
        by (cases "account_of_group d uid (Some grp)") (simp_all add: retry_reason_def ad account effective_ad_status_def)
    qed (simp add: retry_reason_def ad)
  qed (simp add: retry_reason_def ad)
  have avail: "retry_availability d [(l, g)] uid = [(log_id l, None)] \<longleftrightarrow> retry_reason d uid l g = None"
    using failed by (simp add: retry_availability_def)
  show ?thesis
    unfolding avail button rows_ready_iff
  proof (intro iffI; elim exE conjE)
    fix a grp acc
    assume "owned_ad d uid l = Some a" "effective_ad_status a \<noteq> AD_STATUS_DRAFT" "g = Some grp" "grp_is_active grp"
      "account_of_group d uid (Some grp) = Some acc" "acc_status acc = ''active''"
    moreover from this have "owned_group d uid l = Some grp" using owned [of grp] by simp
    ultimately show "\<exists>a grp acc. owned_ad d uid l = Some a \<and> effective_ad_status a \<noteq> AD_STATUS_DRAFT \<and>
        owned_group d uid l = Some grp \<and> grp_is_active grp \<and> account_of_group d uid (Some grp) = Some acc \<and> acc_status acc = ''active''"
      by blast
  qed (use sub in blast)
qed

text \<open>
  what the handler queues the worker sends: on the same rows and the same verdict about access a
  queued entry passes every gate of the worker, which hands over one task for the published
  advertisement, the group and the active account of the user the session names; the answer of the
  worker is then the answer of this dispatch and nothing else.
\<close>

theorem queued_retry_passes_worker:
  assumes run: "history_retry en ul oob check send_task now clock rq lid d (s, c, q) = (r, s', c', q')" "q' \<noteq> q"
  shows "\<exists>uid a grp acc schedule. retry_user en ul now rq d = Some uid \<and> q' = q @ [(lid, uid)] \<and>
    a \<in> set (db_ads d) \<and> ad_user_id a = uid \<and> ad_status a = AD_STATUS_PUBLISHED \<and>
    grp \<in> set (db_groups d) \<and> grp_user_id grp = uid \<and> grp_is_active grp \<and>
    acc \<in> set (db_accounts d) \<and> acc_user_id acc = uid \<and> acc_id acc = grp_account_id grp \<and> acc_status acc = ''active'' \<and>
    retry_send tr now s3_url check lid uid d c ob =
      (case dispatch_send_tasks tr now [build_dispatch_task s3_url a grp acc schedule] ob of
         (Inl e, ob') \<Rightarrow> (Inl e, snd (check uid c), ob')
       | (Inr n, ob') \<Rightarrow> (Inr (if n = 0 then RetryNotDispatched else RetryDispatched), snd (check uid c), ob'))"
proof -
  obtain l where q: "q' = q @ [(lid, log_user_id l)]" and row: "find_row log_id lid (db_send_logs d) = Some l"
    and user: "retry_user en ul now rq d = Some (log_user_id l)"
    and ready: "rows_ready d (log_user_id l) l" and open_access: "fst (fst (check (log_user_id l) c))"
    using run(2) by (cases rule: history_retry_cases [OF run(1)]) auto
  let ?uid = "log_user_id l"
  obtain a grp acc where owned: "owned_ad d ?uid l = Some a" "effective_ad_status a \<noteq> AD_STATUS_DRAFT"
    "owned_group d ?uid l = Some grp" "grp_is_active grp" "account_of_group d ?uid (Some grp) = Some acc" "acc_status acc = ''active''"
    using ready unfolding rows_ready_iff by blast
  have a: "Option.bind (nonzero_id (log_ad_id l)) (\<lambda>i. find_row ad_id i (db_ads d)) = Some a" "ad_user_id a = ?uid"
    using owned(1) by (auto simp: owned_ad_def split: option.splits if_splits)
  have grp: "Option.bind (nonzero_id (log_group_id l)) (\<lambda>i. find_row grp_id i (db_groups d)) = Some grp" "grp_user_id grp = ?uid"
    using owned(3) by (auto simp: owned_group_def split: option.splits if_splits)
  have acc: "find_row acc_id (grp_account_id grp) (db_accounts d) = Some acc" "acc_user_id acc = ?uid"
    using owned(5) by (auto simp: account_of_group_def nonzero_id_def split: option.splits if_splits Option.bind_splits)
  have rows: "retry_rows l d = Some (a, grp, acc)" using a grp acc by (simp add: retry_rows_def)
  have published: "ad_status a = AD_STATUS_PUBLISHED"
    using owned(2) by (auto simp: effective_ad_status_def effective_status_value_def split: if_splits)
  have "a \<in> set (db_ads d)" "grp \<in> set (db_groups d)" "acc \<in> set (db_accounts d)" "acc_id acc = grp_account_id grp"
    using a grp acc by (auto simp: bind_eq_Some_conv dest: find_row_Some)
  with q user rows row published owned open_access a(2) grp(2) acc(2) show ?thesis
    by (intro exI [of _ ?uid] exI [of _ a] exI [of _ grp] exI [of _ acc] exI [of _ "log_schedule_id l"]) (simp add: retry_cases)
qed

section \<open>The properties at concrete inputs\<close>

definition history_db :: db where
  "history_db = retry_db\<lparr>db_users := [sample_user]\<rparr>"

lemma history_rows:
  "find_row log_id 3 (db_send_logs history_db) = Some sample_log"
  "log_user_id sample_log = 1" "log_status sample_log = ''fail''" "log_id sample_log = 3"
  by (simp_all add: history_db_def retry_db_def sample_log_def log_entry_def sample_ad_def)

lemma history_ready: "rows_ready history_db 1 sample_log"
  by code_simp

lemma history_user: "retry_user admin_env strict_lib 5 cookie_request history_db = Some 1"
proof -
  obtain p where p: "decode_access_token (two_tokens None) 5 ''s'' (as_secret_key sample_auth) = Inr (Some p)" "subject p = Inr 1"
    "actor_id (Some p) = None"
    using two_tokens_cookie by blast
  then have "p \<noteq> []" using decoded_subject [OF p(1)] by blast
  moreover have "find_row user_id 1 (db_users history_db) = Some sample_user" "\<not> user_is_blocked sample_user" "user_id sample_user = 1"
    by (simp_all add: history_db_def sample_user_def)
  ultimately have page: "get_user_from_cookie (two_tokens None) sample_auth 5 cookie_request history_db =
      Inr (Some \<lparr>pu_user = sample_user, pu_actor = None\<rparr>)"
    using p by (simp add: get_user_from_cookie_def)
  have "access_is_open (latest_row (\<lambda>s. instant (sub_expires_at s)) (active_rows 1 history_db)) (utc_datetime 5)"
    by (simp add: history_db_def retry_db_def active_rows_def sample_subscription_def access_is_open_def)
  with page \<open>user_id sample_user = 1\<close> have "require_access (two_tokens None) sample_auth 5 cookie_request history_db = Inr ()"
    by (simp add: require_access_def)
  moreover have "forbid_when_impersonating (two_tokens None) sample_auth 5 cookie_request = Inr ()"
    by (simp add: forbid_when_impersonating_def cookie_actor)
  ultimately show ?thesis
    using page \<open>user_id sample_user = 1\<close> by (simp add: retry_user_def cookie_same_origin)
qed

definition always_open :: "unit check_limit" where
  "always_open u c = ((True, ''''), c)"

lemma history_queues:
  "\<exists>r. history_retry admin_env strict_lib (\<lambda>_. []) always_open None 5 clock cookie_request 3 history_db (\<lambda>_. None, (), q) =
     (r, [3 \<mapsto> clock + RETRY_COOLDOWN], (), q @ [(3, 1)])"
proof -
  have "id_in_column 3" by (simp add: id_in_column_def ID_MAX_def)
  moreover have "purge_slots clock (\<lambda>_. None) = (\<lambda>_. None)" by (rule ext) (simp add: purge_slots_def)
  ultimately show ?thesis
    by (subst history_retry_split)
       (simp add: history_user history_rows retry_entry_def claim_cases history_ready always_open_def)
qed

definition sample_retry :: "int \<Rightarrow> retry_request" where
  "sample_retry clock = \<lparr>rr_now = 5, rr_clock = clock, rr_request = cookie_request, rr_log = 3, rr_db = history_db, rr_broker = None\<rparr>"

theorem retries_spaced_witness:
  "sorted_wrt (\<lambda>(t, l) (t', l'). l = l' \<longrightarrow> t + RETRY_COOLDOWN \<le> t')
     (retry_run admin_env strict_lib (\<lambda>_. []) always_open (map sample_retry [0, 7, 60000000]) (\<lambda>_. None, (), [])) \<and>
   (0, 3) \<in> set (retry_run admin_env strict_lib (\<lambda>_. []) always_open (map sample_retry [0, 7, 60000000]) (\<lambda>_. None, (), []))"
proof -
  have "sorted (map rr_clock (map sample_retry [0, 7, 60000000]))" by (simp add: sample_retry_def)
  note spaced = retries_spaced [OF this, of admin_env strict_lib "\<lambda>_. []" always_open "(\<lambda>_. None, (), [])"]
  obtain r where "history_retry admin_env strict_lib (\<lambda>_. []) always_open None 5 0 cookie_request 3 history_db (\<lambda>_. None, (), []) =
     (r, [3 \<mapsto> RETRY_COOLDOWN], (), [(3, 1)])"
    using history_queues [of 0 "[]"] by auto
  then have "(0, 3) \<in> set (retry_run admin_env strict_lib (\<lambda>_. []) always_open (sample_retry 0 # map sample_retry [7, 60000000]) (\<lambda>_. None, (), []))"
    by (simp add: sample_retry_def Let_def)
  with spaced show ?thesis by simp
qed

definition faulty_group :: group where
  "faulty_group = sample_group\<lparr>grp_last_error := Some ''slow mode'', grp_error_at := Some 7\<rparr>"

theorem button_matches_handler_witness:
  "retry_availability history_db [(sample_log, Some faulty_group)] 1 = [(3, None)] \<and> rows_ready history_db 1 sample_log"
proof -
  have failed: "log_status sample_log \<noteq> ''ok''" by (simp add: history_rows)
  have joined: "Some faulty_group = Option.bind (nonzero_id (log_group_id sample_log)) (\<lambda>i. find_row grp_id i (db_groups history_db))"
    by code_simp
  have owners: "grp_user_id grp = acc_user_id acc"
    if "grp \<in> set (db_groups history_db)" "acc \<in> set (db_accounts history_db)" "acc_id acc = grp_account_id grp" for grp acc
  proof -
    have "grp_user_id grp \<in> grp_user_id ` set (db_groups history_db)" by (rule imageI) (rule that(1))
    also have "\<dots> = {1}" by code_simp
    finally have grp: "grp_user_id grp = 1" by (rule singletonD)
    have "set (db_accounts history_db) = {sample_account}"
      by (simp add: history_db_def retry_db_def sending_db_def)
    with that(2) have "acc = sample_account" by (metis singletonD)
    with grp show ?thesis by (simp add: sample_account_def)
  qed
  have "retry_availability history_db [(sample_log, Some faulty_group)] 1 = [(log_id sample_log, None)] \<longleftrightarrow>
      rows_ready history_db 1 sample_log"
    by (rule button_matches_handler [OF failed joined]) (rule owners)
  with history_ready show ?thesis by (simp only: history_rows)
qed

theorem queued_retry_passes_worker_witness:
  "\<exists>r s' q'. history_retry admin_env strict_lib (\<lambda>_. []) always_open None 5 0 cookie_request 3 history_db (\<lambda>_. None, (), []) = (r, s', (), q') \<and>
     q' = [(3, 1)] \<and> (\<exists>a \<in> set (db_ads history_db). ad_status a = AD_STATUS_PUBLISHED \<and> ad_user_id a = 1)"
proof -
  obtain r where run: "history_retry admin_env strict_lib (\<lambda>_. []) always_open None 5 0 cookie_request 3 history_db (\<lambda>_. None, (), []) =
     (r, [3 \<mapsto> 0 + RETRY_COOLDOWN], (), [(3, 1)])"
    using history_queues [of 0 "[]"] by auto
  from queued_retry_passes_worker [OF run] history_user run show ?thesis by fastforce
qed

end
