(* ===== verification/Listings.thy ===== *)
theory Listings
  imports Schedule_Editor History_Retry
begin

text \<open>
  The lists of the pages: advertisements (\<open>app/pages/ads.py\<close>) and schedules
  (\<open>app/pages/schedules.py\<close>), with the search, the filters, the counts next to a card and the
  pages the browser asks for one after the other. Moments shown in a zone stay instants. Among
  advertisements of the same moment the order is that of storage, which the database does not promise.
\<close>

section \<open>Search\<close>

text \<open>\<open>ilike(f"%{search}%")\<close>: the word goes into the pattern as it is.\<close>

definition ilike_search :: "string \<Rightarrow> string \<Rightarrow> bool" where
  "ilike_search search s = sql_like (lower (''%'' @ search @ ''%'')) (lower s)"

definition search_word :: "string option \<Rightarrow> string" where
  "search_word search = strip (case search of None \<Rightarrow> [] | Some s \<Rightarrow> s)"

section \<open>Advertisements\<close>

definition ADS_PAGE_SIZE :: nat where "ADS_PAGE_SIZE = 30"

definition CHANNEL_ORDER :: "string list" where "CHANNEL_ORDER = [''tg_user'', ''wa'', ''max'']"

definition ads_conditions :: "int \<Rightarrow> string \<Rightarrow> ad \<Rightarrow> bool" where
  "ads_conditions uid search a \<longleftrightarrow>
     ad_user_id a = uid \<and> (search \<noteq> [] \<longrightarrow> ilike_search search (ad_title a) \<or> ilike_search search (ad_text a))"

definition found_ads :: "int \<Rightarrow> string \<Rightarrow> db \<Rightarrow> ad list" where
  "found_ads uid search d = sort_key (\<lambda>a. - ad_created_at a) (filter (ads_conditions uid search) (db_ads d))"

record ad_card =
  cd_ad :: ad
  cd_sends :: nat
  cd_schedules :: nat
  cd_channels :: "(string \<times> nat) list"

definition account_type_of :: "db \<Rightarrow> int option \<Rightarrow> string option" where
  "account_type_of d account = Option.bind account (\<lambda>i. map_option acc_type (find_row acc_id i (db_accounts d)))"

definition enrich_ad :: "db \<Rightarrow> ad \<Rightarrow> ad_card" where
  "enrich_ad d a =
     (let sends = count_where (\<lambda>l. log_ad_id l = Some (ad_id a) \<and> log_status l = ''ok'') (db_send_logs d);
          scheds = filter (\<lambda>s. sch_ad_id s = ad_id a) (db_schedules d);
          channel = (\<lambda>t. count_where (\<lambda>s. account_type_of d (sch_account_id s) = Some t) scheds)
      in \<lparr>cd_ad = a, cd_sends = sends, cd_schedules = length scheds,
          cd_channels = map (\<lambda>t. (t, channel t)) (filter (\<lambda>t. channel t > 0) CHANNEL_ORDER)\<rparr>)"

record ads_page_view =
  ap_cards :: "ad_card list"
  ap_has_next :: bool
  ap_next_offset :: nat

text \<open>One more row than a page holds is asked for; it says whether there is a next page.\<close>

definition ads_partial :: "int \<Rightarrow> string option \<Rightarrow> nat \<Rightarrow> nat \<Rightarrow> db \<Rightarrow> ads_page_view" where
  "ads_partial uid search offset limit d =
     (let rows = take (limit + 1) (drop offset (found_ads uid (search_word search) d))
      in \<lparr>ap_cards = map (enrich_ad d) (take limit rows), ap_has_next = (length rows > limit),
          ap_next_offset = offset + limit\<rparr>)"

definition ads_list :: "int \<Rightarrow> string option \<Rightarrow> db \<Rightarrow> ads_page_view \<times> nat" where
  "ads_list uid search d =
     (ads_partial uid search 0 ADS_PAGE_SIZE d,
      count_where (ads_conditions uid (search_word search)) (db_ads d))"

section \<open>Schedules\<close>

definition SCHEDULES_PAGE_SIZE :: nat where "SCHEDULES_PAGE_SIZE = 30"
definition SUMMARY_GROUP_NAMES :: nat where "SUMMARY_GROUP_NAMES = 3"
definition CHANNEL_FILTER_VALUES :: "string set" where "CHANNEL_FILTER_VALUES = {''tg_user'', ''wa'', ''max''}"
definition STATE_FILTER_VALUES :: "string set" where "STATE_FILTER_VALUES = {''active'', ''paused''}"

definition chosen :: "string option \<Rightarrow> string set \<Rightarrow> string" where
  "chosen v allowed =
     (case v of None \<Rightarrow> [] | Some s \<Rightarrow> if s = [] then [] else if strip s \<in> allowed then strip s else [])"

text \<open>\<open>any(needle in (t or "").lower() for t in values)\<close>: it stops at the first hit.\<close>

fun time_hit :: "string \<Rightarrow> pyval list \<Rightarrow> exn + bool" where
  "time_hit needle [] = Inr False"
| "time_hit needle (v # vs) =
     (case (if truthy v then v else PStr []) of
        PStr s \<Rightarrow> if contains needle (lower s) then Inr True else time_hit needle vs
      | _ \<Rightarrow> Inl AttributeError)"

definition own_schedules :: "int \<Rightarrow> db \<Rightarrow> schedule list" where
  "own_schedules uid d = filter (\<lambda>s. owns_ad d uid (sch_ad_id s)) (db_schedules d)"

definition time_matching_ids :: "int \<Rightarrow> string \<Rightarrow> db \<Rightarrow> exn + int list" where
  "time_matching_ids uid term d =
     bind_res (map_res (\<lambda>s. bind_res (py_iter (or_list (sch_times_of_day s))) (\<lambda>vs.
                 bind_res (time_hit (lower term) vs) (\<lambda>hit. Inr (sch_id s, hit)))) (own_schedules uid d))
       (\<lambda>rows. Inr (map fst (filter snd rows)))"

definition ad_of_schedule :: "db \<Rightarrow> schedule \<Rightarrow> ad option" where
  "ad_of_schedule d s = find_row ad_id (sch_ad_id s) (db_ads d)"

definition schedule_filter :: "db \<Rightarrow> string \<Rightarrow> string \<Rightarrow> string \<Rightarrow> int list \<Rightarrow> schedule \<Rightarrow> bool" where
  "schedule_filter d channel state search time_ids s \<longleftrightarrow>
     (channel \<noteq> [] \<longrightarrow> account_type_of d (sch_account_id s) = Some channel) \<and>
     (state \<noteq> [] \<longrightarrow> sch_is_active s = (state = ''active'')) \<and>
     (search \<noteq> [] \<longrightarrow>
        (case ad_of_schedule d s of None \<Rightarrow> False | Some a \<Rightarrow> ilike_search search (ad_title a)) \<or> sch_id s \<in> set time_ids)"

text \<open>Names of the groups of a schedule; what cannot be a key of a dictionary raises.\<close>

fun group_key :: "pyval \<Rightarrow> exn + int option" where
  "group_key (PInt n) = Inr (Some n)"
| "group_key (PBool b) = Inr (Some (if b then 1 else 0))"
| "group_key (PStr s) = Inr None"
| "group_key PNone = Inr None"
| "group_key _ = Inl TypeError"

definition group_name_of :: "db \<Rightarrow> int \<Rightarrow> int \<Rightarrow> string option" where
  "group_name_of d uid g =
     (case find_row grp_id g (db_groups d) of
        None \<Rightarrow> None | Some r \<Rightarrow> if grp_user_id r = uid then Some (grp_name r) else None)"

record schedule_item =
  it_schedule :: schedule
  it_ad_title :: string
  it_messenger_type :: "string option"
  it_is_draft :: bool
  it_group_names :: "string list"
  it_group_extra :: nat
  it_group_total :: nat

definition schedule_item_of :: "db \<Rightarrow> int \<Rightarrow> schedule \<Rightarrow> exn + schedule_item" where
  "schedule_item_of d uid s =
     bind_res (py_iter (or_list (sch_group_ids s))) (\<lambda>vs.
       bind_res (map_res group_key vs) (\<lambda>keys.
         let names = List.map_filter (\<lambda>k. Option.bind k (group_name_of d uid)) keys;
             a = ad_of_schedule d s
         in Inr \<lparr>it_schedule = s, it_ad_title = (case a of None \<Rightarrow> [] | Some r \<Rightarrow> ad_title r),
                 it_messenger_type = account_type_of d (sch_account_id s),
                 it_is_draft = (case a of None \<Rightarrow> False | Some r \<Rightarrow> ad_status r = AD_STATUS_DRAFT),
                 it_group_names = take SUMMARY_GROUP_NAMES names,
                 it_group_extra = length names - SUMMARY_GROUP_NAMES, it_group_total = length names\<rparr>))"

record schedules_page_view =
  sp_items :: "schedule_item list"
  sp_has_next :: bool
  sp_next_after :: "int option"

definition found_schedules :: "int \<Rightarrow> string option \<Rightarrow> string option \<Rightarrow> string option \<Rightarrow> db \<Rightarrow> exn + schedule list" where
  "found_schedules uid channel state search d =
     (let word = search_word search
      in bind_res (if word = [] then Inr [] else time_matching_ids uid word d) (\<lambda>time_ids.
           Inr (sort_key sch_id
                  (filter (schedule_filter d (chosen channel CHANNEL_FILTER_VALUES) (chosen state STATE_FILTER_VALUES) word time_ids)
                    (own_schedules uid d)))))"

text \<open>A page starts behind the last identifier the browser has.\<close>

definition schedules_partial ::
  "int \<Rightarrow> string option \<Rightarrow> string option \<Rightarrow> string option \<Rightarrow> int option \<Rightarrow> nat \<Rightarrow> db \<Rightarrow> exn + schedules_page_view" where
  "schedules_partial uid channel state search after_id limit d =
     bind_res (found_schedules uid channel state search d) (\<lambda>found.
       let rows = take (limit + 1) (filter (\<lambda>s. case after_id of None \<Rightarrow> True | Some i \<Rightarrow> i < sch_id s) found);
           page = take limit rows
       in bind_res (map_res (schedule_item_of d uid) page) (\<lambda>items.
            Inr \<lparr>sp_items = items, sp_has_next = (length rows > limit),
                 sp_next_after = (if page = [] then None else Some (sch_id (last page)))\<rparr>))"

definition schedules_list ::
  "int \<Rightarrow> string option \<Rightarrow> string option \<Rightarrow> string option \<Rightarrow> db \<Rightarrow> exn + schedules_page_view \<times> nat" where
  "schedules_list uid channel state search d =
     bind_res (schedules_partial uid channel state search None SCHEDULES_PAGE_SIZE d) (\<lambda>view.
       bind_res (found_schedules uid channel state search d) (\<lambda>found. Inr (view, length found)))"

section \<open>Walking through the pages\<close>

text \<open>
  The browser asks for page after page; between two requests the database may change. The walk is
  over when a page says it is the last one.
\<close>

fun schedule_walk ::
  "int \<Rightarrow> string option \<Rightarrow> string option \<Rightarrow> string option \<Rightarrow> nat \<Rightarrow> int option \<Rightarrow> db list \<Rightarrow> exn + int list \<times> bool" where
  "schedule_walk uid channel state search limit after_id [] = Inr ([], False)"
| "schedule_walk uid channel state search limit after_id (d # ds) =
     bind_res (schedules_partial uid channel state search after_id limit d) (\<lambda>view.
       let shown = map (\<lambda>it. sch_id (it_schedule it)) (sp_items view)
       in if sp_has_next view
          then bind_res (schedule_walk uid channel state search limit (sp_next_after view) ds) (\<lambda>(ids, over).
                 Inr (shown @ ids, over))
          else Inr (shown, True))"

definition beyond :: "int option \<Rightarrow> int \<Rightarrow> bool" where
  "beyond a i \<longleftrightarrow> (case a of None \<Rightarrow> True | Some k \<Rightarrow> k < i)"

lemma item_schedule: "schedule_item_of d uid s = Inr it \<Longrightarrow> it_schedule it = s"
  by (auto simp: schedule_item_of_def result_simps Let_def)

lemma items_schedules: "map_res (schedule_item_of d uid) ss = Inr its \<Longrightarrow> map it_schedule its = ss"
  by (induction ss arbitrary: its) (auto simp: result_simps dest: item_schedule)

lemma found_sorted:
  assumes "found_schedules uid channel state search d = Inr found"
  shows "sorted (map sch_id found) \<and> set found \<subseteq> set (db_schedules d) \<and>
    (distinct (map sch_id (db_schedules d)) \<longrightarrow> distinct (map sch_id found))"
proof -
  have d: "distinct (map sch_id (sort_key sch_id (filter P xs)))" if "distinct (map sch_id xs)" for P and xs :: "schedule list"
  proof -
    have "distinct (map sch_id (filter P xs))" using that by (induction xs) auto
    then show ?thesis by (simp add: distinct_map)
  qed
  from assms show ?thesis
    using d by (auto simp: found_schedules_def own_schedules_def Let_def result_simps)
qed

lemma take_of_sorted:
  assumes "sorted_wrt (<) (map key xs)" "x \<in> set xs" "n < length xs" "0 < n" "(key x :: int) \<le> key (last (take n xs))"
  shows "x \<in> set (take n xs)"
proof (rule ccontr)
  assume no: "x \<notin> set (take n xs)"
  have "x \<in> set (take n xs) \<union> set (drop n xs)" using assms(2) by (metis append_take_drop_id set_append)
  with no have "x \<in> set (drop n xs)" by blast
  moreover have "last (take n xs) \<in> set (take n xs)" using assms(3,4) by (intro last_in_set) auto
  moreover have "sorted_wrt (<) (map key (take n xs) @ map key (drop n xs))"
    using assms(1) by (metis append_take_drop_id map_append)
  ultimately have "key (last (take n xs)) < key x" by (auto simp: sorted_wrt_append)
  with assms(5) show False by simp
qed

lemma schedules_partial_rows:
  assumes "schedules_partial uid channel state search after_id limit d = Inr view" "0 < limit"
    and "distinct (map sch_id (db_schedules d))"
  obtains rest :: "schedule list" where "sorted_wrt (<) (map sch_id rest)"
    "map (\<lambda>it. sch_id (it_schedule it)) (sp_items view) = map sch_id (take limit rest)"
    "sp_has_next view = (limit < length rest)"
    "sp_has_next view \<Longrightarrow> sp_next_after view = Some (sch_id (last (take limit rest)))"
    "\<And>found i. found_schedules uid channel state search d = Inr found \<Longrightarrow>
       i \<in> set (map sch_id rest) \<longleftrightarrow> i \<in> set (map sch_id found) \<and> beyond after_id i"
    "\<And>i. i \<in> set (map sch_id rest) \<Longrightarrow> beyond after_id i"
proof -
  obtain found where f: "found_schedules uid channel state search d = Inr found"
    using assms(1) by (auto simp: schedules_partial_def result_simps)
  let ?rest = "filter (\<lambda>s. beyond after_id (sch_id s)) found"
  have beyond: "(\<lambda>s. case after_id of None \<Rightarrow> True | Some i \<Rightarrow> i < sch_id s) = (\<lambda>s. beyond after_id (sch_id s))"
    by (simp add: beyond_def)
  obtain items where items: "map_res (schedule_item_of d uid) (take limit ?rest) = Inr items" "sp_items view = items"
    "sp_has_next view = (limit < length ?rest)"
    "sp_next_after view = (if take limit ?rest = [] then None else Some (sch_id (last (take limit ?rest))))"
    using assms(1,2) by (auto simp: schedules_partial_def f beyond Let_def result_simps min_def split: if_splits)
  have "map (\<lambda>it. sch_id (it_schedule it)) items = map sch_id (map it_schedule items)" by simp
  then have shown: "map (\<lambda>it. sch_id (it_schedule it)) (sp_items view) = map sch_id (take limit ?rest)"
    using items_schedules [OF items(1)] items(2) by simp
  have "sorted (map sch_id ?rest)" "distinct (map sch_id ?rest)"
    using found_sorted [OF f] assms(3) by (auto simp: sorted_filter distinct_map_filter)
  then have "sorted_wrt (<) (map sch_id ?rest)" by (simp add: strict_sorted_iff)
  then show ?thesis
    using shown items(3,4) f assms(2)
    by (intro that [of ?rest]) auto
qed

lemma le_last: "sorted_wrt (<) (map key xs) \<Longrightarrow> x \<in> set xs \<Longrightarrow> (key x :: int) \<le> key (last xs)"
  by (induction xs) (auto simp: less_imp_le)

lemma schedule_walk_complete:
  assumes "schedule_walk uid channel state search limit after_id ds = Inr (ids, True)" "0 < limit"
    and "\<And>d. d \<in> set ds \<Longrightarrow> distinct (map sch_id (db_schedules d))"
  shows "sorted_wrt (<) ids \<and> (\<forall>i \<in> set ids. beyond after_id i) \<and>
    (\<forall>i. beyond after_id i \<longrightarrow>
       (\<forall>d \<in> set ds. \<forall>found. found_schedules uid channel state search d = Inr found \<longrightarrow> i \<in> set (map sch_id found)) \<longrightarrow>
       i \<in> set ids)"
  using assms(1,3)
proof (induction ds arbitrary: after_id ids)
  case Nil
  then show ?case by simp
next
  case (Cons d ds)
  obtain view where v: "schedules_partial uid channel state search after_id limit d = Inr view"
    using Cons.prems(1) by (auto simp: result_simps)
  then obtain found where f: "found_schedules uid channel state search d = Inr found"
    by (auto simp: schedules_partial_def result_simps)
  have ids_ok: "distinct (map sch_id (db_schedules d))" using Cons.prems(2) by simp
  obtain rest :: "schedule list" where rest: "sorted_wrt (<) (map sch_id rest)"
    "map (\<lambda>it. sch_id (it_schedule it)) (sp_items view) = map sch_id (take limit rest)"
    "sp_has_next view = (limit < length rest)"
    "sp_has_next view \<Longrightarrow> sp_next_after view = Some (sch_id (last (take limit rest)))"
    "\<And>found i. found_schedules uid channel state search d = Inr found \<Longrightarrow>
       i \<in> set (map sch_id rest) \<longleftrightarrow> i \<in> set (map sch_id found) \<and> beyond after_id i"
    "\<And>i. i \<in> set (map sch_id rest) \<Longrightarrow> beyond after_id i"
    using schedules_partial_rows [OF v assms(2) ids_ok] by blast
  have sorted_page: "sorted_wrt (<) (map sch_id (take limit rest))"
    using rest(1) by (metis sorted_wrt_take take_map)
  show ?case
  proof (cases "limit < length rest")
    case False
    with Cons.prems(1) v rest(2,3) have "ids = map sch_id rest" by simp
    with rest(1,6) rest(5) [OF f] f show ?thesis by auto
  next
    case True
    let ?k = "sch_id (last (take limit rest))"
    from Cons.prems(1) v rest(2,3,4) True obtain more where
      more: "schedule_walk uid channel state search limit (Some ?k) ds = Inr (more, True)" "ids = map sch_id (take limit rest) @ more"
      by (auto simp: result_simps)
    note IH = Cons.IH [OF more(1) Cons.prems(2)]
    have last: "last (take limit rest) \<in> set (take limit rest)" using True assms(2) by (intro last_in_set) auto
    have page_le: "sch_id s \<le> ?k" if "s \<in> set (take limit rest)" for s
      using le_last [OF sorted_page that] .
    have beyond_k: "beyond after_id ?k" using rest(6) last by (auto dest: in_set_takeD)
    have "beyond after_id i" if "i \<in> set ids" for i
    proof (cases "i \<in> set more")
      case True
      with IH have "?k < i" by (auto simp: beyond_def)
      with beyond_k show ?thesis by (auto simp: beyond_def split: option.splits)
    next
      case False
      with that more(2) rest(6) show ?thesis by (auto dest: in_set_takeD)
    qed
    moreover have "sorted_wrt (<) ids"
      using more(2) sorted_page IH page_le by (fastforce simp: sorted_wrt_append beyond_def)
    moreover have "i \<in> set ids" if i: "beyond after_id i"
      "\<forall>d \<in> set (d # ds). \<forall>found. found_schedules uid channel state search d = Inr found \<longrightarrow> i \<in> set (map sch_id found)" for i
    proof (cases "?k < i")
      case True
      with i IH have "i \<in> set more" by (auto simp: beyond_def)
      with more(2) show ?thesis by simp
    next
      case False
      from i f rest(5) [OF f] have "i \<in> set (map sch_id rest)" by auto
      then obtain s where s: "s \<in> set rest" "sch_id s = i" by auto
      with take_of_sorted [OF rest(1) s(1) True assms(2)] False more(2) show ?thesis by auto
    qed
    ultimately show ?thesis by blast
  qed
qed

section \<open>Properties\<close>

text \<open>
  scrolling through the schedules shows every one once. Whatever is added, changed or removed
  between two pages, no schedule appears twice, and one that matches the filters all the while is
  not skipped.
\<close>

theorem schedule_pages_miss_nothing:
  assumes "schedule_walk uid channel state search limit None ds = Inr (ids, True)" "0 < limit"
    and "\<And>d. d \<in> set ds \<Longrightarrow> distinct (map sch_id (db_schedules d))"
  shows "distinct ids \<and>
    (\<forall>i. (\<forall>d \<in> set ds. \<exists>found. found_schedules uid channel state search d = Inr found \<and> i \<in> sch_id ` set found) \<longrightarrow>
       i \<in> set ids)"
proof -
  note walk = schedule_walk_complete [OF assms]
  then have "distinct ids" by (simp add: strict_sorted_iff)
  moreover have "i \<in> set ids"
    if "\<forall>d \<in> set ds. \<exists>found. found_schedules uid channel state search d = Inr found \<and> i \<in> sch_id ` set found" for i
    using walk that by (fastforce simp: beyond_def)
  ultimately show ?thesis by blast
qed

text \<open>
  the pages of the list of advertisements are consecutive pieces of the found advertisements of
  this user, with a further page announced exactly when there is one, and the number next to the
  list is the length of what the pages show.
\<close>

theorem ads_pages_partition:
  assumes "0 < limit"
  shows "let found = found_ads uid (search_word search) d;
           page = (\<lambda>k. ads_partial uid search (k * limit) limit d)
       in concat (map (\<lambda>k. map cd_ad (ap_cards (page k))) [0..<n]) = take (n * limit) found \<and>
          (\<forall>k. ap_has_next (page k) \<longleftrightarrow> ap_next_offset (page k) < length found) \<and>
          snd (ads_list uid search d) = length found \<and> (\<forall>a \<in> set found. ad_user_id a = uid)"
proof -
  let ?found = "found_ads uid (search_word search) d"
  have cards: "map cd_ad (ap_cards (ads_partial uid search (k * limit) limit d)) = take limit (drop (k * limit) ?found)" for k
    by (simp add: ads_partial_def enrich_ad_def Let_def comp_def)
  have "concat (map (\<lambda>k. map cd_ad (ap_cards (ads_partial uid search (k * limit) limit d))) [0..<n]) = take (n * limit) ?found"
    unfolding cards by (rule concat_pages)
  moreover have "ap_has_next (ads_partial uid search (k * limit) limit d) \<longleftrightarrow>
      ap_next_offset (ads_partial uid search (k * limit) limit d) < length ?found" for k
    by (auto simp: ads_partial_def min_def)
  moreover have "snd (ads_list uid search d) = length ?found"
    by (simp add: ads_list_def found_ads_def count_where_def)
  moreover have "\<forall>a \<in> set ?found. ad_user_id a = uid" by (auto simp: found_ads_def ads_conditions_def)
  ultimately show ?thesis by (simp add: Let_def)
qed

lemma ads_pages_partition_witness:
  "map cd_ad (ap_cards (ads_partial 1 (Some ''sa'') 0 30 (sample_db\<lparr>db_ads := [sample_ad]\<rparr>))) = [sample_ad]"
proof -
  have "found_ads 1 (search_word (Some ''sa'')) (sample_db\<lparr>db_ads := [sample_ad]\<rparr>) = [sample_ad]"
    by code_simp
  with ads_pages_partition [of 30 1 "Some ''sa''" "sample_db\<lparr>db_ads := [sample_ad]\<rparr>" 1] show ?thesis
    by (simp add: Let_def)
qed

text \<open>
  The search of advertisements does not quote the word it is given: a percent sign finds every
  advertisement, where the search of users of the administration looks for the sign itself.
\<close>

lemma ads_search_takes_wildcards:
  "found_ads uid ''%'' d = found_ads uid [] d"
proof -
  have all: "sql_like ''%%%'' s" for s by (induction s) simp_all
  have "lower (''%'' @ ''%'' @ ''%'') = ''%%%''" by code_simp
  with all have "ilike_search ''%'' s" for s unfolding ilike_search_def by metis
  then have "ads_conditions uid ''%'' = ads_conditions uid []" by (intro ext) (simp add: ads_conditions_def)
  then show ?thesis by (simp add: found_ads_def)
qed

lemma schedule_pages_miss_nothing_witness:
  "\<exists>ids. schedule_walk 1 None None None 30 None [sample_schedule_db] = Inr (ids, True) \<and> distinct ids \<and> 1 \<in> set ids"
proof -
  have ok: "fst (case schedule_walk 1 None None None 30 None [sample_schedule_db] of Inr (ids, over) \<Rightarrow> (over, ids) | Inl e \<Rightarrow> (False, []))"
    by code_simp
  then obtain ids where run: "schedule_walk 1 None None None 30 None [sample_schedule_db] = Inr (ids, True)"
    by (auto split: sum.splits prod.splits)
  have d: "distinct (map sch_id (db_schedules d))" if "d \<in> set [sample_schedule_db]" for d
    using that by (simp add: sample_schedule_db_def)
  have "\<not> (case found_schedules 1 None None None sample_schedule_db of Inl e \<Rightarrow> True | Inr found \<Rightarrow> map sch_id found \<noteq> [1])"
    by code_simp
  then obtain found where "found_schedules 1 None None None sample_schedule_db = Inr found" "map sch_id found = [1]"
    by (auto split: sum.splits)
  then have "\<forall>d \<in> set [sample_schedule_db]. \<exists>found. found_schedules 1 None None None d = Inr found \<and> 1 \<in> sch_id ` set found"
    by (metis empty_iff empty_set list.set_intros(1) list.set_map set_ConsD)
  with schedule_pages_miss_nothing [OF run _ d] run show ?thesis by auto
qed

end
