(* ===== verification/Telegram_Sign_In.thy ===== *)
theory Telegram_Sign_In
  imports Ad_Editor Group_Resync
begin

text \<open>
  Connecting a Telegram account by a QR code: the sign-ins under way of
  \<open>app/messengers/telegram_user.py\<close> and the handlers of \<open>app/pages/accounts.py\<close> over them.

  A sign-in is the entry of a dictionary in memory. What the Telegram library answers, the ids
  (\<open>uuid4\<close>) and the readings of the clock are arguments; the library's session string is what
  an account is saved with. Everything between two suspensions of a request is one step. The texts
  are a datatype; rendering a step is an argument. Instants are microseconds.
\<close>

section \<open>The sign-ins under way\<close>

definition QR_SESSION_TTL :: int where "QR_SESSION_TTL = 300000000"

record qr_state =
  qs_user :: int
  qs_status :: string
  qs_session_string :: "string option"
  qs_error :: "string option"
  qs_created_at :: int

type_synonym qr_store = "string \<rightharpoonup> qr_state"

definition qr_too_old :: "int \<Rightarrow> qr_state \<Rightarrow> bool" where
  "qr_too_old now st \<longleftrightarrow> QR_SESSION_TTL < now - qs_created_at st"

definition cleanup_expired_sessions :: "int \<Rightarrow> qr_store \<Rightarrow> qr_store" where
  "cleanup_expired_sessions now m =
     (\<lambda>sid. case m sid of None \<Rightarrow> None | Some st \<Rightarrow> if qr_too_old now st then None else Some st)"

text \<open>Connecting or asking for the code may raise, after the old sign-ins are cleaned up.\<close>

definition start_qr_auth ::
  "string + string \<Rightarrow> string \<Rightarrow> int \<Rightarrow> int \<Rightarrow> int \<Rightarrow> qr_store \<Rightarrow> (string + string \<times> string) \<times> qr_store" where
  "start_qr_auth code sid now now2 uid m =
     (let m1 = cleanup_expired_sessions now m in
      case code of
        Inl e \<Rightarrow> (Inl e, m1)
      | Inr url \<Rightarrow>
          (Inr (sid, url),
           m1(sid \<mapsto> \<lparr>qs_user = uid, qs_status = ''waiting'', qs_session_string = None, qs_error = None,
                       qs_created_at = now2\<rparr>)))"

text \<open>How the wait for the scan ends; a cancelled wait writes nothing.\<close>

datatype qr_wait = QrScanned string | QrTimeout | QrNeedsPassword | QrFailed string | QrCancelled

definition wait_for_qr :: "qr_wait \<Rightarrow> string \<Rightarrow> qr_store \<Rightarrow> qr_store" where
  "wait_for_qr w sid m =
     (case m sid of
        None \<Rightarrow> m
      | Some st \<Rightarrow>
          (case w of
             QrScanned s \<Rightarrow> m(sid \<mapsto> st\<lparr>qs_session_string := Some s, qs_status := ''success''\<rparr>)
           | QrTimeout \<Rightarrow> m(sid \<mapsto> st\<lparr>qs_status := ''qr_expired''\<rparr>)
           | QrNeedsPassword \<Rightarrow> m(sid \<mapsto> st\<lparr>qs_status := ''needs_2fa''\<rparr>)
           | QrFailed e \<Rightarrow> m(sid \<mapsto> st\<lparr>qs_status := ''error'', qs_error := Some e\<rparr>)
           | QrCancelled \<Rightarrow> m))"

definition owned_sign_in :: "string \<Rightarrow> int \<Rightarrow> qr_store \<Rightarrow> qr_state option" where
  "owned_sign_in sid uid m =
     (case m sid of None \<Rightarrow> None | Some st \<Rightarrow> if qs_user st = uid then Some st else None)"

definition get_qr_status :: "int \<Rightarrow> string \<Rightarrow> int \<Rightarrow> qr_store \<Rightarrow> string \<times> string option" where
  "get_qr_status now sid uid m =
     (case owned_sign_in sid uid m of
        None \<Rightarrow> (''gone'', None)
      | Some st \<Rightarrow>
          if qs_status st = ''success'' then (''success'', None)
          else if qr_too_old now st then (''expired'', None)
          else (qs_status st, case qs_error st of Some [] \<Rightarrow> None | e \<Rightarrow> e))"

text \<open>The new code may raise; the sign-in starts over with its clock when it comes.\<close>

definition may_refresh :: "int \<Rightarrow> string \<Rightarrow> int \<Rightarrow> qr_store \<Rightarrow> bool" where
  "may_refresh now sid uid m \<longleftrightarrow>
     (case owned_sign_in sid uid m of
        None \<Rightarrow> False | Some st \<Rightarrow> qs_status st = ''qr_expired'' \<and> \<not> qr_too_old now st)"

definition refreshed :: "int \<Rightarrow> string \<Rightarrow> qr_store \<Rightarrow> qr_store" where
  "refreshed now2 sid m =
     (case m sid of None \<Rightarrow> m | Some st \<Rightarrow> m(sid \<mapsto> st\<lparr>qs_status := ''waiting'', qs_created_at := now2\<rparr>))"

definition refresh_qr :: "string option \<Rightarrow> int \<Rightarrow> int \<Rightarrow> string \<Rightarrow> int \<Rightarrow> qr_store \<Rightarrow> string option \<times> qr_store" where
  "refresh_qr recreated now now2 sid uid m =
     (if \<not> may_refresh now sid uid m then (None, m)
      else case recreated of None \<Rightarrow> (None, m) | Some url \<Rightarrow> (Some url, refreshed now2 sid m))"

text \<open>The password: what signing in with it gives.\<close>

datatype password_answer = PasswordAccepted string | PasswordWrong | PasswordRuntime string | PasswordRaised

definition password_accepted :: "string \<Rightarrow> string \<Rightarrow> qr_store \<Rightarrow> qr_store" where
  "password_accepted s sid m =
     (case m sid of None \<Rightarrow> m | Some st \<Rightarrow> m(sid \<mapsto> st\<lparr>qs_session_string := Some s, qs_status := ''success''\<rparr>))"

text \<open>The session string is handed out once: the entry leaves the dictionary with it.\<close>

definition complete_auth :: "string \<Rightarrow> int \<Rightarrow> qr_store \<Rightarrow> string option \<times> qr_store" where
  "complete_auth sid uid m =
     (case owned_sign_in sid uid m of
        None \<Rightarrow> (None, m)
      | Some st \<Rightarrow> if qs_status st \<noteq> ''success'' then (None, m) else (qs_session_string st, m(sid := None)))"

definition cleanup_qr_session :: "string \<Rightarrow> qr_store \<Rightarrow> qr_store" where
  "cleanup_qr_session sid m = m(sid := None)"

section \<open>The handlers\<close>

datatype sign_in_text =
    ApiNotConfigured
  | QrStartFailed string
  | AuthFailed
  | SessionExpired
  | SessionNotFound
  | EmptyPassword
  | RefreshFailed
  | WrongPassword
  | LibraryText string

record tg_step =
  ts_step :: string
  ts_session_id :: "string option"
  ts_qr :: "string option"
  ts_error :: "sign_in_text option"
  ts_password_error :: "sign_in_text option"

definition plain_step :: "string \<Rightarrow> tg_step" where
  "plain_step s = \<lparr>ts_step = s, ts_session_id = None, ts_qr = None, ts_error = None, ts_password_error = None\<rparr>"

type_synonym tg_markup = "tg_step \<Rightarrow> exn + body_response"

definition new_account :: "int \<Rightarrow> string \<Rightarrow> string \<Rightarrow> string \<Rightarrow> int \<Rightarrow> db \<Rightarrow> account" where
  "new_account uid ty credentials status now d =
     \<lparr>acc_id = next_id acc_id (db_accounts d), acc_user_id = uid, acc_type = ty, acc_credentials = credentials,
      acc_session_data = None, acc_status = status, acc_last_synced_at = None, acc_last_sync_result = None,
      acc_created_at = now\<rparr>"

definition add_account :: "account \<Rightarrow> db \<Rightarrow> db" where
  "add_account a d = d\<lparr>db_accounts := db_accounts d @ [a]\<rparr>"

definition save_tg_account :: "int \<Rightarrow> string \<Rightarrow> int \<Rightarrow> db \<Rightarrow> db" where
  "save_tg_account uid session_string now d = add_account (new_account uid ''tg_user'' session_string ''active'' now d) d"

definition TG_URL :: string where "TG_URL = ''/accounts/connect/tg_user''"

text \<open>The user of a page that changes state; without one the answer is the way to the sign-in.\<close>

definition for_user ::
  "sign_env \<Rightarrow> (string \<Rightarrow> string) \<Rightarrow> int \<Rightarrow> http_request \<Rightarrow> db \<Rightarrow> 's \<Rightarrow> (user \<Rightarrow> (exn + reply) \<times> 's) \<Rightarrow> (exn + reply) \<times> 's" where
  "for_user en oob now rq d s k =
     (case page_request en now rq d of
        Inl e \<Rightarrow> (Inl e, s)
      | Inr None \<Rightarrow> (respond oob rq ''/login'' None None, s)
      | Inr (Some u) \<Rightarrow> k u)"

definition tg_start_qr ::
  "sign_env \<Rightarrow> (string \<Rightarrow> string) \<Rightarrow> tg_markup \<Rightarrow> bool \<Rightarrow> string + string \<Rightarrow> string \<Rightarrow> int \<Rightarrow> int \<Rightarrow> http_request \<Rightarrow>
     db \<times> qr_store \<Rightarrow> (exn + reply) \<times> db \<times> qr_store" where
  "tg_start_qr en oob markup configured code sid now now2 rq s =
     for_user en oob now rq (fst s) s (\<lambda>u.
       if \<not> configured
       then (respond oob rq TG_URL None (Some (markup ((plain_step ''error'')\<lparr>ts_error := Some ApiNotConfigured\<rparr>))), s)
       else case start_qr_auth code sid now now2 (user_id u) (snd s) of
              (Inl e, m) \<Rightarrow>
                (respond oob rq TG_URL None (Some (markup ((plain_step ''error'')\<lparr>ts_error := Some (QrStartFailed e)\<rparr>))), fst s, m)
            | (Inr (i, url), m) \<Rightarrow>
                (respond oob rq TG_URL None
                   (Some (markup ((plain_step ''waiting'')\<lparr>ts_session_id := Some i, ts_qr := Some url\<rparr>))), fst s, m))"

text \<open>Handing the session string over and saving the account: no account without one.\<close>

definition finish_sign_in :: "string \<Rightarrow> int \<Rightarrow> int \<Rightarrow> db \<times> qr_store \<Rightarrow> bool \<times> db \<times> qr_store" where
  "finish_sign_in sid uid now s =
     (case complete_auth sid uid (snd s) of
        (Some (c # cs), m) \<Rightarrow> (True, save_tg_account uid (c # cs) now (fst s), m)
      | (_, m) \<Rightarrow> (False, fst s, m))"

definition status_step :: "string \<Rightarrow> string option \<Rightarrow> string \<times> sign_in_text option" where
  "status_step status error =
     (if status = ''gone'' then (''error'', Some SessionNotFound)
      else if status = ''expired'' then (''error'', Some SessionExpired)
      else if status = ''error'' then
        (''error'', Some (case error of Some (c # cs) \<Rightarrow> LibraryText (c # cs) | _ \<Rightarrow> AuthFailed))
      else if status = ''needs_2fa'' then (''password'', None)
      else if status = ''qr_expired'' then (''qr_expired'', None)
      else (''error'', Some AuthFailed))"

definition tg_qr_status ::
  "sign_env \<Rightarrow> (string \<Rightarrow> string) \<Rightarrow> tg_markup \<Rightarrow> exn + body_response \<Rightarrow> int \<Rightarrow> http_request \<Rightarrow> string \<Rightarrow>
     db \<times> qr_store \<Rightarrow> (exn + reply) \<times> db \<times> qr_store" where
  "tg_qr_status en oob markup no_content now rq sid s =
     for_user en oob now rq (fst s) s (\<lambda>u.
       let (status, error) = get_qr_status now sid (user_id u) (snd s) in
       if status = ''waiting'' then (respond oob rq TG_URL None (Some no_content), s)
       else
         let (step, s') =
           (if status = ''success''
            then (case finish_sign_in sid (user_id u) now s of
                    (True, s1) \<Rightarrow> ((''connected'', None), s1)
                  | (False, s1) \<Rightarrow> ((''error'', Some SessionNotFound), s1))
            else (status_step status error, s))
         in (respond oob rq TG_URL None (Some (markup ((plain_step (fst step))\<lparr>ts_session_id := Some sid, ts_error := snd step\<rparr>))), s'))"

definition tg_refresh_qr ::
  "sign_env \<Rightarrow> (string \<Rightarrow> string) \<Rightarrow> tg_markup \<Rightarrow> string option \<Rightarrow> int \<Rightarrow> int \<Rightarrow> http_request \<Rightarrow> string \<Rightarrow>
     db \<times> qr_store \<Rightarrow> (exn + reply) \<times> db \<times> qr_store" where
  "tg_refresh_qr en oob markup recreated now now2 rq sid s =
     for_user en oob now rq (fst s) s (\<lambda>u.
       let status = fst (get_qr_status now sid (user_id u) (snd s));
           failed = (plain_step ''error'')\<lparr>ts_session_id := Some sid\<rparr>;
           (step, m) =
             (if status = ''gone'' then (failed\<lparr>ts_error := Some SessionNotFound\<rparr>, snd s)
              else if status = ''expired'' then (failed\<lparr>ts_error := Some SessionExpired\<rparr>, snd s)
              else if status = ''qr_expired''
              then (case refresh_qr recreated now now2 sid (user_id u) (snd s) of
                      (Some (c # cs), m) \<Rightarrow> (failed\<lparr>ts_step := ''waiting'', ts_qr := Some (c # cs)\<rparr>, m)
                    | (_, m) \<Rightarrow> (failed\<lparr>ts_error := Some RefreshFailed\<rparr>, m))
              else (failed\<lparr>ts_error := Some RefreshFailed\<rparr>, snd s))
       in (respond oob rq TG_URL None (Some (markup step)), fst s, m))"

text \<open>
  The password of the second step. Signing in suspends: \<open>met\<close> is the dictionary when the
  library answers.
\<close>

definition tg_verify_2fa ::
  "sign_env \<Rightarrow> (string \<Rightarrow> string) \<Rightarrow> tg_markup \<Rightarrow> tg_markup \<Rightarrow> password_answer \<Rightarrow> qr_store \<Rightarrow> int \<Rightarrow> http_request \<Rightarrow>
     string \<Rightarrow> string \<Rightarrow> db \<times> qr_store \<Rightarrow> (exn + reply) \<times> db \<times> qr_store" where
  "tg_verify_2fa en oob markup page answer met now rq sid password s =
     for_user en oob now rq (fst s) s (\<lambda>u.
       let field = (\<lambda>t. let step = (plain_step ''password'')\<lparr>ts_session_id := Some sid, ts_password_error := Some t\<rparr>
                        in respond_field_error rq (page step) (markup step));
           ended = (\<lambda>step err. respond oob rq TG_URL None (Some (markup ((plain_step step)\<lparr>ts_error := err\<rparr>))));
           status = fst (get_qr_status now sid (user_id u) (snd s))
       in if strip password = [] then (field EmptyPassword, s)
          else if status = ''gone'' then (ended ''error'' (Some SessionNotFound), s)
          else if status = ''expired'' then (ended ''error'' (Some SessionExpired), s)
          else if status \<noteq> ''needs_2fa'' then (ended ''error'' (Some AuthFailed), s)
          else (case answer of
                  PasswordWrong \<Rightarrow> (field WrongPassword, fst s, met)
                | PasswordRuntime e \<Rightarrow> (ended ''error'' (Some (LibraryText e)), fst s, met)
                | PasswordRaised \<Rightarrow> (ended ''error'' (Some AuthFailed), fst s, met)
                | PasswordAccepted str \<Rightarrow>
                    (case finish_sign_in sid (user_id u) now (fst s, password_accepted str sid met) of
                       (True, s1) \<Rightarrow> (ended ''connected'' None, s1)
                     | (False, s1) \<Rightarrow> (ended ''error'' (Some SessionNotFound), s1))))"

section \<open>A history of sign-ins\<close>

text \<open>
  What can happen to the dictionary, in any order and by anybody: a sign-in starts, its wait ends, it
  is refreshed, a password is accepted, somebody asks for the session string, it is cleaned up.
\<close>

datatype qr_event =
    EvStart "string + string" string int int int
  | EvWait qr_wait string
  | EvRefresh "string option" int int string int
  | EvPassword string string
  | EvComplete string int
  | EvCleanup string

fun qr_step :: "qr_event \<Rightarrow> qr_store \<Rightarrow> (string \<times> int \<times> string) list \<times> qr_store" where
  "qr_step (EvStart code sid now now2 uid) m = ([], snd (start_qr_auth code sid now now2 uid m))"
| "qr_step (EvWait w sid) m = ([], wait_for_qr w sid m)"
| "qr_step (EvRefresh recreated now now2 sid uid) m = ([], snd (refresh_qr recreated now now2 sid uid m))"
| "qr_step (EvPassword s sid) m = ([], password_accepted s sid m)"
| "qr_step (EvComplete sid uid) m =
     (case complete_auth sid uid m of (None, m') \<Rightarrow> ([], m') | (Some str, m') \<Rightarrow> ([(sid, uid, str)], m'))"
| "qr_step (EvCleanup sid) m = ([], cleanup_qr_session sid m)"

text \<open>The session strings handed out along a history: sign-in, user, string.\<close>

fun issued :: "qr_event list \<Rightarrow> qr_store \<Rightarrow> (string \<times> int \<times> string) list" where
  "issued [] m = []"
| "issued (e # es) m = fst (qr_step e m) @ issued es (snd (qr_step e m))"

fun started :: "qr_event list \<Rightarrow> (string \<times> int) list" where
  "started [] = []"
| "started (EvStart code sid now now2 uid # es) = (case code of Inl e \<Rightarrow> started es | Inr url \<Rightarrow> (sid, uid) # started es)"
| "started (_ # es) = started es"

text \<open>Who a sign-in belongs to never changes while it is there, and only a start brings one.\<close>

definition owner_in :: "qr_store \<Rightarrow> string \<Rightarrow> int option" where
  "owner_in m sid = map_option qs_user (m sid)"

definition new_owner :: "qr_event \<Rightarrow> (string \<times> int) option" where
  "new_owner e = (case e of EvStart (Inr url) sid now now2 uid \<Rightarrow> Some (sid, uid) | _ \<Rightarrow> None)"

lemma owner_kept:
  "owner_in (wait_for_qr w sid m) s = owner_in m s"
  "owner_in (refreshed t sid m) s = owner_in m s"
  "owner_in (password_accepted str sid m) s = owner_in m s"
  by (cases w; auto simp: owner_in_def wait_for_qr_def split: option.splits)
     (auto simp: owner_in_def refreshed_def password_accepted_def split: option.splits)

lemma owner_refresh: "owner_in (snd (refresh_qr recreated now now2 sid uid m)) s = owner_in m s"
  by (simp add: refresh_qr_def owner_kept split: option.split)

lemma owner_cleanup: "owner_in (cleanup_qr_session sid m) s = (if s = sid then None else owner_in m s)"
  by (simp add: owner_in_def cleanup_qr_session_def)

lemma owner_complete: "owner_in (snd (complete_auth sid uid m)) s \<in> {None, owner_in m s}"
  by (auto simp: complete_auth_def owner_in_def split: option.splits)

lemma owner_start:
  "owner_in (snd (start_qr_auth code sid now now2 uid m)) s \<in> {None, owner_in m s} \<union>
     (case code of Inl e \<Rightarrow> {} | Inr url \<Rightarrow> if sid = s then {Some uid} else {})"
  by (cases code) (auto simp: start_qr_auth_def cleanup_expired_sessions_def owner_in_def Let_def split: option.splits)

lemma qr_step_owner:
  "owner_in (snd (qr_step e m)) sid \<in> {None, owner_in m sid} \<union>
     (case new_owner e of Some (s, u) \<Rightarrow> if s = sid then {Some u} else {} | None \<Rightarrow> {})"
proof (cases e)
  case (EvStart code s' now now2 uid)
  then show ?thesis using owner_start [of code s' now now2 uid m sid] by (cases code) (auto simp: new_owner_def)
next
  case (EvComplete s' uid)
  then show ?thesis using owner_complete [of s' uid m sid] by (auto split: option.splits prod.splits)
qed (auto simp: owner_kept owner_refresh owner_cleanup)

lemma qr_step_issued:
  assumes "(sid, uid, str) \<in> set (fst (qr_step e m))"
  shows "owner_in m sid = Some uid \<and> fst (qr_step e m) = [(sid, uid, str)] \<and>
    owner_in (snd (qr_step e m)) sid = None \<and> new_owner e = None"
  using assms
  by (cases e) (auto simp: owner_in_def new_owner_def complete_auth_def owned_sign_in_def split: option.splits if_splits)

lemma started_Cons: "started (e # es) = (case new_owner e of None \<Rightarrow> [] | Some p \<Rightarrow> [p]) @ started es"
  by (cases e) (auto simp: new_owner_def split: sum.splits)

lemma issued_owner:
  "(sid, uid, str) \<in> set (issued es m) \<Longrightarrow> owner_in m sid = Some uid \<or> (sid, uid) \<in> set (started es)"
proof (induction es arbitrary: m)
  case (Cons e es)
  show ?case
  proof (cases "(sid, uid, str) \<in> set (fst (qr_step e m))")
    case True
    from qr_step_issued [OF this] show ?thesis by simp
  next
    case False
    with Cons.prems have "(sid, uid, str) \<in> set (issued es (snd (qr_step e m)))" by simp
    from Cons.IH [OF this] qr_step_owner [of e m sid] show ?thesis
      by (auto simp: started_Cons split: option.splits if_splits)
  qed
qed simp

lemma issued_sid: "sid \<in> fst ` set (issued es m) \<Longrightarrow> owner_in m sid \<noteq> None \<or> sid \<in> fst ` set (started es)"
proof -
  assume "sid \<in> fst ` set (issued es m)"
  then obtain uid str where "(sid, uid, str) \<in> set (issued es m)" by force
  from issued_owner [OF this] show ?thesis by force
qed

lemma issued_distinct:
  assumes "distinct (map fst (started es))" "\<And>sid. sid \<in> fst ` set (started es) \<Longrightarrow> owner_in m sid = None"
  shows "distinct (map fst (issued es m))"
  using assms
proof (induction es arbitrary: m)
  case (Cons e es)
  let ?m = "snd (qr_step e m)"
  have d: "distinct (map fst (started es))" using Cons.prems(1) by (auto simp: started_Cons split: option.splits)
  have fresh: "owner_in ?m sid = None" if s: "sid \<in> fst ` set (started es)" for sid
  proof -
    have "owner_in m sid = None" using Cons.prems(2) s by (auto simp: started_Cons)
    moreover have "\<forall>u. new_owner e \<noteq> Some (sid, u)"
    proof (intro allI notI)
      fix u
      assume "new_owner e = Some (sid, u)"
      with Cons.prems(1) have "sid \<notin> set (map fst (started es))" by (simp add: started_Cons)
      with s show False by simp
    qed
    ultimately show ?thesis using qr_step_owner [of e m sid] by (auto split: option.splits if_splits)
  qed
  have IH: "distinct (map fst (issued es ?m))" by (rule Cons.IH [OF d fresh])
  show ?case
  proof (cases "fst (qr_step e m)")
    case Nil
    with IH show ?thesis by simp
  next
    case (Cons x xs)
    obtain sid uid str where x: "x = (sid, uid, str)" by (cases x)
    from qr_step_issued [of sid uid str e m] Cons x
    have one: "fst (qr_step e m) = [(sid, uid, str)]" "owner_in m sid = Some uid" "owner_in ?m sid = None" by auto
    have "sid \<notin> fst ` set (started es)"
      using Cons.prems(2) [of sid] one(2) by (auto simp: started_Cons)
    then have "sid \<notin> fst ` set (issued es ?m)" using issued_sid [of sid es ?m] one(3) by blast
    with IH one(1) show ?thesis by simp
  qed
qed simp

text \<open>Where a session string comes from.\<close>

definition string_in :: "qr_store \<Rightarrow> string \<Rightarrow> string option" where
  "string_in m sid = (case m sid of None \<Rightarrow> None | Some st \<Rightarrow> qs_session_string st)"

definition brings_string :: "qr_event \<Rightarrow> string \<Rightarrow> string \<Rightarrow> bool" where
  "brings_string e sid str \<longleftrightarrow> e = EvWait (QrScanned str) sid \<or> e = EvPassword str sid"

lemma string_kept:
  "string_in (snd (refresh_qr recreated now now2 sid uid m)) s = string_in m s"
  by (auto simp: string_in_def refresh_qr_def refreshed_def split: option.splits)

lemma string_complete: "string_in (snd (complete_auth sid uid m)) s \<in> {None, string_in m s}"
  by (auto simp: complete_auth_def string_in_def split: option.splits)

lemma string_start: "string_in (snd (start_qr_auth code sid now now2 uid m)) s \<in> {None, string_in m s}"
  by (cases code) (auto simp: start_qr_auth_def cleanup_expired_sessions_def string_in_def Let_def split: option.splits)

lemma string_wait:
  "string_in (wait_for_qr w sid m) s = Some str \<Longrightarrow> string_in m s = Some str \<or> brings_string (EvWait w sid) s str"
  by (cases w) (auto simp: string_in_def wait_for_qr_def brings_string_def split: option.splits if_splits)

lemma string_password:
  "string_in (password_accepted x sid m) s = Some str \<Longrightarrow> string_in m s = Some str \<or> brings_string (EvPassword x sid) s str"
  by (auto simp: string_in_def password_accepted_def brings_string_def split: option.splits if_splits)

lemma string_cleanup: "string_in (cleanup_qr_session sid m) s \<in> {None, string_in m s}"
  by (auto simp: string_in_def cleanup_qr_session_def)

lemma qr_step_string:
  "string_in (snd (qr_step e m)) s = Some str \<Longrightarrow> string_in m s = Some str \<or> brings_string e s str"
proof (cases e)
  case (EvStart code s' now now2 uid)
  then show "string_in (snd (qr_step e m)) s = Some str \<Longrightarrow> ?thesis"
    using string_start [of code s' now now2 uid m s] by auto
next
  case (EvComplete s' uid)
  then show "string_in (snd (qr_step e m)) s = Some str \<Longrightarrow> ?thesis"
    using string_complete [of s' uid m s] by (auto split: option.splits prod.splits)
next
  case (EvCleanup s')
  then show "string_in (snd (qr_step e m)) s = Some str \<Longrightarrow> ?thesis" using string_cleanup [of s' m s] by auto
qed (auto simp: string_kept dest: string_wait string_password)

lemma qr_step_issues_string: "(sid, uid, str) \<in> set (fst (qr_step e m)) \<Longrightarrow> string_in m sid = Some str"
  by (cases e) (auto simp: string_in_def complete_auth_def owned_sign_in_def split: option.splits if_splits)

lemma issued_string:
  "(sid, uid, str) \<in> set (issued es m) \<Longrightarrow> string_in m sid = Some str \<or> (\<exists>e \<in> set es. brings_string e sid str)"
proof (induction es arbitrary: m)
  case (Cons e es)
  show ?case
  proof (cases "(sid, uid, str) \<in> set (fst (qr_step e m))")
    case True
    from qr_step_issues_string [OF this] show ?thesis by simp
  next
    case False
    with Cons.prems have "(sid, uid, str) \<in> set (issued es (snd (qr_step e m)))" by simp
    from Cons.IH [OF this] qr_step_string [of e m sid str] show ?thesis by auto
  qed
qed simp

section \<open>One account for one sign-in\<close>

text \<open>
  C30: Along any history of starts, waits, refreshes, passwords and questions, by any users, each
  sign-in hands its session string out at most once, to the user who started it, and the string is
  one the library gave for that sign-in. The hypothesis: the ids of the sign-ins are different.
\<close>

lemma session_string_issued_once:
  assumes "distinct (map fst (started es))"
  shows "distinct (map fst (issued es Map.empty)) \<and>
    (\<forall>(sid, uid, str) \<in> set (issued es Map.empty).
       (sid, uid) \<in> set (started es) \<and> (\<exists>e \<in> set es. brings_string e sid str))"
proof -
  have "distinct (map fst (issued es Map.empty))"
    by (rule issued_distinct [OF assms]) (simp add: owner_in_def)
  moreover have "(sid, uid) \<in> set (started es) \<and> (\<exists>e \<in> set es. brings_string e sid str)"
    if "(sid, uid, str) \<in> set (issued es Map.empty)" for sid uid str
    using issued_owner [OF that] issued_string [OF that] by (simp add: owner_in_def string_in_def)
  ultimately show ?thesis by auto
qed

definition sample_history :: "qr_event list" where
  "sample_history =
     [EvStart (Inr ''tg://a'') ''a'' 0 1 7, EvStart (Inr ''tg://b'') ''b'' 2 3 8, EvWait QrTimeout ''a'',
      EvRefresh (Some ''tg://c'') 4 5 ''a'' 7, EvWait (QrScanned ''S1'') ''a'', EvComplete ''a'' 8,
      EvComplete ''a'' 7, EvComplete ''a'' 7, EvWait QrNeedsPassword ''b'', EvPassword ''S2'' ''b'', EvComplete ''b'' 8]"

lemma sample_history_runs:
  "started sample_history = [(''a'', 7), (''b'', 8)]"
  "issued sample_history Map.empty = [(''a'', 7, ''S1''), (''b'', 8, ''S2'')]"
  by (simp_all add: sample_history_def start_qr_auth_def cleanup_expired_sessions_def wait_for_qr_def refresh_qr_def
      may_refresh_def owned_sign_in_def refreshed_def password_accepted_def complete_auth_def qr_too_old_def
      QR_SESSION_TTL_def Let_def)

lemma session_string_issued_once_witness:
  "distinct (map fst (issued sample_history Map.empty)) \<and> (''a'', 7) \<in> set (started sample_history) \<and>
   list_ex (\<lambda>e. brings_string e ''a'' ''S1'') sample_history"
proof -
  have "distinct (map fst (started sample_history))" by (simp add: sample_history_runs)
  from session_string_issued_once [OF this] have
    "distinct (map fst (issued sample_history Map.empty))"
    "\<And>sid uid str. (sid, uid, str) \<in> set (issued sample_history Map.empty) \<Longrightarrow>
       (sid, uid) \<in> set (started sample_history) \<and> (\<exists>e \<in> set sample_history. brings_string e sid str)"
    by blast+
  from this(1) this(2) [of "''a''" 7 "''S1''"] show ?thesis by (simp add: sample_history_runs list_ex_iff)
qed

text \<open>The handlers that finish a sign-in: an account comes only with a string that was handed out.\<close>

lemma finish_sign_in_cases:
  "finish_sign_in sid uid now s =
     (if \<exists>c cs. fst (complete_auth sid uid (snd s)) = Some (c # cs)
      then (True, save_tg_account uid (the (fst (complete_auth sid uid (snd s)))) now (fst s), (snd s)(sid := None))
      else (False, fst s, snd (complete_auth sid uid (snd s))))"
  by (auto simp: finish_sign_in_def complete_auth_def split: option.splits list.splits)

lemma complete_auth_owner:
  "fst (complete_auth sid uid m) = Some str \<Longrightarrow>
     \<exists>st. m sid = Some st \<and> qs_user st = uid \<and> qs_status st = ''success'' \<and> qs_session_string st = Some str"
  by (auto simp: complete_auth_def owned_sign_in_def split: option.splits if_splits)

lemma finish_sign_in_adds:
  assumes "finish_sign_in sid uid now (d, m) = (ok, d', m')"
  shows "d' = d \<and> \<not> ok \<or>
    ok \<and> m' sid = None \<and> (\<exists>st str. m sid = Some st \<and> qs_user st = uid \<and> qs_session_string st = Some str \<and> str \<noteq> [] \<and>
       d' = save_tg_account uid str now d)"
  using assms
  by (auto simp: finish_sign_in_cases dest!: complete_auth_owner split: if_splits)

lemma for_user_cases:
  "for_user en oob now rq d s k = (r, s') \<Longrightarrow>
     s' = s \<and> (\<forall>u. page_request en now rq d \<noteq> Inr (Some u)) \<or>
     (\<exists>u. page_request en now rq d = Inr (Some u) \<and> k u = (r, s'))"
  by (auto simp: for_user_def split: sum.splits option.splits)

lemma get_qr_status_success:
  "fst (get_qr_status now sid uid m) = ''success'' \<Longrightarrow>
     \<exists>st. m sid = Some st \<and> qs_user st = uid \<and> qs_status st = ''success''"
  by (auto simp: get_qr_status_def owned_sign_in_def split: option.splits if_splits)

text \<open>
  Asking how a sign-in stands saves at most one account, and only for the user of the request,
  when the sign-in is that user's and has succeeded; the account is a Telegram one with the string
  of that sign-in, which is gone afterwards.
\<close>

lemma qr_status_saves_own_account:
  assumes "tg_qr_status en oob markup no_content now rq sid (d, m) = (r, d', m')"
  shows "d' = d \<or>
    (\<exists>u st str. page_request en now rq d = Inr (Some u) \<and> m sid = Some st \<and> qs_user st = user_id u \<and>
       qs_status st = ''success'' \<and> qs_session_string st = Some str \<and> str \<noteq> [] \<and> m' sid = None \<and>
       d' = d\<lparr>db_accounts := db_accounts d @ [new_account (user_id u) ''tg_user'' str ''active'' now d]\<rparr>)"
proof -
  from for_user_cases [OF assms [unfolded tg_qr_status_def fst_conv]]
  consider "(d', m') = (d, m)"
    | u where "page_request en now rq d = Inr (Some u)"
        "(let (status, error) = get_qr_status now sid (user_id u) m in
          if status = ''waiting'' then (respond oob rq TG_URL None (Some no_content), d, m)
          else let (step, s') =
            (if status = ''success''
             then (case finish_sign_in sid (user_id u) now (d, m) of
                    (True, s1) \<Rightarrow> ((''connected'', None), s1)
                  | (False, s1) \<Rightarrow> ((''error'', Some SessionNotFound), s1))
             else (status_step status error, (d, m)))
          in (respond oob rq TG_URL None
               (Some (markup ((plain_step (fst step))\<lparr>ts_session_id := Some sid, ts_error := snd step\<rparr>))), s')) = (r, d', m')"
    by auto
  then show ?thesis
  proof cases
    case (2 u)
    show ?thesis
    proof (cases "fst (get_qr_status now sid (user_id u) m) = ''success''")
      case False
      with 2(2) show ?thesis by (auto simp: Let_def split: prod.splits if_splits)
    next
      case True
      obtain ok d1 m1 where f: "finish_sign_in sid (user_id u) now (d, m) = (ok, d1, m1)" by (cases "finish_sign_in sid (user_id u) now (d, m)") auto
      with 2(2) True have "d' = d1" "m' = m1" by (auto simp: Let_def split: prod.splits if_splits bool.splits)
      with finish_sign_in_adds [OF f] get_qr_status_success [OF True] 2(1) show ?thesis
        by (auto simp: save_tg_account_def add_account_def)
    qed
  qed simp
qed

end
