(* ===== verification/Send_Analytics.thy ===== *)
theory Send_Analytics
  imports Delivery
begin

text \<open>
  What the dashboard, the journal page and the administrator read from the journal of sends,
  \<open>app/application/analytics/send_analytics.py\<close>: the windows and the counts in them, the
  sends to come with the reason why one will not go out, the feed, and the filters of the journal.

  A user's zone comes from the time zone database; a name it refuses is UTC. The start of a day is a
  wall clock reading of the zone: \<open>replace\<close> keeps the fold of the moment it is applied to, adding
  a duration drops it. Instants are microseconds.
\<close>

section \<open>Zones of users\<close>

record day_zone =
  dz_zone :: zone
  dz_fold :: "int \<Rightarrow> bool"
  dz_later_off :: "int \<Rightarrow> int"

definition utc_zone :: day_zone where
  "utc_zone = \<lparr>dz_zone = fixed_zone 0, dz_fold = (\<lambda>t. False), dz_later_off = (\<lambda>w. 0)\<rparr>"

definition get_timezone_for_user :: "(string \<Rightarrow> exn + day_zone) \<Rightarrow> user option \<Rightarrow> day_zone" where
  "get_timezone_for_user tzs u =
     (case u of
        None \<Rightarrow> utc_zone
      | Some usr \<Rightarrow>
          if user_timezone usr = [] then utc_zone
          else (case tzs (user_timezone usr) of Inr z \<Rightarrow> z | Inl e \<Rightarrow> utc_zone))"

definition wall_of :: "day_zone \<Rightarrow> int \<Rightarrow> int" where
  "wall_of z t = to_wall (dz_zone z) t"

text \<open>A reading as an instant, with its fold.\<close>

definition instant_of :: "day_zone \<Rightarrow> bool \<Rightarrow> int \<Rightarrow> int" where
  "instant_of z later w = (if later then w - dz_later_off z w else from_wall (dz_zone z) w)"

definition midnight :: "int \<Rightarrow> int" where
  "midnight w = w div day_us * day_us"

definition local_day_start_utc :: "day_zone \<Rightarrow> int \<Rightarrow> int" where
  "local_day_start_utc z now = instant_of z (dz_fold z now) (midnight (wall_of z now))"

section \<open>Windows\<close>

record metrics_bounds =
  mb_current_start :: int
  mb_current_end :: int
  mb_previous_start :: int
  mb_previous_end :: int

definition DEFAULT_WINDOW :: int where "DEFAULT_WINDOW = day_us"

definition sliding_window_bounds :: "int \<Rightarrow> int \<Rightarrow> metrics_bounds" where
  "sliding_window_bounds now window =
     \<lparr>mb_current_start = now - window, mb_current_end = now,
      mb_previous_start = now - window * 2, mb_previous_end = now - window\<rparr>"

definition local_day_bounds :: "day_zone \<Rightarrow> int \<Rightarrow> metrics_bounds" where
  "local_day_bounds z now =
     (let local_now = wall_of z now in
      \<lparr>mb_current_start = local_day_start_utc z now, mb_current_end = now,
       mb_previous_start = instant_of z False (midnight local_now - day_us),
       mb_previous_end = instant_of z False (local_now - day_us)\<rparr>)"

definition current_month_bounds_utc :: "day_zone \<Rightarrow> int \<Rightarrow> int \<times> int" where
  "current_month_bounds_utc z now =
     (let local_now = wall_of z now;
          (y, m, d) = civil (local_now div day_us);
          start_local = day_of y m 1 * day_us;
          end_local = start_local + month_days y m * day_us
      in (instant_of z (dz_fold z now) start_local, instant_of z False end_local))"

section \<open>Counts\<close>

record send_metrics =
  sm_total :: nat
  sm_ok :: nat
  sm_failed :: nat
  sm_groups :: nat
  sm_total_prev :: nat
  sm_ok_prev :: nat
  sm_failed_prev :: nat
  sm_groups_prev :: nat

definition total_delta :: "send_metrics \<Rightarrow> int" where
  "total_delta m = int (sm_total m) - int (sm_total_prev m)"

definition ok_delta :: "send_metrics \<Rightarrow> int" where
  "ok_delta m = int (sm_ok m) - int (sm_ok_prev m)"

definition failed_delta :: "send_metrics \<Rightarrow> int" where
  "failed_delta m = int (sm_failed m) - int (sm_failed_prev m)"

definition groups_delta :: "send_metrics \<Rightarrow> int" where
  "groups_delta m = int (sm_groups m) - int (sm_groups_prev m)"

definition STATUS_OK :: string where "STATUS_OK = ''ok''"

definition in_scope :: "int option \<Rightarrow> send_log \<Rightarrow> bool" where
  "in_scope uid l \<longleftrightarrow> (case uid of None \<Rightarrow> True | Some u \<Rightarrow> log_user_id l = u)"

definition in_current :: "metrics_bounds \<Rightarrow> send_log \<Rightarrow> bool" where
  "in_current b l \<longleftrightarrow> mb_current_start b \<le> log_sent_at l \<and> log_sent_at l \<le> mb_current_end b"

definition in_previous :: "metrics_bounds \<Rightarrow> send_log \<Rightarrow> bool" where
  "in_previous b l \<longleftrightarrow> mb_previous_start b \<le> log_sent_at l \<and> log_sent_at l < mb_previous_end b"

text \<open>\<open>count(distinct group_id)\<close>: a row without a group does not count.\<close>

definition distinct_groups :: "(send_log \<Rightarrow> bool) \<Rightarrow> send_log list \<Rightarrow> nat" where
  "distinct_groups P ls =
     length (remdups (concat (map (\<lambda>l. case log_group_id l of None \<Rightarrow> [] | Some g \<Rightarrow> if P l then [g] else []) ls)))"

definition send_metrics_of :: "int option \<Rightarrow> metrics_bounds \<Rightarrow> db \<Rightarrow> send_metrics" where
  "send_metrics_of uid b d =
     (let rows = filter (\<lambda>l. in_scope uid l \<and> mb_previous_start b \<le> log_sent_at l \<and> log_sent_at l \<le> mb_current_end b)
                   (db_send_logs d);
          is_ok = (\<lambda>l. log_status l = STATUS_OK)
      in \<lparr>sm_total = count_where (in_current b) rows,
          sm_ok = count_where (\<lambda>l. in_current b l \<and> is_ok l) rows,
          sm_failed = count_where (\<lambda>l. in_current b l \<and> \<not> is_ok l) rows,
          sm_groups = distinct_groups (in_current b) rows,
          sm_total_prev = count_where (in_previous b) rows,
          sm_ok_prev = count_where (\<lambda>l. in_previous b l \<and> is_ok l) rows,
          sm_failed_prev = count_where (\<lambda>l. in_previous b l \<and> \<not> is_ok l) rows,
          sm_groups_prev = distinct_groups (in_previous b) rows\<rparr>)"

definition last_send_at :: "string \<Rightarrow> db \<Rightarrow> int option" where
  "last_send_at messenger d =
     (case filter (\<lambda>l. log_messenger_type l = Some messenger) (db_send_logs d) of
        [] \<Rightarrow> None
      | l # ls \<Rightarrow> Some (fold (\<lambda>r t. max (log_sent_at r) t) ls (log_sent_at l)))"

definition sends_in_current_month :: "day_zone \<Rightarrow> int \<Rightarrow> int \<Rightarrow> db \<Rightarrow> nat" where
  "sends_in_current_month z now uid d =
     (let (s, e) = current_month_bounds_utc z now in
      count_where (\<lambda>l. log_user_id l = uid \<and> s \<le> log_sent_at l \<and> log_sent_at l < e) (db_send_logs d))"

section \<open>The sends to come\<close>

definition UPCOMING_LIMIT :: nat where "UPCOMING_LIMIT = 8"

datatype send_reason = NoReason | AdDraft | AccountOff | GroupsOff

record upcoming_send =
  up_schedule_id :: int
  up_ad_id :: int
  up_ad_title :: string
  up_next_run_at :: int
  up_group_count :: nat
  up_messenger_type :: "string option"
  up_reason :: send_reason

definition upcoming_rows :: "int \<Rightarrow> nat \<Rightarrow> db \<Rightarrow> schedule list" where
  "upcoming_rows uid limit d =
     take limit (sort_key (\<lambda>s. the (sch_next_run_at s))
       (filter (\<lambda>s. sch_is_active s \<and> sch_next_run_at s \<noteq> None \<and>
                    (case schedule_ad d s of None \<Rightarrow> False | Some a \<Rightarrow> ad_user_id a = uid)) (db_schedules d)))"

text \<open>
  The members of a composition: they go into a set, and then as one list to the driver, which takes
  integers of 32 bits and null.
\<close>

fun hashable :: "pyval \<Rightarrow> bool" where
  "hashable (PList _) = False"
| "hashable (PDict _) = False"
| "hashable _ = True"

fun column_int :: "pyval \<Rightarrow> bool" where
  "column_int (PInt n) = c_int n"
| "column_int PNone = True"
| "column_int _ = False"

definition group_switched_on :: "int \<Rightarrow> db \<Rightarrow> pyval \<Rightarrow> bool" where
  "group_switched_on uid d v =
     (case v of
        PInt n \<Rightarrow> (case find_row grp_id n (db_groups d) of
                     None \<Rightarrow> False | Some g \<Rightarrow> grp_user_id g = uid \<and> grp_is_active g)
      | _ \<Rightarrow> False)"

definition upcoming_item :: "int \<Rightarrow> db \<Rightarrow> schedule \<Rightarrow> ad \<Rightarrow> pyval list \<Rightarrow> upcoming_send" where
  "upcoming_item uid d s a composition =
     (let account = schedule_account d s;
          reason =
            (if effective_ad_status a = AD_STATUS_DRAFT then AdDraft
             else if (case account of None \<Rightarrow> True | Some acc \<Rightarrow> acc_status acc \<noteq> ''active'') then AccountOff
             else if \<not> list_ex (group_switched_on uid d) composition then GroupsOff
             else NoReason)
      in \<lparr>up_schedule_id = sch_id s, up_ad_id = ad_id a, up_ad_title = ad_title a,
          up_next_run_at = the (sch_next_run_at s), up_group_count = length composition,
          up_messenger_type = map_option acc_type account, up_reason = reason\<rparr>)"

definition upcoming_sends :: "int \<Rightarrow> nat \<Rightarrow> db \<Rightarrow> exn + upcoming_send list" where
  "upcoming_sends uid limit d =
     (let rows = upcoming_rows uid limit d in
      bind_res (map_res (\<lambda>s. py_iter (or_list (sch_group_ids s))) rows) (\<lambda>compositions.
        if list_ex (\<lambda>gs. list_ex (\<lambda>g. \<not> hashable g) gs) compositions then Inl TypeError
        else if list_ex (\<lambda>gs. list_ex (\<lambda>g. \<not> column_int g) gs) compositions then Inl DataError
        else Inr (concat (map (\<lambda>(s, gs). case schedule_ad d s of
                                 None \<Rightarrow> [] | Some a \<Rightarrow> [upcoming_item uid d s a gs]) (zip rows compositions)))))"

section \<open>The feed and the journal\<close>

record feed_row =
  fr_id :: int
  fr_ad_title :: "string option"
  fr_group_name :: "string option"
  fr_status :: string
  fr_messenger_type :: "string option"
  fr_sent_at :: int

definition recent_feed :: "int \<Rightarrow> nat \<Rightarrow> db \<Rightarrow> feed_row list" where
  "recent_feed uid limit d =
     map (\<lambda>l. \<lparr>fr_id = log_id l, fr_ad_title = log_ad_title l, fr_group_name = log_group_name l,
                fr_status = log_status l, fr_messenger_type = log_messenger_type l, fr_sent_at = log_sent_at l\<rparr>)
       (take limit (sort_key (\<lambda>l. - log_sent_at l) (filter (\<lambda>l. log_user_id l = uid) (db_send_logs d))))"

definition history_filter_params ::
  "string option \<Rightarrow> string option \<Rightarrow> int option \<Rightarrow> string option \<Rightarrow> (string \<times> pyval) list" where
  "history_filter_params status messenger account period =
     (case status of Some (c # cs) \<Rightarrow> [(''status'', PStr (c # cs))] | _ \<Rightarrow> []) @
     (case messenger of Some (c # cs) \<Rightarrow> [(''messenger'', PStr (c # cs))] | _ \<Rightarrow> []) @
     (case account of Some i \<Rightarrow> [(''account_id'', PInt i)] | None \<Rightarrow> []) @
     (case period of Some (c # cs) \<Rightarrow> [(''period'', PStr (c # cs))] | _ \<Rightarrow> [])"

definition period_cutoff :: "day_zone \<Rightarrow> int \<Rightarrow> string option \<Rightarrow> int option" where
  "period_cutoff z now period =
     (if period = Some ''today'' then Some (local_day_start_utc z now)
      else if period = Some ''7d'' then Some (now - 7 * day_us)
      else if period = Some ''30d'' then Some (now - 30 * day_us)
      else None)"

definition given :: "string option \<Rightarrow> bool" where
  "given v \<longleftrightarrow> v \<noteq> None \<and> v \<noteq> Some ''''"

text \<open>The rows are joined to their group; a row whose group is gone has no account.\<close>

definition history_filter ::
  "day_zone \<Rightarrow> int \<Rightarrow> string option \<Rightarrow> string option \<Rightarrow> int option \<Rightarrow> string option \<Rightarrow> db \<Rightarrow> send_log \<Rightarrow> bool" where
  "history_filter z now status messenger account period d l \<longleftrightarrow>
     (given status \<longrightarrow> Some (log_status l) = status) \<and>
     (given messenger \<longrightarrow> log_messenger_type l = messenger) \<and>
     (case account of
        None \<Rightarrow> True
      | Some i \<Rightarrow> (case Option.bind (log_group_id l) (\<lambda>g. find_row grp_id g (db_groups d)) of
                     None \<Rightarrow> False | Some g \<Rightarrow> grp_account_id g = i)) \<and>
     (case period_cutoff z now period of None \<Rightarrow> True | Some t \<Rightarrow> t \<le> log_sent_at l)"

definition history_count ::
  "day_zone \<Rightarrow> int \<Rightarrow> int \<Rightarrow> string option \<Rightarrow> string option \<Rightarrow> int option \<Rightarrow> string option \<Rightarrow> db \<Rightarrow> nat" where
  "history_count z now uid status messenger account period d =
     count_where (\<lambda>l. log_user_id l = uid \<and> history_filter z now status messenger account period d l) (db_send_logs d)"

section \<open>Properties\<close>

lemma upcoming_item_of:
  assumes "upcoming_sends uid limit d = Inr items" "it \<in> set items"
  obtains s a gs where "s \<in> set (db_schedules d)" "schedule_ad d s = Some a" "ad_user_id a = uid"
    "py_iter (or_list (sch_group_ids s)) = Inr gs" "list_all column_int gs" "it = upcoming_item uid d s a gs"
proof -
  let ?rows = "upcoming_rows uid limit d"
  obtain cs where cs: "map_res (\<lambda>s. py_iter (or_list (sch_group_ids s))) ?rows = Inr cs"
    "\<not> list_ex (\<lambda>gs. list_ex (\<lambda>g. \<not> column_int g) gs) cs"
    "items = concat (map (\<lambda>(s, gs). case schedule_ad d s of
        None \<Rightarrow> [] | Some a \<Rightarrow> [upcoming_item uid d s a gs]) (zip ?rows cs))"
    using assms(1) by (auto simp: upcoming_sends_def Let_def result_simps split: if_splits)
  obtain p where p: "p \<in> set (zip ?rows cs)" "it \<in> set (case p of (s, gs) \<Rightarrow> (case schedule_ad d s of
        None \<Rightarrow> [] | Some a \<Rightarrow> [upcoming_item uid d s a gs]))"
    using assms(2) unfolding cs(3) set_concat set_map by blast
  obtain s gs where sg: "p = (s, gs)" by (cases p)
  obtain a where "schedule_ad d s = Some a" "it = upcoming_item uid d s a gs"
    using p(2) sg by (cases "schedule_ad d s") auto
  with p(1) sg have z: "(s, gs) \<in> set (zip ?rows cs)" "schedule_ad d s = Some a" "it = upcoming_item uid d s a gs"
    by auto
  have "list_all2 (\<lambda>s gs. py_iter (or_list (sch_group_ids s)) = Inr gs) ?rows cs"
    using cs(1) by (simp add: map_res_eq_Inr)
  with z(1) have iter: "py_iter (or_list (sch_group_ids s)) = Inr gs" by (auto simp: list_all2_iff)
  have "gs \<in> set cs" using z(1) by (rule set_zip_rightD)
  with cs(2) have ints: "list_all column_int gs" by (auto simp: list_ex_iff list_all_iff)
  have "s \<in> set ?rows" using z(1) by (rule set_zip_leftD)
  then have "s \<in> set (db_schedules d) \<and> ad_user_id a = uid"
    using z(2) by (auto simp: upcoming_rows_def dest!: in_set_takeD)
  with that z(2,3) iter ints show thesis by blast
qed

lemma active_groups_some:
  "active_groups d gs \<noteq> [] \<longleftrightarrow> (\<exists>v \<in> set gs. \<exists>g. get_group d v = Inr (Some g) \<and> grp_is_active g)"
proof (induction gs)
  case (Cons v gs)
  show ?case
  proof (cases "get_group d v")
    case (Inr found)
    with Cons show ?thesis by (cases found) (auto simp: active_groups_def)
  qed (use Cons in \<open>auto simp: active_groups_def\<close>)
qed (simp add: active_groups_def)

lemma switched_on_groups:
  assumes "list_all column_int gs" "\<And>g. g \<in> set (db_groups d) \<Longrightarrow> PInt (grp_id g) \<in> set gs \<Longrightarrow> grp_user_id g = uid"
  shows "list_ex (group_switched_on uid d) gs \<longleftrightarrow> active_groups d gs \<noteq> []"
proof -
  have "group_switched_on uid d v \<longleftrightarrow> (\<exists>g. get_group d v = Inr (Some g) \<and> grp_is_active g)" if "v \<in> set gs" for v
  proof (cases v)
    case (PInt n)
    with that assms(1) have "c_int n" by (auto simp: list_all_iff)
    moreover have "grp_user_id g = uid" if "find_row grp_id n (db_groups d) = Some g" for g
      using find_row_Some [OF that] assms(2) [of g] \<open>v \<in> set gs\<close> PInt by simp
    ultimately show ?thesis using PInt by (auto simp: group_switched_on_def split: option.splits)
  qed (simp_all add: group_switched_on_def)
  moreover have "active_groups d gs \<noteq> [] \<longleftrightarrow> (\<exists>v \<in> set gs. \<exists>g. get_group d v = Inr (Some g) \<and> grp_is_active g)"
    by (rule active_groups_some)
  ultimately show ?thesis by (auto simp: list_ex_iff)
qed


definition upcoming_db :: db where
  "upcoming_db = sending_db\<lparr>db_schedules :=
     [\<lparr>sch_id = 3, sch_ad_id = 1, sch_account_id = Some 1, sch_group_ids = PList [PInt 1], sch_days_of_week = PList [],
       sch_times_of_day = PList [], sch_timezone = ''UTC'', sch_is_active = True, sch_next_run_at = Some 5, sch_created_at = 0\<rparr>]\<rparr>"


text \<open>The calendar month of an instant on the user's clock.\<close>

definition local_month :: "day_zone \<Rightarrow> int \<Rightarrow> int \<times> int" where
  "local_month z t = (let (y, m, d) = civil (wall_of z t div day_us) in (y, m))"

text \<open>A reading divides time: the clock shows it or later from its instant on, and before it never.\<close>

definition clean_reading :: "day_zone \<Rightarrow> bool \<Rightarrow> int \<Rightarrow> bool" where
  "clean_reading z later w \<longleftrightarrow> (\<forall>t. instant_of z later w \<le> t \<longleftrightarrow> w \<le> wall_of z t)"

lemma month_days_range:
  assumes "1 \<le> m" "m \<le> 12"
  shows "day_of y m 1 \<le> n \<and> n < day_of y m 1 + month_days y m \<longleftrightarrow> (\<exists>d. civil n = (y, m, d))"
proof
  assume n: "day_of y m 1 \<le> n \<and> n < day_of y m 1 + month_days y m"
  define d where "d = n - day_of y m 1 + 1"
  have "valid_civil y m d" using n assms by (auto simp: valid_civil_def d_def)
  moreover have "day_of y m d = n" by (simp add: d_def day_of_def)
  ultimately show "\<exists>d. civil n = (y, m, d)" using civil_day_of by blast
next
  assume "\<exists>d. civil n = (y, m, d)"
  then obtain d where d: "civil n = (y, m, d)" by blast
  from civil_correct [OF d] show "day_of y m 1 \<le> n \<and> n < day_of y m 1 + month_days y m"
    by (auto simp: valid_civil_def day_of_def)
qed

lemma month_readings:
  assumes "civil (v div day_us) = (y, m, d)"
  shows "day_of y m 1 * day_us \<le> w \<and> w < (day_of y m 1 + month_days y m) * day_us \<longleftrightarrow>
    (\<exists>e. civil (w div day_us) = (y, m, e))"
proof -
  have m: "1 \<le> m" "m \<le> 12" using civil_correct(1) [OF assms] by (auto simp: valid_civil_def)
  define q where "q = w div day_us"
  have w: "q * 86400000000 \<le> w" "w < q * 86400000000 + 86400000000"
    using whole_days [of w] by (simp_all add: q_def day_us_def)
  have "k * day_us \<le> w \<longleftrightarrow> k \<le> q" for k using w unfolding day_us_def by linarith
  then have "day_of y m 1 * day_us \<le> w \<and> w < (day_of y m 1 + month_days y m) * day_us \<longleftrightarrow>
      day_of y m 1 \<le> q \<and> q < day_of y m 1 + month_days y m" by (simp only: not_le [symmetric])
  then show ?thesis using month_days_range [OF m, of y q] by (simp add: q_def)
qed

text \<open>
  the number of sends of the month is that of the user's month: where the starts of days are clean
  readings of the zone, exactly the user's sends are counted whose local month, at the moment of the
  send, is the current one.
\<close>

theorem month_count_is_the_local_month:
  assumes "\<And>later w. w mod day_us = 0 \<Longrightarrow> clean_reading z later w"
  shows "sends_in_current_month z now uid d =
    count_where (\<lambda>l. log_user_id l = uid \<and> local_month z (log_sent_at l) = local_month z now) (db_send_logs d)"
proof -
  obtain y m e where c: "civil (wall_of z now div day_us) = (y, m, e)" by (cases "civil (wall_of z now div day_us)") auto
  have clean: "instant_of z later (k * day_us) \<le> t \<longleftrightarrow> k * day_us \<le> wall_of z t" for later k t
    using assms [of "k * day_us" later] by (simp add: clean_reading_def)
  have "instant_of z (dz_fold z now) (day_of y m 1 * day_us) \<le> t \<and>
      t < instant_of z False (day_of y m 1 * day_us + month_days y m * day_us) \<longleftrightarrow> local_month z t = (y, m)" for t
  proof -
    have "t < instant_of z False (day_of y m 1 * day_us + month_days y m * day_us) \<longleftrightarrow>
        wall_of z t < (day_of y m 1 + month_days y m) * day_us"
      using clean [of False "day_of y m 1 + month_days y m" t] by (simp add: distrib_right not_le [symmetric])
    then show ?thesis
      using clean [of "dz_fold z now" "day_of y m 1" t] month_readings [OF c, of "wall_of z t"]
      by (auto simp: local_month_def split: prod.splits)
  qed
  then show ?thesis
    using c by (simp add: sends_in_current_month_def current_month_bounds_utc_def local_month_def Let_def conj_commute)
qed

theorem month_count_is_the_local_month_witness:
  "sends_in_current_month utc_zone 0 1 empty_db =
     count_where (\<lambda>l. log_user_id l = 1 \<and> local_month utc_zone (log_sent_at l) = local_month utc_zone 0) (db_send_logs empty_db)"
  by (rule month_count_is_the_local_month)
    (simp add: clean_reading_def instant_of_def utc_zone_def wall_of_def to_wall_def from_wall_def fixed_zone_def)

lemma count_where_split: "count_where P xs = count_where (\<lambda>x. P x \<and> Q x) xs + count_where (\<lambda>x. P x \<and> \<not> Q x) xs"
  by (induction xs) auto

lemma count_where_or: "(\<And>x. \<not> (P x \<and> Q x)) \<Longrightarrow> count_where P xs + count_where Q xs = count_where (\<lambda>x. P x \<or> Q x) xs"
  by (induction xs) auto

lemma count_where_filter_conj: "count_where P (filter Q xs) = count_where (\<lambda>x. Q x \<and> P x) xs"
  by (induction xs) auto

lemma count_where_by_key:
  "finite A \<Longrightarrow> key ` set xs \<subseteq> A \<Longrightarrow> (\<Sum>u \<in> A. count_where (\<lambda>x. key x = u \<and> P x) xs) = count_where P xs"
proof (induction xs)
  case (Cons x xs)
  have "(\<Sum>u \<in> A. count_where (\<lambda>y. key y = u \<and> P y) (x # xs)) =
      (\<Sum>u \<in> A. (if u = key x then (if P x then 1 else 0) else 0) + count_where (\<lambda>y. key y = u \<and> P y) xs)"
    by (rule sum.cong) auto
  also have "\<dots> = (\<Sum>u \<in> A. if u = key x then (if P x then 1 else 0) else 0) + count_where P xs"
    using Cons by (simp add: sum.distrib)
  also have "(\<Sum>u \<in> A. if u = key x then (if P x then 1 else 0) else 0) = (if P x then 1 else (0::nat))"
    using Cons.prems by (simp add: sum.delta')
  finally show ?case by simp
qed simp

lemma distinct_groups_le: "distinct_groups P ls \<le> count_where P ls"
proof -
  have "length (concat (map (\<lambda>l. case log_group_id l of None \<Rightarrow> [] | Some g \<Rightarrow> if P l then [g] else []) ls)) \<le> count_where P ls"
    by (induction ls) (auto split: option.splits)
  then show ?thesis using length_remdups_leq le_trans unfolding distinct_groups_def by blast
qed

text \<open>
  the figures of the windows fit together: in each window a send is ok or failed, never both or
  neither, and no more groups are reached than there are sends; the last day and the day before it
  share no send and together hold every send of the two days; and the figure over everybody is the
  sum over the users.
\<close>

theorem window_figures_fit:
  "sm_total (send_metrics_of uid b d) = sm_ok (send_metrics_of uid b d) + sm_failed (send_metrics_of uid b d) \<and>
   sm_total_prev (send_metrics_of uid b d) = sm_ok_prev (send_metrics_of uid b d) + sm_failed_prev (send_metrics_of uid b d) \<and>
   sm_groups (send_metrics_of uid b d) \<le> sm_total (send_metrics_of uid b d) \<and>
   sm_total (send_metrics_of uid (sliding_window_bounds now DEFAULT_WINDOW) d) +
     sm_total_prev (send_metrics_of uid (sliding_window_bounds now DEFAULT_WINDOW) d) =
     count_where (\<lambda>l. in_scope uid l \<and> now - 2 * day_us \<le> log_sent_at l \<and> log_sent_at l \<le> now) (db_send_logs d) \<and>
   sm_total (send_metrics_of None b d) =
     (\<Sum>u \<in> log_user_id ` set (db_send_logs d). sm_total (send_metrics_of (Some u) b d))"
proof (intro conjI)
  show "sm_total (send_metrics_of uid b d) = sm_ok (send_metrics_of uid b d) + sm_failed (send_metrics_of uid b d)"
    by (simp add: send_metrics_of_def Let_def) (rule count_where_split)
  show "sm_total_prev (send_metrics_of uid b d) = sm_ok_prev (send_metrics_of uid b d) + sm_failed_prev (send_metrics_of uid b d)"
    by (simp add: send_metrics_of_def Let_def) (rule count_where_split)
  show "sm_groups (send_metrics_of uid b d) \<le> sm_total (send_metrics_of uid b d)"
    by (simp add: send_metrics_of_def Let_def distinct_groups_le)
  let ?b = "sliding_window_bounds now DEFAULT_WINDOW"
  have disjoint: "\<not> (in_current ?b l \<and> in_previous ?b l)" for l
    by (simp add: in_current_def in_previous_def sliding_window_bounds_def)
  let ?R = "filter (\<lambda>l. in_scope uid l \<and> mb_previous_start ?b \<le> log_sent_at l \<and> log_sent_at l \<le> mb_current_end ?b) (db_send_logs d)"
  have "count_where (in_current ?b) ?R + count_where (in_previous ?b) ?R = count_where (\<lambda>l. in_current ?b l \<or> in_previous ?b l) ?R"
    by (rule count_where_or) (rule disjoint)
  also have "\<dots> = count_where (\<lambda>l. in_scope uid l \<and> now - 2 * day_us \<le> log_sent_at l \<and> log_sent_at l \<le> now) (db_send_logs d)"
    unfolding count_where_filter_conj
    by (rule arg_cong [where f = "\<lambda>P. count_where P (db_send_logs d)"])
      (auto simp: fun_eq_iff in_current_def in_previous_def sliding_window_bounds_def DEFAULT_WINDOW_def day_us_def)
  finally show "sm_total (send_metrics_of uid ?b d) + sm_total_prev (send_metrics_of uid ?b d) =
      count_where (\<lambda>l. in_scope uid l \<and> now - 2 * day_us \<le> log_sent_at l \<and> log_sent_at l \<le> now) (db_send_logs d)"
    by (simp add: send_metrics_of_def Let_def)
  have "sm_total (send_metrics_of (Some u) b d) = count_where (\<lambda>l. log_user_id l = u \<and>
      (mb_previous_start b \<le> log_sent_at l \<and> log_sent_at l \<le> mb_current_end b) \<and> in_current b l) (db_send_logs d)" for u
    by (simp add: send_metrics_of_def Let_def in_scope_def count_where_filter_conj conj_assoc)
  then show "sm_total (send_metrics_of None b d) =
      (\<Sum>u \<in> log_user_id ` set (db_send_logs d). sm_total (send_metrics_of (Some u) b d))"
    using count_where_by_key [of "log_user_id ` set (db_send_logs d)" log_user_id "db_send_logs d"]
    by (simp add: send_metrics_of_def Let_def in_scope_def count_where_filter_conj)
qed

end
