(* ===== verification/Max_Worker.thy ===== *)
theory Max_Worker
  imports Delivery Web_Reply "HOL-Library.Multiset"
begin

text \<open>
  The worker of one MAX account, \<open>max_worker/main.py\<close>: it takes the bodies of its Redis queue
  one by one, keeps the limit of messages a minute, sends through the client library and publishes
  one result per task or puts the task back for a later attempt.

  A body of the queue is of any type \<open>'raw\<close> with its JSON reading and writing
  (\<open>codec\<close>); in the program it is a string. The readings of the clock, the answers of Redis, of
  the client library and of the downloads are the arguments of a step. Instants and durations are
  microseconds.
\<close>

section \<open>Tasks\<close>

text \<open>The members of a task the worker reads; \<open>None\<close> is a missing one or null, where both are read alike.\<close>

record worker_task =
  wt_task_id :: "string option"
  wt_user_id :: "int option"
  wt_account_id :: "int option"
  wt_ad_id :: "int option"
  wt_group_id :: "int option"
  wt_schedule_id :: "int option"
  wt_ad_title :: "string option"
  wt_ad_text :: "string option option"
  wt_ad_images :: "string list option"
  wt_image_urls :: "string list option"
  wt_group_external_id :: "string option"
  wt_group_name :: "string option"
  wt_retry_count :: "int option"
  wt_delay_until :: "int option"

datatype body = Unreadable | NotAnObject | TaskBody worker_task

record 'raw codec =
  cd_loads :: "'raw \<Rightarrow> body"
  cd_dumps :: "worker_task \<Rightarrow> 'raw"

text \<open>What the worker reads in a payload the dispatcher has written.\<close>

definition worker_task_of :: "queue_payload \<Rightarrow> worker_task" where
  "worker_task_of p =
     \<lparr>wt_task_id = Some (pl_task_id p), wt_user_id = task_user_id (pl_task p),
      wt_account_id = Some (task_account_id (pl_task p)), wt_ad_id = Some (task_ad_id (pl_task p)),
      wt_group_id = Some (task_group_id (pl_task p)), wt_schedule_id = task_schedule_id (pl_task p),
      wt_ad_title = task_ad_title (pl_task p), wt_ad_text = Some (task_ad_text (pl_task p)),
      wt_ad_images = task_ad_images (pl_task p), wt_image_urls = None,
      wt_group_external_id = task_group_external_id (pl_task p), wt_group_name = task_group_name (pl_task p),
      wt_retry_count = None, wt_delay_until = None\<rparr>"

section \<open>The limit of messages a minute\<close>

definition RATE_WINDOW :: int where "RATE_WINDOW = 60000000"

text \<open>
  One round of \<open>wait_for_rate_limit\<close>: the stamps of the last minute stay; below the limit the
  moment is added, otherwise the round sleeps until the first stamp is out of the window. Without
  any stamp to wait for, \<open>rate_timestamps[0]\<close> raises.
\<close>

datatype rate_answer = RateAdmitted "int list" | RateWait int "int list" | RateRaised

definition fresh_stamps :: "int \<Rightarrow> int list \<Rightarrow> int list" where
  "fresh_stamps now ts = filter (\<lambda>t. now - t < RATE_WINDOW) ts"

definition rate_round :: "int \<Rightarrow> int \<Rightarrow> int list \<Rightarrow> rate_answer" where
  "rate_round limit now ts =
     (let ts' = fresh_stamps now ts in
      if int (length ts') < limit then RateAdmitted (ts' @ [now])
      else case ts' of
             [] \<Rightarrow> RateRaised
           | oldest # _ \<Rightarrow> RateWait (RATE_WINDOW - (now - oldest) + 50000) ts')"

text \<open>The loop: the clock gives the reading of every round.\<close>

partial_function (option) wait_for_rate_limit ::
  "int \<Rightarrow> (nat \<Rightarrow> int) \<Rightarrow> nat \<Rightarrow> int list \<Rightarrow> (exn + int list) option" where
  "wait_for_rate_limit limit clock k ts =
     (case rate_round limit (clock k) ts of
        RateAdmitted ts' \<Rightarrow> Some (Inr ts')
      | RateRaised \<Rightarrow> Some (Inl IndexError)
      | RateWait _ ts' \<Rightarrow> wait_for_rate_limit limit clock (Suc k) ts')"

section \<open>The session\<close>

record max_session =
  ms_client :: bool
  ms_connected :: bool
  ms_initializing :: bool
  ms_connected_at :: int
  ms_sync_state :: "string option"
  ms_groups :: "(string \<times> string) list option"
  ms_qr_code :: "string option"
  ms_error :: "string option"
  ms_phone :: string
  ms_intentional_close :: bool
  ms_last_activity :: int

definition new_session :: "int \<Rightarrow> max_session" where
  "new_session now =
     \<lparr>ms_client = False, ms_connected = False, ms_initializing = False, ms_connected_at = 0,
      ms_sync_state = None, ms_groups = None, ms_qr_code = None, ms_error = None, ms_phone = '''',
      ms_intentional_close = False, ms_last_activity = now\<rparr>"

section \<open>Sending one task\<close>

text \<open>
  The outside of one send: the session the wait for readiness ends with (\<open>None\<close> is the
  timeout), the download of an image (a text that was raised, or the content type), the session when
  the client is called, after the pauses, and what that call raises.
\<close>

record send_io =
  si_ready :: "max_session option option"
  si_image :: "string \<Rightarrow> string + string option"
  si_session :: "max_session option"
  si_post :: "string option"

record max_post =
  mp_chat_id :: "int option"
  mp_text :: "string option"
  mp_photos :: "(string \<times> string) list"

definition string_or :: "string option \<Rightarrow> string option" where
  "string_or v = (case v of Some [] \<Rightarrow> None | _ \<Rightarrow> v)"

definition int_or :: "int option \<Rightarrow> int option" where
  "int_or v = (if v = Some 0 then None else v)"

definition list_or :: "'a list option \<Rightarrow> 'a list option" where
  "list_or v = (case v of Some [] \<Rightarrow> None | _ \<Rightarrow> v)"

text \<open>\<open>int(raw_group_id) if raw_group_id else None\<close>.\<close>

definition chat_of :: "worker_task \<Rightarrow> string + int option" where
  "chat_of t =
     (case string_or (wt_group_external_id t) of
        Some s \<Rightarrow>
          (case py_int s of
             None \<Rightarrow> Inl (''invalid literal for int() with base 10: '' @ repr_str s)
           | Some n \<Rightarrow> Inr (Some n))
      | None \<Rightarrow> Inr (int_or (wt_group_id t)))"

definition task_images :: "worker_task \<Rightarrow> string list" where
  "task_images t =
     (case list_or (wt_ad_images t) of
        Some xs \<Rightarrow> xs
      | None \<Rightarrow> (case list_or (wt_image_urls t) of Some xs \<Rightarrow> xs | None \<Rightarrow> []))"

definition task_text :: "worker_task \<Rightarrow> string option" where
  "task_text t = (case wt_ad_text t of None \<Rightarrow> Some '''' | Some v \<Rightarrow> v)"

definition photo_suffix :: "string option \<Rightarrow> string" where
  "photo_suffix ct =
     (let c = (case ct of None \<Rightarrow> ''image/jpeg'' | Some s \<Rightarrow> s) in
      if contains ''png'' c then ''.png''
      else if contains ''gif'' c then ''.gif''
      else if contains ''webp'' c then ''.webp''
      else ''.jpg'')"

text \<open>An image that cannot be loaded is logged and left out.\<close>

definition photos :: "(string \<Rightarrow> string + string option) \<Rightarrow> string list \<Rightarrow> (string \<times> string) list" where
  "photos download urls =
     concat (map (\<lambda>u. case download u of Inl _ \<Rightarrow> [] | Inr ct \<Rightarrow> [(u, photo_suffix ct)]) urls)"

definition session_usable :: "max_session option \<Rightarrow> bool" where
  "session_usable s = (case s of None \<Rightarrow> False | Some m \<Rightarrow> ms_connected m \<and> ms_client m)"

text \<open>The call of the client library, on the session of that moment.\<close>

definition none_attribute :: "string \<Rightarrow> string" where
  "none_attribute a =
     CHR 0x27 # ''NoneType'' @ CHR 0x27 # '' object has no attribute '' @ CHR 0x27 # a @ [CHR 0x27]"

definition client_post :: "send_io \<Rightarrow> max_post \<Rightarrow> string + max_post option" where
  "client_post si p =
     (case si_session si of
        None \<Rightarrow> Inl (none_attribute ''client'')
      | Some m \<Rightarrow>
          if \<not> ms_client m then Inl (none_attribute ''send_message'')
          else (case si_post si of Some e \<Rightarrow> Inl e | None \<Rightarrow> Inr (Some p)))"

definition send_message :: "send_io \<Rightarrow> max_session option \<Rightarrow> worker_task \<Rightarrow> string + max_post option" where
  "send_message si session t =
     (case chat_of t of
        Inl e \<Rightarrow> Inl e
      | Inr chat \<Rightarrow>
          let waits = (case session of None \<Rightarrow> False | Some m \<Rightarrow> \<not> ms_connected m \<and> ms_initializing m) in
          if waits \<and> si_ready si = None then Inl ''MAX session connect timeout''
          else
            let s = (if waits then (case si_ready si of None \<Rightarrow> session | Some s' \<Rightarrow> s') else session);
                plain = \<lparr>mp_chat_id = chat, mp_text = task_text t, mp_photos = []\<rparr>
            in if \<not> session_usable s then Inl ''MAX session not available''
               else if task_images t = [] then client_post si plain
               else let attachments = photos (si_image si) (task_images t) in
                    if attachments \<noteq> [] then client_post si (plain\<lparr>mp_photos := attachments\<rparr>)
                    else if string_or (task_text t) \<noteq> None then client_post si plain
                    else Inr None)"

section \<open>Results and retries\<close>

definition RETRY_DELAYS :: "int list" where "RETRY_DELAYS = [15000000, 60000000, 180000000]"
definition MAX_RETRIES :: int where "MAX_RETRIES = 3"

definition is_no_retry_error :: "string \<Rightarrow> bool" where
  "is_no_retry_error err_msg =
     (let err = lower err_msg in
      contains ''forbidden'' err \<or>
      (contains ''session not available'' err \<and> \<not> contains ''timeout'' err) \<or>
      contains ''not a member'' err \<or>
      contains ''banned'' err)"

text \<open>The result as the application reads it back: the members it does not read are left out.\<close>

definition max_result :: "worker_task \<Rightarrow> string \<Rightarrow> string option \<Rightarrow> bool \<Rightarrow> bridge_result" where
  "max_result t status error no_retry =
     \<lparr>br_user_id = Some (wt_user_id t), br_status = Some status, br_schedule_id = wt_schedule_id t,
      br_ad_id = wt_ad_id t, br_group_id = wt_group_id t, br_task_id = wt_task_id t,
      br_error_message = error, br_ad_title = wt_ad_title t,
      br_ad_text = (case wt_ad_text t of None \<Rightarrow> None | Some v \<Rightarrow> v),
      br_ad_images = Some (case wt_ad_images t of None \<Rightarrow> [] | Some xs \<Rightarrow> xs),
      br_group_name = wt_group_name t, br_no_retry = no_retry\<rparr>"

record 'raw worker =
  wk_queue :: "'raw list"
  wk_results :: "bridge_result list"
  wk_posts :: "max_post list"
  wk_rate :: "int list"
  wk_session :: "max_session option"
  wk_last_task :: int
  wk_running :: bool
  wk_shutting_down :: bool
  wk_exited :: bool
  wk_heartbeat :: "int option"
  wk_endpoint :: "string option"

text \<open>A result Redis does not take is logged and gone.\<close>

definition publish_result ::
  "bool \<Rightarrow> worker_task \<Rightarrow> string \<Rightarrow> string option \<Rightarrow> bool \<Rightarrow> 'raw worker \<Rightarrow> 'raw worker" where
  "publish_result up t status error no_retry w =
     (if up then w\<lparr>wk_results := wk_results w @ [max_result t status error no_retry]\<rparr> else w)"

text \<open>\<open>RETRY_DELAYS[n]\<close>; an index below zero counts from the end.\<close>

definition retry_delay :: "int \<Rightarrow> exn + int" where
  "retry_delay n =
     (if 0 \<le> n \<and> n < 3 then Inr (RETRY_DELAYS ! nat n)
      else if - 3 \<le> n \<and> n < 0 then Inr (RETRY_DELAYS ! nat (n + 3))
      else Inl IndexError)"

text \<open>The outside of one turn of the consumer; \<open>io_push\<close> and \<open>io_publish\<close> say whether Redis takes it.\<close>

record step_io =
  io_pop_fails :: bool
  io_now :: int
  io_due :: int
  io_rate :: "nat \<Rightarrow> int"
  io_send :: send_io
  io_failed_at :: int
  io_push :: bool
  io_publish :: bool
  io_beat :: "int option"
  io_error_at :: int
  io_deletes :: nat

definition retry_count :: "worker_task \<Rightarrow> int" where
  "retry_count t = (case wt_retry_count t of None \<Rightarrow> 0 | Some n \<Rightarrow> n)"

definition retried :: "int \<Rightarrow> int \<Rightarrow> worker_task \<Rightarrow> worker_task" where
  "retried now delay t = t\<lparr>wt_retry_count := Some (retry_count t + 1), wt_delay_until := Some (now + delay)\<rparr>"

definition after_failure :: "'raw codec \<Rightarrow> step_io \<Rightarrow> string \<Rightarrow> worker_task \<Rightarrow> 'raw worker \<Rightarrow> (exn + unit) \<times> 'raw worker" where
  "after_failure cd io err t w =
     (if is_no_retry_error err then (Inr (), publish_result (io_publish io) t ''fail'' (Some err) True w)
      else if retry_count t < MAX_RETRIES then
        (case retry_delay (retry_count t) of
           Inl e \<Rightarrow> (Inl e, w)
         | Inr delay \<Rightarrow>
             if io_push io
             then (Inr (), w\<lparr>wk_queue := wk_queue w @ [cd_dumps cd (retried (io_failed_at io) delay t)]\<rparr>)
             else (Inl RedisError, w))
      else (Inr (), publish_result (io_publish io) t ''fail'' (Some err) False w))"

definition process_task ::
  "int \<Rightarrow> 'raw codec \<Rightarrow> step_io \<Rightarrow> worker_task \<Rightarrow> 'raw worker \<Rightarrow> ((exn + unit) \<times> 'raw worker) option" where
  "process_task limit cd io t w =
     (case wait_for_rate_limit limit (io_rate io) 0 (wk_rate w) of
        None \<Rightarrow> None
      | Some (Inl e) \<Rightarrow> Some (Inl e, w\<lparr>wk_rate := []\<rparr>)
      | Some (Inr ts) \<Rightarrow>
          let w1 = w\<lparr>wk_rate := ts\<rparr> in
          Some (case send_message (io_send io) (wk_session w) t of
                  Inr post \<Rightarrow>
                    (Inr (), publish_result (io_publish io) t ''ok'' None False
                       (w1\<lparr>wk_posts := wk_posts w1 @ (case post of None \<Rightarrow> [] | Some p \<Rightarrow> [p])\<rparr>))
                | Inl err \<Rightarrow> after_failure cd io err t w1))"

section \<open>The consumer\<close>

text \<open>
  \<open>graceful_shutdown\<close>: once only; the two keys of the worker leave Redis one after the other
  until a deletion raises (\<open>deletes\<close> of them work), the session is dropped and the process ends.
\<close>

definition graceful_shutdown :: "nat \<Rightarrow> 'raw worker \<Rightarrow> 'raw worker" where
  "graceful_shutdown deletes w =
     (if wk_shutting_down w then w
      else w\<lparr>wk_shutting_down := True, wk_running := False,
             wk_heartbeat := (if 1 \<le> deletes then None else wk_heartbeat w),
             wk_endpoint := (if 2 \<le> deletes then None else wk_endpoint w),
             wk_session := None, wk_exited := True\<rparr>)"

text \<open>\<open>IDLE_SHUTDOWN_SEC > 0\<close> and that long without a task.\<close>

definition idle_too_long :: "int \<Rightarrow> int \<Rightarrow> 'raw worker \<Rightarrow> bool" where
  "idle_too_long idle_sec now w \<longleftrightarrow> 0 < idle_sec \<and> idle_sec * second_us \<le> now - wk_last_task w"

definition loop_error :: "int \<Rightarrow> step_io \<Rightarrow> 'raw worker \<Rightarrow> 'raw worker" where
  "loop_error idle_sec io w =
     (if wk_running w \<and> idle_too_long idle_sec (io_error_at io) w then graceful_shutdown (io_deletes io) w else w)"

definition write_heartbeat :: "int option \<Rightarrow> 'raw worker \<Rightarrow> 'raw worker" where
  "write_heartbeat beat w = (case beat of None \<Rightarrow> w | Some ms \<Rightarrow> w\<lparr>wk_heartbeat := Some ms\<rparr>)"

definition waits_still :: "int \<Rightarrow> worker_task \<Rightarrow> bool" where
  "waits_still now t \<longleftrightarrow> (case int_or (wt_delay_until t) of None \<Rightarrow> False | Some d \<Rightarrow> now < d)"

definition handle_body ::
  "int \<Rightarrow> int \<Rightarrow> 'raw codec \<Rightarrow> step_io \<Rightarrow> 'raw \<Rightarrow> 'raw worker \<Rightarrow> 'raw worker option" where
  "handle_body limit idle_sec cd io raw w =
     (case cd_loads cd raw of
        Unreadable \<Rightarrow> Some w
      | NotAnObject \<Rightarrow> Some (loop_error idle_sec io w)
      | TaskBody t \<Rightarrow>
          if waits_still (io_due io) t then
            Some (if io_push io then w\<lparr>wk_queue := wk_queue w @ [raw]\<rparr> else loop_error idle_sec io w)
          else (case process_task limit cd io t w of
                  None \<Rightarrow> None
                | Some (Inl e, w') \<Rightarrow> Some (loop_error idle_sec io w')
                | Some (Inr _, w') \<Rightarrow> Some (write_heartbeat (io_beat io) w')))"

text \<open>One turn of the loop of \<open>start_consumer\<close>. A loop that has ended stays as it is.\<close>

definition consumer_step :: "int \<Rightarrow> int \<Rightarrow> 'raw codec \<Rightarrow> step_io \<Rightarrow> 'raw worker \<Rightarrow> 'raw worker option" where
  "consumer_step limit idle_sec cd io w =
     (if \<not> wk_running w then Some w
      else if io_pop_fails io then Some (loop_error idle_sec io w)
      else case wk_queue w of
             [] \<Rightarrow> Some (if idle_too_long idle_sec (io_now io) w then graceful_shutdown (io_deletes io) w else w)
           | raw # rest \<Rightarrow>
               handle_body limit idle_sec cd io raw (w\<lparr>wk_queue := rest, wk_last_task := io_now io\<rparr>))"

fun consume :: "int \<Rightarrow> int \<Rightarrow> 'raw codec \<Rightarrow> step_io list \<Rightarrow> 'raw worker \<Rightarrow> 'raw worker option" where
  "consume limit idle_sec cd [] w = Some w"
| "consume limit idle_sec cd (io # ios) w =
     Option.bind (consumer_step limit idle_sec cd io w) (consume limit idle_sec cd ios)"

section \<open>The limiter\<close>

text \<open>
  The stamps admitted when rounds happen at the given moments, whoever makes them: between two
  suspensions a round is not interrupted.
\<close>

fun admitted :: "int \<Rightarrow> int list \<Rightarrow> int list \<Rightarrow> int list" where
  "admitted limit [] ts = []"
| "admitted limit (now # ns) ts =
     (case rate_round limit now ts of
        RateAdmitted ts' \<Rightarrow> now # admitted limit ns ts'
      | RateWait _ ts' \<Rightarrow> admitted limit ns ts'
      | RateRaised \<Rightarrow> admitted limit ns [])"

definition in_window :: "int \<Rightarrow> int \<Rightarrow> bool" where
  "in_window a t \<longleftrightarrow> a \<le> t \<and> t < a + RATE_WINDOW"

lemma admitted_after: "t \<in> set (admitted limit ns ts) \<Longrightarrow> t \<in> set ns"
  by (induction limit ns ts rule: admitted.induct) (auto split: rate_answer.splits)

lemma rate_round_stamps:
  "rate_round limit now ts = RateAdmitted ts' \<Longrightarrow> ts' = fresh_stamps now ts @ [now] \<and> int (length ts') \<le> limit"
  "rate_round limit now ts = RateWait d ts' \<Longrightarrow> ts' = fresh_stamps now ts"
  "rate_round limit now ts = RateRaised \<Longrightarrow> fresh_stamps now ts = []"
  by (auto simp: rate_round_def Let_def split: if_splits list.splits)

lemma count_where_le: "count_where P xs \<le> length xs"
  by (simp add: count_where_def)

lemma count_where_filter:
  "(\<And>x. x \<in> set xs \<Longrightarrow> P x \<Longrightarrow> Q x) \<Longrightarrow> count_where P (filter Q xs) = count_where P xs"
  by (induction xs) auto

text \<open>A window that sees a stamp the round forgets is closed before the round.\<close>

lemma window_past_or_fresh:
  assumes "sorted (now # ns)"
  shows "count_where (in_window a) (ts @ now # admitted limit ns us) = count_where (in_window a) ts
    \<and> count_where (in_window a) (ts @ admitted limit ns us) = count_where (in_window a) ts
    \<or> count_where (in_window a) (fresh_stamps now ts) = count_where (in_window a) ts"
proof (cases "\<exists>t \<in> set ts. in_window a t \<and> \<not> now - t < RATE_WINDOW")
  case True
  then have past: "a + RATE_WINDOW \<le> now" by (auto simp: in_window_def)
  have "now \<le> t" if "t \<in> set (admitted limit ns us)" for t
    using admitted_after [OF that] assms by auto
  with past have "count_where (in_window a) (admitted limit ns us) = 0" "\<not> in_window a now"
    by (force simp: count_where_0 in_window_def)+
  then show ?thesis by simp
next
  case False
  then show ?thesis
    by (intro disjI2) (auto simp: fresh_stamps_def intro!: count_where_filter)
qed

lemma admitted_bounded:
  assumes "sorted ns" "int (count_where (in_window a) ts) \<le> limit"
  shows "int (count_where (in_window a) (ts @ admitted limit ns ts)) \<le> limit"
  using assms
proof (induction ns arbitrary: ts)
  case Nil
  then show ?case by simp
next
  case (Cons now ns)
  note dichotomy = window_past_or_fresh [OF Cons.prems(1), of a ts limit]
  have sorted: "sorted ns" using Cons.prems(1) by simp
  show ?case
  proof (cases "rate_round limit now ts")
    case (RateAdmitted ts')
    from rate_round_stamps(1) [OF this]
    have ts': "ts' = fresh_stamps now ts @ [now]" "int (length ts') \<le> limit" by auto
    have "int (count_where (in_window a) ts') \<le> limit"
      using count_where_le [of "in_window a" ts'] ts'(2) by linarith
    from Cons.IH [OF sorted this] ts'(1) RateAdmitted dichotomy [of ts'] Cons.prems(2)
    show ?thesis by auto
  next
    case (RateWait d ts')
    from rate_round_stamps(2) [OF this] have ts': "ts' = fresh_stamps now ts" .
    have "count_where (in_window a) ts' \<le> count_where (in_window a) ts"
      unfolding ts' fresh_stamps_def by (induction ts) auto
    with Cons.prems(2) have "int (count_where (in_window a) ts') \<le> limit" by linarith
    from Cons.IH [OF sorted this] ts' RateWait dichotomy [of ts'] Cons.prems(2)
    show ?thesis by auto
  next
    case RateRaised
    from rate_round_stamps(3) [OF this] have none: "fresh_stamps now ts = []" .
    have "int (count_where (in_window a) []) \<le> limit" using Cons.prems(2) by simp
    from Cons.IH [OF sorted this] none RateRaised dichotomy [of "[]"] Cons.prems(2)
    show ?thesis by auto
  qed
qed



lemma fresh_fresh: "now \<le> later \<Longrightarrow> fresh_stamps later (fresh_stamps now ts) = fresh_stamps later ts"
  by (induction ts) (auto simp: fresh_stamps_def)

lemma length_fresh: "length (fresh_stamps now ts) \<le> length ts"
  by (simp add: fresh_stamps_def)

lemma rate_round_wait:
  assumes "rate_round limit now ts = RateWait d ts'"
  shows "ts' = fresh_stamps now ts \<and> limit \<le> int (length ts') \<and>
    (\<exists>oldest rest. ts' = oldest # rest \<and> now - oldest < RATE_WINDOW \<and> d = RATE_WINDOW - (now - oldest) + 50000)"
proof -
  have ts': "ts' = fresh_stamps now ts" by (rule rate_round_stamps(2) [OF assms])
  obtain oldest rest where cons: "fresh_stamps now ts = oldest # rest"
    and d: "d = RATE_WINDOW - (now - oldest) + 50000" "limit \<le> int (length (fresh_stamps now ts))"
    using assms by (auto simp: rate_round_def Let_def split: if_splits list.splits)
  have "oldest \<in> set (fresh_stamps now ts)" by (simp add: cons)
  then have "now - oldest < RATE_WINDOW" by (simp add: fresh_stamps_def)
  with ts' cons d show ?thesis by simp
qed

lemma rate_round_returns:
  assumes "1 \<le> limit" "int (length ts) \<le> limit"
    and "\<And>d ts'. rate_round limit (clock k) ts = RateWait d ts' \<Longrightarrow> clock k + d \<le> clock (Suc k)"
  shows "\<exists>now \<in> {clock k, clock (Suc k)}.
     wait_for_rate_limit limit clock k ts = Some (Inr (fresh_stamps now ts @ [now])) \<and>
     int (length (fresh_stamps now ts @ [now])) \<le> limit"
proof (cases "rate_round limit (clock k) ts")
  case (RateAdmitted ts')
  from rate_round_stamps(1) [OF this] have "ts' = fresh_stamps (clock k) ts @ [clock k]" "int (length ts') \<le> limit"
    by auto
  with RateAdmitted show ?thesis
    by (intro bexI [of _ "clock k"]) (simp_all add: wait_for_rate_limit.simps)
next
  case RateRaised
  then show ?thesis using assms(1) by (auto simp: rate_round_def Let_def split: if_splits list.splits)
next
  case (RateWait d ts')
  from rate_round_wait [OF this] obtain oldest rest where ts': "ts' = fresh_stamps (clock k) ts" "ts' = oldest # rest"
    and d: "clock k - oldest < RATE_WINDOW" "d = RATE_WINDOW - (clock k - oldest) + 50000" by auto
  let ?now = "clock (Suc k)"
  have later: "clock k \<le> ?now" "RATE_WINDOW \<le> ?now - oldest" using assms(3) [OF RateWait] d by auto
  have fresh: "fresh_stamps ?now ts' = fresh_stamps ?now ts" using ts'(1) later(1) by (simp add: fresh_fresh)
  have "fresh_stamps ?now ts' = fresh_stamps ?now rest" using ts'(2) later(2) by (simp add: fresh_stamps_def)
  then have "length (fresh_stamps ?now ts') < length ts'" using length_fresh [of ?now rest] ts'(2) by simp
  moreover have "length ts' \<le> length ts" using length_fresh [of "clock k" ts] ts'(1) by simp
  ultimately have "int (length (fresh_stamps ?now ts')) < limit" using assms(2) by linarith
  then have "int (length (fresh_stamps ?now ts)) < limit" unfolding fresh .
  with RateWait fresh show ?thesis
    by (intro bexI [of _ ?now]) (simp_all add: wait_for_rate_limit.simps [of limit clock k]
        wait_for_rate_limit.simps [of limit clock "Suc k"] rate_round_def)
qed

text \<open>
  the wait for the limit ends: with a positive limit and no more stamps than it allows, once the
  sleep of the first round has passed on the clock the second round admits the message at the
  latest, and there are still no more stamps than the limit.
\<close>

theorem rate_limit_wait_ends:
  assumes "1 \<le> limit" "int (length ts) \<le> limit"
    and "\<And>d ts'. rate_round limit (clock k) ts = RateWait d ts' \<Longrightarrow> clock k + d \<le> clock (Suc k)"
  shows "\<exists>now \<in> {clock k, clock (Suc k)}.
     wait_for_rate_limit limit clock k ts = Some (Inr (fresh_stamps now ts @ [now])) \<and>
     int (length (fresh_stamps now ts @ [now])) \<le> limit"
  by (rule rate_round_returns [OF assms])

theorem rate_limit_wait_ends_witness:
  "\<exists>now \<in> {1000000, 60050000}.
     wait_for_rate_limit 1 (\<lambda>k. if k = 0 then 1000000 else 60050000) 0 [0] = Some (Inr (fresh_stamps now [0] @ [now])) \<and>
     int (length (fresh_stamps now [0] @ [now])) \<le> 1"
  using rate_limit_wait_ends [of 1 "[0]" "\<lambda>k. if k = 0 then 1000000 else 60050000" 0]
  by (simp add: rate_round_def fresh_stamps_def RATE_WINDOW_def)

section \<open>What becomes of the tasks of the queue\<close>

text \<open>
  What a result says of its task whatever came of it, the results owed to the tasks among the
  bodies, and how many turns a body can still take.
\<close>

definition origin :: "bridge_result \<Rightarrow> bridge_result" where
  "origin r = r\<lparr>br_status := None, br_error_message := None, br_no_retry := False\<rparr>"

definition owed_result :: "worker_task \<Rightarrow> bridge_result" where
  "owed_result t = origin (max_result t '''' None False)"

definition owed_results :: "'raw codec \<Rightarrow> 'raw list \<Rightarrow> bridge_result list" where
  "owed_results cd raws =
     concat (map (\<lambda>raw. case cd_loads cd raw of TaskBody t \<Rightarrow> [owed_result t] | _ \<Rightarrow> []) raws)"

definition turns_left :: "'raw codec \<Rightarrow> 'raw \<Rightarrow> nat" where
  "turns_left cd raw = (case cd_loads cd raw of TaskBody t \<Rightarrow> nat (MAX_RETRIES + 1 - retry_count t) | _ \<Rightarrow> 1)"

definition queue_turns :: "'raw codec \<Rightarrow> 'raw list \<Rightarrow> nat" where
  "queue_turns cd raws = sum_list (map (turns_left cd) raws)"

definition counted :: "'raw codec \<Rightarrow> 'raw list \<Rightarrow> bool" where
  "counted cd raws \<longleftrightarrow>
     (\<forall>raw \<in> set raws. \<forall>t. cd_loads cd raw = TaskBody t \<longrightarrow> 0 \<le> retry_count t \<and> retry_count t \<le> MAX_RETRIES)"

lemma owed_results_simps [simp]:
  "owed_results cd [] = []"
  "owed_results cd (raw # raws) = (case cd_loads cd raw of TaskBody t \<Rightarrow> [owed_result t] | _ \<Rightarrow> []) @ owed_results cd raws"
  "owed_results cd (raws @ raws') = owed_results cd raws @ owed_results cd raws'"
  by (simp_all add: owed_results_def)

lemma queue_turns_simps [simp]:
  "queue_turns cd [] = 0"
  "queue_turns cd (raw # raws) = turns_left cd raw + queue_turns cd raws"
  "queue_turns cd (raws @ raws') = queue_turns cd raws + queue_turns cd raws'"
  by (simp_all add: queue_turns_def)

lemma counted_simps [simp]:
  "counted cd []"
  "counted cd (raw # raws) \<longleftrightarrow> (\<forall>t. cd_loads cd raw = TaskBody t \<longrightarrow> 0 \<le> retry_count t \<and> retry_count t \<le> MAX_RETRIES) \<and> counted cd raws"
  "counted cd (raws @ raws') \<longleftrightarrow> counted cd raws \<and> counted cd raws'"
  by (auto simp: counted_def)

text \<open>
  A turn nothing outside spoils: Redis takes what is pushed, the sleep of the limiter is kept, the
  first body is due, and the turn itself does not outlast the idle limit.
\<close>

definition fair_turn :: "int \<Rightarrow> int \<Rightarrow> 'raw codec \<Rightarrow> step_io \<Rightarrow> 'raw worker \<Rightarrow> bool" where
  "fair_turn limit idle_sec cd io w \<longleftrightarrow>
     \<not> io_pop_fails io \<and> io_push io \<and> io_publish io \<and>
     (\<forall>d ts'. rate_round limit (io_rate io 0) (wk_rate w) = RateWait d ts' \<longrightarrow> io_rate io 0 + d \<le> io_rate io 1) \<and>
     (\<forall>raw rest t. wk_queue w = raw # rest \<longrightarrow> cd_loads cd raw = TaskBody t \<longrightarrow> \<not> waits_still (io_due io) t) \<and>
     (0 < idle_sec \<longrightarrow> io_error_at io - io_now io < idle_sec * second_us)"

fun fair_run :: "int \<Rightarrow> int \<Rightarrow> 'raw codec \<Rightarrow> step_io list \<Rightarrow> 'raw worker \<Rightarrow> bool" where
  "fair_run limit idle_sec cd [] w = True"
| "fair_run limit idle_sec cd (io # ios) w \<longleftrightarrow>
     fair_turn limit idle_sec cd io w \<and>
     (case consumer_step limit idle_sec cd io w of None \<Rightarrow> True | Some w' \<Rightarrow> fair_run limit idle_sec cd ios w')"

text \<open>What a stretch of turns has done: the results and messages added, and the tasks still in the queue.\<close>

definition is_ok :: "bridge_result \<Rightarrow> bool" where
  "is_ok r \<longleftrightarrow> br_status r = Some ''ok''"

definition progress ::
  "'raw codec \<Rightarrow> 'raw worker \<Rightarrow> 'raw worker \<Rightarrow> bridge_result list \<Rightarrow> max_post list \<Rightarrow> bool" where
  "progress cd w w' rs ps \<longleftrightarrow>
     wk_results w' = wk_results w @ rs \<and> wk_posts w' = wk_posts w @ ps \<and>
     mset (map origin rs) + mset (owed_results cd (wk_queue w')) = mset (owed_results cd (wk_queue w)) \<and>
     length ps \<le> count_where is_ok rs \<and> (\<forall>r \<in> set rs. br_status r \<noteq> None)"

lemma progress_refl: "progress cd w w [] []"
  by (simp add: progress_def)

lemma progress_trans:
  assumes "progress cd w w' rs ps" "progress cd w' w'' rs' ps'"
  shows "progress cd w w'' (rs @ rs') (ps @ ps')"
  using assms by (auto simp: progress_def ac_simps)

lemma origin_max_result [simp]: "origin (max_result t status e n) = owed_result t"
  by (simp add: owed_result_def origin_def max_result_def)

lemma max_result_has_status [simp]: "br_status (max_result t status e n) = Some status"
  by (simp add: max_result_def)

lemma max_result_status: "is_ok (max_result t status e n) \<longleftrightarrow> status = ''ok''"
  by (simp add: max_result_def is_ok_def)

lemma retried_simps:
  "owed_result (retried now delay t) = owed_result t"
  "retry_count (retried now delay t) = retry_count t + 1"
  by (simp_all add: retried_def retry_count_def owed_result_def max_result_def)

lemma retry_delay_counted: "0 \<le> n \<Longrightarrow> n < MAX_RETRIES \<Longrightarrow> retry_delay n = Inr (RETRY_DELAYS ! nat n)"
  by (simp add: retry_delay_def MAX_RETRIES_def)

text \<open>The worker between turns: running, the stamps within the limit.\<close>

definition ready :: "int \<Rightarrow> 'raw codec \<Rightarrow> 'raw worker \<Rightarrow> bool" where
  "ready limit cd w \<longleftrightarrow> wk_running w \<and> int (length (wk_rate w)) \<le> limit \<and> counted cd (wk_queue w)"

lemma after_failure_progress:
  assumes "\<And>u. cd_loads cd (cd_dumps cd u) = TaskBody u" "io_push io" "io_publish io"
    and "0 \<le> retry_count t" "retry_count t \<le> MAX_RETRIES" "ready limit cd w"
  shows "\<exists>w' rs. after_failure cd io e t w = (Inr (), w') \<and> ready limit cd w' \<and>
    wk_results w' = wk_results w @ rs \<and> wk_posts w' = wk_posts w \<and> (\<forall>r \<in> set rs. br_status r \<noteq> None) \<and>
    mset (map origin rs) + mset (owed_results cd (wk_queue w')) = add_mset (owed_result t) (mset (owed_results cd (wk_queue w))) \<and>
    queue_turns cd (wk_queue w') < nat (MAX_RETRIES + 1 - retry_count t) + queue_turns cd (wk_queue w)"
  using assms
  by (auto simp: after_failure_def publish_result_def retry_delay_counted retried_simps ready_def
      turns_left_def MAX_RETRIES_def)

lemma rate_wait_ready:
  assumes "1 \<le> limit" "int (length (wk_rate w)) \<le> limit" "fair_turn limit idle_sec cd io w"
  shows "\<exists>ts. wait_for_rate_limit limit (io_rate io) 0 (wk_rate w) = Some (Inr ts) \<and> int (length ts) \<le> limit"
proof -
  have "io_rate io 0 + d \<le> io_rate io (Suc 0)" if "rate_round limit (io_rate io 0) (wk_rate w) = RateWait d ts'" for d ts'
    using assms(3) that by (simp add: fair_turn_def)
  then show ?thesis
    using rate_round_returns [OF assms(1,2), where clock = "io_rate io" and k = 0] by blast
qed

lemma process_task_progress:
  assumes codec: "\<And>u. cd_loads cd (cd_dumps cd u) = TaskBody u"
    and "1 \<le> limit" "fair_turn limit idle_sec cd io w0" "wk_rate w0 = wk_rate w" "ready limit cd w"
    and t: "0 \<le> retry_count t" "retry_count t \<le> MAX_RETRIES"
  shows "\<exists>w' rs ps. process_task limit cd io t w = Some (Inr (), w') \<and> ready limit cd w' \<and>
    wk_results w' = wk_results w @ rs \<and> wk_posts w' = wk_posts w @ ps \<and>
    mset (map origin rs) + mset (owed_results cd (wk_queue w')) = add_mset (owed_result t) (mset (owed_results cd (wk_queue w))) \<and>
    length ps \<le> count_where is_ok rs \<and> (\<forall>r \<in> set rs. br_status r \<noteq> None) \<and>
    queue_turns cd (wk_queue w') < nat (MAX_RETRIES + 1 - retry_count t) + queue_turns cd (wk_queue w)"
proof -
  obtain ts where ts: "wait_for_rate_limit limit (io_rate io) 0 (wk_rate w) = Some (Inr ts)" "int (length ts) \<le> limit"
    using rate_wait_ready [OF assms(2) _ assms(3)] assms(4,5) by (auto simp: ready_def)
  have up: "io_push io" "io_publish io" using assms(3) by (auto simp: fair_turn_def)
  let ?w = "w\<lparr>wk_rate := ts\<rparr>"
  have ready: "ready limit cd ?w" using assms(5) ts(2) by (simp add: ready_def)
  show ?thesis
  proof (cases "send_message (io_send io) (wk_session w) t")
    case (Inr post)
    then show ?thesis
      using ts(1) up ready t
      by (auto simp: process_task_def publish_result_def ready_def max_result_status MAX_RETRIES_def
          split: option.splits)
  next
    case (Inl e)
    from after_failure_progress [OF codec up t ready, of e] Inl ts(1)
    show ?thesis by (auto simp: process_task_def)
  qed
qed

lemma loop_error_fair:
  assumes "fair_turn limit idle_sec cd io w0" "wk_last_task w = io_now io"
  shows "loop_error idle_sec io w = w"
  using assms by (auto simp: loop_error_def idle_too_long_def fair_turn_def)

lemma consumer_step_progress:
  assumes codec: "\<And>u. cd_loads cd (cd_dumps cd u) = TaskBody u"
    and "1 \<le> limit" "fair_turn limit idle_sec cd io w" "ready limit cd w" "wk_queue w \<noteq> []"
  shows "\<exists>w' rs ps. consumer_step limit idle_sec cd io w = Some w' \<and> ready limit cd w' \<and>
    progress cd w w' rs ps \<and> queue_turns cd (wk_queue w') < queue_turns cd (wk_queue w)"
proof -
  obtain raw rest where q: "wk_queue w = raw # rest" using assms(5) by (cases "wk_queue w") auto
  let ?w = "w\<lparr>wk_queue := rest, wk_last_task := io_now io\<rparr>"
  have step: "consumer_step limit idle_sec cd io w = handle_body limit idle_sec cd io raw ?w"
    using assms(3,4) q by (simp add: consumer_step_def fair_turn_def ready_def)
  have ready: "ready limit cd ?w" using assms(4) q by (simp add: ready_def)
  show ?thesis
  proof (cases "cd_loads cd raw")
    case Unreadable
    then show ?thesis
      using step ready q by (auto simp: handle_body_def progress_def turns_left_def intro!: exI [of _ "[]"])
  next
    case NotAnObject
    then show ?thesis
      using step ready q loop_error_fair [OF assms(3), of ?w]
      by (auto simp: handle_body_def progress_def turns_left_def intro!: exI [of _ "[]"])
  next
    case (TaskBody t)
    have t: "0 \<le> retry_count t" "retry_count t \<le> MAX_RETRIES"
      using assms(4) q TaskBody by (auto simp: ready_def)
    have due: "\<not> waits_still (io_due io) t" using assms(3) q TaskBody by (auto simp: fair_turn_def)
    obtain w' rs ps where p: "process_task limit cd io t ?w = Some (Inr (), w')" "ready limit cd w'"
      "wk_results w' = wk_results w @ rs" "wk_posts w' = wk_posts w @ ps" "length ps \<le> count_where is_ok rs \<and> (\<forall>r \<in> set rs. br_status r \<noteq> None)"
      "mset (map origin rs) + mset (owed_results cd (wk_queue w')) = add_mset (owed_result t) (mset (owed_results cd rest))"
      "queue_turns cd (wk_queue w') < nat (MAX_RETRIES + 1 - retry_count t) + queue_turns cd rest"
      using process_task_progress [OF codec assms(2,3) _ ready t] by auto
    let ?v = "write_heartbeat (io_beat io) w'"
    have v: "consumer_step limit idle_sec cd io w = Some ?v"
      using step TaskBody due p(1) by (simp add: handle_body_def)
    have same: "wk_queue ?v = wk_queue w'" "wk_results ?v = wk_results w'" "wk_posts ?v = wk_posts w'"
      "wk_running ?v = wk_running w'" "wk_rate ?v = wk_rate w'"
      by (auto simp: write_heartbeat_def split: option.splits)
    have "progress cd w ?v rs ps" using p q TaskBody same by (simp add: progress_def)
    moreover have "ready limit cd ?v" using p(2) same by (simp add: ready_def)
    moreover have "queue_turns cd (wk_queue ?v) < queue_turns cd (wk_queue w)"
      using p(7) q TaskBody same by (simp add: turns_left_def)
    ultimately show ?thesis using v by blast
  qed
qed

text \<open>With nothing to do the turns change no queue and publish nothing, whether the worker stays or ends.\<close>

lemma consumer_step_empty:
  assumes "wk_queue w = []" "fair_turn limit idle_sec cd io w \<or> \<not> wk_running w"
  shows "\<exists>w'. consumer_step limit idle_sec cd io w = Some w' \<and> wk_queue w' = [] \<and> progress cd w w' [] []"
  using assms by (auto simp: consumer_step_def fair_turn_def graceful_shutdown_def progress_def)

lemma consume_empty:
  assumes "wk_queue w = []" "fair_run limit idle_sec cd ios w"
  shows "\<exists>w'. consume limit idle_sec cd ios w = Some w' \<and> wk_queue w' = [] \<and> progress cd w w' [] []"
  using assms
proof (induction ios arbitrary: w)
  case Nil
  then show ?case by (simp add: progress_refl)
next
  case (Cons io ios)
  obtain w1 where w1: "consumer_step limit idle_sec cd io w = Some w1" "wk_queue w1 = []" "progress cd w w1 [] []"
    using consumer_step_empty [OF Cons.prems(1)] Cons.prems(2) by fastforce
  from Cons.IH [OF w1(2)] Cons.prems(2) w1(1) obtain w2 where
    "consume limit idle_sec cd ios w1 = Some w2" "wk_queue w2 = []" "progress cd w1 w2 [] []" by auto
  with w1 progress_trans [of cd w w1 "[]" "[]" w2 "[]" "[]"] show ?case by auto
qed

lemma consume_drains:
  assumes codec: "\<And>u. cd_loads cd (cd_dumps cd u) = TaskBody u"
    and "1 \<le> limit" "ready limit cd w" "fair_run limit idle_sec cd ios w" "queue_turns cd (wk_queue w) \<le> length ios"
  shows "\<exists>w' rs ps. consume limit idle_sec cd ios w = Some w' \<and> wk_queue w' = [] \<and> progress cd w w' rs ps"
  using assms(3-)
proof (induction ios arbitrary: w)
  case Nil
  then have "wk_queue w = []"
    by (cases "wk_queue w") (auto simp: turns_left_def ready_def split: body.splits)
  then show ?case using progress_refl by fastforce
next
  case (Cons io ios)
  show ?case
  proof (cases "wk_queue w = []")
    case True
    from consume_empty [OF True Cons.prems(2)] show ?thesis by blast
  next
    case False
    have fair: "fair_turn limit idle_sec cd io w" using Cons.prems(2) by simp
    obtain w1 rs ps where w1: "consumer_step limit idle_sec cd io w = Some w1" "ready limit cd w1"
      "progress cd w w1 rs ps" "queue_turns cd (wk_queue w1) < queue_turns cd (wk_queue w)"
      using consumer_step_progress [OF codec assms(2) fair Cons.prems(1) False] by blast
    have "fair_run limit idle_sec cd ios w1" "queue_turns cd (wk_queue w1) \<le> length ios"
      using Cons.prems(2,3) w1(1,4) by auto
    from Cons.IH [OF w1(2) this] obtain w2 rs' ps' where
      "consume limit idle_sec cd ios w1 = Some w2" "wk_queue w2 = []" "progress cd w1 w2 rs' ps'" by blast
    with w1 progress_trans [OF w1(3)] show ?thesis by fastforce
  qed
qed


definition plain_codec :: "body codec" where
  "plain_codec = \<lparr>cd_loads = id, cd_dumps = TaskBody\<rparr>"

definition idle_worker :: "'raw list \<Rightarrow> 'raw worker" where
  "idle_worker q = \<lparr>wk_queue = q, wk_results = [], wk_posts = [], wk_rate = [], wk_session = None, wk_last_task = 0,
     wk_running = True, wk_shutting_down = False, wk_exited = False, wk_heartbeat = None, wk_endpoint = None\<rparr>"

definition sample_worker_task :: worker_task where
  "sample_worker_task =
     \<lparr>wt_task_id = Some ''t1'', wt_user_id = Some 1, wt_account_id = Some 1, wt_ad_id = Some 1, wt_group_id = Some 1,
      wt_schedule_id = None, wt_ad_title = Some ''bike'', wt_ad_text = Some (Some ''for sale''), wt_ad_images = None,
      wt_image_urls = None, wt_group_external_id = Some ''77'', wt_group_name = Some ''market'',
      wt_retry_count = Some 2, wt_delay_until = None\<rparr>"

definition connected_session :: max_session where
  "connected_session = (new_session 0)\<lparr>ms_client := True, ms_connected := True\<rparr>"

definition calm_io :: step_io where
  "calm_io = \<lparr>io_pop_fails = False, io_now = 0, io_due = 0, io_rate = (\<lambda>k. 0),
     io_send = \<lparr>si_ready = None, si_image = (\<lambda>u. Inl ''404''), si_session = Some connected_session, si_post = None\<rparr>,
     io_failed_at = 0, io_push = True, io_publish = True, io_beat = Some 0, io_error_at = 0, io_deletes = 2\<rparr>"

definition sample_queue :: "body list" where
  "sample_queue = [TaskBody sample_worker_task, Unreadable]"

lemma consume_fair:
  "fair_turn limit idle_sec cd io w \<Longrightarrow> consumer_step limit idle_sec cd io w = Some w' \<Longrightarrow>
     fair_run limit idle_sec cd ios w' \<Longrightarrow> fair_run limit idle_sec cd (io # ios) w"
  by simp

lemma no_session_send: "send_message si None sample_worker_task = Inl ''MAX session not available''"
proof -
  have "chat_of sample_worker_task = Inr (Some 77)" by code_simp
  then show ?thesis by (simp add: send_message_def session_usable_def)
qed


section \<open>Messages that were never sent\<close>

text \<open>
  an advertisement of pictures alone is reported as sent although nothing went out: when it has no
  text and no picture can be downloaded, no message is posted, yet the result says ok.
\<close>

theorem lost_pictures_reported_sent:
  assumes "wait_for_rate_limit limit (io_rate io) 0 (wk_rate w) = Some (Inr ts)"
    and "wk_session w = Some m" "ms_connected m" "ms_client m" "chat_of t = Inr chat"
    and "string_or (task_text t) = None" "task_images t \<noteq> []"
    and "\<And>u. u \<in> set (task_images t) \<Longrightarrow> \<exists>e. si_image (io_send io) u = Inl e" "io_publish io"
  shows "\<exists>w'. process_task limit cd io t w = Some (Inr (), w') \<and> wk_posts w' = wk_posts w \<and>
     wk_results w' = wk_results w @ [max_result t ''ok'' None False]"
proof -
  have "photos (si_image (io_send io)) (task_images t) = []"
    using assms(8) by (fastforce simp: photos_def split: sum.splits)
  then have "send_message (io_send io) (wk_session w) t = Inr None"
    using assms(2-7) by (simp add: send_message_def session_usable_def)
  then show ?thesis using assms(1,9) by (simp add: process_task_def publish_result_def)
qed

definition picture_task :: worker_task where
  "picture_task = sample_worker_task\<lparr>wt_ad_text := Some (Some ''''), wt_ad_images := Some [''https://s3/1.jpg'']\<rparr>"

theorem lost_pictures_reported_sent_witness:
  "\<exists>w'. process_task 8 plain_codec calm_io picture_task ((idle_worker [])\<lparr>wk_session := Some connected_session\<rparr>) = Some (Inr (), w') \<and>
     wk_posts w' = [] \<and> wk_results w' = [max_result picture_task ''ok'' None False]"
proof -
  let ?w = "(idle_worker [] :: body worker)\<lparr>wk_session := Some connected_session\<rparr>"
  have "\<exists>w'. process_task 8 plain_codec calm_io picture_task ?w = Some (Inr (), w') \<and> wk_posts w' = wk_posts ?w \<and>
     wk_results w' = wk_results ?w @ [max_result picture_task ''ok'' None False]"
  proof (rule lost_pictures_reported_sent)
    show "wait_for_rate_limit 8 (io_rate calm_io) 0 (wk_rate ?w) = Some (Inr [0])"
      by (simp add: wait_for_rate_limit.simps rate_round_def fresh_stamps_def calm_io_def idle_worker_def)
    show "chat_of picture_task = Inr (Some 77)" by code_simp
    show "wk_session ?w = Some connected_session" by simp
  qed (simp_all add: calm_io_def connected_session_def new_session_def picture_task_def task_images_def list_or_def
      task_text_def string_or_def)
  then show ?thesis by (simp add: idle_worker_def)
qed

section \<open>From the dispatcher to the journal\<close>

text \<open>What a row of the journal and a dispatched payload say of the send.\<close>

definition log_key :: "send_log \<Rightarrow> int option \<times> int option \<times> int option \<times> int option \<times> string option" where
  "log_key l = (Some (log_user_id l), log_ad_id l, log_group_id l, log_schedule_id l, log_task_id l)"

definition payload_key :: "queue_payload \<Rightarrow> int option \<times> int option \<times> int option \<times> int option \<times> string option" where
  "payload_key p =
     (task_user_id (pl_task p), Some (task_ad_id (pl_task p)), Some (task_group_id (pl_task p)),
      task_schedule_id (pl_task p), Some (pl_task_id p))"

definition result_key :: "bridge_result \<Rightarrow> int option \<times> int option \<times> int option \<times> int option \<times> string option" where
  "result_key r = (case br_user_id r of None \<Rightarrow> None | Some u \<Rightarrow> u, br_ad_id r, br_group_id r, br_schedule_id r, br_task_id r)"

lemma result_key_origin [simp]: "result_key (origin r) = result_key r"
  by (simp add: result_key_def origin_def)

lemma result_key_payload: "result_key (owed_result (worker_task_of p)) = payload_key p"
  by (simp add: result_key_def owed_result_def origin_def max_result_def worker_task_of_def payload_key_def)

lemma log_key_result: "log_of_result m r l \<Longrightarrow> log_key l = result_key r"
  by (simp add: log_of_result_def log_key_def result_key_def)

lemma log_keys_results: "list_all2 (log_of_result m) rs ls \<Longrightarrow> map log_key ls = map result_key rs"
  by (induction rs ls rule: list_all2_induct) (auto simp: log_key_result)

lemma owed_payloads:
  "map (cd_loads cd) raws = map (\<lambda>p. TaskBody (worker_task_of p)) pls \<Longrightarrow>
     owed_results cd raws = map (\<lambda>p. owed_result (worker_task_of p)) pls \<and>
     queue_turns cd raws = 4 * length pls \<and> counted cd raws"
  by (induction raws arbitrary: pls)
    (auto simp: map_eq_Cons_conv turns_left_def worker_task_of_def retry_count_def MAX_RETRIES_def)

lemma take_batch_results: "length rs \<le> n \<Longrightarrow> take_batch n (map RawResult rs) = (rs, [])"
proof (induction rs arbitrary: n)
  case (Cons r rs)
  then obtain k where "n = Suc k" by (cases n) auto
  with Cons show ?case by simp
qed (case_tac n; simp)

lemma process_queue_logs:
  assumes "length rs \<le> 100" "\<And>r. r \<in> set rs \<Longrightarrow> complete_result r \<and> \<not> null_user r"
  shows "\<exists>ls. db_send_logs (snd (process_queue now m (map RawResult rs) d)) = db_send_logs d @ ls \<and>
    map log_key ls = map result_key rs"
proof (cases "rs = []")
  case True
  then show ?thesis by (simp add: process_queue_def numeral_eq_Suc)
next
  case False
  have clean: "\<And>r. r \<in> set rs \<Longrightarrow> \<not> null_user r" using assms(2) by blast
  obtain ls where ls: "db_send_logs (rs_db (fold (process_result now m) rs \<lparr>rs_db = d, rs_null_user = False\<rparr>)) = db_send_logs d @ ls"
    "list_all2 (log_of_result m) (filter complete_result rs) ls"
    using fold_process_logs [OF clean, where now = now and m = m and s = "\<lparr>rs_db = d, rs_null_user = False\<rparr>"] by auto
  have "filter complete_result rs = rs" using assms(2) by simp
  with ls(2) have "map log_key ls = map result_key rs" by (simp add: log_keys_results)
  moreover have "db_send_logs (snd (process_queue now m (map RawResult rs) d)) = db_send_logs d @ ls"
    using take_batch_results [OF assms(1)] False clean ls(1)
    by (auto simp: process_queue_def process_results_def fold_process_null Let_def)
  ultimately show ?thesis by blast
qed

lemma result_key_user: "result_key r = payload_key p \<Longrightarrow> task_user_id (pl_task p) \<noteq> None \<Longrightarrow> br_status r \<noteq> None \<Longrightarrow>
    complete_result r \<and> \<not> null_user r"
  by (auto simp: result_key_def payload_key_def complete_result_def null_user_def split: option.splits)


text \<open>The payload of a task without an external group, for a worker that has no session.\<close>

definition direct_payload :: queue_payload where
  "direct_payload = \<lparr>pl_task_id = ''t9'', pl_task = \<lparr>task_type = ''max'', task_ad_id = 4, task_group_id = 5,
     task_account_id = 6, task_schedule_id = None, task_user_id = Some 7, task_ad_text = Some ''hi'',
     task_ad_title = None, task_ad_images = None, task_group_external_id = None, task_group_name = None\<rparr>, pl_created_at = 0\<rparr>"


end
