(* ===== verification/Max_Session.thy ===== *)
theory Max_Session
  imports Max_Worker Group_Resync "HOL-Library.AList"
begin

text \<open>
  The session of the MAX worker and its HTTP interface, \<open>max_worker/main.py\<close>: the client
  library's session on disk, starting and destroying the session, loading the groups page by page,
  and what the endpoints answer.

  The library's answers are arguments. A callback acts on the session that is current; one of a
  client whose session was replaced has no effect the program can see.
\<close>

section \<open>Groups\<close>

datatype chat_type = ChatGroup | ChatOther

text \<open>An attribute the object does not have is \<open>None\<close>.\<close>

record max_chat =
  mc_type :: "chat_type option"
  mc_id :: "pyval option"
  mc_title :: "pyval option"
  mc_last_event_time :: "pyval option"

definition attr_str :: "pyval option \<Rightarrow> string" where
  "attr_str v = (case v of None \<Rightarrow> '''' | Some x \<Rightarrow> py_str x)"

text \<open>A dictionary keeps the place of a key that is written again.\<close>

type_synonym group_dict = "(string \<times> string) list"

definition group_record :: "max_chat \<Rightarrow> group_dict \<Rightarrow> group_dict" where
  "group_record c groups =
     (if mc_type c \<noteq> Some ChatGroup then groups
      else let chat_id = attr_str (mc_id c) in
           if chat_id = [] then groups else AList.update chat_id (attr_str (mc_title c)) groups)"

definition group_records :: "max_chat list \<Rightarrow> group_dict" where
  "group_records chats = fold group_record chats []"

text \<open>\<open>groups.update(other)\<close>.\<close>

definition dict_update :: "group_dict \<Rightarrow> group_dict \<Rightarrow> group_dict" where
  "dict_update groups other = fold (\<lambda>(k, v). AList.update k v) other groups"

text \<open>\<open>int(v)\<close> of the attribute.\<close>

fun event_time :: "pyval option \<Rightarrow> int option" where
  "event_time (Some (PInt n)) = Some n"
| "event_time (Some (PBool b)) = Some (if b then 1 else 0)"
| "event_time (Some (PStr s)) = py_int s"
| "event_time _ = None"

definition page_times :: "max_chat list \<Rightarrow> int list" where
  "page_times chats =
     concat (map (\<lambda>c. case event_time (mc_last_event_time c) of
                        None \<Rightarrow> [] | Some n \<Rightarrow> if 0 < n then [n] else []) chats)"

definition next_chat_marker :: "max_chat list \<Rightarrow> int option \<Rightarrow> int option" where
  "next_chat_marker chats marker =
     (case page_times chats of
        [] \<Rightarrow> None
      | t # ts \<Rightarrow>
          let next = fold min ts t - 1 in
          if next < 0 \<or> (case marker of None \<Rightarrow> False | Some m \<Rightarrow> m \<le> next) then None else Some next)"

lemma next_chat_marker_decreases:
  assumes "next_chat_marker chats marker = Some n"
  shows "0 \<le> n \<and> (\<forall>m. marker = Some m \<longrightarrow> n < m)"
  using assms by (auto simp: next_chat_marker_def Let_def split: list.splits if_splits option.splits)

text \<open>
  The loop over the pages. The markers decrease, so no marker is asked for twice and the answers
  are a function of it; an empty page and a missing one end the loop alike.
\<close>

function fetch_pages ::
  "(int option \<Rightarrow> string + max_chat list) \<Rightarrow> int option \<Rightarrow> group_dict \<Rightarrow> string + group_dict" where
  "fetch_pages fetch marker groups =
     (case fetch marker of
        Inl e \<Rightarrow> Inl e
      | Inr page \<Rightarrow>
          if page = [] then Inr groups
          else let groups' = dict_update groups (group_records page) in
               (case next_chat_marker page marker of
                  None \<Rightarrow> Inr groups'
                | Some n \<Rightarrow> fetch_pages fetch (Some n) groups'))"
  by pat_completeness auto
termination
  by (relation "measures [\<lambda>(f, marker, g). if marker = None then 1 else 0, \<lambda>(f, marker, g). nat (the marker)]")
    (auto dest!: next_chat_marker_decreases)

declare fetch_pages.simps [simp del]

text \<open>
  \<open>start_group_sync\<close>: up to four attempts. Before each the session may be disconnected or gone
  (\<open>sn_alive\<close>), and it may be gone when the groups are stored (\<open>sn_gone\<close>) or at
  the end of a sync that failed; what the client has cached may raise like everything else.
\<close>

record sync_io =
  sn_alive :: "nat \<Rightarrow> bool"
  sn_cached :: "nat \<Rightarrow> string + max_chat list"
  sn_fetch :: "nat \<Rightarrow> int option \<Rightarrow> string + max_chat list"
  sn_gone :: "nat \<Rightarrow> bool"
  sn_session_left :: bool

definition SYNC_RETRY_DELAYS :: "int list" where "SYNC_RETRY_DELAYS = [30, 60, 120]"
definition MAX_ATTEMPTS :: nat where "MAX_ATTEMPTS = length SYNC_RETRY_DELAYS + 1"

datatype sync_end = SyncAborted | SyncComplete group_dict | SyncExhausted

definition sync_attempt :: "sync_io \<Rightarrow> nat \<Rightarrow> string + group_dict" where
  "sync_attempt io n =
     (case sn_cached io n of
        Inl e \<Rightarrow> Inl e
      | Inr cached \<Rightarrow>
          (case fetch_pages (sn_fetch io n) None (group_records cached) of
             Inl e \<Rightarrow> Inl e
           | Inr groups \<Rightarrow> if sn_gone io n then Inl (none_attribute ''sync_state'') else Inr groups))"

fun sync_attempts :: "sync_io \<Rightarrow> nat \<Rightarrow> nat \<Rightarrow> sync_end" where
  "sync_attempts io 0 n = SyncExhausted"
| "sync_attempts io (Suc left) n =
     (if \<not> sn_alive io n then SyncAborted
      else case sync_attempt io n of
             Inr groups \<Rightarrow> SyncComplete groups
           | Inl e \<Rightarrow> sync_attempts io left (Suc n))"

definition start_group_sync :: "sync_io \<Rightarrow> max_session option \<Rightarrow> max_session option" where
  "start_group_sync io session =
     (case session of
        None \<Rightarrow> None
      | Some m \<Rightarrow>
          if \<not> ms_client m then session
          else
            let m1 = m\<lparr>ms_sync_state := Some ''syncing''\<rparr> in
            (case sync_attempts io MAX_ATTEMPTS 0 of
               SyncAborted \<Rightarrow> if sn_session_left io then Some m1 else None
             | SyncComplete groups \<Rightarrow> Some (m1\<lparr>ms_sync_state := Some ''ready'', ms_groups := Some groups\<rparr>)
             | SyncExhausted \<Rightarrow>
                 if sn_session_left io then Some (m1\<lparr>ms_sync_state := Some ''failed''\<rparr>) else None))"

section \<open>The session on disk\<close>

text \<open>
  The SQLite file of the library: no file, a file that is empty or raises when it is read, or the
  columns of the two tables that may be there with the token and the device id of their rows, in the
  order they are read.
\<close>

record session_table =
  st_columns :: "string list"
  st_rows :: "(string option \<times> string option) list"

datatype session_file = NoFile | BrokenFile | SessionFile "session_table option" "session_table option"

definition filled_row :: "session_table \<Rightarrow> (string \<times> string) option" where
  "filled_row t =
     (case concat (map (\<lambda>(a, b). case (a, b) of
                          (Some x, Some y) \<Rightarrow> if x \<noteq> [] \<and> y \<noteq> [] then [(x, y)] else [] | _ \<Rightarrow> []) (st_rows t)) of
        [] \<Rightarrow> None | r # _ \<Rightarrow> Some r)"

definition has_columns :: "string list \<Rightarrow> session_table \<Rightarrow> bool" where
  "has_columns cs t \<longleftrightarrow> list_all (\<lambda>c. c \<in> set (st_columns t)) cs"

definition read_session_compatibility :: "session_file \<Rightarrow> bool \<times> (string \<times> string) option" where
  "read_session_compatibility f =
     (case f of
        SessionFile sessions auth \<Rightarrow>
          if (case sessions of None \<Rightarrow> False
              | Some t \<Rightarrow> has_columns [''token'', ''device_id'', ''phone''] t \<and> filled_row t \<noteq> None)
          then (True, None)
          else (case auth of
                  None \<Rightarrow> (False, None)
                | Some t \<Rightarrow> if has_columns [''token'', ''device_id''] t then (False, filled_row t) else (False, None))
      | _ \<Rightarrow> (False, None))"

definition has_reusable_session :: "session_file \<Rightarrow> bool" where
  "has_reusable_session f =
     (let (v2, legacy) = read_session_compatibility f in v2 \<or> legacy \<noteq> None)"

record worker_disk =
  wd_phone :: "string option"
  wd_session :: session_file

definition save_phone_to_disk :: "string \<Rightarrow> worker_disk \<Rightarrow> worker_disk" where
  "save_phone_to_disk phone k = k\<lparr>wd_phone := Some (strip phone)\<rparr>"

definition load_phone_from_disk :: "worker_disk \<Rightarrow> string" where
  "load_phone_from_disk k = (case wd_phone k of None \<Rightarrow> '''' | Some p \<Rightarrow> strip p)"

definition session_exists_on_disk :: "worker_disk \<Rightarrow> bool" where
  "session_exists_on_disk k \<longleftrightarrow> wd_session k \<noteq> NoFile"

definition delete_session_files :: "worker_disk \<Rightarrow> worker_disk" where
  "delete_session_files k = \<lparr>wd_phone = None, wd_session = NoFile\<rparr>"

section \<open>The life of the session\<close>

record session_world =
  sw_session :: "max_session option"
  sw_disk :: worker_disk
  sw_rate :: "int list"

text \<open>\<open>create_client\<close>; building the client may raise before the session is replaced, after the phone is saved.\<close>

definition create_client :: "string option \<Rightarrow> int \<Rightarrow> string \<Rightarrow> session_world \<Rightarrow> (string + max_session) \<times> session_world" where
  "create_client failure now phone s =
     (let disk = (if phone \<noteq> [] then save_phone_to_disk phone (sw_disk s) else sw_disk s);
          state = (new_session now)\<lparr>ms_phone := phone, ms_initializing := True, ms_client := True\<rparr>
      in case failure of
           Some e \<Rightarrow> (Inl e, s\<lparr>sw_disk := disk\<rparr>)
         | None \<Rightarrow> (Inr state, s\<lparr>sw_disk := disk, sw_session := Some state\<rparr>))"

text \<open>The callback \<open>on_start\<close>; it says whether it starts a sync.\<close>

definition on_start :: "int \<Rightarrow> max_session \<Rightarrow> bool \<times> max_session" where
  "on_start now m =
     (let m1 = m\<lparr>ms_connected := True, ms_initializing := False, ms_qr_code := None, ms_last_activity := now,
                 ms_connected_at := now, ms_error := None\<rparr>;
          syncs = (string_or (ms_sync_state m) = None \<or> ms_sync_state m = Some ''failed'')
      in (syncs, if syncs then m1\<lparr>ms_sync_state := Some ''ready''\<rparr> else m1))"

text \<open>\<open>_run_client\<close> when the start raised, and \<open>show_qr\<close>.\<close>

definition client_failed :: "string \<Rightarrow> max_session \<Rightarrow> max_session" where
  "client_failed e m = m\<lparr>ms_connected := False, ms_initializing := False, ms_error := Some e\<rparr>"

definition show_qr :: "string \<Rightarrow> max_session \<Rightarrow> max_session" where
  "show_qr url m = m\<lparr>ms_qr_code := Some url\<rparr>"

definition destroy_session :: "session_world \<Rightarrow> session_world" where
  "destroy_session s = \<lparr>sw_session = None, sw_disk = delete_session_files (sw_disk s), sw_rate = []\<rparr>"

section \<open>The endpoints\<close>

datatype worker_reply = WorkerReply nat pyval

definition json_opt :: "string option \<Rightarrow> pyval" where
  "json_opt v = (case v of None \<Rightarrow> PNone | Some x \<Rightarrow> PStr x)"

definition json_groups :: "group_dict \<Rightarrow> pyval" where
  "json_groups gs = PList (map (\<lambda>(k, v). PDict [(''id'', PStr k), (''name'', PStr v)]) gs)"

definition json_groups_opt :: "group_dict option \<Rightarrow> pyval" where
  "json_groups_opt v = (case v of None \<Rightarrow> PNone | Some gs \<Rightarrow> json_groups gs)"

definition error_reply :: "nat \<Rightarrow> string \<Rightarrow> worker_reply" where
  "error_reply code e = WorkerReply code (PDict [(''error'', PStr e)])"

definition status_reply :: "string \<Rightarrow> worker_reply" where
  "status_reply word = WorkerReply 200 (PDict [(''status'', PStr word)])"

text \<open>A worker serves one account; the id in the path is text.\<close>

definition foreign :: "string \<Rightarrow> string \<Rightarrow> worker_reply option" where
  "foreign account sid =
     (if sid = account then None
      else Some (error_reply 403 (''This worker manages account '' @ account @ '' only'')))"

definition start_session ::
  "string \<Rightarrow> string option \<Rightarrow> int \<Rightarrow> string \<Rightarrow> string \<Rightarrow> session_world \<Rightarrow> worker_reply \<times> session_world" where
  "start_session account failure now sid phone s =
     (case foreign account sid of
        Some r \<Rightarrow> (r, s)
      | None \<Rightarrow>
          (case sw_session s of
             Some m \<Rightarrow>
               if ms_connected m then (status_reply ''connected'', s)
               else if ms_initializing m then (status_reply ''initializing'', s)
               else (case create_client failure now phone (s\<lparr>sw_session := None\<rparr>) of
                       (Inl e, s') \<Rightarrow> (error_reply 500 e, s')
                     | (Inr _, s') \<Rightarrow> (status_reply ''initializing'', s'))
           | None \<Rightarrow>
               (case create_client failure now phone s of
                  (Inl e, s') \<Rightarrow> (error_reply 500 e, s')
                | (Inr _, s') \<Rightarrow> (status_reply ''initializing'', s'))))"

definition delete_session :: "string \<Rightarrow> string \<Rightarrow> session_world \<Rightarrow> worker_reply \<times> session_world" where
  "delete_session account sid s =
     (case foreign account sid of
        Some r \<Rightarrow> (r, s)
      | None \<Rightarrow> (WorkerReply 200 (PDict [(''ok'', PBool True)]), destroy_session s))"

definition get_session_status :: "string \<Rightarrow> string \<Rightarrow> session_world \<Rightarrow> worker_reply" where
  "get_session_status account sid s =
     (case foreign account sid of
        Some r \<Rightarrow> r
      | None \<Rightarrow>
          (case sw_session s of
             None \<Rightarrow> WorkerReply 200 (PDict [(''connected'', PBool False),
                       (''exists'', PBool (session_exists_on_disk (sw_disk s))), (''syncState'', PNone)])
           | Some m \<Rightarrow> WorkerReply 200 (PDict [(''connected'', PBool (ms_connected m)),
                       (''exists'', PBool True), (''syncState'', json_opt (ms_sync_state m))])))"

definition qr_reply :: "string \<Rightarrow> pyval \<Rightarrow> worker_reply" where
  "qr_reply word qr = WorkerReply 200 (PDict [(''status'', PStr word), (''qr'', qr)])"

definition get_qr_code :: "string \<Rightarrow> string \<Rightarrow> session_world \<Rightarrow> worker_reply" where
  "get_qr_code account sid s =
     (case foreign account sid of
        Some r \<Rightarrow> r
      | None \<Rightarrow>
          (case sw_session s of
             None \<Rightarrow> qr_reply ''not_found'' PNone
           | Some m \<Rightarrow>
               if ms_connected m then qr_reply ''connected'' PNone
               else case string_or (ms_qr_code m) of
                      None \<Rightarrow> qr_reply ''waiting'' PNone
                    | Some qr \<Rightarrow> qr_reply ''pending'' (PStr qr)))"

text \<open>Without stored groups the chats the client has cached are listed.\<close>

definition get_groups :: "string \<Rightarrow> (string + max_chat list) \<Rightarrow> string \<Rightarrow> session_world \<Rightarrow> worker_reply" where
  "get_groups account cached sid s =
     (case foreign account sid of
        Some r \<Rightarrow> r
      | None \<Rightarrow>
          (case sw_session s of
             None \<Rightarrow> error_reply 503 ''MAX session not available''
           | Some m \<Rightarrow>
               if \<not> ms_connected m then error_reply 503 ''MAX session not available''
               else case ms_groups m of
                      Some gs \<Rightarrow> WorkerReply 200 (json_groups gs)
                    | None \<Rightarrow>
                        (case cached of
                           Inl e \<Rightarrow> error_reply 500 e
                         | Inr chats \<Rightarrow> WorkerReply 200 (json_groups (group_records chats)))))"

text \<open>
  What happens while \<open>get_sync_status\<close> waits for the session it reloads: the callback ran,
  and then the sync task may have run up to its first pause; the client failed; nothing.
\<close>

datatype reload = ReloadStarted int bool | ReloadFailed string | ReloadTimeout

definition sync_reply :: "string \<Rightarrow> pyval \<Rightarrow> worker_reply" where
  "sync_reply state groups = WorkerReply 200 (PDict [(''state'', PStr state), (''groups'', groups)])"

definition reloaded :: "reload \<Rightarrow> max_session \<Rightarrow> max_session" where
  "reloaded rl m =
     (case rl of
        ReloadStarted now sync_began \<Rightarrow>
          let (syncs, m1) = on_start now m
          in if syncs \<and> sync_began then m1\<lparr>ms_sync_state := Some ''syncing''\<rparr> else m1
      | ReloadFailed e \<Rightarrow> client_failed e m
      | ReloadTimeout \<Rightarrow> m)"

definition current_sync :: "max_session \<Rightarrow> worker_reply" where
  "current_sync m =
     sync_reply (case string_or (ms_sync_state m) of None \<Rightarrow> ''none'' | Some st \<Rightarrow> st) (json_groups_opt (ms_groups m))"

text \<open>The flag says whether the endpoint itself starts a sync.\<close>

definition get_sync_status ::
  "string \<Rightarrow> string \<Rightarrow> string option \<Rightarrow> int \<Rightarrow> reload \<Rightarrow> string \<Rightarrow> session_world \<Rightarrow> bool \<times> worker_reply \<times> session_world" where
  "get_sync_status account phone_env failure now rl sid s =
     (case foreign account sid of
        Some r \<Rightarrow> (False, r, s)
      | None \<Rightarrow>
          (case sw_session s of
             Some m \<Rightarrow> (False, current_sync m, s)
           | None \<Rightarrow>
               if \<not> has_reusable_session (wd_session (sw_disk s)) then (False, sync_reply ''not_found'' PNone, s)
               else
                 let phone = (if phone_env \<noteq> [] then phone_env else load_phone_from_disk (sw_disk s)) in
                 (case create_client failure now phone s of
                    (Inl e, s1) \<Rightarrow> (False, sync_reply ''unknown'' PNone, s1)
                  | (Inr m, s1) \<Rightarrow>
                      let m1 = reloaded rl m; s2 = s1\<lparr>sw_session := Some m1\<rparr> in
                      if ms_connected m1 \<and> (string_or (ms_sync_state m1) = None \<or> ms_sync_state m1 = Some ''failed'')
                      then (True, sync_reply ''syncing'' PNone, s2)
                      else if \<not> ms_connected m1 then (False, sync_reply ''unknown'' PNone, s2)
                      else (False, current_sync m1, s2))))"

definition retry_sync :: "string \<Rightarrow> string \<Rightarrow> session_world \<Rightarrow> bool \<times> worker_reply \<times> session_world" where
  "retry_sync account sid s =
     (case foreign account sid of
        Some r \<Rightarrow> (False, r, s)
      | None \<Rightarrow>
          (case sw_session s of
             None \<Rightarrow> (False, error_reply 404 ''Session not connected'', s)
           | Some m \<Rightarrow>
               if \<not> ms_connected m then (False, error_reply 404 ''Session not connected'', s)
               else if ms_sync_state m = Some ''syncing'' then (False, status_reply ''already_syncing'', s)
               else (True, status_reply ''sync_started'',
                     s\<lparr>sw_session := Some (m\<lparr>ms_sync_state := None, ms_groups := None\<rparr>)\<rparr>)))"

text \<open>The direct send: the limit is shared with the queue, and a refusal is not retried.\<close>

record send_body =
  sb_group_id :: string
  sb_text :: string
  sb_image_urls :: "string list"
  sb_trace_id :: "string option"

definition direct_task :: "int \<Rightarrow> send_body \<Rightarrow> worker_task" where
  "direct_task now b =
     \<lparr>wt_task_id = Some (case string_or (sb_trace_id b) of
          None \<Rightarrow> ''direct-'' @ int_str (now div second_us) | Some i \<Rightarrow> i),
      wt_user_id = None, wt_account_id = None, wt_ad_id = None, wt_group_id = None, wt_schedule_id = None,
      wt_ad_title = None, wt_ad_text = Some (Some (sb_text b)), wt_ad_images = Some (sb_image_urls b),
      wt_image_urls = None, wt_group_external_id = Some (sb_group_id b), wt_group_name = None,
      wt_retry_count = None, wt_delay_until = None\<rparr>"

definition send_endpoint ::
  "int \<Rightarrow> string \<Rightarrow> int \<Rightarrow> (nat \<Rightarrow> int) \<Rightarrow> send_io \<Rightarrow> string \<Rightarrow> send_body \<Rightarrow> session_world \<Rightarrow>
     (worker_reply \<times> max_post option \<times> session_world) option" where
  "send_endpoint limit account now clock si sid b s =
     (case foreign account sid of
        Some r \<Rightarrow> Some (r, None, s)
      | None \<Rightarrow>
          if (case sw_session s of None \<Rightarrow> True | Some m \<Rightarrow> \<not> ms_connected m)
          then Some (error_reply 503 ''MAX session not available'', None, s)
          else
            (case wait_for_rate_limit limit clock 0 (sw_rate s) of
               None \<Rightarrow> None
             | Some (Inl e) \<Rightarrow> Some (error_reply 500 ''list index out of range'', None, s\<lparr>sw_rate := []\<rparr>)
             | Some (Inr ts) \<Rightarrow>
                 let s1 = s\<lparr>sw_rate := ts\<rparr> in
                 Some (case send_message si (sw_session s) (direct_task now b) of
                         Inl e \<Rightarrow> (error_reply 500 e, None, s1)
                       | Inr post \<Rightarrow> (WorkerReply 200 (PDict [(''ok'', PBool True)]), post, s1))))"

section \<open>Properties of the sync\<close>

text \<open>What the dictionary holds of the chats merged into it: the ids, each once.\<close>

definition group_ids :: "max_chat list \<Rightarrow> string set" where
  "group_ids chats = {attr_str (mc_id c) | c. c \<in> set chats \<and> mc_type c = Some ChatGroup} - {''''}"

lemma fold_group_record_ids:
  "fst ` set (fold group_record chats gs) = fst ` set gs \<union> group_ids chats"
proof (induction chats arbitrary: gs)
  case (Cons c chats)
  have "fst ` set (group_record c gs) = fst ` set gs \<union> group_ids [c]"
    by (auto simp: group_record_def group_ids_def Let_def dom_update)
  moreover have "group_ids (c # chats) = group_ids [c] \<union> group_ids chats" by (auto simp: group_ids_def)
  ultimately show ?case using Cons by auto
qed (simp add: group_ids_def)

lemma group_records_ids: "fst ` set (group_records chats) = group_ids chats"
  by (simp add: group_records_def fold_group_record_ids)

lemma dict_update_ids: "fst ` set (dict_update gs other) = fst ` set gs \<union> fst ` set other"
  unfolding dict_update_def
proof (induction other arbitrary: gs)
  case (Cons kv other)
  then show ?case by (cases kv) (auto simp: dom_update)
qed simp

lemma fold_group_record_distinct: "distinct (map fst gs) \<Longrightarrow> distinct (map fst (fold group_record chats gs))"
  by (induction chats arbitrary: gs) (simp_all add: group_record_def distinct_update Let_def)

lemma dict_update_distinct: "distinct (map fst gs) \<Longrightarrow> distinct (map fst (dict_update gs other))"
  unfolding dict_update_def by (induction other arbitrary: gs) (auto simp: distinct_update)

text \<open>
  What the pages promise: an answer to a marker lists chats no newer than it, is empty only when
  there is none, and what it leaves out is older than everything it lists.
\<close>

definition chat_time :: "max_chat \<Rightarrow> int" where
  "chat_time c = (case event_time (mc_last_event_time c) of None \<Rightarrow> 0 | Some n \<Rightarrow> n)"

definition eligible :: "max_chat list \<Rightarrow> int option \<Rightarrow> max_chat list" where
  "eligible chats marker = filter (\<lambda>c. case marker of None \<Rightarrow> True | Some m \<Rightarrow> chat_time c \<le> m) chats"

definition serves :: "max_chat list \<Rightarrow> (int option \<Rightarrow> string + max_chat list) \<Rightarrow> bool" where
  "serves chats fetch \<longleftrightarrow>
     (\<forall>marker. \<exists>page. fetch marker = Inr page \<and> set page \<subseteq> set (eligible chats marker) \<and>
        (page = [] \<longrightarrow> eligible chats marker = []) \<and>
        (\<forall>c \<in> set (eligible chats marker) - set page. \<forall>p \<in> set page. chat_time c < chat_time p))"

definition stamped :: "max_chat list \<Rightarrow> bool" where
  "stamped chats \<longleftrightarrow> (\<forall>c \<in> set chats. 0 < chat_time c)"

lemma page_times_stamped: "stamped page \<Longrightarrow> page_times page = map chat_time page"
  by (induction page) (auto simp: stamped_def page_times_def chat_time_def split: option.splits)

lemma fold_min_le: "fold min ts t \<le> (t::int) \<and> (\<forall>x \<in> set ts. fold min ts t \<le> x)"
proof (induction ts arbitrary: t)
  case (Cons x xs)
  have "fold min xs (min x t) \<le> min x t" using Cons by blast
  moreover have "\<forall>y \<in> set xs. fold min xs (min x t) \<le> y" using Cons by blast
  ultimately show ?case by auto
qed simp

lemma fold_min_mem: "fold min ts t \<in> insert (t::int) (set ts)"
proof (induction ts arbitrary: t)
  case (Cons x xs)
  from Cons [of "min x t"] show ?case by (auto simp: min_def split: if_splits)
qed simp

text \<open>On a page of stamped chats no newer than the marker the next marker is just below the oldest.\<close>

lemma next_marker_stamped:
  assumes "stamped page" "page \<noteq> []" "\<And>c m. c \<in> set page \<Longrightarrow> marker = Some m \<Longrightarrow> chat_time c \<le> m"
  shows "\<exists>n p. next_chat_marker page marker = Some n \<and> p \<in> set page \<and> n = chat_time p - 1 \<and>
    (\<forall>c \<in> set page. n < chat_time c)"
proof -
  obtain c cs where page: "page = c # cs" using assms(2) by (cases page) auto
  let ?n = "fold min (map chat_time cs) (chat_time c)"
  have "?n \<in> chat_time ` set page" using fold_min_mem [of "map chat_time cs" "chat_time c"] page by auto
  then obtain p where p: "p \<in> set page" "?n = chat_time p" by auto
  have least: "\<forall>c \<in> set page. ?n \<le> chat_time c"
    using fold_min_le [of "map chat_time cs" "chat_time c"] page by auto
  have "0 < ?n" using p assms(1) by (auto simp: stamped_def)
  moreover have "?n \<le> m" if "marker = Some m" for m using assms(3) p that by metis
  ultimately have "next_chat_marker page marker = Some (?n - 1)"
    using page_times_stamped [OF assms(1)] page by (fastforce simp: next_chat_marker_def Let_def split: option.splits)
  then show ?thesis using p least by (intro exI [of _ "?n - 1"] exI [of _ p]) auto
qed

lemma group_ids_set: "set xs = set ys \<Longrightarrow> group_ids xs = group_ids ys"
  by (simp add: group_ids_def)

lemma group_ids_append: "group_ids (xs @ ys) = group_ids xs \<union> group_ids ys"
  by (auto simp: group_ids_def)

lemma fetch_pages_collects:
  assumes "stamped chats" "serves chats fetch"
  shows "\<exists>gs'. fetch_pages fetch marker gs = Inr gs' \<and> fst ` set gs' = fst ` set gs \<union> group_ids (eligible chats marker) \<and>
    (distinct (map fst gs) \<longrightarrow> distinct (map fst gs'))"
  using assms(2)
proof (induction fetch marker gs rule: fetch_pages.induct)
  case (1 fetch marker gs)
  obtain page where page: "fetch marker = Inr page" "set page \<subseteq> set (eligible chats marker)"
    "page = [] \<Longrightarrow> eligible chats marker = []"
    "\<And>c p. c \<in> set (eligible chats marker) - set page \<Longrightarrow> p \<in> set page \<Longrightarrow> chat_time c < chat_time p"
    using 1(2) by (fastforce simp: serves_def)
  show ?case
  proof (cases "page = []")
    case True
    with page(1,3) show ?thesis by (simp add: fetch_pages.simps [of fetch marker] group_ids_def)
  next
    case False
    have "stamped page" using assms(1) page(2) by (auto simp: stamped_def eligible_def)
    moreover have "chat_time c \<le> m" if "c \<in> set page" "marker = Some m" for c m
      using page(2) that by (auto simp: eligible_def)
    ultimately obtain n p where n: "next_chat_marker page marker = Some n" "p \<in> set page" "n = chat_time p - 1"
      "\<forall>c \<in> set page. n < chat_time c"
      using next_marker_stamped [OF _ False] by blast
    let ?gs = "dict_update gs (group_records page)"
    obtain gs' where gs': "fetch_pages fetch (Some n) ?gs = Inr gs'"
      "fst ` set gs' = fst ` set ?gs \<union> group_ids (eligible chats (Some n))"
      "distinct (map fst ?gs) \<longrightarrow> distinct (map fst gs')"
      using 1(1) [OF page(1) False refl n(1) 1(2)] by blast
    have "n < m" if "marker = Some m" for m using next_chat_marker_decreases [OF n(1)] that by blast
    then have "set (eligible chats marker) = set (page @ eligible chats (Some n))"
      using page(2) page(4) [OF _ n(2)] n(3) by (fastforce simp: eligible_def split: option.splits)
    then have "group_ids (eligible chats marker) = group_ids page \<union> group_ids (eligible chats (Some n))"
      using group_ids_set group_ids_append by metis
    moreover have "fst ` set gs' = fst ` set gs \<union> group_ids page \<union> group_ids (eligible chats (Some n))"
      using gs'(2) by (simp add: dict_update_ids group_records_ids)
    moreover have "fetch_pages fetch marker gs = Inr gs'"
      using page(1) False n(1) gs'(1) by (simp add: fetch_pages.simps [of fetch marker] Let_def)
    ultimately show ?thesis using gs'(3) dict_update_distinct by (intro exI [of _ gs']) auto
  qed
qed

text \<open>
  the loading of the groups ends and misses none: when the messenger serves its chats by pages, one
  attempt brings every group of the account, each once, together with what the client had cached,
  and nothing else; the session is then ready with them.
\<close>

theorem group_sync_is_complete:
  assumes "stamped chats" "serves chats (sn_fetch io 0)"
    and "sn_alive io 0" "sn_cached io 0 = Inr cached" "\<not> sn_gone io 0" "ms_client m"
  shows "\<exists>gs. start_group_sync io (Some m) = Some (m\<lparr>ms_sync_state := Some ''ready'', ms_groups := Some gs\<rparr>) \<and>
    fst ` set gs = group_ids cached \<union> group_ids chats \<and> distinct (map fst gs)"
proof -
  obtain gs where gs: "fetch_pages (sn_fetch io 0) None (group_records cached) = Inr gs"
    "fst ` set gs = fst ` set (group_records cached) \<union> group_ids (eligible chats None)" "distinct (map fst gs)"
    using fetch_pages_collects [OF assms(1,2), of None "group_records cached"]
      fold_group_record_distinct [of "[]" cached] by (auto simp: group_records_def)
  have "sync_attempts io MAX_ATTEMPTS 0 = SyncComplete gs"
    using assms(3-5) gs(1) by (simp add: MAX_ATTEMPTS_def SYNC_RETRY_DELAYS_def sync_attempt_def)
  then show ?thesis
    using assms(6) gs(2,3)
    by (intro exI [of _ gs]) (simp add: start_group_sync_def group_records_ids eligible_def)
qed

definition numbered_chat :: "int \<Rightarrow> int \<Rightarrow> max_chat" where
  "numbered_chat i t = \<lparr>mc_type = Some ChatGroup, mc_id = Some (PInt i), mc_title = Some (PStr ''market''),
     mc_last_event_time = Some (PInt t)\<rparr>"

definition paged_io :: sync_io where
  "paged_io = \<lparr>sn_alive = (\<lambda>n. True), sn_cached = (\<lambda>n. Inr [numbered_chat 1 2]),
     sn_fetch = (\<lambda>n marker. Inr (case marker of
        None \<Rightarrow> [numbered_chat 2 5]
      | Some m \<Rightarrow> if 5 \<le> m then [numbered_chat 2 5] else if 3 \<le> m then [numbered_chat 3 3] else [])),
     sn_gone = (\<lambda>n. False), sn_session_left = True\<rparr>"

theorem group_sync_is_complete_witness:
  "\<exists>gs. start_group_sync paged_io (Some connected_session) =
      Some (connected_session\<lparr>ms_sync_state := Some ''ready'', ms_groups := Some gs\<rparr>) \<and>
    fst ` set gs = group_ids [numbered_chat 1 2] \<union> group_ids [numbered_chat 2 5, numbered_chat 3 3] \<and>
    distinct (map fst gs)"
proof (rule group_sync_is_complete)
  show "serves [numbered_chat 2 5, numbered_chat 3 3] (sn_fetch paged_io 0)"
    by (auto simp: serves_def paged_io_def eligible_def chat_time_def numbered_chat_def split: option.splits)
qed (simp_all add: stamped_def chat_time_def numbered_chat_def paged_io_def connected_session_def new_session_def)

section \<open>Properties of the interface\<close>

lemma on_start_sync_state: "string_or (ms_sync_state (snd (on_start now m))) \<noteq> None \<and> ms_sync_state (snd (on_start now m)) \<noteq> Some ''failed''"
  by (simp add: on_start_def Let_def string_or_def split: option.splits list.splits)

text \<open>
  the status endpoint reports groups that are not loaded as ready: a worker that reloads its session
  answers \<open>ready\<close> without groups when the request wakes before the sync task, it never
  answers \<open>syncing\<close> there although the code has that answer, and the application takes the
  answer for an account without groups: a first sync ends as done with nothing found.
\<close>

theorem reload_reports_ready_without_groups:
  assumes "sw_session s = None" "has_reusable_session (wd_session (sw_disk s))"
    and "find_row acc_id i (db_accounts d) = Some acc" "acc_status acc = ''syncing''" "groups_of acc (db_groups d) = []"
  shows "fst (snd (get_sync_status account phone_env None now (ReloadStarted t False) account s)) = sync_reply ''ready'' PNone \<and>
    (\<forall>rl. \<not> fst (get_sync_status account phone_env None now rl account s)) \<and>
    (\<exists>result d1. sync_groups (\<lambda>n. Inr \<lparr>sd_state = Some ''ready'', sd_groups = PNone\<rparr>) later ''max'' i d =
        (None, set_account i (\<lambda>a. a\<lparr>acc_status := ''active''\<rparr>) d1) \<and> db_groups d1 = db_groups d \<and>
      (result, d1) = apply_group_resync later False ''max'' acc (PList []) d \<and> rr_found result = 0 \<and> rr_error result = None)"
proof (intro conjI allI)
  have fresh: "ms_connected (reloaded rl m) \<Longrightarrow> ms_sync_state m = None \<Longrightarrow> \<not> ms_connected m \<Longrightarrow>
      string_or (ms_sync_state (reloaded rl m)) \<noteq> None \<and> ms_sync_state (reloaded rl m) \<noteq> Some ''failed''" for rl m
    by (cases rl) (auto simp: reloaded_def on_start_def client_failed_def string_or_def)
  show "\<not> fst (get_sync_status account phone_env None now rl account s)" for rl
    using assms(1,2) fresh [of rl]
    by (auto simp: get_sync_status_def foreign_def create_client_def new_session_def Let_def split: if_splits)
  show "fst (snd (get_sync_status account phone_env None now (ReloadStarted t False) account s)) = sync_reply ''ready'' PNone"
    using assms(1,2)
    by (simp add: get_sync_status_def foreign_def create_client_def new_session_def reloaded_def on_start_def
        string_or_def current_sync_def json_groups_opt_def Let_def)
  have polled: "poll (\<lambda>n. Inr \<lparr>sd_state = Some ''ready'', sd_groups = PNone\<rparr>) 0 MAX_POLLS = PollReady (PList [])"
    by (simp add: MAX_POLLS_def numeral_eq_Suc)
  obtain result d1 where r: "apply_group_resync later False ''max'' acc (PList []) d = (result, d1)" by force
  with assms(5) have "rr_found result = 0 \<and> rr_error result = None \<and> db_groups d1 = db_groups d"
    by (auto simp: apply_group_resync_def set_account_def update_where_idle Let_def)
  then show "\<exists>result d1. sync_groups (\<lambda>n. Inr \<lparr>sd_state = Some ''ready'', sd_groups = PNone\<rparr>) later ''max'' i d =
        (None, set_account i (\<lambda>a. a\<lparr>acc_status := ''active''\<rparr>) d1) \<and> db_groups d1 = db_groups d \<and>
      (result, d1) = apply_group_resync later False ''max'' acc (PList []) d \<and> rr_found result = 0 \<and> rr_error result = None"
    using polled r assms(3,4) by (intro exI [of _ result] exI [of _ d1]) (simp add: sync_groups_def)
qed

definition resting_worker :: session_world where
  "resting_worker = \<lparr>sw_session = None, sw_disk = \<lparr>wd_phone = Some ''79990000000'',
     wd_session = SessionFile (Some \<lparr>st_columns = [''token'', ''device_id'', ''phone''], st_rows = [(Some ''t'', Some ''d'')]\<rparr>) None\<rparr>,
     sw_rate = []\<rparr>"

theorem reload_reports_ready_without_groups_witness:
  "fst (snd (get_sync_status ''1'' '''' None 5 (ReloadStarted 6 False) ''1'' resting_worker)) = sync_reply ''ready'' PNone"
proof -
  let ?acc = "sample_account\<lparr>acc_status := ''syncing''\<rparr>"
  let ?d = "empty_db\<lparr>db_accounts := [?acc]\<rparr>"
  have "has_reusable_session (wd_session (sw_disk resting_worker))"
    by (simp add: has_reusable_session_def read_session_compatibility_def resting_worker_def has_columns_def filled_row_def)
  moreover have "find_row acc_id (acc_id sample_account) (db_accounts ?d) = Some ?acc" by simp
  ultimately show ?thesis
    using reload_reports_ready_without_groups [of resting_worker "acc_id sample_account" ?d ?acc "''1''" "''''" 5 6 7]
    by (simp add: resting_worker_def groups_of_def empty_db_def)
qed

end
