(* ===== verification/Ops_State.thy ===== *)
theory Ops_State
  imports Complex_Main Max_Session Admin_Actions
begin

text \<open>
  The operational state the administrator sees, \<open>app/services/ops_state.py\<close> and
  \<open>app/application/admin/queue_rows.py\<close>: the liveness of the workers, the queues task by
  task, taking one task off its queue, and the handlers of \<open>app/pages/admin.py\<close> over them.

  Redis is a store of strings and a store of lists; a call may be impossible (no client), raise, or
  be answered short. The bodies of a queue are of any type, read by the argument \<open>loads\<close>; the
  Telegram queue is only counted. Times are microseconds, the worker's beat is in milliseconds.
\<close>

section \<open>Redis\<close>

record 'raw redis_store =
  rd_get :: "string \<Rightarrow> string option"
  rd_list :: "string \<Rightarrow> 'raw list"

datatype redis_answer = Answers | NoClient | Raises | ShortReply

definition lrem_one :: "'raw \<Rightarrow> 'raw list \<Rightarrow> nat \<times> 'raw list" where
  "lrem_one x xs = (if x \<in> set xs then (1, remove1 x xs) else (0, xs))"

section \<open>Liveness of the workers\<close>

definition MAX_HEARTBEAT_STALE_SEC :: int where "MAX_HEARTBEAT_STALE_SEC = 90"

definition WORKER_ONLINE :: string where "WORKER_ONLINE = ''online''"
definition WORKER_IDLE :: string where "WORKER_IDLE = ''idle''"
definition WORKER_OFFLINE :: string where "WORKER_OFFLINE = ''offline''"
definition WORKER_UNKNOWN :: string where "WORKER_UNKNOWN = ''unknown''"

definition is_fresh :: "int \<Rightarrow> string option \<Rightarrow> bool" where
  "is_fresh now raw =
     (case Option.bind raw py_int of
        None \<Rightarrow> False
      | Some beat_ms \<Rightarrow>
          let age_ms = now div 1000 - beat_ms in 0 \<le> age_ms \<and> age_ms \<le> MAX_HEARTBEAT_STALE_SEC * 1000)"

record worker_view =
  wv_queue_depth :: "int option"
  wv_worker :: string

definition unknown_view :: worker_view where
  "unknown_view = \<lparr>wv_queue_depth = None, wv_worker = WORKER_UNKNOWN\<rparr>"

definition classify :: "int \<Rightarrow> string option \<Rightarrow> int \<Rightarrow> string" where
  "classify now beat depth =
     (if is_fresh now beat then WORKER_ONLINE else if 0 < depth then WORKER_OFFLINE else WORKER_IDLE)"

definition heartbeat_key :: "string \<Rightarrow> int \<Rightarrow> string" where
  "heartbeat_key channel i = channel @ '':heartbeat:'' @ int_str i"

definition queue_key :: "string \<Rightarrow> int \<Rightarrow> string" where
  "queue_key channel i = channel @ '':queue:'' @ int_str i"

text \<open>A dictionary by account, the accounts of WhatsApp before those of MAX.\<close>

definition worker_liveness ::
  "redis_answer \<Rightarrow> int \<Rightarrow> 'raw redis_store \<Rightarrow> int list \<Rightarrow> int list \<Rightarrow> (int \<times> worker_view) list" where
  "worker_liveness answer now rd wa_ids max_ids =
     (let accounts = map (Pair ''wa'') wa_ids @ map (Pair ''max'') max_ids;
          view = (\<lambda>(channel, i).
             if answer = Answers
             then let depth = int (length (rd_list rd (queue_key channel i))) in
                  \<lparr>wv_queue_depth = Some depth, wv_worker = classify now (rd_get rd (heartbeat_key channel i)) depth\<rparr>
             else unknown_view)
      in fold (\<lambda>a out. AList.update (snd a) (view a) out) accounts [])"

definition INFRA_SERVICE_ORDER :: "string list" where
  "INFRA_SERVICE_ORDER = [''beat'', ''worker-telegram'', ''worker-default'']"

definition infra_heartbeat_key :: "string \<Rightarrow> string" where
  "infra_heartbeat_key service = ''infra:heartbeat:'' @ service"

definition infra_liveness :: "redis_answer \<Rightarrow> int \<Rightarrow> 'raw redis_store \<Rightarrow> (string \<times> string) list" where
  "infra_liveness answer now rd =
     map (\<lambda>service. (service,
            if answer = Answers
            then (if is_fresh now (rd_get rd (infra_heartbeat_key service)) then WORKER_ONLINE else WORKER_OFFLINE)
            else WORKER_UNKNOWN)) INFRA_SERVICE_ORDER"

definition telegram_queue_depth :: "redis_answer \<Rightarrow> 'raw redis_store \<Rightarrow> int option" where
  "telegram_queue_depth answer rd =
     (if answer = NoClient \<or> answer = Raises then None else Some (int (length (rd_list rd ''telegram''))))"

section \<open>The queue of an account\<close>

text \<open>
  The members of a task the list shows. \<open>qt_delay\<close> is what \<open>float\<close> makes of the member
  \<open>_delay_until\<close>, without a value where it is missing, no number or not finite.
\<close>

record queue_task =
  qt_task_id :: pyval
  qt_ad_title :: pyval
  qt_group_name :: pyval
  qt_retry_count :: pyval
  qt_delay :: "rat option"

record queue_page =
  qp_tasks :: "queue_task list"
  qp_total :: "int option"
  qp_unavailable :: bool
  qp_unreadable :: nat

text \<open>A body that is no JSON object has no reading.\<close>

definition queue_page ::
  "redis_answer \<Rightarrow> ('raw \<Rightarrow> queue_task option) \<Rightarrow> string \<Rightarrow> int \<Rightarrow> nat \<Rightarrow> 'raw redis_store \<Rightarrow> queue_page" where
  "queue_page answer loads channel i limit rd =
     (let q = rd_list rd (queue_key channel i); bodies = take limit q in
      if answer = Answers
      then \<lparr>qp_tasks = List.map_filter loads bodies, qp_total = Some (int (length q)), qp_unavailable = False,
            qp_unreadable = length (filter (\<lambda>raw. loads raw = None) bodies)\<rparr>
      else \<lparr>qp_tasks = [], qp_total = None, qp_unavailable = True, qp_unreadable = 0\<rparr>)"

definition DROP_REMOVED :: string where "DROP_REMOVED = ''removed''"
definition DROP_MISSING :: string where "DROP_MISSING = ''missing''"
definition DROP_UNAVAILABLE :: string where "DROP_UNAVAILABLE = ''unavailable''"

text \<open>
  Between the reading and the removal others may change the queue: \<open>seen\<close> is what is read,
  \<open>met\<close> what the removal meets.
\<close>

definition find_task :: "('raw \<Rightarrow> queue_task option) \<Rightarrow> string \<Rightarrow> 'raw list \<Rightarrow> 'raw option" where
  "find_task loads task_id bodies =
     List.find (\<lambda>raw. case loads raw of None \<Rightarrow> False | Some t \<Rightarrow> qt_task_id t = PStr task_id) bodies"

definition drop_task ::
  "redis_answer \<Rightarrow> bool \<Rightarrow> ('raw \<Rightarrow> queue_task option) \<Rightarrow> string \<Rightarrow> nat \<Rightarrow> 'raw list \<Rightarrow> 'raw list \<Rightarrow> string \<times> 'raw list" where
  "drop_task answer lrem_raises loads task_id limit seen met =
     (if answer \<noteq> Answers then (DROP_UNAVAILABLE, met)
      else case find_task loads task_id (take limit seen) of
             None \<Rightarrow> (DROP_MISSING, met)
           | Some target \<Rightarrow>
               if lrem_raises then (DROP_UNAVAILABLE, met)
               else let (removed, q) = lrem_one target met in
                    (if removed \<noteq> 0 then DROP_REMOVED else DROP_MISSING, q))"

section \<open>Rows of the list\<close>

definition QUEUE_ROW_CAP :: nat where "QUEUE_ROW_CAP = 50"
definition QUEUE_READ_LIMIT :: nat where "QUEUE_READ_LIMIT = QUEUE_ROW_CAP + 1"

record queue_row =
  qr_task_id :: pyval
  qr_state :: string
  qr_delay_until :: "datetime option"
  qr_retries :: int
  qr_ad_title :: pyval
  qr_group_name :: pyval

record queue_rows_view =
  qv_rows :: "queue_row list"
  qv_capped :: bool

text \<open>\<open>round\<close> to the nearest integer, a half to the even one.\<close>

definition round_half_even :: "rat \<Rightarrow> int" where
  "round_half_even x =
     (let f = floor x; r = x - of_int f in
      if r < 1 / 2 then f else if 1 / 2 < r then f + 1 else if even f then f else f + 1)"

definition EPOCH_US :: int where "EPOCH_US = 62135596800000000"
definition DATETIME_END :: int where "DATETIME_END = 315537897600000000"

text \<open>\<open>datetime.fromtimestamp(seconds, utc)\<close>: the years 1 to 9999, microseconds rounded.\<close>

definition from_timestamp :: "rat \<Rightarrow> datetime option" where
  "from_timestamp seconds =
     (let t = EPOCH_US + round_half_even (seconds * 1000000) in
      if 0 \<le> t \<and> t < DATETIME_END then Some (utc_datetime t) else None)"

text \<open>WhatsApp counts milliseconds, the other seconds.\<close>

definition parse_delay_until :: "rat option \<Rightarrow> string \<Rightarrow> datetime option" where
  "parse_delay_until raw channel =
     (case raw of
        None \<Rightarrow> None
      | Some v \<Rightarrow> normalize_utc (from_timestamp (if channel = ''wa'' then v / 1000 else v)))"

definition py_int_val :: "pyval \<Rightarrow> int option" where
  "py_int_val v = (case v of PInt n \<Rightarrow> Some n | PBool b \<Rightarrow> Some (if b then 1 else 0) | PStr s \<Rightarrow> py_int s | _ \<Rightarrow> None)"

definition queue_row_state :: "queue_task \<Rightarrow> string \<Rightarrow> datetime \<Rightarrow> queue_row" where
  "queue_row_state task channel now =
     (let moment = norm_dt now;
          retries = (case py_int_val (qt_retry_count task) of None \<Rightarrow> 0 | Some n \<Rightarrow> n);
          until = parse_delay_until (qt_delay task) channel;
          (state, until') =
            (case until of
               Some u \<Rightarrow> if instant moment < instant u then (''delayed'', Some u)
                         else (if retries \<noteq> 0 then ''retrying'' else ''waiting'', None)
             | None \<Rightarrow> (if retries \<noteq> 0 then ''retrying'' else ''waiting'', None))
      in \<lparr>qr_task_id = qt_task_id task, qr_state = state, qr_delay_until = until', qr_retries = retries,
          qr_ad_title = qt_ad_title task, qr_group_name = qt_group_name task\<rparr>)"

definition telegram_lag_seconds :: "datetime option \<Rightarrow> datetime \<Rightarrow> int option" where
  "telegram_lag_seconds last_sent_at now =
     (case normalize_utc last_sent_at of
        None \<Rightarrow> None
      | Some moment \<Rightarrow> Some (max 0 ((instant (norm_dt now) - instant moment) div second_us)))"

definition queue_rows :: "queue_task list \<Rightarrow> string \<Rightarrow> datetime \<Rightarrow> queue_rows_view" where
  "queue_rows tasks channel now =
     \<lparr>qv_rows = map (\<lambda>t. queue_row_state t channel now) (take QUEUE_ROW_CAP tasks),
      qv_capped = (QUEUE_ROW_CAP < length tasks)\<rparr>"

section \<open>The pages of the administrator\<close>

record ops_snapshot =
  os_liveness :: "(int \<times> worker_view) list"
  os_telegram_depth :: "int option"
  os_queue_total :: "int option"
  os_partial :: bool

definition ids_of_type :: "string \<Rightarrow> db \<Rightarrow> int list" where
  "ids_of_type ty d = map acc_id (filter (\<lambda>a. acc_type a = ty) (sort_key acc_id (db_accounts d)))"

text \<open>Redis is asked twice: about the workers and about the Telegram queue.\<close>

definition take_ops_snapshot :: "redis_answer \<Rightarrow> redis_answer \<Rightarrow> int \<Rightarrow> 'raw redis_store \<Rightarrow> db \<Rightarrow> ops_snapshot" where
  "take_ops_snapshot answer answer2 now rd d =
     (let liveness = worker_liveness answer now rd (ids_of_type ''wa'' d) (ids_of_type ''max'' d);
          telegram = telegram_queue_depth answer2 rd;
          depths = map (\<lambda>a. wv_queue_depth (snd a)) liveness;
          partial = (telegram = None \<or> None \<in> set depths)
      in \<lparr>os_liveness = liveness, os_telegram_depth = telegram,
          os_queue_total = (if partial then None else Some (the telegram + sum_list (map the depths))),
          os_partial = partial\<rparr>)"

text \<open>What the incidents get: depth and freshness; accounts without an answer are left out and the flag says so.\<close>

definition liveness_for_incidents :: "(int \<times> worker_view) list \<Rightarrow> (int \<times> int \<times> bool) list \<times> bool" where
  "liveness_for_incidents views =
     (concat (map (\<lambda>(i, v). case wv_queue_depth v of
                     None \<Rightarrow> []
                   | Some depth \<Rightarrow> if wv_worker v = WORKER_UNKNOWN then [] else [(i, depth, wv_worker v = WORKER_ONLINE)]) views),
      list_ex (\<lambda>(i, v). wv_queue_depth v = None \<or> wv_worker v = WORKER_UNKNOWN) views)"

text \<open>
  The rows of the page of workers: a Telegram account shows the common worker, an account of an
  unknown channel nothing. They are grouped by channel, the known channels first.
\<close>

definition account_state ::
  "(string \<times> string) list \<Rightarrow> (int \<times> worker_view) list \<Rightarrow> account \<Rightarrow> worker_view option" where
  "account_state infra liveness a =
     (if acc_type a = ''tg_user''
      then map_option (\<lambda>st. \<lparr>wv_queue_depth = None, wv_worker = st\<rparr>) (map_of infra ''worker-telegram'')
      else map_of liveness (acc_id a))"

definition WORKER_CHANNELS :: "string list" where "WORKER_CHANNELS = [''tg_user'', ''wa'', ''max'']"

definition other_types :: "account list \<Rightarrow> string list" where
  "other_types accounts = rev (remdups (rev (filter (\<lambda>ty. ty \<notin> set WORKER_CHANNELS) (map acc_type accounts))))"

definition workers_view ::
  "redis_answer \<Rightarrow> redis_answer \<Rightarrow> int \<Rightarrow> 'raw redis_store \<Rightarrow> db \<Rightarrow> (string \<times> (account \<times> worker_view option) list) list" where
  "workers_view answer answer2 now rd d =
     (let accounts = sort_key acc_id (db_accounts d);
          infra = infra_liveness answer now rd;
          liveness = worker_liveness answer2 now rd (ids_of_type ''wa'' d) (ids_of_type ''max'' d);
          rows = map (\<lambda>a. (a, account_state infra liveness a)) accounts
      in map (\<lambda>ty. (ty, filter (\<lambda>(a, st). acc_type a = ty) rows)) (WORKER_CHANNELS @ other_types accounts))"

text \<open>
  Restarting the worker of an account: the channels with containers are WhatsApp and MAX. The second
  component is the container that was started.
\<close>

definition has_container :: "string \<Rightarrow> bool" where
  "has_container ty \<longleftrightarrow> ty = ''wa'' \<or> ty = ''max''"

definition target_account :: "int \<Rightarrow> db \<Rightarrow> account option" where
  "target_account i d = (if id_in_column i then find_row acc_id i (db_accounts d) else None)"

definition admin_restart_worker ::
  "sign_env \<Rightarrow> url_lib \<Rightarrow> (string \<Rightarrow> string) \<Rightarrow> exn option \<Rightarrow> int \<Rightarrow> http_request \<Rightarrow> int \<Rightarrow> db \<Rightarrow>
     (exn + reply) \<times> (string \<times> int) option" where
  "admin_restart_worker en ul notice_oob start now rq i d =
     (case admin_request en ul False now rq d of
        Inl e \<Rightarrow> (Inl e, None)
      | Inr None \<Rightarrow> (Inr (EmptyStatus 403), None)
      | Inr (Some admin) \<Rightarrow>
          (case target_account i d of
             None \<Rightarrow> (respond notice_oob rq ''/admin/workers'' None None, None)
           | Some a \<Rightarrow>
               if \<not> has_container (acc_type a)
               then (respond notice_oob rq ''/admin/workers'' (Some ''worker_no_container'') None, None)
               else (case start of
                       Some e \<Rightarrow> (respond notice_oob rq ''/admin/workers'' (Some ''worker_restart_failed'') None, None)
                     | None \<Rightarrow> (respond notice_oob rq ''/admin/workers'' None None, Some (acc_type a, acc_id a)))))"

text \<open>One account of the page of queues, with what the read said of it.\<close>

record queue_entry =
  qe_account :: account
  qe_rows :: "queue_row list"
  qe_capped :: bool
  qe_total :: "int option"
  qe_unavailable :: bool
  qe_unreadable :: nat

definition queue_entry_of ::
  "(int \<Rightarrow> redis_answer) \<Rightarrow> ('raw \<Rightarrow> queue_task option) \<Rightarrow> datetime \<Rightarrow> 'raw redis_store \<Rightarrow> string \<Rightarrow> account \<Rightarrow> queue_entry" where
  "queue_entry_of answer loads now rd channel a =
     (let p = queue_page (answer (acc_id a)) loads channel (acc_id a) QUEUE_READ_LIMIT rd;
          v = queue_rows (qp_tasks p) channel now
      in \<lparr>qe_account = a, qe_rows = qv_rows v, qe_capped = qv_capped v, qe_total = qp_total p,
          qe_unavailable = qp_unavailable p, qe_unreadable = qp_unreadable p\<rparr>)"

definition QUEUE_CHANNELS :: "string list" where "QUEUE_CHANNELS = [''wa'', ''max'']"

definition admin_queue ::
  "(int \<Rightarrow> redis_answer) \<Rightarrow> redis_answer \<Rightarrow> ('raw \<Rightarrow> queue_task option) \<Rightarrow> datetime \<Rightarrow> datetime option \<Rightarrow> 'raw redis_store \<Rightarrow> db \<Rightarrow>
     (string \<times> queue_entry list) list \<times> int option \<times> int option \<times> bool" where
  "admin_queue answer answer2 loads now last_send rd d =
     (let accounts = sort_key acc_id (db_accounts d);
          blocks = map (\<lambda>channel. (channel,
             map (queue_entry_of answer loads now rd channel) (filter (\<lambda>a. acc_type a = channel) accounts))) QUEUE_CHANNELS;
          depth = telegram_queue_depth answer2 rd;
          lag = (case depth of None \<Rightarrow> None | Some n \<Rightarrow> if n = 0 then None else telegram_lag_seconds last_send now);
          unavailable = (list_ex (\<lambda>(channel, es). list_ex qe_unavailable es) blocks \<or> depth = None)
      in (blocks, depth, lag, unavailable))"

definition drop_notice :: "string \<Rightarrow> string" where
  "drop_notice outcome =
     (if outcome = DROP_REMOVED then ''queue_drop_removed''
      else if outcome = DROP_MISSING then ''queue_drop_missing'' else ''queue_drop_unavailable'')"

text \<open>The second component is the queue afterwards, of the account the handler reached.\<close>

definition admin_drop_task ::
  "sign_env \<Rightarrow> url_lib \<Rightarrow> (string \<Rightarrow> string) \<Rightarrow> redis_answer \<Rightarrow> bool \<Rightarrow> ('raw \<Rightarrow> queue_task option) \<Rightarrow>
     (string \<Rightarrow> 'raw list) \<Rightarrow> (string \<Rightarrow> 'raw list) \<Rightarrow> int \<Rightarrow> http_request \<Rightarrow> int \<Rightarrow> string \<Rightarrow> db \<Rightarrow>
     (exn + reply) \<times> (string \<times> 'raw list) option" where
  "admin_drop_task en ul notice_oob answer lrem_raises loads seen met now rq i task_id d =
     (case admin_request en ul False now rq d of
        Inl e \<Rightarrow> (Inl e, None)
      | Inr None \<Rightarrow> (Inr (EmptyStatus 403), None)
      | Inr (Some admin) \<Rightarrow>
          (case target_account i d of
             None \<Rightarrow> (respond notice_oob rq ''/admin/queue'' (Some ''queue_drop_no_queue'') None, None)
           | Some a \<Rightarrow>
               if acc_type a \<notin> set QUEUE_CHANNELS
               then (respond notice_oob rq ''/admin/queue'' (Some ''queue_drop_no_queue'') None, None)
               else
                 let key = queue_key (acc_type a) (acc_id a);
                     (outcome, q) = drop_task answer lrem_raises loads task_id QUEUE_READ_LIMIT (seen key) (met key)
                 in (respond notice_oob rq ''/admin/queue'' (Some (drop_notice outcome)) None, Some (key, q))))"

section \<open>Taking a task off its queue\<close>

definition task_named :: "('raw \<Rightarrow> queue_task option) \<Rightarrow> string \<Rightarrow> 'raw \<Rightarrow> bool" where
  "task_named loads task_id raw \<longleftrightarrow> (case loads raw of None \<Rightarrow> False | Some t \<Rightarrow> qt_task_id t = PStr task_id)"

lemma find_task_Some:
  assumes "find_task loads task_id bodies = Some raw"
  shows "raw \<in> set bodies \<and> task_named loads task_id raw"
  using assms by (auto simp: find_task_def task_named_def find_Some_iff2 in_set_conv_nth find_Some_iff)

lemma drop_takes_task:
  "fst (drop_task answer raises loads task_id limit seen met) = DROP_REMOVED \<and>
     (\<exists>raw \<in> set (take limit seen). task_named loads task_id raw \<and> raw \<in> set met \<and>
        snd (drop_task answer raises loads task_id limit seen met) = remove1 raw met) \<or>
   fst (drop_task answer raises loads task_id limit seen met) \<in> {DROP_MISSING, DROP_UNAVAILABLE} \<and>
     snd (drop_task answer raises loads task_id limit seen met) = met"
proof (cases "answer = Answers \<and> \<not> raises")
  case False
  then show ?thesis by (auto simp: drop_task_def split: option.splits)
next
  case True
  show ?thesis
  proof (cases "find_task loads task_id (take limit seen)")
    case None
    with True show ?thesis by (simp add: drop_task_def)
  next
    case (Some raw)
    with True find_task_Some [OF Some] show ?thesis by (auto simp: drop_task_def lrem_one_def)
  qed
qed

text \<open>
  the removal takes at most the one task that was asked for: it answers removed exactly when it took
  one body off the queue, that body carries the task's id and was among those read, and whatever was
  pushed or worked off in between stays; any other answer leaves the queue as it met it.
\<close>

theorem drop_takes_only_the_task:
  "fst (drop_task answer raises loads task_id limit seen met) = DROP_REMOVED \<and>
     (\<exists>raw \<in> set (take limit seen). task_named loads task_id raw \<and> raw \<in> set met \<and>
        snd (drop_task answer raises loads task_id limit seen met) = remove1 raw met) \<or>
   fst (drop_task answer raises loads task_id limit seen met) \<in> {DROP_MISSING, DROP_UNAVAILABLE} \<and>
     snd (drop_task answer raises loads task_id limit seen met) = met"
  by (rule drop_takes_task)

text \<open>Ids of tasks, as the worker reads them; whatever a turn does, it brings no new id into play.\<close>

definition worker_ids :: "'raw codec \<Rightarrow> 'raw list \<Rightarrow> string option set" where
  "worker_ids cd raws = {wt_task_id t | t raw. raw \<in> set raws \<and> cd_loads cd raw = TaskBody t}"

definition only_of :: "string option set \<Rightarrow> 'raw codec \<Rightarrow> 'raw worker \<Rightarrow> 'raw worker \<Rightarrow> bool" where
  "only_of I cd w w' \<longleftrightarrow>
     worker_ids cd (wk_queue w') \<subseteq> I \<and>
     (\<exists>rs. wk_results w' = wk_results w @ rs \<and> br_task_id ` set rs \<subseteq> I)"

lemma worker_ids_simps [simp]:
  "worker_ids cd [] = {}"
  "worker_ids cd (raws @ raws') = worker_ids cd raws \<union> worker_ids cd raws'"
  by (auto simp: worker_ids_def)

lemma worker_ids_Cons:
  "worker_ids cd (raw # raws) =
     (case cd_loads cd raw of TaskBody t \<Rightarrow> {wt_task_id t} | _ \<Rightarrow> {}) \<union> worker_ids cd raws"
  by (auto simp: worker_ids_def split: body.splits)

lemma only_of_refl: "worker_ids cd (wk_queue w) \<subseteq> I \<Longrightarrow> only_of I cd w w"
  by (simp add: only_of_def)

lemma only_of_trans: "only_of I cd w w' \<Longrightarrow> only_of I cd w' w'' \<Longrightarrow> only_of I cd w w''"
  unfolding only_of_def by (metis append_assoc image_Un set_append Un_least)

lemma only_of_quiet:
  assumes "worker_ids cd (wk_queue w) \<subseteq> I" "wk_queue w' = wk_queue w" "wk_results w' = wk_results w"
  shows "only_of I cd w w'"
  using assms by (simp add: only_of_def)

lemma max_result_task_id [simp]: "br_task_id (max_result t status e n) = wt_task_id t"
  by (simp add: max_result_def)

lemma retried_task_id [simp]: "wt_task_id (retried now delay t) = wt_task_id t"
  by (simp add: retried_def)

lemma loop_error_quiet [simp]:
  "wk_queue (loop_error idle_sec io w) = wk_queue w" "wk_results (loop_error idle_sec io w) = wk_results w"
  by (simp_all add: loop_error_def graceful_shutdown_def)

lemma graceful_shutdown_quiet [simp]:
  "wk_queue (graceful_shutdown n w) = wk_queue w" "wk_results (graceful_shutdown n w) = wk_results w"
  by (simp_all add: graceful_shutdown_def)

lemma write_heartbeat_quiet [simp]:
  "wk_queue (write_heartbeat beat w) = wk_queue w" "wk_results (write_heartbeat beat w) = wk_results w"
  by (simp_all add: write_heartbeat_def split: option.splits)

lemma process_task_only_of:
  assumes "\<And>u. cd_loads cd (cd_dumps cd u) = TaskBody u"
    and "worker_ids cd (wk_queue w) \<subseteq> I" "wt_task_id t \<in> I" "process_task limit cd io t w = Some (r, w')"
  shows "only_of I cd w w'"
  using assms
  by (auto simp: process_task_def after_failure_def publish_result_def only_of_def worker_ids_Cons Let_def
      split: option.splits sum.splits if_splits)

lemma handle_body_only_of:
  assumes "\<And>u. cd_loads cd (cd_dumps cd u) = TaskBody u"
    and "worker_ids cd (raw # wk_queue w) \<subseteq> I" "handle_body limit idle_sec cd io raw w = Some w'"
  shows "only_of I cd w w'"
proof (cases "cd_loads cd raw")
  case (TaskBody t)
  have t: "wt_task_id t \<in> I" "worker_ids cd (wk_queue w) \<subseteq> I" using assms(2) TaskBody by (auto simp: worker_ids_Cons)
  show ?thesis
  proof (cases "waits_still (io_due io) t")
    case True
    with assms(2,3) TaskBody show ?thesis
      by (auto simp: handle_body_def only_of_def worker_ids_Cons split: if_splits)
  next
    case False
    with assms(3) TaskBody obtain r v where v: "process_task limit cd io t w = Some (r, v)"
      "wk_queue w' = wk_queue v" "wk_results w' = wk_results v"
      by (auto simp: handle_body_def split: option.splits sum.splits)
    from process_task_only_of [OF assms(1) t(2,1) v(1)] v(2,3) show ?thesis by (simp add: only_of_def)
  qed
qed (use assms(2,3) in \<open>auto simp: handle_body_def worker_ids_Cons intro!: only_of_quiet\<close>)

lemma consumer_step_only_of:
  assumes "\<And>u. cd_loads cd (cd_dumps cd u) = TaskBody u"
    and "worker_ids cd (wk_queue w) \<subseteq> I" "consumer_step limit idle_sec cd io w = Some w'"
  shows "only_of I cd w w'"
proof (cases "\<not> wk_running w \<or> io_pop_fails io \<or> wk_queue w = []")
  case True
  with assms(2,3) show ?thesis
    by (auto simp: consumer_step_def split: if_splits list.splits intro!: only_of_quiet)
next
  case False
  then obtain raw rest where q: "wk_queue w = raw # rest" by (cases "wk_queue w") auto
  let ?v = "w\<lparr>wk_queue := rest, wk_last_task := io_now io\<rparr>"
  have "handle_body limit idle_sec cd io raw ?v = Some w'" using assms(3) False q by (simp add: consumer_step_def)
  moreover have "worker_ids cd (raw # wk_queue ?v) \<subseteq> I" using assms(2) q by simp
  ultimately have "only_of I cd ?v w'" using handle_body_only_of [OF assms(1)] by blast
  then show ?thesis by (simp add: only_of_def)
qed

lemma consume_only_of:
  assumes "\<And>u. cd_loads cd (cd_dumps cd u) = TaskBody u"
  shows "worker_ids cd (wk_queue w) \<subseteq> I \<Longrightarrow> consume limit idle_sec cd ios w = Some w' \<Longrightarrow> only_of I cd w w'"
proof (induction ios arbitrary: w)
  case Nil
  then show ?case by (simp add: only_of_refl)
next
  case (Cons io ios)
  obtain w1 where w1: "consumer_step limit idle_sec cd io w = Some w1" "consume limit idle_sec cd ios w1 = Some w'"
    using Cons.prems(2) by (auto simp: bind_eq_Some_conv)
  from consumer_step_only_of [OF assms Cons.prems(1) w1(1)] have step: "only_of I cd w w1" .
  then have "worker_ids cd (wk_queue w1) \<subseteq> I" by (simp add: only_of_def)
  from only_of_trans [OF step Cons.IH [OF this w1(2)]] show ?case .
qed


definition plain_loads :: "body \<Rightarrow> queue_task option" where
  "plain_loads b =
     (case b of
        TaskBody t \<Rightarrow> Some \<lparr>qt_task_id = (case wt_task_id t of None \<Rightarrow> PNone | Some i \<Rightarrow> PStr i), qt_ad_title = PNone,
          qt_group_name = PNone, qt_retry_count = PNone, qt_delay = None\<rparr>
      | _ \<Rightarrow> None)"


section \<open>What the pages say\<close>

lemma map_of_update_fold:
  "map_of (fold (\<lambda>a out. AList.update (snd a) (f a) out) xs out) i = Some v \<Longrightarrow>
     map_of out i = Some v \<or> (\<exists>a \<in> set xs. snd a = i \<and> v = f a)"
  by (induction xs arbitrary: out) (fastforce simp: update_conv' split: if_splits)+

lemma worker_liveness_view:
  assumes "map_of (worker_liveness answer now rd wa_ids max_ids) i = Some v"
  shows "if answer = Answers
    then \<exists>channel \<in> {''wa'', ''max''}. wv_queue_depth v = Some (int (length (rd_list rd (queue_key channel i)))) \<and>
      wv_worker v = classify now (rd_get rd (heartbeat_key channel i)) (int (length (rd_list rd (queue_key channel i))))
    else v = unknown_view"
  using map_of_update_fold [OF assms [unfolded worker_liveness_def Let_def]] by (auto simp: Let_def)

lemma is_fresh_iff:
  "is_fresh now raw \<longleftrightarrow>
     (\<exists>beat. Option.bind raw py_int = Some beat \<and> now div 1000 - 90000 \<le> beat \<and> beat \<le> now div 1000)"
  by (auto simp: is_fresh_def MAX_HEARTBEAT_STALE_SEC_def Let_def split: option.splits)

text \<open>
  a worker is called offline only when it is: Redis has answered, tasks wait, and the last beat is
  missing or not of the last ninety seconds; without an answer of Redis every worker is unknown and
  no depth is given, and online always rests on a beat of the last ninety seconds.
\<close>

theorem offline_is_never_guessed:
  assumes "map_of (worker_liveness answer now rd wa_ids max_ids) i = Some v"
  shows "(wv_worker v = WORKER_OFFLINE \<longrightarrow> answer = Answers \<and> (\<exists>channel. rd_list rd (queue_key channel i) \<noteq> [] \<and>
        \<not> is_fresh now (rd_get rd (heartbeat_key channel i)))) \<and>
    (wv_worker v = WORKER_ONLINE \<longrightarrow> (\<exists>channel beat. Option.bind (rd_get rd (heartbeat_key channel i)) py_int = Some beat \<and>
        now div 1000 - 90000 \<le> beat \<and> beat \<le> now div 1000)) \<and>
    (answer \<noteq> Answers \<longrightarrow> wv_worker v = WORKER_UNKNOWN \<and> wv_queue_depth v = None)"
proof (cases "answer = Answers")
  case True
  with worker_liveness_view [OF assms] obtain channel where
    "wv_worker v = classify now (rd_get rd (heartbeat_key channel i)) (int (length (rd_list rd (queue_key channel i))))"
    by auto
  with True show ?thesis
    by (cases "is_fresh now (rd_get rd (heartbeat_key channel i))")
      (auto simp: classify_def WORKER_ONLINE_def WORKER_OFFLINE_def WORKER_IDLE_def is_fresh_iff split: if_splits)
next
  case False
  with worker_liveness_view [OF assms] show ?thesis
    by (simp add: unknown_view_def WORKER_UNKNOWN_def WORKER_ONLINE_def WORKER_OFFLINE_def)
qed

definition busy_redis :: "body redis_store" where
  "busy_redis = \<lparr>rd_get = (\<lambda>k. None), rd_list = (\<lambda>k. if k = ''max:queue:1'' then sample_queue else [])\<rparr>"

theorem offline_is_never_guessed_witness:
  "map_of (worker_liveness Answers 0 busy_redis [] [1]) 1 = Some \<lparr>wv_queue_depth = Some 2, wv_worker = WORKER_OFFLINE\<rparr> \<and>
   (\<exists>channel. rd_list busy_redis (queue_key channel 1) \<noteq> [] \<and> \<not> is_fresh 0 (rd_get busy_redis (heartbeat_key channel 1)))"
proof -
  have "queue_key ''max'' 1 = ''max:queue:1''" by code_simp
  then have v: "map_of (worker_liveness Answers 0 busy_redis [] [1]) 1 = Some \<lparr>wv_queue_depth = Some 2, wv_worker = WORKER_OFFLINE\<rparr>"
    by (simp add: worker_liveness_def busy_redis_def sample_queue_def classify_def is_fresh_def)
  from offline_is_never_guessed [OF v] v show ?thesis by simp
qed

text \<open>
  the number of waiting tasks is shown only when all of it is known: the total is the sum of the
  Telegram queue and the queues of all accounts of WhatsApp and MAX, or it is left out and the page
  is marked partial.
\<close>

theorem queue_total_is_whole:
  "(case os_queue_total (take_ops_snapshot answer answer2 now rd d) of
      None \<Rightarrow> os_partial (take_ops_snapshot answer answer2 now rd d)
    | Some n \<Rightarrow> \<not> os_partial (take_ops_snapshot answer answer2 now rd d) \<and>
        n = int (length (rd_list rd ''telegram'')) +
            (\<Sum>a \<leftarrow> os_liveness (take_ops_snapshot answer answer2 now rd d). the (wv_queue_depth (snd a))) \<and>
        (\<forall>a \<in> set (os_liveness (take_ops_snapshot answer answer2 now rd d)). wv_queue_depth (snd a) \<noteq> None))"
  by (simp add: take_ops_snapshot_def telegram_queue_depth_def Let_def comp_def image_iff not_None_eq [symmetric] eq_commute [of None] del: not_None_eq)

text \<open>
  a cut list is not always called one: one unreadable body among the first fifty-one is enough that
  fifty rows are shown of a longer queue and the list is not marked as cut.
\<close>

theorem cut_list_goes_unmarked:
  assumes "length (rd_list rd (queue_key channel (acc_id a))) > 51" "answer (acc_id a) = Answers"
    and "length (filter (\<lambda>raw. loads raw = None) (take 51 (rd_list rd (queue_key channel (acc_id a))))) = 1"
  shows "length (qe_rows (queue_entry_of answer loads now rd channel a)) = 50 \<and>
    \<not> qe_capped (queue_entry_of answer loads now rd channel a) \<and>
    qe_unreadable (queue_entry_of answer loads now rd channel a) = 1 \<and>
    (\<exists>n > 51. qe_total (queue_entry_of answer loads now rd channel a) = Some n)"
proof -
  let ?bodies = "take 51 (rd_list rd (queue_key channel (acc_id a)))"
  have "length (List.map_filter loads xs) + length (filter (\<lambda>raw. loads raw = None) xs) = length xs" for xs
    by (induction xs) (auto simp: List.map_filter_simps split: option.splits)
  from this [of ?bodies] assms(1,3) have "length (List.map_filter loads ?bodies) = 50" by simp
  with assms show ?thesis
    by (simp add: queue_entry_of_def queue_page_def queue_rows_def QUEUE_READ_LIMIT_def QUEUE_ROW_CAP_def Let_def)
qed

definition long_redis :: "body redis_store" where
  "long_redis = \<lparr>rd_get = (\<lambda>k. None), rd_list = (\<lambda>k. Unreadable # replicate 59 (TaskBody sample_worker_task))\<rparr>"

theorem cut_list_goes_unmarked_witness:
  "length (qe_rows (queue_entry_of (\<lambda>i. Answers) plain_loads (utc_datetime 0) long_redis ''max'' sample_account)) = 50 \<and>
   \<not> qe_capped (queue_entry_of (\<lambda>i. Answers) plain_loads (utc_datetime 0) long_redis ''max'' sample_account)"
proof -
  have tail: "filter (\<lambda>raw. plain_loads raw = None) (take 50 (replicate 59 (TaskBody sample_worker_task))) = []"
    by (simp add: plain_loads_def)
  have "take 51 (Unreadable # replicate 59 (TaskBody sample_worker_task)) =
      Unreadable # take 50 (replicate 59 (TaskBody sample_worker_task))"
    using take_Suc_Cons [of 50 Unreadable] by (simp add: numeral_eq_Suc)
  with tail have "length (filter (\<lambda>raw. plain_loads raw = None) (take 51 (rd_list long_redis k))) = 1" for k
    by (simp add: long_redis_def plain_loads_def)
  then show ?thesis
    using cut_list_goes_unmarked [of long_redis "''max''" sample_account "\<lambda>i. Answers" plain_loads "utc_datetime 0"]
    by (simp add: long_redis_def)
qed

end
