(* ===== verification/Admin_Board.thy ===== *)
theory Admin_Board
  imports Send_Analytics Subscriptions Payment_Intents Ops_State "HOL-Library.Product_Lexorder"
begin

text \<open>
  What the administrator's overview and ledger collect: the board of incidents of
  \<open>app/application/admin/incidents.py\<close>, the counts of
  \<open>app/application/admin/overview_stats.py\<close> and the payments of
  \<open>app/application/admin/payments_query.py\<close>.

  The wording of an incident is kept as the values it prints. Instants are microseconds.
\<close>

section \<open>Incidents\<close>

definition INCIDENT_LIST_CAP :: nat where "INCIDENT_LIST_CAP = 20"
definition FAILURE_SPIKE_WINDOW_MIN :: int where "FAILURE_SPIKE_WINDOW_MIN = 60"
definition FAILURE_SPIKE_MIN_TOTAL :: nat where "FAILURE_SPIKE_MIN_TOTAL = 20"
definition CELERY_BEAT_INTERVAL_SEC :: int where "CELERY_BEAT_INTERVAL_SEC = 30"
definition BEAT_SILENT_MISSED_TICKS :: int where "BEAT_SILENT_MISSED_TICKS = 10"
definition BEAT_SILENT_FLOOR_SEC :: int where "BEAT_SILENT_FLOOR_SEC = 300"

definition beat_silent_overdue_sec :: "int \<Rightarrow> int" where
  "beat_silent_overdue_sec interval = max (interval * BEAT_SILENT_MISSED_TICKS) BEAT_SILENT_FLOOR_SEC"

datatype incident_kind =
    WorkerStuck int
  | AccountDown int string
  | FailureSpike nat nat
  | PaymentStuck int
  | BeatSilent nat int

record incident =
  in_kind :: incident_kind
  in_at :: int
  in_href :: string
  in_subject :: "int option"

record incident_board =
  ib_incidents :: "incident list"
  ib_capped :: bool

record worker_liveness_row =
  wl_account :: int
  wl_queue_depth :: int
  wl_heartbeat_fresh :: bool
  wl_last_seen_at :: "int option"

definition detect_worker_stuck :: "int \<Rightarrow> worker_liveness_row list \<Rightarrow> incident list" where
  "detect_worker_stuck now liveness =
     concat (map (\<lambda>w. if wl_queue_depth w \<le> 0 \<or> wl_heartbeat_fresh w then []
                      else [\<lparr>in_kind = WorkerStuck (wl_queue_depth w),
                             in_at = (case wl_last_seen_at w of None \<Rightarrow> now | Some t \<Rightarrow> t),
                             in_href = ''/admin/workers'', in_subject = Some (wl_account w)\<rparr>])
       (sort_key wl_account liveness))"

definition account_down_status :: "string \<Rightarrow> bool" where
  "account_down_status s \<longleftrightarrow> s = ''disconnected'' \<or> s = ''sync_failed''"

text \<open>The trace of an account is the last send of its user and channel that met a disconnected account.\<close>

definition trace_of :: "db \<Rightarrow> account \<Rightarrow> int option" where
  "trace_of d a =
     (case filter (\<lambda>l. log_status l = ''account_disconnected'' \<and> log_user_id l = acc_user_id a \<and>
                      log_messenger_type l = Some (acc_type a)) (db_send_logs d) of
        [] \<Rightarrow> None
      | l # ls \<Rightarrow> Some (fold (\<lambda>r t. max (log_sent_at r) t) ls (log_sent_at l)))"

definition account_incident :: "int \<Rightarrow> db \<Rightarrow> account \<Rightarrow> incident" where
  "account_incident now d a =
     \<lparr>in_kind = AccountDown (acc_user_id a) (acc_status a),
      in_at = (case trace_of d a of
                 Some t \<Rightarrow> t
               | None \<Rightarrow> (case acc_last_synced_at a of Some t \<Rightarrow> t | None \<Rightarrow> now)),
      in_href = ''/admin/users/'' @ int_str (acc_user_id a), in_subject = Some (acc_id a)\<rparr>"

definition detect_account_down :: "int \<Rightarrow> db \<Rightarrow> account list \<Rightarrow> incident list" where
  "detect_account_down now d accounts =
     map (account_incident now d) (filter (\<lambda>a. account_down_status (acc_status a)) accounts)"

text \<open>\<open>failed / total < 0.30\<close>, on numbers a double holds exactly.\<close>

definition detect_failure_spike :: "int \<Rightarrow> nat \<Rightarrow> nat \<Rightarrow> int option \<Rightarrow> incident option" where
  "detect_failure_spike now sent failed last_failure_at =
     (if sent < FAILURE_SPIKE_MIN_TOTAL then None
      else if 10 * failed < 3 * sent then None
      else Some \<lparr>in_kind = FailureSpike failed sent,
                 in_at = (case last_failure_at of None \<Rightarrow> now | Some t \<Rightarrow> t),
                 in_href = ''/admin/logs?level=error'', in_subject = None\<rparr>)"

definition unclosed_payment :: "payment \<Rightarrow> bool" where
  "unclosed_payment p \<longleftrightarrow> pay_status p \<in> AWAITING_STATUSES"

definition payment_stuck_before :: "int \<Rightarrow> int" where
  "payment_stuck_before now = now - PENDING_INTENT_TTL_HOURS * hour_us"

definition created_instant :: "payment \<Rightarrow> int option" where
  "created_instant p = map_option instant (pay_created_at p)"

text \<open>Newest first; rows made at one moment by their ids.\<close>

definition newest_first :: "payment list \<Rightarrow> payment list" where
  "newest_first ps = sort_key (\<lambda>p. (case created_instant p of None \<Rightarrow> 0 | Some t \<Rightarrow> - t, - pay_id p)) ps"

definition unclosed_payments :: "int \<Rightarrow> nat \<Rightarrow> db \<Rightarrow> payment list" where
  "unclosed_payments moment limit d =
     take limit (newest_first (filter (\<lambda>p. unclosed_payment p \<and>
       (case created_instant p of None \<Rightarrow> False | Some t \<Rightarrow> t \<le> moment)) (db_payments d)))"

definition payment_incident :: "payment \<Rightarrow> incident" where
  "payment_incident p =
     \<lparr>in_kind = PaymentStuck (pay_user_id p), in_at = the (created_instant p), in_href = ''/admin/payments'',
      in_subject = Some (pay_id p)\<rparr>"

definition detect_payment_stuck :: "int \<Rightarrow> payment list \<Rightarrow> incident list" where
  "detect_payment_stuck now payments =
     map payment_incident (filter (\<lambda>p. case created_instant p of
        None \<Rightarrow> False | Some t \<Rightarrow> \<not> payment_stuck_before now < t) payments)"

definition detect_beat_silent :: "int \<Rightarrow> nat \<Rightarrow> int option \<Rightarrow> int \<Rightarrow> incident option" where
  "detect_beat_silent now overdue latest threshold_sec =
     (if overdue = 0 then None
      else Some \<lparr>in_kind = BeatSilent overdue (threshold_sec div 60),
                 in_at = (case latest of None \<Rightarrow> now | Some t \<Rightarrow> t),
                 in_href = ''/admin/workers'', in_subject = None\<rparr>)"

text \<open>The accounts that are down, the last synchronised first, those never synchronised at the end.\<close>

definition down_accounts :: "nat \<Rightarrow> db \<Rightarrow> account list" where
  "down_accounts limit d =
     take limit (sort_key (\<lambda>a. (case acc_last_synced_at a of None \<Rightarrow> (1::int, 0) | Some t \<Rightarrow> (0, - t), - acc_id a))
       (filter (\<lambda>a. account_down_status (acc_status a)) (db_accounts d)))"

definition max_of :: "int list \<Rightarrow> int option" where
  "max_of xs = (case xs of [] \<Rightarrow> None | t # ts \<Rightarrow> Some (fold max ts t))"

definition failed_status :: "send_log \<Rightarrow> bool" where
  "failed_status l \<longleftrightarrow> log_status l = ''fail'' \<or> log_status l = ''account_disconnected''"

definition spike_of :: "int \<Rightarrow> db \<Rightarrow> incident option" where
  "spike_of now d =
     (let logs = filter (\<lambda>l. now - FAILURE_SPIKE_WINDOW_MIN * minute_us \<le> log_sent_at l) (db_send_logs d);
          failures = filter failed_status logs
      in detect_failure_spike now (length logs) (length failures) (max_of (map log_sent_at failures)))"

definition overdue_schedules :: "int \<Rightarrow> int \<Rightarrow> db \<Rightarrow> schedule list" where
  "overdue_schedules now threshold_sec d =
     filter (\<lambda>s. sch_is_active s \<and> (case sch_next_run_at s of
       None \<Rightarrow> False | Some t \<Rightarrow> t < now - threshold_sec * second_us)) (db_schedules d)"

definition beat_of :: "int \<Rightarrow> int \<Rightarrow> db \<Rightarrow> incident option" where
  "beat_of now interval d =
     (let threshold_sec = beat_silent_overdue_sec interval; rows = overdue_schedules now threshold_sec d in
      detect_beat_silent now (length rows) (max_of (List.map_filter sch_next_run_at rows)) threshold_sec)"

definition option_list :: "'a option \<Rightarrow> 'a list" where
  "option_list v = (case v of None \<Rightarrow> [] | Some x \<Rightarrow> [x])"

text \<open>The latest incident first; what happened at one moment in the order of the sources.\<close>

definition collect_incidents :: "int \<Rightarrow> int \<Rightarrow> worker_liveness_row list \<Rightarrow> db \<Rightarrow> incident_board" where
  "collect_incidents now interval liveness d =
     (let down = down_accounts (INCIDENT_LIST_CAP + 1) d;
          payments = unclosed_payments (payment_stuck_before now) (INCIDENT_LIST_CAP + 1) d;
          sources_capped = (INCIDENT_LIST_CAP < length down \<or> INCIDENT_LIST_CAP < length payments);
          incidents = detect_worker_stuck now liveness @ detect_account_down now d down @ option_list (spike_of now d) @
            detect_payment_stuck now payments @ option_list (beat_of now interval d)
      in \<lparr>ib_incidents = take INCIDENT_LIST_CAP (sort_key (\<lambda>i. - in_at i) incidents),
          ib_capped = (INCIDENT_LIST_CAP < length incidents \<or> sources_capped)\<rparr>)"

text \<open>The liveness the overview hands over comes from the snapshot of the workers, without a last beat.\<close>

definition liveness_rows :: "(int \<times> worker_view) list \<Rightarrow> worker_liveness_row list" where
  "liveness_rows views =
     map (\<lambda>(i, depth, fresh). \<lparr>wl_account = i, wl_queue_depth = depth, wl_heartbeat_fresh = fresh, wl_last_seen_at = None\<rparr>)
       (fst (liveness_for_incidents views))"

section \<open>The counts of the overview\<close>

definition NEW_USERS_WINDOW :: int where "NEW_USERS_WINDOW = 7 * day_us"

definition user_totals :: "int \<Rightarrow> db \<Rightarrow> nat \<times> nat" where
  "user_totals now d =
     (length (db_users d), count_where (\<lambda>u. now - NEW_USERS_WINDOW \<le> user_created_at u) (db_users d))"

definition paying_total :: "int \<Rightarrow> db \<Rightarrow> nat" where
  "paying_total now d = count_where (paying_subscription_clauses now) (db_subscriptions d)"

definition account_counts_by_user :: "int list \<Rightarrow> db \<Rightarrow> int \<Rightarrow> nat option" where
  "account_counts_by_user uids d u =
     (let n = count_where (\<lambda>a. acc_user_id a = u) (db_accounts d) in
      if u \<in> set uids \<and> 0 < n then Some n else None)"

definition user_card_counts :: "int \<Rightarrow> db \<Rightarrow> nat \<times> nat" where
  "user_card_counts uid d =
     (count_where (\<lambda>a. ad_user_id a = uid) (db_ads d), count_where (\<lambda>g. grp_user_id g = uid) (db_groups d))"

section \<open>The ledger of payments\<close>

definition PAYMENT_LIST_CAP :: nat where "PAYMENT_LIST_CAP = 200"
definition EXPIRED_LOOKBACK_DAYS :: int where "EXPIRED_LOOKBACK_DAYS = 30"

definition payment_status_filter :: "string option \<Rightarrow> payment \<Rightarrow> bool" where
  "payment_status_filter status p =
     (if status = Some ''succeeded'' then pay_status p = STATUS_SUCCEEDED
      else if status = Some ''canceled'' then pay_status p = STATUS_CANCELED
      else if status = Some ''unclosed'' then unclosed_payment p
      else True)"

definition payment_window :: "string option \<Rightarrow> int option" where
  "payment_window period =
     (if period = Some ''24h'' then Some (24 * hour_us)
      else if period = Some ''7d'' then Some (7 * day_us)
      else if period = Some ''30d'' then Some (30 * day_us) else None)"

definition apply_payment_filters :: "string option \<Rightarrow> string option \<Rightarrow> int \<Rightarrow> payment \<Rightarrow> bool" where
  "apply_payment_filters status period now p \<longleftrightarrow>
     payment_status_filter status p \<and>
     (case payment_window period of
        None \<Rightarrow> True
      | Some w \<Rightarrow> (case created_instant p of None \<Rightarrow> False | Some t \<Rightarrow> now - w < t))"

text \<open>The users counted once whose last subscription ran out within a month and who have not paid since.\<close>

definition expired_not_renewed :: "int \<Rightarrow> db \<Rightarrow> nat" where
  "expired_not_renewed now d =
     (let since = now - EXPIRED_LOOKBACK_DAYS * day_us;
          renewed = (\<lambda>s. list_ex (\<lambda>p. pay_user_id p = sub_user_id s \<and> pay_status p = STATUS_SUCCEEDED \<and>
             (case created_instant p of None \<Rightarrow> False | Some t \<Rightarrow> instant (sub_expires_at s) < t)) (db_payments d))
      in length (remdups (map sub_user_id
           (filter (\<lambda>s. expired_not_renewed_clauses now since s \<and> \<not> renewed s) (db_subscriptions d)))))"

datatype purpose = PurposeSubscription | PurposePackage string | PurposeUnnamedPackage

definition purpose_of :: "string \<Rightarrow> string option \<Rightarrow> purpose" where
  "purpose_of kind package_name =
     (if kind = KIND_SUBSCRIPTION then PurposeSubscription
      else case package_name of
             None \<Rightarrow> PurposeUnnamedPackage
           | Some n \<Rightarrow> if n = [] then PurposeUnnamedPackage else PurposePackage n)"

record ledger_row =
  lr_payment_id :: int
  lr_created_at :: "datetime option"
  lr_user_id :: int
  lr_user_name :: "string option"
  lr_amount_value :: string
  lr_purpose :: purpose
  lr_status :: string

record ledger =
  lg_rows :: "ledger_row list"
  lg_total :: nat
  lg_truncated :: bool
  lg_cap :: nat

definition ledger_row_of :: "db \<Rightarrow> payment \<Rightarrow> ledger_row" where
  "ledger_row_of d p =
     \<lparr>lr_payment_id = pay_id p, lr_created_at = normalize_utc (pay_created_at p), lr_user_id = pay_user_id p,
      lr_user_name = map_option user_name (find_row user_id (pay_user_id p) (db_users d)),
      lr_amount_value = pay_amount_value p, lr_purpose = purpose_of (pay_kind p) (pay_package_name p),
      lr_status = pay_status p\<rparr>"

text \<open>\<open>created_at DESC\<close> puts a missing moment first.\<close>

definition payment_ledger :: "string option \<Rightarrow> string option \<Rightarrow> int \<Rightarrow> db \<Rightarrow> ledger" where
  "payment_ledger status period now d =
     (let ps = filter (apply_payment_filters status period now) (db_payments d);
          ordered = sort_key (\<lambda>p. (case created_instant p of None \<Rightarrow> (0::int, 0) | Some t \<Rightarrow> (1, - t), - pay_id p)) ps
      in \<lparr>lg_rows = map (ledger_row_of d) (take PAYMENT_LIST_CAP ordered), lg_total = length ps,
          lg_truncated = (PAYMENT_LIST_CAP < length ps), lg_cap = PAYMENT_LIST_CAP\<rparr>)"

section \<open>Properties\<close>

text \<open>What there is to report, without any limit.\<close>

definition stuck_payment :: "int \<Rightarrow> payment \<Rightarrow> bool" where
  "stuck_payment now p \<longleftrightarrow>
     unclosed_payment p \<and> (case created_instant p of None \<Rightarrow> False | Some t \<Rightarrow> t \<le> payment_stuck_before now)"

definition all_incidents :: "int \<Rightarrow> int \<Rightarrow> worker_liveness_row list \<Rightarrow> db \<Rightarrow> incident set" where
  "all_incidents now interval liveness d =
     {\<lparr>in_kind = WorkerStuck (wl_queue_depth w), in_at = (case wl_last_seen_at w of None \<Rightarrow> now | Some t \<Rightarrow> t),
       in_href = ''/admin/workers'', in_subject = Some (wl_account w)\<rparr>
       | w. w \<in> set liveness \<and> 0 < wl_queue_depth w \<and> \<not> wl_heartbeat_fresh w} \<union>
     account_incident now d ` {a \<in> set (db_accounts d). account_down_status (acc_status a)} \<union>
     set_option (spike_of now d) \<union>
     payment_incident ` {p \<in> set (db_payments d). stuck_payment now p} \<union>
     set_option (beat_of now interval d)"

lemma set_option_list [simp]: "set (option_list v) = set_option v"
  by (cases v) (simp_all add: option_list_def)

lemma set_worker_stuck:
  "set (detect_worker_stuck now liveness) =
     {\<lparr>in_kind = WorkerStuck (wl_queue_depth w), in_at = (case wl_last_seen_at w of None \<Rightarrow> now | Some t \<Rightarrow> t),
       in_href = ''/admin/workers'', in_subject = Some (wl_account w)\<rparr>
       | w. w \<in> set liveness \<and> 0 < wl_queue_depth w \<and> \<not> wl_heartbeat_fresh w}"
  by (auto simp: detect_worker_stuck_def split: if_splits)

lemma set_down_accounts:
  "set (down_accounts n d) \<subseteq> {a \<in> set (db_accounts d). account_down_status (acc_status a)} \<and>
   (length (down_accounts n d) < n \<longrightarrow> set (down_accounts n d) = {a \<in> set (db_accounts d). account_down_status (acc_status a)})"
  by (auto simp: down_accounts_def dest: in_set_takeD)

lemma set_unclosed_payments:
  "set (unclosed_payments (payment_stuck_before now) n d) \<subseteq> {p \<in> set (db_payments d). stuck_payment now p} \<and>
   (length (unclosed_payments (payment_stuck_before now) n d) < n \<longrightarrow>
      set (unclosed_payments (payment_stuck_before now) n d) = {p \<in> set (db_payments d). stuck_payment now p})"
  by (auto simp: unclosed_payments_def newest_first_def stuck_payment_def dest!: in_set_takeD)

lemma set_account_down:
  "set as \<subseteq> {a. account_down_status (acc_status a)} \<Longrightarrow> set (detect_account_down now d as) = account_incident now d ` set as"
  by (auto simp: detect_account_down_def)

lemma set_payment_stuck:
  "set ps \<subseteq> {p. stuck_payment now p} \<Longrightarrow> set (detect_payment_stuck now ps) = payment_incident ` set ps"
  by (force simp: detect_payment_stuck_def stuck_payment_def split: option.splits)

lemma board_reports:
  shows "set (ib_incidents (collect_incidents now interval liveness d)) \<subseteq> all_incidents now interval liveness d \<and>
    (ib_capped (collect_incidents now interval liveness d) \<or>
       set (ib_incidents (collect_incidents now interval liveness d)) = all_incidents now interval liveness d) \<and>
    sorted (map (\<lambda>i. - in_at i) (ib_incidents (collect_incidents now interval liveness d))) \<and>
    length (ib_incidents (collect_incidents now interval liveness d)) \<le> INCIDENT_LIST_CAP"
proof -
  let ?down = "down_accounts (INCIDENT_LIST_CAP + 1) d"
  let ?pays = "unclosed_payments (payment_stuck_before now) (INCIDENT_LIST_CAP + 1) d"
  define incidents where "incidents = detect_worker_stuck now liveness @ detect_account_down now d ?down @
    option_list (spike_of now d) @ detect_payment_stuck now ?pays @ option_list (beat_of now interval d)"
  have board: "collect_incidents now interval liveness d =
      \<lparr>ib_incidents = take INCIDENT_LIST_CAP (sort_key (\<lambda>i. - in_at i) incidents),
       ib_capped = (INCIDENT_LIST_CAP < length incidents \<or> INCIDENT_LIST_CAP < length ?down \<or> INCIDENT_LIST_CAP < length ?pays)\<rparr>"
    by (simp add: collect_incidents_def Let_def incidents_def)
  note down = set_down_accounts [of "INCIDENT_LIST_CAP + 1" d]
  note pays = set_unclosed_payments [of now "INCIDENT_LIST_CAP + 1" d]
  have set: "set incidents = set (detect_worker_stuck now liveness) \<union> account_incident now d ` set ?down \<union>
      set_option (spike_of now d) \<union> payment_incident ` set ?pays \<union> set_option (beat_of now interval d)"
    using set_account_down [of ?down now d] set_payment_stuck [of ?pays now] down pays
    by (auto simp: incidents_def)
  have sub: "set incidents \<subseteq> all_incidents now interval liveness d"
    unfolding set all_incidents_def set_worker_stuck using down pays by blast
  have all: "set incidents = all_incidents now interval liveness d"
    if "\<not> INCIDENT_LIST_CAP < length ?down" "\<not> INCIDENT_LIST_CAP < length ?pays"
  proof -
    have "set ?down = {a \<in> set (db_accounts d). account_down_status (acc_status a)}"
      "set ?pays = {p \<in> set (db_payments d). stuck_payment now p}" using down pays that by auto
    then show ?thesis unfolding set all_incidents_def set_worker_stuck by (simp only:)
  qed
  show ?thesis
    unfolding board using sub all
    by (auto simp: sorted_wrt_take take_map [symmetric] dest!: in_set_takeD)
qed

lemma board_subset: "set (ib_incidents (collect_incidents now interval liveness d)) \<subseteq> all_incidents now interval liveness d"
  using board_reports by blast

text \<open>
  the board reports only what is so, and says when it is not everything: every incident on it is one
  of the state, the latest come first, at most twenty of them; and when it is not marked as cut, it
  holds every stuck worker, every account that is down, every payment left open, the spike and the
  silence of the planner.
\<close>

theorem board_reports_what_is_so:
  shows "set (ib_incidents (collect_incidents now interval liveness d)) \<subseteq> all_incidents now interval liveness d \<and>
    (ib_capped (collect_incidents now interval liveness d) \<or>
       set (ib_incidents (collect_incidents now interval liveness d)) = all_incidents now interval liveness d) \<and>
    sorted (map (\<lambda>i. - in_at i) (ib_incidents (collect_incidents now interval liveness d))) \<and>
    length (ib_incidents (collect_incidents now interval liveness d)) \<le> INCIDENT_LIST_CAP"
  by (rule board_reports)

lemma payment_incidents_of:
  assumes "i \<in> all_incidents now interval liveness d" "in_kind i = PaymentStuck u"
  obtains p where "p \<in> set (db_payments d)" "stuck_payment now p" "i = payment_incident p"
proof -
  have "in_kind (account_incident now d a) \<noteq> PaymentStuck u" for a by (simp add: account_incident_def)
  moreover have "in_kind j \<noteq> PaymentStuck u" if "spike_of now d = Some j" for j
    using that by (auto simp: spike_of_def detect_failure_spike_def Let_def split: if_splits)
  moreover have "in_kind j \<noteq> PaymentStuck u" if "beat_of now interval d = Some j" for j
    using that by (auto simp: beat_of_def detect_beat_silent_def Let_def split: if_splits)
  ultimately show thesis using assms that by (auto simp: all_incidents_def)
qed

text \<open>
  an incident about a payment leads to the payment: on the page it points to, with the filter of the
  payments in progress, the row of that payment and user is among those listed, unless the list says
  that it is cut.
\<close>

theorem stuck_payment_is_in_the_ledger:
  assumes "i \<in> set (ib_incidents (collect_incidents now interval liveness d))" "in_kind i = PaymentStuck u"
    and "\<not> lg_truncated (payment_ledger (Some ''unclosed'') None later d)"
  shows "in_href i = ''/admin/payments'' \<and>
    (\<exists>r \<in> set (lg_rows (payment_ledger (Some ''unclosed'') None later d)).
       in_subject i = Some (lr_payment_id r) \<and> lr_user_id r = u \<and> lr_status r = STATUS_PENDING)"
proof -
  have "i \<in> all_incidents now interval liveness d" using assms(1) board_subset by blast
  from payment_incidents_of [OF this assms(2)] obtain p where
    p: "p \<in> set (db_payments d)" "stuck_payment now p" "i = payment_incident p" .
  have kind: "pay_user_id p = u" "in_subject i = Some (pay_id p)" "in_href i = ''/admin/payments''"
    using p(3) assms(2) by (simp_all add: payment_incident_def)
  have open_p: "unclosed_payment p" using p(2) by (simp add: stuck_payment_def)
  have "apply_payment_filters (Some ''unclosed'') None later p"
    using open_p by (simp add: apply_payment_filters_def payment_status_filter_def payment_window_def)
  then have "ledger_row_of d p \<in> set (lg_rows (payment_ledger (Some ''unclosed'') None later d))"
    using p(1) assms(3) by (auto simp: payment_ledger_def Let_def)
  moreover have "lr_payment_id (ledger_row_of d p) = pay_id p" "lr_user_id (ledger_row_of d p) = u"
    "lr_status (ledger_row_of d p) = STATUS_PENDING"
    using kind(1) open_p by (simp_all add: ledger_row_of_def unclosed_payment_def AWAITING_STATUSES_def)
  ultimately show ?thesis using kind(2,3) by metis
qed

definition forgotten_payment :: payment where
  "forgotten_payment = \<lparr>pay_id = 4, pay_user_id = 1, pay_yookassa_id = None, pay_status = STATUS_PENDING,
     pay_amount_value = ''990.00'', pay_amount_currency = ''RUB'', pay_kind = KIND_SUBSCRIPTION, pay_plan = None,
     pay_switch_authorized = None, pay_messages_count = None, pay_package_name = None,
     pay_created_at = Some (utc_datetime 0), pay_confirmed_at = None\<rparr>"

definition forgotten_db :: db where
  "forgotten_db = empty_db\<lparr>db_payments := [forgotten_payment]\<rparr>"

theorem stuck_payment_is_in_the_ledger_witness:
  "\<exists>r \<in> set (lg_rows (payment_ledger (Some ''unclosed'') None 0 forgotten_db)).
     Some 4 = Some (lr_payment_id r) \<and> lr_user_id r = 1 \<and> lr_status r = STATUS_PENDING"
proof -
  let ?now = "2 * day_us"
  have stuck: "created_instant forgotten_payment = Some 0" "unclosed_payment forgotten_payment" "0 \<le> payment_stuck_before ?now"
    by (simp_all add: created_instant_def forgotten_payment_def unclosed_payment_def AWAITING_STATUSES_def
        payment_stuck_before_def PENDING_INTENT_TTL_HOURS_def day_us_def hour_us_def)
  have none: "spike_of ?now forgotten_db = None" "beat_of ?now 30 forgotten_db = None" "down_accounts n forgotten_db = []" for n
    by (simp_all add: spike_of_def detect_failure_spike_def FAILURE_SPIKE_MIN_TOTAL_def beat_of_def overdue_schedules_def
        detect_beat_silent_def forgotten_db_def empty_db_def down_accounts_def Let_def)
  have rows: "db_payments forgotten_db = [forgotten_payment]" by (simp add: forgotten_db_def)
  have "payment_incident forgotten_payment \<in> set (ib_incidents (collect_incidents ?now 30 [] forgotten_db))"
    using stuck
    by (simp add: collect_incidents_def none option_list_def detect_worker_stuck_def detect_account_down_def Let_def
        unclosed_payments_def newest_first_def rows detect_payment_stuck_def INCIDENT_LIST_CAP_def)
  moreover have "in_kind (payment_incident forgotten_payment) = PaymentStuck 1"
    "in_subject (payment_incident forgotten_payment) = Some 4"
    by (simp_all add: payment_incident_def forgotten_payment_def)
  moreover have "\<not> lg_truncated (payment_ledger (Some ''unclosed'') None 0 forgotten_db)"
    by (simp add: payment_ledger_def forgotten_db_def empty_db_def PAYMENT_LIST_CAP_def Let_def)
  ultimately show ?thesis
    using stuck_payment_is_in_the_ledger [of "payment_incident forgotten_payment" ?now 30 "[]" forgotten_db 1 0] by simp
qed

text \<open>
  the ledger is counted over everything: the total is the number of payments the filter admits, the
  rows are the first two hundred of them, each of them a payment, and the mark of a cut list is set
  exactly when rows are missing.
\<close>

theorem ledger_counts_everything:
  "lg_total (payment_ledger status period now d) = count_where (apply_payment_filters status period now) (db_payments d) \<and>
   length (lg_rows (payment_ledger status period now d)) = min PAYMENT_LIST_CAP (lg_total (payment_ledger status period now d)) \<and>
   (lg_truncated (payment_ledger status period now d) \<longleftrightarrow>
      length (lg_rows (payment_ledger status period now d)) < lg_total (payment_ledger status period now d)) \<and>
   set (lg_rows (payment_ledger status period now d)) \<subseteq>
     ledger_row_of d ` {p \<in> set (db_payments d). apply_payment_filters status period now p}"
  by (auto simp: payment_ledger_def count_where_def Let_def dest!: in_set_takeD)

end
