(* ===== verification/Worker_Containers.thy ===== *)
theory Worker_Containers
  imports Ops_State
begin

text \<open>
  The containers of the WhatsApp and MAX workers: \<open>app/services/wa_container_manager.py\<close> and
  \<open>app/services/max_container_manager.py\<close>, how the adapters of \<open>app/messengers\<close> find an
  endpoint, the ticks \<open>manage_wa_containers\<close> and \<open>manage_max_containers\<close> of
  \<open>app/worker/tasks.py\<close>, and the calls of the adapters beside sending.

  The Docker daemon is a list of containers; each call may be refused or not reach it, which is the
  argument \<open>docker_io\<close>. A refusal carries its status, and 404 is \<open>NotFound\<close>. Image, memory,
  network and environment of a container are left out. Instants are microseconds.
\<close>

section \<open>Docker\<close>

datatype io_error = DockerAPIError nat | DockerUnreachable | RedisUnreachable

definition not_found :: "io_error \<Rightarrow> bool" where
  "not_found e \<longleftrightarrow> e = DockerAPIError 404"

record container =
  ct_name :: string
  ct_short_id :: string
  ct_status :: string
  ct_role :: string
  ct_account :: "string option"

type_synonym docker = "container list"

text \<open>A container may be created and then fail to start: it stays behind.\<close>

datatype run_answer = RunStarted string | RunRefused io_error | RunNotStarted string io_error

record docker_io =
  dk_get :: "string \<Rightarrow> io_error option"
  dk_remove :: "string \<Rightarrow> io_error option"
  dk_stop :: "string \<Rightarrow> io_error option"
  dk_run :: "string \<Rightarrow> run_answer"
  dk_list :: "io_error option"

definition named :: "string \<Rightarrow> docker \<Rightarrow> container option" where
  "named n dk = List.find (\<lambda>c. ct_name c = n) dk"

definition without :: "string \<Rightarrow> docker \<Rightarrow> docker" where
  "without n dk = filter (\<lambda>c. ct_name c \<noteq> n) dk"

definition docker_get :: "docker_io \<Rightarrow> string \<Rightarrow> docker \<Rightarrow> io_error + container" where
  "docker_get io n dk =
     (case dk_get io n of
        Some e \<Rightarrow> Inl e
      | None \<Rightarrow> (case named n dk of None \<Rightarrow> Inl (DockerAPIError 404) | Some c \<Rightarrow> Inr c))"

text \<open>Removing what somebody else removed is a refusal too.\<close>

definition docker_remove :: "docker_io \<Rightarrow> string \<Rightarrow> docker \<Rightarrow> io_error option \<times> docker" where
  "docker_remove io n dk =
     (case dk_remove io n of
        None \<Rightarrow> (None, without n dk)
      | Some e \<Rightarrow> (Some e, if not_found e then without n dk else dk))"

definition docker_run :: "docker_io \<Rightarrow> string \<Rightarrow> string \<Rightarrow> string \<Rightarrow> docker \<Rightarrow> io_error option \<times> docker" where
  "docker_run io n role account dk =
     (let new = (\<lambda>i st. \<lparr>ct_name = n, ct_short_id = i, ct_status = st, ct_role = role, ct_account = Some account\<rparr>) in
      if named n dk \<noteq> None then (Some (DockerAPIError 409), dk)
      else case dk_run io n of
             RunStarted i \<Rightarrow> (None, dk @ [new i ''running''])
           | RunRefused e \<Rightarrow> (Some e, dk)
           | RunNotStarted i e \<Rightarrow> (Some e, dk @ [new i ''created'']))"

definition docker_stop :: "docker_io \<Rightarrow> string \<Rightarrow> docker \<Rightarrow> io_error option \<times> docker" where
  "docker_stop io n dk =
     (case dk_stop io n of
        Some e \<Rightarrow> (Some e, dk)
      | None \<Rightarrow> (None, map (\<lambda>c. if ct_name c = n then c\<lparr>ct_status := ''exited''\<rparr> else c) dk))"

section \<open>The manager of the WhatsApp containers\<close>

definition WA_PREFIX :: string where "WA_PREFIX = ''wa-worker-''"
definition WA_ROLE :: string where "WA_ROLE = ''wa-worker''"

definition wa_container_name :: "int \<Rightarrow> string" where
  "wa_container_name a = WA_PREFIX @ int_str a"

definition container_endpoint :: "string \<Rightarrow> string" where
  "container_endpoint n = ''http://'' @ n @ '':3000''"

text \<open>What is there and runs is kept; what is there and does not is removed first.\<close>

definition cleared_for_start :: "docker_io \<Rightarrow> string \<Rightarrow> docker \<Rightarrow> (io_error + bool) \<times> docker" where
  "cleared_for_start io n dk =
     (case docker_get io n dk of
        Inl e \<Rightarrow> ((if not_found e then Inr False else Inl e), dk)
      | Inr c \<Rightarrow>
          if ct_status c = ''running'' then (Inr True, dk)
          else (case docker_remove io n dk of
                  (None, dk1) \<Rightarrow> (Inr False, dk1)
                | (Some e, dk1) \<Rightarrow> ((if not_found e then Inr False else Inl e), dk1)))"

definition wa_start_container :: "docker_io \<Rightarrow> int \<Rightarrow> docker \<Rightarrow> (io_error + string option) \<times> docker" where
  "wa_start_container io a dk =
     (let n = wa_container_name a in
      case cleared_for_start io n dk of
        (Inl e, dk1) \<Rightarrow> (Inl e, dk1)
      | (Inr True, dk1) \<Rightarrow> (Inr (Some (container_endpoint n)), dk1)
      | (Inr False, dk1) \<Rightarrow>
          (case docker_run io n WA_ROLE (int_str a) dk1 of
             (None, dk2) \<Rightarrow> (Inr (Some (container_endpoint n)), dk2)
           | (Some (DockerAPIError _), dk2) \<Rightarrow> (Inr None, dk2)
           | (Some e, dk2) \<Rightarrow> (Inl e, dk2)))"

text \<open>Stopping and removing: what is not there is stopped.\<close>

definition stop_named :: "docker_io \<Rightarrow> string \<Rightarrow> docker \<Rightarrow> (io_error + bool) \<times> docker" where
  "stop_named io n dk =
     (let refusal = (\<lambda>e dk'. case e of
                       DockerAPIError code \<Rightarrow> (Inr (code = 404), dk')
                     | _ \<Rightarrow> (Inl e, dk'))
      in case docker_get io n dk of
           Inl e \<Rightarrow> refusal e dk
         | Inr c \<Rightarrow>
             (case docker_stop io n dk of
                (Some e, dk1) \<Rightarrow> refusal e dk1
              | (None, dk1) \<Rightarrow>
                  (case docker_remove io n dk1 of
                     (Some e, dk2) \<Rightarrow> refusal e dk2
                   | (None, dk2) \<Rightarrow> (Inr True, dk2))))"

definition wa_stop_container :: "docker_io \<Rightarrow> int \<Rightarrow> docker \<Rightarrow> (io_error + bool) \<times> docker" where
  "wa_stop_container io a dk = stop_named io (wa_container_name a) dk"

text \<open>The rows of the listing; an empty label is no account, another text raises.\<close>

definition row_of_container :: "container \<Rightarrow> exn + int option \<times> string \<times> string \<times> string" where
  "row_of_container c =
     (case ct_account c of
        Some (x # xs) \<Rightarrow>
          bind_res (of_option ValueError (py_int (x # xs))) (\<lambda>i. Inr (Some i, ct_name c, ct_status c, ct_short_id c))
      | _ \<Rightarrow> Inr (None, ct_name c, ct_status c, ct_short_id c))"

definition list_workers ::
  "docker_io \<Rightarrow> string \<Rightarrow> docker \<Rightarrow> io_error + (exn + (int option \<times> string \<times> string \<times> string) list)" where
  "list_workers io role dk =
     (case dk_list io of
        Some e \<Rightarrow> Inl e
      | None \<Rightarrow> Inr (map_res row_of_container (filter (\<lambda>c. ct_role c = role) dk)))"

definition wa_list_worker_containers ::
  "docker_io \<Rightarrow> docker \<Rightarrow> io_error + (exn + (int option \<times> string \<times> string \<times> string) list)" where
  "wa_list_worker_containers io dk = list_workers io WA_ROLE dk"

text \<open>A refusal is logged and the next container tried; a daemon out of reach ends the loop.\<close>

fun remove_each :: "docker_io \<Rightarrow> container list \<Rightarrow> docker \<Rightarrow> io_error option \<times> docker" where
  "remove_each io [] dk = (None, dk)"
| "remove_each io (c # cs) dk =
     (case docker_remove io (ct_name c) dk of
        (None, dk1) \<Rightarrow> remove_each io cs dk1
      | (Some (DockerAPIError _), dk1) \<Rightarrow> remove_each io cs dk1
      | (Some e, dk1) \<Rightarrow> (Some e, dk1))"

definition cleanup_exited :: "docker_io \<Rightarrow> string \<Rightarrow> docker \<Rightarrow> io_error option \<times> docker" where
  "cleanup_exited io role dk =
     (case dk_list io of
        Some e \<Rightarrow> (Some e, dk)
      | None \<Rightarrow> remove_each io (filter (\<lambda>c. ct_role c = role \<and> ct_status c = ''exited'') dk) dk)"

definition wa_cleanup_exited_containers :: "docker_io \<Rightarrow> docker \<Rightarrow> io_error option \<times> docker" where
  "wa_cleanup_exited_containers io dk = cleanup_exited io WA_ROLE dk"

definition endpoint_of_running :: "docker_io \<Rightarrow> string \<Rightarrow> docker \<Rightarrow> io_error + string option" where
  "endpoint_of_running io n dk =
     (case docker_get io n dk of
        Inl e \<Rightarrow> if not_found e then Inr None else Inl e
      | Inr c \<Rightarrow> Inr (if ct_status c = ''running'' then Some (container_endpoint n) else None))"

definition wa_get_container_endpoint :: "docker_io \<Rightarrow> int \<Rightarrow> docker \<Rightarrow> io_error + string option" where
  "wa_get_container_endpoint io a dk = endpoint_of_running io (wa_container_name a) dk"

text \<open>
  Waiting for the health check: \<open>clock k\<close> is the reading of the monotonic clock before check
  \<open>k\<close>, \<open>healthy k\<close> whether that check is answered with 200. The loop is run on fuel.
\<close>

definition READY_TIMEOUT :: int where "READY_TIMEOUT = 30000000"
definition READY_INTERVAL :: int where "READY_INTERVAL = 1000000"

fun ready_loop :: "(nat \<Rightarrow> bool) \<Rightarrow> (nat \<Rightarrow> int) \<Rightarrow> int \<Rightarrow> nat \<Rightarrow> nat \<Rightarrow> bool option" where
  "ready_loop healthy clock deadline k 0 = None"
| "ready_loop healthy clock deadline k (Suc fuel) =
     (if \<not> clock k < deadline then Some False
      else if healthy k then Some True
      else ready_loop healthy clock deadline (Suc k) fuel)"

definition wait_for_container_ready :: "(nat \<Rightarrow> bool) \<Rightarrow> (nat \<Rightarrow> int) \<Rightarrow> int \<Rightarrow> nat \<Rightarrow> bool option" where
  "wait_for_container_ready healthy clock entered fuel =
     ready_loop healthy clock (entered + READY_TIMEOUT) 0 fuel"

section \<open>The manager of the MAX containers\<close>

definition MAX_PREFIX :: string where "MAX_PREFIX = ''max-worker-''"
definition MAX_ROLE :: string where "MAX_ROLE = ''max-worker''"
definition HEARTBEAT_STALE_SEC :: int where "HEARTBEAT_STALE_SEC = 90"

definition max_container_name :: "int \<Rightarrow> string" where
  "max_container_name a = MAX_PREFIX @ int_str a"

text \<open>A name that is taken at once is another start of the same container.\<close>

definition max_start_container :: "docker_io \<Rightarrow> int \<Rightarrow> docker \<Rightarrow> (io_error + string option) \<times> docker" where
  "max_start_container io a dk =
     (let n = max_container_name a in
      case cleared_for_start io n dk of
        (Inl e, dk1) \<Rightarrow> (Inl e, dk1)
      | (Inr True, dk1) \<Rightarrow> (Inr (Some (container_endpoint n)), dk1)
      | (Inr False, dk1) \<Rightarrow>
          (case docker_run io n MAX_ROLE (int_str a) dk1 of
             (None, dk2) \<Rightarrow> (Inr (Some (container_endpoint n)), dk2)
           | (Some (DockerAPIError code), dk2) \<Rightarrow>
               (Inr (if code = 409 then Some (container_endpoint n) else None), dk2)
           | (Some e, dk2) \<Rightarrow> (Inl e, dk2)))"

definition max_stop_container :: "docker_io \<Rightarrow> int \<Rightarrow> docker \<Rightarrow> (io_error + bool) \<times> docker" where
  "max_stop_container io a dk = stop_named io (max_container_name a) dk"

definition max_list_worker_containers ::
  "docker_io \<Rightarrow> docker \<Rightarrow> io_error + (exn + (int option \<times> string \<times> string \<times> string) list)" where
  "max_list_worker_containers io dk = list_workers io MAX_ROLE dk"

definition max_cleanup_exited_containers :: "docker_io \<Rightarrow> docker \<Rightarrow> io_error option \<times> docker" where
  "max_cleanup_exited_containers io dk = cleanup_exited io MAX_ROLE dk"

definition max_get_container_endpoint :: "docker_io \<Rightarrow> int \<Rightarrow> docker \<Rightarrow> io_error + string option" where
  "max_get_container_endpoint io a dk = endpoint_of_running io (max_container_name a) dk"

definition has_fresh_heartbeat :: "int \<Rightarrow> string option \<Rightarrow> bool" where
  "has_fresh_heartbeat now heartbeat =
     (case heartbeat of
        None \<Rightarrow> False
      | Some raw \<Rightarrow>
          (case py_int raw of
             None \<Rightarrow> False
           | Some ms \<Rightarrow> 0 \<le> now div 1000 - ms \<and> now div 1000 - ms \<le> HEARTBEAT_STALE_SEC * 1000))"

text \<open>The container of an account with work; the heartbeat is read only of one that runs.\<close>

definition ensure_container_for_pending_work ::
  "docker_io \<Rightarrow> int \<Rightarrow> io_error + string option \<Rightarrow> int \<Rightarrow> docker \<Rightarrow> (io_error + string option) \<times> docker" where
  "ensure_container_for_pending_work io now heartbeat a dk =
     (let n = max_container_name a in
      case docker_get io n dk of
        Inl e \<Rightarrow> if not_found e then max_start_container io a dk else (Inl e, dk)
      | Inr c \<Rightarrow>
          if ct_status c \<noteq> ''running'' then max_start_container io a dk
          else (case heartbeat of
                  Inl e \<Rightarrow> (Inl e, dk)
                | Inr beat \<Rightarrow>
                    if has_fresh_heartbeat now beat then (Inr (Some (container_endpoint n)), dk)
                    else (case max_stop_container io a dk of
                            (Inl e, dk1) \<Rightarrow> (Inl e, dk1)
                          | (Inr False, dk1) \<Rightarrow> (Inr None, dk1)
                          | (Inr True, dk1) \<Rightarrow> max_start_container io a dk1)))"

section \<open>How an adapter finds its endpoint\<close>

text \<open>
  An entry of the store of endpoints has the instant it expires at; \<open>ready\<close> is what waiting
  for the container gives.
\<close>

type_synonym endpoints = "int \<rightharpoonup> string \<times> int"

definition cached_endpoint :: "int \<Rightarrow> endpoints \<Rightarrow> int \<Rightarrow> string option" where
  "cached_endpoint now es a =
     (case es a of None \<Rightarrow> None | Some (ep, expires) \<Rightarrow> if now < expires then Some ep else None)"

definition ensure_wa_container ::
  "docker_io \<Rightarrow> bool \<Rightarrow> bool \<Rightarrow> int \<Rightarrow> endpoints \<Rightarrow> int \<Rightarrow> docker \<Rightarrow> (io_error + string option) \<times> docker" where
  "ensure_wa_container io ready_before ready_after now es a dk =
     (let cached = cached_endpoint now es a in
      case wa_get_container_endpoint io a dk of
        Inl e \<Rightarrow> (Inl e, dk)
      | Inr running \<Rightarrow>
          if cached \<noteq> None \<and> cached \<noteq> Some '''' \<and> running \<noteq> None \<and> ready_before then (Inr running, dk)
          else (case wa_start_container io a dk of
                  (Inl e, dk1) \<Rightarrow> (Inl e, dk1)
                | (Inr ep, dk1) \<Rightarrow> (Inr (if ep \<noteq> None \<and> ready_after then ep else None), dk1)))"

definition ensure_max_container ::
  "docker_io \<Rightarrow> bool \<Rightarrow> int \<Rightarrow> endpoints \<Rightarrow> int \<Rightarrow> docker \<Rightarrow> (io_error + string option) \<times> docker" where
  "ensure_max_container io came_up now es a dk =
     (case cached_endpoint now es a of
        Some (c # cs) \<Rightarrow> (Inr (Some (c # cs)), dk)
      | _ \<Rightarrow>
          (case max_start_container io a dk of
             (Inl e, dk1) \<Rightarrow> (Inl e, dk1)
           | (Inr ep, dk1) \<Rightarrow> (Inr (if ep \<noteq> None \<and> came_up then ep else ep), dk1)))"

section \<open>The ticks that keep the containers\<close>

record fleet =
  fl_channel :: channel
  fl_endpoints :: endpoints
  fl_docker :: docker

text \<open>Which calls to Redis are answered: the members, the length, and the writes of an account.\<close>

record redis_io =
  rq_members :: bool
  rq_llen :: "int \<Rightarrow> bool"
  rq_beat :: "int \<Rightarrow> io_error + string option"
  rq_set :: "int \<Rightarrow> bool"
  rq_srem :: "int \<Rightarrow> bool"
  rq_delete :: "int \<Rightarrow> bool"

definition ENDPOINT_TTL :: int where "ENDPOINT_TTL = 420000000"

definition set_endpoint :: "redis_io \<Rightarrow> int \<Rightarrow> int \<Rightarrow> string \<Rightarrow> fleet \<Rightarrow> io_error option \<times> fleet" where
  "set_endpoint rq now a ep s =
     (if rq_set rq a then (None, s\<lparr>fl_endpoints := (fl_endpoints s)(a \<mapsto> (ep, now + ENDPOINT_TTL))\<rparr>)
      else (Some RedisUnreachable, s))"

definition delete_endpoint :: "redis_io \<Rightarrow> int \<Rightarrow> fleet \<Rightarrow> io_error option \<times> fleet" where
  "delete_endpoint rq a s =
     (if rq_delete rq a then (None, s\<lparr>fl_endpoints := (fl_endpoints s)(a := None)\<rparr>) else (Some RedisUnreachable, s))"

definition forget_account :: "redis_io \<Rightarrow> int \<Rightarrow> fleet \<Rightarrow> io_error option \<times> fleet" where
  "forget_account rq a s =
     (if rq_srem rq a
      then delete_endpoint rq a
             (s\<lparr>fl_channel := (fl_channel s)\<lparr>ch_active := ch_active (fl_channel s) - {a}\<rparr>\<rparr>)
      else (Some RedisUnreachable, s))"

text \<open>What a tick does for one account, given the length it read.\<close>

definition wa_account_step :: "docker_io \<Rightarrow> redis_io \<Rightarrow> int \<Rightarrow> int \<Rightarrow> nat \<Rightarrow> fleet \<Rightarrow> io_error option \<times> fleet" where
  "wa_account_step io rq now a queue_len s =
     (if 0 < queue_len then
        (case wa_start_container io a (fl_docker s) of
           (Inl e, dk) \<Rightarrow> (Some e, s\<lparr>fl_docker := dk\<rparr>)
         | (Inr None, dk) \<Rightarrow> (None, s\<lparr>fl_docker := dk\<rparr>)
         | (Inr (Some ep), dk) \<Rightarrow> set_endpoint rq now a ep (s\<lparr>fl_docker := dk\<rparr>))
      else forget_account rq a s)"

definition max_account_step :: "docker_io \<Rightarrow> redis_io \<Rightarrow> int \<Rightarrow> int \<Rightarrow> nat \<Rightarrow> fleet \<Rightarrow> io_error option \<times> fleet" where
  "max_account_step io rq now a queue_len s =
     (if 0 < queue_len then
        (case ensure_container_for_pending_work io now (rq_beat rq a) a (fl_docker s) of
           (Inl e, dk) \<Rightarrow> (Some e, s\<lparr>fl_docker := dk\<rparr>)
         | (Inr None, dk) \<Rightarrow> delete_endpoint rq a (s\<lparr>fl_docker := dk\<rparr>)
         | (Inr (Some ep), dk) \<Rightarrow> set_endpoint rq now a ep (s\<lparr>fl_docker := dk\<rparr>))
      else forget_account rq a s)"

fun each_account ::
  "(int \<Rightarrow> nat \<Rightarrow> fleet \<Rightarrow> io_error option \<times> fleet) \<Rightarrow> redis_io \<Rightarrow> int list \<Rightarrow> fleet \<Rightarrow> io_error option \<times> fleet" where
  "each_account step rq [] s = (None, s)"
| "each_account step rq (a # as) s =
     (if \<not> rq_llen rq a then (Some RedisUnreachable, s)
      else case step a (length (ch_queue (fl_channel s) a)) s of
             (Some e, s1) \<Rightarrow> (Some e, s1)
           | (None, s1) \<Rightarrow> each_account step rq as s1)"

text \<open>
  The ticks: \<open>members\<close> are the accounts Redis lists, in its order. Whatever is raised is logged
  and ends the tick; the value tells it.
\<close>

definition after_accounts :: "(docker \<Rightarrow> io_error option \<times> docker) \<Rightarrow> io_error option \<times> fleet \<Rightarrow> io_error option \<times> fleet" where
  "after_accounts cleanup r =
     (case r of
        (Some e, s) \<Rightarrow> (Some e, s)
      | (None, s) \<Rightarrow> (case cleanup (fl_docker s) of (err, dk) \<Rightarrow> (err, s\<lparr>fl_docker := dk\<rparr>)))"

definition manage_wa_containers :: "docker_io \<Rightarrow> redis_io \<Rightarrow> int \<Rightarrow> int list \<Rightarrow> fleet \<Rightarrow> io_error option \<times> fleet" where
  "manage_wa_containers io rq now members s =
     (if \<not> rq_members rq then (Some RedisUnreachable, s)
      else after_accounts (wa_cleanup_exited_containers io) (each_account (wa_account_step io rq now) rq members s))"

definition manage_max_containers :: "docker_io \<Rightarrow> redis_io \<Rightarrow> int \<Rightarrow> int list \<Rightarrow> fleet \<Rightarrow> io_error option \<times> fleet" where
  "manage_max_containers io rq now members s =
     (if \<not> rq_members rq then (Some RedisUnreachable, s)
      else after_accounts (max_cleanup_exited_containers io) (each_account (max_account_step io rq now) rq members s))"

section \<open>The other calls of the adapters\<close>

text \<open>
  The answer of a bridge: an exception (its type and text), or a code with what parsing the body
  gives. Reaching the endpoint is part of the call.
\<close>

datatype http_answer = HttpRaised string string | HttpAnswer nat "exn + pyval"

datatype fetched = Fetched pyval | FetchError string | FetchRaised exn

definition wa_get_groups :: "http_answer \<Rightarrow> fetched" where
  "wa_get_groups r =
     (case r of
        HttpRaised name txt \<Rightarrow> FetchError (name @ '': '' @ txt)
      | HttpAnswer code body \<Rightarrow>
          if code \<noteq> 200 then FetchError (''HTTP '' @ nat_str code)
          else (case body of Inl e \<Rightarrow> FetchRaised e | Inr v \<Rightarrow> Fetched v))"

text \<open>The body of a good answer; what else happens is told by the value given for it.\<close>

definition body_or :: "'a \<Rightarrow> (pyval \<Rightarrow> exn + 'a) \<Rightarrow> http_answer \<Rightarrow> 'a" where
  "body_or other read r =
     (case r of
        HttpRaised name txt \<Rightarrow> other
      | HttpAnswer code body \<Rightarrow>
          if code \<noteq> 200 then other else (case bind_res body read of Inl e \<Rightarrow> other | Inr v \<Rightarrow> v))"

definition wa_check_connection :: "http_answer \<Rightarrow> pyval" where
  "wa_check_connection r = body_or (PBool False) (\<lambda>b. py_get b ''connected'' (PBool False)) r"

definition wa_get_group_details :: "http_answer \<Rightarrow> pyval" where
  "wa_get_group_details r = body_or PNone Inr r"

definition wa_get_sync_status :: "http_answer \<Rightarrow> pyval" where
  "wa_get_sync_status r = body_or (PDict [(''state'', PStr ''error''), (''groups'', PNone)]) Inr r"

definition wa_retry_sync :: "http_answer \<Rightarrow> pyval" where
  "wa_retry_sync r = body_or (PDict [(''status'', PStr ''error'')]) Inr r"

definition code_is_200 :: "http_answer \<Rightarrow> bool" where
  "code_is_200 r = (case r of HttpRaised name txt \<Rightarrow> False | HttpAnswer code body \<Rightarrow> code = 200)"

definition wa_start_session :: "http_answer \<Rightarrow> bool" where "wa_start_session r = code_is_200 r"
definition wa_destroy_session :: "http_answer \<Rightarrow> bool" where "wa_destroy_session r = code_is_200 r"

definition wa_get_qr :: "http_answer \<Rightarrow> pyval" where
  "wa_get_qr r = body_or (PDict [(''status'', PStr ''error''), (''qr'', PNone)]) Inr r"

definition max_get_groups :: "http_answer \<Rightarrow> fetched" where
  "max_get_groups r =
     (case r of
        HttpRaised name txt \<Rightarrow> FetchError (name @ '': '' @ txt)
      | HttpAnswer code body \<Rightarrow>
          if code \<noteq> 200 then FetchError (''HTTP '' @ nat_str code)
          else (case body of Inl e \<Rightarrow> FetchRaised e | Inr v \<Rightarrow> Fetched v))"

definition max_check_connection :: "http_answer \<Rightarrow> pyval" where
  "max_check_connection r = body_or (PBool False) (\<lambda>b. py_get b ''connected'' (PBool False)) r"

definition max_get_sync_status :: "http_answer \<Rightarrow> pyval" where
  "max_get_sync_status r = body_or (PDict [(''state'', PStr ''error''), (''groups'', PNone)]) Inr r"

definition max_retry_sync :: "http_answer \<Rightarrow> pyval" where
  "max_retry_sync r = body_or (PDict [(''status'', PStr ''error'')]) Inr r"

text \<open>The payload of a start holds the phone where there is one.\<close>

definition max_start_payload :: "string \<Rightarrow> (string \<times> string) list" where
  "max_start_payload phone = (if phone = [] then [] else [(''phone'', phone)])"

definition max_start_session :: "(((string \<times> string) list) \<Rightarrow> http_answer) \<Rightarrow> string \<Rightarrow> bool" where
  "max_start_session post phone = code_is_200 (post (max_start_payload phone))"

definition max_destroy_session :: "http_answer \<Rightarrow> bool" where "max_destroy_session r = code_is_200 r"

definition max_get_qr :: "http_answer \<Rightarrow> pyval" where
  "max_get_qr r = body_or (PDict [(''status'', PStr ''error''), (''qr'', PNone)]) Inr r"

section \<open>Names and single containers\<close>

lemma named_Some: "named n dk = Some c \<Longrightarrow> c \<in> set dk \<and> ct_name c = n"
  by (auto simp: named_def find_Some_iff)

lemma named_None: "named n dk = None \<longleftrightarrow> n \<notin> ct_name ` set dk"
  by (auto simp: named_def find_None_iff)

lemma named_append: "named n (xs @ ys) = (case named n xs of None \<Rightarrow> named n ys | Some c \<Rightarrow> Some c)"
  by (induction xs) (auto simp: named_def)

lemma named_without [simp]: "named n (without m dk) = (if n = m then None else named n dk)"
  by (induction dk) (auto simp: named_def without_def)

lemma without_idem [simp]: "without n (without n dk) = without n dk"
  by (simp add: without_def)

lemma without_append [simp]: "without n (xs @ ys) = without n xs @ without n ys"
  by (simp add: without_def)

lemma without_stopped:
  "without n (map (\<lambda>c. if ct_name c = n then c\<lparr>ct_status := st\<rparr> else c) dk) = without n dk"
  by (induction dk) (auto simp: without_def)

lemma same_without_named:
  assumes "without n dk' = without n dk" "m \<noteq> n"
  shows "named m dk' = named m dk"
  using assms named_without [of m n dk] named_without [of m n dk'] by simp

lemma wa_name_inj [simp]: "wa_container_name a = wa_container_name b \<longleftrightarrow> a = b"
  by (auto simp: wa_container_name_def dest: int_str_inj)

lemma max_name_inj [simp]: "max_container_name a = max_container_name b \<longleftrightarrow> a = b"
  by (auto simp: max_container_name_def dest: int_str_inj)

lemma wa_name_not_max [simp]: "wa_container_name a \<noteq> max_container_name b"
  by (simp add: wa_container_name_def max_container_name_def WA_PREFIX_def MAX_PREFIX_def)

text \<open>Every call for a name leaves the other containers as they are, and names stay distinct.\<close>

named_theorems frame_rules \<open>what a call for one name leaves alone\<close>

lemma docker_frame [frame_rules]:
  "docker_remove io n dk = (e, dk') \<Longrightarrow> without n dk' = without n dk"
  "docker_run io n role acc dk = (e, dk') \<Longrightarrow> without n dk' = without n dk"
  "docker_stop io n dk = (e, dk') \<Longrightarrow> without n dk' = without n dk"
  by (auto simp: docker_remove_def docker_run_def docker_stop_def Let_def without_stopped split: option.splits if_splits run_answer.splits)
     (auto simp: without_def)

lemma names_stopped: "map ct_name (map (\<lambda>c. if ct_name c = n then c\<lparr>ct_status := st\<rparr> else c) dk) = map ct_name dk"
  by (induction dk) auto

lemma docker_names:
  "docker_remove io n dk = (e, dk') \<Longrightarrow> distinct (map ct_name dk) \<Longrightarrow> distinct (map ct_name dk')"
  "docker_run io n role acc dk = (e, dk') \<Longrightarrow> distinct (map ct_name dk) \<Longrightarrow> distinct (map ct_name dk')"
  "docker_stop io n dk = (e, dk') \<Longrightarrow> distinct (map ct_name dk) \<Longrightarrow> distinct (map ct_name dk')"
proof -
  show "docker_remove io n dk = (e, dk') \<Longrightarrow> distinct (map ct_name dk) \<Longrightarrow> distinct (map ct_name dk')"
    by (auto simp: docker_remove_def without_def distinct_map_filter split: option.splits if_splits)
  show "docker_run io n role acc dk = (e, dk') \<Longrightarrow> distinct (map ct_name dk) \<Longrightarrow> distinct (map ct_name dk')"
    by (auto simp: docker_run_def Let_def named_None split: option.splits if_splits run_answer.splits)
  show "docker_stop io n dk = (e, dk') \<Longrightarrow> distinct (map ct_name dk) \<Longrightarrow> distinct (map ct_name dk')"
    by (auto simp: docker_stop_def names_stopped simp del: map_map split: option.splits)
qed

lemma cleared_frame [frame_rules]: "cleared_for_start io n dk = (r, dk') \<Longrightarrow> without n dk' = without n dk"
  by (auto simp: cleared_for_start_def dest!: docker_frame(1) split: sum.splits option.splits prod.splits if_splits)

lemma cleared_names: "cleared_for_start io n dk = (r, dk') \<Longrightarrow> distinct (map ct_name dk) \<Longrightarrow> distinct (map ct_name dk')"
  by (auto simp: cleared_for_start_def dest!: docker_names(1) split: sum.splits option.splits prod.splits if_splits)

lemma wa_start_frame [frame_rules]:
  "wa_start_container io a dk = (r, dk') \<Longrightarrow> without (wa_container_name a) dk' = without (wa_container_name a) dk"
  by (auto simp: wa_start_container_def Let_def dest!: cleared_frame docker_frame(2)
      split: prod.splits sum.splits bool.splits option.splits io_error.splits)

lemma wa_start_names:
  "wa_start_container io a dk = (r, dk') \<Longrightarrow> distinct (map ct_name dk) \<Longrightarrow> distinct (map ct_name dk')"
  by (auto simp: wa_start_container_def Let_def dest!: cleared_names docker_names(2)
      split: prod.splits sum.splits bool.splits option.splits io_error.splits)

lemma max_start_frame [frame_rules]:
  "max_start_container io a dk = (r, dk') \<Longrightarrow> without (max_container_name a) dk' = without (max_container_name a) dk"
  by (auto simp: max_start_container_def Let_def dest!: cleared_frame docker_frame(2)
      split: prod.splits sum.splits bool.splits option.splits io_error.splits)

lemma max_start_names:
  "max_start_container io a dk = (r, dk') \<Longrightarrow> distinct (map ct_name dk) \<Longrightarrow> distinct (map ct_name dk')"
  by (auto simp: max_start_container_def Let_def dest!: cleared_names docker_names(2)
      split: prod.splits sum.splits bool.splits option.splits io_error.splits)

lemma stop_frame [frame_rules]: "stop_named io n dk = (r, dk') \<Longrightarrow> without n dk' = without n dk"
  by (auto simp: stop_named_def Let_def dest!: docker_frame(1,3)
      split: prod.splits sum.splits option.splits io_error.splits)

lemma stop_names: "stop_named io n dk = (r, dk') \<Longrightarrow> distinct (map ct_name dk) \<Longrightarrow> distinct (map ct_name dk')"
  by (auto simp: stop_named_def Let_def dest!: docker_names(1,3)
      split: prod.splits sum.splits option.splits io_error.splits)

lemma ensure_frame [frame_rules]:
  "ensure_container_for_pending_work io now beat a dk = (r, dk') \<Longrightarrow>
     without (max_container_name a) dk' = without (max_container_name a) dk"
  by (auto simp: ensure_container_for_pending_work_def max_stop_container_def Let_def dest!: max_start_frame stop_frame
      split: prod.splits sum.splits bool.splits if_splits)

lemma ensure_names:
  "ensure_container_for_pending_work io now beat a dk = (r, dk') \<Longrightarrow> distinct (map ct_name dk) \<Longrightarrow> distinct (map ct_name dk')"
  by (auto simp: ensure_container_for_pending_work_def max_stop_container_def Let_def dest!: max_start_names stop_names
      split: prod.splits sum.splits bool.splits if_splits)

section \<open>A daemon and a store that answer\<close>

definition runs :: "string \<Rightarrow> docker \<Rightarrow> bool" where
  "runs n dk \<longleftrightarrow> (case named n dk of None \<Rightarrow> False | Some c \<Rightarrow> ct_status c = ''running'')"

definition quiet_docker :: "docker_io \<Rightarrow> bool" where
  "quiet_docker io \<longleftrightarrow> dk_list io = None \<and>
     (\<forall>n. dk_get io n = None \<and> dk_remove io n = None \<and> dk_stop io n = None \<and> (\<exists>i. dk_run io n = RunStarted i))"

definition quiet_redis :: "redis_io \<Rightarrow> bool" where
  "quiet_redis rq \<longleftrightarrow> rq_members rq \<and>
     (\<forall>a. rq_llen rq a \<and> rq_set rq a \<and> rq_srem rq a \<and> rq_delete rq a \<and> (\<exists>b. rq_beat rq a = Inr b))"

lemma runs_simps [simp]:
  "runs n (without n dk) = False"
  "m \<noteq> n \<Longrightarrow> runs m (without n dk) = runs m dk"
  by (simp_all add: runs_def)

lemma run_quiet:
  assumes "quiet_docker io" "named n dk = None"
  shows "\<exists>dk'. docker_run io n role acc dk = (None, dk') \<and> runs n dk'"
proof -
  obtain i where "dk_run io n = RunStarted i" using assms(1) by (auto simp: quiet_docker_def)
  then show ?thesis by (simp add: docker_run_def Let_def assms(2) runs_def named_append) (simp add: named_def)
qed

lemma without_absent: "named n dk = None \<Longrightarrow> without n dk = dk"
  by (auto simp: named_None without_def intro!: filter_True)

lemma cleared_quiet:
  assumes "quiet_docker io"
  shows "cleared_for_start io n dk = (if runs n dk then (Inr True, dk) else (Inr False, without n dk))"
  using assms
  by (auto simp: quiet_docker_def cleared_for_start_def docker_get_def docker_remove_def runs_def not_found_def without_absent
      split: option.splits)

lemma wa_start_quiet:
  assumes "quiet_docker io"
  shows "\<exists>dk'. wa_start_container io a dk = (Inr (Some (container_endpoint (wa_container_name a))), dk') \<and>
    runs (wa_container_name a) dk' \<and> (runs (wa_container_name a) dk \<longrightarrow> dk' = dk)"
  using run_quiet [OF assms, of "wa_container_name a" "without (wa_container_name a) dk" WA_ROLE "int_str a"]
  by (auto simp: wa_start_container_def Let_def cleared_quiet [OF assms])

lemma max_start_quiet:
  assumes "quiet_docker io"
  shows "\<exists>dk'. max_start_container io a dk = (Inr (Some (container_endpoint (max_container_name a))), dk') \<and>
    runs (max_container_name a) dk' \<and> (runs (max_container_name a) dk \<longrightarrow> dk' = dk)"
  using run_quiet [OF assms, of "max_container_name a" "without (max_container_name a) dk" MAX_ROLE "int_str a"]
  by (auto simp: max_start_container_def Let_def cleared_quiet [OF assms])

lemma stop_quiet: "quiet_docker io \<Longrightarrow> fst (stop_named io n dk) = Inr True"
  by (auto simp: quiet_docker_def stop_named_def docker_get_def docker_stop_def docker_remove_def Let_def split: option.splits)

lemma ensure_quiet:
  assumes "quiet_docker io"
  shows "\<exists>dk'. ensure_container_for_pending_work io now (Inr beat) a dk =
      (Inr (Some (container_endpoint (max_container_name a))), dk') \<and> runs (max_container_name a) dk' \<and>
      (runs (max_container_name a) dk \<and> has_fresh_heartbeat now beat \<longrightarrow> dk' = dk)"
proof -
  let ?n = "max_container_name a"
  obtain dk1 where stop: "max_stop_container io a dk = (Inr True, dk1)"
    using stop_quiet [OF assms, of ?n dk] by (cases "stop_named io ?n dk") (simp add: max_stop_container_def)
  have get: "docker_get io ?n dk = (case named ?n dk of None \<Rightarrow> Inl (DockerAPIError 404) | Some c \<Rightarrow> Inr c)"
    using assms by (simp add: quiet_docker_def docker_get_def)
  show ?thesis
    using max_start_quiet [OF assms, of a dk] max_start_quiet [OF assms, of a dk1]
    by (cases "named ?n dk") (auto simp: ensure_container_for_pending_work_def Let_def get stop not_found_def runs_def)
qed

lemma remove_each_quiet:
  assumes "quiet_docker io"
  shows "remove_each io cs dk = (None, filter (\<lambda>c. ct_name c \<notin> ct_name ` set cs) dk)"
proof (induction cs arbitrary: dk)
  case (Cons c cs)
  with assms show ?case by (auto simp: quiet_docker_def docker_remove_def without_def intro: filter_cong)
qed simp

lemma cleanup_quiet:
  assumes "quiet_docker io" "distinct (map ct_name dk)"
  shows "cleanup_exited io role dk = (None, filter (\<lambda>c. \<not> (ct_role c = role \<and> ct_status c = ''exited'')) dk)"
proof -
  have "ct_name c \<notin> ct_name ` set (filter (\<lambda>c. ct_role c = role \<and> ct_status c = ''exited'') dk) \<longleftrightarrow>
      \<not> (ct_role c = role \<and> ct_status c = ''exited'')" if "c \<in> set dk" for c
    using that assms(2) by (auto simp: distinct_map inj_on_def)
  then have "filter (\<lambda>c. ct_name c \<notin> ct_name ` set (filter (\<lambda>c. ct_role c = role \<and> ct_status c = ''exited'') dk)) dk =
      filter (\<lambda>c. \<not> (ct_role c = role \<and> ct_status c = ''exited'')) dk"
    by (rule filter_cong [OF refl])
  moreover have "dk_list io = None" using assms(1) by (simp add: quiet_docker_def)
  ultimately show ?thesis
    by (simp only: cleanup_exited_def remove_each_quiet [OF assms(1)] option.case)
qed

lemma named_filter:
  "distinct (map ct_name dk) \<Longrightarrow>
     named n (filter P dk) = (case named n dk of None \<Rightarrow> None | Some c \<Rightarrow> if P c then Some c else None)"
proof (induction dk)
  case (Cons c dk)
  show ?case
  proof (cases "ct_name c = n")
    case True
    with Cons.prems have "named n (filter P dk) = None" by (auto simp: named_None)
    with True show ?thesis by (simp add: named_def)
  next
    case False
    with Cons show ?thesis by (simp add: named_def)
  qed
qed (simp add: named_def)

lemma runs_cleanup:
  "distinct (map ct_name dk) \<Longrightarrow>
     runs n (filter (\<lambda>c. \<not> (ct_role c = role \<and> ct_status c = ''exited'')) dk) = runs n dk"
  by (auto simp: runs_def named_filter split: option.splits)

section \<open>A tick over all accounts\<close>

definition has_work :: "fleet \<Rightarrow> int \<Rightarrow> bool" where
  "has_work s a \<longleftrightarrow> ch_queue (fl_channel s) a \<noteq> []"

text \<open>The contract of the step of one account; the two channels fulfil it in their own ways.\<close>

locale tick_worker =
  fixes step :: "docker_io \<Rightarrow> redis_io \<Rightarrow> int \<Rightarrow> int \<Rightarrow> nat \<Rightarrow> fleet \<Rightarrow> io_error option \<times> fleet"
    and container_name :: "int \<Rightarrow> string"
  assumes name_inj: "container_name a = container_name b \<Longrightarrow> a = b"
    and serves: "quiet_docker io \<Longrightarrow> quiet_redis rq \<Longrightarrow> 0 < n \<Longrightarrow>
      \<exists>dk. step io rq now a n s =
          (None, s\<lparr>fl_endpoints := (fl_endpoints s)(a \<mapsto> (container_endpoint (container_name a), now + ENDPOINT_TTL)),
                   fl_docker := dk\<rparr>) \<and>
        runs (container_name a) dk \<and> without (container_name a) dk = without (container_name a) (fl_docker s) \<and>
        (distinct (map ct_name (fl_docker s)) \<longrightarrow> distinct (map ct_name dk))"
    and forgets: "quiet_redis rq \<Longrightarrow> step io rq now a 0 s =
      (None, s\<lparr>fl_channel := (fl_channel s)\<lparr>ch_active := ch_active (fl_channel s) - {a}\<rparr>,
               fl_endpoints := (fl_endpoints s)(a := None)\<rparr>)"
begin

definition tick_done :: "int \<Rightarrow> int list \<Rightarrow> fleet \<Rightarrow> fleet \<Rightarrow> bool" where
  "tick_done now members s s' \<longleftrightarrow>
     ch_queue (fl_channel s') = ch_queue (fl_channel s) \<and>
     ch_active (fl_channel s') = ch_active (fl_channel s) - {a \<in> set members. \<not> has_work s a} \<and>
     (\<forall>a \<in> set members. fl_endpoints s' a =
        (if has_work s a then Some (container_endpoint (container_name a), now + ENDPOINT_TTL) else None)) \<and>
     (\<forall>a \<in> set members. has_work s a \<longrightarrow> runs (container_name a) (fl_docker s')) \<and>
     (\<forall>n. n \<notin> container_name ` {a \<in> set members. has_work s a} \<longrightarrow>
        (\<forall>c. ct_name c = n \<longrightarrow> (c \<in> set (fl_docker s') \<longleftrightarrow> c \<in> set (fl_docker s))) \<and>
        runs n (fl_docker s') = runs n (fl_docker s)) \<and>
     (\<forall>a. a \<notin> set members \<longrightarrow> fl_endpoints s' a = fl_endpoints s a)"

lemma each_account_done:
  assumes "quiet_docker io" "quiet_redis rq" "distinct members" "distinct (map ct_name (fl_docker s))"
  shows "\<exists>s'. each_account (step io rq now) rq members s = (None, s') \<and> tick_done now members s s' \<and>
    distinct (map ct_name (fl_docker s'))"
  using assms(3,4)
proof (induction members arbitrary: s)
  case Nil
  then show ?case by (simp add: tick_done_def)
next
  case (Cons a as)
  have llen: "rq_llen rq a" using assms(2) by (simp add: quiet_redis_def)
  show ?case
  proof (cases "has_work s a")
    case True
    then have n: "0 < length (ch_queue (fl_channel s) a)" by (simp add: has_work_def)
    from serves [OF assms(1,2) n, of now a s] Cons.prems(2) obtain dk where
      step: "step io rq now a (length (ch_queue (fl_channel s) a)) s =
          (None, s\<lparr>fl_endpoints := (fl_endpoints s)(a \<mapsto> (container_endpoint (container_name a), now + ENDPOINT_TTL)),
                   fl_docker := dk\<rparr>)"
      and up: "runs (container_name a) dk"
      and frame: "without (container_name a) dk = without (container_name a) (fl_docker s)"
      and names: "distinct (map ct_name dk)" by blast
    let ?s = "s\<lparr>fl_endpoints := (fl_endpoints s)(a \<mapsto> (container_endpoint (container_name a), now + ENDPOINT_TTL)),
                   fl_docker := dk\<rparr>"
    from Cons.IH [of ?s] Cons.prems(1) names obtain s' where
      rest: "each_account (step io rq now) rq as ?s = (None, s')" and ok: "tick_done now as ?s s'"
      and names': "distinct (map ct_name (fl_docker s'))" by auto
    have work: "has_work ?s b = has_work s b" for b by (simp add: has_work_def)
    have others: "(ct_name c = n \<longrightarrow> (c \<in> set dk \<longleftrightarrow> c \<in> set (fl_docker s))) \<and> runs n dk = runs n (fl_docker s)"
      if "n \<noteq> container_name a" for n c
      using that arg_cong [OF frame, of set] same_without_named [OF frame that] by (auto simp: without_def runs_def)
    have up': "runs (container_name a) (fl_docker s')"
    proof -
      have "container_name a \<notin> container_name ` {b \<in> set as. has_work s b}"
        using Cons.prems(1) name_inj by auto
      with ok up show ?thesis by (auto simp: tick_done_def work)
    qed
    have "tick_done now (a # as) s s'"
      unfolding tick_done_def
    proof (intro conjI)
      show "ch_queue (fl_channel s') = ch_queue (fl_channel s)" using ok by (simp add: tick_done_def)
      show "ch_active (fl_channel s') = ch_active (fl_channel s) - {b \<in> set (a # as). \<not> has_work s b}"
        using ok True by (auto simp: tick_done_def work)
      show "\<forall>b \<in> set (a # as). fl_endpoints s' b =
          (if has_work s b then Some (container_endpoint (container_name b), now + ENDPOINT_TTL) else None)"
        using ok True Cons.prems(1) by (simp add: tick_done_def work)
      show "\<forall>b \<in> set (a # as). has_work s b \<longrightarrow> runs (container_name b) (fl_docker s')"
        using ok up' by (simp add: tick_done_def work)
      show "\<forall>n. n \<notin> container_name ` {b \<in> set (a # as). has_work s b} \<longrightarrow>
          (\<forall>c. ct_name c = n \<longrightarrow> (c \<in> set (fl_docker s') \<longleftrightarrow> c \<in> set (fl_docker s))) \<and>
          runs n (fl_docker s') = runs n (fl_docker s)"
      proof (intro allI impI)
        fix n
        assume n: "n \<notin> container_name ` {b \<in> set (a # as). has_work s b}"
        then have "n \<notin> container_name ` {b \<in> set as. has_work s b}" "n \<noteq> container_name a" using True by auto
        with ok others [of n] show "(\<forall>c. ct_name c = n \<longrightarrow> (c \<in> set (fl_docker s') \<longleftrightarrow> c \<in> set (fl_docker s))) \<and>
            runs n (fl_docker s') = runs n (fl_docker s)"
          by (simp add: tick_done_def work)
      qed
      show "\<forall>b. b \<notin> set (a # as) \<longrightarrow> fl_endpoints s' b = fl_endpoints s b" using ok by (simp add: tick_done_def)
    qed
    with llen step rest names' show ?thesis by auto
  next
    case False
    then have n: "length (ch_queue (fl_channel s) a) = 0" by (simp add: has_work_def)
    let ?s = "s\<lparr>fl_channel := (fl_channel s)\<lparr>ch_active := ch_active (fl_channel s) - {a}\<rparr>,
               fl_endpoints := (fl_endpoints s)(a := None)\<rparr>"
    from Cons.IH [of ?s] Cons.prems obtain s' where
      rest: "each_account (step io rq now) rq as ?s = (None, s')" and ok: "tick_done now as ?s s'"
      and names': "distinct (map ct_name (fl_docker s'))" by auto
    have work: "has_work ?s b = has_work s b" for b by (simp add: has_work_def)
    have "tick_done now (a # as) s s'"
      using ok Cons.prems(1) False unfolding tick_done_def work by auto
    with llen forgets [OF assms(2), of io now a s] n rest names' show ?thesis by auto
  qed
qed

lemma tick_served:
  assumes "quiet_docker io" "quiet_redis rq" "distinct members" "distinct (map ct_name (fl_docker s))"
  shows "\<exists>s'. after_accounts (cleanup_exited io role) (each_account (step io rq now) rq members s) = (None, s') \<and>
    ch_queue (fl_channel s') = ch_queue (fl_channel s) \<and>
    ch_active (fl_channel s') = ch_active (fl_channel s) - {a \<in> set members. \<not> has_work s a} \<and>
    (\<forall>a \<in> set members. fl_endpoints s' a =
       (if has_work s a then Some (container_endpoint (container_name a), now + ENDPOINT_TTL) else None)) \<and>
    (\<forall>a \<in> set members. has_work s a \<longrightarrow> runs (container_name a) (fl_docker s')) \<and>
    (\<forall>c. ct_name c \<notin> container_name ` {a \<in> set members. has_work s a} \<longrightarrow>
       (c \<in> set (fl_docker s') \<longleftrightarrow> c \<in> set (fl_docker s) \<and> \<not> (ct_role c = role \<and> ct_status c = ''exited'')))"
proof -
  from each_account_done [OF assms] obtain s1 where
    run: "each_account (step io rq now) rq members s = (None, s1)" and ok: "tick_done now members s s1"
    and names: "distinct (map ct_name (fl_docker s1))" by blast
  have "after_accounts (cleanup_exited io role) (each_account (step io rq now) rq members s) =
      (None, s1\<lparr>fl_docker := filter (\<lambda>c. \<not> (ct_role c = role \<and> ct_status c = ''exited'')) (fl_docker s1)\<rparr>)"
    by (simp only: after_accounts_def run prod.case option.case cleanup_quiet [OF assms(1) names])
  with ok show ?thesis by (auto simp: tick_done_def runs_cleanup [OF names] simp del: de_Morgan_conj)
qed

end

lemma forget_quiet:
  "quiet_redis rq \<Longrightarrow> forget_account rq a s =
     (None, s\<lparr>fl_channel := (fl_channel s)\<lparr>ch_active := ch_active (fl_channel s) - {a}\<rparr>,
              fl_endpoints := (fl_endpoints s)(a := None)\<rparr>)"
  by (simp add: quiet_redis_def forget_account_def delete_endpoint_def)

interpretation wa_tick: tick_worker wa_account_step wa_container_name
proof
  fix io rq now a and n :: nat and s :: fleet
  assume q: "quiet_docker io" "quiet_redis rq" "0 < n"
  from wa_start_quiet [OF q(1), of a "fl_docker s"] obtain dk where
    dk: "wa_start_container io a (fl_docker s) = (Inr (Some (container_endpoint (wa_container_name a))), dk)"
    "runs (wa_container_name a) dk" by blast
  then have "wa_account_step io rq now a n s =
      (None, s\<lparr>fl_endpoints := (fl_endpoints s)(a \<mapsto> (container_endpoint (wa_container_name a), now + ENDPOINT_TTL)),
               fl_docker := dk\<rparr>)"
    using q(2,3) by (simp add: wa_account_step_def set_endpoint_def quiet_redis_def)
  with dk(2) wa_start_frame [OF dk(1)] wa_start_names [OF dk(1)] show "\<exists>dk. wa_account_step io rq now a n s =
      (None, s\<lparr>fl_endpoints := (fl_endpoints s)(a \<mapsto> (container_endpoint (wa_container_name a), now + ENDPOINT_TTL)),
               fl_docker := dk\<rparr>) \<and>
      runs (wa_container_name a) dk \<and> without (wa_container_name a) dk = without (wa_container_name a) (fl_docker s) \<and>
      (distinct (map ct_name (fl_docker s)) \<longrightarrow> distinct (map ct_name dk))"
    by blast
qed (simp_all add: wa_account_step_def forget_quiet)

interpretation max_tick: tick_worker max_account_step max_container_name
proof
  fix io rq now a and n :: nat and s :: fleet
  assume q: "quiet_docker io" "quiet_redis rq" "0 < n"
  obtain beat where beat: "rq_beat rq a = Inr beat" using q(2) by (auto simp: quiet_redis_def)
  from ensure_quiet [OF q(1), of now beat a "fl_docker s"] obtain dk where
    dk: "ensure_container_for_pending_work io now (rq_beat rq a) a (fl_docker s) =
      (Inr (Some (container_endpoint (max_container_name a))), dk)" "runs (max_container_name a) dk"
    by (auto simp: beat)
  then have "max_account_step io rq now a n s =
      (None, s\<lparr>fl_endpoints := (fl_endpoints s)(a \<mapsto> (container_endpoint (max_container_name a), now + ENDPOINT_TTL)),
               fl_docker := dk\<rparr>)"
    using q(2,3) by (simp add: max_account_step_def set_endpoint_def quiet_redis_def)
  with dk(2) ensure_frame [OF dk(1)] ensure_names [OF dk(1)] show "\<exists>dk. max_account_step io rq now a n s =
      (None, s\<lparr>fl_endpoints := (fl_endpoints s)(a \<mapsto> (container_endpoint (max_container_name a), now + ENDPOINT_TTL)),
               fl_docker := dk\<rparr>) \<and>
      runs (max_container_name a) dk \<and> without (max_container_name a) dk = without (max_container_name a) (fl_docker s) \<and>
      (distinct (map ct_name (fl_docker s)) \<longrightarrow> distinct (map ct_name dk))"
    by blast
qed (simp_all add: max_account_step_def forget_quiet)

section \<open>What the ticks promise\<close>


lemma max_tick_serves_the_work_lemma:
  assumes "quiet_docker io" "quiet_redis rq" "distinct (map ct_name (fl_docker s))"
    "distinct members" "set members = ch_active (fl_channel s)"
  shows "\<exists>s'. manage_max_containers io rq now members s = (None, s') \<and>
    ch_queue (fl_channel s') = ch_queue (fl_channel s) \<and>
    ch_active (fl_channel s') = {a \<in> set members. has_work s a} \<and>
    (\<forall>a \<in> set members. fl_endpoints s' a =
       (if has_work s a then Some (container_endpoint (max_container_name a), now + ENDPOINT_TTL) else None)) \<and>
    (\<forall>a \<in> ch_active (fl_channel s'). runs (max_container_name a) (fl_docker s')) \<and>
    (\<forall>c. ct_name c \<notin> max_container_name ` ch_active (fl_channel s') \<longrightarrow>
       (c \<in> set (fl_docker s') \<longleftrightarrow> c \<in> set (fl_docker s) \<and> \<not> (ct_role c = MAX_ROLE \<and> ct_status c = ''exited'')))"
proof -
  have act: "ch_active (fl_channel s) - {a \<in> set members. \<not> has_work s a} = {a \<in> set members. has_work s a}"
    using assms(5) by auto
  have "rq_members rq" using assms(2) by (simp add: quiet_redis_def)
  then have "manage_max_containers io rq now members s =
      after_accounts (cleanup_exited io MAX_ROLE) (each_account (max_account_step io rq now) rq members s)"
    by (simp add: manage_max_containers_def max_cleanup_exited_containers_def [abs_def])
  with max_tick.tick_served [OF assms(1,2,4,3), where now = now and role = MAX_ROLE] show ?thesis unfolding act by fastforce
qed

text \<open>The two readings of a heartbeat, of the page and of the manager, agree.\<close>

lemma fresh_heartbeat_agrees: "has_fresh_heartbeat now heartbeat = is_fresh now heartbeat"
  by (auto simp: has_fresh_heartbeat_def is_fresh_def HEARTBEAT_STALE_SEC_def MAX_HEARTBEAT_STALE_SEC_def Let_def
      split: option.splits)

text \<open>
  The container of a MAX account with work: one that runs and that the page of the workers calls
  online is left as it is; one that runs without a fresh beat is replaced, unless stopping it is
  refused; and no other container is touched, whatever Docker answers.
\<close>

lemma live_worker_is_kept:
  assumes "ensure_container_for_pending_work io now (Inr beat) a dk = (r, dk')"
  shows "without (max_container_name a) dk' = without (max_container_name a) dk \<and>
    (dk_get io (max_container_name a) = None \<and> runs (max_container_name a) dk \<and> is_fresh now beat \<longrightarrow>
       r = Inr (Some (container_endpoint (max_container_name a))) \<and> dk' = dk) \<and>
    (quiet_docker io \<and> runs (max_container_name a) dk \<and> \<not> is_fresh now beat \<longrightarrow>
       (\<exists>i. dk_run io (max_container_name a) = RunStarted i \<and> map_option ct_short_id (named (max_container_name a) dk') = Some i)) \<and>
    (\<forall>ep. r = Inr (Some ep) \<longrightarrow> ep = container_endpoint (max_container_name a))"
proof (intro conjI impI allI)
  let ?n = "max_container_name a"
  show "without ?n dk' = without ?n dk" by (rule ensure_frame [OF assms])
  {
    assume "dk_get io ?n = None \<and> runs ?n dk \<and> is_fresh now beat"
    with assms have "r = Inr (Some (container_endpoint ?n)) \<and> dk' = dk"
      by (auto simp: ensure_container_for_pending_work_def docker_get_def runs_def Let_def fresh_heartbeat_agrees
          split: option.splits)
    then show "r = Inr (Some (container_endpoint ?n))" "dk' = dk" by auto
  }
  {
    assume q: "quiet_docker io \<and> runs ?n dk \<and> \<not> is_fresh now beat"
    then obtain i where run: "dk_run io ?n = RunStarted i" by (auto simp: quiet_docker_def)
    from q obtain c where c: "named ?n dk = Some c" "ct_status c = ''running''" by (auto simp: runs_def split: option.splits)
    obtain dk1 where stop: "max_stop_container io a dk = (Inr True, dk1)" and gone: "named ?n dk1 = None"
      using q c by (auto simp: max_stop_container_def stop_named_def docker_get_def docker_stop_def docker_remove_def
          quiet_docker_def Let_def)
    have "max_start_container io a dk1 = (r, dk')"
      using assms q c stop by (auto simp: ensure_container_for_pending_work_def docker_get_def Let_def
          fresh_heartbeat_agrees quiet_docker_def)
    then have "named ?n dk' = Some \<lparr>ct_name = ?n, ct_short_id = i, ct_status = ''running'', ct_role = MAX_ROLE,
        ct_account = Some (int_str a)\<rparr>"
      using q gone run
      by (auto simp: max_start_container_def cleared_quiet runs_def docker_run_def Let_def without_absent named_append)
         (auto simp: named_def)
    with run show "\<exists>i. dk_run io ?n = RunStarted i \<and> map_option ct_short_id (named ?n dk') = Some i" by simp
  }
  fix ep
  assume "r = Inr (Some ep)"
  with assms show "ep = container_endpoint ?n"
    by (auto simp: ensure_container_for_pending_work_def max_start_container_def Let_def
        split: sum.splits prod.splits bool.splits option.splits io_error.splits if_splits)
qed

definition answering_docker :: docker_io where
  "answering_docker = \<lparr>dk_get = (\<lambda>n. None), dk_remove = (\<lambda>n. None), dk_stop = (\<lambda>n. None),
     dk_run = (\<lambda>n. RunStarted ''new''), dk_list = None\<rparr>"

definition answering_redis :: redis_io where
  "answering_redis = \<lparr>rq_members = True, rq_llen = (\<lambda>a. True), rq_beat = (\<lambda>a. Inr None), rq_set = (\<lambda>a. True),
     rq_srem = (\<lambda>a. True), rq_delete = (\<lambda>a. True)\<rparr>"

lemma answering_quiet [simp]: "quiet_docker answering_docker" "quiet_redis answering_redis"
  by (simp_all add: quiet_docker_def quiet_redis_def answering_docker_def answering_redis_def)

definition sample_fleet :: fleet where
  "sample_fleet =
     \<lparr>fl_channel = \<lparr>ch_queue = (\<lambda>a. if a = 1 then [\<lparr>pl_task_id = ''t'', pl_task = sample_task ''wa'' 1, pl_created_at = 0\<rparr>] else []),
                    ch_active = {1, 2}\<rparr>,
      fl_endpoints = (\<lambda>a. if a = 2 then Some (''http://wa-worker-2:3000'', 5) else None),
      fl_docker = [\<lparr>ct_name = wa_container_name 3, ct_short_id = ''c3'', ct_status = ''exited'', ct_role = WA_ROLE, ct_account = None\<rparr>]\<rparr>"


section \<open>Work that is known\<close>

text \<open>
  Every task in a queue is of an account the ticks look at: handing tasks over and whole ticks keep
  it so.
\<close>

definition work_known :: "channel \<Rightarrow> bool" where
  "work_known ch \<longleftrightarrow> (\<forall>a. ch_queue ch a \<noteq> [] \<longrightarrow> a \<in> ch_active ch)"

lemma push_keeps_work_known:
  assumes "push_all failure uuid now n (by_account ts) ch = Inr ch'" "work_known ch"
  shows "work_known ch'"
proof -
  from push_all_gains [OF assms(1)] have g: "channel_gains ch ts ch'" .
  show ?thesis
    unfolding work_known_def
  proof (intro allI impI)
    fix a
    assume "ch_queue ch' a \<noteq> []"
    then have "map pl_task (ch_queue ch' a) \<noteq> []" by simp
    with g have "ch_queue ch a \<noteq> [] \<or> (\<exists>t \<in> set ts. task_account_id t = a)"
      by (auto simp: channel_gains_def filter_empty_conv)
    with g assms(2) show "a \<in> ch_active ch'" by (auto simp: channel_gains_def work_known_def)
  qed
qed

lemma each_account_keeps_work_known:
  assumes "\<And>a n s. fl_channel (snd (step a n s)) = fl_channel s \<or>
      n = 0 \<and> fl_channel (snd (step a n s)) = (fl_channel s)\<lparr>ch_active := ch_active (fl_channel s) - {a}\<rparr>"
    "work_known (fl_channel s)"
  shows "work_known (fl_channel (snd (each_account step rq members s)))"
  using assms(2)
proof (induction members arbitrary: s)
  case (Cons a as)
  let ?n = "length (ch_queue (fl_channel s) a)"
  obtain e s1 where step: "step a ?n s = (e, s1)" by (cases "step a ?n s")
  have "fl_channel s1 = fl_channel s \<or>
      ?n = 0 \<and> fl_channel s1 = (fl_channel s)\<lparr>ch_active := ch_active (fl_channel s) - {a}\<rparr>"
    using assms(1) [of a ?n s] step by simp
  then have "work_known (fl_channel s1)"
  proof
    assume "fl_channel s1 = fl_channel s"
    with Cons.prems show ?thesis by simp
  next
    assume h: "?n = 0 \<and> fl_channel s1 = (fl_channel s)\<lparr>ch_active := ch_active (fl_channel s) - {a}\<rparr>"
    show ?thesis unfolding work_known_def
    proof (intro allI impI)
      fix b
      assume "ch_queue (fl_channel s1) b \<noteq> []"
      with h Cons.prems show "b \<in> ch_active (fl_channel s1)" by (cases "b = a") (simp_all add: work_known_def)
    qed
  qed
  with Cons.IH [OF this] Cons.prems step show ?case by (simp split: option.split)
qed simp

lemma forget_channel:
  "fl_channel (snd (forget_account rq a s)) = fl_channel s \<or>
   fl_channel (snd (forget_account rq a s)) = (fl_channel s)\<lparr>ch_active := ch_active (fl_channel s) - {a}\<rparr>"
  by (simp add: forget_account_def delete_endpoint_def)

lemma endpoint_channel:
  "fl_channel (snd (set_endpoint rq now a ep s)) = fl_channel s"
  "fl_channel (snd (delete_endpoint rq a s)) = fl_channel s"
  by (simp_all add: set_endpoint_def delete_endpoint_def)

lemma step_channel:
  "fl_channel (snd (wa_account_step io rq now a n s)) = fl_channel s \<or>
     n = 0 \<and> fl_channel (snd (wa_account_step io rq now a n s)) = (fl_channel s)\<lparr>ch_active := ch_active (fl_channel s) - {a}\<rparr>"
  "fl_channel (snd (max_account_step io rq now a n s)) = fl_channel s \<or>
     n = 0 \<and> fl_channel (snd (max_account_step io rq now a n s)) = (fl_channel s)\<lparr>ch_active := ch_active (fl_channel s) - {a}\<rparr>"
proof -
  have "fl_channel (snd (wa_account_step io rq now a n s)) = fl_channel s" if "0 < n"
    using that by (simp add: wa_account_step_def endpoint_channel split: prod.split sum.split option.split)
  then show "fl_channel (snd (wa_account_step io rq now a n s)) = fl_channel s \<or>
     n = 0 \<and> fl_channel (snd (wa_account_step io rq now a n s)) = (fl_channel s)\<lparr>ch_active := ch_active (fl_channel s) - {a}\<rparr>"
    using forget_channel [of rq a s] by (cases "0 < n") (simp_all add: wa_account_step_def)
  have "fl_channel (snd (max_account_step io rq now a n s)) = fl_channel s" if "0 < n"
    using that by (simp add: max_account_step_def endpoint_channel split: prod.split sum.split option.split)
  then show "fl_channel (snd (max_account_step io rq now a n s)) = fl_channel s \<or>
     n = 0 \<and> fl_channel (snd (max_account_step io rq now a n s)) = (fl_channel s)\<lparr>ch_active := ch_active (fl_channel s) - {a}\<rparr>"
    using forget_channel [of rq a s] by (cases "0 < n") (simp_all add: max_account_step_def)
qed

lemma after_accounts_channel: "fl_channel (snd (after_accounts cleanup r)) = fl_channel (snd r)"
  by (auto simp: after_accounts_def split: prod.splits option.splits)

text \<open>
  Whatever Docker and Redis refuse, neither a hand-over of tasks nor a whole tick of either channel
  leaves a task in the queue of an account the ticks do not look at.
\<close>

lemma tasks_stay_known:
  assumes "work_known (fl_channel s)"
  shows "work_known (fl_channel (snd (manage_wa_containers io rq now members s))) \<and>
    work_known (fl_channel (snd (manage_max_containers io rq now members s))) \<and>
    (\<forall>failure uuid n ts ch. push_all failure uuid now n (by_account ts) (fl_channel s) = Inr ch \<longrightarrow> work_known ch)"
  using assms each_account_keeps_work_known [where step = "wa_account_step io rq now", OF step_channel(1)]
    each_account_keeps_work_known [where step = "max_account_step io rq now", OF step_channel(2)]
    push_keeps_work_known
  by (auto simp: manage_wa_containers_def manage_max_containers_def after_accounts_channel)

lemma tasks_stay_known_witness:
  "work_known (fl_channel sample_fleet) \<and>
   work_known (fl_channel (snd (manage_wa_containers answering_docker answering_redis 7 [1, 2] sample_fleet)))"
proof -
  have "work_known (fl_channel sample_fleet)" by (simp add: work_known_def sample_fleet_def)
  with tasks_stay_known [OF this] show ?thesis by blast
qed

text \<open>
  The length is read and the account struck off in two calls. Tasks handed over in between are
  forgotten: the queue of the account is not empty, the account is not on the list, and no tick over
  the listed accounts starts its container, however often it runs.
\<close>

fun ticks :: "docker_io \<Rightarrow> redis_io \<Rightarrow> int \<Rightarrow> int list list \<Rightarrow> fleet \<Rightarrow> fleet" where
  "ticks io rq now [] s = s"
| "ticks io rq now (ms # mss) s = ticks io rq now mss (snd (manage_wa_containers io rq now ms s))"

lemma each_account_frame:
  "a \<notin> set members \<Longrightarrow> named (wa_container_name a) (fl_docker (snd (each_account (wa_account_step io rq now) rq members s))) =
     named (wa_container_name a) (fl_docker s) \<and>
   ch_queue (fl_channel (snd (each_account (wa_account_step io rq now) rq members s))) = ch_queue (fl_channel s) \<and>
   ch_active (fl_channel (snd (each_account (wa_account_step io rq now) rq members s))) \<subseteq> ch_active (fl_channel s)"
proof (induction members arbitrary: s)
  case (Cons b bs)
  let ?n = "length (ch_queue (fl_channel s) b)" and ?x = "wa_container_name a"
  have ch: "ch_queue (fl_channel (snd (wa_account_step io rq now b ?n s))) = ch_queue (fl_channel s) \<and>
      ch_active (fl_channel (snd (wa_account_step io rq now b ?n s))) \<subseteq> ch_active (fl_channel s)"
    using step_channel(1) [of io rq now b ?n s] by auto
  have "named ?x dk = named ?x (fl_docker s)" if "wa_start_container io b (fl_docker s) = (r, dk)" for r dk
    using Cons.prems wa_start_frame [OF that] by (intro same_without_named) auto
  then have "named ?x (fl_docker (snd (wa_account_step io rq now b ?n s))) = named ?x (fl_docker s)"
    by (auto simp: wa_account_step_def set_endpoint_def forget_account_def delete_endpoint_def
        split: prod.splits sum.splits option.splits)
  note same = this ch
  show ?case
  proof (cases "rq_llen rq b")
    case False
    then show ?thesis by simp
  next
    case True
    obtain e s1 where step: "wa_account_step io rq now b ?n s = (e, s1)" by (cases "wa_account_step io rq now b ?n s")
    have "a \<notin> set bs" using Cons.prems by simp
    from Cons.IH [OF this, of s1] same True step show ?thesis by (cases e) auto
  qed
qed simp

lemma remove_each_frame: "named n dk = None \<Longrightarrow> named n (snd (remove_each io cs dk)) = None"
proof (induction cs arbitrary: dk)
  case (Cons c cs)
  obtain e dk1 where d: "docker_remove io (ct_name c) dk = (e, dk1)" by (cases "docker_remove io (ct_name c) dk")
  have "named n dk1 = None" using Cons.prems d by (auto simp: docker_remove_def split: option.splits if_splits)
  with d Cons.IH show ?case by (auto split: option.splits io_error.splits)
qed simp

lemma after_accounts_frame:
  assumes "named n (fl_docker (snd r)) = None"
  shows "named n (fl_docker (snd (after_accounts (wa_cleanup_exited_containers io) r))) = None"
proof (cases r)
  case (Pair e s)
  show ?thesis
  proof (cases e)
    case None
    have "named n (snd (wa_cleanup_exited_containers io (fl_docker s))) = None"
      using assms Pair remove_each_frame by (simp add: wa_cleanup_exited_containers_def cleanup_exited_def split: option.split)
    with Pair None show ?thesis by (cases "wa_cleanup_exited_containers io (fl_docker s)") (simp add: after_accounts_def)
  next
    case (Some x)
    with assms Pair show ?thesis by (simp add: after_accounts_def)
  qed
qed

lemma tick_leaves_unlisted:
  assumes "a \<notin> set members" "named (wa_container_name a) (fl_docker s) = None"
  shows "named (wa_container_name a) (fl_docker (snd (manage_wa_containers io rq now members s))) = None \<and>
    ch_queue (fl_channel (snd (manage_wa_containers io rq now members s))) = ch_queue (fl_channel s) \<and>
    ch_active (fl_channel (snd (manage_wa_containers io rq now members s))) \<subseteq> ch_active (fl_channel s)"
  using each_account_frame [OF assms(1), of io rq now s] assms(2)
  by (simp add: manage_wa_containers_def after_accounts_channel after_accounts_frame)

lemma unlisted_work_is_forgotten:
  assumes "queue_len = length (ch_queue (fl_channel s) a)" "queue_len = 0" "rq_srem rq a"
    and pushed: "s1 = s\<lparr>fl_channel := fold apply_cmd [RPush a p, SAdd a] (fl_channel s)\<rparr>"
    and struck: "s2 = snd (wa_account_step io rq now a queue_len s1)"
    and down: "named (wa_container_name a) (fl_docker s) = None"
    and listed: "\<And>ms. ms \<in> set mss \<Longrightarrow> a \<notin> set ms"
  shows "let s' = ticks io' rq' now' mss s2 in
    ch_queue (fl_channel s') a = [p] \<and> a \<notin> ch_active (fl_channel s') \<and>
    \<not> runs (wa_container_name a) (fl_docker s')"
proof -
  have start: "ch_queue (fl_channel s2) a = [p] \<and> a \<notin> ch_active (fl_channel s2) \<and>
      named (wa_container_name a) (fl_docker s2) = None"
    using assms(1-3) down unfolding struck pushed
    by (simp add: wa_account_step_def forget_account_def delete_endpoint_def)
  have "ch_queue (fl_channel (ticks io' rq' now' mss s)) a = [p] \<and> a \<notin> ch_active (fl_channel (ticks io' rq' now' mss s)) \<and>
      named (wa_container_name a) (fl_docker (ticks io' rq' now' mss s)) = None"
    if "ch_queue (fl_channel s) a = [p] \<and> a \<notin> ch_active (fl_channel s) \<and> named (wa_container_name a) (fl_docker s) = None"
      "\<And>ms. ms \<in> set mss \<Longrightarrow> a \<notin> set ms" for s
    using that
  proof (induction mss arbitrary: s)
    case (Cons ms mss)
    then have n: "a \<notin> set ms" by simp
    from Cons.prems(1) tick_leaves_unlisted [OF n, of s io' rq' now']
    have "ch_queue (fl_channel (snd (manage_wa_containers io' rq' now' ms s))) a = [p] \<and>
        a \<notin> ch_active (fl_channel (snd (manage_wa_containers io' rq' now' ms s))) \<and>
        named (wa_container_name a) (fl_docker (snd (manage_wa_containers io' rq' now' ms s))) = None" by auto
    from Cons.IH [OF this] Cons.prems(2) show ?case by simp
  qed simp
  from this [OF start listed] show ?thesis by (simp add: Let_def runs_def)
qed

lemma unlisted_work_is_forgotten_witness:
  "let s = sample_fleet\<lparr>fl_channel := (fl_channel sample_fleet)\<lparr>ch_queue := (\<lambda>a. [])\<rparr>\<rparr>;
       p = \<lparr>pl_task_id = ''t'', pl_task = sample_task ''wa'' 1, pl_created_at = 0\<rparr>;
       s1 = s\<lparr>fl_channel := fold apply_cmd [RPush 1 p, SAdd 1] (fl_channel s)\<rparr>;
       s2 = snd (wa_account_step answering_docker answering_redis 7 1 0 s1);
       s' = ticks answering_docker answering_redis 22 [[2], []] s2
   in ch_queue (fl_channel s') 1 = [p] \<and> 1 \<notin> ch_active (fl_channel s') \<and> \<not> runs (wa_container_name 1) (fl_docker s')"
proof -
  let ?s = "sample_fleet\<lparr>fl_channel := (fl_channel sample_fleet)\<lparr>ch_queue := (\<lambda>a. [])\<rparr>\<rparr>"
  have down: "named (wa_container_name 1) (fl_docker ?s) = None"
    by (simp add: sample_fleet_def named_def)
  show ?thesis
    unfolding Let_def
    by (rule unlisted_work_is_forgotten [unfolded Let_def, where s = ?s and queue_len = 0 and rq = answering_redis, OF _ refl _ refl refl down])
       (auto simp: answering_redis_def)
qed

section \<open>Waiting ends\<close>

lemma ready_loop_spec:
  assumes "\<And>k. clock k + READY_INTERVAL \<le> clock (Suc k)"
    "deadline \<le> clock k + int m * READY_INTERVAL" "m < fuel"
  shows "\<exists>up. ready_loop healthy clock deadline k fuel = Some up \<and>
    (up \<longleftrightarrow> (\<exists>j\<ge>k. clock j < deadline \<and> healthy j))"
  using assms(2,3)
proof (induction m arbitrary: k fuel)
  case 0
  have mono: "clock k \<le> clock j" if "k \<le> j" for j
    using that
  proof (induction rule: dec_induct)
    case (step j)
    with assms(1) [of j] show ?case by (simp add: READY_INTERVAL_def)
  qed simp
  from 0 obtain f where "fuel = Suc f" by (cases fuel) auto
  with 0 mono show ?case by fastforce
next
  case (Suc m)
  have mono: "clock k \<le> clock j" if "k \<le> j" for j
    using that
  proof (induction rule: dec_induct)
    case (step j)
    with assms(1) [of j] show ?case by (simp add: READY_INTERVAL_def)
  qed simp
  from Suc.prems obtain f where f: "fuel = Suc f" "m < f" by (cases fuel) auto
  have "deadline \<le> clock (Suc k) + int m * READY_INTERVAL"
    using Suc.prems(1) assms(1) [of k] by (simp add: algebra_simps)
  from Suc.IH [OF this f(2)] obtain up where
    up: "ready_loop healthy clock deadline (Suc k) f = Some up" "up \<longleftrightarrow> (\<exists>j\<ge>Suc k. clock j < deadline \<and> healthy j)" by blast
  have split_at: "(\<exists>j\<ge>k. clock j < deadline \<and> healthy j) \<longleftrightarrow>
      clock k < deadline \<and> healthy k \<or> (\<exists>j\<ge>Suc k. clock j < deadline \<and> healthy j)"
    by (metis Suc_leD Suc_leI le_neq_implies_less order_refl)
  have none: "\<not> clock k < deadline \<Longrightarrow> \<not> (\<exists>j\<ge>Suc k. clock j < deadline \<and> healthy j)"
    using mono by (meson Suc_leD leD leI order_trans not_le)
  show ?case
    using up none unfolding split_at by (auto simp: f(1))
qed

text \<open>
  Waiting for a container ends after at most 31 looks at the clock, and says that it is ready exactly
  when a check before the deadline was answered: every round takes the pause between two checks.
\<close>

lemma readiness_wait_ends:
  assumes "\<And>k. clock k + READY_INTERVAL \<le> clock (Suc k)" "entered \<le> clock 0" "31 \<le> fuel"
  shows "\<exists>up. wait_for_container_ready healthy clock entered fuel = Some up \<and>
    (up \<longleftrightarrow> (\<exists>k. clock k < entered + READY_TIMEOUT \<and> healthy k))"
proof -
  have "entered + READY_TIMEOUT \<le> clock 0 + int 30 * READY_INTERVAL"
    using assms(2) by (simp add: READY_TIMEOUT_def READY_INTERVAL_def)
  from ready_loop_spec [OF assms(1) this, of fuel healthy] assms(3) show ?thesis
    by (simp add: wait_for_container_ready_def)
qed

lemma readiness_wait_ends_witness:
  "\<exists>up. wait_for_container_ready (\<lambda>k. k = 4) (\<lambda>k. 1000000 * int k + 5) 0 31 = Some up \<and>
    (up \<longleftrightarrow> (\<exists>k. 1000000 * int k + 5 < 0 + READY_TIMEOUT \<and> k = 4))"
  by (rule readiness_wait_ends) (simp_all add: READY_INTERVAL_def)

section \<open>Endpoints that answer and endpoints that do not\<close>

lemma endpoint_runs: "wa_get_container_endpoint io a dk = Inr (Some ep) \<Longrightarrow> runs (wa_container_name a) dk"
  by (auto simp: wa_get_container_endpoint_def endpoint_of_running_def docker_get_def runs_def
      split: option.splits if_splits)

lemma wa_started_runs: "wa_start_container io a dk = (Inr (Some ep), dk') \<Longrightarrow> runs (wa_container_name a) dk'"
  by (auto simp: wa_start_container_def Let_def cleared_for_start_def docker_get_def docker_run_def runs_def named_append
      split: prod.splits sum.splits bool.splits option.splits io_error.splits if_splits run_answer.splits)
     (auto simp: named_def)

text \<open>
  The WhatsApp adapter gets an endpoint only of a container that runs and that came up; the MAX
  adapter gets the endpoint in the store as long as it lasts, whatever runs.
\<close>

lemma endpoint_of_an_adapter:
  "(ensure_wa_container io before_ok after_ok now es a dk = (Inr (Some ep), dk') \<longrightarrow>
      runs (wa_container_name a) dk' \<and> (before_ok \<or> after_ok)) \<and>
   (cached_endpoint now es a = Some (c # cs) \<longrightarrow> ensure_max_container io False now es a [] = (Inr (Some (c # cs)), []))"
  by (auto simp: ensure_wa_container_def ensure_max_container_def Let_def
      split: sum.splits prod.splits if_splits dest: endpoint_runs wa_started_runs)

section \<open>A bridge that does not answer\<close>

text \<open>What the polling of a sync reads of a status.\<close>

definition sync_data_of :: "pyval \<Rightarrow> exn + sync_data" where
  "sync_data_of v =
     bind_res (py_get v ''state'' PNone) (\<lambda>st.
       bind_res (py_get v ''groups'' PNone) (\<lambda>gs.
         Inr \<lparr>sd_state = (case st of PStr s \<Rightarrow> Some s | _ \<Rightarrow> None), sd_groups = gs\<rparr>))"

lemma silent_poll_times_out:
  assumes "\<And>n. \<not> code_is_200 (answers n)"
  shows "poll (\<lambda>n. sync_data_of (wa_get_sync_status (answers n))) k left = PollTimeout"
proof (induction left arbitrary: k)
  case (Suc left)
  have "wa_get_sync_status (answers k) = PDict [(''state'', PStr ''error''), (''groups'', PNone)]"
    using assms [of k] by (simp add: wa_get_sync_status_def body_or_def code_is_200_def split: http_answer.splits)
  with Suc show ?case by (simp add: sync_data_of_def)
qed simp

text \<open>
  A bridge that never gives a good answer costs the sync its forty polls; an account that waits for
  it ends as failed, with the reason, and keeps its groups.
\<close>

lemma silent_bridge_fails_the_sync:
  assumes "\<And>n. \<not> code_is_200 (answers n)" "find_row acc_id i (db_accounts d) = Some acc" "acc_status acc = ''syncing''"
  shows "\<exists>d'. sync_groups (\<lambda>n. sync_data_of (wa_get_sync_status (answers n))) now ''wa'' i d = (None, d') \<and>
    db_groups d' = db_groups d \<and>
    (\<exists>acc'. find_row acc_id i (db_accounts d') = Some acc' \<and> acc_status acc' = ''sync_failed'' \<and>
       acc_last_sync_result acc' = Some (encode_result (failed_result (sync_timeout_message POLL_INTERVAL MAX_POLLS))))"
proof -
  have i: "acc_id acc = i" using find_row_Some [OF assms(2)] by simp
  have "find_row acc_id i (update_where (\<lambda>a. acc_id a = i) f rows) = map_option f (find_row acc_id i rows)"
    if "\<And>a. acc_id (f a) = acc_id a" for f and rows :: "account list"
    using that by (induction rows) (auto simp: update_where_def)
  with assms i show ?thesis
    by (simp add: sync_groups_def silent_poll_times_out fail_sync_def record_sync_failure_def set_account_def)
qed

lemma silent_bridge_fails_the_sync_witness:
  "\<exists>d'. sync_groups (\<lambda>n. sync_data_of (wa_get_sync_status (HttpRaised ''ConnectError'' ''refused''))) 9 ''wa'' 1 groups_db = (None, d') \<and>
     db_groups d' = db_groups groups_db"
proof -
  obtain acc where "find_row acc_id 1 (db_accounts groups_db) = Some acc" "acc_status acc = ''syncing''"
    by (simp add: groups_db_def sample_account_def)
  from silent_bridge_fails_the_sync [where answers = "\<lambda>n. HttpRaised ''ConnectError'' ''refused''", OF _ this]
  show ?thesis by (auto simp: code_is_200_def)
qed

end
