(* ===== verification/Account_Connect.thy ===== *)
theory Account_Connect
  imports Worker_Containers Telegram_Sign_In Listings
begin

text \<open>
  The accounts of a user on the pages, \<open>app/pages/accounts.py\<close>: the list with its figures,
  connecting WhatsApp and MAX, the synchronisation buttons with their slot in flight, and deleting.

  What the bridges answer, whether the broker takes a task, the rendering of a screen and the
  outcome of a commit over a row that changed meanwhile are arguments. A handler that suspends
  while it fetches is two steps. The texts are values of a datatype. Instants are microseconds.
\<close>

section \<open>The list of accounts\<close>

record account_stats =
  as_groups_count :: nat
  as_schedules_count :: nat
  as_send_attempts :: nat
  as_send_success :: nat
  as_last_sent_at :: "int option"

definition sends_through :: "int \<Rightarrow> int \<Rightarrow> db \<Rightarrow> send_log list" where
  "sends_through uid a d =
     filter (\<lambda>l. log_user_id l = uid \<and>
         list_ex (\<lambda>g. log_group_id l = Some (grp_id g) \<and> grp_account_id g = a \<and> grp_user_id g = uid) (db_groups d))
       (db_send_logs d)"

definition stats_of :: "int \<Rightarrow> db \<Rightarrow> int \<Rightarrow> account_stats" where
  "stats_of uid d a =
     (let sends = sends_through uid a d in
      \<lparr>as_groups_count = count_where (\<lambda>g. grp_account_id g = a \<and> grp_user_id g = uid) (db_groups d),
       as_schedules_count = count_where (\<lambda>s. sch_account_id s = Some a) (db_schedules d),
       as_send_attempts = length sends,
       as_send_success = count_where (\<lambda>l. log_status l = ''ok'') sends,
       as_last_sent_at =
         fold (\<lambda>l m. case m of None \<Rightarrow> Some (log_sent_at l) | Some t \<Rightarrow> Some (max t (log_sent_at l))) sends None\<rparr>)"

definition get_account_stats :: "db \<Rightarrow> int \<Rightarrow> int list \<Rightarrow> (int \<times> account_stats) list" where
  "get_account_stats d uid ids = map (\<lambda>a. (a, stats_of uid d a)) ids"

record accounts_view =
  vw_accounts :: "account list"
  vw_stats :: "(int \<times> account_stats) list"
  vw_has_next :: bool
  vw_next_offset :: nat

definition ACCOUNTS_PAGE_SIZE :: nat where "ACCOUNTS_PAGE_SIZE = 30"

definition accounts_partial :: "int \<Rightarrow> nat \<Rightarrow> nat \<Rightarrow> db \<Rightarrow> accounts_view" where
  "accounts_partial uid offset limit d =
     (let rows = take (limit + 1) (drop offset (sort_key acc_id (filter (\<lambda>a. acc_user_id a = uid) (db_accounts d))));
          shown = take limit rows
      in \<lparr>vw_accounts = shown, vw_stats = get_account_stats d uid (map acc_id shown),
          vw_has_next = limit < length rows, vw_next_offset = offset + limit\<rparr>)"

definition accounts_list :: "int \<Rightarrow> db \<Rightarrow> accounts_view" where
  "accounts_list uid d = accounts_partial uid 0 ACCOUNTS_PAGE_SIZE d"

section \<open>The rows of a connection\<close>

definition rows_of :: "int \<Rightarrow> string \<Rightarrow> string list \<Rightarrow> db \<Rightarrow> account list" where
  "rows_of uid ty statuses d =
     filter (\<lambda>a. acc_user_id a = uid \<and> acc_type a = ty \<and> acc_status a \<in> set statuses) (db_accounts d)"

text \<open>\<open>scalar_one_or_none\<close>: more than one row raises.\<close>

fun one_or_none :: "'a list \<Rightarrow> exn + 'a option" where
  "one_or_none [] = Inr None"
| "one_or_none [x] = Inr (Some x)"
| "one_or_none (x # y # zs) = Inl MultipleResultsFound"

text \<open>The schedules are detached first; the groups go with the row.\<close>

definition drop_account :: "account \<Rightarrow> db \<Rightarrow> db" where
  "drop_account acc d =
     (let d1 = snd (detach_schedules_from_account (acc_id acc) d)
      in d1\<lparr>db_accounts := filter (\<lambda>a. acc_id a \<noteq> acc_id acc) (db_accounts d1),
            db_groups := filter (\<lambda>g. grp_account_id g \<noteq> acc_id acc) (db_groups d1)\<rparr>)"

definition drop_stale :: "int \<Rightarrow> string \<Rightarrow> db \<Rightarrow> db" where
  "drop_stale uid ty d = fold drop_account (rows_of uid ty [''connecting'', ''sync_failed''] d) d"

definition live_row :: "int \<Rightarrow> string \<Rightarrow> db \<Rightarrow> exn + account option" where
  "live_row uid ty d = one_or_none (rows_of uid ty [''active'', ''syncing''] d)"

section \<open>The pages that connect an account\<close>

record connect_view =
  cv_step :: string
  cv_qr :: pyval
  cv_connected :: bool
  cv_error :: "exn option"
  cv_empty_phone :: bool
  cv_phone :: string
  cv_account :: "int option"

definition connect_step :: "string \<Rightarrow> connect_view" where
  "connect_step s = \<lparr>cv_step = s, cv_qr = PNone, cv_connected = False, cv_error = None, cv_empty_phone = False,
     cv_phone = [], cv_account = None\<rparr>"

type_synonym connect_markup = "connect_view \<Rightarrow> exn + body_response"

definition shown :: "exn + body_response \<Rightarrow> exn + reply" where
  "shown r = bind_res r (\<lambda>b. Inr (BodyResponse b))"

definition page_for :: "sign_env \<Rightarrow> int \<Rightarrow> http_request \<Rightarrow> db \<Rightarrow> (user \<Rightarrow> (exn + reply) \<times> db) \<Rightarrow> (exn + reply) \<times> db" where
  "page_for en now rq d k =
     (case page_request en now rq d of
        Inl e \<Rightarrow> (Inl e, d)
      | Inr None \<Rightarrow> (Inr (RedirectResponse ''/login''), d)
      | Inr (Some u) \<Rightarrow> k u)"

text \<open>A page over the stale rows: one that lives sends to the list, the stale ones are dropped.\<close>

definition connect_page :: "int \<Rightarrow> string \<Rightarrow> db \<Rightarrow> (db \<Rightarrow> (exn + reply) \<times> db) \<Rightarrow> (exn + reply) \<times> db" where
  "connect_page uid ty d k =
     (case live_row uid ty d of
        Inl e \<Rightarrow> (Inl e, d)
      | Inr (Some a) \<Rightarrow> (Inr (RedirectResponse ''/accounts''), d)
      | Inr None \<Rightarrow> k (drop_stale uid ty d))"

text \<open>What is read off the answer about the code; an answer that is no object raises.\<close>

definition wa_qr_step :: "int \<Rightarrow> pyval \<Rightarrow> connect_view" where
  "wa_qr_step i qr_data =
     (let v = (connect_step ''qr'')\<lparr>cv_account := Some i\<rparr> in
      case bind_res (py_get qr_data ''qr'' PNone) (\<lambda>q. bind_res (py_get qr_data ''status'' PNone) (\<lambda>st. Inr (q, st))) of
        Inl e \<Rightarrow> v\<lparr>cv_error := Some e\<rparr>
      | Inr (q, st) \<Rightarrow> v\<lparr>cv_qr := q, cv_connected := (st = PStr ''connected'')\<rparr>)"

definition wa_connect_page ::
  "sign_env \<Rightarrow> connect_markup \<Rightarrow> http_answer \<Rightarrow> int \<Rightarrow> http_request \<Rightarrow> db \<Rightarrow> (exn + reply) \<times> db" where
  "wa_connect_page en markup qr now rq d =
     page_for en now rq d (\<lambda>u. connect_page (user_id u) ''wa'' d (\<lambda>d1.
       let a = new_account (user_id u) ''wa'' ''pending'' ''connecting'' now d1
       in (shown (markup (wa_qr_step (acc_id a) (wa_get_qr qr))), add_account a d1)))"

definition max_connect_page ::
  "sign_env \<Rightarrow> connect_markup \<Rightarrow> int \<Rightarrow> http_request \<Rightarrow> db \<Rightarrow> (exn + reply) \<times> db" where
  "max_connect_page en markup now rq d =
     page_for en now rq d (\<lambda>u. connect_page (user_id u) ''max'' d (\<lambda>d1. (shown (markup (connect_step ''phone'')), d1)))"

text \<open>The phone: a row that is being connected is used again, otherwise there is a new one.\<close>

definition pending_max :: "int \<Rightarrow> string \<Rightarrow> int \<Rightarrow> db \<Rightarrow> db" where
  "pending_max uid phone now d =
     (case rows_of uid ''max'' [''connecting''] d of
        a # _ \<Rightarrow> set_account (acc_id a) (\<lambda>r. r\<lparr>acc_credentials := phone\<rparr>) d
      | [] \<Rightarrow> add_account (new_account uid ''max'' phone ''connecting'' now d) d)"

definition max_qr_step :: "pyval \<Rightarrow> connect_view" where
  "max_qr_step qr_data =
     (case py_get qr_data ''qr'' PNone of
        Inl e \<Rightarrow> (connect_step ''qr'')\<lparr>cv_error := Some e\<rparr>
      | Inr q \<Rightarrow> (connect_step ''qr'')\<lparr>cv_qr := (if truthy q then q else PNone)\<rparr>)"

definition max_connect_start ::
  "sign_env \<Rightarrow> (string \<Rightarrow> string) \<Rightarrow> connect_markup \<Rightarrow> connect_markup \<Rightarrow> http_answer \<Rightarrow> int \<Rightarrow> http_request \<Rightarrow> string \<Rightarrow>
     db \<Rightarrow> (exn + reply) \<times> db" where
  "max_connect_start en oob page markup qr now rq submitted d =
     for_user en oob now rq d d (\<lambda>u.
       let phone = strip submitted in
       if phone = [] then
         (let v = (connect_step ''phone'')\<lparr>cv_empty_phone := True, cv_phone := submitted\<rparr>
          in (respond_field_error rq (page v) (markup v), d))
       else (respond oob rq ''/accounts'' None (Some (markup (max_qr_step (max_get_qr qr)))),
             pending_max (user_id u) phone now d))"

section \<open>Asking how a connection stands\<close>

datatype status_notice =
    NotSignedIn
  | NoConnection
  | ConnectedNotice
  | QrNotice pyval
  | WaitingNotice
  | BridgeFailure
  | AccountNotFound
  | StatusCard string string "account_stats option"
  | NoNotice

type_synonym sync_queue = "(string \<times> int) list"

definition sync_task_name :: "string \<Rightarrow> string" where
  "sync_task_name ty =
     (if ty = ''max'' then ''app.worker.tasks.sync_max_groups'' else ''app.worker.tasks.sync_wa_groups'')"

text \<open>
  The row is committed as in synchronisation before the task is handed to the broker; what is raised
  from there on is a notice.
\<close>

definition connection_status ::
  "string \<Rightarrow> pyval \<Rightarrow> pyval \<Rightarrow> bool \<Rightarrow> int \<Rightarrow> db \<Rightarrow> sync_queue \<Rightarrow> (exn + status_notice) \<times> db \<times> sync_queue" where
  "connection_status ty is_connected qr_data broker uid d q =
     (case one_or_none (rows_of uid ty [''connecting''] d) of
        Inl e \<Rightarrow> (Inl e, d, q)
      | Inr None \<Rightarrow> (Inr NoConnection, d, q)
      | Inr (Some a) \<Rightarrow>
          if truthy is_connected then
            (let d1 = set_account (acc_id a)
                        (\<lambda>r. r\<lparr>acc_credentials := int_str (acc_id a), acc_status := ''syncing''\<rparr>) d
             in if broker then (Inr ConnectedNotice, d1, q @ [(sync_task_name ty, acc_id a)])
                else (Inr BridgeFailure, d1, q))
          else (case py_get qr_data ''qr'' PNone of
                  Inl e \<Rightarrow> (Inr BridgeFailure, d, q)
                | Inr v \<Rightarrow> (Inr (if truthy v then QrNotice v else WaitingNotice), d, q)))"

definition status_for ::
  "sign_env \<Rightarrow> int \<Rightarrow> http_request \<Rightarrow> db \<Rightarrow> 's \<Rightarrow> (user \<Rightarrow> (exn + status_notice) \<times> 's) \<Rightarrow> (exn + status_notice) \<times> 's" where
  "status_for en now rq d s k =
     (case page_request en now rq d of
        Inl e \<Rightarrow> (Inl e, s)
      | Inr None \<Rightarrow> (Inr NotSignedIn, s)
      | Inr (Some u) \<Rightarrow> k u)"

definition wa_connect_status ::
  "sign_env \<Rightarrow> http_answer \<Rightarrow> http_answer \<Rightarrow> bool \<Rightarrow> int \<Rightarrow> http_request \<Rightarrow> db \<times> sync_queue \<Rightarrow>
     (exn + status_notice) \<times> db \<times> sync_queue" where
  "wa_connect_status en check qr broker now rq s =
     status_for en now rq (fst s) s (\<lambda>u.
       connection_status ''wa'' (wa_check_connection check) (wa_get_qr qr) broker (user_id u) (fst s) (snd s))"

definition max_connect_status ::
  "sign_env \<Rightarrow> http_answer \<Rightarrow> http_answer \<Rightarrow> bool \<Rightarrow> int \<Rightarrow> http_request \<Rightarrow> db \<times> sync_queue \<Rightarrow>
     (exn + status_notice) \<times> db \<times> sync_queue" where
  "max_connect_status en check qr broker now rq s =
     status_for en now rq (fst s) s (\<lambda>u.
       connection_status ''max'' (max_check_connection check) (max_get_qr qr) broker (user_id u) (fst s) (snd s))"

definition accounts_sync_status ::
  "sign_env \<Rightarrow> int \<Rightarrow> http_request \<Rightarrow> int \<Rightarrow> db \<Rightarrow> exn + status_notice" where
  "accounts_sync_status en now rq i d =
     fst (status_for en now rq d () (\<lambda>u.
       (Inr (case get_sync_status_view (user_id u) i d of
               None \<Rightarrow> AccountNotFound
             | Some (st, ty) \<Rightarrow>
                 if st \<in> {''active'', ''sync_failed'', ''syncing''}
                 then StatusCard st ty (if st = ''active'' then Some (stats_of (user_id u) d i) else None)
                 else NoNotice), ())))"

section \<open>The buttons of an account\<close>

definition groups_url :: "int \<Rightarrow> string" where
  "groups_url i = ''/accounts/'' @ int_str i @ ''/groups''"

definition own_account :: "int \<Rightarrow> int \<Rightarrow> db \<Rightarrow> account option" where
  "own_account uid i d = (if id_in_column i then owned_account uid i d else None)"

text \<open>
  Asking the bridge to synchronise again never raises; the row is committed before the task is handed
  to the broker, whose refusal is raised.
\<close>

definition accounts_retry_sync ::
  "sign_env \<Rightarrow> (string \<Rightarrow> string) \<Rightarrow> exn option \<Rightarrow> int \<Rightarrow> http_request \<Rightarrow> int \<Rightarrow> db \<times> sync_queue \<Rightarrow>
     (exn + reply) \<times> db \<times> sync_queue" where
  "accounts_retry_sync en oob broker now rq i s =
     for_user en oob now rq (fst s) s (\<lambda>u.
       case own_account (user_id u) i (fst s) of
         None \<Rightarrow> (respond oob rq ''/accounts'' None None, s)
       | Some a \<Rightarrow>
           if acc_type a \<notin> {''wa'', ''max''} then (respond oob rq ''/accounts'' None None, s)
           else
             let d1 = set_account (acc_id a) (\<lambda>r. r\<lparr>acc_status := ''syncing''\<rparr>) (fst s) in
             (case broker of
                Some e \<Rightarrow> (Inl e, d1, snd s)
              | None \<Rightarrow> (respond oob rq (groups_url i) None None, d1, snd s @ [(sync_task_name (acc_type a), acc_id a)])))"

text \<open>The accounts whose groups are being fetched by this process.\<close>

definition claim_sync_slot :: "int \<Rightarrow> int set \<Rightarrow> bool \<times> int set" where
  "claim_sync_slot i slots = (if i \<in> slots then (False, slots) else (True, insert i slots))"

definition release_sync_slot :: "int \<Rightarrow> int set \<Rightarrow> int set" where
  "release_sync_slot i slots = slots - {i}"

text \<open>The first half of the button: an answer, or the account whose groups are to be fetched.\<close>

definition sync_groups_begin ::
  "sign_env \<Rightarrow> (string \<Rightarrow> string) \<Rightarrow> int \<Rightarrow> http_request \<Rightarrow> int \<Rightarrow> db \<Rightarrow> int set \<Rightarrow> ((exn + reply) + account) \<times> int set" where
  "sync_groups_begin en oob now rq i d slots =
     (let home = respond oob rq (groups_url i) None None in
      case page_request en now rq d of
        Inl e \<Rightarrow> (Inl (Inl e), slots)
      | Inr None \<Rightarrow> (Inl (respond oob rq ''/login'' None None), slots)
      | Inr (Some u) \<Rightarrow>
          (case own_account (user_id u) i d of
             None \<Rightarrow> (Inl (respond oob rq ''/accounts'' None None), slots)
           | Some a \<Rightarrow>
               if acc_type a \<notin> {''tg_user'', ''wa'', ''max''} then (Inl home, slots)
               else if acc_status a = ''syncing'' then (Inl home, slots)
               else (case claim_sync_slot i slots of
                       (False, slots') \<Rightarrow> (Inl home, slots')
                     | (True, slots') \<Rightarrow> (Inr a, slots'))))"

text \<open>
  The second half, on the database as it is when the groups are there. A commit can meet a row that
  another process wrote meanwhile, or a row that is gone.
\<close>

datatype commit_outcome = Committed | CommitConflict | CommitRaised exn

definition CONFLICT_MESSAGE :: string where
  "CONFLICT_MESSAGE = ''The synchronisation has run already: open the screen again''"

definition committed :: "commit_outcome \<Rightarrow> exn + reply \<Rightarrow> db \<Rightarrow> db \<Rightarrow> (exn + reply) \<times> db" where
  "committed outcome r d' d =
     (case outcome of
        Committed \<Rightarrow> (r, d')
      | CommitConflict \<Rightarrow> (Inl IntegrityError, d)
      | CommitRaised e \<Rightarrow> (Inl e, d))"

definition sync_groups_end ::
  "(string \<Rightarrow> string) \<Rightarrow> int \<Rightarrow> http_request \<Rightarrow> fetched \<Rightarrow> commit_outcome \<Rightarrow> account \<Rightarrow> int \<Rightarrow> db \<Rightarrow> int set \<Rightarrow>
     ((exn + reply) \<times> db) \<times> int set" where
  "sync_groups_end oob now rq answer outcome acc i d slots =
     (let home = respond oob rq (groups_url i) None None in
      ((case answer of
          FetchError txt \<Rightarrow>
            committed outcome home (record_sync_failure acc (if txt = [] then ''MessengerFetchError'' else txt) d) d
        | FetchRaised e \<Rightarrow> committed outcome home (record_sync_failure acc UNEXPECTED_FAILURE_MESSAGE d) d
        | Fetched items \<Rightarrow>
            (case outcome of
               Committed \<Rightarrow> (home, snd (apply_group_resync now False (acc_type acc) acc items d))
             | CommitRaised e \<Rightarrow> (Inl e, d)
             | CommitConflict \<Rightarrow>
                 (home, (case find_row acc_id i (db_accounts d) of
                           None \<Rightarrow> d
                         | Some a \<Rightarrow> record_sync_failure a CONFLICT_MESSAGE d)))),
       release_sync_slot i slots))"

definition accounts_delete ::
  "sign_env \<Rightarrow> url_lib \<Rightarrow> (string \<Rightarrow> string) \<Rightarrow> int \<Rightarrow> http_request \<Rightarrow> int \<Rightarrow> db \<Rightarrow> (exn + reply) \<times> db" where
  "accounts_delete en lib oob now rq i d =
     for_user en oob now rq d d (\<lambda>u.
       case is_same_origin lib rq of
         Inl e \<Rightarrow> (Inl e, d)
       | Inr False \<Rightarrow> (Inr (EmptyStatus 403), d)
       | Inr True \<Rightarrow>
           (respond oob rq ''/accounts'' None None,
            if id_in_column i then snd (delete_account (user_id u) i d) else d))"

section \<open>Dropping an account\<close>

lemma drop_account_simps [simp]:
  "db_accounts (drop_account acc d) = filter (\<lambda>a. acc_id a \<noteq> acc_id acc) (db_accounts d)"
  "db_groups (drop_account acc d) = filter (\<lambda>g. grp_account_id g \<noteq> acc_id acc) (db_groups d)"
  "db_schedules (drop_account acc d) =
     update_where (\<lambda>s. sch_account_id s = Some (acc_id acc)) detached (db_schedules d)"
  "db_users (drop_account acc d) = db_users d" "db_subscriptions (drop_account acc d) = db_subscriptions d"
  by (simp_all add: drop_account_def detach_schedules_from_account_def Let_def)

lemma delete_is_drop:
  "delete_account uid i d = (case owned_account uid i d of None \<Rightarrow> (False, d) | Some a \<Rightarrow> (True, drop_account a d))"
  by (simp add: delete_account_def drop_account_def Let_def split: option.split)

lemma fold_drop_accounts:
  "db_accounts (fold drop_account xs d) = filter (\<lambda>a. acc_id a \<notin> acc_id ` set xs) (db_accounts d)"
  "db_groups (fold drop_account xs d) = filter (\<lambda>g. grp_account_id g \<notin> acc_id ` set xs) (db_groups d)"
  by (induction xs arbitrary: d) (auto intro: filter_cong)

lemma fold_drop_schedules:
  "db_schedules (fold drop_account xs d) =
     update_where (\<lambda>s. \<exists>a \<in> set xs. sch_account_id s = Some (acc_id a)) detached (db_schedules d)"
proof (induction xs arbitrary: d)
  case (Cons a xs)
  have "update_where Q detached (update_where P detached ss) = update_where (\<lambda>s. P s \<or> Q s) detached ss"
    if "\<And>s. \<not> Q (detached s)" for P Q and ss :: "schedule list"
    using that by (auto simp: update_where_def)
  moreover have "\<not> (\<exists>b \<in> set xs. sch_account_id (detached s) = Some (acc_id b))" for s
    by (simp add: detached_def)
  ultimately show ?case using Cons by simp
qed (simp add: update_where_def)

lemma drop_stale_rows:
  "db_accounts (drop_stale uid ty d) =
     filter (\<lambda>a. acc_id a \<notin> acc_id ` set (rows_of uid ty [''connecting'', ''sync_failed''] d)) (db_accounts d)"
  by (simp add: drop_stale_def fold_drop_accounts)

lemma rows_of_iff: "a \<in> set (rows_of uid ty sts d) \<longleftrightarrow>
    a \<in> set (db_accounts d) \<and> acc_user_id a = uid \<and> acc_type a = ty \<and> acc_status a \<in> set sts"
  by (auto simp: rows_of_def)

section \<open>One WhatsApp account for one user\<close>

definition known_status :: "string \<Rightarrow> bool" where
  "known_status st \<longleftrightarrow> st \<in> {''active'', ''syncing'', ''connecting'', ''sync_failed''}"

definition user_rows :: "int \<Rightarrow> string \<Rightarrow> db \<Rightarrow> account list" where
  "user_rows uid ty d = filter (\<lambda>a. acc_user_id a = uid \<and> acc_type a = ty) (db_accounts d)"

definition single :: "string \<Rightarrow> db \<Rightarrow> bool" where
  "single ty d \<longleftrightarrow> (\<forall>uid. length (user_rows uid ty d) \<le> 1) \<and>
     (\<forall>a \<in> set (db_accounts d). acc_type a = ty \<longrightarrow> known_status (acc_status a))"

text \<open>Writing to rows without touching their user or type.\<close>

definition same_row :: "account \<Rightarrow> account \<Rightarrow> bool" where
  "same_row a b \<longleftrightarrow> acc_user_id b = acc_user_id a \<and> acc_type b = acc_type a \<and>
     (acc_status b = acc_status a \<or> known_status (acc_status b))"

definition relabelled :: "db \<Rightarrow> db \<Rightarrow> bool" where
  "relabelled d d' \<longleftrightarrow> list_all2 same_row (db_accounts d) (db_accounts d')"

lemma same_row_refl [simp]: "same_row a a"
  by (simp add: same_row_def)

lemma relabelled_refl [simp]: "relabelled d d"
  by (simp add: relabelled_def list_all2_refl)

lemma relabelled_same: "db_accounts d' = db_accounts d \<Longrightarrow> relabelled d d'"
  by (simp add: relabelled_def list_all2_refl)

lemma relabelled_trans: "relabelled d d1 \<Longrightarrow> relabelled d1 d2 \<Longrightarrow> relabelled d d2"
  unfolding relabelled_def by (erule (1) list_all2_trans [rotated]) (auto simp: same_row_def)

lemma relabelled_set_account: "(\<And>a. same_row a (f a)) \<Longrightarrow> relabelled d (set_account i f d)"
  by (simp add: relabelled_def set_account_def update_where_def list_all2_map2 list_all2_same)

lemma same_row_status [simp]: "known_status st \<Longrightarrow> same_row a (a\<lparr>acc_status := st\<rparr>)"
  by (simp add: same_row_def)

lemma relabelled_failure [simp]: "relabelled d (record_sync_failure acc msg d)"
  unfolding record_sync_failure_def by (rule relabelled_set_account) (simp add: same_row_def)

lemma relabelled_resync [simp]: "relabelled d (snd (apply_group_resync now wipe mt acc items d))"
proof -
  have "relabelled d (set_account i f (d\<lparr>db_groups := gs\<rparr>))" if "\<And>a. same_row a (f a)" for i f gs
    by (rule relabelled_trans [OF relabelled_same relabelled_set_account]) (simp_all add: that)
  then show ?thesis
    by (simp add: apply_group_resync_def Let_def same_row_def split: pyval.split)
qed

lemma relabelled_sync: "relabelled d (snd (sync_groups get now mt i d))"
proof -
  have fails: "relabelled d (fail_sync i msg d)" for msg
    unfolding fail_sync_def
    by (auto split: option.split intro!: relabelled_trans [OF relabelled_failure relabelled_set_account] simp: known_status_def)
  have "relabelled d (set_account i (\<lambda>a. a\<lparr>acc_status := ''active''\<rparr>) (snd (apply_group_resync now False mt acc items d)))"
    for acc items
    by (rule relabelled_trans [OF relabelled_resync relabelled_set_account]) (simp add: known_status_def)
  with fails show ?thesis
    by (auto simp: sync_groups_def split: poll_end.split option.split prod.split) (metis snd_conv)
qed

lemma relabelled_single:
  assumes "relabelled d d'" "single ty d"
  shows "single ty d'"
proof -
  have "length (filter (\<lambda>a. acc_user_id a = uid \<and> acc_type a = ty) xs) =
      length (filter (\<lambda>a. acc_user_id a = uid \<and> acc_type a = ty) ys)" if "list_all2 same_row xs ys" for uid xs ys
    using that by (induction rule: list_all2_induct) (auto simp: same_row_def)
  moreover have "\<forall>b \<in> set ys. acc_type b = ty \<longrightarrow> known_status (acc_status b)"
    if "list_all2 same_row xs ys" "\<forall>a \<in> set xs. acc_type a = ty \<longrightarrow> known_status (acc_status a)" for xs ys
    using that by (induction rule: list_all2_induct) (auto simp: same_row_def)
  moreover have l: "list_all2 same_row (db_accounts d) (db_accounts d')" using assms(1) by (simp add: relabelled_def)
  ultimately show ?thesis
    using assms(2) by (simp add: single_def user_rows_def)
qed

text \<open>Fewer rows, and a new row for a user without one.\<close>

lemma single_fewer:
  assumes "db_accounts d' = filter P (db_accounts d)" "single ty d"
  shows "single ty d'"
proof -
  have "user_rows uid ty d' = filter P (user_rows uid ty d)" for uid
    by (simp add: user_rows_def assms(1) conj_commute conj_left_commute)
  with assms(2) have "length (user_rows uid ty d') \<le> 1" for uid
    by (metis length_filter_le order_trans single_def)
  with assms show ?thesis by (simp add: single_def)
qed

lemma single_add:
  assumes "single ty d" "acc_type a = ty \<Longrightarrow> user_rows (acc_user_id a) ty d = [] \<and> known_status (acc_status a)"
  shows "single ty (add_account a d)"
  using assms by (auto simp: single_def user_rows_def add_account_def)

lemma new_account_simps [simp]:
  "acc_user_id (new_account uid ty c st now d) = uid" "acc_type (new_account uid ty c st now d) = ty"
  "acc_status (new_account uid ty c st now d) = st" "acc_credentials (new_account uid ty c st now d) = c"
  by (simp_all add: new_account_def)

lemma one_or_none_cases:
  "(one_or_none xs = Inr None) = (xs = [])"
  "(one_or_none xs = Inr (Some x)) = (xs = [x])"
  by (induction xs rule: one_or_none.induct) auto

text \<open>Without a live row all rows of the user are stale, and none is left.\<close>

lemma drop_stale_leaves_none:
  assumes "single ty d" "live_row uid ty d = Inr None"
  shows "user_rows uid ty (drop_stale uid ty d) = [] \<and> single ty (drop_stale uid ty d)"
proof
  show "single ty (drop_stale uid ty d)" by (rule single_fewer [OF drop_stale_rows assms(1)])
  have "a \<in> set (rows_of uid ty [''connecting'', ''sync_failed''] d)"
    if "a \<in> set (db_accounts d)" "acc_user_id a = uid" "acc_type a = ty" for a
    using that assms by (auto simp: single_def known_status_def rows_of_iff live_row_def one_or_none_cases rows_of_def filter_empty_conv)
  then show "user_rows uid ty (drop_stale uid ty d) = []"
    by (auto simp: user_rows_def drop_stale_rows filter_empty_conv)
qed

lemma live_row_single: "single ty d \<Longrightarrow> \<exists>r. one_or_none (rows_of uid ty sts d) = Inr r"
proof -
  assume "single ty d"
  moreover have "rows_of uid ty sts d = filter (\<lambda>a. acc_status a \<in> set sts) (user_rows uid ty d)"
    by (simp add: rows_of_def user_rows_def conj_commute conj_left_commute)
  ultimately have "length (rows_of uid ty sts d) \<le> 1"
    by (metis length_filter_le order_trans single_def)
  then show ?thesis by (cases "rows_of uid ty sts d" rule: one_or_none.cases) auto
qed

text \<open>What can happen to the accounts: every handler and task that writes to them.\<close>

inductive account_step :: "db \<Rightarrow> db \<Rightarrow> bool" where
  wa_page: "account_step d (snd (wa_connect_page en markup qr now rq d))"
| max_page: "account_step d (snd (max_connect_page en markup now rq d))"
| max_start: "account_step d (snd (max_connect_start en oob page markup qr now rq submitted d))"
| wa_status: "account_step d (fst (snd (wa_connect_status en check qr broker now rq (d, q))))"
| max_status: "account_step d (fst (snd (max_connect_status en check qr broker now rq (d, q))))"
| retry: "account_step d (fst (snd (accounts_retry_sync en oob refusal now rq i (d, q))))"
| synced: "account_step d (snd (sync_groups get now mt i d))"
| fetched_groups: "account_step d (snd (fst (sync_groups_end oob now rq answer outcome acc i d slots)))"
| telegram: "account_step d (fst (snd (tg_qr_status en oob tg_markup no_content now rq sid (d, m))))"
| deleted: "account_step d (snd (accounts_delete en lib oob now rq i d))"

inductive_cases account_stepE: "account_step d d'"

lemma page_for_rule: "P d \<Longrightarrow> (\<And>u. P (snd (k u))) \<Longrightarrow> P (snd (page_for en now rq d k))"
  by (simp add: page_for_def split: sum.split option.split)

lemma for_user_state: "snd (for_user en oob now rq d s k) = s \<or> (\<exists>u. snd (for_user en oob now rq d s k) = snd (k u))"
  by (auto simp: for_user_def split: sum.splits option.splits)

lemma connect_page_rule:
  "P d \<Longrightarrow> (live_row uid ty d = Inr None \<Longrightarrow> P (snd (k (drop_stale uid ty d)))) \<Longrightarrow> P (snd (connect_page uid ty d k))"
  by (simp add: connect_page_def split: sum.split option.split)

lemma single_wa_page:
  assumes "single ''wa'' d"
  shows "single ''wa'' (snd (wa_connect_page en markup qr now rq d))"
  unfolding wa_connect_page_def
proof (rule page_for_rule [where P = "single ''wa''", OF assms], rule connect_page_rule [where P = "single ''wa''", OF assms])
  fix u :: user
  assume live: "live_row (user_id u) ''wa'' d = Inr None"
  let ?d = "drop_stale (user_id u) ''wa'' d"
  have "single ''wa'' (add_account (new_account (user_id u) ''wa'' ''pending'' ''connecting'' now ?d) ?d)"
    by (rule single_add) (use drop_stale_leaves_none [OF assms live] in \<open>simp_all add: known_status_def\<close>)
  then show "single ''wa'' (snd (let a = new_account (user_id u) ''wa'' ''pending'' ''connecting'' now ?d
      in (shown (markup (wa_qr_step (acc_id a) (wa_get_qr qr))), add_account a ?d)))"
    by (simp add: Let_def)
qed

lemma single_max_page: "single ty d \<Longrightarrow> single ty (snd (max_connect_page en markup now rq d))"
  unfolding max_connect_page_def
  by (rule page_for_rule [where P = "single ty"], assumption, rule connect_page_rule [where P = "single ty"]) (simp_all add: single_fewer [OF drop_stale_rows])

lemma single_pending: "single ''wa'' d \<Longrightarrow> single ''wa'' (pending_max uid phone now d)"
proof (cases "rows_of uid ''max'' [''connecting''] d")
  case Nil
  assume "single ''wa'' d"
  then have "single ''wa'' (add_account (new_account uid ''max'' phone ''connecting'' now d) d)"
    by (rule single_add) simp
  then show ?thesis by (simp add: pending_max_def Nil)
next
  case (Cons a as)
  have "relabelled d (set_account (acc_id a) (\<lambda>r. r\<lparr>acc_credentials := phone\<rparr>) d)"
    by (rule relabelled_set_account) (simp add: same_row_def)
  moreover assume "single ''wa'' d"
  ultimately show ?thesis by (simp add: pending_max_def Cons relabelled_single)
qed

lemma connection_status_relabels: "relabelled d (fst (snd (connection_status ty c v broker uid d q)))"
  by (auto simp: connection_status_def Let_def same_row_def known_status_def
      split: sum.split option.split intro!: relabelled_set_account)

lemma account_step_single:
  assumes "account_step d d'" "single ''wa'' d"
  shows "single ''wa'' d'"
  using assms(1)
proof (cases rule: account_step.cases)
  case wa_page
  with assms(2) show ?thesis by (simp add: single_wa_page)
next
  case max_page
  with assms(2) show ?thesis by (simp add: single_max_page)
next
  case (max_start en oob page markup qr now rq submitted)
  then show ?thesis
    using assms(2) for_user_state [of en oob now rq d d]
    by (auto simp: max_connect_start_def for_user_def Let_def single_pending split: sum.splits option.splits)
next
  case (wa_status en check qr broker now rq q)
  have "relabelled d d'"
    unfolding wa_status wa_connect_status_def status_for_def
    by (auto split: sum.split option.split simp: connection_status_relabels)
  then show ?thesis using assms(2) by (rule relabelled_single)
next
  case (max_status en check qr broker now rq q)
  have "relabelled d d'"
    unfolding max_status max_connect_status_def status_for_def
    by (auto split: sum.split option.split simp: connection_status_relabels)
  then show ?thesis using assms(2) by (rule relabelled_single)
next
  case (retry en oob refusal now rq i q)
  have "relabelled d d'"
    unfolding retry accounts_retry_sync_def for_user_def
    by (auto simp: Let_def known_status_def split: sum.split option.split intro!: relabelled_set_account)
  then show ?thesis using assms(2) by (rule relabelled_single)
next
  case synced
  then have "relabelled d d'" by (simp add: relabelled_sync)
  then show ?thesis using assms(2) by (rule relabelled_single)
next
  case (fetched_groups oob now rq answer outcome acc i slots)
  have "relabelled d d'"
    unfolding fetched_groups sync_groups_end_def committed_def
    by (auto simp: Let_def split: fetched.split commit_outcome.split option.split)
  then show ?thesis using assms(2) by (rule relabelled_single)
next
  case (telegram en oob tg_markup no_content now rq sid m)
  obtain r m' where run: "tg_qr_status en oob tg_markup no_content now rq sid (d, m) = (r, d', m')"
    using telegram by (cases "tg_qr_status en oob tg_markup no_content now rq sid (d, m)") auto
  from qr_status_saves_own_account [OF run] show ?thesis
  proof
    assume "d' = d"
    with assms(2) show ?thesis by simp
  next
    assume "\<exists>u st str. page_request en now rq d = Inr (Some u) \<and> m sid = Some st \<and> qs_user st = user_id u \<and>
      qs_status st = ''success'' \<and> qs_session_string st = Some str \<and> str \<noteq> [] \<and> m' sid = None \<and>
      d' = d\<lparr>db_accounts := db_accounts d @ [new_account (user_id u) ''tg_user'' str ''active'' now d]\<rparr>"
    then obtain u :: user and str where
      "d' = d\<lparr>db_accounts := db_accounts d @ [new_account (user_id u) ''tg_user'' str ''active'' now d]\<rparr>" by blast
    with single_add [OF assms(2), of "new_account (user_id u) ''tg_user'' str ''active'' now d"] show ?thesis
      by (simp add: add_account_def)
  qed
next
  case (deleted en lib oob now rq i)
  have "d' = d \<or> (\<exists>a. d' = drop_account a d)"
    unfolding deleted accounts_delete_def for_user_def
    by (auto simp: delete_is_drop split: sum.split option.split bool.split)
  then show ?thesis using assms(2) single_fewer [OF drop_account_simps(1) assms(2)] by auto
qed

inductive accounts_reached :: "db \<Rightarrow> db \<Rightarrow> bool" for d0 where
  start: "accounts_reached d0 d0"
| step: "accounts_reached d0 d \<Longrightarrow> account_step d d' \<Longrightarrow> accounts_reached d0 d'"

lemma reached_single: "accounts_reached d0 d \<Longrightarrow> single ''wa'' d0 \<Longrightarrow> single ''wa'' d"
  by (induction rule: accounts_reached.induct) (auto intro: account_step_single)


definition silent_markup :: connect_markup where "silent_markup v = Inl ValueError"

lemma sample_page_run:
  "page_request (sample_env (two_tokens None)) 5 cookie_request sample_db = Inr (Some sample_user)"
  by (rule sample_page_request) (simp_all add: sample_db_def)

lemma sample_no_rows [simp]: "rows_of uid ty sts sample_db = []"
  by (simp add: rows_of_def sample_db_def empty_db_def)

lemma sample_wa_page:
  "snd (wa_connect_page (sample_env (two_tokens None)) silent_markup (HttpRaised [] []) 5 cookie_request sample_db) =
     add_account (new_account 1 ''wa'' ''pending'' ''connecting'' 5 sample_db) sample_db"
  by (simp add: wa_connect_page_def page_for_def sample_page_run connect_page_def live_row_def drop_stale_def Let_def sample_user_def)


section \<open>A second MAX account\<close>

lemma rows_of_add:
  "rows_of uid ty sts (add_account a d) =
     rows_of uid ty sts d @ (if acc_user_id a = uid \<and> acc_type a = ty \<and> acc_status a \<in> set sts then [a] else [])"
  by (simp add: rows_of_def add_account_def)

lemma update_where_append: "update_where P f (xs @ ys) = update_where P f xs @ update_where P f ys"
  by (simp add: update_where_def)

lemma update_where_absent: "(\<And>x. x \<in> set xs \<Longrightarrow> \<not> P x) \<Longrightarrow> update_where P f xs = xs"
  by (induction xs) (simp_all add: update_where_def)

text \<open>
  The form of MAX does not look for an account that lives already. A user who has one, sends the form
  and is connected has two, and from then on the page raises.
\<close>

lemma second_max_account_breaks_the_page:
  assumes "live_row uid ''max'' d = Inr (Some a)" "rows_of uid ''max'' [''connecting''] d = []"
    and "connection_status ''max'' (PBool True) qr True uid (pending_max uid phone now d) q = (answer, d2, q2)"
    and "page_request en now2 rq d2 = Inr (Some u)" "user_id u = uid"
  shows "answer = Inr ConnectedNotice \<and> fst (max_connect_page en markup now2 rq d2) = Inl MultipleResultsFound"
proof -
  let ?n = "new_account uid ''max'' phone ''connecting'' now d"
  let ?f = "\<lambda>r. r\<lparr>acc_credentials := int_str (acc_id ?n), acc_status := ''syncing''\<rparr>"
  have pending: "pending_max uid phone now d = add_account ?n d" by (simp add: pending_max_def assms(2))
  have rows: "rows_of uid ''max'' [''connecting''] (add_account ?n d) = [?n]" by (simp add: rows_of_add assms(2))
  have run: "answer = Inr ConnectedNotice" "d2 = set_account (acc_id ?n) ?f (add_account ?n d)"
    using assms(3) by (auto simp: pending connection_status_def rows Let_def)
  have "acc_id r \<noteq> acc_id ?n" if "r \<in> set (db_accounts d)" for r
    using next_id_fresh [where key = acc_id, OF that] by (simp add: new_account_def)
  then have "db_accounts d2 = db_accounts d @ [?f ?n]"
    by (simp add: run(2) set_account_def add_account_def update_where_append update_where_absent update_where_simps)
  moreover have "[r \<leftarrow> db_accounts d. acc_user_id r = uid \<and> acc_type r = ''max'' \<and> acc_status r \<in> set [''active'', ''syncing'']] = [a]"
    using assms(1) by (simp add: live_row_def one_or_none_cases rows_of_def)
  ultimately have "rows_of uid ''max'' [''active'', ''syncing''] d2 = [a, ?f ?n]" by (simp add: rows_of_def)
  with assms(4,5) run(1) show ?thesis by (simp add: max_connect_page_def page_for_def connect_page_def live_row_def)
qed

definition max_row :: account where
  "max_row = \<lparr>acc_id = 1, acc_user_id = 1, acc_type = ''max'', acc_credentials = ''1'', acc_session_data = None,
     acc_status = ''active'', acc_last_synced_at = None, acc_last_sync_result = None, acc_created_at = 0\<rparr>"

lemma set_account_frame [simp]:
  "db_users (set_account i f d) = db_users d" "db_subscriptions (set_account i f d) = db_subscriptions d"
  by (simp_all add: set_account_def)

lemma connection_status_frame:
  "db_users (fst (snd (connection_status ty c v broker uid d q))) = db_users d \<and>
   db_subscriptions (fst (snd (connection_status ty c v broker uid d q))) = db_subscriptions d"
  by (simp add: connection_status_def Let_def split: sum.split option.split)

lemma pending_max_frame:
  "db_users (pending_max uid phone now d) = db_users d \<and> db_subscriptions (pending_max uid phone now d) = db_subscriptions d"
  by (simp add: pending_max_def add_account_def split: list.split)

lemma second_max_account_breaks_the_page_witness:
  "\<exists>d2. fst (max_connect_page (sample_env (two_tokens None)) silent_markup 5 cookie_request d2) = Inl MultipleResultsFound"
proof -
  let ?d = "sample_db\<lparr>db_accounts := [max_row]\<rparr>"
  obtain answer d2 q2 where
    run: "connection_status ''max'' (PBool True) PNone True 1 (pending_max 1 ''7'' 5 ?d) [] = (answer, d2, q2)"
    by (cases "connection_status ''max'' (PBool True) PNone True 1 (pending_max 1 ''7'' 5 ?d) []")
  have live: "live_row 1 ''max'' ?d = Inr (Some max_row)" "rows_of 1 ''max'' [''connecting''] ?d = []"
    by (simp_all add: live_row_def rows_of_def max_row_def)
  have "db_users d2 = db_users sample_db \<and> db_subscriptions d2 = db_subscriptions sample_db"
    using connection_status_frame [of "''max''" "PBool True" PNone True 1 "pending_max 1 ''7'' 5 ?d" "[]"]
      pending_max_frame [of 1 "''7''" 5 ?d] by (simp add: run)
  then have page: "page_request (sample_env (two_tokens None)) 5 cookie_request d2 = Inr (Some sample_user)"
    by (intro sample_page_request) (simp_all add: sample_db_def)
  from second_max_account_breaks_the_page [OF live run page] show ?thesis by (auto simp: sample_user_def)
qed

section \<open>An account nobody synchronises\<close>

lemma find_set_account:
  assumes "a \<in> set (db_accounts d)" "distinct (map acc_id (db_accounts d))" "\<And>r. acc_id (f r) = acc_id r \<and> acc_user_id (f r) = acc_user_id r"
  shows "owned_account (acc_user_id a) (acc_id a) (set_account (acc_id a) f d) = Some (f a)"
proof -
  have "List.find (\<lambda>r. acc_id r = acc_id a \<and> acc_user_id r = acc_user_id a) (update_where (\<lambda>r. acc_id r = acc_id a) f xs) = Some (f a)"
    if "a \<in> set xs" "distinct (map acc_id xs)" for xs
    using that
  proof (induction xs)
    case (Cons x xs)
    show ?case
    proof (cases "x = a")
      case True
      with assms(3) show ?thesis by (simp add: update_where_def)
    next
      case False
      with Cons.prems have "acc_id x \<noteq> acc_id a" by (auto simp: image_iff)
      with Cons False show ?thesis by (simp add: update_where_def)
    qed
  qed simp
  with assms(1,2) show ?thesis by (simp add: owned_account_def)
qed

text \<open>
  The poll commits the account as in synchronisation and then hands the task to the broker. When the
  broker refuses, the page says that the bridge failed, nothing is queued, and the button that fetches
  the groups turns the user away for as long as the account is in synchronisation.
\<close>

lemma refused_task_strands_the_account:
  assumes "rows_of uid ty [''connecting''] d = [a]" "truthy conn" "distinct (map acc_id (db_accounts d))"
    and "connection_status ty conn qr False uid d q = (answer, d', q')"
    and "page_request en now rq d' = Inr (Some u)" "user_id u = uid"
  shows "answer = Inr BridgeFailure \<and> q' = q \<and>
    (\<exists>a'. owned_account uid (acc_id a) d' = Some a' \<and> acc_status a' = ''syncing'') \<and>
    (\<exists>r. sync_groups_begin en oob now rq (acc_id a) d' slots = (Inl r, slots))"
proof -
  let ?f = "\<lambda>r. r\<lparr>acc_credentials := int_str (acc_id a), acc_status := ''syncing''\<rparr>"
  have run: "answer = Inr BridgeFailure" "q' = q" "d' = set_account (acc_id a) ?f d"
    using assms(1,2,4) by (auto simp: connection_status_def Let_def)
  have a: "a \<in> set (db_accounts d)" "acc_user_id a = uid"
    using rows_of_iff [of a uid ty "[''connecting'']" d] assms(1) by auto
  have found: "owned_account uid (acc_id a) d' = Some (?f a)"
    unfolding run(3) a(2) [symmetric] by (rule find_set_account [OF a(1) assms(3)]) simp
  then have "\<exists>r. sync_groups_begin en oob now rq (acc_id a) d' slots = (Inl r, slots)"
    using assms(5,6) by (simp add: sync_groups_begin_def own_account_def Let_def)
  with run found show ?thesis by auto
qed

lemma refused_task_strands_the_account_witness:
  "\<exists>d'. connection_status ''max'' (PBool True) PNone False 1 (sample_db\<lparr>db_accounts := [max_row\<lparr>acc_status := ''connecting''\<rparr>]\<rparr>) [] =
      (Inr BridgeFailure, d', []) \<and> (\<exists>a'. owned_account 1 1 d' = Some a' \<and> acc_status a' = ''syncing'')"
proof -
  let ?a = "max_row\<lparr>acc_status := ''connecting''\<rparr>"
  let ?d = "sample_db\<lparr>db_accounts := [?a]\<rparr>"
  obtain answer d' q' where run: "connection_status ''max'' (PBool True) PNone False 1 ?d [] = (answer, d', q')"
    by (cases "connection_status ''max'' (PBool True) PNone False 1 ?d []")
  have rows: "rows_of 1 ''max'' [''connecting''] ?d = [?a]" by (simp add: rows_of_def max_row_def)
  have page: "page_request (sample_env (two_tokens None)) 5 cookie_request d' = Inr (Some sample_user)"
    using connection_status_frame [of "''max''" "PBool True" PNone False 1 ?d "[]"] unfolding run
    by (intro sample_page_request) (simp_all add: sample_db_def)
  have one: "user_id sample_user = 1" "acc_id ?a = 1" by (simp_all add: sample_user_def max_row_def)
  from refused_task_strands_the_account [OF rows _ _ run page one(1)] show ?thesis
    unfolding run one(2) by simp
qed

section \<open>One fetch at a time\<close>

text \<open>
  The requests of a process: one that begins, and one that ends with whatever it fetched. The list
  holds the accounts whose groups are being fetched.
\<close>

inductive fetch_step :: "int set \<times> int list \<Rightarrow> int set \<times> int list \<Rightarrow> bool" where
  begun: "sync_groups_begin en oob now rq i d slots = (Inr a, slots') \<Longrightarrow> fetch_step (slots, running) (slots', i # running)"
| turned_away: "sync_groups_begin en oob now rq i d slots = (Inl r, slots') \<Longrightarrow> fetch_step (slots, running) (slots', running)"
| ended: "i \<in> set running \<Longrightarrow>
    fetch_step (slots, running) (snd (sync_groups_end oob now rq answer outcome a i d slots), remove1 i running)"

inductive_cases fetch_stepE: "fetch_step s s'"

inductive fetches_reached :: "int set \<times> int list \<Rightarrow> bool" where
  idle: "fetches_reached ({}, [])"
| next_fetch: "fetches_reached s \<Longrightarrow> fetch_step s s' \<Longrightarrow> fetches_reached s'"

lemma begin_slots:
  "sync_groups_begin en oob now rq i d slots = (Inr a, slots') \<Longrightarrow> i \<notin> slots \<and> slots' = insert i slots"
  "sync_groups_begin en oob now rq i d slots = (Inl r, slots') \<Longrightarrow> slots' = slots"
  by (auto simp: sync_groups_begin_def claim_sync_slot_def Let_def split: sum.splits option.splits if_splits)

lemma end_slots [simp]: "snd (sync_groups_end oob now rq answer outcome a i d slots) = slots - {i}"
  by (simp add: sync_groups_end_def release_sync_slot_def Let_def)

lemma fetch_step_inv:
  assumes "fetch_step s s'" "distinct (snd s) \<and> set (snd s) = fst s"
  shows "distinct (snd s') \<and> set (snd s') = fst s'"
  using assms by (cases rule: fetch_stepE) (auto dest!: begin_slots simp: set_remove1_eq)

text \<open>
  However the requests of a process overlap, no account has two fetches at once, and the slots are
  exactly the accounts whose groups are being fetched: the end of a fetch, good or bad, frees its slot.
\<close>

theorem one_fetch_per_account:
  assumes "fetches_reached (slots, running)"
  shows "distinct running \<and> set running = slots"
proof -
  have "distinct (snd s) \<and> set (snd s) = fst s" if "fetches_reached s" for s
    using that by induction (auto dest: fetch_step_inv)
  from this [OF assms] show ?thesis by simp
qed

definition tg_row :: account where
  "tg_row = max_row\<lparr>acc_type := ''tg_user''\<rparr>"

lemma one_fetch_per_account_witness:
  "distinct [1::int] \<and> set [1] = ({1} :: int set) \<and> fetches_reached ({1}, [1])"
proof -
  let ?d = "sample_db\<lparr>db_accounts := [tg_row]\<rparr>"
  have page: "page_request (sample_env (two_tokens None)) 5 cookie_request ?d = Inr (Some sample_user)"
    by (rule sample_page_request) (simp_all add: sample_db_def)
  have own: "own_account 1 1 ?d = Some tg_row" "acc_type tg_row = ''tg_user''" "acc_status tg_row = ''active''"
    by (simp_all add: own_account_def owned_account_def id_in_column_def ID_MAX_def tg_row_def max_row_def)
  have "sync_groups_begin (sample_env (two_tokens None)) (\<lambda>_. []) 5 cookie_request 1 ?d {} = (Inr tg_row, {1})"
    using own by (simp add: sync_groups_begin_def page Let_def claim_sync_slot_def sample_user_def)
  then have reach: "fetches_reached ({1}, [1])" by (intro fetches_reached.next_fetch [OF idle] begun)
  from one_fetch_per_account [OF this] reach show ?thesis by blast
qed

section \<open>Opening a page\<close>

text \<open>
  Opening the page that connects WhatsApp, with whatever headers the request came, deletes the
  accounts of the user that failed to synchronise, with their groups; their schedules are switched
  off and detached.
\<close>

lemma opening_the_page_deletes_failed_accounts:
  assumes "page_request en now rq d = Inr (Some u)" "live_row (user_id u) ''wa'' d = Inr None"
    and "a \<in> set (db_accounts d)" "acc_user_id a = user_id u" "acc_type a = ''wa''" "acc_status a = ''sync_failed''"
    and "wa_connect_page en markup qr now rq d = (r, d')"
  shows "(\<forall>g \<in> set (db_groups d'). grp_account_id g \<noteq> acc_id a) \<and>
    (\<forall>s \<in> set (db_schedules d'). sch_account_id s \<noteq> Some (acc_id a)) \<and>
    (\<forall>s \<in> set (db_schedules d). sch_account_id s = Some (acc_id a) \<longrightarrow> detached s \<in> set (db_schedules d'))"
proof -
  let ?d = "drop_stale (user_id u) ''wa'' d" and ?old = "rows_of (user_id u) ''wa'' [''connecting'', ''sync_failed''] d"
  have old: "a \<in> set ?old" using assms(3-6) by (simp add: rows_of_iff)
  have d': "db_groups d' = db_groups ?d" "db_schedules d' = db_schedules ?d"
    using assms(1,2,7) by (auto simp: wa_connect_page_def page_for_def connect_page_def Let_def add_account_def)
  have gone: "acc_id a \<in> acc_id ` set ?old" using old by simp
  have groups: "db_groups ?d = filter (\<lambda>g. grp_account_id g \<notin> acc_id ` set ?old) (db_groups d)"
    by (simp only: drop_stale_def fold_drop_accounts)
  have schedules: "set (db_schedules ?d) =
      detached ` {s \<in> set (db_schedules d). \<exists>b \<in> set ?old. sch_account_id s = Some (acc_id b)} \<union>
      {s \<in> set (db_schedules d). \<not> (\<exists>b \<in> set ?old. sch_account_id s = Some (acc_id b))}"
    by (simp only: drop_stale_def fold_drop_schedules set_update_where)
  show ?thesis
  proof (intro conjI ballI impI)
    fix g
    assume "g \<in> set (db_groups d')"
    with gone show "grp_account_id g \<noteq> acc_id a" by (auto simp: d'(1) groups)
  next
    fix s
    assume "s \<in> set (db_schedules d')"
    with old show "sch_account_id s \<noteq> Some (acc_id a)" by (auto simp: d'(2) schedules simp del: detached_simps) (simp add: detached_def)
  next
    fix s
    assume "s \<in> set (db_schedules d)" "sch_account_id s = Some (acc_id a)"
    with old show "detached s \<in> set (db_schedules d')" unfolding d'(2) schedules by blast
  qed
qed

end
