(* ===== verification/Keyset_Pages.thy ===== *)
theory Keyset_Pages
  imports Main
begin

text \<open>
  Paging by the key of the last row seen, as the lists of the pages do it: a page asks for the rows
  beyond a key, in order, and names the key of its last row when there are more. The interface is
  the rows a state holds; what a reader who follows the pages sees while the state changes is
  proved once.
\<close>

definition beyond_key :: "int option \<Rightarrow> int \<Rightarrow> bool" where
  "beyond_key after i \<longleftrightarrow> (case after of None \<Rightarrow> True | Some k \<Rightarrow> k < i)"

lemma beyond_key_simps [simp]: "beyond_key None i" "beyond_key (Some k) i \<longleftrightarrow> k < i"
  by (simp_all add: beyond_key_def)

locale keyset =
  fixes sound :: "'d \<Rightarrow> bool" and rows :: "'d \<Rightarrow> 'r list" and key :: "'r \<Rightarrow> int"
  assumes rows_sorted: "sound d \<Longrightarrow> sorted_wrt (<) (map key (rows d))"
begin

definition rest_after :: "int option \<Rightarrow> 'd \<Rightarrow> 'r list" where
  "rest_after after d = filter (\<lambda>r. beyond_key after (key r)) (rows d)"

text \<open>The pages read one after another, each on a state of its own, and whether the last was reached.\<close>

fun walk :: "nat \<Rightarrow> int option \<Rightarrow> 'd list \<Rightarrow> int list \<times> bool" where
  "walk limit after [] = ([], False)"
| "walk limit after (d # ds) =
     (let shown = map key (take limit (rest_after after d)) in
      if limit < length (rest_after after d)
      then (let (ids, over) = walk limit (Some (last shown)) ds in (shown @ ids, over))
      else (shown, True))"

lemma rest_sorted: "sound d \<Longrightarrow> sorted_wrt (<) (map key (rest_after after d))"
  using rows_sorted [of d] by (simp add: rest_after_def sorted_wrt_map sorted_wrt_filter)

lemma rest_iff: "i \<in> key ` set (rest_after after d) \<longleftrightarrow> i \<in> key ` set (rows d) \<and> beyond_key after i"
  by (auto simp: rest_after_def)

lemma page_split:
  assumes "sorted_wrt (<) xs" "0 < n" "n < length xs"
  shows "(\<forall>i \<in> set (take n xs). i \<le> last (take n xs)) \<and>
    (\<forall>i \<in> set xs. i \<le> last (take n xs) \<longrightarrow> i \<in> set (take n xs)) \<and> last (take n xs) \<in> set (take n (xs :: int list))"
proof -
  let ?p = "take n xs"
  have ne: "?p \<noteq> []" using assms(2,3) by auto
  have p: "sorted_wrt (<) ?p" using assms(1) by (rule sorted_wrt_take)
  have ends: "sorted_wrt (<) ys \<Longrightarrow> i \<in> set ys \<Longrightarrow> i \<le> last ys" for ys and i :: int
    by (induction ys) (auto simp: less_imp_le)
  have "sorted_wrt (<) (?p @ drop n xs)" using assms(1) by simp
  then have "\<forall>i \<in> set (drop n xs). last ?p < i" using last_in_set [OF ne] by (simp only: sorted_wrt_append) blast
  moreover have "set xs = set ?p \<union> set (drop n xs)" by (metis append_take_drop_id set_append)
  ultimately show ?thesis using ends [OF p] ne by fastforce
qed

lemma walk_complete:
  assumes "walk limit after ds = (ids, True)" "0 < limit" "\<And>d. d \<in> set ds \<Longrightarrow> sound d"
  shows "sorted_wrt (<) ids \<and> (\<forall>i \<in> set ids. beyond_key after i) \<and>
    (\<forall>i. beyond_key after i \<longrightarrow> (\<forall>d \<in> set ds. i \<in> key ` set (rows d)) \<longrightarrow> i \<in> set ids)"
  using assms(1,3)
proof (induction ds arbitrary: after ids)
  case (Cons d ds)
  let ?rest = "map key (rest_after after d)"
  have sorted: "sorted_wrt (<) ?rest" using Cons.prems(2) by (intro rest_sorted) simp
  have mem: "i \<in> set ?rest \<longleftrightarrow> i \<in> key ` set (rows d) \<and> beyond_key after i" for i
    using rest_iff [of i after d] by simp
  show ?case
  proof (cases "limit < length (rest_after after d)")
    case False
    with Cons.prems(1) have "ids = ?rest" by (simp add: Let_def)
    with sorted mem show ?thesis by auto
  next
    case True
    let ?p = "take limit ?rest"
    have page: "map key (take limit (rest_after after d)) = ?p" by (simp add: take_map)
    obtain more where more: "walk limit (Some (last ?p)) ds = (more, True)" "ids = ?p @ more"
      using Cons.prems(1) True by (auto simp: Let_def page split: prod.splits)
    have "\<And>d'. d' \<in> set ds \<Longrightarrow> sound d'" using Cons.prems(2) by simp
    note IH = Cons.IH [OF more(1) this]
    have split: "\<forall>i \<in> set ?p. i \<le> last ?p" "\<forall>i \<in> set ?rest. i \<le> last ?p \<longrightarrow> i \<in> set ?p" "last ?p \<in> set ?p"
      using page_split [OF sorted assms(2)] True by auto
    have sub: "set ?p \<subseteq> set ?rest" by (rule set_take_subset)
    have "sorted_wrt (<) ids"
      using IH split(1) sorted sorted_wrt_take [OF sorted, of limit] unfolding more(2) sorted_wrt_append by force
    moreover have "beyond_key after i" if "i \<in> set ids" for i
    proof -
      have "beyond_key after (last ?p)" using split(3) sub mem by blast
      moreover have "i \<in> set ?p \<or> last ?p < i" using that IH more(2) by auto
      ultimately show ?thesis using sub mem by (auto simp: beyond_key_def split: option.splits)
    qed
    moreover have "i \<in> set ids" if "beyond_key after i" "\<forall>d \<in> set (d # ds). i \<in> key ` set (rows d)" for i
    proof (cases "last ?p < i")
      case True
      with IH that(2) more(2) show ?thesis by simp
    next
      case False
      have "i \<in> set ?rest" using that mem by simp
      with split(2) False have "i \<in> set ?p" by (metis leI)
      with more(2) show ?thesis by simp
    qed
    ultimately show ?thesis by blast
  qed
qed simp

end

end
