(* ===== verification/Account_Groups.thy ===== *)
theory Account_Groups
  imports Account_Connect Keyset_Pages
begin

text \<open>
  The groups of an account on the pages, \<open>app/pages/account_groups.py\<close>, with the clearing of
  schedules of \<open>app/repositories/schedule.py\<close>: the list and its pages, the search that
  travels in the address, switching a group off and on, and deleting one.

  The markup is an argument. The address is built by \<open>urlencode\<close>, which is written out on
  the code points 0 to 255, encoded as UTF-8.
\<close>

section \<open>The search and the address\<close>

definition clean_search :: "string option \<Rightarrow> string option" where
  "clean_search search =
     (case search_word search of [] \<Rightarrow> None | c # cs \<Rightarrow> Some (c # cs))"

definition hex_digit :: "nat \<Rightarrow> char" where
  "hex_digit n = (if n < 10 then char_of (48 + n) else char_of (55 + n))"

definition percent :: "nat \<Rightarrow> string" where
  "percent b = [CHR ''%'', hex_digit (b div 16), hex_digit (b mod 16)]"

definition utf8_bytes :: "nat \<Rightarrow> nat list" where
  "utf8_bytes n = (if n < 128 then [n] else [192 + n div 64, 128 + n mod 64])"

text \<open>Letters, digits and \<open>_.-~\<close> stay, a blank is a plus.\<close>

definition unreserved :: "char \<Rightarrow> bool" where
  "unreserved c \<longleftrightarrow> (let n = (of_char c :: nat) in
     48 \<le> n \<and> n \<le> 57 \<or> 65 \<le> n \<and> n \<le> 90 \<or> 97 \<le> n \<and> n \<le> 122 \<or> c \<in> set ''_.-~'')"

definition quote_char :: "char \<Rightarrow> string" where
  "quote_char c =
     (if unreserved c then [c] else if c = CHR '' '' then ''+'' else concat (map percent (utf8_bytes (of_char c))))"

definition quote_plus :: "string \<Rightarrow> string" where
  "quote_plus s = concat (map quote_char s)"

definition filter_params :: "string option \<Rightarrow> (string \<times> string) list" where
  "filter_params search = (case search of None \<Rightarrow> [] | Some s \<Rightarrow> if s = [] then [] else [(''search'', s)])"

definition screen_url :: "int \<Rightarrow> string option \<Rightarrow> string" where
  "screen_url a search =
     (case filter_params search of
        [] \<Rightarrow> groups_url a
      | ps \<Rightarrow> groups_url a @ ''?'' @ join_on CHR ''&'' (map (\<lambda>(k, v). k @ ''='' @ quote_plus v) ps))"

section \<open>The rows of the list\<close>

definition groups_query :: "int \<Rightarrow> int \<Rightarrow> string option \<Rightarrow> db \<Rightarrow> group list" where
  "groups_query uid a search d =
     sort_key grp_id (filter (\<lambda>g. grp_user_id g = uid \<and> grp_account_id g = a \<and>
       (case search of None \<Rightarrow> True | Some s \<Rightarrow> ilike_search s (grp_name g))) (db_groups d))"

definition current_listing_has_a_row :: "int \<Rightarrow> int \<Rightarrow> string option \<Rightarrow> db \<Rightarrow> bool" where
  "current_listing_has_a_row uid a search d \<longleftrightarrow> groups_query uid a search d \<noteq> []"

text \<open>The keys of the dictionary are the groups of the page; what cannot be a key raises.\<close>

definition count_key :: "(int \<times> nat) list \<Rightarrow> int option \<Rightarrow> (int \<times> nat) list" where
  "count_key counts k = map (\<lambda>(i, n). (i, if k = Some i then Suc n else n)) counts"

definition count_schedule :: "schedule \<Rightarrow> (int \<times> nat) list \<Rightarrow> exn + (int \<times> nat) list" where
  "count_schedule s counts =
     bind_res (py_iter (or_list (sch_group_ids s))) (\<lambda>vs.
       fold_res (\<lambda>v c. bind_res (group_key v) (\<lambda>k. Inr (count_key c k))) vs counts)"

definition schedule_counts :: "int \<Rightarrow> int list \<Rightarrow> db \<Rightarrow> exn + (int \<times> nat) list" where
  "schedule_counts uid ids d =
     (if ids = [] then Inr []
      else fold_res count_schedule (own_schedules uid d) (map (\<lambda>i. (i, 0)) (remdups ids)))"

definition group_counts :: "int \<Rightarrow> int \<Rightarrow> db \<Rightarrow> nat \<times> nat" where
  "group_counts uid a d =
     (count_where (\<lambda>g. grp_user_id g = uid \<and> grp_account_id g = a \<and> grp_is_active g) (db_groups d),
      count_where (\<lambda>g. grp_user_id g = uid \<and> grp_account_id g = a) (db_groups d))"

record groups_view =
  gv_account :: "account option"
  gv_groups :: "group list"
  gv_schedule_counts :: "(int \<times> nat) list"
  gv_counts :: "(nat \<times> nat) option"
  gv_sync_result :: pyval
  gv_has_next :: bool
  gv_next_after_id :: "int option"
  gv_search :: "string option"

definition GROUPS_PAGE_SIZE :: nat where "GROUPS_PAGE_SIZE = 30"

text \<open>The last result of a sync is the JSON object in the column, read by \<open>loads\<close>.\<close>

definition parse_sync_result :: "(string \<Rightarrow> pyval option) \<Rightarrow> string option \<Rightarrow> pyval" where
  "parse_sync_result loads raw =
     (case raw of
        Some (c # cs) \<Rightarrow> (case loads (c # cs) of Some (PDict kvs) \<Rightarrow> PDict kvs | _ \<Rightarrow> PNone)
      | _ \<Rightarrow> PNone)"

definition groups_rows :: "int \<Rightarrow> int \<Rightarrow> string option \<Rightarrow> int option \<Rightarrow> nat \<Rightarrow> db \<Rightarrow> exn + groups_view" where
  "groups_rows uid a term since limit d =
     (let rest = filter (\<lambda>g. case since of None \<Rightarrow> True | Some i \<Rightarrow> i < grp_id g) (groups_query uid a term d);
          found = take (limit + 1) rest;
          shown = take limit found
      in bind_res (schedule_counts uid (map grp_id shown) d) (\<lambda>counts.
           Inr \<lparr>gv_account = None, gv_groups = shown, gv_schedule_counts = counts, gv_counts = None, gv_sync_result = PNone,
                gv_has_next = limit < length found,
                gv_next_after_id = (if shown = [] then None else Some (grp_id (last shown))), gv_search = term\<rparr>))"

type_synonym groups_markup = "groups_view \<Rightarrow> exn + body_response"

definition account_groups_page ::
  "sign_env \<Rightarrow> (string \<Rightarrow> pyval option) \<Rightarrow> groups_markup \<Rightarrow> int \<Rightarrow> http_request \<Rightarrow> int \<Rightarrow> string option \<Rightarrow> db \<Rightarrow> exn + reply" where
  "account_groups_page en loads markup now rq a search d =
     fst (page_for en now rq d (\<lambda>u.
       case owned_account (user_id u) a d of
         None \<Rightarrow> (Inr (RedirectResponse ''/accounts''), d)
       | Some acc \<Rightarrow>
           (bind_res (groups_rows (user_id u) a (clean_search search) None GROUPS_PAGE_SIZE d) (\<lambda>v.
              shown (markup (v\<lparr>gv_account := Some acc, gv_counts := Some (group_counts (user_id u) a d),
                               gv_sync_result := parse_sync_result loads (acc_last_sync_result acc)\<rparr>))), d)))"

definition account_groups_partial ::
  "sign_env \<Rightarrow> (string \<Rightarrow> string) \<Rightarrow> groups_markup \<Rightarrow> int \<Rightarrow> http_request \<Rightarrow> int \<Rightarrow> int option \<Rightarrow> nat \<Rightarrow> string option \<Rightarrow>
     db \<Rightarrow> exn + reply" where
  "account_groups_partial en oob markup now rq a since limit search d =
     fst (for_user en oob now rq d () (\<lambda>u.
       case owned_account (user_id u) a d of
         None \<Rightarrow> (respond oob rq ''/accounts'' None None, ())
       | Some acc \<Rightarrow>
           (bind_res (groups_rows (user_id u) a (clean_search search) since limit d) (\<lambda>v. shown (markup v)), ())))"

definition account_groups_sync_status ::
  "sign_env \<Rightarrow> int \<Rightarrow> http_request \<Rightarrow> int \<Rightarrow> db \<Rightarrow> exn + string option" where
  "account_groups_sync_status en now rq a d =
     bind_res (page_request en now rq d) (\<lambda>ou.
       Inr (case ou of
              None \<Rightarrow> None
            | Some u \<Rightarrow>
                (case owned_account (user_id u) a d of
                   None \<Rightarrow> None
                 | Some acc \<Rightarrow>
                     if acc_status acc \<in> {''active'', ''sync_failed'', ''syncing''} then Some (acc_status acc) else None)))"

section \<open>Switching a group and deleting it\<close>

definition own_group :: "int \<Rightarrow> int \<Rightarrow> int \<Rightarrow> db \<Rightarrow> group option" where
  "own_group uid a g d =
     (if id_in_column a \<and> id_in_column g
      then List.find (\<lambda>r. grp_id r = g \<and> grp_user_id r = uid \<and> grp_account_id r = a) (db_groups d)
      else None)"

definition set_group :: "int \<Rightarrow> (group \<Rightarrow> group) \<Rightarrow> db \<Rightarrow> db" where
  "set_group i f d = d\<lparr>db_groups := update_where (\<lambda>g. grp_id g = i) f (db_groups d)\<rparr>"

record toggle_view =
  tv_group :: "group option"
  tv_schedules :: nat
  tv_counts :: "nat \<times> nat"
  tv_search :: "string option"

type_synonym toggle_markup = "toggle_view \<Rightarrow> exn + body_response"

text \<open>The field is there or not; its text does not matter. The fragment is built after the commit.\<close>

definition account_groups_toggle ::
  "sign_env \<Rightarrow> (string \<Rightarrow> string) \<Rightarrow> toggle_markup \<Rightarrow> int \<Rightarrow> http_request \<Rightarrow> int \<Rightarrow> int \<Rightarrow> string option \<Rightarrow>
     string option \<Rightarrow> db \<Rightarrow> (exn + reply) \<times> db" where
  "account_groups_toggle en oob markup now rq a g is_active search d =
     for_user en oob now rq d d (\<lambda>u.
       let term = clean_search search; url = screen_url a term in
       case own_group (user_id u) a g d of
         None \<Rightarrow> (respond oob rq url None None, d)
       | Some row \<Rightarrow>
           let d1 = set_group g (\<lambda>r. r\<lparr>grp_is_active := (is_active \<noteq> None)\<rparr>) d;
               fragment = bind_res (schedule_counts (user_id u) [g] d1) (\<lambda>counts.
                 markup \<lparr>tv_group = find_row grp_id g (db_groups d1),
                         tv_schedules = (case map_of counts g of None \<Rightarrow> 0 | Some n \<Rightarrow> n),
                         tv_counts = group_counts (user_id u) a d1, tv_search = term\<rparr>)
           in (respond oob rq url None (Some fragment), d1))"

text \<open>A list of a schedule without some groups: what stays is a new list only when something goes.\<close>

definition strip_ids :: "int \<Rightarrow> pyval \<Rightarrow> exn + pyval" where
  "strip_ids i v =
     (if \<not> truthy v then Inr v
      else bind_res (py_iter v) (\<lambda>vs.
             bind_res (map_res group_key vs) (\<lambda>ks.
               let kept = map fst (filter (\<lambda>(x, k). k \<noteq> Some i) (zip vs ks))
               in Inr (if length kept \<noteq> length vs then PList kept else v))))"

definition remove_group_id :: "int \<Rightarrow> int \<Rightarrow> db \<Rightarrow> exn + db" where
  "remove_group_id uid i d =
     bind_res (map_res (\<lambda>s. if owns_ad d uid (sch_ad_id s)
                            then bind_res (strip_ids i (sch_group_ids s)) (\<lambda>v. Inr (s\<lparr>sch_group_ids := v\<rparr>))
                            else Inr s) (db_schedules d))
       (\<lambda>ss. Inr (d\<lparr>db_schedules := ss\<rparr>))"

definition delete_group :: "int \<Rightarrow> group \<Rightarrow> db \<Rightarrow> exn + db" where
  "delete_group uid g d =
     bind_res (remove_group_id uid (grp_id g) d) (\<lambda>d1.
       Inr (d1\<lparr>db_groups := filter (\<lambda>r. grp_id r \<noteq> grp_id g) (db_groups d1)\<rparr>))"

type_synonym delete_markup = "int \<Rightarrow> nat \<times> nat \<Rightarrow> exn + body_response"

definition account_groups_delete ::
  "sign_env \<Rightarrow> url_lib \<Rightarrow> (string \<Rightarrow> string) \<Rightarrow> delete_markup \<Rightarrow> int \<Rightarrow> http_request \<Rightarrow> int \<Rightarrow> int \<Rightarrow> string option \<Rightarrow>
     db \<Rightarrow> (exn + reply) \<times> db" where
  "account_groups_delete en lib oob markup now rq a g search d =
     for_user en oob now rq d d (\<lambda>u.
       case is_same_origin lib rq of
         Inl e \<Rightarrow> (Inl e, d)
       | Inr False \<Rightarrow> (Inr (EmptyStatus 403), d)
       | Inr True \<Rightarrow>
           (case (case own_group (user_id u) a g d of None \<Rightarrow> Inr d | Some row \<Rightarrow> delete_group (user_id u) row d) of
              Inl e \<Rightarrow> (Inl e, d)
            | Inr d1 \<Rightarrow>
                let term = clean_search search; url = screen_url a term in
                if \<not> id_in_column a \<or> \<not> current_listing_has_a_row (user_id u) a term d1
                then (respond oob rq url None None, d1)
                else (respond oob rq url None (Some (markup g (group_counts (user_id u) a d1))), d1)))"

section \<open>The address leads back\<close>

text \<open>The reader of an address: the plus is a blank, two digits after a percent sign are a byte.\<close>

definition hex_value :: "char \<Rightarrow> nat" where
  "hex_value c = (let n = of_char c in if n < 58 then n - 48 else n - 55)"

fun unquote_bytes :: "string \<Rightarrow> nat list" where
  "unquote_bytes [] = []"
| "unquote_bytes (c # cs) =
     (if c = CHR ''+'' then 32 # unquote_bytes cs
      else if c = CHR ''%''
      then (case cs of h # l # rest \<Rightarrow> (16 * hex_value h + hex_value l) # unquote_bytes rest | _ \<Rightarrow> [])
      else of_char c # unquote_bytes cs)"

fun utf8_text :: "nat list \<Rightarrow> string" where
  "utf8_text [] = []"
| "utf8_text (b # bs) =
     (if b < 128 then char_of b # utf8_text bs
      else (case bs of [] \<Rightarrow> [] | c # cs \<Rightarrow> char_of (64 * (b - 192) + (c - 128)) # utf8_text cs))"

definition unquote_plus :: "string \<Rightarrow> string" where
  "unquote_plus s = utf8_text (unquote_bytes s)"

lemma hex_value_digit: "n < 16 \<Longrightarrow> hex_value (hex_digit n) = n"
  by (auto simp: hex_value_def hex_digit_def Let_def of_char_of)

lemma unquote_percent: "b < 256 \<Longrightarrow> unquote_bytes (percent b @ rest) = b # unquote_bytes rest"
  by (simp add: percent_def hex_value_digit)

lemma unreserved_plain: "unreserved c \<Longrightarrow> c \<noteq> CHR ''+'' \<and> c \<noteq> CHR ''%'' \<and> of_char c < (128::nat)"
  by (auto simp: unreserved_def Let_def)

lemma char_below: "of_char c < (256::nat)"
  by (rule nat_of_char_less_256)

lemma unquote_char: "unquote_bytes (quote_char c @ rest) = utf8_bytes (of_char c) @ unquote_bytes rest"
proof (cases "unreserved c \<or> c = CHR '' ''")
  case True
  then show ?thesis by (auto simp: quote_char_def utf8_bytes_def dest: unreserved_plain)
next
  case False
  let ?n = "of_char c :: nat"
  have n: "?n < 256" by (rule char_below)
  have "?n div 64 < 4" using n by linarith
  with n False show ?thesis
    by (simp add: quote_char_def utf8_bytes_def unquote_percent del: unquote_bytes.simps)
qed

lemma unquote_quote: "unquote_bytes (quote_plus s @ rest) = concat (map (\<lambda>c. utf8_bytes (of_char c)) s) @ unquote_bytes rest"
  by (induction s) (simp_all add: quote_plus_def unquote_char)

lemma utf8_text_char: "utf8_text (utf8_bytes (of_char c) @ rest) = c # utf8_text rest"
proof (cases "of_char c < (128::nat)")
  case False
  have "64 * (of_char c div 64) + of_char c mod 64 = (of_char c :: nat)" by simp
  with False show ?thesis by (simp add: utf8_bytes_def)
qed (simp add: utf8_bytes_def)

lemma utf8_text_all: "utf8_text (concat (map (\<lambda>c. utf8_bytes (of_char c)) s)) = s"
  by (induction s) (simp_all add: utf8_text_char)

lemma unquote_plus_quote: "unquote_plus (quote_plus s) = s"
  using unquote_quote [of s "[]"] by (simp add: unquote_plus_def utf8_text_all)

text \<open>What an address is made of may stand in a navigation header.\<close>

definition address_char :: "char \<Rightarrow> bool" where
  "address_char c \<longleftrightarrow> 32 < code_point c \<and> code_point c < 127 \<and> c \<noteq> CHR 0x5C"

lemma hex_address: "n < 16 \<Longrightarrow> address_char (hex_digit n)"
proof -
  assume "n < 16"
  then have "48 \<le> code_point (hex_digit n) \<and> code_point (hex_digit n) \<le> 70"
    by (simp add: hex_digit_def code_point_def of_char_of)
  moreover have "code_point CHR 0x5C = 92" by (simp add: code_point_def)
  ultimately show ?thesis by (auto simp: address_char_def)
qed

lemma quote_address: "c \<in> set (quote_plus s) \<Longrightarrow> address_char c"
proof -
  have "address_char x" if "x \<in> set (quote_char y)" for x y
  proof (cases "unreserved y")
    case True
    with that have "x = y" by (simp add: quote_char_def)
    with True show ?thesis by (auto simp: unreserved_def Let_def address_char_def code_point_def)
  next
    case False
    have pc: "address_char z" if "z \<in> set (percent b)" "b < 256" for z b
    proof -
      have "b div 16 < 16" using that(2) by linarith
      then have d: "b div 16 < 16" "b mod 16 < 16" by simp_all
      have "address_char CHR ''%''" by (simp add: address_char_def code_point_def)
      with that(1) d show ?thesis by (auto simp: percent_def intro: hex_address)
    qed
    have "b < 256" if "b \<in> set (utf8_bytes (of_char y))" for b
    proof -
      have "(of_char y :: nat) div 64 < 4" using char_below [of y] by linarith
      moreover have "(of_char y :: nat) mod 64 < 64" by simp
      moreover have "b = of_char y \<and> b < 128 \<or> b = 192 + of_char y div 64 \<or> b = 128 + of_char y mod 64"
        using that by (auto simp: utf8_bytes_def split: if_splits)
      ultimately show ?thesis by linarith
    qed
    moreover have "address_char CHR ''+''" by (simp add: address_char_def code_point_def)
    ultimately show ?thesis using that False pc by (auto simp: quote_char_def split: if_splits)
  qed
  then show "c \<in> set (quote_plus s) \<Longrightarrow> address_char c" by (auto simp: quote_plus_def)
qed

lemma int_str_address: "c \<in> set (int_str i) \<Longrightarrow> address_char c"
  by (auto simp: int_str_def address_char_def code_point_def is_digit_def digit_val_def Let_def dest!: nat_str_digits split: if_splits)

lemma local_path_address:
  assumes "\<And>c. c \<in> set v \<Longrightarrow> address_char c" "v = CHR ''/'' # x # rest" "x \<noteq> CHR ''/''"
  shows "local_path v = Inr v"
proof -
  have "\<not> list_ex is_control v" "is_ascii v" "CHR 0x5C \<notin> set v"
    using assms(1) by (force simp: list_ex_iff is_control_def is_ascii_def list_all_iff address_char_def)+
  moreover have "starts_with v ''/''" "\<not> starts_with v ''//''" using assms(2,3) by (simp_all add: starts_with_def)
  ultimately show ?thesis by (simp add: local_path_def)
qed

lemma groups_url_address: "c \<in> set (groups_url a) \<Longrightarrow> address_char c"
proof -
  have "\<forall>c \<in> set ''/accounts/''. address_char c" "\<forall>c \<in> set ''/groups''. address_char c"
    by (simp_all add: address_char_def code_point_def)
  then show "c \<in> set (groups_url a) \<Longrightarrow> address_char c" using int_str_address by (auto simp: groups_url_def)
qed

lemma screen_url_split:
  "screen_url a search =
     (case search of Some (c # cs) \<Rightarrow> groups_url a @ ''?search='' @ quote_plus (c # cs) | _ \<Rightarrow> groups_url a)"
  by (auto simp: screen_url_def filter_params_def split: option.split list.split)

lemma screen_url_address: "c \<in> set (screen_url a search) \<Longrightarrow> address_char c"
proof -
  have "\<forall>c \<in> set ''?search=''. address_char c" by (simp add: address_char_def code_point_def)
  then show "c \<in> set (screen_url a search) \<Longrightarrow> address_char c"
    using groups_url_address quote_address
    by (auto simp: screen_url_split simp del: set_append split: option.splits list.splits) (auto dest: groups_url_address quote_address)
qed

text \<open>
  Whatever was searched for, the address a button sends back to is a path of this site that every
  reply accepts, and reading its query gives the same search: the listing that opens is the one the
  button was pressed on.
\<close>

theorem search_travels_in_the_address:
  "local_path (screen_url a (clean_search search)) = Inr (screen_url a (clean_search search)) \<and>
   (case clean_search search of
      None \<Rightarrow> screen_url a (clean_search search) = groups_url a
    | Some s \<Rightarrow> \<exists>q. screen_url a (clean_search search) = groups_url a @ ''?search='' @ q \<and> unquote_plus q = s)"
proof
  have "\<exists>rest. screen_url a (clean_search search) = CHR ''/'' # CHR ''a'' # rest"
    by (auto simp: screen_url_split groups_url_def split: option.split list.split)
  then show "local_path (screen_url a (clean_search search)) = Inr (screen_url a (clean_search search))"
    using screen_url_address by (auto intro!: local_path_address)
  show "case clean_search search of
      None \<Rightarrow> screen_url a (clean_search search) = groups_url a
    | Some s \<Rightarrow> \<exists>q. screen_url a (clean_search search) = groups_url a @ ''?search='' @ q \<and> unquote_plus q = s"
    by (auto simp: screen_url_split clean_search_def unquote_plus_quote split: option.split list.split)
qed

section \<open>Pages that miss nothing\<close>

lemma groups_query_sorted:
  assumes "distinct (map grp_id (db_groups d))"
  shows "sorted_wrt (<) (map grp_id (groups_query uid a term d))"
proof -
  have "distinct (map grp_id (groups_query uid a term d))"
    using assms by (simp add: groups_query_def distinct_map inj_on_def)
  then show ?thesis by (simp add: groups_query_def strict_sorted_iff)
qed

interpretation group_pages: keyset "\<lambda>d. distinct (map grp_id (db_groups d))" "groups_query uid a term" grp_id for uid a "term"
  by unfold_locales (rule groups_query_sorted)

text \<open>The pages a reader follows: the first, and each after the key the one before named.\<close>

fun group_walk :: "int \<Rightarrow> int \<Rightarrow> string option \<Rightarrow> nat \<Rightarrow> int option \<Rightarrow> db list \<Rightarrow> exn + int list \<times> bool" where
  "group_walk uid a term limit since [] = Inr ([], False)"
| "group_walk uid a term limit since (d # ds) =
     bind_res (groups_rows uid a term since limit d) (\<lambda>v.
       let ids = map grp_id (gv_groups v) in
       if gv_has_next v
       then bind_res (group_walk uid a term limit (gv_next_after_id v) ds) (\<lambda>(more, over). Inr (ids @ more, over))
       else Inr (ids, True))"

lemma groups_rows_page:
  assumes "groups_rows uid a term since limit d = Inr v" "0 < limit"
  shows "gv_groups v = take limit (group_pages.rest_after uid a term since d) \<and>
    gv_has_next v = (limit < length (group_pages.rest_after uid a term since d)) \<and>
    (gv_has_next v \<longrightarrow> gv_next_after_id v = Some (last (map grp_id (gv_groups v))))"
proof -
  have rest: "filter (\<lambda>g. case since of None \<Rightarrow> True | Some i \<Rightarrow> i < grp_id g) (groups_query uid a term d) =
      group_pages.rest_after uid a term since d"
    by (simp add: group_pages.rest_after_def beyond_key_def)
  let ?r = "group_pages.rest_after uid a term since d"
  have "gv_groups v = take limit ?r" "gv_has_next v = (limit < min (length ?r) (limit + 1))"
    "gv_next_after_id v = (if take limit ?r = [] then None else Some (grp_id (last (take limit ?r))))"
    using assms(1) by (auto simp: groups_rows_def rest Let_def result_simps)
  then show ?thesis using assms(2) by (auto simp: last_map)
qed

lemma group_walk_is_walk:
  "group_walk uid a term limit since ds = Inr (ids, over) \<Longrightarrow> 0 < limit \<Longrightarrow>
     group_pages.walk uid a term limit since ds = (ids, over)"
proof (induction ds arbitrary: since ids over)
  case (Cons d ds)
  obtain v where v: "groups_rows uid a term since limit d = Inr v" using Cons.prems(1) by (auto simp: result_simps)
  note page = groups_rows_page [OF v Cons.prems(2)]
  show ?case
  proof (cases "gv_has_next v")
    case False
    with Cons.prems(1) v page show ?thesis by (simp add: Let_def)
  next
    case True
    with Cons.prems(1) v page obtain more where
      more: "group_walk uid a term limit (gv_next_after_id v) ds = Inr (more, over)" "ids = map grp_id (gv_groups v) @ more"
      by (auto simp: Let_def result_simps)
    from Cons.IH [OF more(1) Cons.prems(2)] more(2) True page show ?thesis by (simp add: Let_def)
  qed
qed simp

text \<open>
  A reader who follows the pages of the groups to the end sees them in order, none twice, and every
  group that matches the search all along, whatever is switched, renamed, added or deleted between
  two pages.
\<close>

theorem group_pages_miss_nothing:
  assumes "group_walk uid a term limit None ds = Inr (ids, True)" "0 < limit"
    and "\<And>d. d \<in> set ds \<Longrightarrow> distinct (map grp_id (db_groups d))"
  shows "sorted_wrt (<) ids \<and>
    (\<forall>i. (\<forall>d \<in> set ds. i \<in> grp_id ` set (groups_query uid a term d)) \<longrightarrow> i \<in> set ids)"
  using group_pages.walk_complete [OF group_walk_is_walk [OF assms(1,2)] assms(2,3)] by simp

section \<open>A group switched off or deleted\<close>

lemma own_group_Some:
  "own_group uid a g d = Some row \<Longrightarrow> row \<in> set (db_groups d) \<and> grp_id row = g \<and> grp_user_id row = uid \<and> grp_account_id row = a"
  by (auto simp: own_group_def find_Some_iff split: if_splits)

lemma active_group_row: "r \<in> set (active_groups d vs) \<Longrightarrow> r \<in> set (db_groups d) \<and> grp_is_active r"
proof -
  assume "r \<in> set (active_groups d vs)"
  then obtain v where "get_group d v = Inr (Some r)" "grp_is_active r" by (auto simp: active_groups_def split: if_splits)
  then show ?thesis by (cases v) (auto dest: find_row_Some split: if_splits)
qed

lemma owed_group: "t \<in> set (owed_tasks s3 d V s) \<Longrightarrow>
    \<exists>r \<in> set (db_groups d). grp_is_active r \<and> task_group_id t = grp_id r"
proof (cases "may_send d V s"; cases "py_iter (or_list (sch_group_ids s))")
  fix p vs
  assume t: "t \<in> set (owed_tasks s3 d V s)" and p: "may_send d V s = Some p" "py_iter (or_list (sch_group_ids s)) = Inr vs"
  obtain ad acc where "p = (ad, acc)" by (cases p)
  with t p obtain r where "r \<in> set (active_groups d vs)" "t = build_dispatch_task s3 ad r acc (Some (sch_id s))"
    by (auto simp: owed_tasks_def)
  moreover from this have "task_group_id t = grp_id r" by (simp add: build_dispatch_task_def Let_def)
  ultimately show ?thesis using active_group_row by blast
qed (simp_all add: owed_tasks_def split: prod.splits)

lemma planned_group:
  assumes "collect_due_schedules tzdb now s3 (cached_check io now d) d c = Inr (tasks, d', c')" "t \<in> set tasks"
  shows "\<exists>r \<in> set (db_groups d). grp_is_active r \<and> task_group_id t = grp_id r"
proof -
  obtain V s where "t \<in> set (owed_tasks s3 d V s)"
    using assms(2) unfolding planner_sends_what_is_owed [OF assms(1)] by auto
  then show ?thesis by (rule owed_group)
qed

lemma toggle_db:
  assumes "account_groups_toggle en oob markup now rq a g is_active search d = (r, d')"
  shows "d' = d \<or> (\<exists>u row. page_request en now rq d = Inr (Some u) \<and> own_group (user_id u) a g d = Some row \<and>
    d' = set_group g (\<lambda>x. x\<lparr>grp_is_active := (is_active \<noteq> None)\<rparr>) d)"
  using for_user_cases [OF assms [unfolded account_groups_toggle_def]]
  by (auto simp: Let_def split: option.splits)

text \<open>
  The switch changes the flag of one group, a group of the user in that account, and nothing else.
  Once a group is switched off, the planner hands over no task for it, whatever schedules name it.
\<close>

theorem switched_off_group_is_not_sent:
  assumes "page_request en now rq d = Inr (Some u)" "own_group (user_id u) a g d = Some row"
    and "account_groups_toggle en oob markup now rq a g None search d = (r, d')"
    and "collect_due_schedules tzdb now2 s3 (cached_check io now2 d') d' c = Inr (tasks, d2, c2)"
  shows "(\<forall>t \<in> set tasks. task_group_id t \<noteq> g) \<and> d'\<lparr>db_groups := db_groups d\<rparr> = d \<and>
    list_all2 (\<lambda>x y. y = x \<or> grp_id x = g \<and> y = x\<lparr>grp_is_active := False\<rparr>) (db_groups d) (db_groups d')"
proof -
  have d': "d' = set_group g (\<lambda>x. x\<lparr>grp_is_active := False\<rparr>) d"
    using arg_cong [OF assms(3), of snd] by (simp add: account_groups_toggle_def for_user_def assms(1,2) Let_def)
  have off: "\<not> grp_is_active x" if "x \<in> set (db_groups d')" "grp_id x = g" for x
  proof -
    let ?h = "\<lambda>y. if grp_id y = g then y\<lparr>grp_is_active := False\<rparr> else y"
    have "db_groups d' = map ?h (db_groups d)" by (simp add: d' set_group_def update_where_def)
    with that(1) have "x \<in> ?h ` set (db_groups d)" by (simp only: set_map)
    then obtain y where "x = ?h y" by (rule imageE)
    with that(2) show ?thesis by (cases "grp_id y = g") simp_all
  qed
  have "\<forall>t \<in> set tasks. task_group_id t \<noteq> g"
  proof
    fix t
    assume "t \<in> set tasks"
    from planned_group [OF assms(4) this] off show "task_group_id t \<noteq> g" by auto
  qed
  moreover have "d'\<lparr>db_groups := db_groups d\<rparr> = d" by (simp add: d' set_group_def)
  moreover have "list_all2 (\<lambda>x y. y = x \<or> grp_id x = g \<and> y = x\<lparr>grp_is_active := False\<rparr>) (db_groups d) (db_groups d')"
    by (simp add: d' set_group_def update_where_def list_all2_map2 list_all2_same)
  ultimately show ?thesis by blast
qed

text \<open>The names a list of groups holds.\<close>

definition names_in :: "pyval \<Rightarrow> pyval list" where
  "names_in v = (case py_iter (or_list v) of Inl e \<Rightarrow> [] | Inr vs \<Rightarrow> vs)"

lemma kept_names:
  "list_all2 (\<lambda>x k. group_key x = Inr k) vs ks \<Longrightarrow>
     map fst (filter (\<lambda>(x, k). k \<noteq> Some i) (zip vs ks)) = filter (\<lambda>x. group_key x \<noteq> Inr (Some i)) vs"
  by (induction rule: list_all2_induct) auto

lemma strip_names:
  assumes "strip_ids i v = Inr v'"
  shows "names_in v' = filter (\<lambda>x. group_key x \<noteq> Inr (Some i)) (names_in v)"
proof (cases "truthy v")
  case False
  with assms have "v' = v" "names_in v = []" by (simp_all add: strip_ids_def names_in_def or_list_def)
  then show ?thesis by simp
next
  case True
  then obtain vs ks where vs: "py_iter v = Inr vs" and ks: "map_res group_key vs = Inr ks"
    and v': "v' = (let kept = map fst (filter (\<lambda>(x, k). k \<noteq> Some i) (zip vs ks))
                   in if length kept \<noteq> length vs then PList kept else v)"
    using assms by (auto simp: strip_ids_def result_simps Let_def)
  have names: "names_in v = vs" using vs True by (simp add: names_in_def or_list_def)
  let ?kept = "filter (\<lambda>x. group_key x \<noteq> Inr (Some i)) vs"
  have v': "v' = (if length ?kept \<noteq> length vs then PList ?kept else v)"
    using v' unfolding kept_names [OF ks [unfolded map_res_eq_Inr]] Let_def .
  show ?thesis
  proof (cases "length ?kept = length vs")
    case same: True
    then have "?kept = vs" by (metis length_filter_less filter_True less_irrefl)
    with same v' names show ?thesis by simp
  next
    case False
    then have "v' = PList ?kept" using v' by simp
    then have "names_in v' = ?kept" by (simp add: names_in_def or_list_def)
    with names show ?thesis by simp
  qed
qed

definition cleared_row :: "db \<Rightarrow> int \<Rightarrow> int \<Rightarrow> schedule \<Rightarrow> schedule \<Rightarrow> bool" where
  "cleared_row d uid i s s' \<longleftrightarrow>
     (if owns_ad d uid (sch_ad_id s)
      then \<exists>v. strip_ids i (sch_group_ids s) = Inr v \<and> s' = s\<lparr>sch_group_ids := v\<rparr> else s' = s)"

lemma remove_group_id_rows:
  "remove_group_id uid i d = Inr d' \<Longrightarrow>
     \<exists>ss. d' = d\<lparr>db_schedules := ss\<rparr> \<and> list_all2 (cleared_row d uid i) (db_schedules d) ss"
proof -
  assume "remove_group_id uid i d = Inr d'"
  then obtain ss where ss: "d' = d\<lparr>db_schedules := ss\<rparr>"
    "list_all2 (\<lambda>s s'. (if owns_ad d uid (sch_ad_id s)
       then bind_res (strip_ids i (sch_group_ids s)) (\<lambda>v. Inr (s\<lparr>sch_group_ids := v\<rparr>)) else Inr s) = Inr s')
      (db_schedules d) ss"
    by (auto simp: remove_group_id_def result_simps map_res_eq_Inr)
  have "list_all2 (cleared_row d uid i) (db_schedules d) ss"
    by (rule list_all2_mono [OF ss(2)]) (auto simp: cleared_row_def result_simps split: if_splits)
  with ss(1) show ?thesis by blast
qed

text \<open>
  A group that its owner deletes is gone, and no schedule of the owner's advertisements names it any
  more; every other name in their lists stays, and so do the other groups, the accounts, the
  advertisements, the journal and everybody else's schedules. Only a list that holds something that is
  no number, text or null stops the deletion, and then nothing is changed.
\<close>

theorem deleted_group_is_named_nowhere:
  assumes "page_request en now rq d = Inr (Some u)" "is_same_origin lib rq = Inr True"
    and "own_group (user_id u) a g d = Some row"
    and "account_groups_delete en lib oob markup now rq a g search d = (r, d')"
  shows "(\<exists>e. r = Inl e) \<and> d' = d \<or>
    d'\<lparr>db_groups := db_groups d, db_schedules := db_schedules d\<rparr> = d \<and>
    db_groups d' = filter (\<lambda>x. grp_id x \<noteq> g) (db_groups d) \<and>
    list_all2 (\<lambda>s s'. s'\<lparr>sch_group_ids := sch_group_ids s\<rparr> = s \<and> (\<not> owns_ad d (user_id u) (sch_ad_id s) \<longrightarrow> s' = s) \<and>
        (owns_ad d (user_id u) (sch_ad_id s) \<longrightarrow>
           names_in (sch_group_ids s') = filter (\<lambda>x. group_key x \<noteq> Inr (Some g)) (names_in (sch_group_ids s))))
      (db_schedules d) (db_schedules d')"
proof -
  have g: "grp_id row = g" using own_group_Some [OF assms(3)] by simp
  show ?thesis
  proof (cases "remove_group_id (user_id u) g d")
    case (Inl e)
    with assms(4) have "r = Inl e \<and> d' = d"
      by (simp add: account_groups_delete_def for_user_def assms(1-3) delete_group_def g)
    then show ?thesis by simp
  next
    case (Inr d1)
    obtain ss where d1: "d1 = d\<lparr>db_schedules := ss\<rparr>" and rows: "list_all2 (cleared_row d (user_id u) g) (db_schedules d) ss"
      using remove_group_id_rows [OF Inr] by blast
    have d': "d' = d1\<lparr>db_groups := filter (\<lambda>x. grp_id x \<noteq> g) (db_groups d1)\<rparr>"
      using arg_cong [OF assms(4), of snd]
      by (simp add: account_groups_delete_def for_user_def assms(1-3) delete_group_def g Inr Let_def split: if_splits)
    have "list_all2 (\<lambda>s s'. s'\<lparr>sch_group_ids := sch_group_ids s\<rparr> = s \<and> (\<not> owns_ad d (user_id u) (sch_ad_id s) \<longrightarrow> s' = s) \<and>
        (owns_ad d (user_id u) (sch_ad_id s) \<longrightarrow>
           names_in (sch_group_ids s') = filter (\<lambda>x. group_key x \<noteq> Inr (Some g)) (names_in (sch_group_ids s))))
      (db_schedules d) ss"
      using rows
    proof (rule list_all2_mono)
      fix s s'
      assume c: "cleared_row d (user_id u) g s s'"
      then show "s'\<lparr>sch_group_ids := sch_group_ids s\<rparr> = s \<and> (\<not> owns_ad d (user_id u) (sch_ad_id s) \<longrightarrow> s' = s) \<and>
        (owns_ad d (user_id u) (sch_ad_id s) \<longrightarrow>
           names_in (sch_group_ids s') = filter (\<lambda>x. group_key x \<noteq> Inr (Some g)) (names_in (sch_group_ids s)))"
        using strip_names [of g "sch_group_ids s"] by (auto simp: cleared_row_def split: if_splits)
    qed
    then show ?thesis by (simp add: d' d1)
  qed
qed

definition sample_group_row :: group where
  "sample_group_row = \<lparr>grp_id = 7, grp_user_id = 1, grp_account_id = 1, grp_messenger_type = ''wa'', grp_external_id = ''x'',
     grp_name = ''n'', grp_is_active = True, grp_last_error = None, grp_error_at = None, grp_missing_since = None,
     grp_created_at = 0\<rparr>"

definition named_db :: db where
  "named_db = sample_db\<lparr>db_ads := [sample_ad], db_groups := [sample_group_row],
     db_schedules := [sample_schedule\<lparr>sch_group_ids := PList [PInt 7, PInt 8]\<rparr>]\<rparr>"

lemma named_db_facts:
  "page_request (sample_env (two_tokens None)) 5 cookie_request named_db = Inr (Some sample_user)"
  "own_group (user_id sample_user) 1 7 named_db = Some sample_group_row"
proof -
  show "page_request (sample_env (two_tokens None)) 5 cookie_request named_db = Inr (Some sample_user)"
    by (rule sample_page_request) (simp_all add: named_db_def sample_db_def)
  show "own_group (user_id sample_user) 1 7 named_db = Some sample_group_row"
    by (simp add: own_group_def named_db_def sample_group_row_def sample_user_def id_in_column_def ID_MAX_def)
qed

lemma deleted_group_is_named_nowhere_witness:
  "\<exists>r d'. account_groups_delete (sample_env (two_tokens None)) strict_lib (\<lambda>_. []) (\<lambda>_ _. Inl ValueError) 5 cookie_request 1 7 None named_db =
     (r, d') \<and> (d' = named_db \<or> db_groups d' = [])"
proof -
  obtain r d' where run: "account_groups_delete (sample_env (two_tokens None)) strict_lib (\<lambda>_. []) (\<lambda>_ _. Inl ValueError) 5 cookie_request
      1 7 None named_db = (r, d')" by (cases "account_groups_delete (sample_env (two_tokens None)) strict_lib (\<lambda>_. [])
      (\<lambda>_ _. Inl ValueError) 5 cookie_request 1 7 None named_db")
  have "d' = named_db \<or> db_groups d' = filter (\<lambda>x. grp_id x \<noteq> 7) (db_groups named_db)"
    using deleted_group_is_named_nowhere [OF named_db_facts(1) cookie_same_origin named_db_facts(2) run] by blast
  then have "d' = named_db \<or> db_groups d' = []" by (simp add: named_db_def sample_group_row_def)
  with run show ?thesis by blast
qed

lemma group_pages_miss_nothing_witness:
  "sorted_wrt (<) [7 :: int] \<and> 7 \<in> set [7 :: int] \<and>
   group_walk 1 1 None 30 None [named_db] = Inr ([7], True)"
proof -
  have q: "groups_query 1 1 None named_db = [sample_group_row]"
    by (simp add: groups_query_def named_db_def sample_group_row_def)
  have "owns_ad named_db 1 (sch_ad_id sample_schedule)" by code_simp
  then have own: "own_schedules 1 named_db = [sample_schedule\<lparr>sch_group_ids := PList [PInt 7, PInt 8]\<rparr>]"
    by (simp add: own_schedules_def) (simp add: named_db_def)
  have "grp_id sample_group_row = 7" by (simp add: sample_group_row_def)
  then have walk: "group_walk 1 1 None 30 None [named_db] = Inr ([7], True)"
    by (simp add: groups_rows_def q schedule_counts_def own count_schedule_def or_list_def Let_def)
  have "sorted_wrt (<) [7 :: int] \<and>
      (\<forall>i. (\<forall>d \<in> set [named_db]. i \<in> grp_id ` set (groups_query 1 1 None d)) \<longrightarrow> i \<in> set [7])"
    by (rule group_pages_miss_nothing [OF walk]) (simp_all add: named_db_def)
  with walk show ?thesis by simp
qed

lemma search_travels_sample: "screen_url 3 (Some ''a b&'') = ''/accounts/3/groups?search=a+b%26''"
  by code_simp

end
