(* ===== verification/Journal.thy ===== *)
theory Journal
  imports Account_Groups Send_Analytics
begin

text \<open>
  The pages of the journal, \<open>app/pages/history.py\<close>: the list and its further pages, one entry,
  and the export as a file of comma-separated values, which \<open>csv.writer\<close> of the standard
  library writes with a semicolon, minimal quotes and CR LF. The words of the file are Cyrillic and
  come as an argument, like the markup.
\<close>

section \<open>The filters and the rows\<close>

definition STATUS_VALUES :: "string set" where "STATUS_VALUES = {''ok'', ''fail'', ''account_disconnected''}"
definition MESSENGER_VALUES :: "string set" where "MESSENGER_VALUES = {''tg_user'', ''wa'', ''max''}"
definition PERIOD_VALUES :: "string set" where "PERIOD_VALUES = {''today'', ''7d'', ''30d''}"
definition HISTORY_PAGE_SIZE :: nat where "HISTORY_PAGE_SIZE = 30"

record journal_query =
  jq_status :: "string option"
  jq_messenger :: "string option"
  jq_account :: "int option"
  jq_period :: "string option"

text \<open>What the address asks for, with everything unknown dropped.\<close>

definition clean_query :: "string option \<Rightarrow> string option \<Rightarrow> string option \<Rightarrow> string option \<Rightarrow> journal_query" where
  "clean_query status messenger account_id period =
     \<lparr>jq_status = clean_choice status STATUS_VALUES, jq_messenger = clean_choice messenger MESSENGER_VALUES,
      jq_account = parse_account_id account_id, jq_period = clean_choice period PERIOD_VALUES\<rparr>"

definition query_params :: "journal_query \<Rightarrow> (string \<times> pyval) list" where
  "query_params q = history_filter_params (jq_status q) (jq_messenger q) (jq_account q) (jq_period q)"

definition matches :: "day_zone \<Rightarrow> int \<Rightarrow> journal_query \<Rightarrow> db \<Rightarrow> send_log \<Rightarrow> bool" where
  "matches z now q d l = history_filter z now (jq_status q) (jq_messenger q) (jq_account q) (jq_period q) d l"

definition group_of_log :: "db \<Rightarrow> send_log \<Rightarrow> group option" where
  "group_of_log d l = Option.bind (log_group_id l) (\<lambda>i. find_row grp_id i (db_groups d))"

text \<open>The newest entry first, each with its group, if the group is still there.\<close>

definition journal_rows :: "day_zone \<Rightarrow> int \<Rightarrow> int \<Rightarrow> journal_query \<Rightarrow> db \<Rightarrow> (send_log \<times> group option) list" where
  "journal_rows z now uid q d =
     map (\<lambda>l. (l, group_of_log d l))
       (sort_key (\<lambda>l. - log_sent_at l) (filter (\<lambda>l. log_user_id l = uid \<and> matches z now q d l) (db_send_logs d)))"

definition journal_page ::
  "day_zone \<Rightarrow> int \<Rightarrow> int \<Rightarrow> journal_query \<Rightarrow> nat \<Rightarrow> nat \<Rightarrow> db \<Rightarrow> (send_log \<times> group option) list \<times> bool" where
  "journal_page z now uid q offset limit d =
     (let found = take (limit + 1) (drop offset (journal_rows z now uid q d))
      in (take limit found, limit < length found))"

section \<open>The pages\<close>

record journal_line =
  jl_log :: send_log
  jl_group :: "group option"
  jl_can_retry :: bool
  jl_retry_reason :: "string option"

definition journal_line_of :: "(int \<times> string option) list \<Rightarrow> send_log \<times> group option \<Rightarrow> journal_line" where
  "journal_line_of blockers p =
     (let b = map_of (rev blockers) (log_id (fst p))
      in \<lparr>jl_log = fst p, jl_group = snd p, jl_can_retry = (b = Some None), jl_retry_reason = Option.bind b (\<lambda>r. r)\<rparr>)"

definition journal_lines :: "db \<Rightarrow> int \<Rightarrow> (send_log \<times> group option) list \<Rightarrow> journal_line list" where
  "journal_lines d uid rows = map (journal_line_of (retry_availability d rows uid)) rows"

record journal_view =
  jv_lines :: "journal_line list"
  jv_has_next :: bool
  jv_next_offset :: nat
  jv_params :: "(string \<times> pyval) list"
  jv_accounts :: "account list"
  jv_total :: nat
  jv_export_blocked :: bool

type_synonym journal_markup = "journal_view \<Rightarrow> exn + body_response"

definition history_list ::
  "sign_env \<Rightarrow> (string \<Rightarrow> exn + day_zone) \<Rightarrow> journal_markup \<Rightarrow> int \<Rightarrow> http_request \<Rightarrow> journal_query \<Rightarrow> nat \<Rightarrow>
     string option \<Rightarrow> db \<Rightarrow> exn + reply" where
  "history_list en tzs markup now rq q offset export d =
     fst (page_for en now rq d (\<lambda>u.
       let z = get_timezone_for_user tzs (Some u);
           uid = user_id u;
           (rows, has_next) = journal_page z now uid q offset HISTORY_PAGE_SIZE d
       in (shown (markup \<lparr>jv_lines = journal_lines d uid rows, jv_has_next = has_next,
             jv_next_offset = offset + length rows, jv_params = query_params q,
             jv_accounts = filter (\<lambda>a. acc_user_id a = uid) (db_accounts d),
             jv_total = history_count z now uid (jq_status q) (jq_messenger q) (jq_account q) (jq_period q) d,
             jv_export_blocked = (export = Some ''too_many'')\<rparr>), d)))"

definition history_partial ::
  "sign_env \<Rightarrow> (string \<Rightarrow> exn + day_zone) \<Rightarrow> journal_markup \<Rightarrow> int \<Rightarrow> http_request \<Rightarrow> journal_query \<Rightarrow> nat \<Rightarrow> nat \<Rightarrow>
     db \<Rightarrow> exn + reply" where
  "history_partial en tzs markup now rq q offset limit d =
     fst (page_for en now rq d (\<lambda>u.
       let (rows, has_next) = journal_page (get_timezone_for_user tzs (Some u)) now (user_id u) q offset limit d
       in (shown (markup \<lparr>jv_lines = journal_lines d (user_id u) rows, jv_has_next = has_next,
             jv_next_offset = offset + limit, jv_params = query_params q, jv_accounts = [], jv_total = 0,
             jv_export_blocked = False\<rparr>), d)))"

definition history_detail ::
  "sign_env \<Rightarrow> (journal_line \<Rightarrow> exn + body_response) \<Rightarrow> int \<Rightarrow> http_request \<Rightarrow> int \<Rightarrow> db \<Rightarrow> exn + reply" where
  "history_detail en markup now rq lid d =
     fst (page_for en now rq d (\<lambda>u.
       case find_row log_id lid (db_send_logs d) of
         None \<Rightarrow> (Inr (RedirectResponse ''/history''), d)
       | Some l \<Rightarrow>
           if log_user_id l \<noteq> user_id u then (Inr (RedirectResponse ''/history''), d)
           else
             let g = Option.bind (nonzero_id (log_group_id l)) (\<lambda>i. find_row grp_id i (db_groups d));
                 blockers = retry_availability d [(l, g)] (user_id u)
             in (shown (markup (journal_line_of blockers (l, g))), d)))"

section \<open>The file\<close>

definition csv_special :: "char \<Rightarrow> bool" where
  "csv_special c \<longleftrightarrow> c = CHR '';'' \<or> c = CHR 0x22 \<or> c = CHR 0x0D \<or> c = CHR 0x0A"

definition double_quotes :: "string \<Rightarrow> string" where
  "double_quotes s = concat (map (\<lambda>c. if c = CHR 0x22 then [c, c] else [c]) s)"

definition csv_field :: "string \<Rightarrow> string" where
  "csv_field s = (if list_ex csv_special s then CHR 0x22 # double_quotes s @ [CHR 0x22] else s)"

text \<open>A row of one empty field is quoted, or it would read as no field at all.\<close>

definition csv_row :: "string list \<Rightarrow> string" where
  "csv_row fs =
     (if fs = [[]] then [CHR 0x22, CHR 0x22] else join_on CHR '';'' (map csv_field fs)) @ [CHR 0x0D, CHR 0x0A]"

definition two_digits :: "int \<Rightarrow> string" where
  "two_digits n = (if n < 10 then CHR ''0'' # int_str n else int_str n)"

text \<open>Year, month, day, hour and minute on the clock of the user.\<close>

definition format_datetime_for_user :: "day_zone \<Rightarrow> int \<Rightarrow> string" where
  "format_datetime_for_user z t =
     (let w = wall_of z t;
          (y, m, d) = civil (w div day_us);
          minutes = w mod day_us div minute_us
      in int_str y @ ''-'' @ two_digits m @ ''-'' @ two_digits d @ '' '' @
         two_digits (minutes div 60) @ '':'' @ two_digits (minutes mod 60))"

record export_words =
  ew_mark :: string
  ew_header :: "nat \<Rightarrow> string"
  ew_status :: "string \<Rightarrow> string"
  ew_messenger :: "string \<Rightarrow> string"
  ew_truncated :: string

definition EXPORT_ROW_CAP :: nat where "EXPORT_ROW_CAP = 50000"

definition label_of :: "(string \<Rightarrow> string) \<Rightarrow> string set \<Rightarrow> string \<Rightarrow> string" where
  "label_of words known s = (if s \<in> known then words s else s)"

definition text_cell :: "string option \<Rightarrow> string" where
  "text_cell v = export_cell (case v of None \<Rightarrow> PNone | Some s \<Rightarrow> PStr s)"

definition export_row :: "export_words \<Rightarrow> day_zone \<Rightarrow> send_log \<times> group option \<Rightarrow> string list" where
  "export_row w z p =
     (let l = fst p in
      [export_cell (PStr (format_datetime_for_user z (log_sent_at l))),
       text_cell (map_option (label_of (ew_messenger w) MESSENGER_VALUES) (log_messenger_type l)),
       export_cell (case snd p of None \<Rightarrow> PNone | Some g \<Rightarrow> PInt (grp_account_id g)),
       text_cell (log_group_name l),
       text_cell (log_ad_title l),
       export_cell (PStr (label_of (ew_status w) STATUS_VALUES (log_status l))),
       text_cell (log_error_message l),
       text_cell (log_task_id l)])"

definition EXPORT_HEADER :: "export_words \<Rightarrow> string list" where
  "EXPORT_HEADER w = map (ew_header w) [0..<8]"

text \<open>
  The chunks of the body, and whether it ends in an exception. A fault of the database after some
  rows adds the line that says so and raises.
\<close>

definition export_body :: "export_words \<Rightarrow> day_zone \<Rightarrow> nat option \<Rightarrow> (send_log \<times> group option) list \<Rightarrow> string list \<times> bool" where
  "export_body w z fault rows =
     (let head = ew_mark w @ csv_row (EXPORT_HEADER w);
          line = (\<lambda>p. csv_row (export_row w z p))
      in case fault of
           None \<Rightarrow> (head # map line rows, False)
         | Some k \<Rightarrow> (head # map line (take k rows) @ [csv_row [ew_truncated w]], True))"

datatype export_answer = ExportRefused reply | ExportFile "string list" bool

definition urlencode :: "(string \<times> pyval) list \<Rightarrow> string" where
  "urlencode ps = join_on CHR ''&'' (map (\<lambda>(k, v). quote_plus k @ ''='' @ quote_plus (py_str v)) ps)"

text \<open>The rows are counted first and read afterwards, when the tables may hold something else.\<close>

definition history_export ::
  "sign_env \<Rightarrow> (string \<Rightarrow> exn + day_zone) \<Rightarrow> export_words \<Rightarrow> int \<Rightarrow> http_request \<Rightarrow> journal_query \<Rightarrow> nat option \<Rightarrow> db \<Rightarrow> db \<Rightarrow>
     exn + export_answer" where
  "history_export en tzs w now rq q fault d d2 =
     bind_res (page_request en now rq d) (\<lambda>ou.
       case ou of
         None \<Rightarrow> Inr (ExportRefused (RedirectResponse ''/login''))
       | Some u \<Rightarrow>
           let z = get_timezone_for_user tzs (Some u);
               n = history_count z now (user_id u) (jq_status q) (jq_messenger q) (jq_account q) (jq_period q) d
           in if EXPORT_ROW_CAP < n
              then Inr (ExportRefused (RedirectResponse
                     (''/history?'' @ urlencode (query_params q @ [(''export'', PStr ''too_many'')]))))
              else let (chunks, raised) = export_body w z fault (journal_rows z now (user_id u) q d2)
                   in Inr (ExportFile chunks raised))"

section \<open>Reading the file back\<close>

text \<open>A reader of such a file: outside a field, inside a plain or a quoted one, or after a closing quote.\<close>

datatype csv_state = FieldStart | Plain | Quoted | Closed

fun csv_read :: "csv_state \<Rightarrow> string \<Rightarrow> string list \<Rightarrow> string \<Rightarrow> string list list" where
  "csv_read st f r [] = (if st = FieldStart \<and> r = [] then [] else [rev (rev f # r)])"
| "csv_read st f r (c # cs) =
     (if st = Quoted then (if c = CHR 0x22 then csv_read Closed f r cs else csv_read Quoted (c # f) r cs)
      else if c = CHR 0x22 then
        (if st = FieldStart then csv_read Quoted f r cs
         else if st = Closed then csv_read Quoted (c # f) r cs else csv_read Plain (c # f) r cs)
      else if c = CHR '';'' then csv_read FieldStart [] (rev f # r) cs
      else if c = CHR 0x0A \<and> f \<noteq> [] \<and> hd f = CHR 0x0D \<and> st = Plain
        then rev (rev (tl f) # r) # csv_read FieldStart [] [] cs
      else csv_read Plain (c # f) r cs)"

lemma csv_read_plain:
  "\<not> list_ex csv_special s \<Longrightarrow> st = FieldStart \<or> st = Plain \<Longrightarrow>
     csv_read st f r (s @ rest) = csv_read (if s = [] then st else Plain) (rev s @ f) r rest"
proof (induction s arbitrary: st f)
  case (Cons c s)
  from Cons.prems(1) have "\<not> csv_special c" and s: "\<not> list_ex csv_special s" by simp_all
  then have c: "c \<noteq> CHR '';''" "c \<noteq> CHR 0x22" "c \<noteq> CHR 0x0D" "c \<noteq> CHR 0x0A" by (simp_all add: csv_special_def)
  have "csv_read st f r ((c # s) @ rest) = csv_read Plain (c # f) r (s @ rest)"
    using Cons.prems(2) c by (elim disjE) simp_all
  also have "\<dots> = csv_read Plain (rev s @ c # f) r rest" using Cons.IH [OF s] by simp
  finally show ?case by simp
qed simp

lemma csv_read_quoted:
  "csv_read Quoted f r (double_quotes s @ rest) = csv_read Quoted (rev s @ f) r rest"
  by (induction s arbitrary: f) (simp_all add: double_quotes_def)

lemma csv_read_field:
  "\<exists>st. st \<noteq> Quoted \<and> csv_read FieldStart [] r (csv_field s @ rest) = csv_read st (rev s) r rest"
proof (cases "list_ex csv_special s")
  case True
  then have "csv_read FieldStart [] r (csv_field s @ rest) = csv_read Closed (rev s) r rest"
    by (simp add: csv_field_def csv_read_quoted)
  then show ?thesis by blast
next
  case False
  then have "csv_read FieldStart [] r (csv_field s @ rest) = csv_read (if s = [] then FieldStart else Plain) (rev s) r rest"
    using csv_read_plain [OF False, of FieldStart "[]" r rest] by (simp add: csv_field_def)
  then show ?thesis by (intro exI [of _ "if s = [] then FieldStart else Plain"]) simp
qed

lemma csv_read_end:
  "st \<noteq> Quoted \<Longrightarrow> csv_read st f r (CHR 0x0D # CHR 0x0A # rest) = rev (rev f # r) # csv_read FieldStart [] [] rest"
  by simp

lemma csv_read_separator: "st \<noteq> Quoted \<Longrightarrow> csv_read st f r (CHR '';'' # rest) = csv_read FieldStart [] (rev f # r) rest"
  by simp

lemma csv_read_fields:
  "fs \<noteq> [] \<Longrightarrow>
     csv_read FieldStart [] r (join_on CHR '';'' (map csv_field fs) @ CHR 0x0D # CHR 0x0A # rest) =
     rev (rev fs @ r) # csv_read FieldStart [] [] rest"
proof (induction fs arbitrary: r rule: induct_list012)
  case (2 s)
  obtain st where "st \<noteq> Quoted"
    "csv_read FieldStart [] r (csv_field s @ CHR 0x0D # CHR 0x0A # rest) = csv_read st (rev s) r (CHR 0x0D # CHR 0x0A # rest)"
    using csv_read_field by blast
  then show ?case using csv_read_end by simp
next
  case (3 s t fs)
  let ?more = "join_on CHR '';'' (map csv_field (t # fs)) @ CHR 0x0D # CHR 0x0A # rest"
  obtain st where "st \<noteq> Quoted"
    "csv_read FieldStart [] r (csv_field s @ CHR '';'' # ?more) = csv_read st (rev s) r (CHR '';'' # ?more)"
    using csv_read_field by blast
  then have "csv_read FieldStart [] r (csv_field s @ CHR '';'' # ?more) = csv_read FieldStart [] (s # r) ?more"
    using csv_read_separator by simp
  with "3.IH"(2) [of "s # r"] show ?case by simp
qed simp

lemma csv_read_row:
  assumes "fs \<noteq> []"
  shows "csv_read FieldStart [] [] (csv_row fs @ rest) = fs # csv_read FieldStart [] [] rest"
proof (cases "fs = [[]]")
  case True
  then show ?thesis by (simp add: csv_row_def)
next
  case False
  with csv_read_fields [OF assms, of "[]" rest] show ?thesis by (simp add: csv_row_def)
qed

lemma csv_read_rows:
  "(\<And>fs. fs \<in> set rows \<Longrightarrow> fs \<noteq> []) \<Longrightarrow> csv_read FieldStart [] [] (concat (map csv_row rows)) = rows"
proof (induction rows)
  case (Cons fs rows)
  then show ?case using csv_read_row [of fs "concat (map csv_row rows)"] by simp
qed simp

definition kept_rows :: "nat option \<Rightarrow> 'a list \<Rightarrow> 'a list" where
  "kept_rows fault rows = (case fault of None \<Rightarrow> rows | Some k \<Rightarrow> take k rows)"

lemma export_body_reads:
  assumes "export_body w z fault rows = (chunks, raised)"
  shows "raised = (fault \<noteq> None) \<and> (\<exists>file. concat chunks = ew_mark w @ file \<and>
    csv_read FieldStart [] [] file =
      EXPORT_HEADER w # map (export_row w z) (kept_rows fault rows) @ (if raised then [[ew_truncated w]] else []))"
proof -
  let ?rows = "EXPORT_HEADER w # map (export_row w z) (kept_rows fault rows) @ (if raised then [[ew_truncated w]] else [])"
  have "csv_read FieldStart [] [] (concat (map csv_row ?rows)) = ?rows"
    by (rule csv_read_rows) (auto simp: EXPORT_HEADER_def export_row_def split: if_splits)
  moreover have "raised = (fault \<noteq> None)" "concat chunks = ew_mark w @ concat (map csv_row ?rows)"
    using assms by (auto simp: export_body_def kept_rows_def Let_def comp_def split: option.splits)
  ultimately show ?thesis by blast
qed

lemma export_cell_harmless: "export_cell v = [] \<or> hd (export_cell v) \<notin> EXPORT_DANGEROUS_PREFIXES"
  by (auto simp: export_cell_def EXPORT_DANGEROUS_PREFIXES_def Let_def)

lemma export_row_harmless: "cell \<in> set (export_row w z p) \<Longrightarrow> cell = [] \<or> hd cell \<notin> EXPORT_DANGEROUS_PREFIXES"
proof -
  assume "cell \<in> set (export_row w z p)"
  then have "cell \<in> range export_cell" by (auto simp: export_row_def Let_def text_cell_def)
  then obtain v where "cell = export_cell v" by (rule rangeE)
  with export_cell_harmless show ?thesis by simp
qed

lemma journal_rows_own:
  "p \<in> set (journal_rows z now uid q d) \<Longrightarrow>
     fst p \<in> set (db_send_logs d) \<and> log_user_id (fst p) = uid \<and> matches z now q d (fst p)"
  by (auto simp: journal_rows_def)

lemma journal_rows_newest_first:
  "sorted_wrt (\<lambda>p p'. log_sent_at (fst p') \<le> log_sent_at (fst p)) (journal_rows z now uid q d)"
proof -
  have "sorted (map (\<lambda>l. - log_sent_at l) (sort_key (\<lambda>l. - log_sent_at l)
      (filter (\<lambda>l. log_user_id l = uid \<and> matches z now q d l) (db_send_logs d))))"
    by (rule sorted_sort_key)
  then show ?thesis by (simp add: journal_rows_def sorted_wrt_map)
qed

text \<open>
  C33: A file that is handed out reads back, cell by cell, as the header and the entries of the user that
  the filters let through, the newest first, whatever delimiters, quotes and line ends the names and
  errors hold. No cell begins with a character that a spreadsheet would run. A file that broke off
  says so in its last row and is a prefix of the whole one.
\<close>

theorem exported_file_reads_back:
  assumes "history_export en tzs w now rq q fault d d2 = Inr (ExportFile chunks raised)"
  shows "\<exists>u rows file. page_request en now rq d = Inr (Some u) \<and>
    history_count (get_timezone_for_user tzs (Some u)) now (user_id u) (jq_status q) (jq_messenger q) (jq_account q)
      (jq_period q) d \<le> 50000 \<and>
    rows = kept_rows fault (journal_rows (get_timezone_for_user tzs (Some u)) now (user_id u) q d2) \<and>
    concat chunks = ew_mark w @ file \<and> raised = (fault \<noteq> None) \<and>
    csv_read FieldStart [] [] file =
      EXPORT_HEADER w # map (export_row w (get_timezone_for_user tzs (Some u))) rows @
      (if raised then [[ew_truncated w]] else []) \<and>
    (\<forall>p \<in> set rows. log_user_id (fst p) = user_id u \<and>
       (\<forall>cell \<in> set (export_row w (get_timezone_for_user tzs (Some u)) p). cell = [] \<or> hd cell \<notin> EXPORT_DANGEROUS_PREFIXES)) \<and>
    sorted_wrt (\<lambda>p p'. log_sent_at (fst p') \<le> log_sent_at (fst p)) rows"
proof -
  obtain u where u: "page_request en now rq d = Inr (Some u)"
    using assms by (auto simp: history_export_def result_simps split: option.splits)
  let ?z = "get_timezone_for_user tzs (Some u)"
  let ?all = "journal_rows ?z now (user_id u) q d2"
  have n: "history_count ?z now (user_id u) (jq_status q) (jq_messenger q) (jq_account q) (jq_period q) d \<le> 50000"
    and body: "export_body w ?z fault ?all = (chunks, raised)"
    using assms u by (simp_all add: history_export_def EXPORT_ROW_CAP_def Let_def split: if_splits prod.splits)
  obtain f where reads: "raised = (fault \<noteq> None)" "concat chunks = ew_mark w @ f"
    "csv_read FieldStart [] [] f =
      EXPORT_HEADER w # map (export_row w ?z) (kept_rows fault ?all) @ (if raised then [[ew_truncated w]] else [])"
    using export_body_reads [OF body] by blast
  have "p \<in> set ?all" if "p \<in> set (kept_rows fault ?all)" for p
    using that by (auto simp: kept_rows_def dest: in_set_takeD split: option.splits)
  then have own: "log_user_id (fst p) = user_id u" if "p \<in> set (kept_rows fault ?all)" for p
    using journal_rows_own that by blast
  have "sorted_wrt (\<lambda>p p'. log_sent_at (fst p') \<le> log_sent_at (fst p)) (kept_rows fault ?all)"
    using journal_rows_newest_first by (auto simp: kept_rows_def sorted_wrt_take split: option.splits)
  then show ?thesis using u n reads own export_row_harmless by blast
qed


section \<open>Pages that are not missed\<close>

text \<open>
  A reader who follows the pages while the journal grows: each page is fetched at its own moment
  from the tables of that moment, the offset grows by the page.
\<close>

fun journal_walk ::
  "day_zone \<Rightarrow> int \<Rightarrow> journal_query \<Rightarrow> nat \<Rightarrow> nat \<Rightarrow> (int \<times> db) list \<Rightarrow> int list \<times> bool" where
  "journal_walk z uid q limit offset [] = ([], False)"
| "journal_walk z uid q limit offset ((now, d) # ds) =
     (let (rows, has_next) = journal_page z now uid q offset limit d;
          ids = map (\<lambda>p. log_id (fst p)) rows
      in if has_next
         then let (more, over) = journal_walk z uid q limit (offset + limit) ds in (ids @ more, over)
         else (ids, True))"

definition journal_grows :: "db \<Rightarrow> db \<Rightarrow> bool" where
  "journal_grows d d' \<longleftrightarrow>
     (\<exists>ns. db_send_logs d' = db_send_logs d @ ns \<and> (\<forall>n \<in> set ns. \<forall>l \<in> set (db_send_logs d). log_sent_at l < log_sent_at n))"

definition journal_ids :: "day_zone \<Rightarrow> int \<Rightarrow> int \<Rightarrow> journal_query \<Rightarrow> db \<Rightarrow> int list" where
  "journal_ids z now uid q d = map (\<lambda>p. log_id (fst p)) (journal_rows z now uid q d)"

lemma sort_key_later_first:
  assumes "\<And>x y. x \<in> set xs \<Longrightarrow> y \<in> set ys \<Longrightarrow> f y < (f x :: int)"
  shows "sort_key f (xs @ ys) = sort_key f ys @ sort_key f xs"
proof (rule properties_for_sort_key)
  show "mset (sort_key f ys @ sort_key f xs) = mset (xs @ ys)" by simp
  show "filter (\<lambda>x. f k = f x) (sort_key f ys @ sort_key f xs) = filter (\<lambda>x. f k = f x) (xs @ ys)"
    if "k \<in> set (sort_key f ys @ sort_key f xs)" for k
  proof -
    have "filter (\<lambda>x. f k = f x) xs = [] \<or> filter (\<lambda>x. f k = f x) ys = []"
      using assms by (force simp: filter_empty_conv)
    moreover have "filter (\<lambda>x. f k = f x) (sort_key f zs) = filter (\<lambda>x. f k = f x) zs" for zs
      by (simp only: eq_commute [of "f k"] sort_key_stable)
    ultimately show ?thesis by auto
  qed
  show "sorted (map f (sort_key f ys @ sort_key f xs))"
    using assms by (fastforce simp: sorted_append)
qed

lemma journal_grows_rows:
  assumes "journal_grows d d'" "jq_account q = None" "jq_period q = None"
  shows "\<exists>ns. journal_ids z now' uid q d' = ns @ journal_ids z now uid q d"
proof -
  let ?P = "\<lambda>now d l. log_user_id l = uid \<and> matches z now q d l"
  obtain ns where ns: "db_send_logs d' = db_send_logs d @ ns"
    "\<And>n l. n \<in> set ns \<Longrightarrow> l \<in> set (db_send_logs d) \<Longrightarrow> log_sent_at l < log_sent_at n"
    using assms(1) unfolding journal_grows_def by blast
  have P: "?P now' d' = ?P now d" using assms(2,3) by (simp add: matches_def history_filter_def period_cutoff_def)
  have "sort_key (\<lambda>l. - log_sent_at l) (filter (?P now d) (db_send_logs d) @ filter (?P now d) ns) =
      sort_key (\<lambda>l. - log_sent_at l) (filter (?P now d) ns) @ sort_key (\<lambda>l. - log_sent_at l) (filter (?P now d) (db_send_logs d))"
    using ns(2) by (intro sort_key_later_first) auto
  then show ?thesis by (simp add: journal_ids_def journal_rows_def P ns(1) comp_def)
qed

lemma journal_page_ids:
  assumes "journal_page z now uid q offset limit d = (rows, has_next)"
  shows "map (\<lambda>p. log_id (fst p)) rows = take limit (drop offset (journal_ids z now uid q d))"
    "has_next \<longleftrightarrow> limit < length (drop offset (journal_ids z now uid q d))"
  using assms by (auto simp: journal_page_def journal_ids_def Let_def take_map drop_map)

lemma page_then_rest:
  "set (drop (offset - length ns) base) \<subseteq>
   set (take limit (drop offset (ns @ base))) \<union> set (drop (offset + limit - length (ms @ ns)) base)"
proof -
  let ?k = "offset - length ns" and ?m = "limit - length (drop offset ns)"
  have "drop ?k base = take ?m (drop ?k base) @ drop (?k + ?m) base"
    using append_take_drop_id [of ?m "drop ?k base"] by (simp add: drop_drop add.commute)
  then have "set (drop ?k base) = set (take ?m (drop ?k base)) \<union> set (drop (?k + ?m) base)"
    by (metis set_append)
  moreover have "set (drop (?k + ?m) base) \<subseteq> set (drop (offset + limit - length (ms @ ns)) base)"
    by (rule set_drop_subset_set_drop) auto
  ultimately show ?thesis by auto
qed

lemma walk_from:
  assumes "journal_walk z uid q limit offset ((now, d) # ds) = (ids, True)"
    and "successively journal_grows (d # map snd ds)" "jq_account q = None" "jq_period q = None"
    and "journal_ids z now uid q d = ns @ base"
  shows "set (drop (offset - length ns) base) \<subseteq> set ids"
  using assms
proof (induction ds arbitrary: offset now d ids ns)
  case Nil
  obtain rows has_next where page: "journal_page z now uid q offset limit d = (rows, has_next)" by force
  have "\<not> has_next" "ids = map (\<lambda>p. log_id (fst p)) rows" using Nil.prems(1) page by (auto simp: Let_def split: if_splits)
  then show ?case using journal_page_ids [OF page] Nil.prems(5) by simp
next
  case (Cons nd ds)
  obtain rows has_next where page: "journal_page z now uid q offset limit d = (rows, has_next)" by force
  obtain now' d' where nd: "nd = (now', d')" by force
  let ?shown = "take limit (drop offset (ns @ base))"
  show ?case
  proof (cases has_next)
    case False
    then have "ids = map (\<lambda>p. log_id (fst p)) rows" using Cons.prems(1) page by (simp add: Let_def)
    then show ?thesis using journal_page_ids [OF page] Cons.prems(5) False by simp
  next
    case True
    then obtain more where more: "journal_walk z uid q limit (offset + limit) ((now', d') # ds) = (more, True)"
      "ids = ?shown @ more"
      using Cons.prems(1,5) page journal_page_ids(1) [OF page] nd by (auto simp: Let_def split: prod.splits)
    obtain ms where ms: "journal_ids z now' uid q d' = (ms @ ns) @ base"
      using journal_grows_rows [of d d' q z now' uid now] Cons.prems(2-5) nd by auto
    have "set (drop (offset + limit - length (ms @ ns)) base) \<subseteq> set more"
      using Cons.IH [OF more(1) _ Cons.prems(3,4) ms] Cons.prems(2) nd by simp
    moreover have "set (drop (offset - length ns) base) \<subseteq> set ?shown \<union> set (drop (offset + limit - length (ms @ ns)) base)"
      by (rule page_then_rest)
    ultimately show ?thesis using more(2) by auto
  qed
qed


section \<open>The properties at concrete inputs\<close>

definition no_query :: journal_query where
  "no_query = clean_query None None None None"

definition plain_words :: export_words where
  "plain_words = \<lparr>ew_mark = [], ew_header = nat_str, ew_status = (\<lambda>s. s), ew_messenger = (\<lambda>s. s), ew_truncated = ''cut''\<rparr>"

definition formula_log :: send_log where
  "formula_log = sample_log\<lparr>log_ad_title := Some ''=1;2'', log_error_message := Some [CHR 0x22, CHR 0x0D],
     log_sent_at := day_of 2024 2 29 * day_us + 77 * minute_us\<rparr>"

definition journal_db :: db where
  "journal_db = sample_db\<lparr>db_send_logs := [formula_log]\<rparr>"

lemma journal_db_page: "page_request (sample_env (two_tokens None)) 5 cookie_request journal_db = Inr (Some sample_user)"
  by (rule sample_page_request) (simp_all add: journal_db_def sample_db_def)

lemma journal_db_rows: "journal_rows utc_zone 5 1 no_query journal_db = [(formula_log, None)]"
  by code_simp

lemma exported_file_reads_back_witness:
  "\<exists>chunks. history_export (sample_env (two_tokens None)) (\<lambda>_. Inr utc_zone) plain_words 5 cookie_request no_query None
     journal_db journal_db = Inr (ExportFile chunks False) \<and>
   csv_read FieldStart [] [] (concat chunks) = [EXPORT_HEADER plain_words, export_row plain_words utc_zone (formula_log, None)] \<and>
   export_row plain_words utc_zone (formula_log, None) =
     [''2024-02-29 01:17'', ''tg_user'', [], ''market'', [CHR 0x27] @ ''=1;2'', ''fail'', [CHR 0x22, CHR 0x0D], ''t'']"
proof -
  have u: "user_id sample_user = 1" "get_timezone_for_user (\<lambda>_. Inr utc_zone) (Some sample_user) = utc_zone"
    by (simp_all add: sample_user_def get_timezone_for_user_def)
  have "history_count utc_zone 5 1 (jq_status no_query) (jq_messenger no_query) (jq_account no_query) (jq_period no_query)
      journal_db = 1" by code_simp
  then obtain chunks where run: "history_export (sample_env (two_tokens None)) (\<lambda>_. Inr utc_zone) plain_words 5 cookie_request
      no_query None journal_db journal_db = Inr (ExportFile chunks False)"
    by (simp add: history_export_def journal_db_page u EXPORT_ROW_CAP_def export_body_def Let_def)
  have "csv_read FieldStart [] [] (concat chunks) =
      EXPORT_HEADER plain_words # map (export_row plain_words utc_zone) (kept_rows None (journal_rows utc_zone 5 1 no_query journal_db))"
    using exported_file_reads_back [OF run] by (auto simp: journal_db_page u plain_words_def)
  then have "csv_read FieldStart [] [] (concat chunks) = [EXPORT_HEADER plain_words, export_row plain_words utc_zone (formula_log, None)]"
    by (simp add: journal_db_rows kept_rows_def)
  moreover have "export_row plain_words utc_zone (formula_log, None) =
     [''2024-02-29 01:17'', ''tg_user'', [], ''market'', [CHR 0x27] @ ''=1;2'', ''fail'', [CHR 0x22, CHR 0x0D], ''t'']" by code_simp
  ultimately show ?thesis using run by blast
qed

definition logs_db :: "(int \<times> int) list \<Rightarrow> db" where
  "logs_db ls = sample_db\<lparr>db_send_logs := map (\<lambda>(i, t). formula_log\<lparr>log_id := i, log_sent_at := t\<rparr>) ls\<rparr>"

lemma logs_db_grows:
  "(\<And>x y. x \<in> set xs \<Longrightarrow> y \<in> set ys \<Longrightarrow> snd x < snd y) \<Longrightarrow> journal_grows (logs_db xs) (logs_db (xs @ ys))"
  unfolding journal_grows_def
  by (intro exI [of _ "map (\<lambda>(i, t). formula_log\<lparr>log_id := i, log_sent_at := t\<rparr>) ys"]) (fastforce simp: logs_db_def)


end
