(* ===== verification/Shell.thy ===== *)
theory Shell
  imports Journal
begin

text \<open>
  What every page shows around its content, and the pages that show little else:
  \<open>app/pages/common.py\<close> (the menu, the counts, the access, the banner of an administrator who
  entered an account), \<open>app/pages/dashboard.py\<close>, \<open>dashboard_feed.py\<close>,
  \<open>profile.py\<close> and \<open>groups.py\<close>, and the JSON interfaces of accounts and of the
  journal, \<open>app/routes/accounts.py\<close> and \<open>history.py\<close> with their repositories.

  The words of the interface are Cyrillic: a label is the argument that names it, and the markup is
  an argument too.
\<close>

section \<open>Access as the pages show it\<close>

record shown_access =
  sa_open :: bool
  sa_expires_at :: "datetime option"
  sa_comped :: bool
  sa_days_left :: "int option"

definition shown_access_of :: "subscription option \<Rightarrow> int \<Rightarrow> shown_access" where
  "shown_access_of sub now =
     (let expires_at = map_option sub_expires_at sub
      in \<lparr>sa_open = access_is_open sub (utc_datetime now), sa_expires_at = expires_at,
          sa_comped = (case sub of None \<Rightarrow> False | Some s \<Rightarrow> sub_has_free_access s),
          sa_days_left = days_left expires_at (utc_datetime now)\<rparr>)"

text \<open>The row of the shell is the one that lasts longest.\<close>

definition latest_active :: "int \<Rightarrow> db \<Rightarrow> subscription option" where
  "latest_active uid d = latest_row (\<lambda>s. instant (sub_expires_at s)) (active_rows uid d)"

text \<open>The list of the administrator reads all rows at once; of two rows of a user the last one stays.\<close>

definition active_subscriptions_by_user :: "int list \<Rightarrow> db \<Rightarrow> int \<Rightarrow> subscription option" where
  "active_subscriptions_by_user uids d =
     (if uids = [] then Map.empty
      else map_of (rev (map (\<lambda>s. (sub_user_id s, s))
             (sort_key (\<lambda>s. - instant (sub_expires_at s))
               (filter (\<lambda>s. sub_user_id s \<in> set uids \<and> sub_is_active s) (db_subscriptions d))))))"

section \<open>The menu and the shell\<close>

definition NAV_KEYS :: "string list" where
  "NAV_KEYS = [''dashboard'', ''accounts'', ''ads'', ''schedules'', ''history'', ''billing'', ''profile'']"

definition nav_label :: "(string \<Rightarrow> string) \<Rightarrow> string option \<Rightarrow> string" where
  "nav_label words active_page =
     (case active_page of
        None \<Rightarrow> ''Broadcaster''
      | Some p \<Rightarrow> if p \<in> set NAV_KEYS \<or> p = ''admin'' then words p else ''Broadcaster'')"

definition IMPERSONATION_LABEL_CAP :: nat where "IMPERSONATION_LABEL_CAP = 48"

definition rstrip :: "string \<Rightarrow> string" where
  "rstrip s = rev (dropWhile is_space (rev s))"

definition impersonation_label :: "char \<Rightarrow> user \<Rightarrow> string" where
  "impersonation_label dots u =
     (let label = (if strip (user_name u) = [] then user_email u else strip (user_name u))
      in if IMPERSONATION_LABEL_CAP < length label
         then rstrip (take (IMPERSONATION_LABEL_CAP - 1) label) @ [dots] else label)"

definition impersonation_view :: "char \<Rightarrow> page_user option \<Rightarrow> (int \<times> int \<times> string) option" where
  "impersonation_view dots pu =
     (case pu of
        None \<Rightarrow> None
      | Some p \<Rightarrow>
          (case pu_actor p of
             None \<Rightarrow> None
           | Some actor \<Rightarrow> Some (user_id actor, user_id (pu_user p), impersonation_label dots (pu_user p))))"

record shell_context =
  sc_ads :: nat
  sc_accounts :: nat
  sc_schedules :: nat
  sc_history :: nat
  sc_access :: shown_access
  sc_sessions_online :: nat
  sc_impersonation :: "(int \<times> int \<times> string) option"

definition get_shell_context :: "char \<Rightarrow> int \<Rightarrow> page_user option \<Rightarrow> db \<Rightarrow> shell_context option" where
  "get_shell_context dots now pu d =
     (case pu of
        None \<Rightarrow> None
      | Some p \<Rightarrow>
          let uid = user_id (pu_user p)
          in Some \<lparr>sc_ads = count_where (\<lambda>a. ad_user_id a = uid) (db_ads d),
                   sc_accounts = count_where (\<lambda>a. acc_user_id a = uid) (db_accounts d),
                   sc_schedules = count_where (\<lambda>s. owns_ad d uid (sch_ad_id s)) (db_schedules d),
                   sc_history = count_where (\<lambda>l. log_user_id l = uid) (db_send_logs d),
                   sc_access = shown_access_of (latest_active uid d) now,
                   sc_sessions_online =
                     count_where (\<lambda>a. acc_user_id a = uid \<and> acc_status a = ''active'') (db_accounts d),
                   sc_impersonation = impersonation_view dots pu\<rparr>)"

section \<open>Pictures\<close>

definition is_web_address :: "string \<Rightarrow> bool" where
  "is_web_address v \<longleftrightarrow> starts_with v ''http://'' \<or> starts_with v ''https://''"

definition resolve_image_url :: "string \<Rightarrow> string \<Rightarrow> string" where
  "resolve_image_url key s3 = (if key = [] then [] else if is_web_address key then key else get_image_url key s3)"

definition rstrip_slash :: "string \<Rightarrow> string" where
  "rstrip_slash s = rev (dropWhile (\<lambda>c. c = CHR ''/'') (rev s))"

definition thumb_image_url :: "string \<Rightarrow> string \<Rightarrow> string" where
  "thumb_image_url v s3 =
     (if v = [] then []
      else if is_web_address v then
        (let prefix = rstrip_slash s3 @ ''/''
         in if s3 \<noteq> [] \<and> starts_with v prefix then get_image_url (thumb_key (drop (length prefix) v)) s3 else v)
      else get_image_url (thumb_key v) s3)"

section \<open>Numbers with their words\<close>

datatype plural_form = FormOne | FormFew | FormMany

definition plural_ru :: "int \<Rightarrow> plural_form" where
  "plural_ru n =
     (let tail = \<bar>n\<bar> mod 100
      in if 11 \<le> tail \<and> tail \<le> 14 then FormMany
         else let tail = tail mod 10
           in if tail = 1 then FormOne else if 2 \<le> tail \<and> tail \<le> 4 then FormFew else FormMany)"

datatype time_ago = JustNow | MinutesAgo int plural_form | HoursAgo int plural_form | DaysAgo int plural_form

text \<open>
  Both moments carry the same zone, so their difference is the difference of the two clock readings;
  \<open>int\<close> drops the part of a second towards zero.
\<close>

definition whole_seconds :: "int \<Rightarrow> int" where
  "whole_seconds us = (if us < 0 then - (- us div second_us) else us div second_us)"

definition ago_of :: "int \<Rightarrow> time_ago" where
  "ago_of seconds =
     (let minutes = seconds div 60
      in if minutes < 1 then JustNow
         else if minutes < 60 then MinutesAgo minutes (plural_ru minutes)
         else let hours = minutes div 60
           in if hours < 24 then HoursAgo hours (plural_ru hours)
              else DaysAgo (hours div 24) (plural_ru (hours div 24)))"

definition time_ago_for_user :: "day_zone \<Rightarrow> int \<Rightarrow> int option \<Rightarrow> time_ago option" where
  "time_ago_for_user z now v =
     (case v of None \<Rightarrow> None | Some t \<Rightarrow> Some (ago_of (whole_seconds (wall_of z now - wall_of z t))))"

section \<open>The dashboard\<close>

datatype next_step = ConnectAccount | CreateAd | ToAds | NothingLeft

definition next_step_address :: "next_step \<Rightarrow> string" where
  "next_step_address s =
     (case s of ConnectAccount \<Rightarrow> ''/accounts'' | CreateAd \<Rightarrow> ''/ads/new'' | ToAds \<Rightarrow> ''/ads'' | NothingLeft \<Rightarrow> [])"

definition dashboard_next_step :: "shell_context option \<Rightarrow> next_step" where
  "dashboard_next_step shell =
     (case shell of
        None \<Rightarrow> ConnectAccount
      | Some c \<Rightarrow>
          if sc_accounts c = 0 then ConnectAccount
          else if sc_ads c = 0 then CreateAd
          else if sc_schedules c = 0 then ToAds else NothingLeft)"

definition FEED_LIMIT :: nat where "FEED_LIMIT = 8"

record dashboard_view =
  dv_metrics :: send_metrics
  dv_upcoming :: "upcoming_send list"
  dv_next_step :: next_step
  dv_feed :: "feed_row list"

definition dashboard ::
  "sign_env \<Rightarrow> (string \<Rightarrow> exn + day_zone) \<Rightarrow> char \<Rightarrow> (dashboard_view \<Rightarrow> exn + body_response) \<Rightarrow> int \<Rightarrow> http_request \<Rightarrow> db \<Rightarrow>
     exn + reply" where
  "dashboard en tzs dots markup now rq d =
     bind_res (get_user_from_cookie (en_lib en) (en_cfg en) now rq d) (\<lambda>pu.
       case pu of
         None \<Rightarrow> Inr (RedirectResponse ''/login'')
       | Some p \<Rightarrow>
           let u = pu_user p; uid = user_id u in
           bind_res (upcoming_sends uid UPCOMING_LIMIT d) (\<lambda>upcoming.
             shown (markup \<lparr>dv_metrics = send_metrics_of (Some uid) (local_day_bounds (get_timezone_for_user tzs (Some u)) now) d,
               dv_upcoming = upcoming, dv_next_step = dashboard_next_step (get_shell_context dots now pu d),
               dv_feed = recent_feed uid FEED_LIMIT d\<rparr>)))"

definition dashboard_feed ::
  "sign_env \<Rightarrow> (feed_row list \<Rightarrow> exn + body_response) \<Rightarrow> int \<Rightarrow> http_request \<Rightarrow> db \<Rightarrow> exn + reply" where
  "dashboard_feed en markup now rq d =
     bind_res (get_user_from_cookie (en_lib en) (en_cfg en) now rq d) (\<lambda>pu.
       case pu of
         None \<Rightarrow> Inr (RedirectResponse ''/login'')
       | Some p \<Rightarrow> shown (markup (recent_feed (user_id (pu_user p)) FEED_LIMIT d)))"

text \<open>The retired page of groups leads to the accounts whatever follows in the address.\<close>

definition groups_retired :: "string \<Rightarrow> reply" where
  "groups_retired deep_link = RedirectResponse ''/accounts''"

section \<open>The profile\<close>

record profile_view =
  pv_selected :: string
  pv_error :: bool

definition profile_get ::
  "sign_env \<Rightarrow> (profile_view \<Rightarrow> exn + body_response) \<Rightarrow> int \<Rightarrow> http_request \<Rightarrow> db \<Rightarrow> exn + reply" where
  "profile_get en page now rq d =
     bind_res (get_user_from_cookie (en_lib en) (en_cfg en) now rq d) (\<lambda>pu.
       case pu of
         None \<Rightarrow> Inr (RedirectResponse ''/login'')
       | Some p \<Rightarrow> shown (page \<lparr>pv_selected = user_timezone (pu_user p), pv_error = False\<rparr>))"

definition set_timezone :: "int \<Rightarrow> string \<Rightarrow> db \<Rightarrow> db" where
  "set_timezone uid tz d =
     d\<lparr>db_users := update_where (\<lambda>u. user_id u = uid) (\<lambda>u. u\<lparr>user_timezone := tz\<rparr>) (db_users d)\<rparr>"

definition profile_post ::
  "sign_env \<Rightarrow> (string \<Rightarrow> string) \<Rightarrow> (profile_view \<Rightarrow> exn + body_response) \<Rightarrow> (profile_view \<Rightarrow> exn + body_response) \<Rightarrow> int \<Rightarrow>
     http_request \<Rightarrow> string \<Rightarrow> db \<Rightarrow> (exn + reply) \<times> db" where
  "profile_post en oob page fragment now rq tz d =
     (case bind_res (forbid_when_impersonating (en_lib en) (en_cfg en) now rq) (\<lambda>_.
             get_user_from_cookie (en_lib en) (en_cfg en) now rq d) of
        Inl e \<Rightarrow> (Inl e, d)
      | Inr None \<Rightarrow> (respond oob rq ''/login'' None None, d)
      | Inr (Some p) \<Rightarrow>
          if tz \<in> VALID_TIMEZONES
          then (respond oob rq ''/profile'' (Some ''profile_saved'')
                  (Some (fragment \<lparr>pv_selected = tz, pv_error = False\<rparr>)),
                set_timezone (user_id (pu_user p)) tz d)
          else (respond_field_error rq (page \<lparr>pv_selected = tz, pv_error = True\<rparr>) (fragment \<lparr>pv_selected = tz, pv_error = True\<rparr>), d))"

section \<open>The JSON interfaces of accounts and of the journal\<close>

definition create_account :: "sign_env \<Rightarrow> int \<Rightarrow> http_request \<Rightarrow> string \<Rightarrow> string \<Rightarrow> db \<Rightarrow> (exn + account) \<times> db" where
  "create_account en now rq ty credentials d =
     (case api_gate (en_lib en) (en_cfg en) now rq d of
        Inl e \<Rightarrow> (Inl e, d)
      | Inr uid \<Rightarrow>
          if 20 < length ty then (Inl DataError, d)
          else let a = new_account uid ty credentials ''disconnected'' now d in (Inr a, add_account a d))"

definition list_accounts :: "sign_env \<Rightarrow> int \<Rightarrow> http_request \<Rightarrow> db \<Rightarrow> exn + account list" where
  "list_accounts en now rq d =
     bind_res (api_gate (en_lib en) (en_cfg en) now rq d) (\<lambda>uid.
       Inr (sort_key acc_id (filter (\<lambda>a. acc_user_id a = uid) (db_accounts d))))"

text \<open>An identifier the column cannot hold is refused by the database.\<close>

definition fits_integer_column :: "int \<Rightarrow> bool" where
  "fits_integer_column i \<longleftrightarrow> - 2147483648 \<le> i \<and> i \<le> 2147483647"

definition remove_account :: "sign_env \<Rightarrow> int \<Rightarrow> http_request \<Rightarrow> int \<Rightarrow> db \<Rightarrow> (exn + unit) \<times> db" where
  "remove_account en now rq i d =
     (case api_gate (en_lib en) (en_cfg en) now rq d of
        Inl e \<Rightarrow> (Inl e, d)
      | Inr uid \<Rightarrow>
          if \<not> fits_integer_column i then (Inl DataError, d)
          else let (found, d') = delete_account uid i d
               in (if found then Inr () else Inl (HTTPException 404), d'))"

definition get_account_status :: "sign_env \<Rightarrow> int \<Rightarrow> http_request \<Rightarrow> int \<Rightarrow> db \<Rightarrow> exn + string" where
  "get_account_status en now rq i d =
     bind_res (api_gate (en_lib en) (en_cfg en) now rq d) (\<lambda>uid.
       if \<not> fits_integer_column i then Inl DataError
       else case owned_account uid i d of None \<Rightarrow> Inl (HTTPException 404) | Some a \<Rightarrow> Inr (acc_status a))"

definition STATS_WINDOW :: int where "STATS_WINDOW = 30 * day_us"

definition get_stats :: "sign_env \<Rightarrow> int \<Rightarrow> http_request \<Rightarrow> db \<Rightarrow> exn + nat \<times> nat \<times> nat" where
  "get_stats en now rq d =
     bind_res (api_gate (en_lib en) (en_cfg en) now rq d) (\<lambda>uid.
       let m = send_metrics_of (Some uid) (sliding_window_bounds now STATS_WINDOW) d
       in Inr (sm_total m, sm_ok m, sm_failed m))"

definition list_history :: "sign_env \<Rightarrow> int \<Rightarrow> http_request \<Rightarrow> nat \<Rightarrow> nat \<Rightarrow> db \<Rightarrow> exn + send_log list" where
  "list_history en now rq skip limit d =
     bind_res (api_gate (en_lib en) (en_cfg en) now rq d) (\<lambda>uid.
       Inr (take limit (drop skip
         (sort_key (\<lambda>l. - log_sent_at l) (filter (\<lambda>l. log_user_id l = uid) (db_send_logs d))))))"


section \<open>One answer about access\<close>

lemma active_by_user:
  assumes "subscriptions_ok (db_subscriptions d)" "uid \<in> set uids"
  shows "active_subscriptions_by_user uids d uid = latest_active uid d"
proof -
  define rows where "rows = rev (map (\<lambda>s. (sub_user_id s, s)) (sort_key (\<lambda>s. - instant (sub_expires_at s))
      (filter (\<lambda>s. sub_user_id s \<in> set uids \<and> sub_is_active s) (db_subscriptions d))))"
  have mem: "(uid, s) \<in> set rows \<longleftrightarrow> s \<in> set (active_rows uid d)" for s
    using assms(2) by (auto simp: rows_def active_rows_iff image_iff)
  have found: "map_of rows uid = None \<or> (\<exists>r. map_of rows uid = Some r \<and> r \<in> set (active_rows uid d))"
  proof (cases "map_of rows uid")
    case (Some r)
    then have "(uid, r) \<in> set rows" by (rule map_of_SomeD)
    with Some mem show ?thesis by simp
  qed simp
  have missing: "(uid, s) \<notin> set rows" if "map_of rows uid = None" for s
    using that by (metis fst_conv image_eqI map_of_eq_None_iff)
  have by_user: "active_subscriptions_by_user uids d uid = map_of rows uid"
    using assms(2) by (auto simp: active_subscriptions_by_user_def rows_def)
  show ?thesis
  proof (rule active_rows_cases [OF assms(1), of uid])
    assume none: "active_rows uid d = []"
    with found have "map_of rows uid = None" by auto
    with by_user none show ?thesis by (simp add: latest_active_def)
  next
    fix s assume one: "active_rows uid d = [s]"
    then have "(uid, s) \<in> set rows" using mem by simp
    with missing found one have "map_of rows uid = Some s" by auto
    with by_user one show ?thesis by (simp add: latest_active_def)
  qed
qed

lemma shown_open: "sa_open (shown_access_of (latest_active uid d) now) \<longleftrightarrow> fst (check_access now uid d)"
  by (simp add: shown_access_of_def check_access_def latest_active_def Let_def)

lemma axes_of_shown_access:
  assumes "subscriptions_ok (db_subscriptions d)"
  shows "(comped d u \<longleftrightarrow> sa_open (shown_access_of (latest_active (user_id u) d) now) \<and>
      sa_comped (shown_access_of (latest_active (user_id u) d) now)) \<and>
    (live_by_term now d u \<and> \<not> comped d u \<longleftrightarrow> sa_open (shown_access_of (latest_active (user_id u) d) now) \<and>
      \<not> sa_comped (shown_access_of (latest_active (user_id u) d) now)) \<and>
    (\<not> access_open now d u \<longleftrightarrow> \<not> sa_open (shown_access_of (latest_active (user_id u) d) now))"
proof (rule active_rows_cases [OF assms, of "user_id u"])
  assume "active_rows (user_id u) d = []"
  then show ?thesis
    by (simp add: access_axes latest_active_def shown_access_of_def access_is_open_def Let_def)
next
  fix s assume one: "active_rows (user_id u) d = [s]"
  then have "sub_is_active s" using active_rows_iff [of s "user_id u" d] by simp
  with one show ?thesis
    by (auto simp: access_axes latest_active_def shown_access_of_def access_is_open_def Let_def)
qed


section \<open>The profile\<close>

lemma set_timezone_users:
  "list_all2 (\<lambda>u v. if user_id u = uid then v = u\<lparr>user_timezone := tz\<rparr> else v = u) (db_users d) (db_users (set_timezone uid tz d))"
  by (simp add: set_timezone_def update_where_def list_all2_map2 list_all2_same)

text \<open>
  The form of the profile writes nothing but the time zone of the user who sends it, only a zone of
  the list, and never for an administrator who entered the account. Whatever else is sent stays on
  the form.
\<close>

theorem profile_writes_the_own_zone_only:
  assumes "profile_post en oob page fragment now rq tz d = (r, d')" "d' \<noteq> d"
  shows "\<exists>pu. get_user_from_cookie (en_lib en) (en_cfg en) now rq d = Inr (Some pu) \<and>
    request_actor (en_lib en) (en_cfg en) now rq = Inr None \<and> tz \<in> VALID_TIMEZONES \<and>
    d'\<lparr>db_users := db_users d\<rparr> = d \<and>
    list_all2 (\<lambda>u v. if user_id u = user_id (pu_user pu) then v = u\<lparr>user_timezone := tz\<rparr> else v = u) (db_users d) (db_users d')"
proof -
  obtain p where p: "bind_res (forbid_when_impersonating (en_lib en) (en_cfg en) now rq) (\<lambda>_.
      get_user_from_cookie (en_lib en) (en_cfg en) now rq d) = Inr (Some p)" "tz \<in> VALID_TIMEZONES"
    "d' = set_timezone (user_id (pu_user p)) tz d"
    using assms by (auto simp: profile_post_def split: sum.splits option.splits if_splits)
  then have "get_user_from_cookie (en_lib en) (en_cfg en) now rq d = Inr (Some p)"
    "request_actor (en_lib en) (en_cfg en) now rq = Inr None"
    by (auto simp: result_simps forbid_when_impersonating_def refuse_def split: if_splits)
  with p(2,3) set_timezone_users [of "user_id (pu_user p)" tz d] show ?thesis
    by (intro exI [of _ p]) (simp add: set_timezone_def)
qed

text \<open>
  The words about the past are right to the unit they name, while the clock of the user does not jump.\<close>

theorem time_ago_is_right:
  assumes "wall_of z now - wall_of z t = now - t" "time_ago_for_user z now (Some t) = Some a"
  shows "case a of
      JustNow \<Rightarrow> now - t < minute_us
    | MinutesAgo n f \<Rightarrow> n * minute_us \<le> now - t \<and> now - t < (n + 1) * minute_us \<and> 1 \<le> n \<and> n < 60 \<and> f = plural_ru n
    | HoursAgo n f \<Rightarrow> n * hour_us \<le> now - t \<and> now - t < (n + 1) * hour_us \<and> 1 \<le> n \<and> n < 24 \<and> f = plural_ru n
    | DaysAgo n f \<Rightarrow> n * day_us \<le> now - t \<and> now - t < (n + 1) * day_us \<and> 1 \<le> n \<and> f = plural_ru n"
proof -
  have s: "second_us = 1000000" "minute_us = 60000000" "hour_us = 3600000000" "day_us = 86400000000"
    by (simp_all add: second_us_def minute_us_def hour_us_def day_us_def)
  define us where "us = now - t"
  have a: "a = ago_of (whole_seconds us)" using assms by (simp add: time_ago_for_user_def us_def)
  show ?thesis
  proof (cases "us < 0")
    case True
    then have "whole_seconds us \<le> 0" by (simp add: whole_seconds_def s pos_imp_zdiv_nonneg_iff)
    then have "a = JustNow" using a by (simp add: ago_of_def Let_def)
    with True show ?thesis by (simp add: us_def s)
  next
    case False
    have m: "us div second_us div 60 = us div minute_us" and h: "us div minute_us div 60 = us div hour_us"
      and dd: "us div hour_us div 24 = us div day_us"
      by (simp_all add: s zdiv_zmult2_eq [symmetric])
    have b: "us div k * k \<le> us \<and> us < (us div k + 1) * k" if "0 < k" for k
    proof -
      have "us div k * k + us mod k = us" "0 \<le> us mod k" "us mod k < k" using that by simp_all
      moreover have "(us div k + 1) * k = us div k * k + k" by (simp add: distrib_right)
      ultimately show ?thesis by linarith
    qed
    have units: "a = (if us div minute_us < 1 then JustNow
        else if us div minute_us < 60 then MinutesAgo (us div minute_us) (plural_ru (us div minute_us))
        else if us div hour_us < 24 then HoursAgo (us div hour_us) (plural_ru (us div hour_us))
        else DaysAgo (us div day_us) (plural_ru (us div day_us)))"
      using False by (simp add: a ago_of_def whole_seconds_def Let_def m h dd)
    have "60 \<le> us div minute_us \<longleftrightarrow> 1 \<le> us div hour_us" using pos_imp_zdiv_pos_iff [of 60 "us div minute_us"] by (auto simp: h)
    moreover have "24 \<le> us div hour_us \<longleftrightarrow> 1 \<le> us div day_us" using pos_imp_zdiv_pos_iff [of 24 "us div hour_us"] by (auto simp: dd)
    ultimately show ?thesis
      using units b [of minute_us] b [of hour_us] b [of day_us]
      by (auto simp: us_def s split: if_splits)
  qed
qed

section \<open>The properties at concrete inputs\<close>

lemma sample_cookie_user:
  "get_user_from_cookie (two_tokens None) sample_auth 5 cookie_request sample_db =
     Inr (Some \<lparr>pu_user = sample_user, pu_actor = None\<rparr>)"
proof -
  obtain p where p: "decode_access_token (two_tokens None) 5 ''s'' (as_secret_key sample_auth) = Inr (Some p)"
    "subject p = Inr 1" "actor_id (Some p) = None"
    using two_tokens_cookie by blast
  then have "p \<noteq> []" by (auto simp: subject_def dict_get_def)
  with p show ?thesis by (simp add: get_user_from_cookie_def sample_user_def sample_db_def)
qed


lemma profile_writes_the_own_zone_only_witness:
  "\<exists>r d'. profile_post (sample_env (two_tokens None)) (\<lambda>_. []) (\<lambda>_. Inl ValueError) (\<lambda>_. Inl ValueError) 5 cookie_request
       ''Asia/Irkutsk'' sample_db = (r, d') \<and> d' \<noteq> sample_db \<and> d'\<lparr>db_users := db_users sample_db\<rparr> = sample_db \<and>
     map user_timezone (db_users d') = [''Asia/Irkutsk'']"
proof -
  have zone: "''Asia/Irkutsk'' \<in> VALID_TIMEZONES" by (simp add: VALID_TIMEZONES_def)
  let ?d = "set_timezone 1 ''Asia/Irkutsk'' sample_db"
  obtain r where run: "profile_post (sample_env (two_tokens None)) (\<lambda>_. []) (\<lambda>_. Inl ValueError) (\<lambda>_. Inl ValueError) 5 cookie_request
       ''Asia/Irkutsk'' sample_db = (r, ?d)"
    using zone by (simp add: profile_post_def forbid_when_impersonating_def cookie_actor sample_cookie_user sample_user_def)
  have zones: "map user_timezone (db_users ?d) = [''Asia/Irkutsk'']" "map user_timezone (db_users sample_db) = [''UTC'']"
    by (simp_all add: set_timezone_def update_where_def sample_db_def sample_user_def)
  then have changed: "?d \<noteq> sample_db" by force
  then have "?d\<lparr>db_users := db_users sample_db\<rparr> = sample_db"
    using profile_writes_the_own_zone_only [OF run] by blast
  with run changed zones(1) show ?thesis by (intro exI conjI)
qed

lemma time_ago_is_right_witness:
  "time_ago_for_user utc_zone (100 * minute_us) (Some (2 * minute_us)) = Some (HoursAgo 1 FormOne) \<and>
   1 * hour_us \<le> 100 * minute_us - 2 * minute_us"
proof -
  have wall: "wall_of utc_zone (100 * minute_us) - wall_of utc_zone (2 * minute_us) = 100 * minute_us - 2 * minute_us"
    by (simp add: wall_of_def utc_zone_def to_wall_def fixed_zone_def)
  have run: "time_ago_for_user utc_zone (100 * minute_us) (Some (2 * minute_us)) = Some (HoursAgo 1 FormOne)" by code_simp
  with time_ago_is_right [OF wall run] show ?thesis by simp
qed

end
