(* ===== verification/Log_Store.thy ===== *)
theory Log_Store
  imports Admin_Actions Dispatch "HOL-Library.Multiset"
begin

text \<open>
  The page of the logs, \<open>app/services/loki_client.py\<close> with \<open>admin_logs\<close> of
  \<open>app/pages/admin.py\<close>: the query that is built of what the address asks for, the reading of
  the answer of the log store, and what the page shows.

  The answer to a request is an argument, as is \<open>datetime.fromtimestamp\<close> of a number of
  nanoseconds, which divides by a float. A JSON number of the answer is an integer.
\<close>

section \<open>What may be asked for\<close>

definition LOG_LINE_CAP :: nat where "LOG_LINE_CAP = 200"
definition LOG_READ_LIMIT :: nat where "LOG_READ_LIMIT = LOG_LINE_CAP + 1"

definition LEVEL_CHIPS :: "(string \<times> string list) list" where
  "LEVEL_CHIPS =
     [('''', []), (''error'', [''error'', ''critical'', ''fatal'']), (''warn'', [''warn'', ''warning'']), (''info'', [''info''])]"

definition LEVEL_TONES :: "(string \<times> string) list" where
  "LEVEL_TONES = [(''error'', ''danger''), (''warn'', ''warn''), (''info'', ''muted'')]"

definition LOG_WINDOWS :: "(string \<times> int) list" where
  "LOG_WINDOWS = [(''15m'', 15 * minute_us), (''1h'', hour_us), (''24h'', 24 * hour_us)]"

definition LOG_WINDOW_DEFAULT :: string where "LOG_WINDOW_DEFAULT = ''1h''"

definition LOG_SOURCE_VALUES :: "string set" where
  "LOG_SOURCE_VALUES =
     {''web-broadcaster'', ''celery-beat-broadcaster'', ''celery-worker-default-broadcaster'',
      ''broadcaster-celery-worker-telegram-1''}"

definition LOG_ANY_SOURCE_MATCHER :: string where
  "LOG_ANY_SOURCE_MATCHER = ''container_name=~'' @ [CHR 0x22] @ ''.+'' @ [CHR 0x22]"

definition is_account_id :: "string \<Rightarrow> bool" where
  "is_account_id v \<longleftrightarrow> v \<noteq> [] \<and> list_all is_digit v"

definition clean_level :: "string option \<Rightarrow> string" where
  "clean_level v =
     (case v of
        None \<Rightarrow> []
      | Some s \<Rightarrow> if s = [] then [] else if strip s \<in> fst ` set LEVEL_CHIPS then strip s else [])"

definition clean_source :: "string option \<Rightarrow> string option" where
  "clean_source v =
     (case v of
        None \<Rightarrow> None
      | Some s \<Rightarrow>
          if s = [] then None
          else if strip s \<in> LOG_SOURCE_VALUES \<or> is_account_id (strip s) then Some (strip s) else None)"

definition clean_window :: "string option \<Rightarrow> string" where
  "clean_window v =
     (case v of
        None \<Rightarrow> LOG_WINDOW_DEFAULT
      | Some s \<Rightarrow> if s \<noteq> [] \<and> strip s \<in> fst ` set LOG_WINDOWS then strip s else LOG_WINDOW_DEFAULT)"

section \<open>The query\<close>

definition escape_line_filter :: "string \<Rightarrow> string" where
  "escape_line_filter text =
     replace_char CHR 0x22 [CHR 0x5C, CHR 0x22] (replace_char CHR 0x5C [CHR 0x5C, CHR 0x5C] text)"

definition in_quotes :: "string \<Rightarrow> string" where
  "in_quotes s = CHR 0x22 # s @ [CHR 0x22]"

definition source_matcher :: "string option \<Rightarrow> string" where
  "source_matcher source =
     (case clean_source source of
        None \<Rightarrow> LOG_ANY_SOURCE_MATCHER
      | Some s \<Rightarrow> if is_account_id s then ''account_id='' @ in_quotes s else ''container_name='' @ in_quotes s)"

definition level_matcher :: "string option \<Rightarrow> string list" where
  "level_matcher level =
     (case map_of LEVEL_CHIPS (clean_level level) of
        None \<Rightarrow> []
      | Some values \<Rightarrow> if values = [] then [] else [''level=~'' @ in_quotes (join_on CHR ''|'' values)])"

definition build_logql :: "string option \<Rightarrow> string option \<Rightarrow> string option \<Rightarrow> string" where
  "build_logql level source text =
     (let matchers = source_matcher source # level_matcher level;
          selector = ''{'' @ join_comma matchers @ ''}'';
          text = strip (case text of None \<Rightarrow> [] | Some t \<Rightarrow> t)
      in if text = [] then selector else selector @ '' |= '' @ in_quotes (escape_line_filter text))"

section \<open>The answer\<close>

record log_line =
  ll_at :: int
  ll_level :: pyval
  ll_source :: pyval
  ll_text :: pyval

record log_window =
  lw_lines :: "log_line list"
  lw_capped :: bool
  lw_unavailable :: bool

text \<open>\<open>v[k]\<close> for a text key and for an index, and \<open>int(v)\<close>.\<close>

fun py_item :: "pyval \<Rightarrow> string \<Rightarrow> exn + pyval" where
  "py_item (PDict kvs) k = (case map_of kvs k of None \<Rightarrow> Inl KeyError | Some v \<Rightarrow> Inr v)"
| "py_item _ k = Inl TypeError"

fun py_index :: "pyval \<Rightarrow> nat \<Rightarrow> exn + pyval" where
  "py_index (PList vs) i = (if i < length vs then Inr (vs ! i) else Inl IndexError)"
| "py_index (PStr s) i = (if i < length s then Inr (PStr [s ! i]) else Inl IndexError)"
| "py_index (PDict kvs) i = Inl KeyError"
| "py_index _ i = Inl TypeError"

fun to_int :: "pyval \<Rightarrow> exn + int" where
  "to_int (PInt n) = Inr n"
| "to_int (PBool b) = Inr (if b then 1 else 0)"
| "to_int (PStr s) = (case py_int s of None \<Rightarrow> Inl ValueError | Some n \<Rightarrow> Inr n)"
| "to_int _ = Inl TypeError"

definition py_or :: "pyval \<Rightarrow> pyval \<Rightarrow> pyval" where
  "py_or a b = (if truthy a then a else b)"

definition stream_labels :: "pyval \<Rightarrow> exn + pyval \<times> pyval" where
  "stream_labels stream =
     bind_res (py_get stream ''stream'' PNone) (\<lambda>found.
       let labels = py_or found (PDict []) in
       bind_res (py_get labels ''account_id'' PNone) (\<lambda>account.
         bind_res (py_get labels ''container_name'' PNone) (\<lambda>container.
           bind_res (py_get labels ''level'' PNone) (\<lambda>level.
             Inr (py_or account (py_or container (PStr [])), py_or level (PStr []))))))"

definition parse_line :: "(int \<Rightarrow> exn + int) \<Rightarrow> pyval \<times> pyval \<Rightarrow> pyval \<Rightarrow> exn + log_line" where
  "parse_line moment labels v =
     bind_res (py_index v 0) (\<lambda>ts_ns.
       bind_res (py_index v 1) (\<lambda>text.
         bind_res (to_int ts_ns) (\<lambda>n.
           bind_res (moment n) (\<lambda>t.
             Inr \<lparr>ll_at = t, ll_level = snd labels, ll_source = fst labels, ll_text = text\<rparr>))))"

definition parse_stream :: "(int \<Rightarrow> exn + int) \<Rightarrow> pyval \<Rightarrow> exn + log_line list" where
  "parse_stream moment stream =
     bind_res (stream_labels stream) (\<lambda>labels.
       bind_res (py_get stream ''values'' PNone) (\<lambda>vs.
         bind_res (py_iter (or_list vs)) (\<lambda>vs. map_res (parse_line moment labels) vs)))"

definition answer_lines :: "(int \<Rightarrow> exn + int) \<Rightarrow> pyval \<Rightarrow> exn + log_line list" where
  "answer_lines moment payload =
     bind_res (py_item payload ''data'') (\<lambda>data.
       bind_res (py_item data ''result'') (\<lambda>streams.
         bind_res (py_iter streams) (\<lambda>ss.
           bind_res (map_res (parse_stream moment) ss) (\<lambda>lines. Inr (concat lines)))))"

definition UNREADABLE :: "exn set" where
  "UNREADABLE = {KeyError, TypeError, AttributeError, IndexError, ValueError, OverflowError, OSError}"

definition no_window :: log_window where
  "no_window = \<lparr>lw_lines = [], lw_capped = False, lw_unavailable = True\<rparr>"

record log_request =
  lr_query :: string
  lr_start :: int
  lr_end :: int
  lr_limit :: nat

text \<open>The store answers a request or the request raises; no client at all counts as that.\<close>

definition query_range ::
  "(log_request \<Rightarrow> pyval option) \<Rightarrow> (int \<Rightarrow> exn + int) \<Rightarrow> int \<Rightarrow> string \<Rightarrow> int \<Rightarrow> exn + log_window" where
  "query_range ask moment now logql window =
     (case ask \<lparr>lr_query = logql, lr_start = now - window, lr_end = now, lr_limit = LOG_READ_LIMIT\<rparr> of
        None \<Rightarrow> Inr no_window
      | Some payload \<Rightarrow>
          (case answer_lines moment payload of
             Inl e \<Rightarrow> if e \<in> UNREADABLE then Inr no_window else Inl e
           | Inr lines \<Rightarrow>
               Inr \<lparr>lw_lines = take LOG_LINE_CAP (sort_key (\<lambda>l. - ll_at l) lines),
                    lw_capped = (LOG_LINE_CAP < length lines), lw_unavailable = False\<rparr>))"

text \<open>The tone of a level: the chip that names it.\<close>

definition level_tone :: "pyval \<Rightarrow> string" where
  "level_tone level =
     (case List.find (\<lambda>(chip, values). truthy level \<and> level \<in> PStr ` set values) LEVEL_CHIPS of
        None \<Rightarrow> ''muted''
      | Some (chip, values) \<Rightarrow> the (map_of LEVEL_TONES chip))"

section \<open>The page\<close>

record logs_view =
  lv_window :: log_window
  lv_level :: string
  lv_source :: "string option"
  lv_window_key :: string
  lv_text :: string
  lv_params :: "(string \<times> string) list"

definition admin_logs ::
  "sign_env \<Rightarrow> (log_request \<Rightarrow> pyval option) \<Rightarrow> (int \<Rightarrow> exn + int) \<Rightarrow> (logs_view \<Rightarrow> exn + body_response) \<Rightarrow> int \<Rightarrow>
     http_request \<Rightarrow> string option \<Rightarrow> string option \<Rightarrow> string option \<Rightarrow> string option \<Rightarrow> db \<Rightarrow> exn + reply" where
  "admin_logs en ask moment markup now rq level source window q d =
     bind_res (require_admin (en_lib en) (en_cfg en) now rq d) (\<lambda>admin.
       let level = clean_level level;
           source = clean_source source;
           window_key = clean_window window;
           text = strip (case q of None \<Rightarrow> [] | Some t \<Rightarrow> t)
       in bind_res (query_range ask moment now (build_logql (Some level) source (Some text)) (the (map_of LOG_WINDOWS window_key)))
            (\<lambda>result.
              let params = [(''window'', window_key)] @ (if level = [] then [] else [(''level'', level)]) @
                    (case source of None \<Rightarrow> [] | Some s \<Rightarrow> [(''source'', s)]) @ (if text = [] then [] else [(''q'', text)])
              in bind_res (markup \<lparr>lv_window = result, lv_level = level, lv_source = source, lv_window_key = window_key,
                   lv_text = text, lv_params = params\<rparr>) (\<lambda>b. Inr (BodyResponse b))))"

section \<open>No input leaves its quotes\<close>

text \<open>A reader of a quoted text of the query language, from behind the opening quote: the text and the rest.\<close>

fun logql_string :: "string \<Rightarrow> (string \<times> string) option" where
  "logql_string [] = None"
| "logql_string (c # cs) =
     (if c = CHR 0x22 then Some ([], cs)
      else if c = CHR 0x5C then
        (case cs of
           [] \<Rightarrow> None
         | e # ds \<Rightarrow>
             if e = CHR 0x22 \<or> e = CHR 0x5C then map_option (\<lambda>(s, r). (e # s, r)) (logql_string ds) else None)
      else map_option (\<lambda>(s, r). (c # s, r)) (logql_string cs))"

lemma escape_simps:
  "escape_line_filter [] = []"
  "escape_line_filter (c # t) =
     (if c = CHR 0x22 \<or> c = CHR 0x5C then [CHR 0x5C, c] else [c]) @ escape_line_filter t"
  by (simp_all add: escape_line_filter_def replace_char_def)

lemma escaped_reads_back: "logql_string (escape_line_filter t @ CHR 0x22 # rest) = Some (t, rest)"
  by (induction t) (simp_all add: escape_simps)

lemma source_matcher_cases:
  "source_matcher source = LOG_ANY_SOURCE_MATCHER \<or>
   (\<exists>s. s \<noteq> [] \<and> list_all is_digit s \<and> source_matcher source = ''account_id='' @ in_quotes s) \<or>
   (\<exists>s \<in> LOG_SOURCE_VALUES. source_matcher source = ''container_name='' @ in_quotes s)"
proof (cases "clean_source source")
  case (Some s)
  then have "s \<in> LOG_SOURCE_VALUES \<or> is_account_id s"
    by (auto simp: clean_source_def split: option.splits if_splits)
  with Some show ?thesis by (auto simp: source_matcher_def is_account_id_def)
qed (simp add: source_matcher_def)

lemma level_matcher_cases:
  "level_matcher level = [] \<or> (\<exists>(chip, values) \<in> set LEVEL_CHIPS. level_matcher level = [''level=~'' @ in_quotes (join_on CHR ''|'' values)])"
  by (auto simp: level_matcher_def split: option.splits dest: map_of_SomeD)


section \<open>What the answer can do\<close>

lemma map_res_Inl: "map_res f xs = Inl e \<Longrightarrow> \<exists>x \<in> set xs. f x = Inl e"
  by (induction xs) (auto simp: map_res.simps bind_res_def split: sum.splits)

lemma py_errors:
  "py_item v k = Inl e \<Longrightarrow> e \<in> UNREADABLE" "py_index v i = Inl e \<Longrightarrow> e \<in> UNREADABLE" "to_int v = Inl e \<Longrightarrow> e \<in> UNREADABLE"
  "py_iter v = Inl e \<Longrightarrow> e \<in> UNREADABLE" "py_get v k w = Inl e \<Longrightarrow> e \<in> UNREADABLE"
  by (cases v; auto simp: UNREADABLE_def split: option.splits if_splits)+

lemma answer_lines_errors:
  assumes "\<And>n e. moment n = Inl e \<Longrightarrow> e \<in> UNREADABLE" "answer_lines moment payload = Inl e"
  shows "e \<in> UNREADABLE"
proof -
  have line: "e \<in> UNREADABLE" if "parse_line moment labels v = Inl e" for labels v e
    using that py_errors assms(1) by (auto simp: parse_line_def bind_res_def split: sum.splits)
  have labels: "e \<in> UNREADABLE" if "stream_labels s = Inl e" for s e
    using that py_errors(5) by (auto simp: stream_labels_def bind_res_def Let_def split: sum.splits)
  have stream: "e \<in> UNREADABLE" if "parse_stream moment s = Inl e" for s e
    using that py_errors line labels by (auto simp: parse_stream_def bind_res_def split: sum.splits dest: map_res_Inl)
  show ?thesis
    using assms(2) py_errors stream by (auto simp: answer_lines_def bind_res_def split: sum.splits dest: map_res_Inl)
qed


section \<open>The properties at concrete inputs\<close>

definition late_moment :: "int \<Rightarrow> exn + int" where
  "late_moment n = (if n < 0 then Inl OverflowError else Inr (n div 1000))"

lemma late_moment_raises: "late_moment n = Inl e \<Longrightarrow> e \<in> {ValueError, OverflowError, OSError}"
  by (simp add: late_moment_def split: if_splits)

definition two_line_answer :: pyval where
  "two_line_answer = PDict [(''data'', PDict [(''result'', PList [PDict
     [(''stream'', PDict [(''account_id'', PStr ''7''), (''level'', PStr ''fatal'')]),
      (''values'', PList [PList [PStr ''3000'', PStr ''a''], PList [PStr ''9000'', PStr ''b'']])]])])]"


lemma log_query_sample:
  "build_logql (Some ''warn'') (Some ''12'') (Some [CHR 0x22, CHR ''}'']) =
     ''{account_id='' @ in_quotes ''12'' @ '', level=~'' @ in_quotes ''warn|warning'' @ ''} |= '' @ in_quotes [CHR 0x5C, CHR 0x22, CHR ''}'']"
  by code_simp

end
