(* ===== verification/Admin_Pages.thy ===== *)
theory Admin_Pages
  imports Admin_Board Shell Log_Store
begin

text \<open>
  The pages of the administrator that read, \<open>app/pages/admin.py\<close>: the overview, the list of
  users, one user, the journal of a user with its further pages and its entries, the payments, and
  the addresses that lead from a worker to its logs. The markup and the reading of a price as a
  decimal number are arguments.
\<close>

section \<open>The overview\<close>

text \<open>A price that is no finite number is shown as it is.\<close>

definition monthly_revenue :: "(string \<Rightarrow> int option) \<Rightarrow> nat \<Rightarrow> string \<Rightarrow> string + int" where
  "monthly_revenue decimal paying price =
     (case decimal price of None \<Rightarrow> Inl price | Some amount \<Rightarrow> Inr (amount * int paying))"

record overview_view =
  ov_users :: "nat \<times> nat"
  ov_paying :: nat
  ov_revenue :: "string + int"
  ov_queue_total :: "int option"
  ov_queue_time_sec :: "int option"
  ov_metrics :: send_metrics
  ov_board :: incident_board
  ov_partial :: bool

definition telegram_lag :: "int option \<Rightarrow> int \<Rightarrow> db \<Rightarrow> int option" where
  "telegram_lag depth now d =
     (case depth of
        None \<Rightarrow> None
      | Some n \<Rightarrow>
          if n = 0 then None
          else telegram_lag_seconds (map_option utc_datetime (last_send_at ''tg_user'' d)) (utc_datetime now))"

definition overview_of ::
  "(string \<Rightarrow> int option) \<Rightarrow> string \<Rightarrow> redis_answer \<Rightarrow> redis_answer \<Rightarrow> int \<Rightarrow> int \<Rightarrow> 'raw redis_store \<Rightarrow> db \<Rightarrow> overview_view" where
  "overview_of decimal price answer answer2 interval now rd d =
     (let paying = paying_total now d;
          ops = take_ops_snapshot answer answer2 now rd d
      in \<lparr>ov_users = user_totals now d, ov_paying = paying, ov_revenue = monthly_revenue decimal paying price,
          ov_queue_total = os_queue_total ops, ov_queue_time_sec = telegram_lag (os_telegram_depth ops) now d,
          ov_metrics = send_metrics_of None (sliding_window_bounds now DEFAULT_WINDOW) d,
          ov_board = collect_incidents now interval (liveness_rows (os_liveness ops)) d,
          ov_partial = snd (liveness_for_incidents (os_liveness ops))\<rparr>)"

definition admin_dashboard ::
  "sign_env \<Rightarrow> (string \<Rightarrow> int option) \<Rightarrow> string \<Rightarrow> redis_answer \<Rightarrow> redis_answer \<Rightarrow> int \<Rightarrow> (overview_view \<Rightarrow> exn + body_response) \<Rightarrow>
     int \<Rightarrow> http_request \<Rightarrow> 'raw redis_store \<Rightarrow> db \<Rightarrow> exn + reply" where
  "admin_dashboard en decimal price answer answer2 interval markup now rq rd d =
     bind_res (require_admin (en_lib en) (en_cfg en) now rq d) (\<lambda>admin.
       shown (markup (overview_of decimal price answer answer2 interval now rd d)))"

section \<open>The list of users\<close>

definition ACCESS_VALUES :: "string set" where "ACCESS_VALUES = {''open'', ''comped'', ''expired''}"
definition STATE_VALUES :: "string set" where "STATE_VALUES = {''active'', ''blocked''}"

definition parse_page :: "string option \<Rightarrow> int" where
  "parse_page v =
     (case py_int (strip (case v of None \<Rightarrow> [] | Some s \<Rightarrow> s)) of None \<Rightarrow> 1 | Some n \<Rightarrow> n)"

definition given_params :: "(string \<times> string option) list \<Rightarrow> (string \<times> pyval) list" where
  "given_params kvs = List.map_filter (\<lambda>(k, v). case v of Some (c # cs) \<Rightarrow> Some (k, PStr (c # cs)) | _ \<Rightarrow> None) kvs"

definition users_href :: "(string \<times> pyval) list \<Rightarrow> int \<Rightarrow> string" where
  "users_href params page = ''/admin/users?'' @ urlencode (params @ [(''page'', PStr (int_str page))])"

record user_line =
  ul_user :: user
  ul_access :: shown_access
  ul_accounts :: nat

record users_view =
  uv_lines :: "user_line list"
  uv_total :: nat
  uv_page :: int
  uv_pages :: int
  uv_params :: "(string \<times> pyval) list"
  uv_prev :: "string option"
  uv_next :: "string option"

definition user_line_of :: "int \<Rightarrow> int list \<Rightarrow> db \<Rightarrow> user \<Rightarrow> user_line" where
  "user_line_of now uids d u =
     \<lparr>ul_user = u, ul_access = shown_access_of (active_subscriptions_by_user uids d (user_id u)) now,
      ul_accounts = (case account_counts_by_user uids d (user_id u) of None \<Rightarrow> 0 | Some n \<Rightarrow> n)\<rparr>"

definition users_view_of ::
  "int \<Rightarrow> string \<Rightarrow> string option \<Rightarrow> string option \<Rightarrow> string option \<Rightarrow> db \<Rightarrow> users_view" where
  "users_view_of now q access state page d =
     (let search = strip q;
          access = clean_choice access ACCESS_VALUES;
          state = clean_choice state STATE_VALUES;
          result = users_page (Some search) access state now (parse_page page) d;
          uids = map user_id (up_users result);
          params = given_params [(''q'', Some search), (''access'', access), (''state'', state)]
      in \<lparr>uv_lines = map (user_line_of now uids d) (up_users result), uv_total = up_total result, uv_page = up_page result,
          uv_pages = up_pages result, uv_params = params,
          uv_prev = (if 1 < up_page result then Some (users_href params (up_page result - 1)) else None),
          uv_next = (if up_page result < up_pages result then Some (users_href params (up_page result + 1)) else None)\<rparr>)"

definition admin_users ::
  "sign_env \<Rightarrow> (users_view \<Rightarrow> exn + body_response) \<Rightarrow> int \<Rightarrow> http_request \<Rightarrow> string \<Rightarrow> string option \<Rightarrow> string option \<Rightarrow>
     string option \<Rightarrow> db \<Rightarrow> exn + reply" where
  "admin_users en markup now rq q access state page d =
     bind_res (require_admin (en_lib en) (en_cfg en) now rq d) (\<lambda>admin.
       shown (markup (users_view_of now q access state page d)))"

section \<open>One user\<close>

record user_card =
  uc_user :: user
  uc_accounts :: "account list"
  uc_counts :: "nat \<times> nat"
  uc_access :: shown_access

definition admin_user_detail ::
  "sign_env \<Rightarrow> (user_card \<Rightarrow> exn + body_response) \<Rightarrow> int \<Rightarrow> http_request \<Rightarrow> int \<Rightarrow> db \<Rightarrow> exn + reply" where
  "admin_user_detail en markup now rq uid d =
     bind_res (require_admin (en_lib en) (en_cfg en) now rq d) (\<lambda>admin.
       case find_row user_id uid (db_users d) of
         None \<Rightarrow> Inr (RedirectResponse ''/admin/users'')
       | Some u \<Rightarrow>
           shown (markup \<lparr>uc_user = u, uc_accounts = filter (\<lambda>a. acc_user_id a = user_id u) (db_accounts d),
             uc_counts = user_card_counts (user_id u) d,
             uc_access = shown_access_of (active_subscriptions_by_user [user_id u] d (user_id u)) now\<rparr>))"

text \<open>The block of buttons after a change, over the row as it is now.\<close>

definition user_actions_access :: "int \<Rightarrow> db \<Rightarrow> user \<Rightarrow> shown_access" where
  "user_actions_access now d u = shown_access_of (active_subscriptions_by_user [user_id u] d (user_id u)) now"

section \<open>The journal of a user\<close>

text \<open>The period is read on the clock of the administrator.\<close>

record user_journal =
  uj_user :: user
  uj_rows :: "(send_log \<times> group option) list"
  uj_has_next :: bool
  uj_next_offset :: nat
  uj_accounts :: "account list"
  uj_params :: "(string \<times> pyval) list"

definition user_journal_of ::
  "(string \<Rightarrow> exn + day_zone) \<Rightarrow> user \<Rightarrow> int \<Rightarrow> user \<Rightarrow> journal_query \<Rightarrow> nat \<Rightarrow> nat \<Rightarrow> db \<Rightarrow> user_journal" where
  "user_journal_of tzs admin now u q offset limit d =
     (let (rows, has_next) = journal_page (get_timezone_for_user tzs (Some admin)) now (user_id u) q offset limit d
      in \<lparr>uj_user = u, uj_rows = rows, uj_has_next = has_next, uj_next_offset = offset + limit, uj_accounts = [],
          uj_params = query_params q\<rparr>)"

definition admin_user_history ::
  "sign_env \<Rightarrow> (string \<Rightarrow> exn + day_zone) \<Rightarrow> (user_journal \<Rightarrow> exn + body_response) \<Rightarrow> int \<Rightarrow> http_request \<Rightarrow> int \<Rightarrow>
     journal_query \<Rightarrow> nat \<Rightarrow> db \<Rightarrow> exn + reply" where
  "admin_user_history en tzs markup now rq uid q offset d =
     bind_res (require_admin (en_lib en) (en_cfg en) now rq d) (\<lambda>admin.
       case find_row user_id uid (db_users d) of
         None \<Rightarrow> Inr (RedirectResponse ''/admin/users'')
       | Some u \<Rightarrow>
           let v = user_journal_of tzs admin now u q offset HISTORY_PAGE_SIZE d
           in shown (markup (v\<lparr>uj_next_offset := offset + length (uj_rows v),
                uj_accounts := filter (\<lambda>a. acc_user_id a = uid) (db_accounts d)\<rparr>)))"

definition admin_user_history_partial ::
  "sign_env \<Rightarrow> (string \<Rightarrow> exn + day_zone) \<Rightarrow> (user_journal \<Rightarrow> exn + body_response) \<Rightarrow> int \<Rightarrow> http_request \<Rightarrow> int \<Rightarrow>
     journal_query \<Rightarrow> nat \<Rightarrow> nat \<Rightarrow> db \<Rightarrow> exn + reply" where
  "admin_user_history_partial en tzs markup now rq uid q offset limit d =
     bind_res (require_admin (en_lib en) (en_cfg en) now rq d) (\<lambda>admin.
       case find_row user_id uid (db_users d) of
         None \<Rightarrow> Inr (RedirectResponse ''/admin/users'')
       | Some u \<Rightarrow> shown (markup (user_journal_of tzs admin now u q offset limit d)))"

definition history_location :: "int \<Rightarrow> string" where
  "history_location uid = ''/admin/users/'' @ int_str uid @ ''/history''"

definition admin_user_history_detail ::
  "sign_env \<Rightarrow> (user \<times> send_log \<times> group option \<Rightarrow> exn + body_response) \<Rightarrow> int \<Rightarrow> http_request \<Rightarrow> int \<Rightarrow> int \<Rightarrow> db \<Rightarrow> exn + reply" where
  "admin_user_history_detail en markup now rq uid lid d =
     bind_res (require_admin (en_lib en) (en_cfg en) now rq d) (\<lambda>admin.
       case find_row user_id uid (db_users d) of
         None \<Rightarrow> Inr (RedirectResponse ''/admin/users'')
       | Some u \<Rightarrow>
           (case find_row log_id lid (db_send_logs d) of
              None \<Rightarrow> Inr (RedirectResponse (history_location uid))
            | Some l \<Rightarrow>
                if log_user_id l \<noteq> uid then Inr (RedirectResponse (history_location uid))
                else shown (markup (u, l, Option.bind (nonzero_id (log_group_id l)) (\<lambda>i. find_row grp_id i (db_groups d))))))"

section \<open>The payments and the workers\<close>

definition PAYMENT_STATUS_VALUES :: "string set" where "PAYMENT_STATUS_VALUES = {''succeeded'', ''canceled'', ''unclosed''}"
definition PAYMENT_PERIOD_VALUES :: "string set" where "PAYMENT_PERIOD_VALUES = {''24h'', ''7d'', ''30d''}"

record payments_view =
  mv_revenue :: "string + int"
  mv_lapsed :: nat
  mv_ledger :: ledger
  mv_params :: "(string \<times> pyval) list"

definition payments_view_of ::
  "(string \<Rightarrow> int option) \<Rightarrow> string \<Rightarrow> int \<Rightarrow> string option \<Rightarrow> string option \<Rightarrow> db \<Rightarrow> payments_view" where
  "payments_view_of decimal price now status period d =
     (let status = clean_choice status PAYMENT_STATUS_VALUES;
          period = clean_choice period PAYMENT_PERIOD_VALUES
      in \<lparr>mv_revenue = monthly_revenue decimal (paying_total now d) price, mv_lapsed = expired_not_renewed now d,
          mv_ledger = payment_ledger status period now d,
          mv_params = given_params [(''status'', status), (''period'', period)]\<rparr>)"

definition admin_payments ::
  "sign_env \<Rightarrow> (string \<Rightarrow> int option) \<Rightarrow> string \<Rightarrow> (payments_view \<Rightarrow> exn + body_response) \<Rightarrow> int \<Rightarrow> http_request \<Rightarrow>
     string option \<Rightarrow> string option \<Rightarrow> db \<Rightarrow> exn + reply" where
  "admin_payments en decimal price markup now rq status period d =
     bind_res (require_admin (en_lib en) (en_cfg en) now rq d) (\<lambda>admin.
       shown (markup (payments_view_of decimal price now status period d)))"

definition worker_logs_href :: "account \<Rightarrow> string" where
  "worker_logs_href a =
     ''/admin/logs?source='' @
     (if acc_type a = ''tg_user'' then ''broadcaster-celery-worker-telegram-1'' else int_str (acc_id a))"

section \<open>The list of users keeps its word\<close>

definition axis_holds :: "string option \<Rightarrow> shown_access \<Rightarrow> bool" where
  "axis_holds access sa \<longleftrightarrow>
     (if access = Some ''open'' then sa_open sa \<and> \<not> sa_comped sa
      else if access = Some ''comped'' then sa_open sa \<and> sa_comped sa
      else if access = Some ''expired'' then \<not> sa_open sa else True)"

lemma axis_holds_iff:
  assumes "subscriptions_ok (db_subscriptions d)" "access = None \<or> (\<exists>a \<in> ACCESS_VALUES. access = Some a)"
  shows "(case access_axis_clause access now of None \<Rightarrow> True | Some clause \<Rightarrow> clause d u) \<longleftrightarrow>
    axis_holds access (shown_access_of (latest_active (user_id u) d) now)"
  using assms(2) axes_of_shown_access [OF assms(1), of u now]
  by (elim disjE) (auto simp: ACCESS_VALUES_def axis_holds_def access_axis_clause_simps)

lemma clean_choice_cases: "clean_choice v allowed = None \<or> (\<exists>a \<in> allowed. clean_choice v allowed = Some a)"
  by (auto simp: clean_choice_def Let_def split: option.splits)

lemma users_page_rows:
  "u \<in> set (up_users (users_page search access state now p d)) \<Longrightarrow> u \<in> set (apply_user_filters search access state now d)"
  by (auto simp: users_page_def Let_def dest!: in_set_takeD in_set_dropD)

lemma users_page_covers:
  assumes "u \<in> set (apply_user_filters search access state now d)"
  shows "\<exists>k. u \<in> set (up_users (users_page search access state now (int k) d))"
proof -
  let ?view = "\<lambda>p. users_page search access state now p d"
  have "concat (map (\<lambda>i. up_users (?view (int i + 1))) [0..<nat (up_pages (?view 1))]) =
      sort_key user_id (apply_user_filters search access state now d)"
    using users_pages_partition [of search access state now d] by (simp add: Let_def)
  with assms have "u \<in> set (concat (map (\<lambda>i. up_users (?view (int i + 1))) [0..<nat (up_pages (?view 1))]))" by simp
  then obtain i where "u \<in> set (up_users (?view (int i + 1)))" by auto
  then show ?thesis by (intro exI [of _ "Suc i"]) (simp add: add.commute)
qed

lemma user_line_access:
  assumes "subscriptions_ok (db_subscriptions d)" "user_id u \<in> set uids"
  shows "ul_access (user_line_of now uids d u) = shown_access_of (latest_active (user_id u) d) now"
  by (simp add: user_line_of_def active_by_user [OF assms])

lemma parse_page_of_int: "parse_page (Some (int_str k)) = k"
proof -
  have "\<not> is_space c" if "c \<in> set (int_str k)" for c
    using that digit_not_space [OF nat_str_digits] by (auto simp: int_str_def is_space_def split: if_splits)
  then have "strip (int_str k) = int_str k" by (rule strip_no_space)
  then show ?thesis by (simp add: parse_page_def py_int_int_str)
qed


text \<open>Without the rights every page answers with the refusal and reads nothing else.\<close>

lemma admin_pages_need_the_rights:
  assumes "require_admin (en_lib en) (en_cfg en) now rq d = Inl e"
  shows "admin_dashboard en decimal price answer answer2 interval overview now rq rd d = Inl e"
    "admin_users en users now rq q access state page d = Inl e"
    "admin_user_detail en user_markup now rq uid d = Inl e"
    "admin_user_history en tzs journal now rq uid jq offset d = Inl e"
    "admin_user_history_partial en tzs journal now rq uid jq offset limit d = Inl e"
    "admin_user_history_detail en entry now rq uid lid d = Inl e"
    "admin_payments en decimal price payments now rq status period d = Inl e"
    "admin_logs en ask moment logs now rq level source window words d = Inl e"
  by (simp_all add: admin_dashboard_def admin_users_def admin_user_detail_def admin_user_history_def
      admin_user_history_partial_def admin_user_history_detail_def admin_payments_def admin_logs_def assms)


end
