(* ===== verification/Maintenance.thy ===== *)
theory Maintenance
  imports Account_Groups
begin

text \<open>
  The scripts that repair what earlier versions left: \<open>scripts/recompress_attachments.py\<close> with
  the reads of \<open>app/services/s3.py\<close> it goes through, and \<open>scripts/cleanup_schedules.py\<close>.

  What the storage answers to a read is an argument, over the object the bucket holds under the key,
  as is the picture library of the uploads; a write fails with an exception of its key. The text of
  the report is left out.
\<close>

section \<open>Reading from the storage\<close>

record s3_response =
  sr_body :: bytes
  sr_content_range :: "string option"
  sr_content_length :: "int option"

record object_head =
  oh_body :: bytes
  oh_size :: int

definition HEAD_READ_BYTES :: nat where "HEAD_READ_BYTES = 65536"

definition MISSING_OBJECT_CODES :: "string set" where
  "MISSING_OBJECT_CODES = {''NoSuchKey'', ''NotFound'', ''404''}"

definition is_missing :: "exn \<Rightarrow> bool" where
  "is_missing e \<longleftrightarrow> (\<exists>code \<in> MISSING_OBJECT_CODES. e = ClientError code)"

text \<open>The number after the last slash, if it is all digits.\<close>

definition range_total :: "string option \<Rightarrow> int option" where
  "range_total r =
     (case r of
        None \<Rightarrow> None
      | Some s \<Rightarrow>
          if CHR ''/'' \<in> set s
          then let total = last (split_on CHR ''/'' s)
               in if total \<noteq> [] \<and> list_all is_digit total then py_int total else None
          else None)"

definition read_object_head :: "exn + s3_response \<Rightarrow> exn + object_head option" where
  "read_object_head answer =
     (case answer of
        Inl e \<Rightarrow>
          if is_missing e then Inr None
          else if e = ClientError ''InvalidRange'' then Inr (Some \<lparr>oh_body = [], oh_size = 0\<rparr>) else Inl e
      | Inr r \<Rightarrow>
          (case range_total (sr_content_range r) of
             Some n \<Rightarrow> Inr (Some \<lparr>oh_body = sr_body r, oh_size = n\<rparr>)
           | None \<Rightarrow>
               Inr (Some \<lparr>oh_body = sr_body r,
                 oh_size = (case sr_content_length r of None \<Rightarrow> int (length (sr_body r)) | Some n \<Rightarrow> n)\<rparr>)))"

definition read_object :: "exn + s3_response \<Rightarrow> exn + bytes option" where
  "read_object answer =
     (case answer of Inl e \<Rightarrow> if is_missing e then Inr None else Inl e | Inr r \<Rightarrow> Inr (Some (sr_body r)))"

definition object_exists :: "exn option \<Rightarrow> exn + bool" where
  "object_exists answer =
     (case answer of None \<Rightarrow> Inr True | Some e \<Rightarrow> if is_missing e then Inr False else Inl e)"

text \<open>
  The storage: a read of an object, of its first bytes or whole, a look at whether it is there, and
  the failure of a write.
\<close>

record s3_store =
  st_get :: "string \<Rightarrow> (bytes \<times> string) option \<Rightarrow> nat option \<Rightarrow> exn + s3_response"
  st_head :: "string \<Rightarrow> (bytes \<times> string) option \<Rightarrow> exn option"
  st_put :: "string \<Rightarrow> exn option"

section \<open>The report\<close>

datatype skip_reason = AlreadyWithinLimit | ThumbnailExists | UnsupportedFormat | OverPixelCeiling

datatype run_error = ObjectMissing | VanishedBetweenReads | RaisedError exn

record run_report =
  rp_scanned :: nat
  rp_processed :: nat
  rp_bytes_before :: nat
  rp_bytes_after :: nat
  rp_thumb_bytes_added :: nat
  rp_not_shrunk :: nat
  rp_skips :: "skip_reason list"
  rp_unsupported_examples :: "string list"
  rp_errors :: "(string \<times> run_error) list"

definition empty_report :: run_report where
  "empty_report = \<lparr>rp_scanned = 0, rp_processed = 0, rp_bytes_before = 0, rp_bytes_after = 0, rp_thumb_bytes_added = 0,
     rp_not_shrunk = 0, rp_skips = [], rp_unsupported_examples = [], rp_errors = []\<rparr>"

text \<open>The counters of the reasons, as the list of the skips in their order.\<close>

definition skip_for :: "skip_reason \<Rightarrow> run_report \<Rightarrow> run_report" where
  "skip_for reason rp = rp\<lparr>rp_skips := rp_skips rp @ [reason]\<rparr>"

definition UNSUPPORTED_EXAMPLES_LIMIT :: nat where "UNSUPPORTED_EXAMPLES_LIMIT = 10"

definition skip_unsupported :: "string \<Rightarrow> run_report \<Rightarrow> run_report" where
  "skip_unsupported key rp =
     (let rp1 = skip_for UnsupportedFormat rp
      in if length (rp_unsupported_examples rp1) < UNSUPPORTED_EXAMPLES_LIMIT
         then rp1\<lparr>rp_unsupported_examples := rp_unsupported_examples rp1 @ [key]\<rparr> else rp1)"

definition run_failed :: "string \<Rightarrow> run_error \<Rightarrow> run_report \<Rightarrow> run_report" where
  "run_failed key e rp = rp\<lparr>rp_errors := rp_errors rp @ [(key, e)]\<rparr>"

section \<open>One attachment\<close>

type_synonym run_state = "run_report \<times> bucket"

text \<open>A refusal of the picture library: two of its exceptions are reasons to skip, others escape.\<close>

definition on_image_error :: "string \<Rightarrow> exn \<Rightarrow> run_report \<Rightarrow> exn option \<times> run_report" where
  "on_image_error key e rp =
     (if e = ImageTooLarge then (None, skip_for OverPixelCeiling rp)
      else if e = ImageUnreadable then (None, skip_unsupported key rp) else (Some e, rp))"

text \<open>The size of the picture, from its first bytes or, when they do not tell, from all of it.\<close>

definition probe_stored ::
  "'i pillow \<Rightarrow> s3_store \<Rightarrow> string \<Rightarrow> bucket \<Rightarrow> object_head \<Rightarrow> run_report \<Rightarrow>
     (exn option \<times> run_report) + image_probe \<times> bytes option" where
  "probe_stored pl s3 key b head rp =
     (case probe_image pl (oh_body head) of
        Inr probe \<Rightarrow> Inr (probe, None)
      | Inl e \<Rightarrow>
          if e = ImageUnreadable \<and> int (length (oh_body head)) < oh_size head then
            (case read_object (st_get s3 key (b key) None) of
               Inl e \<Rightarrow> Inl (Some e, rp)
             | Inr None \<Rightarrow> Inl (None, run_failed key VanishedBetweenReads rp)
             | Inr (Some content) \<Rightarrow>
                 (case probe_image pl content of
                    Inr probe \<Rightarrow> Inr (probe, Some content)
                  | Inl e \<Rightarrow> Inl (on_image_error key e rp)))
          else Inl (on_image_error key e rp))"

definition put_if :: "bool \<Rightarrow> s3_store \<Rightarrow> string \<Rightarrow> bytes \<Rightarrow> string \<Rightarrow> bucket \<Rightarrow> exn option \<times> bucket" where
  "put_if apply_it s3 key content ctype b = (if apply_it then s3_put (st_put s3) key content ctype b else (None, b))"

text \<open>What the rebuilt picture changes: the object when it shrank, then the thumbnail.\<close>

definition store_delivery ::
  "bool \<Rightarrow> s3_store \<Rightarrow> string \<Rightarrow> bytes \<Rightarrow> rebuilt_image \<Rightarrow> run_state \<Rightarrow> exn option \<times> nat \<times> run_state" where
  "store_delivery apply_it s3 key content rebuilt st =
     (let (rp, b) = st
      in case rb_delivery rebuilt of
           None \<Rightarrow> (None, length content, rp, b)
         | Some delivery \<Rightarrow>
             if length delivery < length content
             then let (e, b1) = put_if apply_it s3 key delivery (rb_content_type rebuilt) b
                  in (e, length delivery, rp, b1)
             else (None, length content, rp\<lparr>rp_not_shrunk := rp_not_shrunk rp + 1\<rparr>, b))"

definition store_thumbnail ::
  "bool \<Rightarrow> s3_store \<Rightarrow> string \<Rightarrow> rebuilt_image \<Rightarrow> run_state \<Rightarrow> exn option \<times> run_state" where
  "store_thumbnail apply_it s3 key rebuilt st =
     (let (rp, b) = st
      in case rb_thumbnail rebuilt of
           None \<Rightarrow> (None, rp, b)
         | Some thumb \<Rightarrow>
             let (e, b1) = put_if apply_it s3 (thumb_key key) thumb (rb_content_type rebuilt) b
             in case e of
                  Some e \<Rightarrow> (Some e, rp, b1)
                | None \<Rightarrow> (None, rp\<lparr>rp_thumb_bytes_added := rp_thumb_bytes_added rp + length thumb\<rparr>, b1))"

definition store_rebuilt ::
  "bool \<Rightarrow> s3_store \<Rightarrow> string \<Rightarrow> bytes \<Rightarrow> rebuilt_image \<Rightarrow> run_state \<Rightarrow> exn option \<times> run_state" where
  "store_rebuilt apply_it s3 key content rebuilt st =
     (let (rp, b) = st;
          rp1 = rp\<lparr>rp_processed := rp_processed rp + 1, rp_bytes_before := rp_bytes_before rp + length content\<rparr>;
          (e1, size_after, rp2, b1) = store_delivery apply_it s3 key content rebuilt (rp1, b)
      in case e1 of
           Some e \<Rightarrow> (Some e, rp2, b1)
         | None \<Rightarrow>
             store_thumbnail apply_it s3 key rebuilt (rp2\<lparr>rp_bytes_after := rp_bytes_after rp2 + size_after\<rparr>, b1))"

definition rebuild_key ::
  "'i pillow \<Rightarrow> bool \<Rightarrow> s3_store \<Rightarrow> string \<Rightarrow> image_probe \<Rightarrow> bytes option \<Rightarrow> run_state \<Rightarrow> exn option \<times> run_state" where
  "rebuild_key pl apply_it s3 key probe found st =
     (let (rp, b) = st;
          needs_resize = (long_edge probe > DELIVERY_MAX_EDGE);
          rp1 = (if needs_resize then rp else skip_for AlreadyWithinLimit rp)
      in case object_exists (st_head s3 (thumb_key key) (b (thumb_key key))) of
           Inl e \<Rightarrow> (Some e, rp1, b)
         | Inr there \<Rightarrow>
             let needs_thumbnail = (\<not> there);
                 rp2 = (if needs_thumbnail then rp1 else skip_for ThumbnailExists rp1)
             in if \<not> needs_resize \<and> \<not> needs_thumbnail then (None, rp2, b)
                else
                  case (case found of Some c \<Rightarrow> Inr (Some c) | None \<Rightarrow> read_object (st_get s3 key (b key) None)) of
                    Inl e \<Rightarrow> (Some e, rp2, b)
                  | Inr None \<Rightarrow> (None, run_failed key VanishedBetweenReads rp2, b)
                  | Inr (Some content) \<Rightarrow>
                      (case rebuild_stored_image pl content needs_resize needs_thumbnail of
                         Inl e \<Rightarrow> (let (e', rp3) = on_image_error key e rp2 in (e', rp3, b))
                       | Inr rebuilt \<Rightarrow> store_rebuilt apply_it s3 key content rebuilt (rp2, b)))"

definition process_key ::
  "'i pillow \<Rightarrow> bool \<Rightarrow> s3_store \<Rightarrow> string \<Rightarrow> run_state \<Rightarrow> exn option \<times> run_state" where
  "process_key pl apply_it s3 key st =
     (let (rp, b) = st
      in case read_object_head (st_get s3 key (b key) (Some HEAD_READ_BYTES)) of
           Inl e \<Rightarrow> (Some e, rp, b)
         | Inr None \<Rightarrow> (None, run_failed key ObjectMissing rp, b)
         | Inr (Some head) \<Rightarrow>
             (case probe_stored pl s3 key b head rp of
                Inl (e, rp1) \<Rightarrow> (e, rp1, b)
              | Inr (probe, found) \<Rightarrow> rebuild_key pl apply_it s3 key probe found (rp, b)))"

section \<open>The run\<close>

definition collect_attachment_keys :: "db \<Rightarrow> string list" where
  "collect_attachment_keys d =
     rev (remdups (rev (filter (\<lambda>k. k \<noteq> []) (concat (map (\<lambda>a. case ad_images a of None \<Rightarrow> [] | Some ks \<Rightarrow> ks) (db_ads d))))))"

definition run_step :: "'i pillow \<Rightarrow> bool \<Rightarrow> s3_store \<Rightarrow> string \<Rightarrow> run_state \<Rightarrow> run_state" where
  "run_step pl apply_it s3 key st =
     (let (rp, b) = st in
      case process_key pl apply_it s3 key (rp\<lparr>rp_scanned := rp_scanned rp + 1\<rparr>, b) of
        (None, st1) \<Rightarrow> st1
      | (Some e, rp1, b1) \<Rightarrow> (run_failed key (RaisedError e) rp1, b1))"

definition recompress_attachments :: "'i pillow \<Rightarrow> bool \<Rightarrow> s3_store \<Rightarrow> db \<Rightarrow> bucket \<Rightarrow> run_state" where
  "recompress_attachments pl apply_it s3 d b =
     fold (run_step pl apply_it s3) (collect_attachment_keys d) (empty_report, b)"

section \<open>Schedules that name groups that are gone\<close>

definition cleanup_ids :: "int set \<Rightarrow> pyval \<Rightarrow> exn + pyval" where
  "cleanup_ids ids v =
     (if \<not> truthy v then Inr v
      else bind_res (py_iter v) (\<lambda>vs.
             bind_res (map_res group_key vs) (\<lambda>ks.
               let kept = map fst (filter (\<lambda>(x, k). k \<in> Some ` ids) (zip vs ks))
               in Inr (if length kept = length vs then v else PList kept))))"

definition cleanup_schedules :: "bool \<Rightarrow> db \<Rightarrow> exn + nat \<times> db" where
  "cleanup_schedules apply_it d =
     (let ids = grp_id ` set (db_groups d)
      in bind_res (map_res (\<lambda>s. bind_res (cleanup_ids ids (sch_group_ids s)) (\<lambda>v. Inr (s\<lparr>sch_group_ids := v\<rparr>)))
             (db_schedules d)) (\<lambda>ss.
           let updated = count_where (\<lambda>(s, s'). s \<noteq> s') (zip (db_schedules d) ss)
           in Inr (updated, if 0 < updated \<and> apply_it then d\<lparr>db_schedules := ss\<rparr> else d)))"

section \<open>What a run can change\<close>

definition honest_store :: "s3_store \<Rightarrow> bool" where
  "honest_store s3 \<longleftrightarrow>
     (\<forall>k obj r. st_get s3 k obj None = Inr r \<longrightarrow> (\<exists>t. obj = Some (sr_body r, t))) \<and>
     (\<forall>k obj e. st_head s3 k (Some obj) = Some e \<longrightarrow> \<not> is_missing e)"

lemma honest_read:
  assumes "honest_store s3" "read_object (st_get s3 k obj None) = Inr (Some content)"
  shows "\<exists>t. obj = Some (content, t)"
proof -
  obtain r where "st_get s3 k obj None = Inr r" "sr_body r = content"
    using assms(2) by (cases "st_get s3 k obj None") (simp_all add: read_object_def split: if_splits)
  with assms(1) show ?thesis unfolding honest_store_def by blast
qed

lemma honest_missing:
  assumes "honest_store s3" "object_exists (st_head s3 k obj) = Inr False"
  shows "obj = None"
proof (cases obj)
  case (Some x)
  obtain e where "st_head s3 k obj = Some e" "is_missing e"
    using assms(2) by (cases "st_head s3 k obj") (simp_all add: object_exists_def split: if_splits)
  with assms(1) Some show ?thesis unfolding honest_store_def by blast
qed simp

text \<open>Every object that was there still is, as it was or smaller, and only the named keys are touched.\<close>

definition shrunk_object :: "(bytes \<times> string) option \<Rightarrow> (bytes \<times> string) option \<Rightarrow> bool" where
  "shrunk_object x y \<longleftrightarrow>
     (case x of None \<Rightarrow> True
      | Some (c, t) \<Rightarrow> y = x \<or> (case y of None \<Rightarrow> False | Some (c', t') \<Rightarrow> length c' < length c))"

lemma shrunk_object_refl [simp]: "shrunk_object x x"
  by (simp add: shrunk_object_def split: option.split prod.split)

lemma shrunk_object_trans: "shrunk_object x y \<Longrightarrow> shrunk_object y z \<Longrightarrow> shrunk_object x z"
  by (cases x; cases y; cases z) (auto simp: shrunk_object_def)

definition shrinks :: "string set \<Rightarrow> bucket \<Rightarrow> bucket \<Rightarrow> bool" where
  "shrinks K b b' \<longleftrightarrow>
     (\<forall>k. shrunk_object (b k) (b' k)) \<and> (\<forall>k. b' k \<noteq> b k \<longrightarrow> k \<in> K \<union> thumb_key ` K)"

lemma shrinks_refl [simp]: "shrinks K b b"
  by (simp add: shrinks_def)

lemma shrinks_trans: "shrinks K b b1 \<Longrightarrow> shrinks K b1 b2 \<Longrightarrow> shrinks K b b2"
  unfolding shrinks_def by (metis shrunk_object_trans)

lemma shrinks_upd:
  "k \<in> K \<union> thumb_key ` K \<Longrightarrow> shrunk_object (b k) (Some (c, t)) \<Longrightarrow> shrinks K b (b(k \<mapsto> (c, t)))"
  by (simp add: shrinks_def)

lemma put_if_cases:
  assumes "put_if a s3 k c ct b = (e, b')"
  shows "b' = b \<or> a \<and> b' = b(k \<mapsto> (c, ct))"
  using assms by (auto simp: put_if_def s3_put_def split: if_splits option.splits)

lemma store_delivery_shrinks:
  assumes "b key = Some (content, t)" "key \<in> K"
    and "store_delivery a s3 key content rebuilt (rp, b) = (e, n, rp', b')"
  shows "shrinks K b b' \<and> (a \<or> b' = b) \<and> (\<forall>k. k \<noteq> key \<longrightarrow> b' k = b k)"
proof (cases "b' = b")
  case False
  then obtain d e' where d: "length d < length content" "put_if a s3 key d (rb_content_type rebuilt) b = (e', b')"
    using assms(3) by (auto simp: store_delivery_def split: option.splits if_splits prod.splits)
  with False have "a" "b' = b(key \<mapsto> (d, rb_content_type rebuilt))" by (auto dest: put_if_cases)
  with d assms(1,2) show ?thesis by (simp add: shrinks_upd shrunk_object_def)
qed simp

lemma store_thumbnail_shrinks:
  assumes "rb_thumbnail rebuilt \<noteq> None \<Longrightarrow> b (thumb_key key) = None" "key \<in> K"
    and "store_thumbnail a s3 key rebuilt (rp, b) = (e, rp', b')"
  shows "shrinks K b b' \<and> (a \<or> b' = b)"
proof (cases "b' = b")
  case False
  then obtain th e' where th: "rb_thumbnail rebuilt = Some th"
      "put_if a s3 (thumb_key key) th (rb_content_type rebuilt) b = (e', b')"
    using assms(3) by (auto simp: store_thumbnail_def Let_def split: option.splits prod.splits)
  with False have "a" "b' = b(thumb_key key \<mapsto> (th, rb_content_type rebuilt))" by (auto dest: put_if_cases)
  with th assms(1,2) show ?thesis by (simp add: shrinks_upd shrunk_object_def)
qed simp

lemma store_rebuilt_shrinks:
  assumes "rb_thumbnail rebuilt \<noteq> None \<Longrightarrow> b (thumb_key key) = None" "b key = Some (content, t)" "key \<in> K"
    and run: "store_rebuilt a s3 key content rebuilt (rp, b) = (e, rp', b')"
  shows "shrinks K b b' \<and> (a \<or> b' = b)"
proof -
  obtain e1 n rp2 b1 where sd: "store_delivery a s3 key content rebuilt
      (rp\<lparr>rp_processed := rp_processed rp + 1, rp_bytes_before := rp_bytes_before rp + length content\<rparr>, b) = (e1, n, rp2, b1)"
    by (cases "store_delivery a s3 key content rebuilt
      (rp\<lparr>rp_processed := rp_processed rp + 1, rp_bytes_before := rp_bytes_before rp + length content\<rparr>, b)")
  note one = store_delivery_shrinks[OF assms(2,3) sd]
  show ?thesis
  proof (cases e1)
    case (Some x)
    with run sd one show ?thesis by (simp add: store_rebuilt_def)
  next
    case None
    have st: "store_thumbnail a s3 key rebuilt (rp2\<lparr>rp_bytes_after := rp_bytes_after rp2 + n\<rparr>, b1) = (e, rp', b')"
      using run sd None by (simp add: store_rebuilt_def)
    have absent: "b1 (thumb_key key) = None" if "rb_thumbnail rebuilt \<noteq> None"
    proof -
      have "thumb_key key \<noteq> key" using assms(1)[OF that] assms(2) by auto
      with one assms(1)[OF that] show ?thesis by simp
    qed
    have "shrinks K b1 b' \<and> (a \<or> b' = b1)"
      by (rule store_thumbnail_shrinks[OF _ assms(3) st]) (rule absent)
    with one show ?thesis by (blast intro: shrinks_trans)
  qed
qed

lemma rebuilt_thumbnail:
  "rebuild_stored_image pl content r th = Inr rebuilt \<Longrightarrow> rb_thumbnail rebuilt \<noteq> None \<longleftrightarrow> th"
  by (auto simp: rebuild_stored_image_def bind_res_def Let_def split: sum.splits prod.splits if_splits)

lemma rebuild_key_shrinks:
  assumes honest: "honest_store s3" and key: "key \<in> K"
    and found: "\<forall>c. found = Some c \<longrightarrow> (\<exists>t. b key = Some (c, t))"
    and run: "rebuild_key pl a s3 key probe found (rp, b) = (e, rp', b')"
  shows "shrinks K b b' \<and> (a \<or> b' = b)"
proof (cases "b' = b")
  case False
  then obtain there content rebuilt rp2 where
      there: "object_exists (st_head s3 (thumb_key key) (b (thumb_key key))) = Inr there"
    and content: "(case found of Some c \<Rightarrow> Inr (Some c) | None \<Rightarrow> read_object (st_get s3 key (b key) None)) = Inr (Some content)"
    and rebuilt: "rebuild_stored_image pl content (long_edge probe > DELIVERY_MAX_EDGE) (\<not> there) = Inr rebuilt"
    and store: "store_rebuilt a s3 key content rebuilt (rp2, b) = (e, rp', b')"
    using run by (auto simp: rebuild_key_def Let_def split: sum.splits option.splits if_splits prod.splits)
  obtain t where t: "b key = Some (content, t)"
    using content found honest_read[OF honest] by (auto split: option.splits)
  show ?thesis
  proof (rule store_rebuilt_shrinks[OF _ t key store])
    assume "rb_thumbnail rebuilt \<noteq> None"
    with rebuilt_thumbnail[OF rebuilt] there show "b (thumb_key key) = None"
      by (auto dest!: honest_missing[OF honest])
  qed
qed simp

lemma probe_stored_found:
  assumes "honest_store s3" "probe_stored pl s3 key b head rp = Inr (probe, found)"
  shows "\<forall>c. found = Some c \<longrightarrow> (\<exists>t. b key = Some (c, t))"
  using assms(2) honest_read[OF assms(1)]
  by (auto simp: probe_stored_def split: sum.splits option.splits if_splits)

lemma process_key_shrinks:
  assumes honest: "honest_store s3" and key: "key \<in> K"
    and run: "process_key pl a s3 key (rp, b) = (e, rp', b')"
  shows "shrinks K b b' \<and> (a \<or> b' = b)"
proof (cases "b' = b")
  case False
  then obtain head probe found where
      "probe_stored pl s3 key b head rp = Inr (probe, found)" "rebuild_key pl a s3 key probe found (rp, b) = (e, rp', b')"
    using run by (auto simp: process_key_def split: sum.splits option.splits prod.splits)
  with honest key show ?thesis by (metis probe_stored_found rebuild_key_shrinks)
qed simp

lemma run_step_shrinks:
  assumes "honest_store s3" "key \<in> K"
  shows "shrinks K (snd st) (snd (run_step pl a s3 key st)) \<and> (a \<or> snd (run_step pl a s3 key st) = snd st)"
proof -
  obtain rp b where st: "st = (rp, b)" by (cases st)
  obtain e rp' b' where pk: "process_key pl a s3 key (rp\<lparr>rp_scanned := rp_scanned rp + 1\<rparr>, b) = (e, rp', b')"
    by (cases "process_key pl a s3 key (rp\<lparr>rp_scanned := rp_scanned rp + 1\<rparr>, b)")
  from process_key_shrinks[OF assms pk] show ?thesis
    by (cases e) (simp_all add: run_step_def st pk[simplified])
qed

lemma run_fold_shrinks:
  assumes "honest_store s3"
  shows "set ks \<subseteq> K \<Longrightarrow> shrinks K (snd st) (snd (fold (run_step pl a s3) ks st))
     \<and> (a \<or> snd (fold (run_step pl a s3) ks st) = snd st)"
proof (induction ks arbitrary: st)
  case (Cons k ks)
  have "k \<in> K" "set ks \<subseteq> K" using Cons.prems by simp_all
  note one = run_step_shrinks[OF assms this(1), of st pl a] and rest = Cons.IH[OF this(2), of "run_step pl a s3 k st"]
  from one rest show ?case by (auto intro: shrinks_trans)
qed simp

section \<open>The dry run tells what the applied run does\<close>

definition told :: "exn option \<times> run_state \<Rightarrow> exn option \<times> run_report" where
  "told = (\<lambda>(e, rp, b). (e, rp))"

lemma put_if_ok: "st_put s3 = (\<lambda>_. None) \<Longrightarrow> put_if a s3 k c ct b = (None, if a then b(k \<mapsto> (c, ct)) else b)"
  by (simp add: put_if_def s3_put_def)

lemma store_thumbnail_told:
  "st_put s3 = (\<lambda>_. None) \<Longrightarrow>
     told (store_thumbnail True s3 key r (rp, b)) = told (store_thumbnail False s3 key r (rp, b'))"
  by (simp add: told_def store_thumbnail_def put_if_ok split: option.split)

lemma store_rebuilt_told:
  assumes "st_put s3 = (\<lambda>_. None)"
  shows "told (store_rebuilt True s3 key content r (rp, b)) = told (store_rebuilt False s3 key content r (rp, b'))"
  using store_thumbnail_told[OF assms]
  by (simp add: store_rebuilt_def store_delivery_def put_if_ok[OF assms] Let_def split: option.split)

lemma told_simps [simp]: "told (e, rp, b) = (e, rp)"
  by (simp add: told_def)

lemma rebuild_key_told:
  assumes "st_put s3 = (\<lambda>_. None)" "b key = b' key" "b (thumb_key key) = b' (thumb_key key)"
  shows "told (rebuild_key pl True s3 key probe found (rp, b)) = told (rebuild_key pl False s3 key probe found (rp, b'))"
  using store_rebuilt_told[OF assms(1)]
  by (simp add: rebuild_key_def Let_def assms(2,3) split: sum.split option.split prod.split)

lemma probe_stored_cong:
  assumes "b key = b' key"
  shows "probe_stored pl s3 key b head rp = probe_stored pl s3 key b' head rp"
  unfolding probe_stored_def assms ..

lemma process_key_told:
  assumes "st_put s3 = (\<lambda>_. None)" "b key = b' key" "b (thumb_key key) = b' (thumb_key key)"
  shows "told (process_key pl True s3 key (rp, b)) = told (process_key pl False s3 key (rp, b'))"
proof -
  have probe: "probe_stored pl s3 key b h rp = probe_stored pl s3 key b' h rp" for h
    by (rule probe_stored_cong) (rule assms(2))
  show ?thesis
  proof (cases "read_object_head (st_get s3 key (b' key) (Some HEAD_READ_BYTES))")
    case (Inl e)
    then show ?thesis by (simp add: process_key_def assms(2))
  next
    case (Inr found)
    show ?thesis
    proof (cases found)
      case None
      with Inr show ?thesis by (simp add: process_key_def assms(2))
    next
      case (Some h)
      with Inr rebuild_key_told[OF assms] show ?thesis
        by (cases "probe_stored pl s3 key b' h rp") (auto simp: process_key_def assms(2) probe)
    qed
  qed
qed

lemma run_step_told:
  assumes "st_put s3 = (\<lambda>_. None)" "b key = b' key" "b (thumb_key key) = b' (thumb_key key)"
  shows "fst (run_step pl True s3 key (rp, b)) = fst (run_step pl False s3 key (rp, b'))"
  using process_key_told[OF assms, of pl "rp\<lparr>rp_scanned := rp_scanned rp + 1\<rparr>"]
  by (auto simp: run_step_def told_def split: prod.splits option.splits)

lemma thumb_key_plain:
  "k \<noteq> [] \<Longrightarrow> \<not> starts_with k THUMB_KEY_PREFIX \<Longrightarrow> thumb_key k = THUMB_KEY_PREFIX @ k"
  by (simp add: thumb_key_def)

lemma run_fold_told:
  assumes honest: "honest_store s3" and ok: "st_put s3 = (\<lambda>_. None)"
  shows "distinct ks \<Longrightarrow> list_all (\<lambda>k. k \<noteq> [] \<and> \<not> starts_with k THUMB_KEY_PREFIX) ks \<Longrightarrow>
     (\<forall>k \<in> set ks. b k = b' k \<and> b (thumb_key k) = b' (thumb_key k)) \<Longrightarrow>
     fst (fold (run_step pl True s3) ks (rp, b)) = fst (fold (run_step pl False s3) ks (rp, b'))"
proof (induction ks arbitrary: rp b b')
  case (Cons key ks)
  obtain rp1 b1 where one: "run_step pl True s3 key (rp, b) = (rp1, b1)" by fastforce
  have "shrinks {key} b b1" using run_step_shrinks[OF honest, of key "{key}" "(rp, b)" pl True] one by simp
  then have frame: "b1 k = b k" if "k \<noteq> key" "k \<noteq> thumb_key key" for k
    using that unfolding shrinks_def by fastforce
  have two: "run_step pl False s3 key (rp, b') = (rp1, b')"
    using run_step_told[OF ok, of b key b' pl rp] one Cons.prems(3)
      run_step_shrinks[OF honest, of key "{key}" "(rp, b')" pl False] by (auto simp: prod_eq_iff)
  have plain: "thumb_key key = THUMB_KEY_PREFIX @ key" using Cons.prems(2) by (simp add: thumb_key_plain)
  have "b1 k = b' k \<and> b1 (thumb_key k) = b' (thumb_key k)" if "k \<in> set ks" for k
  proof -
    have k: "k \<noteq> key" "k \<noteq> []" "\<not> starts_with k THUMB_KEY_PREFIX" "\<not> starts_with key THUMB_KEY_PREFIX"
      using that Cons.prems(1,2) by (auto simp: list_all_iff)
    then have "k \<noteq> thumb_key key" "thumb_key k \<noteq> key" "thumb_key k \<noteq> thumb_key key"
      by (auto simp: plain thumb_key_plain starts_with_def)
    with k that Cons.prems(3) show ?thesis by (simp add: frame)
  qed
  with Cons.IH[of b1 b' rp1] Cons.prems(1,2) show ?case by (simp add: one two)
qed simp

lemma collected_keys: "distinct (collect_attachment_keys d)" "[] \<notin> set (collect_attachment_keys d)"
  by (auto simp: collect_attachment_keys_def)

definition attached_keys :: "db \<Rightarrow> string set" where
  "attached_keys d = {k. k \<noteq> [] \<and> (\<exists>a ks. a \<in> set (db_ads d) \<and> ad_images a = Some ks \<and> k \<in> set ks)}"

lemma collected_set: "set (collect_attachment_keys d) = attached_keys d"
proof (rule set_eqI)
  show "k \<in> set (collect_attachment_keys d) \<longleftrightarrow> k \<in> attached_keys d" for k
    by (auto simp: collect_attachment_keys_def attached_keys_def split: option.splits) force+
qed

text \<open>
  C39: C41. A run over the attachments damages nothing. When the storage is honest about what it holds,
  every object that was there is still there, as it was or replaced by a strictly smaller one; only
  keys that an advertisement names, and their thumbnails, are touched; and without the flag that
  applies it nothing is written at all.
\<close>

theorem recompression_only_shrinks:
  assumes "honest_store s3" "recompress_attachments pl apply_it s3 d b = (rp, b')"
  shows "shrunk_object (b k) (b' k) \<and>
    (b' k = b k \<or> k \<in> attached_keys d \<union> thumb_key ` attached_keys d) \<and> (apply_it \<or> b' = b)"
  using run_fold_shrinks[OF assms(1), of "collect_attachment_keys d" "attached_keys d" "(empty_report, b)" pl apply_it] assms(2)
  by (auto simp: recompress_attachments_def collected_set shrinks_def)


definition plain_store :: s3_store where
  "plain_store = \<lparr>
     st_get = (\<lambda>k obj n. case obj of
        None \<Rightarrow> Inl (ClientError ''NoSuchKey'')
      | Some (c, t) \<Rightarrow> Inr \<lparr>sr_body = (case n of None \<Rightarrow> c | Some m \<Rightarrow> take m c), sr_content_range = None,
          sr_content_length = Some (int (length c))\<rparr>),
     st_head = (\<lambda>k obj. if obj = None then Some (ClientError ''404'') else None),
     st_put = (\<lambda>_. None)\<rparr>"

lemma plain_store_honest: "honest_store plain_store"
  by (auto simp: honest_store_def plain_store_def split: option.splits)

section \<open>Schedules keep only groups that exist\<close>

text \<open>Every value of the list is the identifier of a group, as a dictionary would find it.\<close>

definition names_only :: "int set \<Rightarrow> pyval \<Rightarrow> bool" where
  "names_only ids v \<longleftrightarrow>
     \<not> truthy v \<or> (\<exists>vs ks. py_iter v = Inr vs \<and> map_res group_key vs = Inr ks \<and> set ks \<subseteq> Some ` ids)"

lemma kept_keys:
  "map_res group_key vs = Inr ks \<Longrightarrow>
     map_res group_key (map fst (filter (\<lambda>(x, k). P k) (zip vs ks))) = Inr (filter P ks) \<and>
     length (map fst (filter (\<lambda>(x, k). P k) (zip vs ks))) = length (filter P ks) \<and> length ks = length vs"
  by (induction vs arbitrary: ks) (auto simp: result_simps)

lemma length_filter_all: "length (filter P xs) = length xs \<Longrightarrow> x \<in> set xs \<Longrightarrow> P x"
  by (metis filter_id_conv length_filter_less nat_neq_iff)

lemma cleanup_ids_names_only:
  assumes "cleanup_ids ids v = Inr v'"
  shows "names_only ids v'"
proof (cases "truthy v")
  case True
  let ?P = "\<lambda>k. k \<in> Some ` ids" and ?K = "\<lambda>vs ks. map fst (filter (\<lambda>(x, k). k \<in> Some ` ids) (zip vs ks))"
  from assms True obtain vs ks where it: "py_iter v = Inr vs" "map_res group_key vs = Inr ks"
    and v': "v' = (if length (?K vs ks) = length vs then v else PList (?K vs ks))"
    by (auto simp: cleanup_ids_def bind_res_def Let_def split: sum.splits)
  obtain kl where kl: "kl = ?K vs ks" by simp
  have kept: "map_res group_key kl = Inr (filter ?P ks)" "length kl = length (filter ?P ks)" "length ks = length vs"
    using kept_keys[OF it(2), of ?P] unfolding kl by blast+
  show ?thesis
  proof (cases "length kl = length vs")
    case True
    then have "v' = v" unfolding v' kl[symmetric] by simp
    moreover have "set ks \<subseteq> Some ` ids"
    proof
      show "k \<in> set ks \<Longrightarrow> k \<in> Some ` ids" for k
        using length_filter_all[of ?P ks k] kept(2,3) True by presburger
    qed
    ultimately show ?thesis using it unfolding names_only_def by blast
  next
    case False
    then have "v' = PList kl" unfolding v' kl[symmetric] by simp
    moreover have "set (filter ?P ks) \<subseteq> Some ` ids" unfolding set_filter by blast
    ultimately show ?thesis using kept(1) py_iter.simps(1)[of kl] unfolding names_only_def by blast
  qed
next
  case False
  with assms show ?thesis by (simp add: cleanup_ids_def names_only_def)
qed

lemma no_changes_counted:
  "length xs = length ys \<Longrightarrow> count_where (\<lambda>(s, s'). s \<noteq> s') (zip xs ys) = 0 \<Longrightarrow> xs = ys"
  by (induction xs ys rule: list_induct2) (auto split: if_splits)

text \<open>
  C43. After the cleanup no schedule names a group that is gone. When it comes through, nothing
  but the group lists of the schedules changes, every one of the new lists names existing groups
  only, the number it prints is the number of the schedules it changed, and the dry run, which
  changes nothing, prints the same number.
\<close>

theorem cleanup_leaves_no_stale_group:
  assumes "cleanup_schedules apply_it d = Inr (n, d')"
  shows "\<exists>ss. d' = (if apply_it then d\<lparr>db_schedules := ss\<rparr> else d) \<and>
    list_all2 (\<lambda>s s'. s' = s\<lparr>sch_group_ids := sch_group_ids s'\<rparr> \<and>
      names_only (grp_id ` set (db_groups d)) (sch_group_ids s')) (db_schedules d) ss \<and>
    n = count_where (\<lambda>(s, s'). s \<noteq> s') (zip (db_schedules d) ss) \<and>
    cleanup_schedules False d = Inr (n, d)"
proof -
  let ?f = "\<lambda>s. bind_res (cleanup_ids (grp_id ` set (db_groups d)) (sch_group_ids s)) (\<lambda>v. Inr (s\<lparr>sch_group_ids := v\<rparr>))"
  obtain ss where ss: "map_res ?f (db_schedules d) = Inr ss"
    and n: "n = count_where (\<lambda>(s, s'). s \<noteq> s') (zip (db_schedules d) ss)"
    and d': "d' = (if 0 < n \<and> apply_it then d\<lparr>db_schedules := ss\<rparr> else d)"
    using assms by (auto simp: cleanup_schedules_def bind_res_def Let_def split: sum.splits)
  from ss have all: "list_all2 (\<lambda>s s'. ?f s = Inr s') (db_schedules d) ss" by (simp add: map_res_eq_Inr)
  have "list_all2 (\<lambda>s s'. s' = s\<lparr>sch_group_ids := sch_group_ids s'\<rparr> \<and>
      names_only (grp_id ` set (db_groups d)) (sch_group_ids s')) (db_schedules d) ss"
    by (rule list_all2_mono[OF all]) (auto simp: bind_res_def cleanup_ids_names_only split: sum.splits)
  moreover have "d' = (if apply_it then d\<lparr>db_schedules := ss\<rparr> else d)"
  proof (cases "n = 0")
    case True
    then have "db_schedules d = ss" using n list_all2_lengthD[OF all] by (simp add: no_changes_counted)
    with d' True show ?thesis by auto
  next
    case False
    with d' show ?thesis by simp
  qed
  moreover have "cleanup_schedules False d = Inr (n, d)"
    using ss by (simp add: cleanup_schedules_def n)
  ultimately show ?thesis using n by blast
qed

section \<open>Runs of the scripts\<close>

definition attachment_db :: db where
  "attachment_db = empty_db\<lparr>db_ads := [sample_ad\<lparr>ad_images := Some [''a.jpg'', ''b.jpg'', ''a.jpg'']\<rparr>]\<rparr>"

definition attachment_bucket :: bucket where
  "attachment_bucket = [''a.jpg'' \<mapsto> ([1, 2, 3], ''image/jpeg'')]"

lemma attachment_run:
  "collect_attachment_keys attachment_db = [''a.jpg'', ''b.jpg'']"
  by (simp add: collect_attachment_keys_def attachment_db_def empty_db_def sample_ad_def)

lemma recompression_only_shrinks_witness:
  "\<exists>rp b'. recompress_attachments (toy_pillow (3000, 1000) JPEG) True plain_store attachment_db attachment_bucket = (rp, b') \<and>
     shrunk_object (attachment_bucket ''a.jpg'') (b' ''a.jpg'')"
proof -
  obtain rp b' where run: "recompress_attachments (toy_pillow (3000, 1000) JPEG) True plain_store attachment_db attachment_bucket = (rp, b')"
    by (cases "recompress_attachments (toy_pillow (3000, 1000) JPEG) True plain_store attachment_db attachment_bucket")
  from recompression_only_shrinks[OF plain_store_honest run] run show ?thesis by blast
qed


definition stale_db :: db where
  "stale_db = empty_db\<lparr>db_groups := [sample_group], db_schedules := [sample_schedule\<lparr>sch_group_ids := PList [PInt 1, PInt 8]\<rparr>]\<rparr>"

lemma cleanup_leaves_no_stale_group_witness:
  "cleanup_schedules True stale_db =
     Inr (1, stale_db\<lparr>db_schedules := [sample_schedule\<lparr>sch_group_ids := PList [PInt 1]\<rparr>]\<rparr>) \<and>
   cleanup_schedules False stale_db = Inr (1, stale_db)"
proof -
  have run: "cleanup_schedules True stale_db =
      Inr (1, stale_db\<lparr>db_schedules := [sample_schedule\<lparr>sch_group_ids := PList [PInt 1]\<rparr>]\<rparr>)"
    by (simp add: cleanup_schedules_def cleanup_ids_def stale_db_def empty_db_def sample_group_def sample_schedule_def
        bind_res_def Let_def)
  from cleanup_leaves_no_stale_group[OF run] run show ?thesis by blast
qed

end
