(* ===== verification/Spec2Isabelle.thy ===== *)
theory Spec2Isabelle
  imports Payment_Runs Group_Resync Billing_Web Listings Telegram_Sign_In Admin_Pages Maintenance
begin

text \<open>
  A model of the broadcaster: a web application that sends advertisements of its users to
  messenger groups on a schedule and sells them access by subscription.
\<close>

end
